(* ===== verification/Prelude.thy ===== *)
theory Prelude
  imports Main "HOL-Library.Word" "HOL-Library.Monad_Syntax"
begin

text \<open>
  Shared vocabulary of the development: the machine types of the C sources, byte
  buffers with checked reads and writes, and the generic lemmas on lists and options
  that the component theories use.

  A C object in memory is a list of bytes. A read or a write outside of it is
  undefined behaviour in C, and every access below is therefore partial: \<open>None\<close> is
  "the code touches memory outside the buffer". Functions that return such an option
  never hide an overrun; a theorem that a result is \<open>Some\<close> is a memory safety
  statement.
\<close>

type_synonym byte = "8 word"
type_synonym u16 = "16 word"
type_synonym u32 = "32 word"
type_synonym u64 = "64 word"

text \<open>Lemma collections: access to buffers, and results of partial computations.\<close>

named_theorems buf_simps
named_theorems bind_intros

text \<open>The bytes of a literal text.\<close>

definition bytes_of :: "string \<Rightarrow> byte list" where
  "bytes_of s = map (\<lambda>c. of_nat (of_char c)) s"

section \<open>Words of different widths\<close>

lemma unat_ucast_mod: "unat (ucast (w :: 'a::len word) :: 'b::len word) = unat w mod 2 ^ LENGTH('b)"
  by (simp add: unsigned_ucast_eq take_bit_eq_mod)

lemma unat_ucast_up:
  assumes "LENGTH('a::len) \<le> LENGTH('b::len)"
  shows "unat (ucast (w :: 'a word) :: 'b word) = unat w"
proof -
  have "unat w < 2 ^ LENGTH('a)" by (rule unsigned_less)
  also have "(2 :: nat) ^ LENGTH('a) \<le> 2 ^ LENGTH('b)" using assms by (simp add: power_increasing)
  finally show ?thesis by (simp add: unat_ucast_mod)
qed

section \<open>Checked access to byte buffers\<close>

definition rd :: "byte list \<Rightarrow> nat \<Rightarrow> nat \<Rightarrow> byte list option" where
  "rd buf off n = (if off + n \<le> length buf then Some (take n (drop off buf)) else None)"

definition wr :: "byte list \<Rightarrow> nat \<Rightarrow> byte list \<Rightarrow> byte list option" where
  "wr buf off bs =
     (if off + length bs \<le> length buf
      then Some (take off buf @ bs @ drop (off + length bs) buf) else None)"

lemma rd_eq_Some_iff [buf_simps]:
  "rd buf off n = Some bs \<longleftrightarrow> off + n \<le> length buf \<and> bs = take n (drop off buf)"
  by (auto simp: rd_def)

lemma rd_eq_None_iff [buf_simps]: "rd buf off n = None \<longleftrightarrow> length buf < off + n"
  by (auto simp: rd_def)

lemma length_rd: "rd buf off n = Some bs \<Longrightarrow> length bs = n"
  by (auto simp: rd_def split: if_splits)

lemma length_wr: "wr buf off bs = Some buf' \<Longrightarrow> length buf' = length buf"
  by (auto simp: wr_def split: if_splits)

lemma rd_nth: "rd buf off n = Some bs \<Longrightarrow> i < n \<Longrightarrow> buf ! (off + i) = bs ! i"
  by (auto simp: rd_def split: if_splits)

lemma wr_eq_None_iff [buf_simps]: "wr buf off bs = None \<longleftrightarrow> length buf < off + length bs"
  by (auto simp: wr_def)

lemma wr_frame:
  assumes "wr buf off bs = Some buf'"
  shows "take off buf' = take off buf" and "drop (off + length bs) buf' = drop (off + length bs) buf"
proof -
  have "off + length bs \<le> length buf" and b: "buf' = take off buf @ bs @ drop (off + length bs) buf"
    using assms by (auto simp: wr_def split: if_splits)
  then show "take off buf' = take off buf"
    and "drop (off + length bs) buf' = drop (off + length bs) buf"
    unfolding b by simp_all
qed

lemma rd_wr_same:
  "wr buf off bs = Some buf' \<Longrightarrow> n = length bs \<Longrightarrow> rd buf' off n = Some bs"
  by (auto simp: wr_def rd_def split: if_splits)

lemma rd_wr_before:
  assumes "wr buf off bs = Some buf'" and "i + n \<le> off"
  shows "rd buf' i n = rd buf i n"
proof -
  have len: "length buf' = length buf" using assms(1) by (rule length_wr)
  from assms have b: "buf' = take off buf @ bs @ drop (off + length bs) buf"
    and fits: "off + length bs \<le> length buf" by (auto simp: wr_def split: if_splits)
  have "take n (drop i buf') = take n (drop i (take off buf))"
    using assms(2) fits by (simp add: b)
  also have "\<dots> = take n (drop i buf)"
    using assms(2) by (simp add: drop_take min_def)
  finally show ?thesis using len by (simp add: rd_def)
qed

lemma rd_wr_after:
  assumes "wr buf off bs = Some buf'" and "off + length bs \<le> i"
  shows "rd buf' i n = rd buf i n"
proof -
  have len: "length buf' = length buf" using assms(1) by (rule length_wr)
  from assms have b: "buf' = take off buf @ bs @ drop (off + length bs) buf"
    and fits: "off + length bs \<le> length buf" by (auto simp: wr_def split: if_splits)
  have "drop i buf' = drop i buf"
    using assms(2) fits by (simp add: b)
  then show ?thesis using len by (simp add: rd_def)
qed

text \<open>A read that lies inside the first or the second part of a buffer.\<close>

lemma rd_append1: "off + n \<le> length xs \<Longrightarrow> rd (xs @ ys) off n = rd xs off n"
  by (simp add: rd_def)

lemma rd_append2: "length xs \<le> off \<Longrightarrow> rd (xs @ ys) off n = rd ys (off - length xs) n"
  by (auto simp: rd_def)

lemma rd_append_Some: "rd xs off n = Some bs \<Longrightarrow> rd (xs @ ys) off n = Some bs"
  by (simp add: rd_eq_Some_iff)

lemma rd_middle: "off = length xs \<Longrightarrow> n = length ys \<Longrightarrow> rd (xs @ ys @ zs) off n = Some ys"
  by (simp add: rd_def)

lemma rd_0_append: "n = length xs \<Longrightarrow> rd (xs @ ys) 0 n = Some xs"
  by (simp add: rd_def)

lemma rd_drop: "rd (drop k buf) off n = (if k \<le> length buf then rd buf (k + off) n
    else if n + off = 0 then Some [] else None)"
  by (auto simp: rd_def add.commute)

text \<open>Adjacent writes are one write, and a read inside a block that was read.\<close>

lemma wr_wr_adjacent:
  "wr buf off xs = Some b1 \<Longrightarrow> wr b1 (off + length xs) ys = wr buf off (xs @ ys)"
  by (auto simp: wr_def ac_simps split: if_splits)

lemma rd_rd:
  assumes "rd buf off m = Some bs" and "i + n \<le> m"
  shows "rd buf (off + i) n = rd bs i n"
  using assms by (auto simp: rd_def drop_take add.commute min_def split: if_splits)

text \<open>
  A sequence of stores, and the case where each begins where the one before it ended:
  then the sequence is one store of the concatenation.
\<close>

fun wrs :: "byte list \<Rightarrow> (nat \<times> byte list) list \<Rightarrow> byte list option" where
  "wrs buf [] = Some buf"
| "wrs buf ((off, bs) # ws) = do { buf' \<leftarrow> wr buf off bs; wrs buf' ws }"

fun adjacent_from :: "nat \<Rightarrow> (nat \<times> byte list) list \<Rightarrow> bool" where
  "adjacent_from off [] = True"
| "adjacent_from off ((o', bs) # ws) = (o' = off \<and> adjacent_from (off + length bs) ws)"

lemma wrs_adjacent_step:
  "adjacent_from (off + length xs) ws \<Longrightarrow> wr buf off xs = Some buf' \<Longrightarrow>
     wrs buf' ws = wr buf off (xs @ concat (map snd ws))"
proof (induction ws arbitrary: xs buf')
  case Nil
  then show ?case by simp
next
  case (Cons w ws)
  obtain bs where w: "w = (off + length xs, bs)"
    and adj: "adjacent_from (off + length (xs @ bs)) ws"
    using Cons.prems(1) by (cases w) (auto simp: add.assoc)
  have s: "wr buf' (off + length xs) bs = wr buf off (xs @ bs)"
    using Cons.prems(2) by (rule wr_wr_adjacent)
  show ?case
  proof (cases "wr buf off (xs @ bs)")
    case None
    then have "wr buf off (xs @ bs @ concat (map snd ws)) = None"
      by (auto simp: wr_eq_None_iff)
    with None s w show ?thesis by simp
  next
    case (Some b)
    with s w Cons.IH [OF adj Some] show ?thesis by simp
  qed
qed

lemma wrs_adjacent:
  assumes "adjacent_from off ws" and "off \<le> length buf"
  shows "wrs buf ws = wr buf off (concat (map snd ws))"
  using wrs_adjacent_step [of off "[]" ws buf buf] assms by (simp add: wr_def)

section \<open>C strings\<close>

text \<open>
  A NUL-terminated string is the list of its bytes without the terminator;
  \<open>cstr bs\<close> is what \<open>strdup\<close> copies when it reads \<open>bs\<close>: everything before the first
  NUL.
\<close>

definition cstr :: "byte list \<Rightarrow> byte list" where
  "cstr bs = takeWhile (\<lambda>b. b \<noteq> 0) bs"

lemma cstr_append_NUL: "0 \<notin> set s \<Longrightarrow> cstr (s @ 0 # t) = s"
  unfolding cstr_def by (induction s) auto

lemma cstr_id: "0 \<notin> set s \<Longrightarrow> cstr s = s"
  unfolding cstr_def by (induction s) auto

lemma NUL_notin_cstr: "0 \<notin> set (cstr s)"
  unfolding cstr_def using set_takeWhileD by fastforce

lemma length_cstr_le: "length (cstr s) \<le> length s"
  by (simp add: cstr_def length_takeWhile_le)

text \<open>The string at an offset of a buffer; without a NUL it runs out of the buffer.\<close>

definition string_at :: "byte list \<Rightarrow> nat \<Rightarrow> byte list option" where
  "string_at dat off =
     (if off \<le> length dat \<and> 0 \<in> set (drop off dat) then Some (cstr (drop off dat)) else None)"

section \<open>Partial computations over lists\<close>

text \<open>\<open>mapM f xs\<close> runs \<open>f\<close> over the list from the left and stops at the first fault.\<close>

fun mapM :: "('a \<Rightarrow> 'b option) \<Rightarrow> 'a list \<Rightarrow> 'b list option" where
  "mapM f [] = Some []"
| "mapM f (x # xs) = do { y \<leftarrow> f x; ys \<leftarrow> mapM f xs; Some (y # ys) }"

lemma mapM_eq_Some_iff:
  "mapM f xs = Some ys \<longleftrightarrow> length ys = length xs \<and> (\<forall>i < length xs. f (xs ! i) = Some (ys ! i))"
proof (induction xs arbitrary: ys)
  case Nil
  then show ?case by auto
next
  case (Cons x xs)
  show ?case
  proof (cases ys)
    case Nil
    then show ?thesis by (auto simp: Option.bind_eq_Some_conv)
  next
    case (Cons z zs)
    then have "mapM f (x # xs) = Some ys \<longleftrightarrow> f x = Some z \<and> mapM f xs = Some zs"
      by (auto simp: Option.bind_eq_Some_conv)
    also have "\<dots> \<longleftrightarrow> f x = Some z \<and> length zs = length xs \<and>
        (\<forall>i < length xs. f (xs ! i) = Some (zs ! i))"
      by (simp only: Cons.IH)
    finally show ?thesis using Cons by (auto simp: nth_Cons split: nat.splits)
  qed
qed

lemma length_mapM: "mapM f xs = Some ys \<Longrightarrow> length ys = length xs"
  by (simp add: mapM_eq_Some_iff)

lemma mapM_cong: "(\<And>x. x \<in> set xs \<Longrightarrow> f x = g x) \<Longrightarrow> mapM f xs = mapM g xs"
  by (induction xs) auto

lemma mapM_total: "(\<And>x. x \<in> set xs \<Longrightarrow> f x = Some (g x)) \<Longrightarrow> mapM f xs = Some (map g xs)"
  by (induction xs) auto

lemma mapM_eq_None_iff: "mapM f xs = None \<longleftrightarrow> (\<exists>x \<in> set xs. f x = None)"
  by (induction xs) (auto simp: Option.bind_eq_None_conv)

lemma bind_SomeI [bind_intros]: "x = Some a \<Longrightarrow> f a = y \<Longrightarrow> Option.bind x f = y"
  by simp

section \<open>Lists\<close>

lemma nth_update: "j < length xs \<Longrightarrow> xs[i := x] ! j = (if i = j then x else xs ! j)"
  by (cases "i < length xs") (auto simp: nth_list_update)

lemma takeWhile_neq: "c \<notin> set xs \<Longrightarrow> takeWhile (\<lambda>x. x \<noteq> c) (xs @ c # ys) = xs"
  by (induction xs) auto

lemma take_drop_nth: "i < length xs \<Longrightarrow> take (Suc 0) (drop i xs) = [xs ! i]"
  by (simp add: take_Suc_conv_app_nth hd_drop_conv_nth take_Suc)

lemma length_concat_const:
  "(\<And>x. x \<in> set xs \<Longrightarrow> length (f x) = k) \<Longrightarrow> length (concat (map f xs)) = k * length xs"
  by (induction xs) (auto simp: algebra_simps)

lemma rd_concat_const:
  assumes "\<And>x. x \<in> set xs \<Longrightarrow> length (f x) = k" and "i < length xs"
  shows "rd (concat (map f xs)) (k * i) k = Some (f (xs ! i))"
  using assms
proof (induction xs arbitrary: i)
  case Nil
  then show ?case by simp
next
  case (Cons x xs)
  show ?case
  proof (cases i)
    case 0
    with Cons.prems show ?thesis by (simp add: rd_def)
  next
    case (Suc j)
    with Cons show ?thesis by (simp add: rd_append2)
  qed
qed

end
