(* ===== verification/Ptp_Endian.thy ===== *)
theory Ptp_Endian
  imports Prelude
begin

unbundle bit_operations_syntax

text \<open>
  Device byte order: the \<open>htod\<close>/\<open>dtoh\<close> accessors at the top of \<open>src/src/ptp-pack.c\<close>,
  on top of the byte-order macros that \<open>src/m4/byteorder.m4\<close> generates. The accessors
  for arrays (\<open>htod16a(a,x)\<close> and so on) are the bytes they store and the value they
  read; the store itself is \<open>wr\<close> and the load is \<open>rd\<close> of the prelude, so an access
  outside the buffer is \<open>None\<close>. The host is little-endian (every platform the program
  is built for). The locale \<open>codec\<close> is the contract the dataset layers rely on.
\<close>

section \<open>The transport-independent parameters\<close>

text \<open>
  The fields of \<open>PTPParams\<close> that the pack and unpack functions read. The two iconv
  descriptors are \<open>None\<close> for \<open>(iconv_t)-1\<close>; otherwise a conversion of a byte string
  that returns \<open>None\<close> when \<open>iconv\<close> returns \<open>-1\<close>.
\<close>

record ptp_params =
  byteorder :: byte
  cd_locale_to_ucs2 :: "(byte list \<Rightarrow> byte list option) option"
  cd_ucs2_to_locale :: "(byte list \<Rightarrow> byte list option) option"

definition PTP_DL_BE :: byte where "PTP_DL_BE = 0xF0"
definition PTP_DL_LE :: byte where "PTP_DL_LE = 0x0F"

text \<open>A device of the given byte order on a host without iconv.\<close>

definition plain_params :: "byte \<Rightarrow> ptp_params" where
  "plain_params bo = \<lparr>byteorder = bo, cd_locale_to_ucs2 = None, cd_ucs2_to_locale = None\<rparr>"

lemma plain_params_simps [simp]:
  "byteorder (plain_params bo) = bo" "cd_locale_to_ucs2 (plain_params bo) = None"
  "cd_ucs2_to_locale (plain_params bo) = None"
  by (simp_all add: plain_params_def)

section \<open>Words as byte sequences\<close>

definition le_bytes :: "nat \<Rightarrow> 'a::len word \<Rightarrow> byte list" where
  "le_bytes n w = map (\<lambda>i. ucast (drop_bit (8 * i) w)) [0..<n]"

fun le_word :: "byte list \<Rightarrow> 'a::len word" where
  "le_word [] = 0"
| "le_word (b # bs) = ucast b OR push_bit 8 (le_word bs)"

definition be_bytes :: "nat \<Rightarrow> 'a::len word \<Rightarrow> byte list" where
  "be_bytes n w = rev (le_bytes n w)"

definition be_word :: "byte list \<Rightarrow> 'a::len word" where
  "be_word bs = le_word (rev bs)"

lemma length_le_bytes [simp]: "length (le_bytes n w) = n"
  by (simp add: le_bytes_def)

lemma length_be_bytes [simp]: "length (be_bytes n w) = n"
  by (simp add: be_bytes_def)

lemma bit_le_word:
  "bit (le_word bs :: 'a::len word) i \<longleftrightarrow>
     i < LENGTH('a) \<and> i div 8 < length bs \<and> bit (bs ! (i div 8)) (i mod 8)"
proof (induction bs arbitrary: i)
  case Nil
  then show ?case by simp
next
  case (Cons b bs)
  show ?case
  proof (cases "i < 8")
    case True
    then show ?thesis by (auto simp: bit_simps)
  next
    case False
    then obtain j where j: "i = j + 8" by (metis add.commute le_Suc_ex not_less)
    have nb: "\<not> bit b (j + 8)" using bit_imp_le_length [of b "j + 8"] by auto
    have q: "(j + 8) div 8 = Suc (j div 8)" and r: "(j + 8) mod 8 = j mod 8" by simp_all
    show ?thesis
      using Cons.IH [of j] nb unfolding j q r by (auto simp: bit_simps)
  qed
qed

lemma le_word_le_bytes:
  "LENGTH('a::len) \<le> 8 * n \<Longrightarrow> le_word (le_bytes n (w :: 'a word)) = w"
proof (rule bit_word_eqI)
  fix i
  assume n: "LENGTH('a) \<le> 8 * n" and i: "i < LENGTH('a)"
  then have "i div 8 < n" by simp
  moreover have "8 * (i div 8) + i mod 8 = i" by simp
  ultimately show "bit (le_word (le_bytes n w) :: 'a word) i = bit w i"
    using i by (simp add: bit_le_word le_bytes_def bit_simps)
qed

lemma le_bytes_le_word:
  assumes "length bs = n" and "8 * n \<le> LENGTH('a::len)"
  shows "le_bytes n (le_word bs :: 'a word) = bs"
proof (rule nth_equalityI)
  show "length (le_bytes n (le_word bs :: 'a word)) = length bs" using assms by simp
next
  fix k
  assume "k < length (le_bytes n (le_word bs :: 'a word))"
  then have k: "k < n" by simp
  show "le_bytes n (le_word bs :: 'a word) ! k = bs ! k"
  proof (rule bit_word_eqI)
    fix j :: nat
    assume "j < LENGTH(8)"
    then have "j < 8" by simp
    then have "(8 * k + j) div 8 = k" and "(8 * k + j) mod 8 = j" and "8 * k + j < LENGTH('a)"
      using k assms by auto
    then show "bit (le_bytes n (le_word bs :: 'a word) ! k) j = bit (bs ! k) j"
      using k assms \<open>j < 8\<close> by (simp add: le_bytes_def bit_simps bit_le_word)
  qed
qed

lemma be_word_be_bytes:
  "LENGTH('a::len) \<le> 8 * n \<Longrightarrow> be_word (be_bytes n (w :: 'a word)) = w"
  by (simp add: be_word_def be_bytes_def le_word_le_bytes)

lemma be_bytes_be_word:
  "length bs = n \<Longrightarrow> 8 * n \<le> LENGTH('a::len) \<Longrightarrow> be_bytes n (be_word bs :: 'a word) = bs"
  by (simp add: be_word_def be_bytes_def le_bytes_le_word)

section \<open>The accessors of ptp-pack.c\<close>

definition htod16ap :: "'p ptp_params_scheme \<Rightarrow> u16 \<Rightarrow> byte list" where
  "htod16ap params val =
     (if byteorder params = PTP_DL_LE then le_bytes 2 val else be_bytes 2 val)"

definition htod32ap :: "'p ptp_params_scheme \<Rightarrow> u32 \<Rightarrow> byte list" where
  "htod32ap params val =
     (if byteorder params = PTP_DL_LE then le_bytes 4 val else be_bytes 4 val)"

definition htod64ap :: "'p ptp_params_scheme \<Rightarrow> u64 \<Rightarrow> byte list" where
  "htod64ap params val =
     (if byteorder params = PTP_DL_LE then le_bytes 8 val else be_bytes 8 val)"

definition dtoh16ap :: "'p ptp_params_scheme \<Rightarrow> byte list \<Rightarrow> u16" where
  "dtoh16ap params a = (if byteorder params = PTP_DL_LE then le_word a else be_word a)"

definition dtoh32ap :: "'p ptp_params_scheme \<Rightarrow> byte list \<Rightarrow> u32" where
  "dtoh32ap params a = (if byteorder params = PTP_DL_LE then le_word a else be_word a)"

definition dtoh64ap :: "'p ptp_params_scheme \<Rightarrow> byte list \<Rightarrow> u64" where
  "dtoh64ap params a = (if byteorder params = PTP_DL_LE then le_word a else be_word a)"

text \<open>
  Conversions of a value held in a host variable: on a little-endian host
  \<open>htole\<close> is the identity and \<open>htobe\<close> reverses the bytes.
\<close>

definition htod16p :: "'p ptp_params_scheme \<Rightarrow> u16 \<Rightarrow> u16" where
  "htod16p params var =
     (if byteorder params = PTP_DL_LE then var else le_word (be_bytes 2 var))"

definition htod32p :: "'p ptp_params_scheme \<Rightarrow> u32 \<Rightarrow> u32" where
  "htod32p params var =
     (if byteorder params = PTP_DL_LE then var else le_word (be_bytes 4 var))"

definition dtoh16p :: "'p ptp_params_scheme \<Rightarrow> u16 \<Rightarrow> u16" where
  "dtoh16p params var =
     (if byteorder params = PTP_DL_LE then var else be_word (le_bytes 2 var))"

definition dtoh32p :: "'p ptp_params_scheme \<Rightarrow> u32 \<Rightarrow> u32" where
  "dtoh32p params var =
     (if byteorder params = PTP_DL_LE then var else be_word (le_bytes 4 var))"

definition dtoh64p :: "'p ptp_params_scheme \<Rightarrow> u64 \<Rightarrow> u64" where
  "dtoh64p params var =
     (if byteorder params = PTP_DL_LE then var else be_word (le_bytes 8 var))"

text \<open>The array macros \<open>dtoh8a\<close> to \<open>dtoh64a\<close>: a checked load at an offset.\<close>

definition dtoh8a :: "byte list \<Rightarrow> nat \<Rightarrow> byte option" where
  "dtoh8a data off = map_option hd (rd data off 1)"

definition dtoh16a :: "'p ptp_params_scheme \<Rightarrow> byte list \<Rightarrow> nat \<Rightarrow> u16 option" where
  "dtoh16a params data off = map_option (dtoh16ap params) (rd data off 2)"

definition dtoh32a :: "'p ptp_params_scheme \<Rightarrow> byte list \<Rightarrow> nat \<Rightarrow> u32 option" where
  "dtoh32a params data off = map_option (dtoh32ap params) (rd data off 4)"

definition dtoh64a :: "'p ptp_params_scheme \<Rightarrow> byte list \<Rightarrow> nat \<Rightarrow> u64 option" where
  "dtoh64a params data off = map_option (dtoh64ap params) (rd data off 8)"

section \<open>The contract of a fixed-width field\<close>

text \<open>
  What the dataset layers rely on: \<open>put\<close> stores a value in \<open>width\<close> bytes, \<open>get\<close> reads
  it back, and the two are inverse.
\<close>

locale codec =
  fixes put :: "'v \<Rightarrow> byte list"
    and get :: "byte list \<Rightarrow> 'v"
    and width :: nat
  assumes length_put [simp]: "length (put v) = width"
    and get_put [simp]: "get (put v) = v"
    and put_get: "length bs = width \<Longrightarrow> put (get bs) = bs"
begin

lemma put_inject: "put v = put w \<longleftrightarrow> v = w"
  by (metis get_put)

lemma load_store:
  "wr buf off (put v) = Some buf' \<Longrightarrow> map_option get (rd buf' off width) = Some v"
  by (simp add: rd_wr_same)

lemma store_load:
  assumes "rd buf off width = Some bs"
  shows "wr buf off (put (get bs)) = Some buf"
  using assms put_get [of bs] length_rd [OF assms]
  by (simp add: wr_def rd_eq_Some_iff) (metis add.commute append_take_drop_id take_drop drop_drop)

lemma load_in_range: "(\<exists>v. map_option get (rd buf off width) = Some v) \<longleftrightarrow> off + width \<le> length buf"
  by (auto simp: rd_def)

lemma load_array:
  assumes "i < length vs"
  shows "map_option get (rd (pre @ concat (map put vs) @ post) (length pre + width * i) width)
         = Some (vs ! i)"
proof -
  have "rd (concat (map put vs)) (width * i) width = Some (put (vs ! i))"
    using assms by (intro rd_concat_const) auto
  then show ?thesis by (simp add: rd_append2 rd_append_Some)
qed

lemma length_array: "length (concat (map put vs)) = width * length vs"
  by (rule length_concat_const) simp

end

section \<open>The accessors meet the contract\<close>

interpretation f8: codec "\<lambda>b. [b]" "hd :: byte list \<Rightarrow> byte" 1
  by unfold_locales (auto simp: length_Suc_conv)

interpretation f16: codec "htod16ap params" "dtoh16ap params" 2 for params
  by unfold_locales
    (auto simp: htod16ap_def dtoh16ap_def le_word_le_bytes be_word_be_bytes
      le_bytes_le_word be_bytes_be_word)

interpretation f32: codec "htod32ap params" "dtoh32ap params" 4 for params
  by unfold_locales
    (auto simp: htod32ap_def dtoh32ap_def le_word_le_bytes be_word_be_bytes
      le_bytes_le_word be_bytes_be_word)

interpretation f64: codec "htod64ap params" "dtoh64ap params" 8 for params
  by unfold_locales
    (auto simp: htod64ap_def dtoh64ap_def le_word_le_bytes be_word_be_bytes
      le_bytes_le_word be_bytes_be_word)

lemma dtoh8a_nth: "dtoh8a data off = (if off < length data then Some (data ! off) else None)"
  by (auto simp: dtoh8a_def rd_def take_drop_nth)

lemma dtoh8a_eq_None_iff [buf_simps]: "dtoh8a data off = None \<longleftrightarrow> length data \<le> off"
  by (simp add: dtoh8a_nth)

lemma dtoh16a_eq_None_iff [buf_simps]: "dtoh16a p data off = None \<longleftrightarrow> length data < off + 2"
  by (simp add: dtoh16a_def rd_eq_None_iff)

lemma dtoh32a_eq_None_iff [buf_simps]: "dtoh32a p data off = None \<longleftrightarrow> length data < off + 4"
  by (simp add: dtoh32a_def rd_eq_None_iff)

lemma dtoh64a_eq_None_iff [buf_simps]: "dtoh64a p data off = None \<longleftrightarrow> length data < off + 8"
  by (simp add: dtoh64a_def rd_eq_None_iff)

text \<open>Converting a host variable there and back is the identity.\<close>

lemma dtoh16p_htod16p [simp]: "dtoh16p p (htod16p p v) = v"
  by (simp add: dtoh16p_def htod16p_def le_bytes_le_word be_word_be_bytes)

lemma dtoh32p_htod32p [simp]: "dtoh32p p (htod32p p v) = v"
  by (simp add: dtoh32p_def htod32p_def le_bytes_le_word be_word_be_bytes)

text \<open>
  The memory image of a converted host variable is what the array accessor stores:
  \<open>x = htod32(v)\<close> followed by sending the bytes of \<open>x\<close> is the same as \<open>htod32a(buf, v)\<close>.
\<close>

lemma image_htod16p: "le_bytes 2 (htod16p p v) = htod16ap p v"
  by (simp add: htod16p_def htod16ap_def le_bytes_le_word)

lemma image_htod32p: "le_bytes 4 (htod32p p v) = htod32ap p v"
  by (simp add: htod32p_def htod32ap_def le_bytes_le_word)

lemma image_dtoh32p: "length bs = 4 \<Longrightarrow> dtoh32p p (le_word bs) = dtoh32ap p bs"
  by (simp add: dtoh32p_def dtoh32ap_def le_bytes_le_word)

lemma image_dtoh16p: "length bs = 2 \<Longrightarrow> dtoh16p p (le_word bs) = dtoh16ap p bs"
  by (simp add: dtoh16p_def dtoh16ap_def le_bytes_le_word)

end
