(* ===== verification/Ptp_String.thy ===== *)
theory Ptp_String
  imports Ptp_Endian
begin

text \<open>
  PTP strings and integer arrays (\<open>src/src/ptp-pack.c\<close>, from \<open>ptp_unpack_string\<close> to
  \<open>ptp_unpack_uint16_t_array\<close>). A PTP string is one byte with the number of characters,
  the terminator included, followed by that many 16-bit characters. An array is a
  32-bit count followed by the elements.

  The \<open>offset\<close> parameters have type \<open>uint16_t\<close> in the source, so a position beyond
  65535 is reduced modulo 65536; the model writes the reduction out. \<open>malloc\<close> is taken
  to succeed. \<open>None\<close> is an access outside a buffer.
\<close>

definition PTP_MAXSTRLEN :: nat where "PTP_MAXSTRLEN = 255"

definition off16 :: "nat \<Rightarrow> nat" where "off16 n = n mod 65536"

lemma off16_small [simp]: "n < 65536 \<Longrightarrow> off16 n = n"
  by (simp add: off16_def)

section \<open>Strings\<close>

text \<open>
  The conversion "the hard way": characters above 127 become a question mark, the
  others are kept as one byte. The result is not yet cut at an embedded NUL.
\<close>

definition unpack_hard_way ::
  "'p ptp_params_scheme \<Rightarrow> byte list \<Rightarrow> nat \<Rightarrow> nat \<Rightarrow> byte list option" where
  "unpack_hard_way params data offset len =
     mapM (\<lambda>i. do {
         c \<leftarrow> dtoh16a params data (offset + 1 + 2 * i);
         Some (if 127 < c then 0x3F else ucast c) }) [0..<len]"

text \<open>
  Result: the string (\<open>None\<close> for the NULL that stands for an empty string) and the
  length in characters. \<open>iconv\<close> gets the raw characters and room for 765 bytes.
\<close>

definition ptp_unpack_string ::
  "'p ptp_params_scheme \<Rightarrow> byte list \<Rightarrow> nat \<Rightarrow> (byte list option \<times> byte) option" where
  "ptp_unpack_string params data offset0 = (let offset = off16 offset0 in do {
     length8 \<leftarrow> dtoh8a data offset;
     if length8 = 0 then Some (None, length8)
     else do {
       string \<leftarrow> rd data (offset + 1) (2 * unat length8);
       let nconv = (case cd_ucs2_to_locale params of None \<Rightarrow> None
                    | Some iconv \<Rightarrow> (case iconv string of None \<Rightarrow> None
                        | Some out \<Rightarrow> if length out \<le> 3 * PTP_MAXSTRLEN then Some out else None));
       case nconv of
         Some out \<Rightarrow> Some (Some (cstr out), length8)
       | None \<Rightarrow> do {
           loclstr \<leftarrow> unpack_hard_way params data offset (unat length8);
           Some (Some (cstr loclstr), length8) } } })"

text \<open>\<open>char\<close> is signed on the platforms built for, so a byte above 127 is sign-extended.\<close>

definition char_to_ucs2 :: "byte \<Rightarrow> u16" where
  "char_to_ucs2 c = (if c \<le> 127 then ucast c else 0xFF00 OR ucast c)"

fun ucs2strlen :: "u16 list \<Rightarrow> nat" where
  "ucs2strlen [] = 0"
| "ucs2strlen (c # cs) = (if c = 0 then 0 else Suc (ucs2strlen cs))"

text \<open>The 16-bit host variables that a byte image holds; an odd last byte completes
  a unit whose other byte is the 0 of the preceding \<open>memset\<close>.\<close>

fun units_of :: "byte list \<Rightarrow> u16 list" where
  "units_of (a # b # bs) = le_word [a, b] # units_of bs"
| "units_of [a] = [le_word [a, 0]]"
| "units_of [] = []"

text \<open>
  \<open>ucs2str\<close> has 256 units and starts zeroed; without iconv the copy loop writes one unit
  per character and then the terminator, so a string of 256 bytes or more runs over the
  array. With iconv a conversion that needs more than 510 bytes fails, and a failed
  conversion leaves the empty string.
\<close>

definition pack_ucs2 :: "'p ptp_params_scheme \<Rightarrow> byte list \<Rightarrow> u16 list option" where
  "pack_ucs2 params string =
     (case cd_locale_to_ucs2 params of
        Some iconv \<Rightarrow>
          (case iconv string of
             None \<Rightarrow> Some (replicate (PTP_MAXSTRLEN + 1) 0)
           | Some out \<Rightarrow>
               if length out \<le> PTP_MAXSTRLEN * 2
               then (let us = units_of out in Some (us @ replicate (PTP_MAXSTRLEN + 1 - length us) 0))
               else Some (replicate (PTP_MAXSTRLEN + 1) 0))
      | None \<Rightarrow>
          if length string \<le> PTP_MAXSTRLEN
          then Some (map char_to_ucs2 string @ replicate (PTP_MAXSTRLEN + 1 - length string) 0)
          else None)"

text \<open>
  Store a string into \<open>data\<close>: the new contents of the buffer and the number of
  characters. The characters are copied with \<open>memcpy\<close> from host variables, without a
  conversion to the device byte order.
\<close>

definition ptp_pack_string ::
  "'p ptp_params_scheme \<Rightarrow> byte list \<Rightarrow> byte list \<Rightarrow> nat \<Rightarrow> (byte list \<times> byte) option" where
  "ptp_pack_string params string data offset0 = (let offset = off16 offset0 in do {
     ucs2str \<leftarrow> pack_ucs2 params string;
     let packedlen = ucs2strlen ucs2str;
     if packedlen > PTP_MAXSTRLEN - 1 then Some (data, 0)
     else do {
       data1 \<leftarrow> wr data offset [of_nat (packedlen + 1)];
       data2 \<leftarrow> wr data1 (offset + 1) (concat (map (le_bytes 2) (take packedlen ucs2str)));
       data3 \<leftarrow> wr data2 (offset + packedlen * 2 + 1) (htod16ap params 0);
       Some (data3, of_nat (packedlen + 1)) } })"

text \<open>
  \<open>packed\<close> is an uninitialised array of 513 bytes; what it holds on entry is the
  argument \<open>junk\<close>. When the string does not fit, \<open>len\<close> is 0 and the copy hands out one
  byte that was never written.
\<close>

definition ptp_get_packed_stringcopy ::
  "'p ptp_params_scheme \<Rightarrow> byte list \<Rightarrow> byte list option \<Rightarrow> (byte list \<times> u32) option" where
  "ptp_get_packed_stringcopy params junk string = do {
     (packed, len) \<leftarrow> ptp_pack_string params (case string of None \<Rightarrow> [] | Some s \<Rightarrow> s) junk 0;
     let plen = unat len * 2 + 1;
     retcopy \<leftarrow> rd packed 0 plen;
     Some (retcopy, of_nat plen) }"

section \<open>Integer arrays\<close>

definition ptp_unpack_uint32_t_array ::
  "'p ptp_params_scheme \<Rightarrow> byte list \<Rightarrow> nat \<Rightarrow> u32 list option" where
  "ptp_unpack_uint32_t_array params data offset0 = (let offset = off16 offset0 in do {
     n \<leftarrow> dtoh32a params data offset;
     mapM (\<lambda>i. dtoh32a params data (offset + 4 * (i + 1))) [0..<unat n] })"

definition ptp_unpack_uint16_t_array ::
  "'p ptp_params_scheme \<Rightarrow> byte list \<Rightarrow> nat \<Rightarrow> u16 list option" where
  "ptp_unpack_uint16_t_array params data offset0 = (let offset = off16 offset0 in do {
     n \<leftarrow> dtoh32a params data offset;
     mapM (\<lambda>i. dtoh16a params data (offset + 2 * (i + 2))) [0..<unat n] })"

text \<open>
  The buffer and its size as the \<open>uint32_t\<close> the function returns. \<open>arraylen+1\<close> is a
  32-bit sum: for a count of \<open>2^32-1\<close> nothing is allocated and the first store is out
  of range.
\<close>

definition ptp_pack_uint32_t_array ::
  "'p ptp_params_scheme \<Rightarrow> u32 list \<Rightarrow> (byte list \<times> u32) option" where
  "ptp_pack_uint32_t_array params array =
     (if length array + 1 < 2 ^ 32
      then Some (htod32ap params (of_nat (length array)) @ concat (map (htod32ap params) array),
                 (of_nat (length array) + 1) * 4)
      else None)"

section \<open>What is stored: the byte image of a string\<close>

text \<open>An ASCII C string that fits: no NUL, no byte above 127, at most 254 characters.\<close>

definition ptp_ascii :: "byte list \<Rightarrow> bool" where
  "ptp_ascii s \<longleftrightarrow> (\<forall>c \<in> set s. c \<noteq> 0 \<and> c \<le> 127) \<and> length s \<le> 254"

definition no_iconv :: "'p ptp_params_scheme \<Rightarrow> bool" where
  "no_iconv p \<longleftrightarrow> cd_locale_to_ucs2 p = None \<and> cd_ucs2_to_locale p = None"

lemma no_iconv_plain [simp]: "no_iconv (plain_params bo)"
  by (simp add: no_iconv_def)

definition ptp_string_bytes :: "'p ptp_params_scheme \<Rightarrow> byte list \<Rightarrow> byte list" where
  "ptp_string_bytes p s =
     of_nat (length s + 1) # concat (map (le_bytes 2) (map char_to_ucs2 s)) @ htod16ap p 0"

lemma length_units [simp]: "length (concat (map (le_bytes 2 \<circ> f) us)) = 2 * length us"
  by (induction us) auto

lemma length_ptp_string_bytes [simp]: "length (ptp_string_bytes p s) = 3 + 2 * length s"
  by (simp add: ptp_string_bytes_def)

lemma char_to_ucs2_ascii: "c \<le> 127 \<Longrightarrow> char_to_ucs2 c = ucast c"
  by (simp add: char_to_ucs2_def)

lemma ucast_ascii_le: "c \<le> 127 \<Longrightarrow> \<not> 127 < (ucast (c :: byte) :: u16)"
  by (simp add: word_less_nat_alt word_le_nat_alt unat_ucast_up)

lemma ucast_u16_eq_0: "(ucast (c :: byte) :: u16) = 0 \<longleftrightarrow> c = 0"
  by (simp add: unat_eq_0 [symmetric] unat_ucast_up)

lemma ucast_u16_byte [simp]: "ucast (ucast (c :: byte) :: u16) = c"
  by (rule bit_word_eqI) (simp add: bit_simps)

lemma char_to_ucs2_eq_0 [simp]: "char_to_ucs2 c = 0 \<longleftrightarrow> c = 0"
proof (cases "c \<le> 127")
  case True
  then show ?thesis by (simp add: char_to_ucs2_ascii ucast_u16_eq_0)
next
  case False
  have "bit (0xFF00 OR ucast c :: u16) 15" by (simp add: bit_simps)
  then have "(0xFF00 OR ucast c :: u16) \<noteq> 0" by auto
  with False show ?thesis by (auto simp: char_to_ucs2_def)
qed

lemma ucs2strlen_append:
  "0 \<notin> set us \<Longrightarrow> ucs2strlen (us @ 0 # vs) = length us"
  by (induction us) auto

lemma pack_ucs2_no_iconv:
  "no_iconv p \<Longrightarrow> length s \<le> 255 \<Longrightarrow>
     pack_ucs2 p s = Some (map char_to_ucs2 s @ replicate (256 - length s) 0)"
  by (simp add: pack_ucs2_def no_iconv_def PTP_MAXSTRLEN_def)

lemma ucs2strlen_pack:
  assumes "0 \<notin> set s" and "length s \<le> 255"
  shows "ucs2strlen (map char_to_ucs2 s @ replicate (256 - length s) 0) = length s"
proof -
  have "256 - length s = Suc (255 - length s)" using assms(2) by simp
  moreover have "0 \<notin> set (map char_to_ucs2 s)" using assms(1) by auto
  ultimately show ?thesis by (simp add: ucs2strlen_append)
qed

text \<open>
  What is stored of a string in units: the count, the units in the order of the host, and the
  terminator in that of the device.
\<close>

definition ptp_units_bytes :: "'p ptp_params_scheme \<Rightarrow> u16 list \<Rightarrow> byte list" where
  "ptp_units_bytes p us = of_nat (length us + 1) # concat (map (le_bytes 2) us) @ htod16ap p 0"

lemma length_units_plain [simp]: "length (concat (map (le_bytes 2) us)) = 2 * length us"
  by (induction us) auto

lemma length_ptp_units_bytes [simp]: "length (ptp_units_bytes p us) = 3 + 2 * length us"
  by (simp add: ptp_units_bytes_def)

text \<open>
  Refinement: storing a string whose units fit is one write of its byte image at the offset.
\<close>

lemma ptp_pack_units_refines:
  assumes "pack_ucs2 p s = Some (us @ 0 # vs)" and "0 \<notin> set us" and "length us \<le> 254"
  shows "ptp_pack_string p s data off =
     map_option (\<lambda>d. (d, of_nat (length us + 1))) (wr data (off16 off) (ptp_units_bytes p us))"
proof -
  let ?o = "off16 off"
  let ?a = "[of_nat (length us + 1)] :: byte list" and ?b = "concat (map (le_bytes 2) us)"
  have lb: "length (?a @ ?b) = 1 + 2 * length us" by simp
  have step: "ptp_pack_string p s data off = do {
      d1 \<leftarrow> wr data ?o ?a; d2 \<leftarrow> wr d1 (?o + length ?a) ?b;
      d3 \<leftarrow> wr d2 (?o + length (?a @ ?b)) (htod16ap p 0);
      Some (d3, of_nat (length us + 1)) }"
    using assms(3) unfolding lb
    by (simp add: ptp_pack_string_def Let_def assms(1) ucs2strlen_append [OF assms(2)] PTP_MAXSTRLEN_def ac_simps)
  have "\<dots> = map_option (\<lambda>d. (d, of_nat (length us + 1))) (wr data ?o ((?a @ ?b) @ htod16ap p 0))"
  proof (cases "wr data ?o ?a")
    case None
    then show ?thesis by (auto simp: wr_def split: if_splits)
  next
    case (Some d1)
    note d1 = this
    have "wr d1 (?o + length ?a) ?b = wr data ?o (?a @ ?b)" using d1 by (rule wr_wr_adjacent)
    then show ?thesis
      using d1 wr_wr_adjacent [of data ?o "?a @ ?b" _ "htod16ap p 0"]
      by (cases "wr data ?o (?a @ ?b)") (auto simp: wr_def split: if_splits)
  qed
  then show ?thesis using step by (simp add: ptp_units_bytes_def)
qed

lemma ptp_pack_string_refines:
  assumes "no_iconv p" and "0 \<notin> set s" and "length s \<le> 254"
  shows "ptp_pack_string p s data off =
     map_option (\<lambda>d. (d, of_nat (length s + 1))) (wr data (off16 off) (ptp_string_bytes p s))"
proof -
  have "replicate (256 - length s) (0 :: u16) = 0 # replicate (255 - length s) 0"
    using assms(3) by (simp add: Suc_diff_le flip: replicate_Suc)
  then have "pack_ucs2 p s = Some (map char_to_ucs2 s @ 0 # replicate (255 - length s) 0)"
    using pack_ucs2_no_iconv [OF assms(1), of s] assms(3) by simp
  moreover have "0 \<notin> set (map char_to_ucs2 s)" using assms(2) by auto
  ultimately show ?thesis
    using ptp_pack_units_refines [of p s "map char_to_ucs2 s"] assms(3)
    by (simp add: ptp_string_bytes_def ptp_units_bytes_def)
qed

lemma htod16ap_0: "htod16ap p 0 = le_bytes 2 0"
  by (simp add: htod16ap_def be_bytes_def le_bytes_def numeral_2_eq_2)

lemma string_bytes_units:
  "ptp_string_bytes p s =
     [of_nat (length s + 1)] @ concat (map (le_bytes 2) (map char_to_ucs2 s @ [0])) @ []"
  by (simp add: ptp_string_bytes_def htod16ap_0)

text \<open>
  The dataset as the device lays it out: the count, then the characters in the byte
  order of the device. Only for a little-endian device is it what \<open>ptp_pack_string\<close>
  stores.
\<close>

definition ptp_units_wire :: "'p ptp_params_scheme \<Rightarrow> u16 list \<Rightarrow> byte list" where
  "ptp_units_wire p us = of_nat (length us) # concat (map (htod16ap p) us)"

definition ptp_string_wire :: "'p ptp_params_scheme \<Rightarrow> byte list \<Rightarrow> byte list" where
  "ptp_string_wire p s = ptp_units_wire p (map char_to_ucs2 s @ [0])"

lemma length_ptp_units_wire [simp]: "length (ptp_units_wire p us) = 1 + 2 * length us"
  by (simp add: ptp_units_wire_def f16.length_array)

lemma length_ptp_string_wire [simp]: "length (ptp_string_wire p s) = 3 + 2 * length s"
  by (simp add: ptp_string_wire_def)

lemma string_bytes_wire:
  "byteorder p = PTP_DL_LE \<Longrightarrow> ptp_string_bytes p s = ptp_string_wire p s"
  by (simp add: ptp_string_bytes_def ptp_string_wire_def ptp_units_wire_def htod16ap_def [abs_def]
      add.commute)

lemma units_bytes_wire:
  "byteorder p = PTP_DL_LE \<Longrightarrow> ptp_units_bytes p us = ptp_units_wire p (us @ [0])"
  by (simp add: ptp_units_bytes_def ptp_units_wire_def htod16ap_def [abs_def] add.commute)

lemma dtoh16a_units_wire:
  assumes "i < length us" and "rd data off (1 + 2 * length us) = Some (ptp_units_wire p us)"
  shows "dtoh16a p data (off + 1 + 2 * i) = Some (us ! i)"
proof -
  have "rd data (off + (1 + 2 * i)) 2 = rd (ptp_units_wire p us) (1 + 2 * i) 2"
    using assms by (intro rd_rd) auto
  moreover have "map_option (dtoh16ap p) (rd (ptp_units_wire p us) (1 + 2 * i) 2) = Some (us ! i)"
    using f16.load_array [of i us p "[of_nat (length us)]" "[]"] assms
    by (simp add: ptp_units_wire_def)
  ultimately show ?thesis by (simp add: dtoh16a_def ac_simps)
qed

text \<open>
  What the reader makes of any sequence of units without iconv: a character above 127
  is a question mark, and the string ends at the first unit whose low byte is 0.
\<close>

definition ucs2_to_ascii :: "u16 \<Rightarrow> byte" where
  "ucs2_to_ascii c = (if 127 < c then 0x3F else ucast c)"

text \<open>
  The units that the conversion of a session makes of a string, and the bytes that the conversion back
  makes of units in the byte order of the device. Both sessions that the library opens convert between
  UTF-8 and UCS-2LE with iconv, for a device that is little-endian.
\<close>

definition string_units :: "'p ptp_params_scheme \<Rightarrow> byte list \<Rightarrow> u16 list" where
  "string_units p s =
     (case cd_locale_to_ucs2 p of
        None \<Rightarrow> map char_to_ucs2 s
      | Some iconv \<Rightarrow> (case iconv s of None \<Rightarrow> [] | Some bs \<Rightarrow> units_of bs))"

definition units_string :: "'p ptp_params_scheme \<Rightarrow> u16 list \<Rightarrow> byte list option" where
  "units_string p us =
     (case cd_ucs2_to_locale p of
        None \<Rightarrow> Some (map ucs2_to_ascii us)
      | Some iconv \<Rightarrow> iconv (concat (map (htod16ap p) us)))"

lemma ptp_unpack_units:
  assumes "us \<noteq> []" and "length us \<le> 255" and "units_string p us = Some out" and "length out \<le> 765"
    and img: "rd data (off16 off) (1 + 2 * length us) = Some (ptp_units_wire p us)"
  shows "ptp_unpack_string p data off = Some (Some (cstr out), of_nat (length us))"
proof -
  let ?o = "off16 off"
  define n8 where "n8 = (of_nat (length us) :: byte)"
  have un: "unat n8 = length us"
    using assms(2) unfolding n8_def by (simp only: unat_of_nat) simp
  have nz: "n8 \<noteq> 0" using un assms(1) by (metis length_0_conv unat_0)
  have at: "data ! ?o = n8" "?o < length data" "?o + 1 + 2 * length us \<le> length data"
    using rd_nth [OF img, of 0] img by (simp_all add: rd_eq_Some_iff ptp_units_wire_def n8_def)
  show ?thesis
  proof (cases "cd_ucs2_to_locale p")
    case None
    have "unpack_hard_way p data ?o (unat n8) = Some (map ucs2_to_ascii us)"
      unfolding unpack_hard_way_def mapM_eq_Some_iff un
      using dtoh16a_units_wire [OF _ img] by (auto simp: ucs2_to_ascii_def)
    then show ?thesis
      using at nz assms(3) None unfolding n8_def [symmetric]
      by (simp add: ptp_unpack_string_def dtoh8a_nth units_string_def un rd_def Let_def)
  next
    case (Some iconv)
    have "rd data (?o + 1) (2 * length us) = rd (ptp_units_wire p us) 1 (2 * length us)"
      using img by (rule rd_rd) simp
    also have "\<dots> = Some (concat (map (htod16ap p) us))"
      by (simp add: rd_def ptp_units_wire_def f16.length_array)
    finally have "rd data (?o + 1) (2 * unat n8) = Some (concat (map (htod16ap p) us))" by (simp add: un)
    then show ?thesis
      using at nz Some assms(3,4) unfolding n8_def [symmetric]
      by (simp add: ptp_unpack_string_def dtoh8a_nth units_string_def Let_def PTP_MAXSTRLEN_def)
  qed
qed

lemma ptp_unpack_units_image:
  assumes "no_iconv p" and "us \<noteq> []" and "length us \<le> 255"
    and "rd data (off16 off) (1 + 2 * length us) = Some (ptp_units_wire p us)"
  shows "ptp_unpack_string p data off =
    Some (Some (cstr (map ucs2_to_ascii us)), of_nat (length us))"
  using assms(1,3) ptp_unpack_units [OF assms(2,3) _ _ assms(4)]
  by (simp add: units_string_def no_iconv_def)

lemma ucs2_to_ascii_char: "c \<le> 127 \<Longrightarrow> ucs2_to_ascii (char_to_ucs2 c) = c"
  by (simp add: ucs2_to_ascii_def char_to_ucs2_ascii ucast_ascii_le)

lemma ptp_unpack_string_image:
  assumes "no_iconv p" and "ptp_ascii s"
    and img: "rd data (off16 off) (3 + 2 * length s) = Some (ptp_string_wire p s)"
  shows "ptp_unpack_string p data off = Some (Some s, of_nat (length s + 1))"
proof -
  have chars: "\<forall>c \<in> set s. c \<noteq> 0 \<and> c \<le> 127" and len: "length s \<le> 254"
    using assms(2) by (auto simp: ptp_ascii_def)
  have "map (ucs2_to_ascii \<circ> char_to_ucs2) s = s"
    using chars by (intro map_idI) (simp add: ucs2_to_ascii_char)
  then have "map ucs2_to_ascii (map char_to_ucs2 s @ [0]) = s @ [0]"
    by (simp add: ucs2_to_ascii_def)
  moreover have "cstr (s @ [0]) = s" using chars by (auto intro!: cstr_append_NUL)
  ultimately show ?thesis
    using ptp_unpack_units_image [OF assms(1), of "map char_to_ucs2 s @ [0]" data off] img len
    by (simp add: ptp_string_wire_def numeral_3_eq_3)
qed

section \<open>Strings that survive the conversions\<close>

text \<open>
  A string survives when it has at most 254 units, none of them 0, and the conversion back takes its
  units with the terminator to the string with its NUL.
\<close>

definition string_survives :: "'p ptp_params_scheme \<Rightarrow> byte list \<Rightarrow> bool" where
  "string_survives p s \<longleftrightarrow>
     0 \<notin> set s \<and> length s \<le> 764 \<and> 0 \<notin> set (string_units p s) \<and> length (string_units p s) \<le> 254 \<and>
     units_string p (string_units p s @ [0]) = Some (s @ [0])"

lemma ascii_survives: "no_iconv p \<Longrightarrow> ptp_ascii s \<Longrightarrow> string_survives p s"
  by (auto simp: string_survives_def string_units_def units_string_def no_iconv_def ptp_ascii_def
      ucs2_to_ascii_char intro!: map_idI) (simp add: ucs2_to_ascii_def)

lemma length_units_of: "length (units_of bs) = (length bs + 1) div 2"
  by (induction bs rule: units_of.induct) auto

lemma pack_ucs2_units:
  assumes "length (string_units p s) \<le> 254"
  obtains vs where "pack_ucs2 p s = Some (string_units p s @ 0 # vs)"
proof -
  have tail: "replicate (256 - n) (0 :: u16) = 0 # replicate (255 - n) 0" if "n \<le> 254" for n
    using that by (simp add: Suc_diff_le flip: replicate_Suc)
  show thesis
  proof (cases "cd_locale_to_ucs2 p")
    case None
    with assms tail [of "length s"] that [of "replicate (255 - length s) 0"] show thesis
      by (simp add: pack_ucs2_def string_units_def PTP_MAXSTRLEN_def)
  next
    case (Some iconv)
    show thesis
    proof (cases "iconv s")
      case None
      with Some tail [of 0] that [of "replicate 255 0"] show thesis
        by (simp add: pack_ucs2_def string_units_def PTP_MAXSTRLEN_def)
    next
      case (Some bs)
      have u: "string_units p s = units_of bs"
        using \<open>cd_locale_to_ucs2 p = Some iconv\<close> Some by (simp add: string_units_def)
      with assms have "length bs \<le> 510" by (simp add: length_units_of)
      then show thesis
        using tail [of "length (units_of bs)"] that [of "replicate (255 - length (units_of bs)) 0"] assms u
          \<open>cd_locale_to_ucs2 p = Some iconv\<close> Some
        by (simp add: pack_ucs2_def PTP_MAXSTRLEN_def Let_def)
    qed
  qed
qed

text \<open>Writing a string that survives, and reading its units at the place where they are.\<close>

lemma ptp_pack_survivor:
  assumes "string_survives p s"
  shows "ptp_pack_string p s data off =
     map_option (\<lambda>d. (d, of_nat (length (string_units p s) + 1)))
       (wr data (off16 off) (ptp_units_bytes p (string_units p s)))"
proof -
  have us: "0 \<notin> set (string_units p s)" "length (string_units p s) \<le> 254"
    using assms by (simp_all add: string_survives_def)
  obtain vs where "pack_ucs2 p s = Some (string_units p s @ 0 # vs)" using pack_ucs2_units [OF us(2)] .
  from ptp_pack_units_refines [OF this us] show ?thesis .
qed

lemma ptp_unpack_survivor:
  assumes "string_survives p s"
    and "rd data (off16 off) (3 + 2 * length (string_units p s)) =
      Some (ptp_units_wire p (string_units p s @ [0]))"
  shows "ptp_unpack_string p data off = Some (Some s, of_nat (length (string_units p s) + 1))"
proof -
  have "0 \<notin> set s" "length (s @ [0]) \<le> 765" "length (string_units p s @ [0]) \<le> 255"
    "units_string p (string_units p s @ [0]) = Some (s @ [0])"
    using assms(1) by (simp_all add: string_survives_def)
  then show ?thesis
    using ptp_unpack_units [of "string_units p s @ [0]" p "s @ [0]" data off] assms(2) cstr_append_NUL [of s]
    by (simp add: numeral_3_eq_3)
qed

text \<open>
  Claim C31: a string written with \<open>ptp_pack_string\<close> and read with \<open>ptp_unpack_string\<close> comes back
  unchanged, for a little-endian device, with or without iconv, when the conversions of the session
  are inverse on the string and it has at most 254 units: it is stored, both functions report its
  units with the terminator, the reader returns the string, and no byte outside its \<open>3 + 2n\<close> bytes is
  changed.
\<close>

theorem ptp_string_roundtrip:
  assumes "byteorder p = PTP_DL_LE" and "string_survives p s"
    and "off16 off + 3 + 2 * length (string_units p s) \<le> length data"
  shows "\<exists>data'. ptp_pack_string p s data off = Some (data', of_nat (length (string_units p s) + 1)) \<and>
    ptp_unpack_string p data' off = Some (Some s, of_nat (length (string_units p s) + 1)) \<and>
    take (off16 off) data' = take (off16 off) data \<and>
    drop (off16 off + 3 + 2 * length (string_units p s)) data' =
      drop (off16 off + 3 + 2 * length (string_units p s)) data"
proof -
  let ?us = "string_units p s"
  obtain d where d: "wr data (off16 off) (ptp_units_bytes p ?us) = Some d"
    using assms(3) by (auto simp: wr_def)
  have "ptp_pack_string p s data off = Some (d, of_nat (length ?us + 1))"
    using ptp_pack_survivor [OF assms(2)] d by simp
  moreover have "rd d (off16 off) (3 + 2 * length ?us) = Some (ptp_units_wire p (?us @ [0]))"
    using d unfolding units_bytes_wire [OF assms(1)] by (rule rd_wr_same) simp
  moreover from this have "ptp_unpack_string p d off = Some (Some s, of_nat (length ?us + 1))"
    by (rule ptp_unpack_survivor [OF assms(2)])
  moreover have "take (off16 off) d = take (off16 off) data \<and>
      drop (off16 off + 3 + 2 * length ?us) d = drop (off16 off + 3 + 2 * length ?us) data"
    using wr_frame [OF d] by (simp add: add.assoc)
  ultimately show ?thesis by blast
qed

text \<open>
  Conversions between UTF-8 and UCS-2LE for the characters below \<open>0x800\<close>, which have one or two bytes,
  and a session with them.
\<close>

fun utf8_to_ucs2le :: "byte list \<Rightarrow> byte list option" where
  "utf8_to_ucs2le [] = Some []"
| "utf8_to_ucs2le (a # bs) =
     (if a < 0x80 then map_option (\<lambda>r. a # 0 # r) (utf8_to_ucs2le bs)
      else case bs of
          b # cs \<Rightarrow>
            if 0xC2 \<le> a \<and> a < 0xE0 \<and> 0x80 \<le> b \<and> b < 0xC0
            then map_option (\<lambda>r. (push_bit 6 a OR (b AND 0x3F)) # drop_bit 2 (a AND 0x1F) # r) (utf8_to_ucs2le cs)
            else None
        | [] \<Rightarrow> None)"

fun ucs2le_to_utf8 :: "byte list \<Rightarrow> byte list option" where
  "ucs2le_to_utf8 [] = Some []"
| "ucs2le_to_utf8 [a] = None"
| "ucs2le_to_utf8 (a # b # r) =
     (if b = 0 \<and> a < 0x80 then map_option ((#) a) (ucs2le_to_utf8 r)
      else if b < 8 then
        map_option (\<lambda>cs. (0xC0 OR push_bit 2 b OR drop_bit 6 a) # (0x80 OR (a AND 0x3F)) # cs) (ucs2le_to_utf8 r)
      else None)"

definition utf8_params :: ptp_params where
  "utf8_params = \<lparr>byteorder = PTP_DL_LE, cd_locale_to_ucs2 = Some utf8_to_ucs2le, cd_ucs2_to_locale = Some ucs2le_to_utf8\<rparr>"

lemma utf8_params_simps [simp]:
  "byteorder utf8_params = PTP_DL_LE" "cd_locale_to_ucs2 utf8_params = Some utf8_to_ucs2le"
  "cd_ucs2_to_locale utf8_params = Some ucs2le_to_utf8"
  by (simp_all add: utf8_params_def)

lemma utf8_sample:
  "string_units utf8_params [0x43, 0xC3, 0xA9, 0x2E] = [0x43, 0xE9, 0x2E]"
  "string_survives utf8_params [0x43, 0xC3, 0xA9, 0x2E]"
proof -
  show u: "string_units utf8_params [0x43, 0xC3, 0xA9, 0x2E] = [0x43, 0xE9, 0x2E]"
    by (simp add: string_units_def)
  show "string_survives utf8_params [0x43, 0xC3, 0xA9, 0x2E]"
    by code_simp
qed

theorem ptp_string_roundtrip_witness:
  "\<exists>data'. ptp_pack_string utf8_params [0x43, 0xC3, 0xA9, 0x2E] (replicate 12 0xAA) 2 = Some (data', 4) \<and>
    ptp_unpack_string utf8_params data' 2 = Some (Some [0x43, 0xC3, 0xA9, 0x2E], 4) \<and>
    take 2 data' = take 2 (replicate 12 0xAA) \<and> drop 11 data' = drop 11 (replicate 12 0xAA)"
proof -
  have "byteorder utf8_params = PTP_DL_LE"
    "off16 2 + 3 + 2 * length (string_units utf8_params [0x43, 0xC3, 0xA9, 0x2E]) \<le> length (replicate 12 (0xAA :: byte))"
    by (simp_all add: utf8_sample(1))
  from ptp_string_roundtrip [OF this(1) utf8_sample(2) this(2)] show ?thesis
    unfolding utf8_sample(1) by (simp del: replicate.simps take_replicate drop_replicate)
qed

text \<open>
  Exactly which inputs \<open>ptp_unpack_string\<close> reads safely. It has no length
  argument: the access is inside the buffer if and only if the buffer holds the length
  byte and twice that many bytes after it. A device that announces more characters
  than it sends makes the code read past the end of the data.
\<close>

theorem ptp_unpack_string_safe_iff:
  "ptp_unpack_string p data off \<noteq> None \<longleftrightarrow>
     off16 off < length data \<and>
     off16 off + 1 + 2 * unat (data ! off16 off) \<le> length data"
proof (cases "off16 off < length data")
  case False
  then show ?thesis by (simp add: ptp_unpack_string_def dtoh8a_nth)
next
  case True
  let ?o = "off16 off" and ?n = "unat (data ! off16 off)"
  have hard: "unpack_hard_way p data ?o ?n \<noteq> None" if "?o + 1 + 2 * ?n \<le> length data"
  proof -
    have "dtoh16a p data (?o + 1 + 2 * i) \<noteq> None" if "i < ?n" for i
      using that \<open>?o + 1 + 2 * ?n \<le> length data\<close> by (simp add: dtoh16a_eq_None_iff not_less)
    then show ?thesis
      by (auto simp: unpack_hard_way_def mapM_eq_None_iff Option.bind_eq_None_conv)
  qed
  show ?thesis
    using True hard
    by (auto simp: ptp_unpack_string_def dtoh8a_nth Let_def rd_def Option.bind_eq_None_conv
        split: option.splits if_splits)
qed

text \<open>
  A string of exactly 255 characters is dropped without a sign of error. The
  length comes back as 0, the buffer is unchanged, and \<open>ptp_get_packed_stringcopy\<close>
  then hands the transport one byte of uninitialised stack memory in its place. One more
  character, and the copy loop itself writes past \<open>ucs2str\<close>.
\<close>

lemma ptp_pack_string_too_long:
  assumes "no_iconv p" and "0 \<notin> set s" and "length s = 255" and "length junk = 513"
    and "255 < length t"
  shows "ptp_pack_string p s data off = Some (data, 0) \<and>
    ptp_get_packed_stringcopy p junk (Some s) = Some ([junk ! 0], 1) \<and>
    ptp_pack_string p t data off = None"
proof -
  have *: "ptp_pack_string p s d o' = Some (d, 0)" for d o'
    using assms pack_ucs2_no_iconv [of p s] ucs2strlen_pack [of s]
    by (simp add: ptp_pack_string_def PTP_MAXSTRLEN_def)
  have "ptp_get_packed_stringcopy p junk (Some s) = Some ([junk ! 0], 1)"
    using assms(4) by (cases junk) (simp_all add: ptp_get_packed_stringcopy_def * rd_def)
  moreover have "ptp_pack_string p t data off = None"
    using assms(1,5) by (simp add: ptp_pack_string_def pack_ucs2_def no_iconv_def PTP_MAXSTRLEN_def)
  ultimately show ?thesis using * by blast
qed

lemma ptp_pack_string_too_long_witness:
  "ptp_pack_string (plain_params PTP_DL_LE)
     (replicate 255 0x41) [1, 2, 3] 0 = Some ([1, 2, 3], 0) \<and>
   ptp_get_packed_stringcopy (plain_params PTP_DL_LE)
     (replicate 513 0x77) (Some (replicate 255 0x41)) = Some ([0x77], 1) \<and>
   ptp_pack_string (plain_params PTP_DL_LE)
     (replicate 256 0x41) [1, 2, 3] 0 = None"
  using ptp_pack_string_too_long [of "plain_params PTP_DL_LE"
      "replicate 255 0x41" "replicate 513 0x77" "replicate 256 0x41" "[1, 2, 3]" 0]
  by simp

lemma swapped_ascii:
  assumes "c \<noteq> 0" and "c \<le> 127"
  shows "be_word (le_bytes 2 (ucast (c :: byte) :: u16)) = (push_bit 8 (ucast c) :: u16)"
    and "127 < (push_bit 8 (ucast c) :: u16)"
proof -
  show "be_word (le_bytes 2 (ucast c :: u16)) = (push_bit 8 (ucast c) :: u16)"
    by (rule bit_word_eqI)
      (auto simp: be_word_def le_bytes_def bit_simps numeral_2_eq_2 upt_rec dest: bit_imp_le_length)
  have "unat c \<noteq> 0" "unat c \<le> 127" using assms by (auto simp: word_le_nat_alt unat_eq_0)
  then have "unat (push_bit 8 (ucast c) :: u16) = 256 * unat c"
    by (simp add: push_bit_eq_mult unat_word_ariths unat_ucast_up)
  then show "127 < (push_bit 8 (ucast c) :: u16)"
    using \<open>unat c \<noteq> 0\<close> by (simp add: word_less_nat_alt)
qed

text \<open>
  \<open>ptp_pack_string\<close> copies the characters in host order, so for a big-endian
  device what it writes is not what the other side reads: every character of an ASCII
  string comes back as a question mark. The terminator is converted with \<open>htod16a\<close>,
  the characters are not.
\<close>

lemma ptp_pack_string_big_endian_garbles:
  assumes "byteorder p \<noteq> PTP_DL_LE" and "no_iconv p" and "ptp_ascii s"
    and "off16 off + 3 + 2 * length s \<le> length data"
  shows "\<exists>data'. ptp_pack_string p s data off = Some (data', of_nat (length s + 1)) \<and>
    ptp_unpack_string p data' off =
      Some (Some (replicate (length s) 0x3F), of_nat (length s + 1))"
proof -
  let ?u = "map (\<lambda>c. push_bit 8 (ucast c)) s @ [0] :: u16 list"
  have s: "0 \<notin> set s" "length s \<le> 254" and chars: "\<forall>c \<in> set s. c \<noteq> 0 \<and> c \<le> 127"
    using assms(3) by (auto simp: ptp_ascii_def)
  obtain d where d: "wr data (off16 off) (ptp_string_bytes p s) = Some d"
    using assms(4) by (auto simp: wr_def)
  have unit: "le_bytes 2 (char_to_ucs2 c) = htod16ap p (push_bit 8 (ucast c))" if "c \<in> set s" for c
    using that chars assms(1) swapped_ascii(1) [of c]
      be_bytes_be_word [of "le_bytes 2 (ucast c :: u16)" 2, where 'a = 16]
    by (simp add: htod16ap_def char_to_ucs2_ascii)
  have "ptp_string_bytes p s = ptp_units_wire p ?u"
    unfolding ptp_string_bytes_def ptp_units_wire_def
    by (simp add: unit comp_def add.commute cong: map_cong)
  then have "rd d (off16 off) (1 + 2 * length ?u) = Some (ptp_units_wire p ?u)"
    using d by (intro rd_wr_same) auto
  moreover have "map ucs2_to_ascii ?u = replicate (length s) 0x3F @ [0]"
    using chars swapped_ascii(2)
    by (auto simp: ucs2_to_ascii_def comp_def map_replicate_const [symmetric] cong: map_cong)
  moreover have "cstr (replicate (length s) 0x3F @ [0]) = replicate (length s) 0x3F"
    by (rule cstr_append_NUL) simp
  ultimately have "ptp_unpack_string p d off =
      Some (Some (replicate (length s) 0x3F), of_nat (length s + 1))"
    using ptp_unpack_units_image [OF assms(2), of ?u d off] s by simp
  then show ?thesis using ptp_pack_string_refines [OF assms(2) s] d by simp
qed

lemma ptp_pack_string_big_endian_garbles_witness:
  "\<exists>data'. ptp_pack_string (plain_params PTP_DL_BE) [0x48, 0x69] (replicate 10 0) 0 = Some (data', 3) \<and>
    ptp_unpack_string (plain_params PTP_DL_BE) data' 0 = Some (Some [0x3F, 0x3F], 3)"
  using ptp_pack_string_big_endian_garbles [of "plain_params PTP_DL_BE" "[0x48, 0x69]" 0 "replicate 10 0"]
  by (simp add: ptp_ascii_def PTP_DL_BE_def PTP_DL_LE_def)

text \<open>
  A list of 32-bit values packed by \<open>ptp_pack_uint32_t_array\<close> is read back by
  \<open>ptp_unpack_uint32_t_array\<close>, at offset 0 and with anything after it, in either byte
  order; the size it returns is the length of the buffer.
\<close>

lemma ptp_uint32_array_roundtrip:
  assumes "length vs < 2 ^ 30 - 1"
  shows "\<exists>data. ptp_pack_uint32_t_array p vs = Some (data, of_nat (length data)) \<and>
    length data = 4 * (length vs + 1) \<and>
    ptp_unpack_uint32_t_array p (data @ rest) 0 = Some vs"
proof (intro exI conjI)
  let ?d = "htod32ap p (of_nat (length vs)) @ concat (map (htod32ap p) vs)"
  show len: "length ?d = 4 * (length vs + 1)" by (simp add: f32.length_array)
  show "ptp_pack_uint32_t_array p vs = Some (?d, of_nat (length ?d))"
    using assms unfolding len by (simp add: ptp_pack_uint32_t_array_def)
  have n: "dtoh32a p (?d @ rest) 0 = Some (of_nat (length vs))"
    by (simp add: dtoh32a_def rd_def)
  have "unat (of_nat (length vs) :: u32) = length vs" using assms by (simp add: unat_of_nat)
  moreover have "dtoh32a p (?d @ rest) (4 * (i + 1)) = Some (vs ! i)" if "i < length vs" for i
    using f32.load_array [OF that, of p "htod32ap p (of_nat (length vs))" rest]
    by (simp add: dtoh32a_def algebra_simps)
  ultimately show "ptp_unpack_uint32_t_array p (?d @ rest) 0 = Some vs"
    by (simp add: ptp_unpack_uint32_t_array_def n mapM_eq_Some_iff del: append_assoc)
qed

lemma ptp_uint32_array_roundtrip_witness:
  "\<exists>data. ptp_pack_uint32_t_array (plain_params PTP_DL_BE)
       [7, 0xFFFFFFFF] = Some (data, of_nat (length data)) \<and> length data = 4 * 3 \<and>
    ptp_unpack_uint32_t_array (plain_params PTP_DL_BE)
       (data @ [9]) 0 = Some [7, 0xFFFFFFFF]"
  using ptp_uint32_array_roundtrip [of "[7, 0xFFFFFFFF]"
      "plain_params PTP_DL_BE" "[9]"]
  by simp

end
