(* ===== verification/Ptp_Datasets.thy ===== *)
theory Ptp_Datasets
  imports Ptp_String
begin

text \<open>
  The fixed datasets of \<open>src/src/ptp-pack.c\<close>: DeviceInfo, ObjectHandles, StorageIDs,
  StorageInfo, ObjectInfo and the USB event container. The records carry the fields
  of the structs in \<open>src/src/ptp.h\<close>; a \<open>char *\<close> is a byte string or \<open>None\<close> for NULL, and
  a pointer to an array with its length field is a list.
\<close>

section \<open>DeviceInfo\<close>

record ptp_device_info =
  di_StandardVersion :: u16
  di_VendorExtensionID :: u32
  di_VendorExtensionVersion :: u16
  di_VendorExtensionDesc :: "byte list option"
  di_FunctionalMode :: u16
  di_OperationsSupported :: "u16 list"
  di_EventsSupported :: "u16 list"
  di_DevicePropertiesSupported :: "u16 list"
  di_CaptureFormats :: "u16 list"
  di_ImageFormats :: "u16 list"
  di_Manufacturer :: "byte list option"
  di_Model :: "byte list option"
  di_DeviceVersion :: "byte list option"
  di_SerialNumber :: "byte list option"

definition uint32 :: "nat \<Rightarrow> nat" where "uint32 n = n mod 2 ^ 32"

lemma uint32_small [simp]: "n < 2 ^ 32 \<Longrightarrow> uint32 n = n"
  by (simp add: uint32_def)

text \<open>
  \<open>di\<close> is what the caller's struct holds on entry: a short dataset leaves it as it is.
  \<open>totallen\<close> is an \<open>unsigned int\<close>.
\<close>

definition ptp_unpack_DI ::
  "'p ptp_params_scheme \<Rightarrow> byte list \<Rightarrow> ptp_device_info \<Rightarrow> nat \<Rightarrow> ptp_device_info option" where
  "ptp_unpack_DI params data di datalen =
     (if datalen < 12 then Some di
      else do {
        ver \<leftarrow> dtoh16a params data 0;
        ext \<leftarrow> dtoh32a params data 2;
        extver \<leftarrow> dtoh16a params data 6;
        (desc, len) \<leftarrow> ptp_unpack_string params data 8;
        let t0 = unat len * 2 + 1;
        mode \<leftarrow> dtoh16a params data (8 + t0);
        ops \<leftarrow> ptp_unpack_uint16_t_array params data (10 + t0);
        let t1 = uint32 (t0 + length ops * 2 + 4);
        evs \<leftarrow> ptp_unpack_uint16_t_array params data (10 + t1);
        let t2 = uint32 (t1 + length evs * 2 + 4);
        props \<leftarrow> ptp_unpack_uint16_t_array params data (10 + t2);
        let t3 = uint32 (t2 + length props * 2 + 4);
        caps \<leftarrow> ptp_unpack_uint16_t_array params data (10 + t3);
        let t4 = uint32 (t3 + length caps * 2 + 4);
        imgs \<leftarrow> ptp_unpack_uint16_t_array params data (10 + t4);
        let t5 = uint32 (t4 + length imgs * 2 + 4);
        (man, len) \<leftarrow> ptp_unpack_string params data (10 + t5);
        let t6 = uint32 (t5 + unat len * 2 + 1);
        (model, len) \<leftarrow> ptp_unpack_string params data (10 + t6);
        let t7 = uint32 (t6 + unat len * 2 + 1);
        (dver, len) \<leftarrow> ptp_unpack_string params data (10 + t7);
        let t8 = uint32 (t7 + unat len * 2 + 1);
        (serial, _) \<leftarrow> ptp_unpack_string params data (10 + t8);
        Some \<lparr>di_StandardVersion = ver, di_VendorExtensionID = ext,
          di_VendorExtensionVersion = extver, di_VendorExtensionDesc = desc,
          di_FunctionalMode = mode, di_OperationsSupported = ops, di_EventsSupported = evs,
          di_DevicePropertiesSupported = props, di_CaptureFormats = caps,
          di_ImageFormats = imgs, di_Manufacturer = man, di_Model = model,
          di_DeviceVersion = dver, di_SerialNumber = serial\<rparr> })"

section \<open>Handles, storages, events\<close>

definition ptp_unpack_OH ::
  "'p ptp_params_scheme \<Rightarrow> byte list \<Rightarrow> nat \<Rightarrow> u32 list option" where
  "ptp_unpack_OH params data len =
     (if len \<noteq> 0 then ptp_unpack_uint32_t_array params data 0 else Some [])"

definition ptp_unpack_SIDs ::
  "'p ptp_params_scheme \<Rightarrow> byte list \<Rightarrow> nat \<Rightarrow> u32 list option" where
  "ptp_unpack_SIDs params data len = ptp_unpack_uint32_t_array params data 0"

record ptp_storage_info =
  si_StorageType :: u16
  si_FilesystemType :: u16
  si_AccessCapability :: u16
  si_MaxCapability :: u64
  si_FreeSpaceInBytes :: u64
  si_FreeSpaceInImages :: u32
  si_StorageDescription :: "byte list option"
  si_VolumeLabel :: "byte list option"

definition ptp_unpack_SI ::
  "'p ptp_params_scheme \<Rightarrow> byte list \<Rightarrow> nat \<Rightarrow> ptp_storage_info option" where
  "ptp_unpack_SI params data len = do {
     st \<leftarrow> dtoh16a params data 0;
     fs \<leftarrow> dtoh16a params data 2;
     ac \<leftarrow> dtoh16a params data 4;
     cap \<leftarrow> dtoh64a params data 6;
     free \<leftarrow> dtoh64a params data 14;
     imgs \<leftarrow> dtoh32a params data 22;
     (desc, desclen) \<leftarrow> ptp_unpack_string params data 26;
     (label, _) \<leftarrow> ptp_unpack_string params data (26 + unat desclen * 2 + 1);
     Some \<lparr>si_StorageType = st, si_FilesystemType = fs, si_AccessCapability = ac,
       si_MaxCapability = cap, si_FreeSpaceInBytes = free, si_FreeSpaceInImages = imgs,
       si_StorageDescription = desc, si_VolumeLabel = label\<rparr> }"

record ptp_container =
  Code :: u16
  SessionID :: u32
  Transaction_ID :: u32
  Param1 :: u32
  Param2 :: u32
  Param3 :: u32
  Param4 :: u32
  Param5 :: u32
  Nparam :: nat

definition ptp_container_zero :: ptp_container where
  "ptp_container_zero = \<lparr>Code = 0, SessionID = 0, Transaction_ID = 0, Param1 = 0, Param2 = 0,
     Param3 = 0, Param4 = 0, Param5 = 0, Nparam = 0\<rparr>"

definition PTP_USB_CONTAINER_EVENT :: u16 where "PTP_USB_CONTAINER_EVENT = 4"

text \<open>
  \<open>length\<close> is a signed \<open>int\<close>: a value of \<open>2^31\<close> or more is negative, and no parameter
  is read.
\<close>

definition ptp_unpack_EC :: "'p ptp_params_scheme \<Rightarrow> byte list \<Rightarrow> ptp_container option" where
  "ptp_unpack_EC params data = do {
     length_w \<leftarrow> dtoh32a params data 0;
     type \<leftarrow> dtoh16a params data 4;
     code \<leftarrow> dtoh16a params data 6;
     tid \<leftarrow> dtoh32a params data 8;
     let len = sint length_w;
     let ec = ptp_container_zero\<lparr>Code := code, Transaction_ID := tid\<rparr>;
     if type \<noteq> PTP_USB_CONTAINER_EVENT then Some ec
     else do {
       ec1 \<leftarrow> (if 16 \<le> len then do { p1 \<leftarrow> dtoh32a params data 12;
                 Some (ec\<lparr>Param1 := p1, Nparam := 1\<rparr>) } else Some ec);
       ec2 \<leftarrow> (if 20 \<le> len then do { p2 \<leftarrow> dtoh32a params data 16;
                 Some (ec1\<lparr>Param2 := p2, Nparam := 2\<rparr>) } else Some ec1);
       if 24 \<le> len then do { p3 \<leftarrow> dtoh32a params data 20;
         Some (ec2\<lparr>Param3 := p3, Nparam := 3\<rparr>) } else Some ec2 } }"

section \<open>ObjectInfo\<close>

text \<open>\<open>time_t\<close> is an \<open>int\<close> here; \<open>Keywords\<close> is never touched by the code.\<close>

record ptp_object_info =
  oi_StorageID :: u32
  oi_ObjectFormat :: u16
  oi_ProtectionStatus :: u16
  oi_ObjectCompressedSize :: u32
  oi_ThumbFormat :: u16
  oi_ThumbCompressedSize :: u32
  oi_ThumbPixWidth :: u32
  oi_ThumbPixHeight :: u32
  oi_ImagePixWidth :: u32
  oi_ImagePixHeight :: u32
  oi_ImageBitDepth :: u32
  oi_ParentObject :: u32
  oi_AssociationType :: u16
  oi_AssociationDesc :: u32
  oi_SequenceNumber :: u32
  oi_Filename :: "byte list option"
  oi_CaptureDate :: int
  oi_ModificationDate :: int
  oi_Keywords :: "byte list option"

definition PTP_oi_filenamelen :: nat where "PTP_oi_filenamelen = 52"
definition PTP_oi_Filename :: nat where "PTP_oi_Filename = 53"
definition PTP_oi_MaxLen :: nat where
  "PTP_oi_MaxLen = PTP_oi_Filename + (PTP_MAXSTRLEN + 1) * 2 + 3"

text \<open>The stores of \<open>ptp_pack_OI\<close> in the order of the source: offset and bytes.\<close>

definition oi_stores ::
  "'p ptp_params_scheme \<Rightarrow> ptp_object_info \<Rightarrow> (nat \<times> byte list) list" where
  "oi_stores params oi =
    [(0, htod32ap params (oi_StorageID oi)),
     (4, htod16ap params (oi_ObjectFormat oi)),
     (6, htod16ap params (oi_ProtectionStatus oi)),
     (8, htod32ap params (oi_ObjectCompressedSize oi)),
     (12, htod16ap params (oi_ThumbFormat oi)),
     (14, htod32ap params (oi_ThumbCompressedSize oi)),
     (18, htod32ap params (oi_ThumbPixWidth oi)),
     (22, htod32ap params (oi_ThumbPixHeight oi)),
     (26, htod32ap params (oi_ImagePixWidth oi)),
     (30, htod32ap params (oi_ImagePixHeight oi)),
     (34, htod32ap params (oi_ImageBitDepth oi)),
     (38, htod32ap params (oi_ParentObject oi)),
     (42, htod16ap params (oi_AssociationType oi)),
     (44, htod32ap params (oi_AssociationDesc oi)),
     (48, htod32ap params (oi_SequenceNumber oi))]"

definition ptp_pack_OI ::
  "'p ptp_params_scheme \<Rightarrow> ptp_object_info \<Rightarrow> (byte list \<times> nat) option" where
  "ptp_pack_OI params oi = do {
     let oidata = replicate PTP_oi_MaxLen 0;
     oidata \<leftarrow> wrs oidata (oi_stores params oi);
     filename \<leftarrow> oi_Filename oi;
     (oidata, filenamelen) \<leftarrow> ptp_pack_string params filename oidata PTP_oi_filenamelen;
     Some (oidata, PTP_oi_Filename + unat filenamelen * 2 + (0 + 1) * 3) }"

text \<open>
  C library: \<open>atoi\<close> skips white space and takes an optional sign and the digits that
  follow. \<open>mktime\<close> depends on the time zone of the host and is a parameter.
\<close>

definition c_isspace :: "byte \<Rightarrow> bool" where
  "c_isspace c \<longleftrightarrow> c = 0x20 \<or> (9 \<le> c \<and> c \<le> 13)"

definition c_isdigit :: "byte \<Rightarrow> bool" where
  "c_isdigit c \<longleftrightarrow> 0x30 \<le> c \<and> c \<le> 0x39"

definition digits_value :: "byte list \<Rightarrow> int" where
  "digits_value ds = foldl (\<lambda>n c. 10 * n + (uint c - 0x30)) 0 (takeWhile c_isdigit ds)"

definition atoi :: "byte list \<Rightarrow> int" where
  "atoi s = (case dropWhile c_isspace s of
       [] \<Rightarrow> 0
     | c # cs \<Rightarrow> if c = 0x2D then - digits_value cs
                else if c = 0x2B then digits_value cs
                else digits_value (c # cs))"

record c_tm =
  tm_sec :: int
  tm_min :: int
  tm_hour :: int
  tm_mday :: int
  tm_mon :: int
  tm_year :: int
  tm_isdst :: int

definition ptp_unpack_PTPTIME :: "(c_tm \<Rightarrow> int) \<Rightarrow> byte list option \<Rightarrow> int" where
  "ptp_unpack_PTPTIME mktime str =
     (case str of None \<Rightarrow> 0
      | Some s \<Rightarrow>
          if length s \<ge> 40 then 0
          else if length s < 15 then 0
          else mktime \<lparr>tm_sec = atoi (take 2 (drop 13 s)),
                 tm_min = atoi (take 2 (drop 11 s)),
                 tm_hour = atoi (take 2 (drop 9 s)),
                 tm_mday = atoi (take 2 (drop 6 s)),
                 tm_mon = atoi (take 2 (drop 4 s)) - 1,
                 tm_year = atoi (take 4 s) - 1900,
                 tm_isdst = -1\<rparr>)"

definition ptp_unpack_OI ::
  "(c_tm \<Rightarrow> int) \<Rightarrow> 'p ptp_params_scheme \<Rightarrow> byte list \<Rightarrow> ptp_object_info \<Rightarrow> ptp_object_info option" where
  "ptp_unpack_OI mktime params data oi = do {
     sid \<leftarrow> dtoh32a params data 0;
     ofc \<leftarrow> dtoh16a params data 4;
     ps \<leftarrow> dtoh16a params data 6;
     ocs \<leftarrow> dtoh32a params data 8;
     tf \<leftarrow> dtoh16a params data 12;
     tcs \<leftarrow> dtoh32a params data 14;
     tpw \<leftarrow> dtoh32a params data 18;
     tph \<leftarrow> dtoh32a params data 22;
     ipw \<leftarrow> dtoh32a params data 26;
     iph \<leftarrow> dtoh32a params data 30;
     ibd \<leftarrow> dtoh32a params data 34;
     po \<leftarrow> dtoh32a params data 38;
     at \<leftarrow> dtoh16a params data 42;
     ad \<leftarrow> dtoh32a params data 44;
     sn \<leftarrow> dtoh32a params data 48;
     (fname, filenamelen) \<leftarrow> ptp_unpack_string params data PTP_oi_filenamelen;
     (cdate, capturedatelen) \<leftarrow>
       ptp_unpack_string params data (PTP_oi_filenamelen + unat filenamelen * 2 + 1);
     (mdate, _) \<leftarrow>
       ptp_unpack_string params data
         (PTP_oi_filenamelen + unat filenamelen * 2 + unat capturedatelen * 2 + 2);
     Some (oi\<lparr>oi_StorageID := sid, oi_ObjectFormat := ofc, oi_ProtectionStatus := ps,
       oi_ObjectCompressedSize := ocs, oi_ThumbFormat := tf, oi_ThumbCompressedSize := tcs,
       oi_ThumbPixWidth := tpw, oi_ThumbPixHeight := tph, oi_ImagePixWidth := ipw,
       oi_ImagePixHeight := iph, oi_ImageBitDepth := ibd, oi_ParentObject := po,
       oi_AssociationType := at, oi_AssociationDesc := ad, oi_SequenceNumber := sn,
       oi_Filename := fname, oi_CaptureDate := ptp_unpack_PTPTIME mktime cdate,
       oi_ModificationDate := ptp_unpack_PTPTIME mktime mdate\<rparr>) }"

section \<open>Fields inside a dataset\<close>

text \<open>
  A dataset is a concatenation of fields; the loads at the offset where a field begins
  read that field.
\<close>

lemma dtoh16a_field [buf_simps]:
  "off = length pre \<Longrightarrow> dtoh16a p (pre @ htod16ap p v @ post) off = Some v"
  by (simp add: dtoh16a_def rd_middle)

lemma dtoh32a_field [buf_simps]:
  "off = length pre \<Longrightarrow> dtoh32a p (pre @ htod32ap p v @ post) off = Some v"
  by (simp add: dtoh32a_def rd_middle)

lemma dtoh64a_field [buf_simps]:
  "off = length pre \<Longrightarrow> dtoh64a p (pre @ htod64ap p v @ post) off = Some v"
  by (simp add: dtoh64a_def rd_middle)

text \<open>The same at the head of what is left of the data.\<close>

lemma dtoh16a_skip: "dtoh16a p (xs @ ys) (length xs + k) = dtoh16a p ys k"
  by (simp add: dtoh16a_def rd_append2)

lemma dtoh32a_skip: "dtoh32a p (xs @ ys) (length xs + k) = dtoh32a p ys k"
  by (simp add: dtoh32a_def rd_append2)

lemma dtoh64a_skip: "dtoh64a p (xs @ ys) (length xs + k) = dtoh64a p ys k"
  by (simp add: dtoh64a_def rd_append2)

lemma dtoh8a_skip: "dtoh8a (xs @ ys) (length xs + k) = dtoh8a ys k"
  by (simp add: dtoh8a_def rd_append2)

text \<open>An optional string on the wire: NULL is the single byte 0.\<close>

definition ptp_opt_string_wire :: "'p ptp_params_scheme \<Rightarrow> byte list option \<Rightarrow> byte list" where
  "ptp_opt_string_wire p so = (case so of None \<Rightarrow> [0] | Some s \<Rightarrow> ptp_string_wire p s)"

definition ptp_opt_ascii :: "byte list option \<Rightarrow> bool" where
  "ptp_opt_ascii so \<longleftrightarrow> (case so of None \<Rightarrow> True | Some s \<Rightarrow> ptp_ascii s)"

definition wire_chars :: "byte list option \<Rightarrow> nat" where
  "wire_chars so = (case so of None \<Rightarrow> 0 | Some s \<Rightarrow> length s + 1)"

lemma wire_chars_None: "wire_chars None = 0"
  by (simp add: wire_chars_def)

lemma length_opt_string_wire [simp]:
  "length (ptp_opt_string_wire p so) = wire_chars so * 2 + 1"
  by (auto simp: ptp_opt_string_wire_def wire_chars_def split: option.splits)

lemma ptp_unpack_string_field:
  assumes "no_iconv p" and "ptp_opt_ascii so" and "length pre < 65536"
  shows "ptp_unpack_string p (pre @ ptp_opt_string_wire p so @ post) (length pre) =
    Some (so, of_nat (wire_chars so))"
proof (cases so)
  case None
  then show ?thesis
    using assms(3) by (simp add: ptp_unpack_string_def ptp_opt_string_wire_def dtoh8a_nth wire_chars_def)
next
  case (Some s)
  with assms have "ptp_unpack_string p (pre @ ptp_string_wire p s @ post) (length pre) =
      Some (Some s, of_nat (length s + 1))"
    by (intro ptp_unpack_string_image) (auto simp: ptp_opt_ascii_def intro: rd_middle)
  with Some show ?thesis by (simp add: ptp_opt_string_wire_def wire_chars_def)
qed

lemma unat_wire_chars:
  assumes "ptp_opt_ascii so"
  shows "unat (of_nat (wire_chars so) :: byte) = wire_chars so"
proof -
  have "wire_chars so < 2 ^ 8"
    using assms by (auto simp: ptp_opt_ascii_def ptp_ascii_def wire_chars_def split: option.splits)
  then show ?thesis by (simp only: unat_of_nat) simp
qed

text \<open>An array of 16-bit values on the wire.\<close>

definition ptp_u16_array_wire :: "'p ptp_params_scheme \<Rightarrow> u16 list \<Rightarrow> byte list" where
  "ptp_u16_array_wire p vs = htod32ap p (of_nat (length vs)) @ concat (map (htod16ap p) vs)"

lemma length_u16_array_wire [simp]: "length (ptp_u16_array_wire p vs) = length vs * 2 + 4"
  by (simp add: ptp_u16_array_wire_def f16.length_array)

lemma ptp_unpack_uint16_t_array_field:
  assumes "length pre < 65536" and "length vs < 2 ^ 32"
  shows "ptp_unpack_uint16_t_array p (pre @ ptp_u16_array_wire p vs @ post) (length pre) = Some vs"
proof -
  let ?d = "pre @ htod32ap p (of_nat (length vs)) @ concat (map (htod16ap p) vs) @ post"
  have n: "dtoh32a p ?d (length pre) = Some (of_nat (length vs))"
    by (simp add: dtoh32a_field)
  have un: "unat (of_nat (length vs) :: u32) = length vs" using assms(2) by (simp add: unat_of_nat)
  have "dtoh16a p ?d (length pre + 2 * (i + 2)) = Some (vs ! i)" if "i < length vs" for i
    using f16.load_array [OF that, of p "pre @ htod32ap p (of_nat (length vs))" post]
    by (simp add: dtoh16a_def algebra_simps numeral_eq_Suc)
  then have "mapM (\<lambda>i. dtoh16a p ?d (length pre + 2 * (i + 2))) [0..<length vs] = Some vs"
    by (simp add: mapM_eq_Some_iff)
  then show ?thesis
    using n un assms(1) by (simp add: ptp_unpack_uint16_t_array_def ptp_u16_array_wire_def)
qed

text \<open>
  A dataset given as the list of its fields: field \<open>i\<close> begins where the fields before it
  end.
\<close>

lemma fields_split:
  assumes "i < length fs"
  shows "concat fs @ rest = concat (take i fs) @ fs ! i @ (concat (drop (Suc i) fs) @ rest)"
proof -
  have "concat fs = concat (take i fs @ fs ! i # drop (Suc i) fs)"
    using assms by (simp only: id_take_nth_drop [symmetric])
  then show ?thesis by simp
qed

lemma length_take_fields: "length (concat (take i fs)) \<le> length (concat fs)"
  by (metis append_take_drop_id concat_append le_add1 length_append)

lemma field16:
  "i < length fs \<Longrightarrow> fs ! i = htod16ap p v \<Longrightarrow> off = length (concat (take i fs)) \<Longrightarrow>
     dtoh16a p (concat fs @ rest) off = Some v"
  by (simp only: fields_split [of i fs rest] dtoh16a_field)

lemma field32:
  "i < length fs \<Longrightarrow> fs ! i = htod32ap p v \<Longrightarrow> off = length (concat (take i fs)) \<Longrightarrow>
     dtoh32a p (concat fs @ rest) off = Some v"
  by (simp only: fields_split [of i fs rest] dtoh32a_field)

lemma field64:
  "i < length fs \<Longrightarrow> fs ! i = htod64ap p v \<Longrightarrow> off = length (concat (take i fs)) \<Longrightarrow>
     dtoh64a p (concat fs @ rest) off = Some v"
  by (simp only: fields_split [of i fs rest] dtoh64a_field)

lemma field_string:
  assumes "i < length fs" and "fs ! i = ptp_opt_string_wire p so"
    and "off = length (concat (take i fs))" and "length (concat fs) < 65536"
    and "no_iconv p" and "ptp_opt_ascii so"
  shows "ptp_unpack_string p (concat fs @ rest) off = Some (so, of_nat (wire_chars so))"
  using assms length_take_fields [of i fs]
  by (simp only: fields_split [of i fs rest]) (intro ptp_unpack_string_field, auto)

lemma field_array16:
  assumes "i < length fs" and "fs ! i = ptp_u16_array_wire p vs"
    and "off = length (concat (take i fs))" and "length (concat fs) < 65536"
    and "length vs < 2 ^ 32"
  shows "ptp_unpack_uint16_t_array p (concat fs @ rest) off = Some vs"
  using assms length_take_fields [of i fs]
  by (simp only: fields_split [of i fs rest]) (intro ptp_unpack_uint16_t_array_field, auto)

section \<open>Properties\<close>

text \<open>The DeviceInfo dataset as the PTP standard lays it out.\<close>

definition di_fields :: "'p ptp_params_scheme \<Rightarrow> ptp_device_info \<Rightarrow> byte list list" where
  "di_fields p di =
     [htod16ap p (di_StandardVersion di), htod32ap p (di_VendorExtensionID di),
     htod16ap p (di_VendorExtensionVersion di),
     ptp_opt_string_wire p (di_VendorExtensionDesc di), htod16ap p (di_FunctionalMode di),
     ptp_u16_array_wire p (di_OperationsSupported di),
     ptp_u16_array_wire p (di_EventsSupported di),
     ptp_u16_array_wire p (di_DevicePropertiesSupported di),
     ptp_u16_array_wire p (di_CaptureFormats di), ptp_u16_array_wire p (di_ImageFormats di),
     ptp_opt_string_wire p (di_Manufacturer di), ptp_opt_string_wire p (di_Model di),
     ptp_opt_string_wire p (di_DeviceVersion di), ptp_opt_string_wire p (di_SerialNumber di)]"

definition di_wire :: "'p ptp_params_scheme \<Rightarrow> ptp_device_info \<Rightarrow> byte list" where
  "di_wire p di = concat (di_fields p di)"

definition di_ascii :: "ptp_device_info \<Rightarrow> bool" where
  "di_ascii di \<longleftrightarrow> ptp_opt_ascii (di_VendorExtensionDesc di) \<and> ptp_opt_ascii (di_Manufacturer di) \<and>
     ptp_opt_ascii (di_Model di) \<and> ptp_opt_ascii (di_DeviceVersion di) \<and>
     ptp_opt_ascii (di_SerialNumber di)"

text \<open>
  \<open>ptp_unpack_DI\<close> decodes every DeviceInfo dataset a device can send with
  ASCII strings and at most 65535 bytes, in either byte order and with anything after
  it: the five arrays and the five strings are found at the offsets that accumulate
  from the lengths of the ones before them, and every field of the struct is the one
  that was sent.
\<close>

theorem ptp_unpack_DI_decodes:
  assumes "no_iconv p" and "di_ascii di" and "length (di_wire p di) < 65536" and "12 \<le> datalen"
  shows "ptp_unpack_DI p (di_wire p di @ rest) di0 datalen = Some di"
proof -
  let ?f = "di_fields p di" and ?D = "di_wire p di @ rest"
  let ?ops = "di_OperationsSupported di" and ?evs = "di_EventsSupported di"
    and ?props = "di_DevicePropertiesSupported di" and ?caps = "di_CaptureFormats di"
    and ?imgs = "di_ImageFormats di"
  let ?t0 = "wire_chars (di_VendorExtensionDesc di) * 2 + 1"
  let ?t1 = "?t0 + length ?ops * 2 + 4"
  let ?t2 = "?t1 + length ?evs * 2 + 4"
  let ?t3 = "?t2 + length ?props * 2 + 4"
  let ?t4 = "?t3 + length ?caps * 2 + 4"
  let ?t5 = "?t4 + length ?imgs * 2 + 4"
  let ?t6 = "?t5 + wire_chars (di_Manufacturer di) * 2 + 1"
  let ?t7 = "?t6 + wire_chars (di_Model di) * 2 + 1"
  let ?t8 = "?t7 + wire_chars (di_DeviceVersion di) * 2 + 1"
  have n: "length ?f = 14" and sz: "length (concat ?f) < 65536"
    using assms(3) by (simp_all add: di_fields_def di_wire_def)
  then have le: "?t8 < 65536" by (simp add: di_fields_def)
  have asc: "ptp_opt_ascii (di_VendorExtensionDesc di)" "ptp_opt_ascii (di_Manufacturer di)"
    "ptp_opt_ascii (di_Model di)" "ptp_opt_ascii (di_DeviceVersion di)"
    "ptp_opt_ascii (di_SerialNumber di)" using assms(2) by (auto simp: di_ascii_def)
  have u: "uint32 ?t1 = ?t1" "uint32 ?t2 = ?t2" "uint32 ?t3 = ?t3" "uint32 ?t4 = ?t4"
    "uint32 ?t5 = ?t5" "uint32 ?t6 = ?t6" "uint32 ?t7 = ?t7" "uint32 ?t8 = ?t8"
    by (rule uint32_small, use le in simp)+
  have fixed: "dtoh16a p ?D 0 = Some (di_StandardVersion di)"
    "dtoh32a p ?D 2 = Some (di_VendorExtensionID di)"
    "dtoh16a p ?D 6 = Some (di_VendorExtensionVersion di)"
    "dtoh16a p ?D (8 + ?t0) = Some (di_FunctionalMode di)"
    unfolding di_wire_def
    by (rule field16 [where i = 0] field32 [where i = 1] field16 [where i = 2] field16 [where i = 4];
      simp add: di_fields_def)+
  have arrays: "ptp_unpack_uint16_t_array p ?D (10 + ?t0) = Some ?ops"
    "ptp_unpack_uint16_t_array p ?D (10 + ?t1) = Some ?evs"
    "ptp_unpack_uint16_t_array p ?D (10 + ?t2) = Some ?props"
    "ptp_unpack_uint16_t_array p ?D (10 + ?t3) = Some ?caps"
    "ptp_unpack_uint16_t_array p ?D (10 + ?t4) = Some ?imgs"
    unfolding di_wire_def
    by (rule field_array16 [where i = 5] field_array16 [where i = 6] field_array16 [where i = 7]
        field_array16 [where i = 8] field_array16 [where i = 9];
        use le sz in \<open>simp add: di_fields_def\<close>; fail)+
  have strings: "ptp_unpack_string p ?D 8 = Some (di_VendorExtensionDesc di, of_nat (wire_chars (di_VendorExtensionDesc di)))"
    "ptp_unpack_string p ?D (10 + ?t5) = Some (di_Manufacturer di, of_nat (wire_chars (di_Manufacturer di)))"
    "ptp_unpack_string p ?D (10 + ?t6) = Some (di_Model di, of_nat (wire_chars (di_Model di)))"
    "ptp_unpack_string p ?D (10 + ?t7) = Some (di_DeviceVersion di, of_nat (wire_chars (di_DeviceVersion di)))"
    "ptp_unpack_string p ?D (10 + ?t8) = Some (di_SerialNumber di, of_nat (wire_chars (di_SerialNumber di)))"
    unfolding di_wire_def
    by (rule field_string [where i = 3] field_string [where i = 10] field_string [where i = 11]
        field_string [where i = 12] field_string [where i = 13];
        use sz assms(1) asc in \<open>simp add: di_fields_def\<close>; fail)+
  have "\<not> datalen < 12" using assms(4) by simp
  then show ?thesis
    unfolding ptp_unpack_DI_def
    by (simp only: if_False Let_def bind.bind_lunit prod.case fixed arrays strings u
        unat_wire_chars [OF asc(1)] unat_wire_chars [OF asc(2)] unat_wire_chars [OF asc(3)]
        unat_wire_chars [OF asc(4)]) simp
qed

definition sample_di :: ptp_device_info where
  "sample_di = \<lparr>di_StandardVersion = 100, di_VendorExtensionID = 6, di_VendorExtensionVersion = 100,
     di_VendorExtensionDesc = Some [0x4D, 0x54, 0x50], di_FunctionalMode = 0,
     di_OperationsSupported = [0x1001, 0x1002], di_EventsSupported = [0xC104],
     di_DevicePropertiesSupported = [], di_CaptureFormats = [], di_ImageFormats = [0x3000],
     di_Manufacturer = Some [0x53], di_Model = None, di_DeviceVersion = Some [],
     di_SerialNumber = Some [0x31, 0x32]\<rparr>"

theorem ptp_unpack_DI_decodes_witness:
  "ptp_unpack_DI (plain_params PTP_DL_BE) (di_wire (plain_params PTP_DL_BE) sample_di @ [1, 2])
     sample_di 100 = Some sample_di \<and> length (di_wire (plain_params PTP_DL_BE) sample_di) = 63"
  using ptp_unpack_DI_decodes [of "plain_params PTP_DL_BE" sample_di 100 "[1, 2]" sample_di]
  by (simp add: sample_di_def di_ascii_def di_wire_def di_fields_def ptp_opt_ascii_def ptp_ascii_def
      wire_chars_def)

definition oi_fields :: "'p ptp_params_scheme \<Rightarrow> ptp_object_info \<Rightarrow> byte list \<Rightarrow> byte list list" where
  "oi_fields p oi s = map snd (oi_stores p oi) @ [ptp_units_wire p (string_units p s @ [0]), [0], [0]]"

lemma ptp_pack_OI_refines:
  assumes "byteorder p = PTP_DL_LE" and "oi_Filename oi = Some s" and "string_survives p s"
  shows "\<exists>d n. ptp_pack_OI p oi = Some (d, n) \<and> length d = PTP_oi_MaxLen \<and>
    n = 58 + 2 * length (string_units p s) \<and> take n d = concat (oi_fields p oi s) @ [0]"
proof -
  let ?z = "replicate PTP_oi_MaxLen 0 :: byte list" and ?us = "string_units p s"
  let ?a = "concat (map snd (oi_stores p oi))" and ?b = "ptp_units_bytes p ?us"
  have s: "length ?us \<le> 254" using assms(3) by (simp add: string_survives_def)
  have mxl: "PTP_oi_MaxLen = 568" by (simp add: PTP_oi_MaxLen_def PTP_oi_Filename_def PTP_MAXSTRLEN_def)
  have la: "length ?a = 52" by (simp add: oi_stores_def)
  have st: "wrs ?z (oi_stores p oi) = wr ?z 0 ?a"
    by (rule wrs_adjacent) (simp_all add: oi_stores_def)
  obtain d1 where d1: "wr ?z 0 ?a = Some d1" by (simp add: wr_def la mxl)
  have "wr d1 (0 + length ?a) ?b = wr ?z 0 (?a @ ?b)" using d1 by (rule wr_wr_adjacent)
  moreover obtain d where d: "wr ?z 0 (?a @ ?b) = Some d" using s by (simp add: wr_def la mxl)
  ultimately have d': "wr d1 52 ?b = Some d" by (simp add: la)
  have n8: "unat (of_nat (length ?us + 1) :: byte) = length ?us + 1"
    using s by (simp only: unat_of_nat) simp
  have "ptp_pack_OI p oi = Some (d, 53 + (length ?us + 1) * 2 + (0 + 1) * 3)"
    using ptp_pack_survivor [OF assms(3), of d1 52] d1 d' n8
    by (simp add: ptp_pack_OI_def st assms(2) PTP_oi_filenamelen_def PTP_oi_Filename_def)
  moreover have "take (58 + 2 * length ?us) d = concat (oi_fields p oi s) @ [0]"
  proof -
    have "d = ?a @ ?b @ replicate (568 - (55 + 2 * length ?us)) 0"
      using d la s by (auto simp: wr_def mxl split: if_splits)
    moreover have "568 - (55 + 2 * length ?us) = 3 + (510 - 2 * length ?us)" using s by simp
    ultimately have "d = ?a @ ?b @ replicate 3 0 @ replicate (510 - 2 * length ?us) 0"
      by (simp only: replicate_add)
    then show ?thesis
      by (simp add: oi_fields_def la units_bytes_wire [OF assms(1)] numeral_3_eq_3)
  qed
  ultimately show ?thesis using d by (simp add: mxl length_wr mult.commute)
qed

text \<open>A string of a dataset that survives, and the single byte 0 of one that is not there.\<close>

lemma field_units:
  assumes "i < length fs" and "fs ! i = ptp_units_wire p (string_units p s @ [0])"
    and "off = length (concat (take i fs))" and "length (concat fs) < 65536" and "string_survives p s"
  shows "ptp_unpack_string p (concat fs @ rest) off = Some (Some s, of_nat (length (string_units p s) + 1))"
proof -
  have "off < 65536" using assms(3,4) length_take_fields [of i fs] by simp
  then show ?thesis
    using assms(2,3) by (simp only: fields_split [OF assms(1), of rest])
      (intro ptp_unpack_survivor [OF assms(5)], simp add: rd_middle)
qed

lemma field_empty:
  assumes "i < length fs" and "fs ! i = [0]" and "off = length (concat (take i fs))" and "length (concat fs) < 65536"
  shows "ptp_unpack_string p (concat fs @ rest) off = Some (None, of_nat 0)"
proof -
  have "off < 65536" using assms(3,4) length_take_fields [of i fs] by simp
  then show ?thesis
    using assms(2,3) by (simp only: fields_split [OF assms(1), of rest])
      (simp add: ptp_unpack_string_def dtoh8a_nth)
qed

lemma ptp_unpack_OI_fields:
  assumes "string_survives p s"
  shows "ptp_unpack_OI mktime p (concat (oi_fields p oi s) @ rest) oi0 =
    Some (oi\<lparr>oi_Filename := Some s, oi_CaptureDate := 0, oi_ModificationDate := 0,
      oi_Keywords := oi_Keywords oi0\<rparr>)"
proof -
  let ?D = "concat (oi_fields p oi s) @ rest" and ?n = "length (string_units p s) + 1"
  have ls: "length (string_units p s) \<le> 254" using assms by (simp add: string_survives_def)
  have sz: "length (concat (oi_fields p oi s)) < 65536"
    using ls by (simp add: oi_fields_def oi_stores_def)
  have f: "dtoh32a p ?D 0 = Some (oi_StorageID oi)"
    "dtoh16a p ?D 4 = Some (oi_ObjectFormat oi)"
    "dtoh16a p ?D 6 = Some (oi_ProtectionStatus oi)"
    "dtoh32a p ?D 8 = Some (oi_ObjectCompressedSize oi)"
    "dtoh16a p ?D 12 = Some (oi_ThumbFormat oi)"
    "dtoh32a p ?D 14 = Some (oi_ThumbCompressedSize oi)"
    "dtoh32a p ?D 18 = Some (oi_ThumbPixWidth oi)"
    "dtoh32a p ?D 22 = Some (oi_ThumbPixHeight oi)"
    "dtoh32a p ?D 26 = Some (oi_ImagePixWidth oi)"
    "dtoh32a p ?D 30 = Some (oi_ImagePixHeight oi)"
    "dtoh32a p ?D 34 = Some (oi_ImageBitDepth oi)"
    "dtoh32a p ?D 38 = Some (oi_ParentObject oi)"
    "dtoh16a p ?D 42 = Some (oi_AssociationType oi)"
    "dtoh32a p ?D 44 = Some (oi_AssociationDesc oi)"
    "dtoh32a p ?D 48 = Some (oi_SequenceNumber oi)"
    by (rule field32 [where i = 0] field16 [where i = 1] field16 [where i = 2]
        field32 [where i = 3] field16 [where i = 4] field32 [where i = 5] field32 [where i = 6]
        field32 [where i = 7] field32 [where i = 8] field32 [where i = 9] field32 [where i = 10]
        field32 [where i = 11] field16 [where i = 12] field32 [where i = 13]
        field32 [where i = 14]; simp add: oi_fields_def oi_stores_def; fail)+
  have g: "ptp_unpack_string p ?D 52 = Some (Some s, of_nat ?n)"
    "ptp_unpack_string p ?D (52 + ?n * 2 + 1) = Some (None, of_nat 0)"
    "ptp_unpack_string p ?D (52 + ?n * 2 + 0 * 2 + 2) = Some (None, of_nat 0)"
    subgoal by (rule field_units [where i = 15, OF _ _ _ _ assms]; use sz in \<open>simp add: oi_fields_def oi_stores_def\<close>)
    subgoal by (rule field_empty [where i = 16]; use sz in \<open>simp add: oi_fields_def oi_stores_def\<close>)
    subgoal by (rule field_empty [where i = 17]; use sz in \<open>simp add: oi_fields_def oi_stores_def\<close>)
    done
  have w: "unat (of_nat ?n :: byte) = ?n" "unat (of_nat 0 :: byte) = 0"
    using ls by (simp_all only: unat_of_nat) simp_all
  show ?thesis
    unfolding ptp_unpack_OI_def PTP_oi_filenamelen_def
    by (simp only: bind.bind_lunit prod.case f g w)
      (simp add: ptp_unpack_PTPTIME_def)
qed

text \<open>
  Claim C32: an ObjectInfo packed by \<open>ptp_pack_OI\<close> for a little-endian device, with a name that
  survives the conversions of the session, fits the allocated buffer, and what is sent of it (the number
  of bytes the function returns) is read back by \<open>ptp_unpack_OI\<close>: whatever the struct that is filled
  holds, afterwards it has every integer field and the file name of the packed one. The two dates are
  not preserved: the function leaves room for two empty strings, which read as 0; the keywords are
  not read.
\<close>

theorem ptp_object_info_roundtrip:
  assumes "byteorder p = PTP_DL_LE" and "oi_Filename oi = Some s" and "string_survives p s"
  shows "\<exists>d n. ptp_pack_OI p oi = Some (d, n) \<and> n \<le> length d \<and>
    (\<forall>mktime oi0. ptp_unpack_OI mktime p (take n d) oi0 =
       Some (oi\<lparr>oi_CaptureDate := 0, oi_ModificationDate := 0, oi_Keywords := oi_Keywords oi0\<rparr>))"
proof -
  have "length (string_units p s) \<le> 254" using assms(3) by (simp add: string_survives_def)
  moreover have "oi\<lparr>oi_Filename := Some s, oi_CaptureDate := 0, oi_ModificationDate := 0, oi_Keywords := k\<rparr> =
      oi\<lparr>oi_CaptureDate := 0, oi_ModificationDate := 0, oi_Keywords := k\<rparr>" for k
    using assms(2) by (cases oi) simp
  ultimately show ?thesis
    using ptp_pack_OI_refines [OF assms] ptp_unpack_OI_fields [OF assms(3), of _ oi "[0]"]
    by (auto simp: PTP_oi_MaxLen_def PTP_oi_Filename_def PTP_MAXSTRLEN_def)
qed

definition sample_oi :: ptp_object_info where
  "sample_oi = \<lparr>oi_StorageID = 0x10001, oi_ObjectFormat = 0x3801,
     oi_ProtectionStatus = 1, oi_ObjectCompressedSize = 123456, oi_ThumbFormat = 2,
     oi_ThumbCompressedSize = 3, oi_ThumbPixWidth = 4, oi_ThumbPixHeight = 5, oi_ImagePixWidth = 6,
     oi_ImagePixHeight = 7, oi_ImageBitDepth = 8, oi_ParentObject = 0xFFFFFFFF,
     oi_AssociationType = 9, oi_AssociationDesc = 10, oi_SequenceNumber = 11,
     oi_Filename = Some [0x43, 0xC3, 0xA9, 0x2E], oi_CaptureDate = 77, oi_ModificationDate = 78,
     oi_Keywords = None\<rparr>"

theorem ptp_object_info_roundtrip_witness:
  "\<exists>d n. ptp_pack_OI utf8_params sample_oi = Some (d, n) \<and> n \<le> length d \<and>
     (\<forall>mktime oi0. ptp_unpack_OI mktime utf8_params (take n d) oi0 =
        Some (sample_oi\<lparr>oi_CaptureDate := 0, oi_ModificationDate := 0, oi_Keywords := oi_Keywords oi0\<rparr>))"
  using ptp_object_info_roundtrip [of utf8_params sample_oi "[0x43, 0xC3, 0xA9, 0x2E]"] utf8_sample(2)
  by (simp add: sample_oi_def)

definition digit :: "nat \<Rightarrow> byte" where "digit n = of_nat (0x30 + n mod 10)"

definition ptp_date :: "nat \<Rightarrow> nat \<Rightarrow> nat \<Rightarrow> nat \<Rightarrow> nat \<Rightarrow> nat \<Rightarrow> byte list" where
  "ptp_date y mo d h mi se =
     [digit (y div 1000), digit (y div 100), digit (y div 10), digit y,
      digit (mo div 10), digit mo, digit (d div 10), digit d, 0x54,
      digit (h div 10), digit h, digit (mi div 10), digit mi, digit (se div 10), digit se]"

lemma unat_digit: "unat (digit n) = 0x30 + n mod 10"
proof -
  have "n mod 10 < 10" by simp
  then have "0x30 + n mod 10 < 2 ^ 8" by simp
  then show ?thesis unfolding digit_def by (simp only: unat_of_nat) simp
qed

lemma c_isdigit_digit [simp]: "c_isdigit (digit n)"
proof -
  have "n mod 10 < 10" by simp
  then show ?thesis by (simp add: c_isdigit_def word_le_nat_alt unat_digit)
qed

lemma uint_digit: "uint (digit n) = 0x30 + int (n mod 10)"
  by (simp add: uint_nat unat_digit zmod_int)

lemma digit_not_sign [simp]: "digit n \<noteq> 0x2D" "digit n \<noteq> 0x2B" "\<not> c_isspace (digit n)"
proof -
  have "digit n \<noteq> w" if "unat w < 0x30" for w using that unat_digit [of n] by auto
  then show "digit n \<noteq> 0x2D" "digit n \<noteq> 0x2B" "\<not> c_isspace (digit n)"
    by (auto simp: c_isspace_def word_le_nat_alt unat_digit)
qed

lemma atoi_digits2: "n < 100 \<Longrightarrow> atoi [digit (n div 10), digit n] = int n"
  by (simp add: atoi_def digits_value_def uint_digit zdiv_int zmod_int)

lemma horner10:
  "n = 10 * a + r0 \<Longrightarrow> a = 10 * b + r1 \<Longrightarrow> b = 10 * c + r2 \<Longrightarrow>
     int n = 10 * (10 * (10 * int c + int r2) + int r1) + int r0"
  by simp

lemma atoi_digits4:
  assumes "n < 10000"
  shows "atoi [digit (n div 1000), digit (n div 100), digit (n div 10), digit n] = int n"
proof -
  define a b c where abc: "a = n div 10" "b = n div 100" "c = n div 1000"
  have d: "b = a div 10" "c = b div 10" "c < 10"
    using assms by (simp_all add: abc div_mult2_eq [symmetric])
  have "n = 10 * a + n mod 10" "a = 10 * b + a mod 10" "b = 10 * c + b mod 10" "c mod 10 = c"
    using d by (simp_all add: abc(1))
  then have "int n = 10 * (10 * (10 * int (c mod 10) + int (b mod 10)) + int (a mod 10)) + int (n mod 10)"
    using horner10 [of n a "n mod 10" b "a mod 10" c "b mod 10"] by (simp only:)
  then show ?thesis
    unfolding abc by (simp add: atoi_def digits_value_def uint_digit del: of_nat_mod zmod_int)
qed

text \<open>
  The capture and modification dates. A string \<open>YYYYMMDDThhmmss\<close>, with up to
  24 characters after it (tenths of a second, a time zone), is handed to \<open>mktime\<close> as
  exactly that broken-down time, the month counted from 0 and the year from 1900.
\<close>

lemma ptp_unpack_PTPTIME_parses:
  assumes "y < 10000" and "mo < 100" and "d < 100" and "h < 100" and "mi < 100" and "se < 100"
    and "length rest \<le> 24"
  shows "ptp_unpack_PTPTIME mktime (Some (ptp_date y mo d h mi se @ rest)) =
    mktime \<lparr>tm_sec = int se, tm_min = int mi, tm_hour = int h, tm_mday = int d,
      tm_mon = int mo - 1, tm_year = int y - 1900, tm_isdst = -1\<rparr>"
proof -
  let ?s = "ptp_date y mo d h mi se @ rest"
  have t: "take 4 ?s = [digit (y div 1000), digit (y div 100), digit (y div 10), digit y]"
    "take 2 (drop 4 ?s) = [digit (mo div 10), digit mo]"
    "take 2 (drop 6 ?s) = [digit (d div 10), digit d]"
    "take 2 (drop 9 ?s) = [digit (h div 10), digit h]"
    "take 2 (drop 11 ?s) = [digit (mi div 10), digit mi]"
    "take 2 (drop 13 ?s) = [digit (se div 10), digit se]"
    by (simp_all add: ptp_date_def)
  have len: "\<not> length ?s \<ge> 40" "\<not> length ?s < 15" using assms(7) by (simp_all add: ptp_date_def)
  show ?thesis
    unfolding ptp_unpack_PTPTIME_def option.case t atoi_digits4 [OF assms(1)]
      atoi_digits2 [OF assms(2)] atoi_digits2 [OF assms(3)] atoi_digits2 [OF assms(4)]
      atoi_digits2 [OF assms(5)] atoi_digits2 [OF assms(6)]
    by (simp only: len if_False)
qed

lemma ptp_unpack_PTPTIME_parses_witness:
  "ptp_unpack_PTPTIME (\<lambda>tm. 100 * tm_year tm + tm_mon tm)
     (Some (ptp_date 2013 2 28 23 59 7 @ [0x2E, 0x30])) = 11301"
  using ptp_unpack_PTPTIME_parses [of 2013 2 28 23 59 7 "[0x2E, 0x30]" "\<lambda>tm. 100 * tm_year tm + tm_mon tm"]
  by simp

end
