(* ===== verification/Ptp_Prop.thy ===== *)
theory Ptp_Prop
  imports Ptp_Datasets "HOL-Library.Multiset"
begin

text \<open>
  Property values, device and object property descriptions and object property lists
  (\<open>src/src/ptp-pack.c\<close>, \<open>ptp_unpack_DPV\<close> to \<open>ptp_unpack_OPL\<close>). \<open>None\<close> is an access
  outside the data; a function that reports failure returns \<open>False\<close>.
\<close>

section \<open>Data type codes\<close>

definition PTP_DTC_UNDEF :: u16 where "PTP_DTC_UNDEF = 0x0000"
definition PTP_DTC_INT8 :: u16 where "PTP_DTC_INT8 = 0x0001"
definition PTP_DTC_UINT8 :: u16 where "PTP_DTC_UINT8 = 0x0002"
definition PTP_DTC_INT16 :: u16 where "PTP_DTC_INT16 = 0x0003"
definition PTP_DTC_UINT16 :: u16 where "PTP_DTC_UINT16 = 0x0004"
definition PTP_DTC_INT32 :: u16 where "PTP_DTC_INT32 = 0x0005"
definition PTP_DTC_UINT32 :: u16 where "PTP_DTC_UINT32 = 0x0006"
definition PTP_DTC_INT64 :: u16 where "PTP_DTC_INT64 = 0x0007"
definition PTP_DTC_UINT64 :: u16 where "PTP_DTC_UINT64 = 0x0008"
definition PTP_DTC_INT128 :: u16 where "PTP_DTC_INT128 = 0x0009"
definition PTP_DTC_UINT128 :: u16 where "PTP_DTC_UINT128 = 0x000A"
definition PTP_DTC_AINT8 :: u16 where "PTP_DTC_AINT8 = 0x4001"
definition PTP_DTC_AUINT8 :: u16 where "PTP_DTC_AUINT8 = 0x4002"
definition PTP_DTC_AINT16 :: u16 where "PTP_DTC_AINT16 = 0x4003"
definition PTP_DTC_AUINT16 :: u16 where "PTP_DTC_AUINT16 = 0x4004"
definition PTP_DTC_AINT32 :: u16 where "PTP_DTC_AINT32 = 0x4005"
definition PTP_DTC_AUINT32 :: u16 where "PTP_DTC_AUINT32 = 0x4006"
definition PTP_DTC_AINT64 :: u16 where "PTP_DTC_AINT64 = 0x4007"
definition PTP_DTC_AUINT64 :: u16 where "PTP_DTC_AUINT64 = 0x4008"
definition PTP_DTC_STR :: u16 where "PTP_DTC_STR = 0xFFFF"

lemmas dtc_defs =
  PTP_DTC_INT8_def PTP_DTC_UINT8_def PTP_DTC_INT16_def PTP_DTC_UINT16_def
  PTP_DTC_INT32_def PTP_DTC_UINT32_def PTP_DTC_INT64_def PTP_DTC_UINT64_def
  PTP_DTC_INT128_def PTP_DTC_UINT128_def PTP_DTC_AINT8_def PTP_DTC_AUINT8_def
  PTP_DTC_AINT16_def PTP_DTC_AUINT16_def PTP_DTC_AINT32_def PTP_DTC_AUINT32_def
  PTP_DTC_AINT64_def PTP_DTC_AUINT64_def PTP_DTC_STR_def

text \<open>
  The union \<open>PTPPropertyValue\<close>. The signed and the unsigned member of a width share
  their bits and are one constructor; \<open>PV_unset\<close> is a union nothing was stored to.
  \<open>PV_a n vs\<close> has the count and the elements that were read, which are fewer than the
  count when the data ran out.
\<close>

datatype ptp_property_value =
    PV_unset
  | PV_str "byte list option"
  | PV_8 byte
  | PV_16 u16
  | PV_32 u32
  | PV_64 u64
  | PV_a u32 "ptp_property_value list"

section \<open>Reading a value\<close>

text \<open>
  The guard of \<open>CTVAL\<close>: the difference of the two \<open>int\<close>s is compared with a
  \<open>size_t\<close>, so a negative difference becomes a very large number.
\<close>

definition total_too_short :: "int \<Rightarrow> nat \<Rightarrow> nat \<Rightarrow> bool" where
  "total_too_short tot offset k \<longleftrightarrow> (tot - int offset) mod 2 ^ 64 < int k"

definition CTVAL ::
  "(nat \<Rightarrow> 'w option) \<Rightarrow> nat \<Rightarrow> ('w \<Rightarrow> ptp_property_value) \<Rightarrow> int \<Rightarrow> nat \<Rightarrow> ptp_property_value \<Rightarrow>
     (bool \<times> nat \<times> ptp_property_value) option" where
  "CTVAL load k mk tot offset value =
     (if total_too_short tot offset k then Some (False, offset, value)
      else do { v \<leftarrow> load offset; Some (True, offset + k, mk v) })"

fun RARR_loop ::
  "(nat \<Rightarrow> 'w option) \<Rightarrow> nat \<Rightarrow> ('w \<Rightarrow> ptp_property_value) \<Rightarrow> int \<Rightarrow> nat \<Rightarrow> nat \<Rightarrow>
     (bool \<times> nat \<times> ptp_property_value list) option" where
  "RARR_loop load k mk tot 0 offset = Some (True, offset, [])"
| "RARR_loop load k mk tot (Suc n) offset =
     (if total_too_short tot offset k then Some (False, offset, [])
      else do {
        v \<leftarrow> load offset;
        (ret, offset', vs) \<leftarrow> RARR_loop load k mk tot n (offset + k);
        Some (ret, offset', mk v # vs) })"

text \<open>
  \<open>n\<close> is an \<open>int\<close>: a count of \<open>2^31\<close> or more is negative, and the \<open>malloc\<close> of a
  multiple of it converted to \<open>size_t\<close> fails.
\<close>

definition RARR ::
  "'p ptp_params_scheme \<Rightarrow> byte list \<Rightarrow> (nat \<Rightarrow> 'w option) \<Rightarrow> nat \<Rightarrow> ('w \<Rightarrow> ptp_property_value) \<Rightarrow>
     int \<Rightarrow> nat \<Rightarrow> ptp_property_value \<Rightarrow> (bool \<times> nat \<times> ptp_property_value) option" where
  "RARR params data load k mk tot offset value =
     (if total_too_short tot offset 4 then Some (False, offset, value)
      else do {
        n \<leftarrow> dtoh32a params data offset;
        if sint n < 0 then Some (False, offset + 4, PV_a n [])
        else do {
          (ret, offset', vs) \<leftarrow> RARR_loop load k mk tot (unat n) (offset + 4);
          Some (ret, offset', PV_a n vs) } })"

definition ptp_unpack_DPV ::
  "'p ptp_params_scheme \<Rightarrow> byte list \<Rightarrow> nat \<Rightarrow> int \<Rightarrow> ptp_property_value \<Rightarrow> u16 \<Rightarrow>
     (bool \<times> nat \<times> ptp_property_value) option" where
  "ptp_unpack_DPV params data offset tot value datatyp =
    (if datatyp = PTP_DTC_INT8 \<or> datatyp = PTP_DTC_UINT8 then
       CTVAL (dtoh8a data) 1 PV_8 tot offset value
     else if datatyp = PTP_DTC_INT16 \<or> datatyp = PTP_DTC_UINT16 then
       CTVAL (dtoh16a params data) 2 PV_16 tot offset value
     else if datatyp = PTP_DTC_INT32 \<or> datatyp = PTP_DTC_UINT32 then
       CTVAL (dtoh32a params data) 4 PV_32 tot offset value
     else if datatyp = PTP_DTC_INT64 \<or> datatyp = PTP_DTC_UINT64 then
       CTVAL (dtoh64a params data) 8 PV_64 tot offset value
     else if datatyp = PTP_DTC_UINT128 \<or> datatyp = PTP_DTC_INT128 then
       Some (True, offset + 16, value)
     else if datatyp = PTP_DTC_AINT8 \<or> datatyp = PTP_DTC_AUINT8 then
       RARR params data (dtoh8a data) 1 PV_8 tot offset value
     else if datatyp = PTP_DTC_AUINT16 \<or> datatyp = PTP_DTC_AINT16 then
       RARR params data (dtoh16a params data) 2 PV_16 tot offset value
     else if datatyp = PTP_DTC_AUINT32 \<or> datatyp = PTP_DTC_AINT32 then
       RARR params data (dtoh32a params data) 4 PV_32 tot offset value
     else if datatyp = PTP_DTC_AUINT64 \<or> datatyp = PTP_DTC_AINT64 then
       RARR params data (dtoh64a params data) 8 PV_64 tot offset value
     else if datatyp = PTP_DTC_STR then do {
       (str, len) \<leftarrow> ptp_unpack_string params data offset;
       Some (True, offset + (unat len * 2 + 1), PV_str str) }
     else Some (False, offset, value))"

section \<open>Writing a value\<close>

text \<open>Reading a union member other than the one stored is outside the model: \<open>None\<close>.\<close>

fun pv_8 :: "ptp_property_value \<Rightarrow> byte option" where
  "pv_8 (PV_8 v) = Some v" | "pv_8 _ = None"
fun pv_16 :: "ptp_property_value \<Rightarrow> u16 option" where
  "pv_16 (PV_16 v) = Some v" | "pv_16 _ = None"
fun pv_32 :: "ptp_property_value \<Rightarrow> u32 option" where
  "pv_32 (PV_32 v) = Some v" | "pv_32 _ = None"
fun pv_64 :: "ptp_property_value \<Rightarrow> u64 option" where
  "pv_64 (PV_64 v) = Some v" | "pv_64 _ = None"

text \<open>
  An array: the size is computed in \<open>size_t\<close> and cut to 32 bits, so an array of 4 GiB
  or more gets a buffer that is too small for the stores.
\<close>

definition pack_array ::
  "'p ptp_params_scheme \<Rightarrow> (ptp_property_value \<Rightarrow> 'w option) \<Rightarrow> ('w \<Rightarrow> byte list) \<Rightarrow> nat \<Rightarrow>
     ptp_property_value \<Rightarrow> (byte list \<times> u32) option" where
  "pack_array params member store k value =
     (case value of
        PV_a cnt v \<Rightarrow>
          if 4 + unat cnt * k < 2 ^ 32 \<and> unat cnt \<le> length v
          then do {
            ws \<leftarrow> mapM member (take (unat cnt) v);
            Some (htod32ap params cnt @ concat (map store ws), of_nat (4 + unat cnt * k)) }
          else None
      | _ \<Rightarrow> None)"

definition pack_scalar :: "'w option \<Rightarrow> ('w \<Rightarrow> byte list) \<Rightarrow> u32 \<Rightarrow> (byte list \<times> u32) option" where
  "pack_scalar member store sz = do { w \<leftarrow> member; Some (store w, sz) }"

text \<open>A type the switch does not know leaves a NULL pointer and the size 0.\<close>

definition ptp_pack_DPV ::
  "'p ptp_params_scheme \<Rightarrow> byte list \<Rightarrow> ptp_property_value \<Rightarrow> u16 \<Rightarrow> (byte list \<times> u32) option" where
  "ptp_pack_DPV params junk value datatyp =
    (if datatyp = PTP_DTC_INT8 \<or> datatyp = PTP_DTC_UINT8 then
       pack_scalar (pv_8 value) (\<lambda>b. [b]) 1
     else if datatyp = PTP_DTC_INT16 \<or> datatyp = PTP_DTC_UINT16 then
       pack_scalar (pv_16 value) (htod16ap params) 2
     else if datatyp = PTP_DTC_INT32 \<or> datatyp = PTP_DTC_UINT32 then
       pack_scalar (pv_32 value) (htod32ap params) 4
     else if datatyp = PTP_DTC_INT64 \<or> datatyp = PTP_DTC_UINT64 then
       pack_scalar (pv_64 value) (htod64ap params) 8
     else if datatyp = PTP_DTC_AUINT8 \<or> datatyp = PTP_DTC_AINT8 then
       pack_array params pv_8 (\<lambda>b. [b]) 1 value
     else if datatyp = PTP_DTC_AUINT16 \<or> datatyp = PTP_DTC_AINT16 then
       pack_array params pv_16 (htod16ap params) 2 value
     else if datatyp = PTP_DTC_AUINT32 \<or> datatyp = PTP_DTC_AINT32 then
       pack_array params pv_32 (htod32ap params) 4 value
     else if datatyp = PTP_DTC_AUINT64 \<or> datatyp = PTP_DTC_AINT64 then
       pack_array params pv_64 (htod64ap params) 8 value
     else if datatyp = PTP_DTC_STR then
       (case value of PV_str str \<Rightarrow> ptp_get_packed_stringcopy params junk str | _ \<Rightarrow> None)
     else Some ([], 0))"

section \<open>Device and object property descriptions\<close>

definition PTP_DPFF_None :: byte where "PTP_DPFF_None = 0"
definition PTP_DPFF_Range :: byte where "PTP_DPFF_Range = 1"
definition PTP_DPFF_Enumeration :: byte where "PTP_DPFF_Enumeration = 2"
definition PTP_OPFF_Range :: byte where "PTP_OPFF_Range = 1"
definition PTP_OPFF_Enumeration :: byte where "PTP_OPFF_Enumeration = 2"

datatype prop_form =
    FORM_None
  | FORM_Range ptp_property_value ptp_property_value ptp_property_value
  | FORM_Enum u16 "ptp_property_value list"

record ptp_device_prop_desc =
  dpd_DevicePropertyCode :: u16
  dpd_DataType :: u16
  dpd_GetSet :: byte
  dpd_FactoryDefaultValue :: ptp_property_value
  dpd_CurrentValue :: ptp_property_value
  dpd_FormFlag :: byte
  dpd_FORM :: prop_form

record ptp_object_prop_desc =
  opd_ObjectPropertyCode :: u16
  opd_DataType :: u16
  opd_GetSet :: byte
  opd_FactoryDefaultValue :: ptp_property_value
  opd_GroupCode :: u32
  opd_FormFlag :: byte
  opd_FORM :: prop_form

text \<open>
  The loop over the values of an enumeration: it stops at the first value that cannot be
  read, and reports the values read before it.
\<close>

fun enum_loop ::
  "(nat \<Rightarrow> (bool \<times> nat \<times> ptp_property_value) option) \<Rightarrow> nat \<Rightarrow> nat \<Rightarrow>
     ptp_property_value list option" where
  "enum_loop dpv 0 offset = Some []"
| "enum_loop dpv (Suc n) offset = do {
     (ret, offset', v) \<leftarrow> dpv offset;
     if ret then do { vs \<leftarrow> enum_loop dpv n offset'; Some (v # vs) }
     else Some [] }"

text \<open>
  The FORM of a description, shared by the two functions (their code is the same): the
  outer option is a fault, the inner one the jump to \<open>outofmemory\<close>.
\<close>

definition unpack_form ::
  "'p ptp_params_scheme \<Rightarrow> byte list \<Rightarrow> nat \<Rightarrow> int \<Rightarrow> u16 \<Rightarrow> byte \<Rightarrow> prop_form option option" where
  "unpack_form params data offset tot datatyp formflag =
     (let dpv = (\<lambda>offset. ptp_unpack_DPV params data offset tot PV_unset datatyp) in
      if formflag = PTP_DPFF_Range then do {
        (ret, offset, mn) \<leftarrow> dpv offset;
        if \<not> ret then Some None else do {
        (ret, offset, mx) \<leftarrow> dpv offset;
        if \<not> ret then Some None else do {
        (ret, offset, step) \<leftarrow> dpv offset;
        if \<not> ret then Some None else Some (Some (FORM_Range mn mx step)) } } }
      else if formflag = PTP_DPFF_Enumeration then do {
        n \<leftarrow> dtoh16a params data offset;
        vs \<leftarrow> enum_loop dpv (unat n) (offset + 2);
        if length vs = 0 \<and> unat n \<noteq> 0 then Some None
        else Some (Some (FORM_Enum (of_nat (length vs)) vs)) }
      else Some (Some FORM_None))"

text \<open>
  \<open>None\<close> is a fault, \<open>Some None\<close> the return value 0 (the description is freed) and
  \<open>Some (Some dpd)\<close> the return value 1.
\<close>

definition ptp_unpack_DPD ::
  "'p ptp_params_scheme \<Rightarrow> byte list \<Rightarrow> u32 \<Rightarrow> ptp_device_prop_desc option option" where
  "ptp_unpack_DPD params data dpdlen = do {
     code \<leftarrow> dtoh16a params data 0;
     dt \<leftarrow> dtoh16a params data 2;
     getset \<leftarrow> dtoh8a data 4;
     let dpd = \<lparr>dpd_DevicePropertyCode = code, dpd_DataType = dt, dpd_GetSet = getset,
       dpd_FactoryDefaultValue = PV_unset, dpd_CurrentValue = PV_unset,
       dpd_FormFlag = PTP_DPFF_None, dpd_FORM = FORM_None\<rparr>;
     (ret, offset, v) \<leftarrow> ptp_unpack_DPV params data 5 (sint dpdlen) PV_unset dt;
     if \<not> ret then Some None
     else if dt = PTP_DTC_STR \<and> offset = unat dpdlen
     then Some (Some (dpd\<lparr>dpd_FactoryDefaultValue := v\<rparr>))
     else do {
       (ret, offset, cur) \<leftarrow> ptp_unpack_DPV params data offset (sint dpdlen) PV_unset dt;
       let dpd = dpd\<lparr>dpd_FactoryDefaultValue := v, dpd_CurrentValue := cur\<rparr>;
       if \<not> ret then Some None
       else if offset = 5 then Some (Some dpd)
       else do {
         flag \<leftarrow> dtoh8a data offset;
         form \<leftarrow> unpack_form params data (offset + 1) (sint dpdlen) dt flag;
         case form of None \<Rightarrow> Some None
         | Some f \<Rightarrow> Some (Some (dpd\<lparr>dpd_FormFlag := flag, dpd_FORM := f\<rparr>)) } } }"

definition ptp_unpack_OPD ::
  "'p ptp_params_scheme \<Rightarrow> byte list \<Rightarrow> u32 \<Rightarrow> ptp_object_prop_desc option option" where
  "ptp_unpack_OPD params data opdlen = do {
     code \<leftarrow> dtoh16a params data 0;
     dt \<leftarrow> dtoh16a params data 2;
     getset \<leftarrow> dtoh8a data 4;
     (ret, offset, v) \<leftarrow> ptp_unpack_DPV params data 5 (sint opdlen) PV_unset dt;
     if \<not> ret then Some None
     else do {
       group \<leftarrow> dtoh32a params data offset;
       flag \<leftarrow> dtoh8a data (offset + 4);
       form \<leftarrow> unpack_form params data (offset + 5) (sint opdlen) dt flag;
       case form of None \<Rightarrow> Some None
       | Some f \<Rightarrow> Some (Some \<lparr>opd_ObjectPropertyCode = code, opd_DataType = dt,
           opd_GetSet = getset, opd_FactoryDefaultValue = v, opd_GroupCode = group,
           opd_FormFlag = flag, opd_FORM = f\<rparr>) } }"

section \<open>Object property lists\<close>

record mtp_properties =
  mp_property :: u16
  mp_datatype :: u16
  mp_ObjectHandle :: u32
  mp_propval :: ptp_property_value

definition MAX_MTP_PROPS :: nat where "MAX_MTP_PROPS = 127"

text \<open>
  \<open>while (nrofprops-- && noitems < MAX_MTP_PROPS)\<close>: the number of items taken. A
  negative count never reaches 0 and takes the maximum.
\<close>

definition opl_items :: "int \<Rightarrow> nat" where
  "opl_items nrofprops = (if nrofprops < 0 then MAX_MTP_PROPS else min (nat nrofprops) MAX_MTP_PROPS)"

definition opl_item ::
  "'p ptp_params_scheme \<Rightarrow> byte list \<Rightarrow> mtp_properties \<Rightarrow> byte list option" where
  "opl_item params junk prop = do {
     (packed, len) \<leftarrow> ptp_pack_DPV params junk (mp_propval prop) (mp_datatype prop);
     body \<leftarrow> rd packed 0 (unat len);
     Some (htod32ap params (mp_ObjectHandle prop) @ htod16ap params (mp_property prop) @
           htod16ap params (mp_datatype prop) @ body) }"

definition ptp_pack_OPL ::
  "'p ptp_params_scheme \<Rightarrow> byte list \<Rightarrow> mtp_properties list \<Rightarrow> int \<Rightarrow> (byte list \<times> u32) option" where
  "ptp_pack_OPL params junk props nrofprops = (let noitems = opl_items nrofprops in
     if noitems \<le> length props then do {
       items \<leftarrow> mapM (opl_item params junk) (take noitems props);
       let opldata = htod32ap params (of_nat noitems) @ concat items;
       if length opldata < 2 ^ 32 then Some (opldata, of_nat (length opldata)) else None }
     else None)"

text \<open>The comparison function for \<open>qsort\<close>: an unsigned difference returned as an \<open>int\<close>.\<close>

definition compare_func :: "mtp_properties \<Rightarrow> mtp_properties \<Rightarrow> int" where
  "compare_func x y = sint (mp_ObjectHandle x - mp_ObjectHandle y)"

text \<open>
  \<open>len\<close> is unsigned, so the test \<open>len <= 0\<close> only catches a list that ends exactly at a
  boundary. The result of \<open>ptp_unpack_DPV\<close> is ignored.
\<close>

fun opl_loop ::
  "'p ptp_params_scheme \<Rightarrow> byte list \<Rightarrow> u32 \<Rightarrow> nat \<Rightarrow> mtp_properties list option" where
  "opl_loop params data len 0 = Some []"
| "opl_loop params data len (Suc n) =
     (if len = 0 then Some []
      else do {
        h \<leftarrow> dtoh32a params data 0;
        prop \<leftarrow> dtoh16a params data 4;
        dt \<leftarrow> dtoh16a params data 6;
        (_, offset, v) \<leftarrow>
          ptp_unpack_DPV params (drop 8 data) 0 (sint (len - 8)) PV_unset dt;
        rest \<leftarrow> opl_loop params (drop (8 + offset) data) (len - 8 - of_nat offset) n;
        Some (\<lparr>mp_property = prop, mp_datatype = dt, mp_ObjectHandle = h, mp_propval = v\<rparr> # rest) })"

text \<open>\<open>qsort\<close> is the sorting function of the C library: comparison and array.\<close>

definition ptp_unpack_OPL ::
  "((mtp_properties \<Rightarrow> mtp_properties \<Rightarrow> int) \<Rightarrow> mtp_properties list \<Rightarrow> mtp_properties list) \<Rightarrow>
     'p ptp_params_scheme \<Rightarrow> byte list \<Rightarrow> u32 \<Rightarrow> mtp_properties list option" where
  "ptp_unpack_OPL qsort params data len = do {
     prop_count \<leftarrow> dtoh32a params data 0;
     if prop_count = 0 then Some []
     else do {
       props \<leftarrow> opl_loop params (drop 4 data) (len - 4) (unat prop_count);
       Some (qsort compare_func props) } }"

section \<open>Bounds\<close>

lemma total_too_short_inside:
  assumes "offset \<le> sz" and "sz < 2 ^ 63"
  shows "total_too_short (int sz) offset k \<longleftrightarrow> sz < offset + k"
proof -
  have "int sz < 2 ^ 63" using assms(2) by simp
  then have "(int sz - int offset) mod 2 ^ 64 = int sz - int offset"
    using assms(1) by (intro mod_pos_pos_trivial) simp_all
  then show ?thesis unfolding total_too_short_def by linarith
qed

text \<open>
  The contract of a field reader: with the data announced at its real size, reading at an
  offset inside it neither faults nor leaves the data.
\<close>

definition stays_inside ::
  "byte list \<Rightarrow> (nat \<Rightarrow> (bool \<times> nat \<times> 'v) option) \<Rightarrow> bool" where
  "stays_inside data f \<longleftrightarrow> (\<forall>offset \<le> length data. \<exists>ret offset' v.
     f offset = Some (ret, offset', v) \<and> offset \<le> offset' \<and> offset' \<le> length data)"

definition loads_inside :: "byte list \<Rightarrow> (nat \<Rightarrow> 'w option) \<Rightarrow> nat \<Rightarrow> bool" where
  "loads_inside data load k \<longleftrightarrow> (\<forall>offset. offset + k \<le> length data \<longrightarrow> load offset \<noteq> None)"

lemma loads_inside_dtoh [simp]:
  "loads_inside data (dtoh8a data) 1" "loads_inside data (dtoh8a data) (Suc 0)"
  "loads_inside data (dtoh16a p data) 2"
  "loads_inside data (dtoh32a p data) 4" "loads_inside data (dtoh64a p data) 8"
  by (auto simp: loads_inside_def dtoh8a_nth dtoh16a_eq_None_iff dtoh32a_eq_None_iff
      dtoh64a_eq_None_iff simp del: not_None_eq)

lemma CTVAL_stays_inside:
  assumes "loads_inside data load k" and "length data < 2 ^ 63"
  shows "stays_inside data (\<lambda>offset. CTVAL load k mk (int (length data)) offset value)"
  unfolding stays_inside_def
proof (intro allI impI)
  fix offset
  assume le: "offset \<le> length data"
  show "\<exists>ret offset' v. CTVAL load k mk (int (length data)) offset value = Some (ret, offset', v) \<and>
      offset \<le> offset' \<and> offset' \<le> length data"
  proof (cases "length data < offset + k")
    case True
    then show ?thesis using le assms(2) by (auto simp: CTVAL_def total_too_short_inside)
  next
    case False
    then obtain v where "load offset = Some v" using assms(1) by (auto simp: loads_inside_def not_less)
    then show ?thesis using False le assms(2) by (auto simp: CTVAL_def total_too_short_inside)
  qed
qed

lemma RARR_loop_stays_inside:
  assumes "loads_inside data load k" and "length data < 2 ^ 63" and "offset \<le> length data"
  shows "\<exists>ret offset' vs. RARR_loop load k mk (int (length data)) n offset = Some (ret, offset', vs) \<and>
    offset \<le> offset' \<and> offset' \<le> length data \<and> length vs \<le> n \<and> (ret \<longrightarrow> length vs = n)"
  using assms(3)
proof (induction n arbitrary: offset)
  case 0
  then show ?case by auto
next
  case (Suc n)
  show ?case
  proof (cases "length data < offset + k")
    case True
    then show ?thesis using Suc.prems assms(2) by (auto simp: total_too_short_inside)
  next
    case False
    then obtain v where v: "load offset = Some v" using assms(1) by (force simp: loads_inside_def)
    have "offset + k \<le> length data" using False by simp
    from Suc.IH [OF this] obtain ret offset' vs
      where "RARR_loop load k mk (int (length data)) n (offset + k) = Some (ret, offset', vs)"
        "offset + k \<le> offset'" "offset' \<le> length data" "length vs \<le> n" "ret \<longrightarrow> length vs = n" by blast
    then show ?thesis using False v Suc.prems assms(2) by (simp add: total_too_short_inside)
  qed
qed

lemma RARR_stays_inside:
  assumes "loads_inside data load k" and "length data < 2 ^ 63"
  shows "stays_inside data (\<lambda>offset. RARR p data load k mk (int (length data)) offset value)"
  unfolding stays_inside_def
proof (intro allI impI)
  fix offset
  assume le: "offset \<le> length data"
  show "\<exists>ret offset' v. RARR p data load k mk (int (length data)) offset value = Some (ret, offset', v) \<and>
      offset \<le> offset' \<and> offset' \<le> length data"
  proof (cases "length data < offset + 4")
    case True
    then show ?thesis using le assms(2) by (auto simp: RARR_def total_too_short_inside)
  next
    case False
    then obtain n where n: "dtoh32a p data offset = Some n"
      by (metis dtoh32a_eq_None_iff not_None_eq)
    have "offset + 4 \<le> length data" using False by simp
    from RARR_loop_stays_inside [OF assms this, of mk "unat n"] show ?thesis
      using False n le assms(2) by (auto simp: RARR_def total_too_short_inside)
  qed
qed

section \<open>A value that is written can be read\<close>

text \<open>
  The values \<open>ptp_pack_DPV\<close> handles: the stored member is the one the data type names,
  array counts are right and stay below \<open>2^28\<close> elements, strings are ASCII and fit.
\<close>

definition pv_ok :: "'p ptp_params_scheme \<Rightarrow> u16 \<Rightarrow> ptp_property_value \<Rightarrow> bool" where
  "pv_ok p dt v = (case v of
      PV_8 _ \<Rightarrow> dt = PTP_DTC_INT8 \<or> dt = PTP_DTC_UINT8
    | PV_16 _ \<Rightarrow> dt = PTP_DTC_INT16 \<or> dt = PTP_DTC_UINT16
    | PV_32 _ \<Rightarrow> dt = PTP_DTC_INT32 \<or> dt = PTP_DTC_UINT32
    | PV_64 _ \<Rightarrow> dt = PTP_DTC_INT64 \<or> dt = PTP_DTC_UINT64
    | PV_str so \<Rightarrow> dt = PTP_DTC_STR \<and> (case so of None \<Rightarrow> False | Some s \<Rightarrow> string_survives p s)
    | PV_a n vs \<Rightarrow> length vs < 2 ^ 28 \<and> n = of_nat (length vs) \<and>
        (if dt = PTP_DTC_AINT8 \<or> dt = PTP_DTC_AUINT8 then mapM pv_8 vs \<noteq> None
         else if dt = PTP_DTC_AINT16 \<or> dt = PTP_DTC_AUINT16 then mapM pv_16 vs \<noteq> None
         else if dt = PTP_DTC_AINT32 \<or> dt = PTP_DTC_AUINT32 then mapM pv_32 vs \<noteq> None
         else if dt = PTP_DTC_AINT64 \<or> dt = PTP_DTC_AUINT64 then mapM pv_64 vs \<noteq> None
         else False)
    | PV_unset \<Rightarrow> False)"

lemma pv_inv:
  "pv_8 v = Some a \<longleftrightarrow> v = PV_8 a" "pv_16 v = Some b \<longleftrightarrow> v = PV_16 b"
  "pv_32 v = Some c \<longleftrightarrow> v = PV_32 c" "pv_64 v = Some d \<longleftrightarrow> v = PV_64 d"
  by (cases v; auto)+

lemma mapM_inv:
  assumes "\<And>v w. f v = Some w \<longleftrightarrow> v = mk w"
  shows "mapM f vs = Some ws \<longleftrightarrow> vs = map mk ws"
  by (induction vs arbitrary: ws) (auto simp: assms Option.bind_eq_Some_conv Cons_eq_map_conv)

lemmas mapM_pv = mapM_inv [OF pv_inv(1)] mapM_inv [OF pv_inv(2)] mapM_inv [OF pv_inv(3)]
  mapM_inv [OF pv_inv(4)]

lemma total_enough:
  assumes "int offset + int k \<le> tot" and "tot < 2 ^ 31" and "0 < k"
  shows "\<not> total_too_short tot offset k"
proof -
  have "(tot - int offset) mod 2 ^ 64 = tot - int offset"
    using assms by (intro mod_pos_pos_trivial) simp_all
  then show ?thesis using assms(1) by (simp add: total_too_short_def)
qed

text \<open>A loader paired with the bytes it inverts, at any position of a buffer.\<close>

definition loads :: "(byte list \<Rightarrow> nat \<Rightarrow> 'w option) \<Rightarrow> ('w \<Rightarrow> byte list) \<Rightarrow> nat \<Rightarrow> bool" where
  "loads load store k \<longleftrightarrow> 0 < k \<and> (\<forall>w. length (store w) = k) \<and>
     (\<forall>pre w post. load (pre @ store w @ post) (length pre) = Some w)"

lemma loads_dtoh [simp]:
  "loads dtoh8a (\<lambda>b. [b]) 1" "loads dtoh8a (\<lambda>b. [b]) (Suc 0)"
  "loads (dtoh16a p) (htod16ap p) 2" "loads (dtoh32a p) (htod32ap p) 4"
  "loads (dtoh64a p) (htod64ap p) 8"
  by (simp_all add: loads_def dtoh8a_nth dtoh16a_field dtoh32a_field dtoh64a_field nth_append)

lemma CTVAL_store:
  assumes "loads load store k" and "int k \<le> tot" and "tot < 2 ^ 31"
  shows "CTVAL (load (store w @ post)) k mk tot 0 v0 = Some (True, k, mk w)"
proof -
  have "load ([] @ store w @ post) (length ([] :: byte list)) = Some w"
    using assms(1) unfolding loads_def by blast
  then show ?thesis using assms total_enough [of 0 k tot] by (simp add: CTVAL_def loads_def)
qed

lemma RARR_loop_store:
  assumes "loads load store k" and "tot < 2 ^ 31" and "int (length pre + k * length ws) \<le> tot"
  shows "RARR_loop (load (pre @ concat (map store ws) @ post)) k mk tot (length ws) (length pre) =
    Some (True, length pre + k * length ws, map mk ws)"
  using assms(3)
proof (induction ws arbitrary: pre)
  case Nil
  then show ?case by simp
next
  case (Cons w ws)
  have k: "length (store w) = k" "0 < k"
    and ld: "load (pre @ store w @ concat (map store ws) @ post) (length pre) = Some w"
    using assms(1) by (auto simp: loads_def)
  have "int (length pre) + int k \<le> int (length pre + k * length (w # ws))" by simp
  from order_trans [OF this Cons.prems] have "\<not> total_too_short tot (length pre) k"
    using k assms(2) by (intro total_enough) auto
  moreover have "RARR_loop (load ((pre @ store w) @ concat (map store ws) @ post)) k mk tot (length ws)
      (length (pre @ store w)) = Some (True, length (pre @ store w) + k * length ws, map mk ws)"
    using Cons.prems k by (intro Cons.IH) (simp add: algebra_simps)
  ultimately show ?case using ld k by (simp add: algebra_simps)
qed

lemma RARR_store:
  assumes "loads load store k" and "tot < 2 ^ 31" and "int (4 + k * length ws) \<le> tot"
    and "length ws < 2 ^ 28"
  shows "RARR p ((htod32ap p (of_nat (length ws)) @ concat (map store ws)) @ post)
      (load ((htod32ap p (of_nat (length ws)) @ concat (map store ws)) @ post)) k mk tot 0 v0 =
    Some (True, 4 + k * length ws, PV_a (of_nat (length ws)) (map mk ws))"
proof -
  let ?n = "of_nat (length ws) :: u32" and ?h = "htod32ap p (of_nat (length ws))"
  have un: "unat ?n = length ws" using assms(4) by (simp add: unat_of_nat)
  have "sint ?n = int (length ws)" using assms(4) by (simp add: sint_uint uint_nat un signed_take_bit_int_eq_self)
  then have nn: "\<not> sint ?n < 0" by simp
  have "int 4 \<le> int (4 + k * length ws)" by simp
  from order_trans [OF this assms(3)] have "\<not> total_too_short tot 0 4"
    using assms(2) by (intro total_enough) auto
  moreover have "dtoh32a p (?h @ concat (map store ws) @ post) 0 = Some ?n"
    using dtoh32a_field [of 0 "[]" p ?n] by simp
  ultimately show ?thesis
    using RARR_loop_store [OF assms(1,2), of ?h ws post mk] assms(3) un nn by (simp add: RARR_def)
qed

lemma stringcopy_image:
  assumes "string_survives p s" and "length junk = 513"
  shows "ptp_get_packed_stringcopy p junk (Some s) =
    Some (ptp_units_bytes p (string_units p s), of_nat (length (ptp_units_bytes p (string_units p s))))"
proof -
  let ?us = "string_units p s"
  let ?b = "ptp_units_bytes p ?us"
  have us: "length ?us \<le> 254" using assms(1) by (simp add: string_survives_def)
  obtain d where d: "wr junk 0 ?b = Some d"
    using us assms(2) by (auto simp: wr_def)
  define n8 where "n8 = (of_nat (length ?us + 1) :: byte)"
  have un: "unat n8 = length ?us + 1"
    using us unfolding n8_def by (simp only: unat_of_nat) simp
  have pk: "ptp_pack_string p s junk 0 = Some (d, n8)"
    using ptp_pack_survivor [OF assms(1), of junk 0] d by (simp add: n8_def)
  have len: "(length ?us + 1) * 2 + 1 = length ?b" by simp
  have "rd d 0 (length ?b) = Some ?b"
    using d by (rule rd_wr_same) (rule refl)
  then show ?thesis
    unfolding ptp_get_packed_stringcopy_def
    by (simp only: option.case pk bind.bind_lunit prod.case Let_def un len)
qed

lemma pv_array_roundtrip:
  fixes p :: "'p ptp_params_scheme"
  assumes "loads load store k" and "length ws < 2 ^ 28" and "k \<le> 8"
    and "\<And>vs' ws'. mapM member vs' = Some ws' \<longleftrightarrow> vs' = map mk ws'"
  defines "bs \<equiv> htod32ap p (of_nat (length ws)) @ concat (map store ws)"
  shows "pack_array p member store k (PV_a (of_nat (length ws)) (map mk ws)) =
      Some (bs, of_nat (length bs)) \<and> length bs < 2 ^ 32 \<and>
    (\<forall>rest tot v0. int (length bs) \<le> tot \<longrightarrow> tot < 2 ^ 31 \<longrightarrow>
       RARR p (bs @ rest) (load (bs @ rest)) k mk tot 0 v0 =
       Some (True, length bs, PV_a (of_nat (length ws)) (map mk ws)))"
proof -
  have un: "unat (of_nat (length ws) :: u32) = length ws" using assms(2) by (simp add: unat_of_nat)
  have lb: "length bs = 4 + k * length ws"
    using assms(1) unfolding bs_def loads_def by (simp add: length_concat_const)
  have "k * length ws \<le> 8 * 2 ^ 28" using assms(2,3) by (intro mult_le_mono) auto
  then have lt: "4 + k * length ws < 2 ^ 32" by simp
  have "mapM member (map mk ws) = Some ws" using assms(4) by blast
  then have "pack_array p member store k (PV_a (of_nat (length ws)) (map mk ws)) =
      Some (bs, of_nat (length bs))"
    using lt un unfolding lb by (simp add: pack_array_def bs_def mult.commute)
  then show ?thesis
    using lt lb RARR_store [OF assms(1) _ _ assms(2)] unfolding bs_def by metis
qed

text \<open>The value and its bytes: what the list reader relies on.\<close>

lemma pv_roundtrip:
  assumes "byteorder p = PTP_DL_LE" and "length junk = 513" and "pv_ok p dt v"
  shows "\<exists>bs. ptp_pack_DPV p junk v dt = Some (bs, of_nat (length bs)) \<and> length bs < 2 ^ 32 \<and>
    (\<forall>rest tot v0. int (length bs) \<le> tot \<longrightarrow> tot < 2 ^ 31 \<longrightarrow>
       ptp_unpack_DPV p (bs @ rest) 0 tot v0 dt = Some (True, length bs, v))"
proof (cases v)
  case PV_unset
  with assms show ?thesis by (simp add: pv_ok_def)
next
  case (PV_8 b)
  then have dt: "dt = PTP_DTC_INT8 \<or> dt = PTP_DTC_UINT8" using assms(3) by (simp add: pv_ok_def)
  then show ?thesis
    using PV_8 CTVAL_store [of dtoh8a "\<lambda>b. [b]" 1 _ b _ PV_8]
    by (intro exI [of _ "[b]"]) (auto simp: ptp_pack_DPV_def ptp_unpack_DPV_def pack_scalar_def)
next
  case (PV_16 w)
  then have dt: "dt = PTP_DTC_INT16 \<or> dt = PTP_DTC_UINT16" using assms(3) by (simp add: pv_ok_def)
  then show ?thesis
    using PV_16 CTVAL_store [of "dtoh16a p" "htod16ap p" 2 _ w _ PV_16]
    by (intro exI [of _ "htod16ap p w"])
      (auto simp: ptp_pack_DPV_def ptp_unpack_DPV_def pack_scalar_def dtc_defs)
next
  case (PV_32 w)
  then have dt: "dt = PTP_DTC_INT32 \<or> dt = PTP_DTC_UINT32" using assms(3) by (simp add: pv_ok_def)
  then show ?thesis
    using PV_32 CTVAL_store [of "dtoh32a p" "htod32ap p" 4 _ w _ PV_32]
    by (intro exI [of _ "htod32ap p w"])
      (auto simp: ptp_pack_DPV_def ptp_unpack_DPV_def pack_scalar_def dtc_defs)
next
  case (PV_64 w)
  then have dt: "dt = PTP_DTC_INT64 \<or> dt = PTP_DTC_UINT64" using assms(3) by (simp add: pv_ok_def)
  then show ?thesis
    using PV_64 CTVAL_store [of "dtoh64a p" "htod64ap p" 8 _ w _ PV_64]
    by (intro exI [of _ "htod64ap p w"])
      (auto simp: ptp_pack_DPV_def ptp_unpack_DPV_def pack_scalar_def dtc_defs)
next
  case (PV_str so)
  then obtain s where s: "so = Some s" "string_survives p s" and dt: "dt = PTP_DTC_STR"
    using assms(3) by (auto simp: pv_ok_def split: option.splits)
  let ?us = "string_units p s"
  let ?b = "ptp_units_bytes p ?us"
  have us: "length ?us \<le> 254" using s(2) by (simp add: string_survives_def)
  have "ptp_pack_DPV p junk v dt = Some (?b, of_nat (length ?b))"
    using stringcopy_image [OF s(2) assms(2)] PV_str s(1) dt by (simp add: ptp_pack_DPV_def dtc_defs)
  moreover have "ptp_unpack_DPV p (?b @ rest) 0 tot v0 dt = Some (True, length ?b, v)" for rest tot v0
  proof -
    have "rd (?b @ rest) (off16 0) (3 + 2 * length ?us) = Some (ptp_units_wire p (?us @ [0]))"
      by (simp add: rd_def units_bytes_wire [OF assms(1)])
    moreover have "unat (of_nat (length ?us + 1) :: byte) = length ?us + 1"
      using us by (simp only: unat_of_nat) simp
    ultimately show ?thesis
      using ptp_unpack_survivor [OF s(2), of "?b @ rest" 0] s(1) PV_str dt
      by (simp add: ptp_unpack_DPV_def dtc_defs numeral_3_eq_3 del: of_nat_Suc of_nat_add)
  qed
  ultimately show ?thesis using us by (intro exI [of _ ?b]) simp
next
  case (PV_a n vs)
  then have n: "length vs < 2 ^ 28" "n = of_nat (length vs)" using assms(3) by (auto simp: pv_ok_def)
  consider (a8) ws where "dt = PTP_DTC_AINT8 \<or> dt = PTP_DTC_AUINT8" "vs = map PV_8 ws"
    | (a16) ws where "dt = PTP_DTC_AINT16 \<or> dt = PTP_DTC_AUINT16" "vs = map PV_16 ws"
    | (a32) ws where "dt = PTP_DTC_AINT32 \<or> dt = PTP_DTC_AUINT32" "vs = map PV_32 ws"
    | (a64) ws where "dt = PTP_DTC_AINT64 \<or> dt = PTP_DTC_AUINT64" "vs = map PV_64 ws"
    using assms(3) PV_a by (auto simp: pv_ok_def mapM_pv split: if_splits)
  then show ?thesis
  proof cases
    case a8
    then show ?thesis
      using pv_array_roundtrip [of dtoh8a "\<lambda>b. [b]" 1 ws pv_8 PV_8 p] n PV_a
      by (auto simp: mapM_pv ptp_pack_DPV_def ptp_unpack_DPV_def dtc_defs)
  next
    case a16
    then show ?thesis
      using pv_array_roundtrip [of "dtoh16a p" "htod16ap p" 2 ws pv_16 PV_16 p] n PV_a
      by (auto simp: mapM_pv ptp_pack_DPV_def ptp_unpack_DPV_def dtc_defs)
  next
    case a32
    then show ?thesis
      using pv_array_roundtrip [of "dtoh32a p" "htod32ap p" 4 ws pv_32 PV_32 p] n PV_a
      by (auto simp: mapM_pv ptp_pack_DPV_def ptp_unpack_DPV_def dtc_defs)
  next
    case a64
    then show ?thesis
      using pv_array_roundtrip [of "dtoh64a p" "htod64ap p" 8 ws pv_64 PV_64 p] n PV_a
      by (auto simp: mapM_pv ptp_pack_DPV_def ptp_unpack_DPV_def dtc_defs)
  qed
qed

section \<open>Properties\<close>

text \<open>
  What the code relies on in the C library: \<open>qsort\<close> permutes its array, and when the
  comparison is a total preorder the result is in order.
\<close>

definition cmp_preorder :: "'a set \<Rightarrow> ('a \<Rightarrow> 'a \<Rightarrow> int) \<Rightarrow> bool" where
  "cmp_preorder S cmp \<longleftrightarrow> (\<forall>x \<in> S. \<forall>y \<in> S. cmp x y \<le> 0 \<or> cmp y x \<le> 0) \<and>
     (\<forall>x \<in> S. \<forall>y \<in> S. \<forall>z \<in> S. cmp x y \<le> 0 \<longrightarrow> cmp y z \<le> 0 \<longrightarrow> cmp x z \<le> 0)"

definition qsort_ok :: "(('a \<Rightarrow> 'a \<Rightarrow> int) \<Rightarrow> 'a list \<Rightarrow> 'a list) \<Rightarrow> bool" where
  "qsort_ok qsort \<longleftrightarrow> (\<forall>cmp xs. mset (qsort cmp xs) = mset xs \<and>
     (cmp_preorder (set xs) cmp \<longrightarrow> sorted_wrt (\<lambda>x y. cmp x y \<le> 0) (qsort cmp xs)))"

lemma cmp_preorderD:
  assumes "cmp_preorder S cmp" and "x \<in> S" and "y \<in> S"
  shows "\<not> cmp x y \<le> 0 \<Longrightarrow> cmp y x \<le> 0"
    and "z \<in> S \<Longrightarrow> cmp x y \<le> 0 \<Longrightarrow> cmp y z \<le> 0 \<Longrightarrow> cmp x z \<le> 0"
  using assms unfolding cmp_preorder_def by blast+

lemma cmp_preorder_subset: "cmp_preorder S cmp \<Longrightarrow> T \<subseteq> S \<Longrightarrow> cmp_preorder T cmp"
  unfolding cmp_preorder_def by (meson subsetD)

text \<open>An insertion sort that meets it, for the witnesses.\<close>

fun insert_by :: "('a \<Rightarrow> 'a \<Rightarrow> int) \<Rightarrow> 'a \<Rightarrow> 'a list \<Rightarrow> 'a list" where
  "insert_by cmp x [] = [x]"
| "insert_by cmp x (y # ys) = (if cmp x y \<le> 0 then x # y # ys else y # insert_by cmp x ys)"

definition isort :: "('a \<Rightarrow> 'a \<Rightarrow> int) \<Rightarrow> 'a list \<Rightarrow> 'a list" where
  "isort cmp xs = foldr (insert_by cmp) xs []"

lemma mset_insert_by [simp]: "mset (insert_by cmp x ys) = add_mset x (mset ys)"
  by (induction ys) auto

lemma mset_isort: "mset (isort cmp xs) = mset xs"
  by (induction xs) (simp_all add: isort_def)

lemma set_insert_by: "set (insert_by cmp x ys) = insert x (set ys)"
  by (metis mset_insert_by set_mset_add_mset_insert set_mset_mset)

lemma sorted_insert_by:
  assumes "sorted_wrt (\<lambda>x y. cmp x y \<le> (0 :: int)) ys"
    and "cmp_preorder (insert x (set ys)) cmp"
  shows "sorted_wrt (\<lambda>x y. cmp x y \<le> 0) (insert_by cmp x ys)"
  using assms
proof (induction ys)
  case Nil
  then show ?case by simp
next
  case (Cons y ys)
  show ?case
  proof (cases "cmp x y \<le> 0")
    case True
    have "\<forall>z \<in> set ys. cmp y z \<le> 0" using Cons.prems(1) by simp
    then have "\<forall>z \<in> set ys. cmp x z \<le> 0"
      using cmp_preorderD(2) [OF Cons.prems(2), of x y] True by auto
    then show ?thesis using True Cons.prems(1) by simp
  next
    case False
    then have "cmp y x \<le> 0" using cmp_preorderD(1) [OF Cons.prems(2), of x y] by simp
    moreover have "sorted_wrt (\<lambda>x y. cmp x y \<le> 0) (insert_by cmp x ys)"
      using Cons.prems(1) by (intro Cons.IH cmp_preorder_subset [OF Cons.prems(2)]) auto
    ultimately show ?thesis using False Cons.prems(1) by (simp add: set_insert_by)
  qed
qed

lemma qsort_ok_isort: "qsort_ok isort"
  unfolding qsort_ok_def
proof (intro allI conjI impI)
  fix cmp :: "'a \<Rightarrow> 'a \<Rightarrow> int" and xs
  show "mset (isort cmp xs) = mset xs" by (rule mset_isort)
  assume "cmp_preorder (set xs) cmp"
  then show "sorted_wrt (\<lambda>x y. cmp x y \<le> 0) (isort cmp xs)"
  proof (induction xs)
    case Nil
    then show ?case by (simp add: isort_def)
  next
    case (Cons x xs)
    have IH: "sorted_wrt (\<lambda>x y. cmp x y \<le> 0) (isort cmp xs)"
      by (intro Cons.IH cmp_preorder_subset [OF Cons.prems]) auto
    have "set (isort cmp xs) = set xs" by (metis mset_isort set_mset_mset)
    then have "sorted_wrt (\<lambda>x y. cmp x y \<le> 0) (insert_by cmp x (isort cmp xs))"
      using Cons.prems by (intro sorted_insert_by [OF IH]) simp
    then show ?case by (simp add: isort_def)
  qed
qed

text \<open>The comparison function is an order on handles below \<open>2^31\<close>, and only there.\<close>

lemma compare_func_small:
  assumes "mp_ObjectHandle x < 2 ^ 31" and "mp_ObjectHandle y < 2 ^ 31"
  shows "compare_func x y = uint (mp_ObjectHandle x) - uint (mp_ObjectHandle y)"
proof -
  let ?a = "uint (mp_ObjectHandle x)" and ?b = "uint (mp_ObjectHandle y)"
  have "0 \<le> ?a" "0 \<le> ?b" "?a < 2 ^ 31" "?b < 2 ^ 31"
    using assms by (simp_all add: word_less_def)
  then have r: "- (2 ^ 31) \<le> ?a - ?b" "?a - ?b < 2 ^ 31" by linarith+
  have "mp_ObjectHandle x - mp_ObjectHandle y = word_of_int (?a - ?b)" by simp
  then have "compare_func x y = signed_take_bit 31 (?a - ?b)"
    unfolding compare_func_def by (simp only: sint_sbintrunc') simp
  also have "\<dots> = ?a - ?b" using r by (rule signed_take_bit_int_eq_self)
  finally show ?thesis .
qed

lemma cmp_preorder_handles:
  assumes "\<forall>x \<in> S. mp_ObjectHandle x < 2 ^ 31"
  shows "cmp_preorder S compare_func"
  unfolding cmp_preorder_def using assms by (auto simp: compare_func_small)

text \<open>The list reader undoes the list writer, item by item.\<close>

definition opl_ok :: "'p ptp_params_scheme \<Rightarrow> mtp_properties \<Rightarrow> bool" where
  "opl_ok p prop \<longleftrightarrow> pv_ok p (mp_datatype prop) (mp_propval prop)"

lemma opl_item_roundtrip:
  assumes "byteorder p = PTP_DL_LE" and "length junk = 513" and "opl_ok p prop"
  obtains item where "opl_item p junk prop = Some item" and "8 \<le> length item"
    and "\<And>rest n len. unat len = length item + length rest \<Longrightarrow> unat len < 2 ^ 31 \<Longrightarrow>
      opl_loop p (item @ rest) len (Suc n) =
      map_option ((#) prop) (opl_loop p rest (len - of_nat (length item)) n)"
proof -
  let ?h = "htod32ap p (mp_ObjectHandle prop)" and ?c = "htod16ap p (mp_property prop)"
    and ?t = "htod16ap p (mp_datatype prop)"
  obtain bs where pack: "ptp_pack_DPV p junk (mp_propval prop) (mp_datatype prop) =
      Some (bs, of_nat (length bs))" and lb: "length bs < 2 ^ 32"
    and unpack: "\<And>rest tot v0. int (length bs) \<le> tot \<Longrightarrow> tot < 2 ^ 31 \<Longrightarrow>
      ptp_unpack_DPV p (bs @ rest) 0 tot v0 (mp_datatype prop) =
      Some (True, length bs, mp_propval prop)"
    using pv_roundtrip [OF assms(1,2)] assms(3) unfolding opl_ok_def by blast
  let ?item = "?h @ ?c @ ?t @ bs"
  have "unat (of_nat (length bs) :: u32) = length bs" using lb by (simp add: unat_of_nat)
  then have item: "opl_item p junk prop = Some ?item"
    by (simp add: opl_item_def pack rd_def)
  have step: "opl_loop p (?item @ rest) len (Suc n) =
      map_option ((#) prop) (opl_loop p rest (len - of_nat (length ?item)) n)"
    if len: "unat len = length ?item + length rest" "unat len < 2 ^ 31" for rest n and len :: u32
  proof -
    have le: "8 \<le> len" using len by (simp add: word_le_nat_alt)
    have "len \<noteq> 0" using len by auto
    have un: "unat (len - 8) = length bs + length rest"
      using len unat_sub [OF le] by simp
    then have "sint (len - 8) = int (length bs + length rest)"
      using len by (simp add: sint_uint uint_nat signed_take_bit_int_eq_self)
    moreover from this have "ptp_unpack_DPV p (bs @ rest) 0 (sint (len - 8)) PV_unset (mp_datatype prop) =
        Some (True, length bs, mp_propval prop)"
      using len by (intro unpack) simp_all
    moreover have "dtoh32a p (?item @ rest) 0 = Some (mp_ObjectHandle prop)"
      "dtoh16a p (?item @ rest) 4 = Some (mp_property prop)"
      "dtoh16a p (?item @ rest) 6 = Some (mp_datatype prop)"
      using dtoh32a_field [of 0 "[]" p "mp_ObjectHandle prop" "?c @ ?t @ bs @ rest"]
        dtoh16a_field [of 4 ?h p "mp_property prop" "?t @ bs @ rest"]
        dtoh16a_field [of 6 "?h @ ?c" p "mp_datatype prop" "bs @ rest"] by simp_all
    moreover have "drop 8 (?item @ rest) = bs @ rest" "drop (8 + length bs) (?item @ rest) = rest"
      by simp_all
    moreover have "len - 8 - of_nat (length bs) = len - of_nat (length ?item)"
      by (simp add: algebra_simps)
    ultimately show ?thesis
      using \<open>len \<noteq> 0\<close>
      by (simp only: opl_loop.simps if_False bind.bind_lunit prod.case)
        (cases "opl_loop p rest (len - of_nat (length ?item)) n"; simp)
  qed
  have "8 \<le> length ?item" by simp
  from that [OF item this step] show thesis .
qed

lemma opl_loop_items:
  assumes "byteorder p = PTP_DL_LE" and "length junk = 513" and "\<forall>prop \<in> set props. opl_ok p prop"
  shows "\<exists>items. mapM (opl_item p junk) props = Some items \<and>
    (\<forall>rest. length (concat items) + length rest < 2 ^ 31 \<longrightarrow>
       opl_loop p (concat items @ rest) (of_nat (length (concat items) + length rest)) (length props) =
       Some props)"
  using assms(3)
proof (induction props)
  case Nil
  then show ?case by simp
next
  case (Cons pr props)
  then obtain items where items: "mapM (opl_item p junk) props = Some items"
    and IH: "\<And>rest. length (concat items) + length rest < 2 ^ 31 \<Longrightarrow>
       opl_loop p (concat items @ rest) (of_nat (length (concat items) + length rest)) (length props) =
       Some props" by auto
  have "opl_ok p pr" using Cons.prems by simp
  from opl_item_roundtrip [OF assms(1,2) this] obtain item
    where item: "opl_item p junk pr = Some item"
      and step: "\<And>rest n len. unat len = length item + length rest \<Longrightarrow> unat len < 2 ^ 31 \<Longrightarrow>
      opl_loop p (item @ rest) len (Suc n) =
      map_option ((#) pr) (opl_loop p rest (len - of_nat (length item)) n)" by metis
  have "opl_loop p (concat (item # items) @ rest)
        (of_nat (length (concat (item # items)) + length rest)) (length (pr # props)) =
       Some (pr # props)" if "length (concat (item # items)) + length rest < 2 ^ 31" for rest
  proof -
    let ?len = "of_nat (length (concat (item # items)) + length rest) :: u32"
    have "unat ?len = length (concat (item # items)) + length rest"
      using that by (simp only: unat_of_nat) simp
    moreover have "?len - of_nat (length item) = of_nat (length (concat items) + length rest)" by simp
    ultimately show ?thesis
      using step [of ?len "concat items @ rest" "length props"] IH [of rest] that
      by (simp del: of_nat_add)
  qed
  moreover have "mapM (opl_item p junk) (pr # props) = Some (item # items)"
    using item items by simp
  ultimately show ?case by blast
qed

text \<open>
  Claim C33: an object property list survives the transfer. For a little-endian device, at most 127
  well-formed properties (every data type the code packs, with arrays below \<open>2^28\<close> elements and
  strings that survive the conversions of the session) and a dataset below 2 GiB, \<open>ptp_pack_OPL\<close>
  succeeds and \<open>ptp_unpack_OPL\<close> reads back exactly those properties, as a permutation, and ordered by
  their handles when the handles are below \<open>2^31\<close>.
\<close>

theorem ptp_OPL_roundtrip:
  assumes "byteorder p = PTP_DL_LE" and "length junk = 513" and "\<forall>prop \<in> set props. opl_ok p prop"
    and "length props \<le> 127" and "qsort_ok qsort"
    and "\<And>items. mapM (opl_item p junk) props = Some items \<Longrightarrow> 4 + length (concat items) < 2 ^ 31"
  shows "\<exists>d ps. ptp_pack_OPL p junk props (int (length props)) = Some (d, of_nat (length d)) \<and>
    ptp_unpack_OPL qsort p d (of_nat (length d)) = Some ps \<and> mset ps = mset props \<and>
    ((\<forall>prop \<in> set props. mp_ObjectHandle prop < 2 ^ 31) \<longrightarrow>
       sorted_wrt (\<lambda>x y. mp_ObjectHandle x \<le> mp_ObjectHandle y) ps)"
proof -
  obtain items where items: "mapM (opl_item p junk) props = Some items"
    and loop: "\<And>rest. length (concat items) + length rest < 2 ^ 31 \<Longrightarrow>
       opl_loop p (concat items @ rest) (of_nat (length (concat items) + length rest)) (length props) =
       Some props"
    using opl_loop_items [OF assms(1-3)] by blast
  let ?n = "of_nat (length props) :: u32" and ?d = "htod32ap p (of_nat (length props)) @ concat items"
  have un: "unat ?n = length props" using assms(4) by (simp only: unat_of_nat) simp
  have lt: "4 + length (concat items) < 2 ^ 31" by (rule assms(6) [OF items])
  have "opl_items (int (length props)) = length props"
    using assms(4) by (simp add: opl_items_def MAX_MTP_PROPS_def)
  then have pack: "ptp_pack_OPL p junk props (int (length props)) = Some (?d, of_nat (length ?d))"
    using lt by (simp add: ptp_pack_OPL_def items)
  have hd: "dtoh32a p ?d 0 = Some ?n" using dtoh32a_field [of 0 "[]" p ?n "concat items"] by simp
  have z: "?n = 0 \<longleftrightarrow> props = []" using un by (metis length_0_conv unat_eq_0 unat_0)
  have q: "mset (qsort compare_func props) = mset props"
    "cmp_preorder (set props) compare_func \<Longrightarrow>
       sorted_wrt (\<lambda>x y. compare_func x y \<le> 0) (qsort compare_func props)"
    using assms(5) by (auto simp: qsort_ok_def)
  have unp: "ptp_unpack_OPL qsort p ?d (of_nat (length ?d)) = Some (qsort compare_func props)"
    using loop [of "[]"] lt hd un z q(1) by (auto simp: ptp_unpack_OPL_def)
  have "sorted_wrt (\<lambda>x y. mp_ObjectHandle x \<le> mp_ObjectHandle y) (qsort compare_func props)"
    if small: "\<forall>prop \<in> set props. mp_ObjectHandle prop < 2 ^ 31"
  proof -
    have "set (qsort compare_func props) = set props" using q(1) by (metis set_mset_mset)
    then show ?thesis
      using q(2) [OF cmp_preorder_handles [OF small]] small
      by (auto simp: compare_func_small word_le_def elim!: sorted_wrt_mono_rel [rotated])
  qed
  then show ?thesis using pack unp q(1) by blast
qed

definition sample_props :: "mtp_properties list" where
  "sample_props =
     [\<lparr>mp_property = 0xDC44, mp_datatype = PTP_DTC_STR, mp_ObjectHandle = 9,
        mp_propval = PV_str (Some [0x43, 0xC3, 0xA9, 0x2E])\<rparr>,
      \<lparr>mp_property = 0xDC04, mp_datatype = PTP_DTC_UINT64, mp_ObjectHandle = 3, mp_propval = PV_64 77\<rparr>,
      \<lparr>mp_property = 0xDC01, mp_datatype = PTP_DTC_AUINT16, mp_ObjectHandle = 5,
        mp_propval = PV_a 2 [PV_16 1, PV_16 2]\<rparr>]"

theorem ptp_OPL_roundtrip_witness:
  "\<exists>d ps. ptp_pack_OPL utf8_params (replicate 513 0) sample_props (int (length sample_props))
       = Some (d, of_nat (length d)) \<and>
    ptp_unpack_OPL isort utf8_params d (of_nat (length d)) = Some ps \<and>
    mset ps = mset sample_props \<and>
    ((\<forall>pr \<in> set sample_props. mp_ObjectHandle pr < 2 ^ 31) \<longrightarrow>
       sorted_wrt (\<lambda>x y. mp_ObjectHandle x \<le> mp_ObjectHandle y) ps)"
proof (rule ptp_OPL_roundtrip)
  let ?j = "replicate 513 0 :: byte list"
  have str: "ptp_get_packed_stringcopy utf8_params ?j (Some [0x43, 0xC3, 0xA9, 0x2E]) =
      Some (ptp_units_bytes utf8_params [0x43, 0xE9, 0x2E], 9)"
    using stringcopy_image [OF utf8_sample(2), of ?j] by (simp add: utf8_sample(1))
  fix items
  assume "mapM (opl_item utf8_params ?j) sample_props = Some items"
  then show "4 + length (concat items) < 2 ^ 31"
    by (auto simp: sample_props_def opl_item_def ptp_pack_DPV_def pack_scalar_def pack_array_def
        dtc_defs str Option.bind_eq_Some_conv rd_eq_Some_iff)
qed (simp_all add: sample_props_def opl_ok_def pv_ok_def dtc_defs utf8_sample qsort_ok_isort)

text \<open>
  Reading a property value never leaves the data. For every data type but
  strings and the 128-bit integers, with the data announced at its real size and the
  offset inside it, \<open>ptp_unpack_DPV\<close> reads only inside the data and leaves the
  offset inside it, whatever the data holds (array counts included).
\<close>

theorem ptp_unpack_DPV_in_bounds:
  assumes "datatyp \<notin> {PTP_DTC_STR, PTP_DTC_INT128, PTP_DTC_UINT128}"
    and "offset \<le> length data" and "length data < 2 ^ 31"
  shows "\<exists>ret offset' v. ptp_unpack_DPV p data offset (int (length data)) value datatyp =
    Some (ret, offset', v) \<and> offset \<le> offset' \<and> offset' \<le> length data"
proof -
  have sz: "length data < 2 ^ 63" using assms(3) by simp
  have scalars: "stays_inside data (\<lambda>offset. CTVAL (dtoh8a data) 1 PV_8 (int (length data)) offset value)"
    "stays_inside data (\<lambda>offset. CTVAL (dtoh16a p data) 2 PV_16 (int (length data)) offset value)"
    "stays_inside data (\<lambda>offset. CTVAL (dtoh32a p data) 4 PV_32 (int (length data)) offset value)"
    "stays_inside data (\<lambda>offset. CTVAL (dtoh64a p data) 8 PV_64 (int (length data)) offset value)"
    by (rule CTVAL_stays_inside [OF _ sz], simp)+
  have arrays: "stays_inside data (\<lambda>offset. RARR p data (dtoh8a data) 1 PV_8 (int (length data)) offset value)"
    "stays_inside data (\<lambda>offset. RARR p data (dtoh16a p data) 2 PV_16 (int (length data)) offset value)"
    "stays_inside data (\<lambda>offset. RARR p data (dtoh32a p data) 4 PV_32 (int (length data)) offset value)"
    "stays_inside data (\<lambda>offset. RARR p data (dtoh64a p data) 8 PV_64 (int (length data)) offset value)"
    by (rule RARR_stays_inside [OF _ sz], simp)+
  show ?thesis
    using assms(1,2) scalars arrays unfolding stays_inside_def ptp_unpack_DPV_def
    by (simp split: if_splits) (intro impI exI [of _ False], simp)
qed

theorem ptp_unpack_DPV_in_bounds_witness:
  "\<exists>ret offset' v. ptp_unpack_DPV (plain_params PTP_DL_LE) [0xFF, 0xFF, 0, 0, 1, 2, 3] 0
     (int (length [0xFF, 0xFF, 0, 0, 1, 2, 3 :: byte])) PV_unset PTP_DTC_AUINT16 = Some (ret, offset', v) \<and>
     0 \<le> offset' \<and> offset' \<le> length [0xFF, 0xFF, 0, 0, 1, 2, 3 :: byte]"
  by (rule ptp_unpack_DPV_in_bounds) (simp_all add: dtc_defs)

text \<open>
  The comparison function of the sort is not an order on all handles. It
  returns an unsigned difference as an \<open>int\<close>, so three handles far enough apart
  compare in a circle, and the smallest and the largest handle compare the wrong way.
\<close>

lemma compare_func_not_an_order:
  "\<exists>x y z. compare_func x y < 0 \<and> compare_func y z < 0 \<and> compare_func z x < 0 \<and>
     mp_ObjectHandle x < mp_ObjectHandle z"
proof -
  let ?p = "\<lambda>h. \<lparr>mp_property = 0, mp_datatype = 0, mp_ObjectHandle = h, mp_propval = PV_unset\<rparr>"
  have "compare_func (?p 0) (?p 0x60000000) < 0" "compare_func (?p 0x60000000) (?p 0xC0000000) < 0"
    "compare_func (?p 0xC0000000) (?p 0) < 0"
    by (simp_all add: compare_func_def)
  then show ?thesis by (intro exI [of _ "?p 0"] exI [of _ "?p 0x60000000"] exI [of _ "?p 0xC0000000"]) simp
qed

text \<open>
  Once the offset is past the announced size the guard of \<open>CTVAL\<close> is void.
  The negative difference is compared as a \<open>size_t\<close>, so the value is read from behind
  the data: a fault. A 128-bit value gets there without any check, and is what brings a
  description with a short dataset into this state.
\<close>

lemma ptp_unpack_DPV_guard_void:
  assumes "length data \<le> offset" and "length data < 2147483648" and "offset \<le> 2147483648"
    and "length data < offset + 16"
  shows "ptp_unpack_DPV p data offset (int (length data)) value PTP_DTC_UINT128 =
      Some (True, offset + 16, value) \<and>
    ptp_unpack_DPV p data (offset + 16) (int (length data)) value PTP_DTC_UINT32 = None"
proof -
  let ?d = "int (length data) - int (offset + 16)"
  have d: "- 18446744073709551616 + 4 \<le> ?d" "?d < 0" using assms by simp_all
  have "?d mod 2 ^ 64 = (?d + 2 ^ 64) mod 2 ^ 64" by (rule mod_add_self2 [symmetric])
  also have "\<dots> = ?d + 2 ^ 64" using d by (intro mod_pos_pos_trivial) simp_all
  finally have "\<not> total_too_short (int (length data)) (offset + 16) 4"
    using d by (simp add: total_too_short_def)
  moreover have "dtoh32a p data (offset + 16) = None" using assms by (simp add: dtoh32a_eq_None_iff)
  ultimately show ?thesis by (simp add: ptp_unpack_DPV_def dtc_defs CTVAL_def)
qed

lemma ptp_unpack_DPV_guard_void_witness:
  "ptp_unpack_DPV (plain_params PTP_DL_LE) [1, 2, 3, 4, 5] 5 5 PV_unset PTP_DTC_UINT128 = Some (True, 21, PV_unset) \<and>
   ptp_unpack_DPV (plain_params PTP_DL_LE) [1, 2, 3, 4, 5] 21 5 PV_unset PTP_DTC_UINT32 = None"
  using ptp_unpack_DPV_guard_void [of "[1, 2, 3, 4, 5]" 5 "plain_params PTP_DL_LE" PV_unset] by simp

end
