(* ===== verification/Ptp_Transaction.thy ===== *)
theory Ptp_Transaction
  imports Ptp_Datasets
begin

text \<open>
  The PTP transaction of ptp.c: the request, the data phase and the loop that waits for
  the response, over the transport functions of \<open>PTPParams\<close> (\<open>sendreq_func\<close> and so on,
  which usb.c or wireless.c provide). \<open>io_funs\<close> holds these function pointers and
  \<open>ptp_io\<close> the part of the parameters they own; \<open>io_dev\<close> is the connection itself. A
  transport function that does not come back is \<open>None\<close>, and so is a transaction that
  waits for ever. The memory data handler, the means by which the data of a data phase is
  read and stored, is modelled with its chunks.
\<close>

section \<open>Result codes\<close>

definition PTP_RC_OK :: u16 where "PTP_RC_OK = 0x2001"
definition PTP_RC_GeneralError :: u16 where "PTP_RC_GeneralError = 0x2002"
definition PTP_RC_OperationNotSupported :: u16 where "PTP_RC_OperationNotSupported = 0x2005"
definition PTP_RC_InvalidParameter :: u16 where "PTP_RC_InvalidParameter = 0x201D"
definition PTP_ERROR_RESP_EXPECTED :: u16 where "PTP_ERROR_RESP_EXPECTED = 0x02FD"
definition PTP_ERROR_BADPARAM :: u16 where "PTP_ERROR_BADPARAM = 0x02FC"
definition PTP_ERROR_CANCEL :: u16 where "PTP_ERROR_CANCEL = 0x02FB"

definition PTP_DP_NODATA :: nat where "PTP_DP_NODATA = 0"
definition PTP_DP_SENDDATA :: nat where "PTP_DP_SENDDATA = 1"
definition PTP_DP_GETDATA :: nat where "PTP_DP_GETDATA = 2"

definition PTP_OC_OpenSession :: u16 where "PTP_OC_OpenSession = 0x1002"

lemmas rc_defs = PTP_RC_OK_def PTP_RC_GeneralError_def PTP_RC_OperationNotSupported_def
  PTP_RC_InvalidParameter_def PTP_ERROR_RESP_EXPECTED_def PTP_ERROR_BADPARAM_def PTP_ERROR_CANCEL_def
lemmas dp_defs = PTP_DP_NODATA_def PTP_DP_SENDDATA_def PTP_DP_GETDATA_def

lemma rc_distinct [simp]:
  "PTP_ERROR_BADPARAM \<noteq> PTP_RC_OK" "PTP_ERROR_RESP_EXPECTED \<noteq> PTP_RC_OK" "PTP_ERROR_CANCEL \<noteq> PTP_RC_OK"
  "PTP_RC_GeneralError \<noteq> PTP_RC_OK" "PTP_RC_OperationNotSupported \<noteq> PTP_RC_OK"
  "PTP_RC_InvalidParameter \<noteq> PTP_RC_OK" "PTP_RC_OK \<noteq> PTP_ERROR_RESP_EXPECTED" "PTP_RC_OK \<noteq> PTP_ERROR_CANCEL"
  by (simp_all add: rc_defs)

section \<open>The memory data handler\<close>

text \<open>
  The data pointer is NULL exactly as long as the size is 0, so the list alone says both.
\<close>

record mem_handler =
  h_data :: "byte list"
  h_curoff :: nat

definition memory_getfunc :: "mem_handler \<Rightarrow> nat \<Rightarrow> u16 \<times> byte list \<times> mem_handler" where
  "memory_getfunc h wantlen =
     (let tocopy = (if length (h_data h) < h_curoff h + wantlen
                    then length (h_data h) - h_curoff h else wantlen)
      in (PTP_RC_OK, take tocopy (drop (h_curoff h) (h_data h)),
          h\<lparr>h_curoff := h_curoff h + tocopy\<rparr>))"

definition memory_putfunc :: "mem_handler \<Rightarrow> byte list \<Rightarrow> u16 \<times> mem_handler" where
  "memory_putfunc h bs =
     (PTP_RC_OK,
      h\<lparr>h_data := take (h_curoff h) (h_data h) @ bs @ drop (h_curoff h + length bs) (h_data h),
         h_curoff := h_curoff h + length bs\<rparr>)"

definition ptp_init_recv_memory_handler :: mem_handler where
  "ptp_init_recv_memory_handler = \<lparr>h_data = [], h_curoff = 0\<rparr>"

definition ptp_init_send_memory_handler :: "byte list \<Rightarrow> mem_handler" where
  "ptp_init_send_memory_handler dat = \<lparr>h_data = dat, h_curoff = 0\<rparr>"

definition ptp_exit_recv_memory_handler :: "mem_handler \<Rightarrow> byte list" where
  "ptp_exit_recv_memory_handler h = h_data h"

section \<open>The connection\<close>

record 's ptp_io =
  response_packet :: "byte list"
  split_header_data :: bool
  io_dev :: 's

record 's io_funs =
  sendreq_func :: "'s ptp_io \<Rightarrow> ptp_container \<Rightarrow> (u16 \<times> 's ptp_io) option"
  senddata_func :: "'s ptp_io \<Rightarrow> ptp_container \<Rightarrow> nat \<Rightarrow> mem_handler \<Rightarrow> (u16 \<times> mem_handler \<times> 's ptp_io) option"
  getdata_func :: "'s ptp_io \<Rightarrow> ptp_container \<Rightarrow> mem_handler \<Rightarrow> (u16 \<times> mem_handler \<times> 's ptp_io) option"
  getresp_func :: "u32 \<Rightarrow> 's ptp_io \<Rightarrow> ptp_container \<Rightarrow> (u16 \<times> ptp_container \<times> 's ptp_io) option"
  event_wait :: "u32 \<Rightarrow> 's ptp_io \<Rightarrow> ptp_container \<Rightarrow> (u16 \<times> ptp_container \<times> 's ptp_io) option"
  cancelreq_func :: "'s ptp_io \<Rightarrow> u32 \<Rightarrow> (u16 \<times> 's ptp_io) option"

record 's ptp_session =
  params :: ptp_params
  transaction_id :: u32
  session_id :: u32
  io :: "'s ptp_io"

section \<open>The transaction\<close>

text \<open>
  The response loop. \<open>tries\<close> is the counter before its test; a response that did not come
  and a response with an older transaction id do not use up a try, so the loop has no
  bound of its own.
\<close>

partial_function (option) resp_loop ::
  "'s io_funs \<Rightarrow> u16 \<Rightarrow> nat \<Rightarrow> ptp_container \<Rightarrow> 's ptp_session \<Rightarrow>
     (u16 \<times> ptp_container \<times> 's ptp_session) option" where
  "resp_loop F cmd tries ptp s =
     (if tries = 0 then Some (Code ptp, ptp, s)
      else do {
        (ret, ptp', io') \<leftarrow> getresp_func F (session_id s) (io s) ptp;
        (if ret = PTP_ERROR_RESP_EXPECTED then resp_loop F cmd tries ptp' (s\<lparr>io := io'\<rparr>)
         else if ret \<noteq> PTP_RC_OK then Some (ret, ptp', s\<lparr>io := io'\<rparr>)
         else if Transaction_ID ptp' < transaction_id s - 1
         then resp_loop F cmd tries ptp' (s\<lparr>io := io'\<rparr>)
         else if Transaction_ID ptp' \<noteq> transaction_id s - 1 then
           (if cmd = PTP_OC_OpenSession \<and> tries - 1 \<noteq> 0
            then resp_loop F cmd (tries - 1) ptp' (s\<lparr>io := io'\<rparr>)
            else Some (PTP_ERROR_BADPARAM, ptp', s\<lparr>io := io'\<rparr>))
         else Some (Code ptp', ptp', s\<lparr>io := io'\<rparr>)) })"

text \<open>A cancelled data phase is reported to the device before the error is returned.\<close>

definition after_data ::
  "'s io_funs \<Rightarrow> u16 \<Rightarrow> 's ptp_session \<Rightarrow> (u16 \<times> 's ptp_session) option" where
  "after_data F ret s =
     (if ret = PTP_ERROR_CANCEL then do {
        (r, io') \<leftarrow> cancelreq_func F (io s) (transaction_id s - 1);
        Some (if r = PTP_RC_OK then PTP_ERROR_CANCEL else r, s\<lparr>io := io'\<rparr>) }
      else Some (ret, s))"

definition data_phase ::
  "'s io_funs \<Rightarrow> 's ptp_session \<Rightarrow> ptp_container \<Rightarrow> nat \<Rightarrow> nat \<Rightarrow> mem_handler \<Rightarrow>
     (u16 \<times> mem_handler \<times> 's ptp_session) option" where
  "data_phase F s ptp flags sendlen h =
     (if flags mod 256 = PTP_DP_SENDDATA then do {
        (ret, h', io') \<leftarrow> senddata_func F (io s) ptp sendlen h;
        (ret', s') \<leftarrow> after_data F ret (s\<lparr>io := io'\<rparr>);
        Some (ret', h', s') }
      else if flags mod 256 = PTP_DP_GETDATA then do {
        (ret, h', io') \<leftarrow> getdata_func F (io s) ptp h;
        (ret', s') \<leftarrow> after_data F ret (s\<lparr>io := io'\<rparr>);
        Some (ret', h', s') }
      else Some (if flags mod 256 = PTP_DP_NODATA then PTP_RC_OK else PTP_ERROR_BADPARAM, h, s))"

definition ptp_transaction_new ::
  "'s io_funs \<Rightarrow> 's ptp_session \<Rightarrow> ptp_container \<Rightarrow> nat \<Rightarrow> nat \<Rightarrow> mem_handler \<Rightarrow>
     (u16 \<times> ptp_container \<times> mem_handler \<times> 's ptp_session) option" where
  "ptp_transaction_new F s0 ptp0 flags sendlen h =
     (let ptp = ptp0\<lparr>Transaction_ID := transaction_id s0, SessionID := session_id s0\<rparr>;
          s = s0\<lparr>transaction_id := transaction_id s0 + 1\<rparr>
      in do {
        (r, io1) \<leftarrow> sendreq_func F (io s) ptp;
        (if r \<noteq> PTP_RC_OK then Some (r, ptp, h, s\<lparr>io := io1\<rparr>)
         else do {
           (ret, h', s') \<leftarrow> data_phase F (s\<lparr>io := io1\<rparr>) ptp flags sendlen h;
           (if ret \<noteq> PTP_RC_OK then Some (ret, ptp, h', s')
            else do {
              (rc, ptp', s'') \<leftarrow> resp_loop F (Code ptp) 3 ptp s';
              Some (rc, ptp', h', s'') }) }) })"

text \<open>
  The memory based form: \<open>buf\<close> is the caller's buffer, of which a send phase sends
  \<open>sendlen\<close> bytes (\<open>None\<close> when it is shorter); the list in the result is what a receive
  phase received, empty for a NULL pointer.
\<close>

definition ptp_transaction ::
  "'s io_funs \<Rightarrow> 's ptp_session \<Rightarrow> ptp_container \<Rightarrow> nat \<Rightarrow> nat \<Rightarrow> byte list \<Rightarrow>
     (u16 \<times> ptp_container \<times> byte list \<times> 's ptp_session) option" where
  "ptp_transaction F s ptp flags sendlen buf = do {
     h \<leftarrow> (if flags mod 256 = PTP_DP_SENDDATA then map_option ptp_init_send_memory_handler (rd buf 0 sendlen)
          else Some ptp_init_recv_memory_handler);
     (ret, ptp', h', s') \<leftarrow> ptp_transaction_new F s ptp flags sendlen h;
     Some (ret, ptp',
           if flags mod 256 = PTP_DP_GETDATA then ptp_exit_recv_memory_handler h' else [], s') }"

text \<open>
  \<open>ptp_opensession\<close> restarts the numbering and asks for the session, \<open>ptp_generic_no_data\<close>
  sends a command with up to five parameters.
\<close>

definition ptp_opensession ::
  "'s io_funs \<Rightarrow> 's ptp_session \<Rightarrow> u32 \<Rightarrow> (u16 \<times> 's ptp_session) option" where
  "ptp_opensession F s session = do {
     (ret, _, _, s') \<leftarrow> ptp_transaction_new F
        (s\<lparr>session_id := 0, transaction_id := 0,
           io := (io s)\<lparr>response_packet := [], split_header_data := False\<rparr>\<rparr>)
        (ptp_container_zero\<lparr>Code := PTP_OC_OpenSession, Param1 := session, Nparam := 1\<rparr>)
        PTP_DP_NODATA 0 ptp_init_recv_memory_handler;
     Some (ret, s'\<lparr>session_id := session\<rparr>) }"

definition set_param :: "nat \<Rightarrow> u32 \<Rightarrow> ptp_container \<Rightarrow> ptp_container" where
  "set_param n v ptp =
     (if n = 0 then ptp\<lparr>Param1 := v\<rparr> else if n = 1 then ptp\<lparr>Param2 := v\<rparr>
      else if n = 2 then ptp\<lparr>Param3 := v\<rparr> else if n = 3 then ptp\<lparr>Param4 := v\<rparr>
      else ptp\<lparr>Param5 := v\<rparr>)"

fun set_params :: "nat \<Rightarrow> u32 list \<Rightarrow> ptp_container \<Rightarrow> ptp_container" where
  "set_params n [] ptp = ptp"
| "set_params n (v # vs) ptp = set_params (Suc n) vs (set_param n v ptp)"

definition ptp_generic_no_data ::
  "'s io_funs \<Rightarrow> 's ptp_session \<Rightarrow> u16 \<Rightarrow> u32 list \<Rightarrow> (u16 \<times> 's ptp_session) option" where
  "ptp_generic_no_data F s cmd args =
     (if 5 < length args then Some (PTP_RC_InvalidParameter, s)
      else do {
        (ret, _, _, s') \<leftarrow> ptp_transaction F s
           (set_params 0 args (ptp_container_zero\<lparr>Code := cmd, Nparam := length args\<rparr>))
           PTP_DP_NODATA 0 [];
        Some (ret, s') })"

section \<open>Data handlers\<close>

text \<open>
  What the transports rely on: the bytes a handler hands out, chunk by chunk, are what is
  left of its data, and the chunks stored in a handler follow each other.
\<close>

locale data_handler =
  fixes get :: "'h \<Rightarrow> nat \<Rightarrow> u16 \<times> byte list \<times> 'h"
    and put :: "'h \<Rightarrow> byte list \<Rightarrow> u16 \<times> 'h"
    and left :: "'h \<Rightarrow> byte list"
    and stored :: "'h \<Rightarrow> byte list"
    and at_end :: "'h \<Rightarrow> bool"
  assumes get_chunk: "fst (get h n) = PTP_RC_OK" "fst (snd (get h n)) = take n (left h)"
      "left (snd (snd (get h n))) = drop n (left h)"
    and put_chunk: "at_end h \<Longrightarrow> fst (put h bs) = PTP_RC_OK"
      "at_end h \<Longrightarrow> stored (snd (put h bs)) = stored h @ bs"
      "at_end h \<Longrightarrow> at_end (snd (put h bs))"
begin

fun pump :: "nat list \<Rightarrow> 'h \<Rightarrow> 'h \<Rightarrow> 'h \<times> 'h" where
  "pump [] src dst = (src, dst)"
| "pump (n # ns) src dst =
     pump ns (snd (snd (get src n))) (snd (put dst (fst (snd (get src n)))))"

lemma pump_moves:
  assumes "at_end dst"
  shows "left (fst (pump ns src dst)) = drop (sum_list ns) (left src) \<and>
     stored (snd (pump ns src dst)) = stored dst @ take (sum_list ns) (left src)"
  using assms
  by (induction ns arbitrary: src dst) (simp_all add: get_chunk put_chunk take_add add.commute)

end

interpretation mem: data_handler memory_getfunc memory_putfunc
    "\<lambda>h. drop (h_curoff h) (h_data h)" h_data "\<lambda>h. h_curoff h = length (h_data h)"
  by unfold_locales
    (auto simp: memory_getfunc_def memory_putfunc_def Let_def add.commute split: if_splits)

section \<open>The response belongs to the request\<close>

lemma resp_loop_result:
  assumes "resp_loop F cmd tries ptp s = Some r"
  shows "tries \<noteq> 0 \<longrightarrow> transaction_id (snd (snd r)) = transaction_id s \<and>
    session_id (snd (snd r)) = session_id s \<and> params (snd (snd r)) = params s \<and>
    (fst r = PTP_RC_OK \<longrightarrow> Transaction_ID (fst (snd r)) = transaction_id s - 1 \<and>
       Code (fst (snd r)) = PTP_RC_OK)"
proof (rule resp_loop.raw_induct [OF _ assms, where P = "\<lambda>F cmd tries ptp s r.
      tries \<noteq> 0 \<longrightarrow> transaction_id (snd (snd r)) = transaction_id s \<and>
      session_id (snd (snd r)) = session_id s \<and> params (snd (snd r)) = params s \<and>
      (fst r = PTP_RC_OK \<longrightarrow> Transaction_ID (fst (snd r)) = transaction_id s - 1 \<and>
         Code (fst (snd r)) = PTP_RC_OK)"], goal_cases)
  case (1 rl F cmd tries ptp s r)
  note IH = 1(1) and eq = 1(2)
  show ?case
  proof (cases "tries = 0")
    case False
    from eq False obtain ret p i where g: "getresp_func F (session_id s) (io s) ptp = Some (ret, p, i)"
      by (auto simp: bind_eq_Some_conv)
    show ?thesis
      using eq False IH[of F cmd tries p "s\<lparr>io := i\<rparr>" r] IH[of F cmd "tries - 1" p "s\<lparr>io := i\<rparr>" r]
      by (auto simp: g split: if_splits)
  qed simp
qed

lemma resp_loop_keeps:
  assumes "resp_loop F cmd tries ptp s = Some (rc, ptp', s')" and "tries \<noteq> 0"
  shows "transaction_id s' = transaction_id s \<and> session_id s' = session_id s \<and> params s' = params s \<and>
    (rc = PTP_RC_OK \<longrightarrow> Transaction_ID ptp' = transaction_id s - 1 \<and> Code ptp' = PTP_RC_OK)"
  using resp_loop_result [OF assms(1)] assms(2) by simp

lemma after_data_keeps:
  "after_data F ret s = Some (ret', s') \<Longrightarrow>
     transaction_id s' = transaction_id s \<and> session_id s' = session_id s \<and> params s' = params s"
  by (auto simp: after_data_def bind_eq_Some_conv split: if_splits)

lemma data_phase_keeps:
  "data_phase F s ptp flags n h = Some (ret, h', s') \<Longrightarrow>
     transaction_id s' = transaction_id s \<and> session_id s' = session_id s \<and> params s' = params s"
  by (auto simp: data_phase_def bind_eq_Some_conv split: if_splits dest!: after_data_keeps)

text \<open>The session between the two phases, and the container as it is sent.\<close>

definition request_of :: "'s ptp_session \<Rightarrow> ptp_container \<Rightarrow> ptp_container" where
  "request_of s ptp = ptp\<lparr>Transaction_ID := transaction_id s, SessionID := session_id s\<rparr>"

definition after_request :: "'s ptp_session \<Rightarrow> 's ptp_io \<Rightarrow> 's ptp_session" where
  "after_request s i = s\<lparr>transaction_id := transaction_id s + 1, io := i\<rparr>"

lemma after_request_sel [simp]:
  "transaction_id (after_request s i) = transaction_id s + 1" "session_id (after_request s i) = session_id s"
  "params (after_request s i) = params s" "io (after_request s i) = i"
  by (simp_all add: after_request_def)

lemma ptp_transaction_new_cases:
  assumes "ptp_transaction_new F s ptp flags n h = Some (rc, ptp', h', s')"
  obtains (request_failed) io1 where "sendreq_func F (io s) (request_of s ptp) = Some (rc, io1)"
      "rc \<noteq> PTP_RC_OK" "s' = after_request s io1"
    | (data_failed) io1 where "sendreq_func F (io s) (request_of s ptp) = Some (PTP_RC_OK, io1)"
      "data_phase F (after_request s io1) (request_of s ptp) flags n h = Some (rc, h', s')" "rc \<noteq> PTP_RC_OK"
    | (response) io1 s1 where "sendreq_func F (io s) (request_of s ptp) = Some (PTP_RC_OK, io1)"
      "data_phase F (after_request s io1) (request_of s ptp) flags n h = Some (PTP_RC_OK, h', s1)"
      "resp_loop F (Code ptp) 3 (request_of s ptp) s1 = Some (rc, ptp', s')"
proof -
  from assms obtain r io1 where sr: "sendreq_func F (io s) (request_of s ptp) = Some (r, io1)"
    by (auto simp: ptp_transaction_new_def Let_def bind_eq_Some_conv request_of_def)
  have upd: "s\<lparr>transaction_id := transaction_id s + 1, io := io1\<rparr> = after_request s io1"
    by (simp add: after_request_def)
  show thesis
  proof (cases "r = PTP_RC_OK")
    case False
    with assms sr show thesis
      by (intro request_failed [of io1])
        (simp_all add: ptp_transaction_new_def Let_def request_of_def after_request_def)
  next
    case ok: True
    from assms sr ok obtain ret h1 s1 where dp:
      "data_phase F (after_request s io1) (request_of s ptp) flags n h = Some (ret, h1, s1)"
      by (auto simp: ptp_transaction_new_def Let_def request_of_def upd bind_eq_Some_conv)
    show thesis
    proof (cases "ret = PTP_RC_OK")
      case False
      with assms sr ok dp show thesis
        by (intro data_failed [of io1]) (simp_all add: ptp_transaction_new_def Let_def request_of_def upd)
    next
      case True
      with assms sr ok dp show thesis
        by (intro response [of io1 s1])
          (auto simp: ptp_transaction_new_def Let_def request_of_def upd bind_eq_Some_conv)
    qed
  qed
qed

lemma ptp_transaction_new_keeps:
  assumes "ptp_transaction_new F s ptp flags n h = Some (rc, ptp', h', s')"
  shows "transaction_id s' = transaction_id s + 1 \<and> session_id s' = session_id s \<and> params s' = params s \<and>
    (rc = PTP_RC_OK \<longrightarrow> Transaction_ID ptp' = transaction_id s \<and> Code ptp' = PTP_RC_OK)"
  using assms
proof (cases rule: ptp_transaction_new_cases)
  case (data_failed io1)
  then show ?thesis using data_phase_keeps [OF data_failed(2)] by simp
next
  case (response io1 s1)
  then show ?thesis using data_phase_keeps [OF response(2)] resp_loop_keeps [OF response(3)] by simp
qed simp

section \<open>Waiting for the response\<close>

text \<open>
  \<open>waits F s ptp s' ptp'\<close>: from \<open>s\<close>, some number of responses that are missing or belong to
  an older transaction come in, and leave the session in \<open>s'\<close>.
\<close>

inductive waits ::
  "'s io_funs \<Rightarrow> 's ptp_session \<Rightarrow> ptp_container \<Rightarrow> 's ptp_session \<Rightarrow> ptp_container \<Rightarrow> bool"
  for F where
  waits_refl: "waits F s ptp s ptp"
| waits_skip: "getresp_func F (session_id s) (io s) ptp = Some (ret, ptp1, io1) \<Longrightarrow>
     ret = PTP_ERROR_RESP_EXPECTED \<or> ret = PTP_RC_OK \<and> Transaction_ID ptp1 < transaction_id s - 1 \<Longrightarrow>
     waits F (s\<lparr>io := io1\<rparr>) ptp1 s' ptp' \<Longrightarrow> waits F s ptp s' ptp'"

inductive_cases waits_skipE: "waits F s ptp s' ptp'"

lemma waits_keeps: "waits F s ptp s' ptp' \<Longrightarrow> transaction_id s' = transaction_id s \<and> session_id s' = session_id s"
  by (induction rule: waits.induct) simp_all

lemma resp_loop_waits:
  "waits F s ptp s' ptp' \<Longrightarrow> tries \<noteq> 0 \<Longrightarrow> resp_loop F cmd tries ptp s = resp_loop F cmd tries ptp' s'"
proof (induction rule: waits.induct)
  case (waits_skip s ptp ret ptp1 io1 s' ptp')
  then show ?case by (subst resp_loop.simps) auto
qed simp

lemma resp_loop_answer:
  assumes "getresp_func F (session_id s) (io s) ptp = Some (PTP_RC_OK, ptp', io')"
    and "Transaction_ID ptp' = transaction_id s - 1" and "tries \<noteq> 0"
  shows "resp_loop F cmd tries ptp s = Some (Code ptp', ptp', s\<lparr>io := io'\<rparr>)"
  using assms by (subst resp_loop.simps) simp

lemma resp_loop_silent:
  assumes silent: "\<And>sid i p. \<exists>p' i'. getresp_func F sid i p = Some (PTP_ERROR_RESP_EXPECTED, p', i')"
    and "tries \<noteq> 0"
  shows "resp_loop F cmd tries ptp s = None"
proof (rule ccontr)
  assume "resp_loop F cmd tries ptp s \<noteq> None"
  then obtain r where r: "resp_loop F cmd tries ptp s = Some r" by blast
  have "F = F \<longrightarrow> tries \<noteq> 0 \<longrightarrow> False"
  proof (rule resp_loop.raw_induct [OF _ r, where P = "\<lambda>G cmd tries ptp s r.
        G = F \<longrightarrow> tries \<noteq> 0 \<longrightarrow> False"], goal_cases)
    case (1 rl G cmd tries ptp s r)
    note IH = 1(1) and eq = 1(2)
    show ?case
    proof (intro impI)
      assume [simp]: "G = F" and t: "tries \<noteq> 0"
      obtain p i where g: "getresp_func F (session_id s) (io s) ptp = Some (PTP_ERROR_RESP_EXPECTED, p, i)"
        using silent by blast
      from eq t have "rl F cmd tries p (s\<lparr>io := i\<rparr>) = Some r" by (simp add: g)
      from IH [of F cmd tries p "s\<lparr>io := i\<rparr>" r, simplified, OF this] t show False by simp
    qed
  qed
  with assms(2) show False by simp
qed

section \<open>A scripted connection\<close>

text \<open>
  A connection for examples: it records the requests and the data sent, answers the receive
  phases from a list, and the responses from a list of result codes and containers; when
  this list is empty, a response echoes the request with the code OK.
\<close>

record script =
  sc_requests :: "ptp_container list"
  sc_sent :: "byte list list"
  sc_data :: "byte list list"
  sc_replies :: "(u16 \<times> ptp_container) list"

definition script_funs :: "script io_funs" where
  "script_funs = \<lparr>
     sendreq_func = (\<lambda>i ptp. Some (PTP_RC_OK,
        i\<lparr>io_dev := (io_dev i)\<lparr>sc_requests := sc_requests (io_dev i) @ [ptp]\<rparr>\<rparr>)),
     senddata_func = (\<lambda>i ptp n h.
        (let (r, bs, h') = memory_getfunc h n in
         Some (r, h', i\<lparr>io_dev := (io_dev i)\<lparr>sc_sent := sc_sent (io_dev i) @ [bs]\<rparr>\<rparr>))),
     getdata_func = (\<lambda>i ptp h. case sc_data (io_dev i) of
          [] \<Rightarrow> Some (0x02FF, h, i)
        | d # ds \<Rightarrow> (let (r, h') = memory_putfunc h d in
                    Some (r, h', i\<lparr>io_dev := (io_dev i)\<lparr>sc_data := ds\<rparr>\<rparr>))),
     getresp_func = (\<lambda>sid i ptp. case sc_replies (io_dev i) of
          [] \<Rightarrow> Some (PTP_RC_OK, ptp\<lparr>Code := PTP_RC_OK\<rparr>, i)
        | (r, p) # rs \<Rightarrow> Some (r, p\<lparr>SessionID := sid\<rparr>, i\<lparr>io_dev := (io_dev i)\<lparr>sc_replies := rs\<rparr>\<rparr>)),
     event_wait = (\<lambda>sid i ptp. None),
     cancelreq_func = (\<lambda>i t. Some (PTP_RC_OK, i))\<rparr>"

definition script_session :: "u32 \<Rightarrow> byte list list \<Rightarrow> (u16 \<times> ptp_container) list \<Rightarrow> script ptp_session" where
  "script_session tid ds rs = \<lparr>params = plain_params PTP_DL_LE, transaction_id = tid, session_id = 1,
     io = \<lparr>response_packet = [], split_header_data = False,
           io_dev = \<lparr>sc_requests = [], sc_sent = [], sc_data = ds, sc_replies = rs\<rparr>\<rparr>\<rparr>"

text \<open>Each transport function of the scripted connection, and whole transactions over it.\<close>

lemma script_sendreq [simp]:
  "sendreq_func script_funs i ptp = Some (PTP_RC_OK,
     i\<lparr>io_dev := (io_dev i)\<lparr>sc_requests := sc_requests (io_dev i) @ [ptp]\<rparr>\<rparr>)"
  by (simp add: script_funs_def)

lemma script_senddata [simp]:
  "senddata_func script_funs i ptp n h = Some (PTP_RC_OK, snd (snd (memory_getfunc h n)),
     i\<lparr>io_dev := (io_dev i)\<lparr>sc_sent := sc_sent (io_dev i) @ [fst (snd (memory_getfunc h n))]\<rparr>\<rparr>)"
  by (simp add: script_funs_def memory_getfunc_def Let_def)

lemma script_getdata [simp]:
  "sc_data (io_dev i) = d # ds \<Longrightarrow> getdata_func script_funs i ptp h =
     Some (PTP_RC_OK, snd (memory_putfunc h d), i\<lparr>io_dev := (io_dev i)\<lparr>sc_data := ds\<rparr>\<rparr>)"
  by (simp add: script_funs_def memory_putfunc_def)

lemma script_getresp:
  "getresp_func script_funs sid i ptp = (case sc_replies (io_dev i) of
      [] \<Rightarrow> Some (PTP_RC_OK, ptp\<lparr>Code := PTP_RC_OK\<rparr>, i)
    | (r, p) # rs \<Rightarrow> Some (r, p\<lparr>SessionID := sid\<rparr>, i\<lparr>io_dev := (io_dev i)\<lparr>sc_replies := rs\<rparr>\<rparr>))"
  by (simp add: script_funs_def)

lemma script_resp_loop_nil:
  assumes "sc_replies (io_dev (io s)) = []" and "Transaction_ID ptp = transaction_id s - 1"
  shows "resp_loop script_funs cmd 3 ptp s = Some (PTP_RC_OK, ptp\<lparr>Code := PTP_RC_OK\<rparr>, s)"
  using resp_loop_answer [of script_funs s ptp "ptp\<lparr>Code := PTP_RC_OK\<rparr>" "io s" 3 cmd] assms
  by (simp add: script_getresp)

lemma script_resp_loop_answer:
  assumes "sc_replies (io_dev (io s)) = (PTP_RC_OK, p) # rs" and "Transaction_ID p = transaction_id s - 1"
  shows "resp_loop script_funs cmd 3 ptp s = Some (Code p, p\<lparr>SessionID := session_id s\<rparr>,
     s\<lparr>io := (io s)\<lparr>io_dev := (io_dev (io s))\<lparr>sc_replies := rs\<rparr>\<rparr>\<rparr>)"
  using resp_loop_answer [of script_funs s ptp "p\<lparr>SessionID := session_id s\<rparr>" _ 3 cmd] assms
  by (simp add: script_getresp)

definition script_after :: "script ptp_session \<Rightarrow> ptp_container \<Rightarrow> byte list list \<Rightarrow> byte list list \<Rightarrow> script ptp_session" where
  "script_after s ptp sent ds = s\<lparr>transaction_id := transaction_id s + 1,
     io := (io s)\<lparr>io_dev := (io_dev (io s))\<lparr>sc_requests := sc_requests (io_dev (io s)) @ [request_of s ptp],
        sc_sent := sc_sent (io_dev (io s)) @ sent, sc_data := ds\<rparr>\<rparr>\<rparr>"

lemma script_after_sel [simp]:
  "transaction_id (script_after s ptp sent ds) = transaction_id s + 1"
  "session_id (script_after s ptp sent ds) = session_id s"
  "params (script_after s ptp sent ds) = params s"
  "sc_data (io_dev (io (script_after s ptp sent ds))) = ds"
  "sc_replies (io_dev (io (script_after s ptp sent ds))) = sc_replies (io_dev (io s))"
  "sc_sent (io_dev (io (script_after s ptp sent ds))) = sc_sent (io_dev (io s)) @ sent"
  "sc_requests (io_dev (io (script_after s ptp sent ds))) = sc_requests (io_dev (io s)) @ [request_of s ptp]"
  by (simp_all add: script_after_def)

lemmas transaction_defs = ptp_transaction_def ptp_transaction_new_def data_phase_def after_data_def
  ptp_init_recv_memory_handler_def ptp_init_send_memory_handler_def ptp_exit_recv_memory_handler_def

lemma script_transaction_get:
  assumes "sc_replies (io_dev (io s)) = []" and "sc_data (io_dev (io s)) = d # ds"
  shows "ptp_transaction script_funs s ptp PTP_DP_GETDATA n x =
     Some (PTP_RC_OK, (request_of s ptp)\<lparr>Code := PTP_RC_OK\<rparr>, d, script_after s ptp [] ds)"
  using assms
  by (simp add: transaction_defs dp_defs Let_def script_resp_loop_nil memory_putfunc_def request_of_def
      script_after_def)

lemma script_transaction_send:
  assumes "sc_replies (io_dev (io s)) = []"
  shows "ptp_transaction script_funs s ptp PTP_DP_SENDDATA (length x) x =
     Some (PTP_RC_OK, (request_of s ptp)\<lparr>Code := PTP_RC_OK\<rparr>, [],
       script_after s ptp [x] (sc_data (io_dev (io s))))"
  using assms
  by (simp add: transaction_defs dp_defs Let_def script_resp_loop_nil memory_getfunc_def request_of_def
      script_after_def rd_def)

lemma script_transaction_nodata:
  assumes "sc_replies (io_dev (io s)) = []"
  shows "ptp_transaction script_funs s ptp PTP_DP_NODATA n x =
     Some (PTP_RC_OK, (request_of s ptp)\<lparr>Code := PTP_RC_OK\<rparr>, [],
       script_after s ptp [] (sc_data (io_dev (io s))))"
  using assms
  by (simp add: transaction_defs dp_defs Let_def script_resp_loop_nil request_of_def script_after_def)

section \<open>Properties\<close>

text \<open>
  Claim C24: a transaction uses the next transaction id, whatever comes of it, and keeps the
  session; when it succeeds, the response it returns carries the id of this request, so a
  late answer to an earlier request is never taken for the answer to this one.
\<close>

theorem ptp_transaction_matches_response:
  assumes "ptp_transaction F s ptp flags n buf = Some (rc, ptp', dat, s')"
  shows "transaction_id s' = transaction_id s + 1 \<and> session_id s' = session_id s \<and>
    (rc = PTP_RC_OK \<longrightarrow> Transaction_ID ptp' = transaction_id s \<and> Code ptp' = PTP_RC_OK)"
  using assms by (auto simp: ptp_transaction_def Let_def bind_eq_Some_conv dest!: ptp_transaction_new_keeps)

definition sample_reply :: "u32 \<Rightarrow> ptp_container" where
  "sample_reply tid = ptp_container_zero\<lparr>Code := PTP_RC_OK, Transaction_ID := tid\<rparr>"

theorem ptp_transaction_matches_response_witness:
  "\<exists>ptp' s'. ptp_transaction script_funs (script_session 7 [[1, 2, 3]] [(PTP_RC_OK, sample_reply 7)])
       (ptp_container_zero\<lparr>Code := 0x1001\<rparr>) PTP_DP_GETDATA 0 [] = Some (PTP_RC_OK, ptp', [1, 2, 3], s') \<and>
     transaction_id s' = 8 \<and> Transaction_ID ptp' = 7"
proof -
  let ?t = "ptp_transaction script_funs (script_session 7 [[1, 2, 3]] [(PTP_RC_OK, sample_reply 7)])
       (ptp_container_zero\<lparr>Code := 0x1001\<rparr>) PTP_DP_GETDATA 0 []"
  have "\<exists>ptp' s'. ?t = Some (PTP_RC_OK, ptp', [1, 2, 3], s')"
    by (simp add: transaction_defs dp_defs script_session_def script_resp_loop_answer sample_reply_def
        memory_putfunc_def Let_def)
  then obtain ptp' s' where t: "?t = Some (PTP_RC_OK, ptp', [1, 2, 3], s')" by blast
  from ptp_transaction_matches_response [OF t] show ?thesis
    using t by (auto simp: script_session_def)
qed

text \<open>The response phase of a transaction whose data phase, if it has one, is over.\<close>

lemma ptp_transaction_responds:
  assumes "(if flags mod 256 = PTP_DP_SENDDATA then map_option ptp_init_send_memory_handler (rd buf 0 n)
      else Some ptp_init_recv_memory_handler) = Some h"
    and "sendreq_func F (io s) (request_of s ptp) = Some (PTP_RC_OK, io1)"
    and "data_phase F (after_request s io1) (request_of s ptp) flags n h = Some (PTP_RC_OK, h', s1)"
    and "resp_loop F (Code ptp) 3 (request_of s ptp) s1 = Some (rc, ptp', s')"
  shows "ptp_transaction F s ptp flags n buf =
    Some (rc, ptp', if flags mod 256 = PTP_DP_GETDATA then h_data h' else [], s')"
proof -
  have upd: "s\<lparr>transaction_id := transaction_id s + 1, io := io1\<rparr> = after_request s io1"
    by (simp add: after_request_def)
  have "ptp_transaction_new F s ptp flags n h = Some (rc, ptp', h', s')"
    using assms(2-4) by (simp add: ptp_transaction_new_def Let_def request_of_def upd)
  with assms(1) show ?thesis
    unfolding ptp_transaction_def by (simp only: bind.bind_lunit prod.case ptp_exit_recv_memory_handler_def)
qed

text \<open>
  Claim C34: answers that are late do not disturb the response phase of a transaction. In
  each of the three kinds of transaction, when the request is sent and the data phase, if there is
  one, has succeeded, then whatever number of responses is missing, or is delivered without an error
  and belongs to older transactions, the loop reads past them and returns the first response that
  carries the id of the request, with its code, and the data that was received. (A late response
  that comes while data is expected, or that USB delivers with an error code, is not skipped:
  \<open>usb_stale_response_ends_data\<close> and \<open>usb_stale_error_is_returned\<close> of \<open>Usb_Props\<close>.)
\<close>

theorem ptp_transaction_skips_stale:
  assumes "(if flags mod 256 = PTP_DP_SENDDATA then map_option ptp_init_send_memory_handler (rd buf 0 n)
      else Some ptp_init_recv_memory_handler) = Some h"
    and "sendreq_func F (io s) (request_of s ptp) = Some (PTP_RC_OK, io1)"
    and "data_phase F (after_request s io1) (request_of s ptp) flags n h = Some (PTP_RC_OK, h', s1)"
    and "waits F s1 (request_of s ptp) s2 ptp2"
    and "getresp_func F (session_id s) (io s2) ptp2 = Some (PTP_RC_OK, ptp3, io3)"
    and "Transaction_ID ptp3 = transaction_id s"
  shows "ptp_transaction F s ptp flags n buf =
    Some (Code ptp3, ptp3, if flags mod 256 = PTP_DP_GETDATA then h_data h' else [], s2\<lparr>io := io3\<rparr>)"
proof -
  have "transaction_id s2 = transaction_id s + 1" "session_id s2 = session_id s"
    using waits_keeps [OF assms(4)] data_phase_keeps [OF assms(3)] by simp_all
  then have "resp_loop F (Code ptp) 3 (request_of s ptp) s1 = Some (Code ptp3, ptp3, s2\<lparr>io := io3\<rparr>)"
    using assms(5,6) by (simp add: resp_loop_waits [OF assms(4)] resp_loop_answer)
  then show ?thesis by (rule ptp_transaction_responds [OF assms(1-3)])
qed

theorem ptp_transaction_skips_stale_witness:
  "\<exists>s'. ptp_transaction script_funs
       (script_session 7 [[1, 2, 3]] [(PTP_ERROR_RESP_EXPECTED, sample_reply 0), (PTP_RC_OK, sample_reply 3),
          (PTP_RC_OK, (sample_reply 7)\<lparr>Code := PTP_RC_GeneralError\<rparr>)])
       (ptp_container_zero\<lparr>Code := 0x1001\<rparr>) PTP_DP_GETDATA 0 [] =
     Some (PTP_RC_GeneralError, (sample_reply 7)\<lparr>Code := PTP_RC_GeneralError, SessionID := 1\<rparr>, [1, 2, 3], s')"
proof -
  define s where "s = script_session 7 [[1, 2, 3]] [(PTP_ERROR_RESP_EXPECTED, sample_reply 0),
      (PTP_RC_OK, sample_reply 3), (PTP_RC_OK, (sample_reply 7)\<lparr>Code := PTP_RC_GeneralError\<rparr>)]"
  define r where "r = ptp_container_zero\<lparr>Code := 0x1001\<rparr>"
  define io1 where "io1 = (io s)\<lparr>io_dev := (io_dev (io s))\<lparr>sc_requests := [request_of s r]\<rparr>\<rparr>"
  define after where "after rs = (after_request s io1)\<lparr>io := io1\<lparr>io_dev := (io_dev io1)\<lparr>sc_data := [], sc_replies := rs\<rparr>\<rparr>\<rparr>" for rs
  let ?rs = "sc_replies (io_dev (io s))"
  have "waits script_funs (after ?rs) (request_of s r)
      (after [(PTP_RC_OK, (sample_reply 7)\<lparr>Code := PTP_RC_GeneralError\<rparr>)]) ((sample_reply 3)\<lparr>SessionID := 1\<rparr>)"
    by (rule waits_skip [of _ _ _ PTP_ERROR_RESP_EXPECTED "(sample_reply 0)\<lparr>SessionID := 1\<rparr>"],
        simp add: script_getresp after_def io1_def s_def script_session_def, simp,
        rule waits_skip [of _ _ _ PTP_RC_OK "(sample_reply 3)\<lparr>SessionID := 1\<rparr>"],
        simp add: script_getresp after_def io1_def s_def script_session_def,
        simp add: after_def s_def script_session_def sample_reply_def ptp_container_zero_def,
        simp add: after_def after_request_def io1_def s_def script_session_def waits_refl)
  moreover have "data_phase script_funs (after_request s io1) (request_of s r) PTP_DP_GETDATA 0 ptp_init_recv_memory_handler =
      Some (PTP_RC_OK, \<lparr>h_data = [1, 2, 3], h_curoff = 3\<rparr>, after ?rs)"
    by (simp add: transaction_defs dp_defs memory_putfunc_def after_def after_request_def io1_def s_def script_session_def)
  moreover have "sendreq_func script_funs (io s) (request_of s r) = Some (PTP_RC_OK, io1)"
    by (simp add: io1_def s_def script_session_def)
  ultimately have "\<exists>s'. ptp_transaction script_funs s r PTP_DP_GETDATA 0 [] =
     Some (PTP_RC_GeneralError, (sample_reply 7)\<lparr>Code := PTP_RC_GeneralError, SessionID := 1\<rparr>, [1, 2, 3], s')"
    using ptp_transaction_skips_stale [of PTP_DP_GETDATA "[]" 0 ptp_init_recv_memory_handler script_funs s r io1
        "\<lparr>h_data = [1, 2, 3], h_curoff = 3\<rparr>" "after ?rs"
        "after [(PTP_RC_OK, (sample_reply 7)\<lparr>Code := PTP_RC_GeneralError\<rparr>)]" "(sample_reply 3)\<lparr>SessionID := 1\<rparr>"
        "(sample_reply 7)\<lparr>Code := PTP_RC_GeneralError, SessionID := 1\<rparr>"]
    by (simp add: script_getresp after_def io1_def s_def script_session_def sample_reply_def
        ptp_container_zero_def dp_defs)
  then show ?thesis by (simp add: s_def r_def)
qed

text \<open>
  A device that stays silent. When no response ever comes in, the three tries are
  never used up, because a try that got nothing is given back: the transaction does not
  return.
\<close>

theorem ptp_transaction_silent_device_hangs:
  assumes "\<And>i p. \<exists>i'. sendreq_func F i p = Some (PTP_RC_OK, i')"
    and "\<And>sid i p. \<exists>p' i'. getresp_func F sid i p = Some (PTP_ERROR_RESP_EXPECTED, p', i')"
  shows "ptp_transaction F s ptp PTP_DP_NODATA n buf = None"
proof -
  obtain i' where "sendreq_func F (io s) (request_of s ptp) = Some (PTP_RC_OK, i')" using assms(1) by blast
  then show ?thesis
    using resp_loop_silent [OF assms(2)]
    by (simp add: transaction_defs dp_defs Let_def request_of_def)
qed

theorem ptp_transaction_silent_device_hangs_witness:
  "ptp_transaction (script_funs\<lparr>getresp_func := \<lambda>sid i p. Some (PTP_ERROR_RESP_EXPECTED, p, i)\<rparr>)
     (script_session 0 [] []) ptp_container_zero PTP_DP_NODATA 0 [] = None"
  by (rule ptp_transaction_silent_device_hangs) (simp_all add: script_funs_def)

text \<open>
  Data moved from a send handler to a receive handler in chunks of any sizes
  arrives complete and in order.
\<close>

lemma memory_handler_moves_data:
  "h_data (snd (mem.pump ns (ptp_init_send_memory_handler dat) ptp_init_recv_memory_handler)) =
     take (sum_list ns) dat"
  using mem.pump_moves [of ptp_init_recv_memory_handler ns "ptp_init_send_memory_handler dat"]
  by (simp add: ptp_init_send_memory_handler_def ptp_init_recv_memory_handler_def)

end
