(* ===== verification/Ptp_Cache.thy ===== *)
theory Ptp_Cache
  imports Ptp_Prop
begin

text \<open>
  The object cache of ptp.c: an array of objects kept in order of their handles, a binary
  search that inserts what it does not find, the library's \<open>bsearch\<close> for plain lookups, and
  removal. Handles are 32-bit words; \<open>bsearch\<close> is a parameter with the law of the C
  standard.
\<close>

record ptp_object =
  oid :: u32
  obj_flags :: u32
  oi :: ptp_object_info
  canon_flags :: u32
  mtpprops :: "mtp_properties list"

definition ptp_object_info_zero :: ptp_object_info where
  "ptp_object_info_zero = \<lparr>oi_StorageID = 0, oi_ObjectFormat = 0, oi_ProtectionStatus = 0,
     oi_ObjectCompressedSize = 0, oi_ThumbFormat = 0, oi_ThumbCompressedSize = 0,
     oi_ThumbPixWidth = 0, oi_ThumbPixHeight = 0, oi_ImagePixWidth = 0, oi_ImagePixHeight = 0,
     oi_ImageBitDepth = 0, oi_ParentObject = 0, oi_AssociationType = 0, oi_AssociationDesc = 0,
     oi_SequenceNumber = 0, oi_Filename = None, oi_CaptureDate = 0, oi_ModificationDate = 0,
     oi_Keywords = None\<rparr>"

definition new_ptp_object :: "u32 \<Rightarrow> ptp_object" where
  "new_ptp_object handle = \<lparr>oid = handle, obj_flags = 0, oi = ptp_object_info_zero, canon_flags = 0,
     mtpprops = []\<rparr>"

section \<open>Lookup with bsearch\<close>

text \<open>The difference of two handles is taken in 32 bits and read as an \<open>int\<close>.\<close>

definition cmp_ob :: "u32 \<Rightarrow> u32 \<Rightarrow> int" where
  "cmp_ob a b = sint (a - b)"

definition ptp_object_find ::
  "((ptp_object \<Rightarrow> int) \<Rightarrow> ptp_object list \<Rightarrow> nat option) \<Rightarrow> ptp_object list \<Rightarrow> u32 \<Rightarrow> nat option" where
  "ptp_object_find bs objs handle = bs (\<lambda>ob. cmp_ob handle (oid ob)) objs"

definition ptp_remove_object_from_cache ::
  "((ptp_object \<Rightarrow> int) \<Rightarrow> ptp_object list \<Rightarrow> nat option) \<Rightarrow> ptp_object list \<Rightarrow> u32 \<Rightarrow> ptp_object list" where
  "ptp_remove_object_from_cache bs objs handle =
     (case ptp_object_find bs objs handle of
        None \<Rightarrow> objs
      | Some i \<Rightarrow> take i objs @ drop (Suc i) objs)"

definition ptp_objects_sort ::
  "((ptp_object \<Rightarrow> ptp_object \<Rightarrow> int) \<Rightarrow> ptp_object list \<Rightarrow> ptp_object list) \<Rightarrow> ptp_object list \<Rightarrow> ptp_object list" where
  "ptp_objects_sort qsort objs = qsort (\<lambda>a b. cmp_ob (oid a) (oid b)) objs"

fun find_prop :: "u32 \<Rightarrow> mtp_properties list \<Rightarrow> mtp_properties option" where
  "find_prop attr [] = None"
| "find_prop attr (p # ps) = (if attr = ucast (mp_property p) then Some p else find_prop attr ps)"

definition ptp_find_object_prop_in_cache ::
  "((ptp_object \<Rightarrow> int) \<Rightarrow> ptp_object list \<Rightarrow> nat option) \<Rightarrow> ptp_object list \<Rightarrow> u32 \<Rightarrow> u32 \<Rightarrow>
     mtp_properties option" where
  "ptp_find_object_prop_in_cache bs objs handle attr =
     (case ptp_object_find bs objs handle of
        None \<Rightarrow> None
      | Some i \<Rightarrow> find_prop attr (mtpprops (objs ! i)))"

section \<open>Binary search with insertion\<close>

text \<open>\<open>Inl\<close> the position of the handle, or \<open>Inr\<close> the last \<open>begin\<close> and \<open>end\<close>.\<close>

function search_loop :: "ptp_object list \<Rightarrow> u32 \<Rightarrow> nat \<Rightarrow> nat \<Rightarrow> nat + nat \<times> nat" where
  "search_loop objs handle b e =
     (let cursor = (e - b) div 2 + b in
      if oid (objs ! cursor) = handle then Inl cursor
      else
        (let b' = (if oid (objs ! cursor) < handle then cursor else b);
             e' = (if oid (objs ! cursor) < handle then e else cursor)
         in if e' - b' \<le> 1 then Inr (b', e') else search_loop objs handle b' e'))"
  by pat_completeness auto

termination
  by (relation "measure (\<lambda>(objs, handle, b, e). e - b)") (auto simp: Let_def split: if_splits)

declare search_loop.simps [simp del]

definition insert_at :: "nat \<Rightarrow> u32 \<Rightarrow> ptp_object list \<Rightarrow> ptp_object list" where
  "insert_at n handle objs = take n objs @ new_ptp_object handle # drop n objs"

text \<open>The position of the object and the new cache; \<open>None\<close> is an error return.\<close>

definition ptp_object_find_or_insert :: "ptp_object list \<Rightarrow> u32 \<Rightarrow> (nat \<times> ptp_object list) option" where
  "ptp_object_find_or_insert objs handle =
     (if handle = 0 then None
      else if objs = [] then Some (0, [new_ptp_object handle])
      else
        (case search_loop objs handle 0 (length objs - 1) of
           Inl i \<Rightarrow> Some (i, objs)
         | Inr (b, e) \<Rightarrow>
             if oid (objs ! b) = handle then Some (b, objs)
             else if oid (objs ! e) = handle then Some (e, objs)
             else
               (let insertat =
                  (if b = 0 \<and> handle < oid (objs ! 0) then b
                   else if e = length objs - 1 \<and> oid (objs ! e) < handle then e + 1
                   else b + 1)
                in Some (insertat, insert_at insertat handle objs))))"

section \<open>The search finds its place\<close>

definition sorted_oids :: "ptp_object list \<Rightarrow> bool" where
  "sorted_oids objs \<longleftrightarrow> sorted_wrt (<) (map oid objs)"

lemma sorted_oids_nth: "sorted_oids objs \<Longrightarrow> i < j \<Longrightarrow> j < length objs \<Longrightarrow> oid (objs ! i) < oid (objs ! j)"
  by (simp add: sorted_oids_def sorted_wrt_iff_nth_less)

text \<open>What is known of the bounds of the search.\<close>

definition brackets :: "ptp_object list \<Rightarrow> u32 \<Rightarrow> nat \<Rightarrow> nat \<Rightarrow> bool" where
  "brackets objs handle b e \<longleftrightarrow> b \<le> e \<and> e < length objs \<and>
     (b = 0 \<or> oid (objs ! b) < handle) \<and> (e = length objs - 1 \<or> handle < oid (objs ! e))"

lemma search_loop_result:
  assumes "brackets objs handle b e"
  shows "case search_loop objs handle b e of
      Inl i \<Rightarrow> i < length objs \<and> oid (objs ! i) = handle
    | Inr (b', e') \<Rightarrow> brackets objs handle b' e' \<and> e' - b' \<le> 1"
  using assms
proof (induction objs handle b e rule: search_loop.induct)
  case (1 objs handle b e)
  let ?c = "(e - b) div 2 + b"
  have c: "b \<le> ?c" "?c \<le> e" "e < length objs" using "1.prems" by (auto simp: brackets_def)
  show ?case
  proof (cases "oid (objs ! ?c) = handle")
    case True
    then show ?thesis using c by (simp add: search_loop.simps [of objs handle b e])
  next
    case False
    define b' where "b' = (if oid (objs ! ?c) < handle then ?c else b)"
    define e' where "e' = (if oid (objs ! ?c) < handle then e else ?c)"
    have br: "brackets objs handle b' e'"
      using "1.prems" c False by (auto simp: brackets_def b'_def e'_def not_less)
    have "search_loop objs handle b e =
        (if e' - b' \<le> 1 then Inr (b', e') else search_loop objs handle b' e')"
      using False by (subst search_loop.simps) (simp add: Let_def b'_def e'_def)
    then show ?thesis
      using "1.IH" [OF refl False b'_def e'_def _ br] br by (cases "e' - b' \<le> 1") simp_all
  qed
qed

lemma sorted_insert_at:
  assumes "sorted_oids objs" and "n \<le> length objs"
    and "\<And>i. i < n \<Longrightarrow> oid (objs ! i) < handle"
    and "\<And>i. n \<le> i \<Longrightarrow> i < length objs \<Longrightarrow> handle < oid (objs ! i)"
  shows "sorted_oids (insert_at n handle objs)"
proof -
  have lt: "x < handle" if "x \<in> set (take n (map oid objs))" for x
    using that assms(2,3) by (auto simp: in_set_conv_nth)
  have gt: "handle < x" if "x \<in> set (drop n (map oid objs))" for x
    using that assms(2,4) by (auto simp: in_set_conv_nth)
  have "sorted_wrt (<) (take n (map oid objs) @ drop n (map oid objs))"
    using assms(1) by (simp add: sorted_oids_def)
  then have "sorted_wrt (<) (take n (map oid objs))" "sorted_wrt (<) (drop n (map oid objs))"
    by (simp_all only: sorted_wrt_append)
  then show ?thesis
    using lt gt
    by (auto simp: sorted_oids_def insert_at_def new_ptp_object_def sorted_wrt_append take_map drop_map
        intro: less_trans)
qed

lemma insertion_point:
  assumes s: "sorted_oids objs" and br: "brackets objs handle b e" and near: "e - b \<le> 1"
    and ne: "oid (objs ! b) \<noteq> handle" "oid (objs ! e) \<noteq> handle"
  defines "n \<equiv> (if b = 0 \<and> handle < oid (objs ! 0) then b
                 else if e = length objs - 1 \<and> oid (objs ! e) < handle then e + 1 else b + 1)"
  shows "n \<le> length objs" and "i < n \<Longrightarrow> oid (objs ! i) < handle"
    and "n \<le> i \<Longrightarrow> i < length objs \<Longrightarrow> handle < oid (objs ! i)"
proof -
  have be: "b \<le> e" "e < length objs" using br by (auto simp: brackets_def)
  have mono: "i \<le> j \<Longrightarrow> j < length objs \<Longrightarrow> oid (objs ! i) \<le> oid (objs ! j)" for i j
    using sorted_oids_nth [OF s, of i j] by (cases "i = j") auto
  have b_less: "oid (objs ! b) < handle" if "\<not> (b = 0 \<and> handle < oid (objs ! 0))"
    using br ne(1) that by (auto simp: brackets_def)
  have e_less: "handle < oid (objs ! e)" if "\<not> (e = length objs - 1 \<and> oid (objs ! e) < handle)"
    using br ne(2) that by (auto simp: brackets_def)
  consider (at_front) "b = 0" "handle < oid (objs ! 0)" "n = 0"
    | (at_back) "e = length objs - 1" "oid (objs ! e) < handle" "n = length objs"
    | (between) "oid (objs ! b) < handle" "handle < oid (objs ! e)" "n = b + 1"
  proof (cases "b = 0 \<and> handle < oid (objs ! 0)")
    case True
    then show thesis by (intro at_front) (simp_all add: n_def)
  next
    case False
    note f = this
    show thesis
    proof (cases "e = length objs - 1 \<and> oid (objs ! e) < handle")
      case True
      have "n = e + 1" unfolding n_def if_not_P [OF f] if_P [OF True] ..
      then show thesis using True be by (intro at_back) auto
    next
      case False
      have "n = b + 1" unfolding n_def if_not_P [OF f] if_not_P [OF False] ..
      then show thesis using b_less [OF f] e_less [OF False] by (intro between)
    qed
  qed
  note pos = this
  show "n \<le> length objs" using pos be by cases auto
  show "oid (objs ! i) < handle" if "i < n"
    using pos
  proof cases
    case at_back
    then have "oid (objs ! i) \<le> oid (objs ! e)" using mono [of i e] that be by simp
    then show ?thesis using at_back(2) by (rule le_less_trans)
  next
    case between
    then show ?thesis using mono [of i b] that be by (auto intro: le_less_trans)
  qed (use that in simp)
  show "handle < oid (objs ! i)" if "n \<le> i" "i < length objs"
    using pos
  proof cases
    case at_front
    then show ?thesis using mono [of 0 i] that by (auto intro: less_le_trans)
  next
    case between
    then have "e \<le> i" using near that be by (cases "b = e") auto
    then show ?thesis using mono [of e i] between that by (auto intro: less_le_trans)
  qed (use that in simp)
qed

lemma find_or_insert_result:
  assumes "sorted_oids objs" and "handle \<noteq> 0"
  shows "(\<exists>i < length objs. oid (objs ! i) = handle \<and> ptp_object_find_or_insert objs handle = Some (i, objs)) \<or>
    (\<exists>n \<le> length objs. (\<forall>i < n. oid (objs ! i) < handle) \<and>
       (\<forall>i. n \<le> i \<longrightarrow> i < length objs \<longrightarrow> handle < oid (objs ! i)) \<and>
       ptp_object_find_or_insert objs handle = Some (n, insert_at n handle objs))"
proof (cases "objs = []")
  case True
  then show ?thesis using assms(2) by (simp add: ptp_object_find_or_insert_def insert_at_def)
next
  case False
  then have br0: "brackets objs handle 0 (length objs - 1)" by (simp add: brackets_def)
  note res = search_loop_result [OF br0]
  show ?thesis
  proof (cases "search_loop objs handle 0 (length objs - 1)")
    case (Inl i)
    then show ?thesis using res False assms(2) by (auto simp: ptp_object_find_or_insert_def)
  next
    case (Inr be)
    obtain b e where be: "be = (b, e)" by fastforce
    from res Inr be have br: "brackets objs handle b e" and near: "e - b \<le> 1" by auto
    have lt: "b < length objs" "e < length objs" using br by (auto simp: brackets_def)
    consider "oid (objs ! b) = handle" | "oid (objs ! b) \<noteq> handle" "oid (objs ! e) = handle"
      | (absent) "oid (objs ! b) \<noteq> handle" "oid (objs ! e) \<noteq> handle" by blast
    then show ?thesis
    proof cases
      case absent
      define n where "n = (if b = 0 \<and> handle < oid (objs ! 0) then b
          else if e = length objs - 1 \<and> oid (objs ! e) < handle then e + 1 else b + 1)"
      have "ptp_object_find_or_insert objs handle = Some (n, insert_at n handle objs)"
        unfolding ptp_object_find_or_insert_def Inr be n_def using False assms(2) absent by (simp add: Let_def)
      then show ?thesis
        using insertion_point [OF assms(1) br near absent, folded n_def] by blast
    qed (use Inr be lt False assms(2) in \<open>auto simp: ptp_object_find_or_insert_def\<close>)
  qed
qed

lemma find_or_insert_full:
  assumes "sorted_oids objs" and "handle \<noteq> 0"
  shows "\<exists>i objs'. ptp_object_find_or_insert objs handle = Some (i, objs') \<and> i < length objs' \<and>
    oid (objs' ! i) = handle \<and> sorted_oids objs' \<and>
    (if handle \<in> oid ` set objs then objs' = objs
     else take i objs' @ drop (Suc i) objs' = objs \<and> objs' ! i = new_ptp_object handle)"
  using find_or_insert_result [OF assms]
proof (elim disjE exE conjE)
  fix n assume n: "n \<le> length objs" "\<forall>i<n. oid (objs ! i) < handle"
    "\<forall>i\<ge>n. i < length objs \<longrightarrow> handle < oid (objs ! i)"
    and r: "ptp_object_find_or_insert objs handle = Some (n, insert_at n handle objs)"
  have "handle \<noteq> oid (objs ! i)" if "i < length objs" for i
    using n(2) [rule_format, of i] n(3) [rule_format, of i] that by (cases "i < n") auto
  then have "handle \<notin> oid ` set objs" by (metis imageE in_set_conv_nth)
  moreover have "sorted_oids (insert_at n handle objs)"
    by (rule sorted_insert_at [OF assms(1) n(1)]) (use n(2,3) in auto)
  ultimately show ?thesis
    using n(1) by (simp add: r insert_at_def nth_append new_ptp_object_def min_def)
qed (use assms(1) in auto)

lemma ptp_object_find_or_insert_ok:
  "sorted_oids objs \<Longrightarrow> handle \<noteq> 0 \<Longrightarrow> ptp_object_find_or_insert objs handle = Some (i, objs') \<Longrightarrow>
     sorted_oids objs' \<and> i < length objs' \<and> oid (objs' ! i) = handle"
  using find_or_insert_full [of objs handle] by auto

section \<open>Properties\<close>

text \<open>
  Claim C26: in a cache in order, the binary search returns the position of the object with
  the handle, inserting a fresh one where it was missing; the cache stays strictly in
  order, gains this handle only, and every other object is kept as it is.
\<close>

theorem ptp_object_find_or_insert_correct:
  assumes "sorted_oids objs" and "handle \<noteq> 0"
  shows "\<exists>i objs'. ptp_object_find_or_insert objs handle = Some (i, objs') \<and> i < length objs' \<and>
    oid (objs' ! i) = handle \<and> sorted_oids objs' \<and>
    (if handle \<in> oid ` set objs then objs' = objs
     else take i objs' @ drop (Suc i) objs' = objs \<and> objs' ! i = new_ptp_object handle)"
  using assms by (rule find_or_insert_full)

lemma sorted_oids_ex: "sorted_oids [new_ptp_object 2, new_ptp_object 5, new_ptp_object 0x80000009]"
  by (simp add: sorted_oids_def new_ptp_object_def)

theorem ptp_object_find_or_insert_correct_witness:
  "\<exists>i objs'. ptp_object_find_or_insert [new_ptp_object 2, new_ptp_object 5, new_ptp_object 0x80000009] 7 =
     Some (i, objs') \<and> oid (objs' ! i) = 7 \<and> sorted_oids objs'"
  using ptp_object_find_or_insert_correct [OF sorted_oids_ex, of 7] by force

text \<open>
  The law of \<open>bsearch\<close>: it must find an element that compares equal when the elements that
  the key is above come first, then those equal to it, then the others.
\<close>

definition partitioned :: "('a \<Rightarrow> int) \<Rightarrow> 'a list \<Rightarrow> bool" where
  "partitioned cmp xs \<longleftrightarrow> sorted_wrt (\<lambda>x y. sgn (cmp y) \<le> sgn (cmp x)) xs"

definition bsearch_ok :: "(('a \<Rightarrow> int) \<Rightarrow> 'a list \<Rightarrow> nat option) \<Rightarrow> bool" where
  "bsearch_ok bs \<longleftrightarrow> (\<forall>cmp xs. partitioned cmp xs \<longrightarrow>
     (case bs cmp xs of None \<Rightarrow> \<forall>x \<in> set xs. cmp x \<noteq> 0
                      | Some i \<Rightarrow> i < length xs \<and> cmp (xs ! i) = 0))"

fun linear_search :: "('a \<Rightarrow> int) \<Rightarrow> 'a list \<Rightarrow> nat option" where
  "linear_search cmp [] = None"
| "linear_search cmp (x # xs) = (if cmp x = 0 then Some 0 else map_option Suc (linear_search cmp xs))"

lemma linear_search_ok: "bsearch_ok linear_search"
proof -
  have "case linear_search cmp xs of None \<Rightarrow> \<forall>x \<in> set xs. cmp x \<noteq> 0
      | Some i \<Rightarrow> i < length xs \<and> cmp (xs ! i) = 0" for cmp :: "'a \<Rightarrow> int" and xs
    by (induction xs) (auto split: option.splits)
  then show ?thesis by (simp add: bsearch_ok_def)
qed

lemma cmp_ob_small:
  assumes "uint a < 2 ^ 31" and "uint b < 2 ^ 31"
  shows "cmp_ob a b = uint a - uint b"
proof -
  have "(uint a - uint b) mod 4294967296 = take_bit 32 (uint a - uint b)" by (simp add: take_bit_eq_mod)
  then have "sint (a - b) = signed_take_bit 31 (uint a - uint b)"
    by (simp add: sint_uint uint_word_ariths signed_take_bit_take_bit)
  also have "\<dots> = uint a - uint b"
  proof (rule signed_take_bit_int_eq_self)
    show "- (2 ^ 31) \<le> uint a - uint b" using assms(2) uint_ge_0 [of a] by linarith
    show "uint a - uint b < 2 ^ 31" using assms(1) uint_ge_0 [of b] by linarith
  qed
  finally show ?thesis by (simp add: cmp_ob_def)
qed

lemma partitioned_small:
  assumes "sorted_oids objs" and "uint handle < 2 ^ 31" and "\<forall>ob \<in> set objs. uint (oid ob) < 2 ^ 31"
  shows "partitioned (\<lambda>ob. cmp_ob handle (oid ob)) objs"
proof -
  have "sorted_wrt (\<lambda>x y. oid x < oid y) objs" using assms(1) by (simp add: sorted_oids_def sorted_wrt_map)
  then show ?thesis unfolding partitioned_def
  proof (rule sorted_wrt_mono_rel [rotated])
    fix x y assume "x \<in> set objs" "y \<in> set objs" "oid x < oid y"
    then show "sgn (cmp_ob handle (oid y)) \<le> sgn (cmp_ob handle (oid x))"
      using assms(2,3) by (simp add: cmp_ob_small word_less_def sgn_if)
  qed
qed

text \<open>
  With handles below \<open>2^31\<close>, removing a handle from a cache in order takes out the
  object with this handle and no other, and leaves the cache in order.
\<close>

lemma ptp_remove_object_from_cache_correct:
  assumes "bsearch_ok bs" and "sorted_oids objs" and "uint handle < 2 ^ 31"
    and "\<forall>ob \<in> set objs. uint (oid ob) < 2 ^ 31"
  shows "ptp_remove_object_from_cache bs objs handle = filter (\<lambda>ob. oid ob \<noteq> handle) objs \<and>
    sorted_oids (ptp_remove_object_from_cache bs objs handle)"
proof -
  have zero: "cmp_ob handle (oid ob) = 0 \<longleftrightarrow> oid ob = handle" if "ob \<in> set objs" for ob
    using assms(3,4) that by (auto simp: cmp_ob_small word_uint_eq_iff)
  note found = assms(1) [unfolded bsearch_ok_def, rule_format, OF partitioned_small [OF assms(2-4)]]
  have eq: "ptp_remove_object_from_cache bs objs handle = filter (\<lambda>ob. oid ob \<noteq> handle) objs"
  proof (cases "ptp_object_find bs objs handle")
    case None
    then have "\<forall>ob \<in> set objs. oid ob \<noteq> handle" using found zero by (simp add: ptp_object_find_def)
    then show ?thesis using None by (simp add: ptp_remove_object_from_cache_def)
  next
    case (Some i)
    then have i: "i < length objs" "oid (objs ! i) = handle"
      using found zero by (auto simp: ptp_object_find_def)
    have split: "objs = take i objs @ objs ! i # drop (Suc i) objs" using i(1) by (rule id_take_nth_drop)
    have "\<forall>ob \<in> set (take i objs) \<union> set (drop (Suc i) objs). oid ob \<noteq> handle"
    proof -
      have "oid (objs ! j) \<noteq> handle" if "j < length objs" "j \<noteq> i" for j
        using sorted_oids_nth [OF assms(2), of i j] sorted_oids_nth [OF assms(2), of j i] i that
        by (cases "j < i") auto
      note other = this
      have "\<forall>k < i. oid (objs ! k) \<noteq> handle" using other i(1) by simp
      moreover have "\<forall>k < length objs - Suc i. oid (objs ! (Suc i + k)) \<noteq> handle" using other by simp
      ultimately show ?thesis using i(1) by (simp add: ball_Un all_set_conv_all_nth)
    qed
    then have "filter (\<lambda>ob. oid ob \<noteq> handle) (take i objs @ objs ! i # drop (Suc i) objs) =
        take i objs @ drop (Suc i) objs"
      using i(2) by (simp add: filter_id_conv)
    then show ?thesis using Some split by (simp add: ptp_remove_object_from_cache_def)
  qed
  have "sorted_oids (filter (\<lambda>ob. oid ob \<noteq> handle) objs)"
    using assms(2) by (simp add: sorted_oids_def sorted_wrt_map sorted_wrt_filter)
  with eq show ?thesis by simp
qed

lemma ptp_remove_object_from_cache_correct_witness:
  "ptp_remove_object_from_cache linear_search [new_ptp_object 2, new_ptp_object 5, new_ptp_object 9] 5 =
     [new_ptp_object 2, new_ptp_object 9]"
  using ptp_remove_object_from_cache_correct [OF linear_search_ok,
      of "[new_ptp_object 2, new_ptp_object 5, new_ptp_object 9]" 5]
  by (simp add: sorted_oids_def new_ptp_object_def)

text \<open>
  Handles that are \<open>2^31\<close> or more apart. The insertion compares handles as
  unsigned words, the comparison given to \<open>bsearch\<close> takes their difference as an \<open>int\<close>: the
  cache that the insertion builds from the handles 1 and \<open>0x80000002\<close> is not in the order
  that \<open>bsearch\<close> needs, so a lookup of a handle that is there may fail.
\<close>

lemma find_and_insert_disagree:
  "ptp_object_find_or_insert [new_ptp_object 1] 0x80000002 =
     Some (1, [new_ptp_object 1, new_ptp_object 0x80000002]) \<and>
   \<not> partitioned (\<lambda>ob. cmp_ob 0x80000002 (oid ob)) [new_ptp_object 1, new_ptp_object 0x80000002]"
  by (simp add: ptp_object_find_or_insert_def search_loop.simps new_ptp_object_def insert_at_def
      partitioned_def cmp_ob_def Let_def)

end
