(* ===== verification/Ptp_Ops.thy ===== *)
theory Ptp_Ops
  imports Ptp_Transaction Ptp_Cache
begin

unbundle bit_operations_syntax

text \<open>
  The PTP operations of ptp.c: each fills a container with its code and parameters, runs a
  transaction and reads the dataset that came back. The result of an operation is the PTP
  result code, what it stores for its caller (\<open>None\<close> when it stores nothing) and the
  session. \<open>mktime\<close>, \<open>qsort\<close> and \<open>bsearch\<close> are functions of the C library; \<open>junk\<close> is the
  old contents of an uninitialised buffer.
\<close>

definition ptp_request :: "u16 \<Rightarrow> u32 list \<Rightarrow> ptp_container" where
  "ptp_request cmd args = set_params 0 args (ptp_container_zero\<lparr>Code := cmd, Nparam := length args\<rparr>)"

text \<open>A receiving operation whose dataset is read by \<open>unpack\<close> when the result is OK.\<close>

definition get_dataset ::
  "'s io_funs \<Rightarrow> 's ptp_session \<Rightarrow> u16 \<Rightarrow> u32 list \<Rightarrow> (ptp_params \<Rightarrow> byte list \<Rightarrow> 'a option) \<Rightarrow>
     (u16 \<times> 'a option \<times> 's ptp_session) option" where
  "get_dataset F s cmd args unpack = do {
     (ret, _, dat, s') \<leftarrow> ptp_transaction F s (ptp_request cmd args) PTP_DP_GETDATA 0 [];
     (if ret = PTP_RC_OK then do { v \<leftarrow> unpack (params s') dat; Some (ret, Some v, s') }
      else Some (ret, None, s')) }"

section \<open>Operation codes\<close>

definition PTP_OC_GetDeviceInfo :: u16 where "PTP_OC_GetDeviceInfo = 0x1001"
definition PTP_OC_GetStorageIDs :: u16 where "PTP_OC_GetStorageIDs = 0x1004"
definition PTP_OC_GetStorageInfo :: u16 where "PTP_OC_GetStorageInfo = 0x1005"
definition PTP_OC_GetNumObjects :: u16 where "PTP_OC_GetNumObjects = 0x1006"
definition PTP_OC_GetObjectHandles :: u16 where "PTP_OC_GetObjectHandles = 0x1007"
definition PTP_OC_GetObjectInfo :: u16 where "PTP_OC_GetObjectInfo = 0x1008"
definition PTP_OC_GetObject :: u16 where "PTP_OC_GetObject = 0x1009"
definition PTP_OC_GetThumb :: u16 where "PTP_OC_GetThumb = 0x100A"
definition PTP_OC_DeleteObject :: u16 where "PTP_OC_DeleteObject = 0x100B"
definition PTP_OC_SendObjectInfo :: u16 where "PTP_OC_SendObjectInfo = 0x100C"
definition PTP_OC_SendObject :: u16 where "PTP_OC_SendObject = 0x100D"
definition PTP_OC_GetDevicePropDesc :: u16 where "PTP_OC_GetDevicePropDesc = 0x1014"
definition PTP_OC_GetDevicePropValue :: u16 where "PTP_OC_GetDevicePropValue = 0x1015"
definition PTP_OC_SetDevicePropValue :: u16 where "PTP_OC_SetDevicePropValue = 0x1016"
definition PTP_OC_GetPartialObject :: u16 where "PTP_OC_GetPartialObject = 0x101B"
definition PTP_OC_MTP_GetObjectPropsSupported :: u16 where "PTP_OC_MTP_GetObjectPropsSupported = 0x9801"
definition PTP_OC_MTP_GetObjectPropDesc :: u16 where "PTP_OC_MTP_GetObjectPropDesc = 0x9802"
definition PTP_OC_MTP_GetObjectPropValue :: u16 where "PTP_OC_MTP_GetObjectPropValue = 0x9803"
definition PTP_OC_MTP_SetObjectPropValue :: u16 where "PTP_OC_MTP_SetObjectPropValue = 0x9804"
definition PTP_OC_MTP_GetObjPropList :: u16 where "PTP_OC_MTP_GetObjPropList = 0x9805"
definition PTP_OC_MTP_SetObjPropList :: u16 where "PTP_OC_MTP_SetObjPropList = 0x9806"
definition PTP_OC_MTP_SendObjectPropList :: u16 where "PTP_OC_MTP_SendObjectPropList = 0x9808"
definition PTP_OC_MTP_GetObjectReferences :: u16 where "PTP_OC_MTP_GetObjectReferences = 0x9810"
definition PTP_OC_MTP_SetObjectReferences :: u16 where "PTP_OC_MTP_SetObjectReferences = 0x9811"

section \<open>Device, storages and handles\<close>

text \<open>A device that sends no data gets a general error here; \<open>di\<close> is the caller's struct.\<close>

definition ptp_getdeviceinfo ::
  "'s io_funs \<Rightarrow> 's ptp_session \<Rightarrow> ptp_device_info \<Rightarrow> (u16 \<times> ptp_device_info \<times> 's ptp_session) option" where
  "ptp_getdeviceinfo F s di = do {
     (ret, _, h, s') \<leftarrow> ptp_transaction_new F s (ptp_request PTP_OC_GetDeviceInfo []) PTP_DP_GETDATA 0
        ptp_init_recv_memory_handler;
     (let dat = ptp_exit_recv_memory_handler h;
          ret' = (if dat = [] then PTP_RC_GeneralError else ret)
      in if ret' = PTP_RC_OK
         then do { di' \<leftarrow> ptp_unpack_DI (params s') dat di (length dat); Some (ret', di', s') }
         else Some (ret', di, s')) }"

definition ptp_getstorageids ::
  "'s io_funs \<Rightarrow> 's ptp_session \<Rightarrow> (u16 \<times> u32 list option \<times> 's ptp_session) option" where
  "ptp_getstorageids F s =
     get_dataset F s PTP_OC_GetStorageIDs [] (\<lambda>p dat. ptp_unpack_SIDs p dat (length dat))"

definition ptp_getstorageinfo ::
  "'s io_funs \<Rightarrow> 's ptp_session \<Rightarrow> u32 \<Rightarrow> (u16 \<times> ptp_storage_info option \<times> 's ptp_session) option" where
  "ptp_getstorageinfo F s storageid =
     get_dataset F s PTP_OC_GetStorageInfo [storageid] (\<lambda>p dat. ptp_unpack_SI p dat (length dat))"

text \<open>An error for the query of all handles on all stores counts as no handles.\<close>

definition ptp_getobjecthandles ::
  "'s io_funs \<Rightarrow> 's ptp_session \<Rightarrow> u32 \<Rightarrow> u32 \<Rightarrow> u32 \<Rightarrow> (u16 \<times> u32 list option \<times> 's ptp_session) option" where
  "ptp_getobjecthandles F s storage ofc assoc = do {
     (ret, hs, s') \<leftarrow> get_dataset F s PTP_OC_GetObjectHandles [storage, ofc, assoc]
        (\<lambda>p dat. ptp_unpack_OH p dat (length dat));
     Some (if ret \<noteq> PTP_RC_OK \<and> storage = 0xFFFFFFFF \<and> ofc = 0 \<and> assoc = 0
           then (PTP_RC_OK, Some [], s') else (ret, hs, s')) }"

definition ptp_getnumobjects ::
  "'s io_funs \<Rightarrow> 's ptp_session \<Rightarrow> u32 \<Rightarrow> u32 \<Rightarrow> u32 \<Rightarrow> (u16 \<times> u32 option \<times> 's ptp_session) option" where
  "ptp_getnumobjects F s storage ofc assoc = do {
     (ret, ptp, _, s') \<leftarrow>
       ptp_transaction F s (ptp_request PTP_OC_GetNumObjects [storage, ofc, assoc]) PTP_DP_NODATA 0 [];
     Some (if ret \<noteq> PTP_RC_OK then (ret, None, s')
           else if 1 \<le> Nparam ptp then (ret, Some (Param1 ptp), s')
           else (PTP_RC_GeneralError, None, s')) }"

section \<open>Objects\<close>

definition ptp_getobjectinfo ::
  "(c_tm \<Rightarrow> int) \<Rightarrow> 's io_funs \<Rightarrow> 's ptp_session \<Rightarrow> u32 \<Rightarrow> ptp_object_info \<Rightarrow>
     (u16 \<times> ptp_object_info option \<times> 's ptp_session) option" where
  "ptp_getobjectinfo mktime F s handle info =
     get_dataset F s PTP_OC_GetObjectInfo [handle] (\<lambda>p dat. ptp_unpack_OI mktime p dat info)"

text \<open>The bytes come back whatever the result code is.\<close>

definition ptp_getobject ::
  "'s io_funs \<Rightarrow> 's ptp_session \<Rightarrow> u32 \<Rightarrow> (u16 \<times> byte list \<times> 's ptp_session) option" where
  "ptp_getobject F s handle = do {
     (ret, _, dat, s') \<leftarrow> ptp_transaction F s (ptp_request PTP_OC_GetObject [handle]) PTP_DP_GETDATA 0 [];
     Some (ret, dat, s') }"

definition ptp_getpartialobject ::
  "'s io_funs \<Rightarrow> 's ptp_session \<Rightarrow> u32 \<Rightarrow> u32 \<Rightarrow> u32 \<Rightarrow> (u16 \<times> byte list \<times> 's ptp_session) option" where
  "ptp_getpartialobject F s handle offset maxbytes = do {
     (ret, _, dat, s') \<leftarrow>
       ptp_transaction F s (ptp_request PTP_OC_GetPartialObject [handle, offset, maxbytes]) PTP_DP_GETDATA 0 [];
     Some (ret, dat, s') }"

definition ptp_getthumb ::
  "'s io_funs \<Rightarrow> 's ptp_session \<Rightarrow> u32 \<Rightarrow> (u16 \<times> byte list \<times> 's ptp_session) option" where
  "ptp_getthumb F s handle = do {
     (ret, _, dat, s') \<leftarrow> ptp_transaction F s (ptp_request PTP_OC_GetThumb [handle]) PTP_DP_GETDATA 0 [];
     Some (ret, dat, s') }"

text \<open>A deleted object is dropped from the cache.\<close>

definition ptp_deleteobject ::
  "((ptp_object \<Rightarrow> int) \<Rightarrow> ptp_object list \<Rightarrow> nat option) \<Rightarrow> 's io_funs \<Rightarrow> 's ptp_session \<Rightarrow> ptp_object list \<Rightarrow>
     u32 \<Rightarrow> u32 \<Rightarrow> (u16 \<times> ptp_object list \<times> 's ptp_session) option" where
  "ptp_deleteobject bsearch F s objs handle ofc = do {
     (ret, _, _, s') \<leftarrow> ptp_transaction F s (ptp_request PTP_OC_DeleteObject [handle, ofc]) PTP_DP_NODATA 0 [];
     Some (if ret \<noteq> PTP_RC_OK then (ret, objs, s')
           else (PTP_RC_OK, ptp_remove_object_from_cache bsearch objs handle, s')) }"

text \<open>
  The three words that come back in the container - store, parent handle and handle - are
  copied out whatever the result is: a failed transaction leaves the request in it.
\<close>

definition ptp_sendobjectinfo ::
  "'s io_funs \<Rightarrow> 's ptp_session \<Rightarrow> u32 \<Rightarrow> u32 \<Rightarrow> ptp_object_info \<Rightarrow>
     (u16 \<times> (u32 \<times> u32 \<times> u32) \<times> 's ptp_session) option" where
  "ptp_sendobjectinfo F s store parenthandle info = do {
     (oidata, sz) \<leftarrow> ptp_pack_OI (params s) info;
     (ret, ptp, _, s') \<leftarrow>
       ptp_transaction F s (ptp_request PTP_OC_SendObjectInfo [store, parenthandle]) PTP_DP_SENDDATA sz oidata;
     Some (ret, (Param1 ptp, Param2 ptp, Param3 ptp), s') }"

definition ptp_sendobject ::
  "'s io_funs \<Rightarrow> 's ptp_session \<Rightarrow> byte list \<Rightarrow> u32 \<Rightarrow> (u16 \<times> 's ptp_session) option" where
  "ptp_sendobject F s object sz = do {
     (ret, _, _, s') \<leftarrow> ptp_transaction F s (ptp_request PTP_OC_SendObject []) PTP_DP_SENDDATA (unat sz) object;
     Some (ret, s') }"

section \<open>Device properties\<close>

text \<open>\<open>Some None\<close> of the reader is its return value 0, which these operations ignore.\<close>

definition ptp_getdevicepropdesc ::
  "'s io_funs \<Rightarrow> 's ptp_session \<Rightarrow> u16 \<Rightarrow> (u16 \<times> ptp_device_prop_desc option option \<times> 's ptp_session) option" where
  "ptp_getdevicepropdesc F s propcode =
     get_dataset F s PTP_OC_GetDevicePropDesc [ucast propcode]
       (\<lambda>p dat. ptp_unpack_DPD p dat (of_nat (length dat)))"

definition ptp_getdevicepropvalue ::
  "'s io_funs \<Rightarrow> 's ptp_session \<Rightarrow> u16 \<Rightarrow> ptp_property_value \<Rightarrow> u16 \<Rightarrow>
     (u16 \<times> ptp_property_value option \<times> 's ptp_session) option" where
  "ptp_getdevicepropvalue F s propcode value datatyp =
     get_dataset F s PTP_OC_GetDevicePropValue [ucast propcode]
       (\<lambda>p dat. map_option (\<lambda>(_, _, v). v)
          (ptp_unpack_DPV p dat 0 (sint (of_nat (length dat) :: u32)) value datatyp))"

definition ptp_setdevicepropvalue ::
  "byte list \<Rightarrow> 's io_funs \<Rightarrow> 's ptp_session \<Rightarrow> u16 \<Rightarrow> ptp_property_value \<Rightarrow> u16 \<Rightarrow> (u16 \<times> 's ptp_session) option" where
  "ptp_setdevicepropvalue junk F s propcode value datatyp = do {
     (dpv, sz) \<leftarrow> ptp_pack_DPV (params s) junk value datatyp;
     (ret, _, _, s') \<leftarrow>
       ptp_transaction F s (ptp_request PTP_OC_SetDevicePropValue [ucast propcode]) PTP_DP_SENDDATA (unat sz) dpv;
     Some (ret, s') }"

section \<open>MTP object properties\<close>

definition ptp_mtp_getobjectpropssupported ::
  "'s io_funs \<Rightarrow> 's ptp_session \<Rightarrow> u16 \<Rightarrow> (u16 \<times> u16 list option \<times> 's ptp_session) option" where
  "ptp_mtp_getobjectpropssupported F s ofc =
     get_dataset F s PTP_OC_MTP_GetObjectPropsSupported [ucast ofc]
       (\<lambda>p dat. ptp_unpack_uint16_t_array p dat 0)"

definition ptp_mtp_getobjectpropdesc ::
  "'s io_funs \<Rightarrow> 's ptp_session \<Rightarrow> u16 \<Rightarrow> u16 \<Rightarrow> (u16 \<times> ptp_object_prop_desc option option \<times> 's ptp_session) option" where
  "ptp_mtp_getobjectpropdesc F s opc ofc =
     get_dataset F s PTP_OC_MTP_GetObjectPropDesc [ucast opc, ucast ofc]
       (\<lambda>p dat. ptp_unpack_OPD p dat (of_nat (length dat)))"

definition ptp_mtp_getobjectpropvalue ::
  "'s io_funs \<Rightarrow> 's ptp_session \<Rightarrow> u32 \<Rightarrow> u16 \<Rightarrow> ptp_property_value \<Rightarrow> u16 \<Rightarrow>
     (u16 \<times> ptp_property_value option \<times> 's ptp_session) option" where
  "ptp_mtp_getobjectpropvalue F s objid opc value datatyp =
     get_dataset F s PTP_OC_MTP_GetObjectPropValue [objid, ucast opc]
       (\<lambda>p dat. map_option (\<lambda>(_, _, v). v)
          (ptp_unpack_DPV p dat 0 (sint (of_nat (length dat) :: u32)) value datatyp))"

definition ptp_mtp_setobjectpropvalue ::
  "byte list \<Rightarrow> 's io_funs \<Rightarrow> 's ptp_session \<Rightarrow> u32 \<Rightarrow> u16 \<Rightarrow> ptp_property_value \<Rightarrow> u16 \<Rightarrow>
     (u16 \<times> 's ptp_session) option" where
  "ptp_mtp_setobjectpropvalue junk F s objid opc value datatyp = do {
     (dat, sz) \<leftarrow> ptp_pack_DPV (params s) junk value datatyp;
     (ret, _, _, s') \<leftarrow>
       ptp_transaction F s (ptp_request PTP_OC_MTP_SetObjectPropValue [objid, ucast opc]) PTP_DP_SENDDATA (unat sz) dat;
     Some (ret, s') }"

text \<open>A device that skips the data phase has no references.\<close>

definition ptp_mtp_getobjectreferences ::
  "'s io_funs \<Rightarrow> 's ptp_session \<Rightarrow> u32 \<Rightarrow> (u16 \<times> u32 list option \<times> 's ptp_session) option" where
  "ptp_mtp_getobjectreferences F s handle =
     get_dataset F s PTP_OC_MTP_GetObjectReferences [handle]
       (\<lambda>p dat. if dat = [] then Some [] else ptp_unpack_uint32_t_array p dat 0)"

definition ptp_mtp_setobjectreferences ::
  "'s io_funs \<Rightarrow> 's ptp_session \<Rightarrow> u32 \<Rightarrow> u32 list \<Rightarrow> (u16 \<times> 's ptp_session) option" where
  "ptp_mtp_setobjectreferences F s handle ohArray = do {
     (dpv, sz) \<leftarrow> ptp_pack_uint32_t_array (params s) ohArray;
     (ret, _, _, s') \<leftarrow>
       ptp_transaction F s (ptp_request PTP_OC_MTP_SetObjectReferences [handle]) PTP_DP_SENDDATA (unat sz) dpv;
     Some (ret, s') }"

definition ptp_mtp_getobjectproplist ::
  "((mtp_properties \<Rightarrow> mtp_properties \<Rightarrow> int) \<Rightarrow> mtp_properties list \<Rightarrow> mtp_properties list) \<Rightarrow>
     's io_funs \<Rightarrow> 's ptp_session \<Rightarrow> u32 \<Rightarrow> (u16 \<times> mtp_properties list option \<times> 's ptp_session) option" where
  "ptp_mtp_getobjectproplist qsort F s handle =
     get_dataset F s PTP_OC_MTP_GetObjPropList [handle, 0, 0xFFFFFFFF, 0, 0xFFFFFFFF]
       (\<lambda>p dat. ptp_unpack_OPL qsort p dat (of_nat (length dat)))"

definition ptp_mtp_sendobjectproplist ::
  "byte list \<Rightarrow> 's io_funs \<Rightarrow> 's ptp_session \<Rightarrow> u32 \<Rightarrow> u32 \<Rightarrow> u16 \<Rightarrow> u64 \<Rightarrow> mtp_properties list \<Rightarrow> int \<Rightarrow>
     (u16 \<times> (u32 \<times> u32 \<times> u32) \<times> 's ptp_session) option" where
  "ptp_mtp_sendobjectproplist junk F s store parenthandle objecttype objectsize props nrofprops = do {
     (opldata, oplsize) \<leftarrow> ptp_pack_OPL (params s) junk props nrofprops;
     (ret, ptp, _, s') \<leftarrow> ptp_transaction F s
        (ptp_request PTP_OC_MTP_SendObjectPropList
           [store, parenthandle, ucast objecttype, ucast (drop_bit 32 objectsize), ucast objectsize])
        PTP_DP_SENDDATA (unat oplsize) opldata;
     Some (ret, (Param1 ptp, Param2 ptp, Param3 ptp), s') }"

definition ptp_mtp_setobjectproplist ::
  "byte list \<Rightarrow> 's io_funs \<Rightarrow> 's ptp_session \<Rightarrow> mtp_properties list \<Rightarrow> int \<Rightarrow> (u16 \<times> 's ptp_session) option" where
  "ptp_mtp_setobjectproplist junk F s props nrofprops = do {
     (opldata, oplsize) \<leftarrow> ptp_pack_OPL (params s) junk props nrofprops;
     (ret, _, _, s') \<leftarrow>
       ptp_transaction F s (ptp_request PTP_OC_MTP_SetObjPropList []) PTP_DP_SENDDATA (unat oplsize) opldata;
     Some (ret, s') }"

section \<open>Objects on demand\<close>

definition PTPOBJECT_OBJECTINFO_LOADED :: u32 where "PTPOBJECT_OBJECTINFO_LOADED = 0x01"
definition PTPOBJECT_MTPPROPLIST_LOADED :: u32 where "PTPOBJECT_MTPPROPLIST_LOADED = 0x04"
definition PTPOBJECT_PARENTOBJECT_LOADED :: u32 where "PTPOBJECT_PARENTOBJECT_LOADED = 0x10"
definition PTPOBJECT_STORAGEID_LOADED :: u32 where "PTPOBJECT_STORAGEID_LOADED = 0x20"
definition DEVICE_FLAG_BROKEN_MTPGETOBJPROPLIST :: u32 where "DEVICE_FLAG_BROKEN_MTPGETOBJPROPLIST = 4"

definition info_flags :: u32 where
  "info_flags = PTPOBJECT_OBJECTINFO_LOADED OR PTPOBJECT_STORAGEID_LOADED OR PTPOBJECT_PARENTOBJECT_LOADED"

text \<open>What else of \<open>PTPParams\<close> these functions use: the flags and the description of the device.\<close>

record ptp_device =
  device_flags :: u32
  deviceinfo :: ptp_device_info

definition ptp_operation_issupported :: "ptp_device \<Rightarrow> u16 \<Rightarrow> bool" where
  "ptp_operation_issupported d operation = (operation \<in> set (di_OperationsSupported (deviceinfo d)))"

text \<open>
  The two stages of \<open>ptp_object_want\<close> for the object at position \<open>i\<close>. The first fetches the
  object info (keeping a parent that was already known, and cutting an object that is its
  own parent loose) and drops the object from the cache when it fails; the second fetches
  the property list, where the device can, and gives the flags still wanted.
\<close>

definition load_info :: "u32 \<Rightarrow> ptp_object_info \<Rightarrow> ptp_object \<Rightarrow> ptp_object" where
  "load_info handle info ob =
     (let info1 = (if oi_Filename info = None
                   then info\<lparr>oi_Filename := Some [0x3C, 0x6E, 0x6F, 0x6E, 0x65, 0x3E]\<rparr> else info);
          info2 = (if obj_flags ob AND PTPOBJECT_PARENTOBJECT_LOADED \<noteq> 0
                   then info1\<lparr>oi_ParentObject := oi_ParentObject (oi ob)\<rparr> else info1);
          info3 = (if oi_ParentObject info2 = handle then info2\<lparr>oi_ParentObject := 0\<rparr> else info2)
      in ob\<lparr>oi := info3, obj_flags := obj_flags ob OR info_flags\<rparr>)"

definition want_info ::
  "((ptp_object \<Rightarrow> int) \<Rightarrow> ptp_object list \<Rightarrow> nat option) \<Rightarrow> (c_tm \<Rightarrow> int) \<Rightarrow> 's io_funs \<Rightarrow> 's ptp_session \<Rightarrow>
     ptp_object list \<Rightarrow> nat \<Rightarrow> u32 \<Rightarrow> u32 \<Rightarrow> (u16 \<times> ptp_object list \<times> 's ptp_session) option" where
  "want_info bsearch mktime F s objs i handle want =
     (if want AND info_flags \<noteq> 0 \<and> obj_flags (objs ! i) AND info_flags \<noteq> info_flags then do {
        (ret, info, s') \<leftarrow> ptp_getobjectinfo mktime F s handle (oi (objs ! i));
        (case info of
           None \<Rightarrow> Some (ret, ptp_remove_object_from_cache bsearch objs handle, s')
         | Some got \<Rightarrow> Some (PTP_RC_OK, objs[i := load_info handle got (objs ! i)], s')) }
      else Some (PTP_RC_OK, objs, s))"

definition want_props ::
  "((mtp_properties \<Rightarrow> mtp_properties \<Rightarrow> int) \<Rightarrow> mtp_properties list \<Rightarrow> mtp_properties list) \<Rightarrow>
     ptp_device \<Rightarrow> 's io_funs \<Rightarrow> 's ptp_session \<Rightarrow> ptp_object list \<Rightarrow> nat \<Rightarrow> u32 \<Rightarrow> u32 \<Rightarrow>
     (u32 \<times> ptp_object list \<times> 's ptp_session) option" where
  "want_props qsort d F s objs i handle want =
     (if want AND PTPOBJECT_MTPPROPLIST_LOADED \<noteq> 0 \<and>
         obj_flags (objs ! i) AND PTPOBJECT_MTPPROPLIST_LOADED = 0 then
        (if device_flags d AND DEVICE_FLAG_BROKEN_MTPGETOBJPROPLIST \<noteq> 0 \<or>
            \<not> ptp_operation_issupported d PTP_OC_MTP_GetObjPropList
         then Some (want AND NOT PTPOBJECT_MTPPROPLIST_LOADED, objs, s)
         else do {
           (ret, props, s') \<leftarrow> ptp_mtp_getobjectproplist qsort F s handle;
           (case props of
              None \<Rightarrow> Some (want, objs, s')
            | Some ps \<Rightarrow> Some (want, objs[i := (objs ! i)\<lparr>mtpprops := ps,
                obj_flags := obj_flags (objs ! i) OR PTPOBJECT_MTPPROPLIST_LOADED\<rparr>], s')) })
      else Some (want, objs, s))"

text \<open>The position of the object in the new cache, when the result is OK.\<close>

definition ptp_object_want ::
  "((ptp_object \<Rightarrow> int) \<Rightarrow> ptp_object list \<Rightarrow> nat option) \<Rightarrow> (c_tm \<Rightarrow> int) \<Rightarrow>
     ((mtp_properties \<Rightarrow> mtp_properties \<Rightarrow> int) \<Rightarrow> mtp_properties list \<Rightarrow> mtp_properties list) \<Rightarrow>
     ptp_device \<Rightarrow> 's io_funs \<Rightarrow> 's ptp_session \<Rightarrow> ptp_object list \<Rightarrow> u32 \<Rightarrow> u32 \<Rightarrow>
     (u16 \<times> nat \<times> ptp_object list \<times> 's ptp_session) option" where
  "ptp_object_want bsearch mktime qsort d F s objs handle want =
     (case ptp_object_find_or_insert objs handle of
        None \<Rightarrow> Some (PTP_RC_GeneralError, 0, objs, s)
      | Some (i, objs1) \<Rightarrow>
          if obj_flags (objs1 ! i) AND want = want then Some (PTP_RC_OK, i, objs1, s)
          else do {
            (ret, objs2, s2) \<leftarrow> want_info bsearch mktime F s objs1 i handle want;
            (if ret \<noteq> PTP_RC_OK then Some (ret, i, objs2, s2)
             else do {
               (want', objs3, s3) \<leftarrow> want_props qsort d F s2 objs2 i handle want;
               Some (if obj_flags (objs3 ! i) AND want' = want' then PTP_RC_OK else PTP_RC_GeneralError,
                     i, objs3, s3) }) })"

definition ptp_add_object_to_cache ::
  "((ptp_object \<Rightarrow> int) \<Rightarrow> ptp_object list \<Rightarrow> nat option) \<Rightarrow> (c_tm \<Rightarrow> int) \<Rightarrow>
     ((mtp_properties \<Rightarrow> mtp_properties \<Rightarrow> int) \<Rightarrow> mtp_properties list \<Rightarrow> mtp_properties list) \<Rightarrow>
     ptp_device \<Rightarrow> 's io_funs \<Rightarrow> 's ptp_session \<Rightarrow> ptp_object list \<Rightarrow> u32 \<Rightarrow>
     (u16 \<times> nat \<times> ptp_object list \<times> 's ptp_session) option" where
  "ptp_add_object_to_cache bsearch mktime qsort d F s objs handle =
     ptp_object_want bsearch mktime qsort d F s objs handle
       (PTPOBJECT_OBJECTINFO_LOADED OR PTPOBJECT_MTPPROPLIST_LOADED)"

section \<open>The cache stays in order\<close>

lemma sorted_oids_update: "oid ob = oid (objs ! i) \<Longrightarrow> sorted_oids objs \<Longrightarrow> sorted_oids (objs[i := ob])"
  by (simp add: sorted_oids_def map_update) (metis list_update_id list_update_beyond map_update nth_map not_less)

lemma sorted_oids_remove:
  assumes "sorted_oids objs" and "i \<le> j"
  shows "sorted_oids (take i objs @ drop j objs)"
proof -
  let ?xs = "map oid objs"
  have "sorted_wrt (<) (take i ?xs @ drop i ?xs)" using assms(1) by (simp add: sorted_oids_def)
  moreover have "set (drop j ?xs) \<subseteq> set (drop i ?xs)" using assms(2) by (rule set_drop_subset_set_drop)
  moreover have "sorted_wrt (<) (drop j ?xs)" using assms(1) by (simp only: sorted_wrt_drop sorted_oids_def)
  ultimately have "sorted_wrt (<) (take i ?xs @ drop j ?xs)"
    unfolding sorted_wrt_append by blast
  then show ?thesis by (simp add: sorted_oids_def take_map drop_map)
qed

lemma remove_keeps_order:
  "sorted_oids objs \<Longrightarrow> sorted_oids (ptp_remove_object_from_cache bsearch objs handle)"
  by (simp add: ptp_remove_object_from_cache_def sorted_oids_remove split: option.split)

text \<open>Steps of \<open>ptp_object_want\<close>: an update that keeps the handle, or a removal.\<close>

lemma load_info_oid [simp]: "oid (load_info handle info ob) = oid ob"
  by (simp add: load_info_def Let_def)

lemma get_dataset_ret: "get_dataset F s cmd args unpack = Some (ret, v, s') \<Longrightarrow> v = None \<longleftrightarrow> ret \<noteq> PTP_RC_OK"
  by (auto simp: get_dataset_def bind_eq_Some_conv split: if_splits)

lemma oid_update: "oid ob = oid (objs ! i) \<Longrightarrow> oid (objs[i := ob] ! j) = oid (objs ! j)"
  by (cases "i < length objs") (auto simp: nth_list_update list_update_beyond)

lemma want_info_keeps:
  assumes "want_info bsearch mktime F s objs i handle want = Some (ret, objs', s')" and "sorted_oids objs"
  shows "sorted_oids objs' \<and> (ret = PTP_RC_OK \<longrightarrow> length objs' = length objs \<and> oid (objs' ! i) = oid (objs ! i))"
proof (cases "want AND info_flags \<noteq> 0 \<and> obj_flags (objs ! i) AND info_flags \<noteq> info_flags")
  case True
  then obtain ret1 info s1 where g: "ptp_getobjectinfo mktime F s handle (oi (objs ! i)) = Some (ret1, info, s1)"
    using assms(1) by (auto simp: want_info_def bind_eq_Some_conv)
  note ret1 = get_dataset_ret [OF g [unfolded ptp_getobjectinfo_def]]
  show ?thesis
  proof (cases info)
    case None
    then show ?thesis using assms True g ret1 by (auto simp: want_info_def remove_keeps_order)
  next
    case (Some got)
    then have "objs' = objs[i := load_info handle got (objs ! i)]" using assms True g by (simp add: want_info_def)
    then show ?thesis using assms(2) by (simp add: sorted_oids_update oid_update)
  qed
next
  case False
  then have "objs' = objs" using assms(1) by (auto simp: want_info_def)
  then show ?thesis using assms(2) by simp
qed

lemma want_props_keeps:
  assumes "want_props qsort d F s objs i handle want = Some (want', objs', s')" and "sorted_oids objs"
  shows "sorted_oids objs' \<and> length objs' = length objs \<and> oid (objs' ! i) = oid (objs ! i) \<and>
    (want' = want \<or> want' = want AND NOT PTPOBJECT_MTPPROPLIST_LOADED)"
  using assms
  by (auto simp: want_props_def bind_eq_Some_conv sorted_oids_update oid_update
      split: if_splits option.splits)

text \<open>
  Fetching an object on demand keeps the cache in order of the handles whatever
  the device answers - also when the object could not be fetched and is dropped again -
  and a result OK comes with the position of the object with this handle, with every flag
  asked for set, but for the property list of a device that has none.
\<close>

theorem ptp_object_want_keeps_order:
  assumes "sorted_oids objs"
    and "ptp_object_want bsearch mktime qsort d F s objs handle want = Some (ret, i, objs', s')"
  shows "sorted_oids objs' \<and>
    (ret = PTP_RC_OK \<longrightarrow> i < length objs' \<and> oid (objs' ! i) = handle \<and>
       (\<exists>want' \<in> {want, want AND NOT PTPOBJECT_MTPPROPLIST_LOADED}. obj_flags (objs' ! i) AND want' = want'))"
proof (cases "ptp_object_find_or_insert objs handle")
  case None
  then show ?thesis using assms by (simp add: ptp_object_want_def)
next
  case (Some r)
  obtain j objs1 where r: "r = (j, objs1)" by fastforce
  have "handle \<noteq> 0" using Some by (auto simp: ptp_object_find_or_insert_def)
  from ptp_object_find_or_insert_ok [OF assms(1) this, of j objs1] Some r
  have ok1: "sorted_oids objs1" "j < length objs1" "oid (objs1 ! j) = handle" by auto
  show ?thesis
  proof (cases "obj_flags (objs1 ! j) AND want = want")
    case True
    then show ?thesis using assms(2) Some r ok1 by (auto simp: ptp_object_want_def)
  next
    case False
    note missing = this
    then obtain ret2 objs2 s2 where w: "want_info bsearch mktime F s objs1 j handle want = Some (ret2, objs2, s2)"
      using assms(2) Some r by (auto simp: ptp_object_want_def bind_eq_Some_conv)
    note k2 = want_info_keeps [OF w ok1(1)]
    show ?thesis
    proof (cases "ret2 = PTP_RC_OK")
      case False
      then show ?thesis using assms(2) Some r w k2 missing by (auto simp: ptp_object_want_def split: if_splits)
    next
      case True
      then obtain want' s3 where p: "want_props qsort d F s2 objs2 j handle want = Some (want', objs', s3)"
        and res: "ret = (if obj_flags (objs' ! j) AND want' = want' then PTP_RC_OK else PTP_RC_GeneralError)" "i = j"
        using assms(2) Some r w missing
        by (auto simp: ptp_object_want_def bind_eq_Some_conv)
      show ?thesis
        using want_props_keeps [OF p] k2 True ok1 res by (auto split: if_splits)
    qed
  qed
qed

lemma script_get_dataset:
  assumes "sc_replies (io_dev (io s)) = []" and "sc_data (io_dev (io s)) = d # ds"
  shows "get_dataset script_funs s cmd args unpack =
     do { v \<leftarrow> unpack (params s) d; Some (PTP_RC_OK, Some v, script_after s (ptp_request cmd args) [] ds) }"
  using assms by (simp add: get_dataset_def script_transaction_get)

definition sample_device :: ptp_device where
  "sample_device = \<lparr>device_flags = 0, deviceinfo = sample_di\<rparr>"

theorem ptp_object_want_keeps_order_witness:
  "\<exists>i objs' s'. ptp_object_want linear_search (\<lambda>_. 0) isort sample_device script_funs (script_session 0 [] [])
       [new_ptp_object 2, (new_ptp_object 5)\<lparr>obj_flags := 0x31\<rparr>, new_ptp_object 9] 5 PTPOBJECT_MTPPROPLIST_LOADED =
     Some (PTP_RC_OK, i, objs', s') \<and> sorted_oids objs' \<and> i < length objs' \<and> oid (objs' ! i) = 5"
proof -
  let ?objs = "[new_ptp_object 2, (new_ptp_object 5)\<lparr>obj_flags := 0x31\<rparr>, new_ptp_object 9]"
  let ?w = "ptp_object_want linear_search (\<lambda>_. 0) isort sample_device script_funs (script_session 0 [] [])
       ?objs 5 PTPOBJECT_MTPPROPLIST_LOADED"
  have "\<exists>i objs' s'. ?w = Some (PTP_RC_OK, i, objs', s')"
    by (simp add: ptp_object_want_def ptp_object_find_or_insert_def search_loop.simps want_info_def want_props_def
        new_ptp_object_def Let_def info_flags_def sample_device_def ptp_operation_issupported_def sample_di_def
        PTP_OC_MTP_GetObjPropList_def
        PTPOBJECT_OBJECTINFO_LOADED_def PTPOBJECT_MTPPROPLIST_LOADED_def PTPOBJECT_PARENTOBJECT_LOADED_def
        PTPOBJECT_STORAGEID_LOADED_def)
  then obtain i objs' s' where w: "?w = Some (PTP_RC_OK, i, objs', s')" by blast
  have "sorted_oids ?objs" by (simp add: sorted_oids_def new_ptp_object_def)
  from ptp_object_want_keeps_order [OF this w] w show ?thesis by blast
qed

end
