(* ===== verification/Ptp_Events.thy ===== *)
theory Ptp_Events
  imports Ptp_Ops
begin

text \<open>
  The events of \<open>src/src/ptp.c\<close>: a device is polled for events, through a command of its vendor
  or through the transport, and what it reports is queued in \<open>PTPParams\<close> until it is taken out.
\<close>

section \<open>The queue\<close>

text \<open>
  A first in, first out queue: \<open>contents\<close> is what is in it, \<open>push\<close> puts a list behind it, \<open>pop\<close>
  takes the first one out.
\<close>

locale fifo =
  fixes contents :: "'q \<Rightarrow> 'e list"
    and push :: "'q \<Rightarrow> 'e list \<Rightarrow> 'q"
    and pop :: "'q \<Rightarrow> ('e \<times> 'q) option"
  assumes push_contents: "contents (push q es) = contents q @ es"
    and pop_empty: "contents q = [] \<Longrightarrow> pop q = None"
    and pop_first: "contents q = e # es \<Longrightarrow> \<exists>q'. pop q = Some (e, q') \<and> contents q' = es"
begin

text \<open>Pushes (\<open>Some es\<close>) and pops (\<open>None\<close>) in any order; the result is what was taken out.\<close>

fun serve :: "'e list option list \<Rightarrow> 'q \<Rightarrow> 'e list \<times> 'q" where
  "serve [] q = ([], q)"
| "serve (Some es # ops) q = serve ops (push q es)"
| "serve (None # ops) q =
     (case pop q of
        None \<Rightarrow> serve ops q
      | Some (e, q') \<Rightarrow> (case serve ops q' of (out, q'') \<Rightarrow> (e # out, q'')))"

lemma serve_in_order:
  "fst (serve ops q) @ contents (snd (serve ops q)) =
     contents q @ concat (map (\<lambda>p. case p of None \<Rightarrow> [] | Some es \<Rightarrow> es) ops)"
proof (induction ops q rule: serve.induct)
  case (3 ops q)
  show ?case
  proof (cases "contents q")
    case Nil
    with 3(1) pop_empty [OF Nil] show ?thesis by simp
  next
    case (Cons e es)
    from pop_first [OF Cons] obtain q' where q': "pop q = Some (e, q')" "contents q' = es" by blast
    with 3(2) [OF q'(1)] Cons show ?thesis
      by (cases "serve ops q'") simp
  qed
qed (simp_all add: push_contents)

end

text \<open>\<open>events\<close> and \<open>nrofevents\<close> of \<open>PTPParams\<close> are one list.\<close>

type_synonym event_queue = "ptp_container list"

definition ptp_get_one_event :: "event_queue \<Rightarrow> (ptp_container \<times> event_queue) option" where
  "ptp_get_one_event q = (case q of [] \<Rightarrow> None | e # es \<Rightarrow> Some (e, es))"

definition store_events :: "event_queue \<Rightarrow> ptp_container list \<Rightarrow> event_queue" where
  "store_events q es = q @ es"

interpretation events: fifo "\<lambda>q. q" store_events ptp_get_one_event
  by unfold_locales (auto simp: store_events_def ptp_get_one_event_def)

section \<open>Events in the data of a command\<close>

definition PTP_VENDOR_NIKON :: u32 where "PTP_VENDOR_NIKON = 0x0000000A"
definition PTP_VENDOR_CANON :: u32 where "PTP_VENDOR_CANON = 0x0000000B"
definition PTP_OC_NIKON_CheckEvent :: u16 where "PTP_OC_NIKON_CheckEvent = 0x90C7"
definition PTP_OC_CANON_CheckEvent :: u16 where "PTP_OC_CANON_CheckEvent = 0x9013"
definition PTP_ERROR_TIMEOUT :: u16 where "PTP_ERROR_TIMEOUT = 0x02FA"
definition PTP_nikon_ec_Length :: nat where "PTP_nikon_ec_Length = 0"
definition PTP_nikon_ec_Code :: nat where "PTP_nikon_ec_Code = 2"
definition PTP_nikon_ec_Param1 :: nat where "PTP_nikon_ec_Param1 = 4"
definition PTP_nikon_ec_Size :: nat where "PTP_nikon_ec_Size = 6"

lemmas nikon_ec_defs = PTP_nikon_ec_Length_def PTP_nikon_ec_Code_def PTP_nikon_ec_Param1_def PTP_nikon_ec_Size_def

text \<open>
  The containers, \<open>None\<close> for a NULL pointer, and the count, which is stored even when it is
  found to be broken. One byte of data is read past its end only when it is shorter than
  the count; \<open>data\<close> is NULL exactly when it is empty.
\<close>

definition ptp_unpack_Nikon_EC :: "ptp_params \<Rightarrow> byte list \<Rightarrow> (ptp_container list option \<times> nat) option" where
  "ptp_unpack_Nikon_EC P data =
     (if data = [] \<or> length data < PTP_nikon_ec_Code then Some (None, 0)
      else do {
        cnt_w \<leftarrow> dtoh16a P data PTP_nikon_ec_Length;
        let cnt = unat cnt_w;
        (if (length data - PTP_nikon_ec_Code) div PTP_nikon_ec_Size < cnt \<or> cnt = 0 then Some (None, cnt)
         else do {
           ecs \<leftarrow> mapM (\<lambda>i. do {
             code \<leftarrow> dtoh16a P data (PTP_nikon_ec_Code + PTP_nikon_ec_Size * i);
             p1 \<leftarrow> dtoh32a P data (PTP_nikon_ec_Param1 + PTP_nikon_ec_Size * i);
             Some (ptp_container_zero\<lparr>Code := code, Param1 := p1, Nparam := 1\<rparr>) }) [0..<cnt];
           Some (Some ecs, cnt) }) })"

definition ptp_nikon_check_event ::
  "'s io_funs \<Rightarrow> 's ptp_session \<Rightarrow> (u16 \<times> ptp_container list option \<times> nat \<times> 's ptp_session) option" where
  "ptp_nikon_check_event F s = do {
     (ret, _, dat, s') \<leftarrow> ptp_transaction F s (ptp_request PTP_OC_NIKON_CheckEvent []) PTP_DP_GETDATA 0 [];
     (if ret = PTP_RC_OK then do {
        (ecs, cnt) \<leftarrow> ptp_unpack_Nikon_EC (params s') dat;
        Some (ret, ecs, cnt, s') }
      else Some (ret, None, 0, s')) }"

text \<open>\<open>None\<close> of the event: there was none.\<close>

definition ptp_canon_checkevent ::
  "'s io_funs \<Rightarrow> 's ptp_session \<Rightarrow> (u16 \<times> ptp_container option \<times> 's ptp_session) option" where
  "ptp_canon_checkevent F s = do {
     (ret, _, dat, s') \<leftarrow> ptp_transaction F s (ptp_request PTP_OC_CANON_CheckEvent []) PTP_DP_GETDATA 0 [];
     (if dat \<noteq> [] \<and> ret = PTP_RC_OK then do {
        ec \<leftarrow> ptp_unpack_EC (params s') dat;
        Some (ret, Some ec, s') }
      else Some (ret, None, s')) }"

section \<open>Polling\<close>

text \<open>
  \<open>check\<close> is the function \<open>event_check\<close> of the transport; \<open>junk\<close> is the container on the
  stack that it is given to fill. A broken count of a Nikon device has no containers to
  copy: \<open>None\<close>.
\<close>

definition ptp_check_event ::
  "'s io_funs \<Rightarrow> (u32 \<Rightarrow> 's ptp_io \<Rightarrow> ptp_container \<Rightarrow> (u16 \<times> ptp_container \<times> 's ptp_io) option) \<Rightarrow>
     ptp_device \<Rightarrow> int \<Rightarrow> ptp_container \<Rightarrow> event_queue \<Rightarrow> 's ptp_session \<Rightarrow>
     (u16 \<times> event_queue \<times> 's ptp_session) option" where
  "ptp_check_event F check d canon_event_mode junk q s =
     (let transport = (\<lambda>s1. do {
            (ret, ev, io1) \<leftarrow> check (session_id s1) (io s1) junk;
            Some (if ret = PTP_RC_OK then (ret, store_events q [ev], s1\<lparr>io := io1\<rparr>)
                  else if ret = PTP_ERROR_TIMEOUT then (PTP_RC_OK, q, s1\<lparr>io := io1\<rparr>)
                  else (ret, q, s1\<lparr>io := io1\<rparr>)) })
      in if di_VendorExtensionID (deviceinfo d) = PTP_VENDOR_NIKON \<and>
            ptp_operation_issupported d PTP_OC_NIKON_CheckEvent then do {
           (ret, ecs, cnt, s1) \<leftarrow> ptp_nikon_check_event F s;
           (if ret \<noteq> PTP_RC_OK then Some (ret, q, s1)
            else if cnt = 0 then Some (PTP_RC_OK, q, s1)
            else do { es \<leftarrow> ecs; Some (PTP_RC_OK, store_events q es, s1) }) }
         else if di_VendorExtensionID (deviceinfo d) = PTP_VENDOR_CANON \<and>
                 ptp_operation_issupported d PTP_OC_CANON_CheckEvent then do {
           (ret, ec, s1) \<leftarrow> ptp_canon_checkevent F s;
           (if ret \<noteq> PTP_RC_OK then Some (ret, q, s1)
            else case ec of
              Some ev \<Rightarrow> Some (ret, store_events q [ev], s1)
            | None \<Rightarrow> if 5 < canon_event_mode then Some (ret, q, s1) else transport s1) }
         else transport s)"

definition ptp_event_issupported :: "ptp_device \<Rightarrow> u16 \<Rightarrow> bool" where
  "ptp_event_issupported d event = (event \<in> set (di_EventsSupported (deviceinfo d)))"

definition ptp_property_issupported :: "ptp_device \<Rightarrow> u16 \<Rightarrow> bool" where
  "ptp_property_issupported d property = (property \<in> set (di_DevicePropertiesSupported (deviceinfo d)))"

section \<open>What polling does\<close>

text \<open>Polling never takes events out of the queue, nor changes those that are in it.\<close>

lemma check_event_appends:
  assumes "ptp_check_event F check d m junk q s = Some (ret, q', s')"
  shows "\<exists>es. q' = q @ es \<and> (ret \<noteq> PTP_RC_OK \<longrightarrow> es = [])"
  using assms
  by (auto simp: ptp_check_event_def store_events_def Let_def bind_eq_Some_conv split: if_splits option.splits)

text \<open>A Nikon device whose count is larger than its data is copied from a NULL pointer.\<close>

lemma nikon_broken_count_undefined:
  assumes "ptp_nikon_check_event F s = Some (PTP_RC_OK, ecs, cnt, s1)" and "ecs = None" and "cnt \<noteq> 0"
    and "di_VendorExtensionID (deviceinfo d) = PTP_VENDOR_NIKON"
    and "ptp_operation_issupported d PTP_OC_NIKON_CheckEvent"
  shows "ptp_check_event F check d m junk q s = None"
  using assms by (simp add: ptp_check_event_def)

text \<open>The containers of a Nikon device, as they are in its data.\<close>

lemma nikon_events_decoded:
  assumes "2 + 6 * cnt \<le> length data" and "dtoh16a P data 0 = Some (of_nat cnt)" and "cnt < 2 ^ 16"
  shows "\<exists>ecs. ptp_unpack_Nikon_EC P data = Some (ecs, cnt) \<and> (cnt \<noteq> 0 \<longrightarrow>
    (\<exists>es. ecs = Some es \<and> length es = cnt \<and> (\<forall>i < cnt. Some (Code (es ! i)) = dtoh16a P data (2 + 6 * i) \<and>
       Some (Param1 (es ! i)) = dtoh32a P data (4 + 6 * i))))"
proof -
  let ?ec = "\<lambda>i. do { code \<leftarrow> dtoh16a P data (2 + 6 * i); p1 \<leftarrow> dtoh32a P data (4 + 6 * i);
    Some (ptp_container_zero\<lparr>Code := code, Param1 := p1, Nparam := 1\<rparr>) }"
  have ne: "data \<noteq> []" "\<not> length data < 2" using assms(1) by auto
  have cnt: "unat (of_nat cnt :: u16) = cnt" using assms(3) by (simp add: unat_of_nat)
  have fits: "\<not> (length data - 2) div 6 < cnt" using assms(1) by (simp add: not_less less_eq_div_iff_mult_less_eq)
  have "mapM ?ec [0..<cnt] \<noteq> None"
  proof
    assume "mapM ?ec [0..<cnt] = None"
    then obtain i where "i < cnt" "dtoh16a P data (2 + 6 * i) = None \<or> dtoh32a P data (4 + 6 * i) = None"
      by (auto simp: mapM_eq_None_iff bind_eq_None_conv)
    with assms(1) show False by (auto simp: buf_simps)
  qed
  then obtain es where es: "mapM ?ec [0..<cnt] = Some es" by blast
  then have "length es = cnt" and ec: "i < cnt \<Longrightarrow> ?ec i = Some (es ! i)" for i
    by (simp_all add: mapM_eq_Some_iff)
  have dec: "Some (Code (es ! i)) = dtoh16a P data (2 + 6 * i) \<and>
      Some (Param1 (es ! i)) = dtoh32a P data (4 + 6 * i)" if "i < cnt" for i
    using ec [OF that] by (cases "es ! i") (auto simp: bind_eq_Some_conv ptp_container_zero_def)
  show ?thesis
  proof (cases "cnt = 0")
    case True
    with ne fits assms(2) show ?thesis by (simp add: ptp_unpack_Nikon_EC_def nikon_ec_defs)
  next
    case False
    with ne fits assms(2) es cnt have "ptp_unpack_Nikon_EC P data = Some (Some es, cnt)"
      by (simp add: ptp_unpack_Nikon_EC_def nikon_ec_defs)
    with \<open>length es = cnt\<close> dec show ?thesis by blast
  qed
qed

end
