(* ===== verification/Ptp_Canon.thy ===== *)
theory Ptp_Canon
  imports Ptp_Cache
begin

text \<open>
  The directory of a Canon camera (\<open>ptp_unpack_canon_directory\<close> of \<open>src/src/ptp-pack.c\<close>): a table
  of entries of 76 bytes, one per storage and one per object, linked by ids. Only the entry of a
  storage has a storage id; the function hands it down the links to the objects. The main
  result is that this ends for every table and gives an object the id of a storage
  exactly when the links lead to it.
\<close>

section \<open>The table\<close>

definition NO_ID :: u32 where "NO_ID = 0xFFFFFFFF"

definition ptp_canon_dir_ofc :: nat where "ptp_canon_dir_ofc = 0x02"
definition ptp_canon_dir_objectid :: nat where "ptp_canon_dir_objectid = 0x08"
definition ptp_canon_dir_parentid :: nat where "ptp_canon_dir_parentid = 0x0c"
definition ptp_canon_dir_nextid :: nat where "ptp_canon_dir_nextid = 0x14"
definition ptp_canon_dir_nextchild :: nat where "ptp_canon_dir_nextchild = 0x18"
definition ptp_canon_dir_storageid :: nat where "ptp_canon_dir_storageid = 0x1c"
definition ptp_canon_dir_name :: nat where "ptp_canon_dir_name = 0x20"
definition ptp_canon_dir_flags :: nat where "ptp_canon_dir_flags = 0x2c"
definition ptp_canon_dir_size :: nat where "ptp_canon_dir_size = 0x30"
definition ptp_canon_dir_unixtime :: nat where "ptp_canon_dir_unixtime = 0x34"
definition ptp_canon_dir_thumbsize :: nat where "ptp_canon_dir_thumbsize = 0x40"
definition ptp_canon_dir_width :: nat where "ptp_canon_dir_width = 0x44"
definition ptp_canon_dir_height :: nat where "ptp_canon_dir_height = 0x48"

lemmas canon_dir_defs = ptp_canon_dir_ofc_def ptp_canon_dir_objectid_def ptp_canon_dir_parentid_def
  ptp_canon_dir_nextid_def ptp_canon_dir_nextchild_def ptp_canon_dir_storageid_def ptp_canon_dir_name_def
  ptp_canon_dir_flags_def ptp_canon_dir_size_def ptp_canon_dir_unixtime_def ptp_canon_dir_thumbsize_def
  ptp_canon_dir_width_def ptp_canon_dir_height_def

text \<open>\<open>i*0x4c\<close> is a product of 32 bits.\<close>

definition canon_entry :: "nat \<Rightarrow> nat" where
  "canon_entry i = (i * 0x4c) mod 2 ^ 32"

text \<open>
  The ids of an entry. The loops of the source read them again and again; all of them are read
  at least once whatever the table holds, so an entry that is not in the data is a
  fault either way.
\<close>

record canon_link =
  cl_oid :: u32
  cl_next :: u32
  cl_child :: u32
  cl_storage :: u32

definition canon_link_at :: "'p ptp_params_scheme \<Rightarrow> byte list \<Rightarrow> nat \<Rightarrow> canon_link option" where
  "canon_link_at P dir i = do {
     sid \<leftarrow> dtoh32a P dir (canon_entry i + ptp_canon_dir_storageid);
     ob \<leftarrow> dtoh32a P dir (canon_entry i + ptp_canon_dir_objectid);
     nxt \<leftarrow> dtoh32a P dir (canon_entry i + ptp_canon_dir_nextid);
     child \<leftarrow> dtoh32a P dir (canon_entry i + ptp_canon_dir_nextchild);
     Some \<lparr>cl_oid = ob, cl_next = nxt, cl_child = child, cl_storage = sid\<rparr> }"

definition ISOBJECT :: "canon_link \<Rightarrow> bool" where
  "ISOBJECT l = (cl_storage l = NO_ID)"

text \<open>The first pass: the info of an object, without its storage, and its flags.\<close>

definition canon_object_at ::
  "'p ptp_params_scheme \<Rightarrow> byte list \<Rightarrow> nat \<Rightarrow> (ptp_object_info \<times> u32) option" where
  "canon_object_at P dir i = (let cur = canon_entry i in do {
     ofc \<leftarrow> dtoh16a P dir (cur + ptp_canon_dir_ofc);
     parent \<leftarrow> dtoh32a P dir (cur + ptp_canon_dir_parentid);
     name \<leftarrow> string_at dir (cur + ptp_canon_dir_name);
     sz \<leftarrow> dtoh32a P dir (cur + ptp_canon_dir_size);
     thumb \<leftarrow> dtoh32a P dir (cur + ptp_canon_dir_thumbsize);
     width \<leftarrow> dtoh32a P dir (cur + ptp_canon_dir_width);
     height \<leftarrow> dtoh32a P dir (cur + ptp_canon_dir_height);
     unixtime \<leftarrow> dtoh32a P dir (cur + ptp_canon_dir_unixtime);
     flags \<leftarrow> dtoh32a P dir (cur + ptp_canon_dir_flags);
     Some (ptp_object_info_zero\<lparr>oi_StorageID := NO_ID, oi_ObjectFormat := ofc, oi_ParentObject := parent,
             oi_Filename := Some name, oi_ObjectCompressedSize := sz, oi_ThumbCompressedSize := thumb,
             oi_ImagePixWidth := width, oi_ImagePixHeight := height,
             oi_CaptureDate := uint unixtime, oi_ModificationDate := uint unixtime\<rparr>,
           flags) })"

section \<open>Handing down the storages\<close>

text \<open>The position of a handle; the storage ids of the objects, in the order of the handles.\<close>

definition handle_pos :: "u32 list \<Rightarrow> u32 \<Rightarrow> nat option" where
  "handle_pos hs h = List.find (\<lambda>j. hs ! j = h) [0..<length hs]"

definition seed :: "u32 list \<Rightarrow> canon_link \<Rightarrow> u32 list \<Rightarrow> u32 list" where
  "seed hs l sids =
     (if ISOBJECT l then sids
      else case handle_pos hs (cl_child l) of None \<Rightarrow> sids | Some j \<Rightarrow> sids[j := cl_storage l])"

text \<open>\<open>changed\<close> and the ids; an object that has a storage keeps it.\<close>

definition hand_to :: "nat \<Rightarrow> u32 \<Rightarrow> nat \<times> u32 list \<Rightarrow> nat \<times> u32 list" where
  "hand_to k sid st =
     (if snd st ! k = NO_ID then (fst st + 1, (snd st)[k := sid]) else st)"

text \<open>A next object that is not in the table ends the work on this entry, its child included.\<close>

definition hand_to_child :: "u32 list \<Rightarrow> canon_link \<Rightarrow> u32 \<Rightarrow> nat \<times> u32 list \<Rightarrow> nat \<times> u32 list" where
  "hand_to_child hs l sid st =
     (if cl_child l = NO_ID then st
      else case handle_pos hs (cl_child l) of None \<Rightarrow> st | Some k \<Rightarrow> hand_to k sid st)"

definition hand_down :: "u32 list \<Rightarrow> canon_link \<Rightarrow> nat \<times> u32 list \<Rightarrow> nat \<times> u32 list" where
  "hand_down hs l st =
     (if \<not> ISOBJECT l then st
      else case handle_pos hs (cl_oid l) of
        None \<Rightarrow> st
      | Some j \<Rightarrow>
          (let sid = snd st ! j
           in if sid = NO_ID then st
              else if cl_next l = NO_ID then hand_to_child hs l sid st
              else case handle_pos hs (cl_next l) of
                     None \<Rightarrow> st
                   | Some k \<Rightarrow> hand_to_child hs l sid (hand_to k sid st)))"

text \<open>The loop ends when a pass changes nothing, or all objects but one.\<close>

partial_function (option) distribute :: "u32 list \<Rightarrow> canon_link list \<Rightarrow> u32 list \<Rightarrow> u32 list option" where
  "distribute hs links sids =
     (case fold (hand_down hs) links (0, sids) of
        (changed, sids') \<Rightarrow>
          if changed = 0 \<or> changed + 1 = length hs then Some sids' else distribute hs links sids')"

definition ptp_unpack_canon_directory ::
  "'p ptp_params_scheme \<Rightarrow> byte list \<Rightarrow> u32 \<Rightarrow> (u32 list \<times> ptp_object_info list \<times> u32 list) option" where
  "ptp_unpack_canon_directory P dir cnt = do {
     links \<leftarrow> mapM (canon_link_at P dir) [0..<unat cnt];
     obs \<leftarrow> mapM (canon_object_at P dir) (filter (\<lambda>i. ISOBJECT (links ! i)) [0..<unat cnt]);
     let hs = map cl_oid (filter ISOBJECT links);
     sids \<leftarrow> distribute hs links (fold (seed hs) links (replicate (length hs) NO_ID));
     Some (hs, map2 (\<lambda>ob sid. (fst ob)\<lparr>oi_StorageID := sid\<rparr>) obs sids, map snd obs) }"

section \<open>Where the links lead\<close>

text \<open>The objects an entry hands its storage to.\<close>

definition leads :: "u32 list \<Rightarrow> canon_link \<Rightarrow> nat \<Rightarrow> bool" where
  "leads hs l k \<longleftrightarrow> ISOBJECT l \<and>
     (cl_next l \<noteq> NO_ID \<and> handle_pos hs (cl_next l) = Some k \<or>
      cl_child l \<noteq> NO_ID \<and> handle_pos hs (cl_child l) = Some k \<and>
        (cl_next l = NO_ID \<or> handle_pos hs (cl_next l) \<noteq> None))"

inductive storage_reaches :: "u32 list \<Rightarrow> canon_link list \<Rightarrow> u32 \<Rightarrow> nat \<Rightarrow> bool"
  for hs links where
  root: "l \<in> set links \<Longrightarrow> \<not> ISOBJECT l \<Longrightarrow> handle_pos hs (cl_child l) = Some j \<Longrightarrow>
    storage_reaches hs links (cl_storage l) j"
| link: "storage_reaches hs links s i \<Longrightarrow> l \<in> set links \<Longrightarrow> handle_pos hs (cl_oid l) = Some i \<Longrightarrow>
    leads hs l k \<Longrightarrow> storage_reaches hs links s k"

lemma handle_pos_Some: "handle_pos hs h = Some j \<Longrightarrow> j < length hs \<and> hs ! j = h"
  by (auto simp: handle_pos_def find_Some_iff)

lemma reaches_not_NO_ID: "storage_reaches hs links s j \<Longrightarrow> s \<noteq> NO_ID"
  by (induction rule: storage_reaches.induct) (auto simp: ISOBJECT_def)

lemma leads_in_range: "leads hs l k \<Longrightarrow> k < length hs"
  by (auto simp: leads_def dest: handle_pos_Some)

definition storages_sound :: "u32 list \<Rightarrow> canon_link list \<Rightarrow> u32 list \<Rightarrow> bool" where
  "storages_sound hs links sids \<longleftrightarrow> length sids = length hs \<and>
     (\<forall>j < length hs. sids ! j \<noteq> NO_ID \<longrightarrow> storage_reaches hs links (sids ! j) j)"

definition unassigned :: "u32 list \<Rightarrow> nat" where
  "unassigned sids = length (filter (\<lambda>s. s = NO_ID) sids)"

definition keeps_assigned :: "u32 list \<Rightarrow> u32 list \<Rightarrow> bool" where
  "keeps_assigned sids sids' \<longleftrightarrow> length sids' = length sids \<and> (\<forall>j < length sids. sids ! j \<noteq> NO_ID \<longrightarrow> sids' ! j \<noteq> NO_ID)"

lemma keeps_assigned_refl [simp]: "keeps_assigned sids sids"
  by (simp add: keeps_assigned_def)

lemma keeps_assigned_trans: "keeps_assigned a b \<Longrightarrow> keeps_assigned b c \<Longrightarrow> keeps_assigned a c"
  by (simp add: keeps_assigned_def)

lemma storages_sound_update:
  "storages_sound hs links sids \<Longrightarrow> storage_reaches hs links s j \<Longrightarrow> storages_sound hs links (sids[j := s])"
  by (auto simp: storages_sound_def nth_update)

lemma unassigned_update:
  "k < length sids \<Longrightarrow> sids ! k = NO_ID \<Longrightarrow> s \<noteq> NO_ID \<Longrightarrow> Suc (unassigned (sids[k := s])) = unassigned sids"
proof (induction sids arbitrary: k)
  case (Cons x xs)
  then show ?case by (cases k) (auto simp: unassigned_def)
qed simp

section \<open>The seeds\<close>

lemma seed_sound: "l \<in> set links \<Longrightarrow> storages_sound hs links sids \<Longrightarrow> storages_sound hs links (seed hs l sids)"
  by (auto simp: seed_def split: option.split intro: storages_sound_update storage_reaches.root)

lemma seed_keeps: "keeps_assigned sids (seed hs l sids)"
  by (auto simp: seed_def keeps_assigned_def nth_update ISOBJECT_def split: option.split)

lemma seed_assigns:
  "\<not> ISOBJECT l \<Longrightarrow> handle_pos hs (cl_child l) = Some j \<Longrightarrow> length sids = length hs \<Longrightarrow> seed hs l sids ! j \<noteq> NO_ID"
  by (auto simp: seed_def ISOBJECT_def dest: handle_pos_Some)

lemma seeds_sound:
  "set ls \<subseteq> set links \<Longrightarrow> storages_sound hs links sids \<Longrightarrow> storages_sound hs links (fold (seed hs) ls sids)"
  by (induction ls arbitrary: sids) (auto intro: seed_sound)

lemma seeds_keep: "keeps_assigned sids (fold (seed hs) ls sids)"
proof (induction ls arbitrary: sids)
  case (Cons l ls)
  show ?case using keeps_assigned_trans [OF seed_keeps Cons.IH] by simp
qed simp

lemma seeds_assign:
  "l \<in> set ls \<Longrightarrow> \<not> ISOBJECT l \<Longrightarrow> handle_pos hs (cl_child l) = Some j \<Longrightarrow> length sids = length hs \<Longrightarrow>
     fold (seed hs) ls sids ! j \<noteq> NO_ID"
proof (induction ls arbitrary: sids)
  case (Cons a ls)
  have len: "length (seed hs a sids) = length hs"
    using seed_keeps [of sids hs a] Cons.prems(4) by (simp add: keeps_assigned_def)
  show ?case
  proof (cases "l = a")
    case True
    have "seed hs a sids ! j \<noteq> NO_ID" using seed_assigns Cons.prems True by blast
    with seeds_keep [of "seed hs a sids" hs ls] len handle_pos_Some [OF Cons.prems(3)] show ?thesis
      by (simp add: keeps_assigned_def)
  next
    case False
    with Cons len show ?thesis by simp
  qed
qed simp

section \<open>A pass\<close>

text \<open>
  What a step of a pass does: it stays sound, assigned objects stay assigned, each one it counts
  was not, and when it counts none it changes nothing.
\<close>

definition pass_ok :: "u32 list \<Rightarrow> canon_link list \<Rightarrow> nat \<times> u32 list \<Rightarrow> nat \<times> u32 list \<Rightarrow> bool" where
  "pass_ok hs links st st' \<longleftrightarrow> storages_sound hs links (snd st') \<and> keeps_assigned (snd st) (snd st') \<and>
     unassigned (snd st') + fst st' = unassigned (snd st) + fst st \<and> fst st \<le> fst st' \<and>
     (fst st' = fst st \<longrightarrow> st' = st)"

lemma pass_ok_refl: "storages_sound hs links (snd st) \<Longrightarrow> pass_ok hs links st st"
  by (simp add: pass_ok_def)

lemma pass_ok_trans: "pass_ok hs links a b \<Longrightarrow> pass_ok hs links b c \<Longrightarrow> pass_ok hs links a c"
  by (auto simp: pass_ok_def intro: keeps_assigned_trans)

lemma hand_to_ok:
  assumes "storages_sound hs links (snd st)" and "storage_reaches hs links s k" and "k < length hs"
  shows "pass_ok hs links st (hand_to k s st)" and "snd (hand_to k s st) ! k \<noteq> NO_ID"
proof -
  have len: "length (snd st) = length hs" and s: "s \<noteq> NO_ID"
    using assms(1) reaches_not_NO_ID [OF assms(2)] by (auto simp: storages_sound_def)
  show "pass_ok hs links st (hand_to k s st)"
  proof (cases "snd st ! k = NO_ID")
    case True
    with unassigned_update [of k "snd st" s] assms len s show ?thesis
      by (auto simp: pass_ok_def hand_to_def storages_sound_update keeps_assigned_def nth_list_update)
  qed (simp add: hand_to_def pass_ok_refl assms)
  show "snd (hand_to k s st) ! k \<noteq> NO_ID"
    using assms(3) len s by (simp add: hand_to_def)
qed

lemma hand_to_child_ok:
  assumes "storages_sound hs links (snd st)" and "storage_reaches hs links s i" and "l \<in> set links"
    and "handle_pos hs (cl_oid l) = Some i" and "ISOBJECT l"
    and "cl_next l = NO_ID \<or> handle_pos hs (cl_next l) \<noteq> None"
  shows "pass_ok hs links st (hand_to_child hs l s st)"
    and "cl_child l \<noteq> NO_ID \<Longrightarrow> handle_pos hs (cl_child l) = Some k \<Longrightarrow> snd (hand_to_child hs l s st) ! k \<noteq> NO_ID"
proof -
  have to: "storage_reaches hs links s k \<and> k < length hs"
    if "cl_child l \<noteq> NO_ID" "handle_pos hs (cl_child l) = Some k" for k
    using storage_reaches.link [OF assms(2-4), of k] assms(5,6) that handle_pos_Some
    by (fastforce simp: leads_def)
  show "pass_ok hs links st (hand_to_child hs l s st)"
    using hand_to_ok(1) [OF assms(1)] to by (auto simp: hand_to_child_def pass_ok_refl assms(1) split: option.split)
  show "snd (hand_to_child hs l s st) ! k \<noteq> NO_ID"
    if "cl_child l \<noteq> NO_ID" "handle_pos hs (cl_child l) = Some k"
    using hand_to_ok(2) [OF assms(1)] to [OF that] that by (simp add: hand_to_child_def)
qed

lemma pass_okD:
  "pass_ok hs links st st' \<Longrightarrow> storages_sound hs links (snd st')"
  "pass_ok hs links st st' \<Longrightarrow> length (snd st) = length hs \<Longrightarrow> k < length hs \<Longrightarrow> snd st ! k \<noteq> NO_ID \<Longrightarrow> snd st' ! k \<noteq> NO_ID"
  by (auto simp: pass_ok_def keeps_assigned_def)

lemma sound_length: "storages_sound hs links sids \<Longrightarrow> length sids = length hs"
  by (simp add: storages_sound_def)

lemma hand_down_ok:
  assumes "l \<in> set links" and "storages_sound hs links (snd st)"
  shows "pass_ok hs links st (hand_down hs l st) \<and>
    (\<forall>i k. handle_pos hs (cl_oid l) = Some i \<and> snd st ! i \<noteq> NO_ID \<and> leads hs l k \<longrightarrow> snd (hand_down hs l st) ! k \<noteq> NO_ID)"
proof (cases "ISOBJECT l \<and> (\<exists>i. handle_pos hs (cl_oid l) = Some i \<and> snd st ! i \<noteq> NO_ID)")
  case False
  then have "hand_down hs l st = st"
    by (auto simp: hand_down_def Let_def split: option.split)
  with False show ?thesis by (auto simp: pass_ok_refl assms leads_def)
next
  case True
  then obtain i where i: "ISOBJECT l" "handle_pos hs (cl_oid l) = Some i" "snd st ! i \<noteq> NO_ID" by blast
  let ?s = "snd st ! i"
  have r: "storage_reaches hs links ?s i"
    using assms(2) i handle_pos_Some [OF i(2)] by (simp add: storages_sound_def)
  note child = hand_to_child_ok [OF _ r assms(1) i(2,1)]
  show ?thesis
  proof (cases "cl_next l = NO_ID")
    case True
    with i have "hand_down hs l st = hand_to_child hs l ?s st" by (simp add: hand_down_def)
    with child [OF assms(2)] True show ?thesis by (auto simp: leads_def)
  next
    case next_id: False
    show ?thesis
    proof (cases "handle_pos hs (cl_next l)")
      case None
      with i next_id show ?thesis by (simp add: hand_down_def pass_ok_refl assms leads_def)
    next
      case (Some k)
      let ?st = "hand_to k ?s st"
      have "leads hs l k" using Some next_id i by (simp add: leads_def)
      then have k: "storage_reaches hs links ?s k" "k < length hs"
        using storage_reaches.link [OF r assms(1) i(2)] leads_in_range by blast+
      note first = hand_to_ok [OF assms(2) k]
      have eq: "hand_down hs l st = hand_to_child hs l ?s ?st"
        using i Some next_id by (simp add: hand_down_def Let_def)
      have rest: "pass_ok hs links ?st (hand_down hs l st)"
        using child(1) [OF pass_okD(1) [OF first(1)]] Some eq by simp
      have "snd (hand_down hs l st) ! k \<noteq> NO_ID"
        using pass_okD(2) [OF rest _ k(2) first(2)] sound_length [OF pass_okD(1) [OF first(1)]] by simp
      moreover have "snd (hand_down hs l st) ! k' \<noteq> NO_ID"
        if "cl_child l \<noteq> NO_ID" "handle_pos hs (cl_child l) = Some k'" for k'
        using child(2) [OF pass_okD(1) [OF first(1)] _ that] Some eq by simp
      ultimately have "\<forall>k'. leads hs l k' \<longrightarrow> snd (hand_down hs l st) ! k' \<noteq> NO_ID"
        using Some by (auto simp: leads_def)
      then show ?thesis using pass_ok_trans [OF first(1) rest] by blast
    qed
  qed
qed

text \<open>A whole pass; when it counts nothing, the ids are closed under the links.\<close>

definition links_closed :: "u32 list \<Rightarrow> canon_link list \<Rightarrow> u32 list \<Rightarrow> bool" where
  "links_closed hs ls sids \<longleftrightarrow>
     (\<forall>l \<in> set ls. \<forall>i k. handle_pos hs (cl_oid l) = Some i \<and> sids ! i \<noteq> NO_ID \<and> leads hs l k \<longrightarrow> sids ! k \<noteq> NO_ID)"

lemma links_closed_Cons:
  "links_closed hs (l # ls) sids \<longleftrightarrow>
     (\<forall>i k. handle_pos hs (cl_oid l) = Some i \<and> sids ! i \<noteq> NO_ID \<and> leads hs l k \<longrightarrow> sids ! k \<noteq> NO_ID) \<and> links_closed hs ls sids"
  unfolding links_closed_def by (simp only: list.set ball_simps)

lemma pass_result:
  assumes "set ls \<subseteq> set links" and "storages_sound hs links (snd st)"
  shows "pass_ok hs links st (fold (hand_down hs) ls st) \<and>
    (fst (fold (hand_down hs) ls st) = fst st \<longrightarrow> links_closed hs ls (snd st))"
  using assms
proof (induction ls arbitrary: st)
  case Nil
  then show ?case by (simp add: pass_ok_refl links_closed_def)
next
  case (Cons l ls)
  let ?st = "hand_down hs l st" and ?done_st = "fold (hand_down hs) (l # ls) st"
  have l: "pass_ok hs links st ?st"
    "\<forall>i k. handle_pos hs (cl_oid l) = Some i \<and> snd st ! i \<noteq> NO_ID \<and> leads hs l k \<longrightarrow> snd ?st ! k \<noteq> NO_ID"
    using hand_down_ok [of l links hs st] Cons.prems by auto
  have rest: "pass_ok hs links ?st ?done_st" "fst ?done_st = fst ?st \<longrightarrow> links_closed hs ls (snd ?st)"
    using Cons.IH [OF _ pass_okD(1) [OF l(1)]] Cons.prems(1) by auto
  have "links_closed hs (l # ls) (snd st)" if "fst ?done_st = fst st"
  proof -
    from l(1) rest(1) that have eq: "?st = st" "fst ?done_st = fst ?st" by (auto simp: pass_ok_def)
    with rest(2) have "links_closed hs ls (snd st)" by simp
    with l(2) show ?thesis unfolding eq(1) links_closed_Cons by blast
  qed
  with pass_ok_trans [OF l(1) rest(1)] show ?case by blast
qed

lemma pass_needs_one:
  assumes "\<forall>j < length hs. snd st ! j = NO_ID"
  shows "fold (hand_down hs) ls st = st"
proof -
  have "hand_down hs l st = st" for l
    using assms by (auto simp: hand_down_def Let_def split: option.split dest: handle_pos_Some)
  then show ?thesis by (induction ls) simp_all
qed

section \<open>The result\<close>

definition storages_right :: "u32 list \<Rightarrow> canon_link list \<Rightarrow> u32 list \<Rightarrow> bool" where
  "storages_right hs links sids \<longleftrightarrow> length sids = length hs \<and>
     (\<forall>j < length hs. if \<exists>s. storage_reaches hs links s j then storage_reaches hs links (sids ! j) j
                     else sids ! j = NO_ID)"

definition roots_assigned :: "u32 list \<Rightarrow> canon_link list \<Rightarrow> u32 list \<Rightarrow> bool" where
  "roots_assigned hs links sids \<longleftrightarrow>
     (\<forall>l \<in> set links. \<forall>j. \<not> ISOBJECT l \<and> handle_pos hs (cl_child l) = Some j \<longrightarrow> sids ! j \<noteq> NO_ID)"

lemma closed_is_right:
  assumes "storages_sound hs links sids" and "roots_assigned hs links sids" and "links_closed hs links sids"
  shows "storages_right hs links sids"
proof -
  have "sids ! j \<noteq> NO_ID" if "storage_reaches hs links s j" for s j
    using that
  proof (induction rule: storage_reaches.induct)
    case (root l j)
    with assms(2) show ?case by (simp add: roots_assigned_def)
  next
    case (link s i l k)
    with assms(3) show ?case unfolding links_closed_def by blast
  qed
  with assms(1) show ?thesis by (auto simp: storages_right_def storages_sound_def)
qed

lemma full_is_right:
  "storages_sound hs links sids \<Longrightarrow> \<forall>j < length hs. sids ! j \<noteq> NO_ID \<Longrightarrow> storages_right hs links sids"
  by (auto simp: storages_right_def storages_sound_def)

lemma distribute_right:
  assumes "storages_sound hs links sids" and "roots_assigned hs links sids"
  shows "\<exists>sids'. distribute hs links sids = Some sids' \<and> storages_right hs links sids'"
  using assms
proof (induction "unassigned sids" arbitrary: sids rule: less_induct)
  case less
  obtain c sids' where pass: "fold (hand_down hs) links (0, sids) = (c, sids')" by fastforce
  have ok: "pass_ok hs links (0, sids) (c, sids')" "c = 0 \<longrightarrow> links_closed hs links sids"
    using pass_result [of links links hs "(0, sids)"] less.prems(1) pass by auto
  then have sound: "storages_sound hs links sids'" and keep: "keeps_assigned sids sids'"
    and cnt: "unassigned sids' + c = unassigned sids" and same: "c = 0 \<longrightarrow> sids' = sids"
    by (auto simp: pass_ok_def)
  have len: "length sids = length hs" "length sids' = length hs"
    using less.prems(1) sound by (auto simp: sound_length)
  have roots: "roots_assigned hs links sids'"
    using less.prems(2) keep len by (auto simp: roots_assigned_def keeps_assigned_def dest: handle_pos_Some)
  consider "c = 0" | "c \<noteq> 0" "c + 1 = length hs" | "c \<noteq> 0" "c + 1 \<noteq> length hs" by blast
  then show ?case
  proof cases
    case 1
    with same ok(2) closed_is_right [OF less.prems] pass show ?thesis by (simp add: distribute.simps)
  next
    case 2
    have "unassigned sids < length sids"
    proof (rule ccontr)
      assume "\<not> unassigned sids < length sids"
      then have "\<forall>j < length hs. sids ! j = NO_ID"
        using len length_filter_less [of _ sids "\<lambda>s. s = NO_ID"] by (metis nth_mem unassigned_def)
      with pass_needs_one [of hs "(0, sids)" links] pass 2(1) show False by simp
    qed
    with cnt 2 len have "unassigned sids' = 0" by simp
    then have "\<forall>j < length hs. sids' ! j \<noteq> NO_ID"
      using len by (auto simp: unassigned_def filter_empty_conv)
    with full_is_right [OF sound] pass 2 show ?thesis by (simp add: distribute.simps)
  next
    case 3
    with cnt have "unassigned sids' < unassigned sids" by simp
    from less.hyps [OF this sound roots] pass 3 show ?thesis by (simp add: distribute.simps [of hs links sids])
  qed
qed

lemma seeded:
  assumes "sids = fold (seed hs) links (replicate (length hs) NO_ID)"
  shows "storages_sound hs links sids" and "roots_assigned hs links sids"
proof -
  have "storages_sound hs links (replicate (length hs) NO_ID)" by (simp add: storages_sound_def)
  then show "storages_sound hs links sids" unfolding assms by (rule seeds_sound [OF order_refl])
  show "roots_assigned hs links sids" by (simp add: assms roots_assigned_def seeds_assign)
qed

text \<open>
  Claim C36: whatever the table of a Canon camera holds, unpacking it ends, and then each object has
  the id of a storage that the links lead from to the object, when there is one, and the mark for
  no storage otherwise.
\<close>

theorem canon_directory_storages:
  assumes "mapM (canon_link_at P dir) [0..<unat cnt] = Some links"
    and "mapM (canon_object_at P dir) (filter (\<lambda>i. ISOBJECT (links ! i)) [0..<unat cnt]) = Some obs"
    and "hs = map cl_oid (filter ISOBJECT links)"
  shows "\<exists>ois. ptp_unpack_canon_directory P dir cnt = Some (hs, ois, map snd obs) \<and> length ois = length hs \<and>
    (\<forall>j < length hs. if \<exists>s. storage_reaches hs links s j then storage_reaches hs links (oi_StorageID (ois ! j)) j
                    else oi_StorageID (ois ! j) = NO_ID)"
proof -
  obtain sids where sids: "distribute hs links (fold (seed hs) links (replicate (length hs) NO_ID)) = Some sids"
    "storages_right hs links sids"
    using distribute_right [OF seeded] by blast
  have "length links = unat cnt" using assms(1) by (simp add: mapM_eq_Some_iff)
  then have "length (filter ISOBJECT links) = length (filter (\<lambda>i. ISOBJECT (links ! i)) [0..<unat cnt])"
    using filter_map [of ISOBJECT "\<lambda>i. links ! i" "[0..<unat cnt]"] map_nth [of links] by (simp add: comp_def)
  moreover have "length obs = length (filter (\<lambda>i. ISOBJECT (links ! i)) [0..<unat cnt])"
    using assms(2) by (simp add: mapM_eq_Some_iff)
  ultimately have len: "length obs = length hs" by (simp add: assms(3))
  have "ptp_unpack_canon_directory P dir cnt =
      Some (hs, map2 (\<lambda>ob sid. (fst ob)\<lparr>oi_StorageID := sid\<rparr>) obs sids, map snd obs)"
    using assms sids(1) by (simp add: ptp_unpack_canon_directory_def)
  with sids(2) len show ?thesis by (auto simp: storages_right_def)
qed

text \<open>A storage with one object in it.\<close>

definition sample_dir :: "byte list" where
  "sample_dir =
   [0, 0, 0, 0, 0, 0, 0, 0, 5, 0, 0, 0, 0, 0, 0, 0, 0, 0, 0, 0, 255, 255, 255, 255, 10, 0, 0, 0, 1, 0, 0, 0, 0, 0, 0, 0, 0, 0,
    0, 0, 0, 0, 0, 0, 0, 0, 0, 0, 0, 0, 0, 0, 0, 0, 0, 0, 0, 0, 0, 0, 0, 0, 0, 0, 0, 0, 0, 0, 0, 0, 0, 0, 0, 0, 0, 0,
    0, 0, 0, 0, 0, 0, 0, 0, 10, 0, 0, 0, 0, 0, 0, 0, 0, 0, 0, 0, 255, 255, 255, 255, 255, 255, 255, 255, 255, 255, 255, 255, 0, 0, 0, 0, 0, 0,
    0, 0, 0, 0, 0, 0, 0, 0, 0, 0, 0, 0, 0, 0, 0, 0, 0, 0, 0, 0, 0, 0, 0, 0, 0, 0, 0, 0, 0, 0, 0, 0, 0, 0, 0, 0, 0, 0]"

definition sample_links :: "canon_link list" where
  "sample_links =
     [\<lparr>cl_oid = 5, cl_next = NO_ID, cl_child = 10, cl_storage = 1\<rparr>,
      \<lparr>cl_oid = 10, cl_next = NO_ID, cl_child = NO_ID, cl_storage = NO_ID\<rparr>]"

lemma sample_dir_read:
  "mapM (canon_link_at (plain_params PTP_DL_LE) sample_dir) [0..<unat (2 :: u32)] = Some sample_links"
  by (simp add: canon_link_at_def dtoh32a_def rd_def canon_entry_def canon_dir_defs sample_dir_def sample_links_def
      dtoh32ap_def upt_rec NO_ID_def)

lemma sample_dir_objects:
  "\<exists>ob. mapM (canon_object_at (plain_params PTP_DL_LE) sample_dir)
     (filter (\<lambda>i. ISOBJECT (sample_links ! i)) [0..<unat (2 :: u32)]) = Some [(ob, 0)]"
  by (simp add: canon_object_at_def dtoh32a_def dtoh16a_def rd_def canon_entry_def canon_dir_defs sample_dir_def
      sample_links_def dtoh32ap_def dtoh16ap_def string_at_def upt_rec ISOBJECT_def NO_ID_def)

lemma canon_directory_storages_witness:
  "\<exists>ois. ptp_unpack_canon_directory (plain_params PTP_DL_LE) sample_dir 2 = Some ([10], ois, [0]) \<and>
     length ois = 1 \<and> storage_reaches [10] sample_links (oi_StorageID (ois ! 0)) 0"
proof -
  obtain ob where ob: "mapM (canon_object_at (plain_params PTP_DL_LE) sample_dir)
      (filter (\<lambda>i. ISOBJECT (sample_links ! i)) [0..<unat (2 :: u32)]) = Some [(ob, 0)]"
    using sample_dir_objects by blast
  have hs: "[10] = map cl_oid (filter ISOBJECT sample_links)"
    by (simp add: sample_links_def ISOBJECT_def NO_ID_def)
  have "storage_reaches [10] sample_links 1 0"
    using storage_reaches.root [of "sample_links ! 0" sample_links "[10]" 0]
    by (simp add: sample_links_def ISOBJECT_def NO_ID_def handle_pos_def)
  with canon_directory_storages [OF sample_dir_read ob hs] show ?thesis by (auto split: if_splits)
qed

text \<open>An object whose next object is not in the table does not hand its storage to its child.\<close>

lemma canon_unlisted_next_skips_child:
  "cl_next l \<noteq> NO_ID \<Longrightarrow> handle_pos hs (cl_next l) = None \<Longrightarrow> hand_down hs l st = st"
  by (simp add: hand_down_def Let_def split: option.split)

end
