(* ===== verification/Ptp_Vendor.thy ===== *)
theory Ptp_Vendor
  imports Ptp_Events Ptp_Canon
begin

text \<open>
  The operations of other vendors in \<open>src/src/ptp.c\<close>, with the datasets they need from
  \<open>src/src/ptp-pack.c\<close>: Kodak, Canon, Nikon and the CHDK firmware (the EOS cameras of Canon have a
  theory of their own). Each is a transaction with its code and parameters, and what the
  operation takes from the data and the response. As everywhere an operation that does not
  come back or leaves its buffers is \<open>None\<close>, and memory does not run out.
\<close>

section \<open>The three kinds of operations\<close>

definition get_data ::
  "'s io_funs \<Rightarrow> 's ptp_session \<Rightarrow> u16 \<Rightarrow> u32 list \<Rightarrow> (u16 \<times> ptp_container \<times> byte list \<times> 's ptp_session) option" where
  "get_data F s cmd args = ptp_transaction F s (ptp_request cmd args) PTP_DP_GETDATA 0 []"

definition send_data ::
  "'s io_funs \<Rightarrow> 's ptp_session \<Rightarrow> u16 \<Rightarrow> u32 list \<Rightarrow> nat \<Rightarrow> byte list \<Rightarrow>
     (u16 \<times> ptp_container \<times> 's ptp_session) option" where
  "send_data F s cmd args sz buf = do {
     (ret, ptp, _, s') \<leftarrow> ptp_transaction F s (ptp_request cmd args) PTP_DP_SENDDATA sz buf;
     Some (ret, ptp, s') }"

definition no_data ::
  "'s io_funs \<Rightarrow> 's ptp_session \<Rightarrow> u16 \<Rightarrow> u32 list \<Rightarrow> (u16 \<times> ptp_container \<times> 's ptp_session) option" where
  "no_data F s cmd args = do {
     (ret, ptp, _, s') \<leftarrow> ptp_transaction F s (ptp_request cmd args) PTP_DP_NODATA 0 [];
     Some (ret, ptp, s') }"

text \<open>The data as they came, whatever the result.\<close>

definition get_bytes ::
  "'s io_funs \<Rightarrow> 's ptp_session \<Rightarrow> u16 \<Rightarrow> u32 list \<Rightarrow> (u16 \<times> byte list \<times> 's ptp_session) option" where
  "get_bytes F s cmd args = do { (ret, _, dat, s') \<leftarrow> get_data F s cmd args; Some (ret, dat, s') }"

text \<open>A send of more than the buffer holds is a fault.\<close>

lemma send_data_too_long: "length buf < sz \<Longrightarrow> send_data F s cmd args sz buf = None"
  using rd_eq_None_iff [of buf 0 sz] by (simp add: send_data_def ptp_transaction_def dp_defs)

section \<open>Kodak\<close>

definition PTP_OC_EK_GetSerial :: u16 where "PTP_OC_EK_GetSerial = 0x9003"
definition PTP_OC_EK_SetSerial :: u16 where "PTP_OC_EK_SetSerial = 0x9004"
definition PTP_OC_EK_SendFileObjectInfo :: u16 where "PTP_OC_EK_SendFileObjectInfo = 0x9005"
definition PTP_OC_EK_SendFileObject :: u16 where "PTP_OC_EK_SendFileObject = 0x9006"
definition PTP_OC_EK_SetText :: u16 where "PTP_OC_EK_SetText = 0x9008"

definition ptp_ek_sendfileobjectinfo ::
  "'s io_funs \<Rightarrow> 's ptp_session \<Rightarrow> u32 \<Rightarrow> u32 \<Rightarrow> ptp_object_info \<Rightarrow>
     (u16 \<times> (u32 \<times> u32 \<times> u32) \<times> 's ptp_session) option" where
  "ptp_ek_sendfileobjectinfo F s store parenthandle info = do {
     (oidata, sz) \<leftarrow> ptp_pack_OI (params s) info;
     (ret, ptp, s') \<leftarrow> send_data F s PTP_OC_EK_SendFileObjectInfo [store, parenthandle] sz oidata;
     Some (ret, (Param1 ptp, Param2 ptp, Param3 ptp), s') }"

definition ptp_ek_getserial ::
  "'s io_funs \<Rightarrow> 's ptp_session \<Rightarrow> (u16 \<times> byte list \<times> 's ptp_session) option" where
  "ptp_ek_getserial F s = get_bytes F s PTP_OC_EK_GetSerial []"

definition ptp_ek_setserial ::
  "'s io_funs \<Rightarrow> 's ptp_session \<Rightarrow> byte list \<Rightarrow> u32 \<Rightarrow> (u16 \<times> 's ptp_session) option" where
  "ptp_ek_setserial F s dat sz = do {
     (ret, _, s') \<leftarrow> send_data F s PTP_OC_EK_SetSerial [] (unat sz) dat; Some (ret, s') }"

definition ptp_ek_9007 :: "'s io_funs \<Rightarrow> 's ptp_session \<Rightarrow> (u16 \<times> byte list \<times> 's ptp_session) option" where
  "ptp_ek_9007 F s = get_bytes F s 0x9007 []"

definition ptp_ek_9009 :: "'s io_funs \<Rightarrow> 's ptp_session \<Rightarrow> (u16 \<times> (u32 \<times> u32) \<times> 's ptp_session) option" where
  "ptp_ek_9009 F s = do {
     (ret, ptp, s') \<leftarrow> no_data F s 0x9009 []; Some (ret, (Param1 ptp, Param2 ptp), s') }"

definition ptp_ek_900c :: "'s io_funs \<Rightarrow> 's ptp_session \<Rightarrow> (u16 \<times> byte list \<times> 's ptp_session) option" where
  "ptp_ek_900c F s = get_bytes F s 0x900C []"

text \<open>The title and the lines, of which there are always five.\<close>

record ek_text =
  ek_title :: "byte list"
  ek_line :: "byte list list"

text \<open>
  A string at \<open>cur\<close>, and the 16 bit values behind it; the string is packed through a pointer to
  its place, so at offset 0 of the rest of the buffer.
\<close>

definition ek_put ::
  "ptp_params \<Rightarrow> byte list \<Rightarrow> u16 list \<Rightarrow> nat \<Rightarrow> byte list \<Rightarrow> (nat \<times> byte list) option" where
  "ek_put P string vs cur buf = do {
     (rest, retlen) \<leftarrow> ptp_pack_string P string (drop cur buf) 0;
     let cur' = cur + 2 * unat retlen + 1;
     buf' \<leftarrow> wr (take cur buf @ rest) cur' (concat (map (htod16ap P) vs));
     Some (cur' + 2 * length vs, buf') }"

fun ek_put_lines :: "ptp_params \<Rightarrow> byte list list \<Rightarrow> nat \<Rightarrow> byte list \<Rightarrow> (nat \<times> byte list) option" where
  "ek_put_lines P [] cur buf = Some (cur, buf)"
| "ek_put_lines P (l # ls) cur buf = do {
     (cur', buf') \<leftarrow> ek_put P l [0, 0x10, 0x01, 0x02, 0x06] cur buf;
     ek_put_lines P ls cur' buf' }"

definition ek_text_size :: "ek_text \<Rightarrow> nat" where
  "ek_text_size t = sum_list (map (\<lambda>x. 2 * (length x + 1) + 1) (ek_title t # ek_line t)) + (4 * 2 + 2 * 4 + 2 + 4 + 2 + 5 * 4 * 2)"

text \<open>\<open>junk\<close> is what the allocated buffer holds before.\<close>

definition ptp_pack_EK_text :: "(nat \<Rightarrow> byte) \<Rightarrow> ptp_params \<Rightarrow> ek_text \<Rightarrow> (byte list \<times> nat) option" where
  "ptp_pack_EK_text junk P t = do {
     buf \<leftarrow> wrs (map junk [0..<ek_text_size t])
       [(0, htod16ap P 100), (2, htod16ap P 1), (4, htod16ap P 0), (6, htod16ap P 1000),
        (8, htod32ap P 0), (12, htod32ap P 0), (16, htod16ap P 6), (18, htod32ap P 0)];
     (cur, buf) \<leftarrow> ek_put P (ek_title t) [0, 0x10] 22 buf;
     (cur, buf) \<leftarrow> ek_put_lines P (ek_line t) cur buf;
     Some (buf, ek_text_size t) }"

text \<open>The size is never 0 when the memory does not run out.\<close>

definition ptp_ek_settext ::
  "(nat \<Rightarrow> byte) \<Rightarrow> 's io_funs \<Rightarrow> 's ptp_session \<Rightarrow> ek_text \<Rightarrow> (u16 \<times> 's ptp_session) option" where
  "ptp_ek_settext junk F s t = do {
     (dat, sz) \<leftarrow> ptp_pack_EK_text junk (params s) t;
     (ret, _, s') \<leftarrow> send_data F s PTP_OC_EK_SetText [] sz dat;
     Some (ret, s') }"

definition ptp_ek_sendfileobject ::
  "'s io_funs \<Rightarrow> 's ptp_session \<Rightarrow> byte list \<Rightarrow> u32 \<Rightarrow> (u16 \<times> 's ptp_session) option" where
  "ptp_ek_sendfileobject F s object sz = do {
     (ret, _, s') \<leftarrow> send_data F s PTP_OC_EK_SendFileObject [] (unat sz) object; Some (ret, s') }"

definition ptp_ek_sendfileobject_from_handler ::
  "'s io_funs \<Rightarrow> 's ptp_session \<Rightarrow> mem_handler \<Rightarrow> u32 \<Rightarrow> (u16 \<times> mem_handler \<times> 's ptp_session) option" where
  "ptp_ek_sendfileobject_from_handler F s h sz = do {
     (ret, _, h', s') \<leftarrow>
       ptp_transaction_new F s (ptp_request PTP_OC_EK_SendFileObject []) PTP_DP_SENDDATA (unat sz) h;
     Some (ret, h', s') }"

lemma pack_ascii:
  assumes "no_iconv P" and "ptp_ascii string" and "ptp_pack_string P string buf 0 = Some (buf', retlen)"
  shows "unat retlen = length string + 1" and "length buf' = length buf"
proof -
  have "ptp_pack_string P string buf 0 =
      map_option (\<lambda>d. (d, of_nat (length string + 1))) (wr buf (off16 0) (ptp_string_bytes P string))"
    using assms(1,2) by (intro ptp_pack_string_refines) (auto simp: ptp_ascii_def)
  with assms(3) have "retlen = of_nat (length string + 1)" and "length buf' = length buf"
    by (auto dest: length_wr)
  with assms(2) show "unat retlen = length string + 1" and "length buf' = length buf"
    by (simp_all add: ptp_ascii_def unat_of_nat del: of_nat_Suc of_nat_add)
qed

text \<open>
  The size that is allocated is twelve bytes short: with texts that are packed as they are, what is
  stored does not fit.
\<close>

lemma ek_put_cur:
  assumes "ek_put P string vs cur buf = Some (cur', buf')" and "no_iconv P" and "ptp_ascii string"
    and "cur \<le> length buf"
  shows "cur' = cur + 2 * (length string + 1) + 1 + 2 * length vs \<and> length buf' = length buf \<and> cur' \<le> length buf"
proof -
  obtain rest retlen where pack: "ptp_pack_string P string (drop cur buf) 0 = Some (rest, retlen)"
    and put: "wr (take cur buf @ rest) (cur + 2 * unat retlen + 1) (concat (map (htod16ap P) vs)) = Some buf'"
    and cur': "cur' = cur + 2 * unat retlen + 1 + 2 * length vs"
    using assms(1) by (auto simp: ek_put_def bind_eq_Some_conv Let_def)
  note retlen = pack_ascii(1) [OF assms(2,3) pack] and len = pack_ascii(2) [OF assms(2,3) pack]
  have "length (concat (map (htod16ap P) vs)) = 2 * length vs" by (induction vs) auto
  with put len assms(4) have "cur + 2 * unat retlen + 1 + 2 * length vs \<le> length buf"
    by (simp add: wr_def split: if_splits)
  with cur' retlen length_wr [OF put] len assms(4) show ?thesis by simp
qed

lemma ek_put_lines_cur:
  assumes "ek_put_lines P ls cur buf = Some (cur', buf')" and "no_iconv P" and "\<forall>l \<in> set ls. ptp_ascii l"
    and "cur \<le> length buf"
  shows "cur' = cur + sum_list (map (\<lambda>x. 2 * (length x + 1) + 1) ls) + 10 * length ls \<and>
    length buf' = length buf \<and> cur' \<le> length buf"
  using assms(1,3,4)
proof (induction ls arbitrary: cur buf)
  case (Cons l ls)
  from Cons.prems(1) obtain cur1 buf1 where
    l: "ek_put P l [0, 0x10, 0x01, 0x02, 0x06] cur buf = Some (cur1, buf1)"
    and ls: "ek_put_lines P ls cur1 buf1 = Some (cur', buf')"
    by (auto simp: bind_eq_Some_conv)
  from ek_put_cur [OF l assms(2)] Cons.prems have
    "cur1 = cur + 2 * (length l + 1) + 1 + 10 \<and> length buf1 = length buf \<and> cur1 \<le> length buf" by simp
  with Cons.IH [OF ls] Cons.prems show ?case by simp
qed simp

lemma ek_settext_overflows:
  assumes "no_iconv (params s)" and "ptp_ascii (ek_title t)" and "\<forall>l \<in> set (ek_line t). ptp_ascii l"
    and "length (ek_line t) = 5"
  shows "ptp_ek_settext junk F s t = None"
proof -
  have "ptp_pack_EK_text junk (params s) t = None"
  proof (rule ccontr)
    assume "ptp_pack_EK_text junk (params s) t \<noteq> None"
    then obtain buf0 cur1 buf1 cur2 buf2 where
      b0: "wrs (map junk [0..<ek_text_size t])
        [(0, htod16ap (params s) 100), (2, htod16ap (params s) 1), (4, htod16ap (params s) 0),
         (6, htod16ap (params s) 1000), (8, htod32ap (params s) 0), (12, htod32ap (params s) 0),
         (16, htod16ap (params s) 6), (18, htod32ap (params s) 0)] = Some buf0"
      and b1: "ek_put (params s) (ek_title t) [0, 0x10] 22 buf0 = Some (cur1, buf1)"
      and b2: "ek_put_lines (params s) (ek_line t) cur1 buf1 = Some (cur2, buf2)"
      unfolding ptp_pack_EK_text_def by (fastforce simp: bind_eq_Some_conv)
    have len: "length buf0 = ek_text_size t"
      using b0 by (auto simp: bind_eq_Some_conv dest!: length_wr)
    then have "22 \<le> length buf0" by (simp add: ek_text_size_def)
    from ek_put_cur [OF b1 assms(1,2) this] ek_put_lines_cur [OF b2 assms(1,3)] len assms(4)
    show False by (auto simp: ek_text_size_def)
  qed
  then show ?thesis by (simp add: ptp_ek_settext_def)
qed

section \<open>Canon\<close>

definition PTP_OC_CANON_GetPartialObjectInfo :: u16 where "PTP_OC_CANON_GetPartialObjectInfo = 0x9001"
definition PTP_OC_CANON_GetObjectHandleByName :: u16 where "PTP_OC_CANON_GetObjectHandleByName = 0x9006"
definition PTP_OC_CANON_GetCustomizeData :: u16 where "PTP_OC_CANON_GetCustomizeData = 0x9010"
definition PTP_OC_CANON_GetPartialObjectEx :: u16 where "PTP_OC_CANON_GetPartialObjectEx = 0x901B"
definition PTP_OC_CANON_GetViewfinderImage :: u16 where "PTP_OC_CANON_GetViewfinderImage = 0x901D"
definition PTP_OC_CANON_GetChanges :: u16 where "PTP_OC_CANON_GetChanges = 0x9020"
definition PTP_OC_CANON_GetObjectInfoEx :: u16 where "PTP_OC_CANON_GetObjectInfoEx = 0x9021"
definition PTP_OC_CANON_GetTreeInfo :: u16 where "PTP_OC_CANON_GetTreeInfo = 0x9028"
definition PTP_OC_CANON_GetTreeSize :: u16 where "PTP_OC_CANON_GetTreeSize = 0x9029"
definition PTP_OC_CANON_GetDirectory :: u16 where "PTP_OC_CANON_GetDirectory = 0x902D"
definition PTP_OC_CANON_GetPairingInfo :: u16 where "PTP_OC_CANON_GetPairingInfo = 0x9031"
definition PTP_OC_CANON_GetMACAddress :: u16 where "PTP_OC_CANON_GetMACAddress = 0x9033"

definition ptp_canon_getpartialobjectinfo ::
  "'s io_funs \<Rightarrow> 's ptp_session \<Rightarrow> u32 \<Rightarrow> u32 \<Rightarrow> (u16 \<times> (u32 \<times> u32) \<times> 's ptp_session) option" where
  "ptp_canon_getpartialobjectinfo F s handle p2 = do {
     (ret, ptp, s') \<leftarrow> no_data F s PTP_OC_CANON_GetPartialObjectInfo [handle, p2];
     Some (ret, (Param1 ptp, Param2 ptp), s') }"

definition ptp_canon_get_mac_address ::
  "'s io_funs \<Rightarrow> 's ptp_session \<Rightarrow> (u16 \<times> byte list \<times> 's ptp_session) option" where
  "ptp_canon_get_mac_address F s = get_bytes F s PTP_OC_CANON_GetMACAddress []"

text \<open>The number of entries of the directory is the first parameter of the response.\<close>

definition ptp_canon_get_directory ::
  "'s io_funs \<Rightarrow> 's ptp_session \<Rightarrow>
     (u16 \<times> (u32 list \<times> ptp_object_info list \<times> u32 list) option \<times> 's ptp_session) option" where
  "ptp_canon_get_directory F s = do {
     (ret, ptp, dir, s') \<leftarrow> get_data F s PTP_OC_CANON_GetDirectory [];
     (if ret \<noteq> PTP_RC_OK then Some (ret, None, s')
      else do { r \<leftarrow> ptp_unpack_canon_directory (params s') dir (Param1 ptp); Some (PTP_RC_OK, Some r, s') }) }"

definition ptp_canon_gettreeinfo ::
  "'s io_funs \<Rightarrow> 's ptp_session \<Rightarrow> (u16 \<times> u32 option \<times> 's ptp_session) option" where
  "ptp_canon_gettreeinfo F s = do {
     (ret, ptp, s') \<leftarrow> no_data F s PTP_OC_CANON_GetTreeInfo [0xF];
     Some (ret, if ret = PTP_RC_OK \<and> 0 < Nparam ptp then Some (Param1 ptp) else None, s') }"

definition ptp_canon_getpairinginfo ::
  "'s io_funs \<Rightarrow> 's ptp_session \<Rightarrow> u32 \<Rightarrow> (u16 \<times> byte list \<times> 's ptp_session) option" where
  "ptp_canon_getpairinginfo F s nr = get_bytes F s PTP_OC_CANON_GetPairingInfo [nr]"

text \<open>
  The entries of a direct transfer: an id and a string each. Neither the count nor the lengths
  are compared with the length of the data.
\<close>

fun treesize_entries :: "ptp_params \<Rightarrow> byte list \<Rightarrow> nat \<Rightarrow> nat \<Rightarrow> (u32 \<times> byte list option) list option" where
  "treesize_entries P out cur 0 = Some []"
| "treesize_entries P out cur (Suc n) = do {
     ob \<leftarrow> dtoh32a P out cur;
     (str, _) \<leftarrow> ptp_unpack_string P (drop cur out) 4;
     len \<leftarrow> dtoh8a out (cur + 4);
     rest \<leftarrow> treesize_entries P out (cur + 4 + (unat len * 2 + 1)) n;
     Some ((ob, str) # rest) }"

definition ptp_canon_gettreesize ::
  "'s io_funs \<Rightarrow> 's ptp_session \<Rightarrow> (u16 \<times> (u32 \<times> byte list option) list option \<times> 's ptp_session) option" where
  "ptp_canon_gettreesize F s = get_dataset F s PTP_OC_CANON_GetTreeSize []
     (\<lambda>P out. do { cnt \<leftarrow> dtoh32a P out 0; treesize_entries P out 4 (unat cnt) })"

definition ptp_canon_getpartialobject ::
  "'s io_funs \<Rightarrow> 's ptp_session \<Rightarrow> u32 \<Rightarrow> u32 \<Rightarrow> u32 \<Rightarrow> u32 \<Rightarrow>
     (u16 \<times> (byte list \<times> u32) option \<times> 's ptp_session) option" where
  "ptp_canon_getpartialobject F s handle offset sz pos = do {
     (ret, ptp, dat, s') \<leftarrow> get_data F s PTP_OC_CANON_GetPartialObjectEx [handle, offset, sz, pos];
     Some (ret, if ret = PTP_RC_OK then Some (dat, Param1 ptp) else None, s') }"

text \<open>The image is handed out whatever the result is, its size only when it is OK.\<close>

definition ptp_canon_getviewfinderimage ::
  "'s io_funs \<Rightarrow> 's ptp_session \<Rightarrow> (u16 \<times> byte list \<times> u32 option \<times> 's ptp_session) option" where
  "ptp_canon_getviewfinderimage F s = do {
     (ret, ptp, dat, s') \<leftarrow> get_data F s PTP_OC_CANON_GetViewfinderImage [];
     Some (ret, dat, if ret = PTP_RC_OK then Some (Param1 ptp) else None, s') }"

definition ptp_canon_getchanges ::
  "'s io_funs \<Rightarrow> 's ptp_session \<Rightarrow> (u16 \<times> u16 list option \<times> 's ptp_session) option" where
  "ptp_canon_getchanges F s = get_dataset F s PTP_OC_CANON_GetChanges [] (\<lambda>P dat. ptp_unpack_uint16_t_array P dat 0)"

record canon_folder_entry =
  fe_ObjectHandle :: u32
  fe_ObjectFormatCode :: u16
  fe_Flags :: byte
  fe_ObjectSize :: u32
  fe_Time :: int
  fe_Filename :: "byte list"

definition PTP_CANON_FilenameBufferLen :: nat where "PTP_CANON_FilenameBufferLen = 13"
definition PTP_CANON_FolderEntryLen :: nat where "PTP_CANON_FolderEntryLen = 28"
definition PTP_cfe_ObjectHandle :: nat where "PTP_cfe_ObjectHandle = 0"
definition PTP_cfe_ObjectFormatCode :: nat where "PTP_cfe_ObjectFormatCode = 4"
definition PTP_cfe_Flags :: nat where "PTP_cfe_Flags = 6"
definition PTP_cfe_ObjectSize :: nat where "PTP_cfe_ObjectSize = 7"
definition PTP_cfe_Time :: nat where "PTP_cfe_Time = 11"
definition PTP_cfe_Filename :: nat where "PTP_cfe_Filename = 15"

lemmas cfe_defs = PTP_CANON_FilenameBufferLen_def PTP_CANON_FolderEntryLen_def PTP_cfe_ObjectHandle_def
  PTP_cfe_ObjectFormatCode_def PTP_cfe_Flags_def PTP_cfe_ObjectSize_def PTP_cfe_Time_def PTP_cfe_Filename_def

definition ptp_unpack_Canon_FE :: "ptp_params \<Rightarrow> byte list \<Rightarrow> nat \<Rightarrow> canon_folder_entry option" where
  "ptp_unpack_Canon_FE P dat off = do {
     ob \<leftarrow> dtoh32a P dat (off + PTP_cfe_ObjectHandle);
     ofc \<leftarrow> dtoh16a P dat (off + PTP_cfe_ObjectFormatCode);
     flags \<leftarrow> dtoh8a dat (off + PTP_cfe_Flags);
     sz \<leftarrow> dtoh32a P dat (off + PTP_cfe_ObjectSize);
     time \<leftarrow> dtoh32a P dat (off + PTP_cfe_Time);
     name \<leftarrow> rd dat (off + PTP_cfe_Filename) PTP_CANON_FilenameBufferLen;
     Some \<lparr>fe_ObjectHandle = ob, fe_ObjectFormatCode = ofc, fe_Flags = flags, fe_ObjectSize = sz,
           fe_Time = uint time, fe_Filename = name\<rparr> }"

text \<open>
  The number of entries is the first parameter of the response. With no data only the first entry is
  found to be a NULL pointer, and left as it was allocated.
\<close>

definition folder_entry_zero :: canon_folder_entry where
  "folder_entry_zero = \<lparr>fe_ObjectHandle = 0, fe_ObjectFormatCode = 0, fe_Flags = 0, fe_ObjectSize = 0,
     fe_Time = 0, fe_Filename = replicate PTP_CANON_FilenameBufferLen 0\<rparr>"

definition ptp_canon_getobjectinfo ::
  "'s io_funs \<Rightarrow> 's ptp_session \<Rightarrow> u32 \<Rightarrow> u32 \<Rightarrow> u32 \<Rightarrow> u32 \<Rightarrow>
     (u16 \<times> canon_folder_entry list option \<times> 's ptp_session) option" where
  "ptp_canon_getobjectinfo F s store p2 parent handle = do {
     (ret, ptp, dat, s') \<leftarrow> get_data F s PTP_OC_CANON_GetObjectInfoEx [store, p2, parent, handle];
     (if ret = PTP_RC_OK then do {
        es \<leftarrow> mapM (\<lambda>i. if dat = [] \<and> i = 0 then Some folder_entry_zero
                        else ptp_unpack_Canon_FE (params s') dat (i * PTP_CANON_FolderEntryLen)) [0..<unat (Param1 ptp)];
        Some (ret, Some es, s') }
      else Some (ret, None, s')) }"

text \<open>The size that is sent counts a terminator that \<open>len\<close> has counted already.\<close>

definition ptp_canon_get_objecthandle_by_name ::
  "'s io_funs \<Rightarrow> 's ptp_session \<Rightarrow> byte list \<Rightarrow> (u16 \<times> u32 \<times> 's ptp_session) option" where
  "ptp_canon_get_objecthandle_by_name F s name = do {
     (dat, len) \<leftarrow> ptp_pack_string (params s) name (replicate (2 * (length name + 1) + 2) 0) 0;
     (ret, ptp, s') \<leftarrow> send_data F s PTP_OC_CANON_GetObjectHandleByName [] ((unat len + 1) * 2 + 1) dat;
     Some (ret, Param1 ptp, s') }"

definition ptp_canon_get_customize_data ::
  "'s io_funs \<Rightarrow> 's ptp_session \<Rightarrow> u32 \<Rightarrow> (u16 \<times> byte list \<times> 's ptp_session) option" where
  "ptp_canon_get_customize_data F s themenr = get_bytes F s PTP_OC_CANON_GetCustomizeData [themenr]"

text \<open>Looking a handle up by its name reads one byte behind the name.\<close>

lemma objecthandle_by_name_overreads:
  assumes "no_iconv (params s)" and "ptp_ascii name"
  shows "ptp_canon_get_objecthandle_by_name F s name = None"
proof -
  let ?buf = "replicate (2 * (length name + 1) + 2) 0 :: byte list"
  have "send_data F s PTP_OC_CANON_GetObjectHandleByName [] ((unat len + 1) * 2 + 1) dat = None"
    if "ptp_pack_string (params s) name ?buf 0 = Some (dat, len)" for dat len
    using pack_ascii [OF assms that] by (simp add: send_data_too_long)
  then show ?thesis
    unfolding ptp_canon_get_objecthandle_by_name_def
    by (cases "ptp_pack_string (params s) name ?buf 0") auto
qed

section \<open>Nikon\<close>

definition PTP_OC_NIKON_GetProfileAllData :: u16 where "PTP_OC_NIKON_GetProfileAllData = 0x9006"
definition PTP_OC_NIKON_SendProfileData :: u16 where "PTP_OC_NIKON_SendProfileData = 0x9007"
definition PTP_OC_NIKON_GetFileInfoInBlock :: u16 where "PTP_OC_NIKON_GetFileInfoInBlock = 0x9011"
definition PTP_OC_NIKON_CurveDownload :: u16 where "PTP_OC_NIKON_CurveDownload = 0x90C5"
definition PTP_OC_NIKON_GetVendorPropCodes :: u16 where "PTP_OC_NIKON_GetVendorPropCodes = 0x90CA"
definition PTP_OC_NIKON_GetDevicePTPIPInfo :: u16 where "PTP_OC_NIKON_GetDevicePTPIPInfo = 0x90E0"
definition PTP_OC_NIKON_GetPreviewImg :: u16 where "PTP_OC_NIKON_GetPreviewImg = 0x9200"
definition PTP_OC_NIKON_GetLiveViewImg :: u16 where "PTP_OC_NIKON_GetLiveViewImg = 0x9203"

definition ptp_nikon_curve_download ::
  "'s io_funs \<Rightarrow> 's ptp_session \<Rightarrow> (u16 \<times> byte list \<times> 's ptp_session) option" where
  "ptp_nikon_curve_download F s = get_bytes F s PTP_OC_NIKON_CurveDownload []"

definition ptp_nikon_get_vendorpropcodes ::
  "'s io_funs \<Rightarrow> 's ptp_session \<Rightarrow> (u16 \<times> u16 list option \<times> 's ptp_session) option" where
  "ptp_nikon_get_vendorpropcodes F s =
     get_dataset F s PTP_OC_NIKON_GetVendorPropCodes [] (\<lambda>P dat. ptp_unpack_uint16_t_array P dat 0)"

definition ptp_nikon_getfileinfoinblock ::
  "'s io_funs \<Rightarrow> 's ptp_session \<Rightarrow> u32 \<Rightarrow> u32 \<Rightarrow> u32 \<Rightarrow> (u16 \<times> byte list \<times> 's ptp_session) option" where
  "ptp_nikon_getfileinfoinblock F s p1 p2 p3 = get_bytes F s PTP_OC_NIKON_GetFileInfoInBlock [p1, p2, p3]"

definition ptp_nikon_get_liveview_image ::
  "'s io_funs \<Rightarrow> 's ptp_session \<Rightarrow> (u16 \<times> byte list \<times> 's ptp_session) option" where
  "ptp_nikon_get_liveview_image F s = get_bytes F s PTP_OC_NIKON_GetLiveViewImg []"

definition ptp_nikon_get_preview_image ::
  "'s io_funs \<Rightarrow> 's ptp_session \<Rightarrow> (u16 \<times> byte list \<times> u32 option \<times> 's ptp_session) option" where
  "ptp_nikon_get_preview_image F s = do {
     (ret, ptp, dat, s') \<leftarrow> get_data F s PTP_OC_NIKON_GetPreviewImg [];
     Some (ret, dat, if ret = PTP_RC_OK \<and> 0 < Nparam ptp then Some (Param1 ptp) else None, s') }"

definition ptp_nikon_getptpipinfo ::
  "'s io_funs \<Rightarrow> 's ptp_session \<Rightarrow> (u16 \<times> byte list \<times> 's ptp_session) option" where
  "ptp_nikon_getptpipinfo F s = get_bytes F s PTP_OC_NIKON_GetDevicePTPIPInfo []"

subsection \<open>Wireless profiles\<close>

text \<open>The arrays of characters have their fixed sizes: 17, 33, 16 and 16.\<close>

definition PTP_RC_Undefined :: u16 where "PTP_RC_Undefined = 0x2000"
definition PTP_RC_StoreFull :: u16 where "PTP_RC_StoreFull = 0x200C"

record nikon_wifi_profile =
  wp_profile_name :: "byte list"
  wp_device_type :: byte
  wp_icon_type :: byte
  wp_essid :: "byte list"
  wp_id :: byte
  wp_valid :: byte
  wp_display_order :: byte
  wp_creation_date :: "byte list"
  wp_lastusage_date :: "byte list"
  wp_ip_address :: u32
  wp_subnet_mask :: byte
  wp_gateway_address :: u32
  wp_address_mode :: byte
  wp_access_mode :: byte
  wp_wifi_channel :: byte
  wp_authentification :: byte
  wp_encryption :: byte
  wp_key :: "byte list"
  wp_key_nr :: byte

definition wifi_profile_zero :: nikon_wifi_profile where
  "wifi_profile_zero = \<lparr>wp_profile_name = replicate 17 0, wp_device_type = 0, wp_icon_type = 0,
     wp_essid = replicate 33 0, wp_id = 0, wp_valid = 0, wp_display_order = 0,
     wp_creation_date = replicate 16 0, wp_lastusage_date = replicate 16 0, wp_ip_address = 0,
     wp_subnet_mask = 0, wp_gateway_address = 0, wp_address_mode = 0, wp_access_mode = 0,
     wp_wifi_channel = 0, wp_authentification = 0, wp_encryption = 0, wp_key = replicate 64 0, wp_key_nr = 0\<rparr>"

text \<open>
  \<open>strncpy\<close> writes exactly \<open>n\<close> bytes: a string of at most \<open>n\<close> bytes, filled up with NULs. The target
  array must have them, and the source must end or have them too.
\<close>

definition strncpy :: "byte list \<Rightarrow> byte list \<Rightarrow> nat \<Rightarrow> byte list option" where
  "strncpy dst src n =
     (if length dst < n \<or> length src < n \<and> 0 \<notin> set src then None
      else let str = cstr (take n src) in Some (str @ replicate (n - length str) 0 @ drop n dst))"

text \<open>
  One profile at \<open>pos\<close>: whether it was read whole, what of it was stored, and the position
  behind it. Sums are \<open>unsigned int\<close>. A string that is empty comes as a NULL pointer.
\<close>

definition wifi_date :: "ptp_params \<Rightarrow> byte list \<Rightarrow> nat \<Rightarrow> byte list \<Rightarrow> (byte list \<times> nat) option" where
  "wifi_date P dat pos dst = do {
     (buffer, len) \<leftarrow> ptp_unpack_string P dat pos;
     str \<leftarrow> buffer;
     date \<leftarrow> strncpy dst (str @ [0]) 16;
     Some (date, uint32 (pos + (unat len * 2 + 1))) }"

definition wifi_essid ::
  "ptp_params \<Rightarrow> byte list \<Rightarrow> nat \<Rightarrow> nikon_wifi_profile \<Rightarrow> (bool \<times> nikon_wifi_profile \<times> nat) option" where
  "wifi_essid P dat pos p =
     (if length dat \<le> uint32 (pos + 5) then Some (False, p, pos)
      else do {
        n \<leftarrow> dtoh32a P dat pos;
        let pos = pos + 4;
        (if length dat \<le> uint32 (pos + unat n) then Some (False, p, pos)
         else do {
           essid \<leftarrow> strncpy (wp_essid p) (drop pos dat) (unat n);
           Some (True, p\<lparr>wp_essid := essid[32 := 0]\<rparr>, uint32 (pos + unat n + 1)) }) })"

definition wifi_dates ::
  "ptp_params \<Rightarrow> byte list \<Rightarrow> nat \<Rightarrow> nikon_wifi_profile \<Rightarrow> (bool \<times> nikon_wifi_profile \<times> nat) option" where
  "wifi_dates P dat pos p = do {
     (created, pos) \<leftarrow> wifi_date P dat pos (wp_creation_date p);
     let p = p\<lparr>wp_creation_date := created\<rparr>;
     (if length dat \<le> uint32 (pos + 1) then Some (False, p, pos)
      else do {
        (used, pos) \<leftarrow> wifi_date P dat pos (wp_lastusage_date p);
        wifi_essid P dat pos (p\<lparr>wp_lastusage_date := used\<rparr>) }) }"

definition wifi_profile_at ::
  "ptp_params \<Rightarrow> byte list \<Rightarrow> nat \<Rightarrow> nikon_wifi_profile \<Rightarrow> (bool \<times> nikon_wifi_profile \<times> nat) option" where
  "wifi_profile_at P dat pos p =
     (if length dat \<le> uint32 (pos + 6) then Some (False, p, pos)
      else do {
        id \<leftarrow> dtoh8a dat pos;
        valid \<leftarrow> dtoh8a dat (pos + 1);
        let p = p\<lparr>wp_id := id, wp_valid := valid\<rparr>;
        n \<leftarrow> dtoh32a P dat (pos + 2);
        let pos = pos + 6;
        (if length dat \<le> uint32 (pos + unat n + 4) then Some (False, p, pos)
         else do {
           name \<leftarrow> strncpy (wp_profile_name p) (drop pos dat) (unat n);
           let pos = pos + unat n;
           order \<leftarrow> dtoh8a dat pos;
           dev \<leftarrow> dtoh8a dat (pos + 1);
           icon \<leftarrow> dtoh8a dat (pos + 2);
           wifi_dates P dat (pos + 3)
             (p\<lparr>wp_profile_name := name[16 := 0], wp_display_order := order, wp_device_type := dev,
                wp_icon_type := icon\<rparr>) }) })"

text \<open>The length of a name is taken from the data: a name that is longer than its array is written over the rest.\<close>

lemma wifi_long_name_undefined:
  assumes "dtoh32a P dat (pos + 2) = Some n" and "17 < unat n" and "pos + 6 + unat n + 4 < length dat"
    and "length dat < 2 ^ 32" and "length (wp_profile_name p) = 17"
  shows "wifi_profile_at P dat pos p = None"
  using assms by (simp add: wifi_profile_at_def strncpy_def dtoh8a_nth)

text \<open>The profiles from \<open>pos\<close> on, of which \<open>n\<close> are announced; those that do not come stay zero.\<close>

fun wifi_profiles_at :: "ptp_params \<Rightarrow> byte list \<Rightarrow> nat \<Rightarrow> nat \<Rightarrow> (u16 \<times> nikon_wifi_profile list) option" where
  "wifi_profiles_at P dat pos 0 = Some (PTP_RC_OK, [])"
| "wifi_profiles_at P dat pos (Suc n) =
     (if length dat \<le> pos then Some (PTP_RC_OK, replicate (Suc n) wifi_profile_zero)
      else do {
        (whole, p, pos') \<leftarrow> wifi_profile_at P dat pos wifi_profile_zero;
        (if \<not> whole then Some (PTP_RC_Undefined, p # replicate n wifi_profile_zero)
         else do { (ret, ps) \<leftarrow> wifi_profiles_at P dat pos' n; Some (ret, p # ps) }) })"

text \<open>The version and the profiles of \<open>PTPParams\<close>; \<open>None\<close> for profiles that were never read.\<close>

record nikon_wifi =
  wifi_version :: byte
  wifi_profiles :: "nikon_wifi_profile list option"

definition ptp_nikon_getwifiprofilelist ::
  "'s io_funs \<Rightarrow> nikon_wifi \<Rightarrow> 's ptp_session \<Rightarrow> (u16 \<times> nikon_wifi \<times> 's ptp_session) option" where
  "ptp_nikon_getwifiprofilelist F w s = do {
     (ret, dat, s') \<leftarrow> get_bytes F s PTP_OC_NIKON_GetProfileAllData [];
     (if ret \<noteq> PTP_RC_OK then Some (ret, w, s')
      else if length dat < 2 then Some (PTP_RC_Undefined, w, s')
      else do {
        (rc, ps) \<leftarrow> wifi_profiles_at (params s') dat 2 (unat (dat ! 1));
        Some (rc, \<lparr>wifi_version = dat ! 0, wifi_profiles = Some ps\<rparr>, s') }) }"

text \<open>The packet for a profile; \<open>guid\<close> is what is on the stack, since the function that should fill it is empty.\<close>

definition date_1999 :: "byte list" where
  "date_1999 = [0x31, 0x39, 0x39, 0x39, 0x30, 0x39, 0x30, 0x39, 0x54, 0x30, 0x39, 0x30, 0x39, 0x30, 0x39]"

definition wifi_packet :: "byte list \<Rightarrow> ptp_params \<Rightarrow> nikon_wifi_profile \<Rightarrow> byte list option" where
  "wifi_packet guid P p = do {
     name \<leftarrow> strncpy (replicate 16 0) (wp_profile_name p) 16;
     essid \<leftarrow> strncpy (replicate 32 0) (wp_essid p) 32;
     key \<leftarrow> rd (wp_key p) 0 64;
     buf \<leftarrow> wrs (replicate 1024 0)
       [(0x00, [0x64]), (0x01, htod32ap P 17), (0x05, name), (0x16, [0x00]), (0x17, [wp_device_type p]),
        (0x18, [wp_icon_type p])];
     (buf, _) \<leftarrow> ptp_pack_string P date_1999 buf 0x19;
     wrs buf
       [(0x3A, le_bytes 4 (wp_ip_address p)), (0x3E, [wp_subnet_mask p]), (0x3F, le_bytes 4 (wp_gateway_address p)),
        (0x43, [wp_address_mode p]), (0x44, [wp_access_mode p]), (0x45, [wp_wifi_channel p]),
        (0x46, htod32ap P 33), (0x4A, essid), (0x6B, [wp_authentification p]), (0x6C, [wp_encryption p]),
        (0x6D, htod32ap P 64), (0x71, key), (0xB1, [wp_key_nr p]), (0xB2, take 16 guid),
        (0xC2, htod16ap P (if wp_encryption p = 1 then 5 else if wp_encryption p = 2 then 13 else 0))] }"

definition ptp_nikon_writewifiprofile ::
  "byte list \<Rightarrow> 's io_funs \<Rightarrow> nikon_wifi \<Rightarrow> nikon_wifi_profile \<Rightarrow> 's ptp_session \<Rightarrow>
     (u16 \<times> nikon_wifi \<times> 's ptp_session) option" where
  "ptp_nikon_writewifiprofile guid F w p s = do {
     (rc, w, s) \<leftarrow> (if wifi_profiles w = None then ptp_nikon_getwifiprofilelist F w s else Some (PTP_RC_OK, w, s));
     (if rc \<noteq> PTP_RC_OK then Some (rc, w, s)
      else do {
        ps \<leftarrow> wifi_profiles w;
        (case List.find (\<lambda>q. wp_valid q = 0) ps of
           None \<Rightarrow> Some (PTP_RC_StoreFull, w, s)
         | Some q \<Rightarrow> do {
             buf \<leftarrow> wifi_packet guid (params s) p;
             (ret, _, s') \<leftarrow> send_data F s PTP_OC_NIKON_SendProfileData [ucast (wp_id q)] 0xC4 buf;
             Some (ret, w, s') }) }) }"

section \<open>CHDK\<close>

definition PTP_OC_CHDK :: u16 where "PTP_OC_CHDK = 0x9999"
definition PTP_CHDK_GetMemory :: u32 where "PTP_CHDK_GetMemory = 1"
definition PTP_CHDK_CallFunction :: u32 where "PTP_CHDK_CallFunction = 3"
definition PTP_CHDK_GetPropCase :: u32 where "PTP_CHDK_GetPropCase = 4"
definition PTP_CHDK_GetParamData :: u32 where "PTP_CHDK_GetParamData = 5"
definition PTP_CHDK_ExecuteLUA :: u32 where "PTP_CHDK_ExecuteLUA = 10"
definition PTP_CHDK_GetVideoSettings :: u32 where "PTP_CHDK_GetVideoSettings = 11"
definition PTP_CHDK_GetScriptOutput :: u32 where "PTP_CHDK_GetScriptOutput = 12"

definition ptp_chdk_get_memory ::
  "'s io_funs \<Rightarrow> 's ptp_session \<Rightarrow> u32 \<Rightarrow> u32 \<Rightarrow> (u16 \<times> byte list \<times> 's ptp_session) option" where
  "ptp_chdk_get_memory F s start num = get_bytes F s PTP_OC_CHDK [PTP_CHDK_GetMemory, start, num]"

text \<open>The returned value of the called function is stored only when the call failed.\<close>

definition ptp_chdk_call ::
  "'s io_funs \<Rightarrow> 's ptp_session \<Rightarrow> u32 list \<Rightarrow> nat \<Rightarrow> (u16 \<times> u32 option \<times> 's ptp_session) option" where
  "ptp_chdk_call F s args sz = do {
     (r, ptp, s') \<leftarrow>
       send_data F s PTP_OC_CHDK [PTP_CHDK_CallFunction] (sz * 4) (concat (map (le_bytes 4) args));
     Some (r, if r = PTP_RC_OK then None else Some (Param1 ptp), s') }"

text \<open>
  The caller's array gets the pointer to the received data, not the data: \<open>addr\<close> is the address of
  the memory they are in, 8 bytes.
\<close>

definition ptp_chdk_get_propcase ::
  "u64 \<Rightarrow> 's io_funs \<Rightarrow> 's ptp_session \<Rightarrow> u32 \<Rightarrow> u32 \<Rightarrow> u32 list \<Rightarrow> (u16 \<times> u32 list \<times> 's ptp_session) option" where
  "ptp_chdk_get_propcase addr F s start num ints = do {
     (ret, dat, s') \<leftarrow> get_bytes F s PTP_OC_CHDK [PTP_CHDK_GetPropCase, start, num];
     (if length ints < 2 then None
      else let p = (if dat = [] then 0 else addr)
           in Some (ret, ints[0 := ucast p, 1 := ucast (drop_bit 32 p)], s')) }"

definition ptp_chdk_get_paramdata ::
  "'s io_funs \<Rightarrow> 's ptp_session \<Rightarrow> u32 \<Rightarrow> u32 \<Rightarrow> (u16 \<times> byte list \<times> 's ptp_session) option" where
  "ptp_chdk_get_paramdata F s start num = get_bytes F s PTP_OC_CHDK [PTP_CHDK_GetParamData, start, num]"

definition ptp_chdk_exec_lua ::
  "'s io_funs \<Rightarrow> 's ptp_session \<Rightarrow> byte list \<Rightarrow> (u16 \<times> u32 option \<times> 's ptp_session) option" where
  "ptp_chdk_exec_lua F s script = do {
     (r, ptp, s') \<leftarrow> send_data F s PTP_OC_CHDK [PTP_CHDK_ExecuteLUA] (length script + 1) (script @ [0]);
     Some (r, if r \<noteq> PTP_RC_OK then None else Some (Param1 ptp), s') }"

definition ptp_chdk_get_script_output ::
  "'s io_funs \<Rightarrow> 's ptp_session \<Rightarrow> (u16 \<times> byte list \<times> 's ptp_session) option" where
  "ptp_chdk_get_script_output F s = get_bytes F s PTP_OC_CHDK [PTP_CHDK_GetScriptOutput]"

text \<open>Six \<open>long\<close> of 8 bytes and sixteen \<open>unsigned\<close>, copied as they are, however few came.\<close>

definition chdk_videosettings_size :: nat where "chdk_videosettings_size = 6 * 8 + 16 * 4"

definition ptp_chdk_get_video_settings ::
  "'s io_funs \<Rightarrow> 's ptp_session \<Rightarrow> byte list \<Rightarrow> (u16 \<times> byte list \<times> 's ptp_session) option" where
  "ptp_chdk_get_video_settings F s vsettings = do {
     (ret, buf, s') \<leftarrow> get_bytes F s PTP_OC_CHDK [PTP_CHDK_GetVideoSettings];
     (if ret \<noteq> PTP_RC_OK \<or> buf = [] then Some (ret, vsettings, s')
      else do { v \<leftarrow> rd buf 0 chdk_videosettings_size; Some (ret, v, s') }) }"

end
