(* ===== verification/Ptp_Eos.thy ===== *)
theory Ptp_Eos
  imports Ptp_Vendor
begin

unbundle bit_operations_syntax

text \<open>
  The EOS cameras of Canon (\<open>src/src/ptp.c\<close>, \<open>src/src/ptp-pack.c\<close>): a camera reports changes in
  records of its own, which fill a table of properties (\<open>canon_props\<close> of \<open>PTPParams\<close>) and a
  backlog of events; properties are described and set from that table.
\<close>

section \<open>Codes\<close>

definition PTP_DPC_CANON_EOS_ImageFormat :: u32 where "PTP_DPC_CANON_EOS_ImageFormat = 0xD120"
definition PTP_DPC_CANON_EOS_ImageFormatCF :: u32 where "PTP_DPC_CANON_EOS_ImageFormatCF = 0xD121"
definition PTP_DPC_CANON_EOS_ImageFormatSD :: u32 where "PTP_DPC_CANON_EOS_ImageFormatSD = 0xD122"
definition PTP_DPC_CANON_EOS_ImageFormatExtHD :: u32 where "PTP_DPC_CANON_EOS_ImageFormatExtHD = 0xD123"
definition PTP_DPC_CANON_EOS_FocusMode :: u32 where "PTP_DPC_CANON_EOS_FocusMode = 0xD108"
definition PTP_DPC_CANON_EOS_BatteryPower :: u32 where "PTP_DPC_CANON_EOS_BatteryPower = 0xD111"
definition PTP_DPC_CANON_EOS_BatterySelect :: u32 where "PTP_DPC_CANON_EOS_BatterySelect = 0xD112"
definition PTP_DPC_CANON_EOS_ModelID :: u32 where "PTP_DPC_CANON_EOS_ModelID = 0xD116"
definition PTP_DPC_CANON_EOS_PTPExtensionVersion :: u32 where "PTP_DPC_CANON_EOS_PTPExtensionVersion = 0xD119"
definition PTP_DPC_CANON_EOS_DPOFVersion :: u32 where "PTP_DPC_CANON_EOS_DPOFVersion = 0xD11A"
definition PTP_DPC_CANON_EOS_AvailableShots :: u32 where "PTP_DPC_CANON_EOS_AvailableShots = 0xD11B"
definition PTP_DPC_CANON_EOS_CurrentStorage :: u32 where "PTP_DPC_CANON_EOS_CurrentStorage = 0xD11E"
definition PTP_DPC_CANON_EOS_CurrentFolder :: u32 where "PTP_DPC_CANON_EOS_CurrentFolder = 0xD11F"
definition PTP_DPC_CANON_EOS_MyMenu :: u32 where "PTP_DPC_CANON_EOS_MyMenu = 0xD1A1"
definition PTP_DPC_CANON_EOS_MyMenuList :: u32 where "PTP_DPC_CANON_EOS_MyMenuList = 0xD1A2"
definition PTP_DPC_CANON_EOS_HDDirectoryStructure :: u32 where "PTP_DPC_CANON_EOS_HDDirectoryStructure = 0xD1A5"
definition PTP_DPC_CANON_EOS_BatteryInfo :: u32 where "PTP_DPC_CANON_EOS_BatteryInfo = 0xD1A6"
definition PTP_DPC_CANON_EOS_AdapterInfo :: u32 where "PTP_DPC_CANON_EOS_AdapterInfo = 0xD1A7"
definition PTP_DPC_CANON_EOS_LensStatus :: u32 where "PTP_DPC_CANON_EOS_LensStatus = 0xD1A8"
definition PTP_DPC_CANON_EOS_CardExtension :: u32 where "PTP_DPC_CANON_EOS_CardExtension = 0xD1AA"
definition PTP_DPC_CANON_EOS_TempStatus :: u32 where "PTP_DPC_CANON_EOS_TempStatus = 0xD1AB"
definition PTP_DPC_CANON_EOS_ShutterCounter :: u32 where "PTP_DPC_CANON_EOS_ShutterCounter = 0xD1AC"
definition PTP_DPC_CANON_EOS_SerialNumber :: u32 where "PTP_DPC_CANON_EOS_SerialNumber = 0xD1AF"
definition PTP_DPC_CANON_EOS_DepthOfFieldPreview :: u32 where "PTP_DPC_CANON_EOS_DepthOfFieldPreview = 0xD1B2"
definition PTP_DPC_CANON_EOS_EVFRecordStatus :: u32 where "PTP_DPC_CANON_EOS_EVFRecordStatus = 0xD1B8"
definition PTP_DPC_CANON_EOS_LvAfSystem :: u32 where "PTP_DPC_CANON_EOS_LvAfSystem = 0xD1BA"
definition PTP_DPC_CANON_EOS_FocusInfoEx :: u32 where "PTP_DPC_CANON_EOS_FocusInfoEx = 0xD1D3"
definition PTP_DPC_CANON_EOS_DepthOfField :: u32 where "PTP_DPC_CANON_EOS_DepthOfField = 0xD1D4"
definition PTP_DPC_CANON_EOS_Brightness :: u32 where "PTP_DPC_CANON_EOS_Brightness = 0xD1D5"
definition PTP_DPC_CANON_EOS_EFComp :: u32 where "PTP_DPC_CANON_EOS_EFComp = 0xD1D7"
definition PTP_DPC_CANON_EOS_LensName :: u32 where "PTP_DPC_CANON_EOS_LensName = 0xD1D8"
definition PTP_DPC_CANON_EOS_LensID :: u32 where "PTP_DPC_CANON_EOS_LensID = 0xD1DD"
definition PTP_DPC_CANON_EOS_CameraTime :: u32 where "PTP_DPC_CANON_EOS_CameraTime = 0xD113"
definition PTP_DPC_CANON_EOS_CaptureDestination :: u32 where "PTP_DPC_CANON_EOS_CaptureDestination = 0xD11C"
definition PTP_DPC_CANON_EOS_WhiteBalanceXA :: u32 where "PTP_DPC_CANON_EOS_WhiteBalanceXA = 0xD10D"
definition PTP_DPC_CANON_EOS_WhiteBalanceXB :: u32 where "PTP_DPC_CANON_EOS_WhiteBalanceXB = 0xD10E"
definition PTP_DPC_CANON_EOS_StroboFiring :: u32 where "PTP_DPC_CANON_EOS_StroboFiring = 0xD1DC"
definition PTP_DPC_CANON_EOS_AutoExposureMode :: u32 where "PTP_DPC_CANON_EOS_AutoExposureMode = 0xD105"
definition PTP_DPC_CANON_EOS_Aperture :: u32 where "PTP_DPC_CANON_EOS_Aperture = 0xD101"
definition PTP_DPC_CANON_EOS_ShutterSpeed :: u32 where "PTP_DPC_CANON_EOS_ShutterSpeed = 0xD102"
definition PTP_DPC_CANON_EOS_ISOSpeed :: u32 where "PTP_DPC_CANON_EOS_ISOSpeed = 0xD103"
definition PTP_DPC_CANON_EOS_ColorSpace :: u32 where "PTP_DPC_CANON_EOS_ColorSpace = 0xD10F"
definition PTP_DPC_CANON_EOS_DriveMode :: u32 where "PTP_DPC_CANON_EOS_DriveMode = 0xD106"
definition PTP_DPC_CANON_EOS_AEB :: u32 where "PTP_DPC_CANON_EOS_AEB = 0xD1D9"
definition PTP_DPC_CANON_EOS_BracketMode :: u32 where "PTP_DPC_CANON_EOS_BracketMode = 0xD11D"
definition PTP_DPC_CANON_EOS_QuickReviewTime :: u32 where "PTP_DPC_CANON_EOS_QuickReviewTime = 0xD1A9"
definition PTP_DPC_CANON_EOS_EVFMode :: u32 where "PTP_DPC_CANON_EOS_EVFMode = 0xD1B1"
definition PTP_DPC_CANON_EOS_EVFOutputDevice :: u32 where "PTP_DPC_CANON_EOS_EVFOutputDevice = 0xD1B0"
definition PTP_DPC_CANON_EOS_PictureStyle :: u32 where "PTP_DPC_CANON_EOS_PictureStyle = 0xD110"
definition PTP_DPC_CANON_EOS_WhiteBalance :: u32 where "PTP_DPC_CANON_EOS_WhiteBalance = 0xD109"
definition PTP_DPC_CANON_EOS_MeteringMode :: u32 where "PTP_DPC_CANON_EOS_MeteringMode = 0xD107"
definition PTP_DPC_CANON_EOS_ExpCompensation :: u32 where "PTP_DPC_CANON_EOS_ExpCompensation = 0xD104"
definition PTP_DPC_CANON_EOS_Owner :: u32 where "PTP_DPC_CANON_EOS_Owner = 0xD115"
definition PTP_DPC_CANON_EOS_Artist :: u32 where "PTP_DPC_CANON_EOS_Artist = 0xD1D0"
definition PTP_DPC_CANON_EOS_Copyright :: u32 where "PTP_DPC_CANON_EOS_Copyright = 0xD1D1"
definition PTP_DPC_CANON_EOS_WhiteBalanceAdjustA :: u32 where "PTP_DPC_CANON_EOS_WhiteBalanceAdjustA = 0xD10B"
definition PTP_DPC_CANON_EOS_WhiteBalanceAdjustB :: u32 where "PTP_DPC_CANON_EOS_WhiteBalanceAdjustB = 0xD10C"
definition PTP_DPC_CANON_EOS_CustomFunc1 :: u32 where "PTP_DPC_CANON_EOS_CustomFunc1 = 0xD180"
definition PTP_DPC_CANON_EOS_CustomFunc2 :: u32 where "PTP_DPC_CANON_EOS_CustomFunc2 = 0xD181"
definition PTP_DPC_CANON_EOS_CustomFunc3 :: u32 where "PTP_DPC_CANON_EOS_CustomFunc3 = 0xD182"
definition PTP_DPC_CANON_EOS_CustomFunc4 :: u32 where "PTP_DPC_CANON_EOS_CustomFunc4 = 0xD183"
definition PTP_DPC_CANON_EOS_CustomFunc5 :: u32 where "PTP_DPC_CANON_EOS_CustomFunc5 = 0xD184"
definition PTP_DPC_CANON_EOS_CustomFunc6 :: u32 where "PTP_DPC_CANON_EOS_CustomFunc6 = 0xD185"
definition PTP_DPC_CANON_EOS_CustomFunc7 :: u32 where "PTP_DPC_CANON_EOS_CustomFunc7 = 0xD186"
definition PTP_DPC_CANON_EOS_CustomFunc8 :: u32 where "PTP_DPC_CANON_EOS_CustomFunc8 = 0xD187"
definition PTP_DPC_CANON_EOS_CustomFunc9 :: u32 where "PTP_DPC_CANON_EOS_CustomFunc9 = 0xD188"
definition PTP_DPC_CANON_EOS_CustomFunc10 :: u32 where "PTP_DPC_CANON_EOS_CustomFunc10 = 0xD189"
definition PTP_DPC_CANON_EOS_CustomFunc11 :: u32 where "PTP_DPC_CANON_EOS_CustomFunc11 = 0xD18A"
definition PTP_DPC_CANON_EOS_ColorTemperature :: u32 where "PTP_DPC_CANON_EOS_ColorTemperature = 0xD10A"
definition PTP_DPC_CANON_EOS_WftStatus :: u32 where "PTP_DPC_CANON_EOS_WftStatus = 0xD1A3"
definition PTP_DPC_CANON_EOS_PhotoStudioMode :: u32 where "PTP_DPC_CANON_EOS_PhotoStudioMode = 0xD1AE"
definition PTP_DPC_CANON_EOS_EVFSharpness :: u32 where "PTP_DPC_CANON_EOS_EVFSharpness = 0xD1B3"
definition PTP_DPC_CANON_EOS_EVFWBMode :: u32 where "PTP_DPC_CANON_EOS_EVFWBMode = 0xD1B4"
definition PTP_DPC_CANON_EOS_EVFClickWBCoeffs :: u32 where "PTP_DPC_CANON_EOS_EVFClickWBCoeffs = 0xD1B5"
definition PTP_DPC_CANON_EOS_EVFColorTemp :: u32 where "PTP_DPC_CANON_EOS_EVFColorTemp = 0xD1B6"
definition PTP_DPC_CANON_EOS_ExposureSimMode :: u32 where "PTP_DPC_CANON_EOS_ExposureSimMode = 0xD1B7"
definition PTP_DPC_CANON_EOS_MovSize :: u32 where "PTP_DPC_CANON_EOS_MovSize = 0xD1BB"
definition PTP_DPC_CANON_EOS_LvViewTypeSelect :: u32 where "PTP_DPC_CANON_EOS_LvViewTypeSelect = 0xD1BC"
definition PTP_DPC_CANON_EOS_CustomFuncEx :: u32 where "PTP_DPC_CANON_EOS_CustomFuncEx = 0xD1A0"
definition PTP_EC_CANON_EOS_ObjectAddedEx :: u32 where "PTP_EC_CANON_EOS_ObjectAddedEx = 0xC181"
definition PTP_EC_CANON_EOS_RequestObjectTransfer :: u32 where "PTP_EC_CANON_EOS_RequestObjectTransfer = 0xC186"
definition PTP_EC_CANON_EOS_PropValueChanged :: u32 where "PTP_EC_CANON_EOS_PropValueChanged = 0xC189"
definition PTP_EC_CANON_EOS_AvailListChanged :: u32 where "PTP_EC_CANON_EOS_AvailListChanged = 0xC18A"
definition PTP_EC_CANON_EOS_CameraStatusChanged :: u32 where "PTP_EC_CANON_EOS_CameraStatusChanged = 0xC18B"
definition PTP_EC_CANON_EOS_RequestGetEvent :: u32 where "PTP_EC_CANON_EOS_RequestGetEvent = 0xC101"
definition PTP_EC_CANON_EOS_ObjectRemoved :: u32 where "PTP_EC_CANON_EOS_ObjectRemoved = 0xC182"
definition PTP_EC_CANON_EOS_RequestGetObjectInfoEx :: u32 where "PTP_EC_CANON_EOS_RequestGetObjectInfoEx = 0xC183"
definition PTP_EC_CANON_EOS_StorageStatusChanged :: u32 where "PTP_EC_CANON_EOS_StorageStatusChanged = 0xC184"
definition PTP_EC_CANON_EOS_StorageInfoChanged :: u32 where "PTP_EC_CANON_EOS_StorageInfoChanged = 0xC185"
definition PTP_EC_CANON_EOS_ObjectInfoChangedEx :: u32 where "PTP_EC_CANON_EOS_ObjectInfoChangedEx = 0xC187"
definition PTP_EC_CANON_EOS_ObjectContentChanged :: u32 where "PTP_EC_CANON_EOS_ObjectContentChanged = 0xC188"
definition PTP_EC_CANON_EOS_WillSoonShutdown :: u32 where "PTP_EC_CANON_EOS_WillSoonShutdown = 0xC18D"
definition PTP_EC_CANON_EOS_ShutdownTimerUpdated :: u32 where "PTP_EC_CANON_EOS_ShutdownTimerUpdated = 0xC18E"
definition PTP_EC_CANON_EOS_RequestCancelTransfer :: u32 where "PTP_EC_CANON_EOS_RequestCancelTransfer = 0xC18F"
definition PTP_EC_CANON_EOS_RequestObjectTransferDT :: u32 where "PTP_EC_CANON_EOS_RequestObjectTransferDT = 0xC190"
definition PTP_EC_CANON_EOS_RequestCancelTransferDT :: u32 where "PTP_EC_CANON_EOS_RequestCancelTransferDT = 0xC191"
definition PTP_EC_CANON_EOS_StoreAdded :: u32 where "PTP_EC_CANON_EOS_StoreAdded = 0xC192"
definition PTP_EC_CANON_EOS_StoreRemoved :: u32 where "PTP_EC_CANON_EOS_StoreRemoved = 0xC193"
definition PTP_EC_CANON_EOS_BulbExposureTime :: u32 where "PTP_EC_CANON_EOS_BulbExposureTime = 0xC194"
definition PTP_EC_CANON_EOS_RecordingTime :: u32 where "PTP_EC_CANON_EOS_RecordingTime = 0xC195"
definition PTP_EC_CANON_EOS_RequestObjectTransferTS :: u32 where "PTP_EC_CANON_EOS_RequestObjectTransferTS = 0xC1A2"
definition PTP_EC_CANON_EOS_AfResult :: u32 where "PTP_EC_CANON_EOS_AfResult = 0xC1A3"
definition PTP_OC_CANON_EOS_GetStorageIDs :: u16 where "PTP_OC_CANON_EOS_GetStorageIDs = 0x9101"
definition PTP_OC_CANON_EOS_GetStorageInfo :: u16 where "PTP_OC_CANON_EOS_GetStorageInfo = 0x9102"
definition PTP_OC_CANON_EOS_GetPartialObject :: u16 where "PTP_OC_CANON_EOS_GetPartialObject = 0x9107"
definition PTP_OC_CANON_EOS_GetDeviceInfoEx :: u16 where "PTP_OC_CANON_EOS_GetDeviceInfoEx = 0x9108"
definition PTP_OC_CANON_EOS_RemoteRelease :: u16 where "PTP_OC_CANON_EOS_RemoteRelease = 0x910F"
definition PTP_OC_CANON_EOS_SetDevicePropValueEx :: u16 where "PTP_OC_CANON_EOS_SetDevicePropValueEx = 0x9110"
definition PTP_OC_CANON_EOS_GetEvent :: u16 where "PTP_OC_CANON_EOS_GetEvent = 0x9116"
definition PTP_OC_CANON_EOS_BulbStart :: u16 where "PTP_OC_CANON_EOS_BulbStart = 0x9125"
definition PTP_OC_CANON_EOS_BulbEnd :: u16 where "PTP_OC_CANON_EOS_BulbEnd = 0x9126"
definition PTP_OC_CANON_EOS_GetViewFinderData :: u16 where "PTP_OC_CANON_EOS_GetViewFinderData = 0x9153"
definition PTP_ece_Size :: nat where "PTP_ece_Size = 0"
definition PTP_ece_Type :: nat where "PTP_ece_Type = 4"
definition PTP_ece_Prop_Subtype :: nat where "PTP_ece_Prop_Subtype = 8"
definition PTP_ece_Prop_Val_Data :: nat where "PTP_ece_Prop_Val_Data = 0xc"
definition PTP_ece_Prop_Desc_Type :: nat where "PTP_ece_Prop_Desc_Type = 0xc"
definition PTP_ece_Prop_Desc_Count :: nat where "PTP_ece_Prop_Desc_Count = 0x10"
definition PTP_ece_Prop_Desc_Data :: nat where "PTP_ece_Prop_Desc_Data = 0x14"
definition PTP_ece_OI_ObjectID :: nat where "PTP_ece_OI_ObjectID = 8"
definition PTP_ece_OI_OFC :: nat where "PTP_ece_OI_OFC = 0x0c"
definition PTP_ece_OI_Size :: nat where "PTP_ece_OI_Size = 0x14"
definition PTP_ece_OI_Name :: nat where "PTP_ece_OI_Name = 0x1c"
definition PTP_ece_OA_ObjectID :: nat where "PTP_ece_OA_ObjectID = 8"
definition PTP_ece_OA_StorageID :: nat where "PTP_ece_OA_StorageID = 0x0c"
definition PTP_ece_OA_OFC :: nat where "PTP_ece_OA_OFC = 0x10"
definition PTP_ece_OA_Size :: nat where "PTP_ece_OA_Size = 0x1c"
definition PTP_ece_OA_Parent :: nat where "PTP_ece_OA_Parent = 0x20"
definition PTP_ece_OA_Name :: nat where "PTP_ece_OA_Name = 0x28"

lemmas ece_defs = PTP_ece_Size_def PTP_ece_Type_def PTP_ece_Prop_Subtype_def PTP_ece_Prop_Val_Data_def PTP_ece_Prop_Desc_Type_def PTP_ece_Prop_Desc_Count_def PTP_ece_Prop_Desc_Data_def PTP_ece_OI_ObjectID_def PTP_ece_OI_OFC_def PTP_ece_OI_Size_def PTP_ece_OI_Name_def PTP_ece_OA_ObjectID_def PTP_ece_OA_StorageID_def PTP_ece_OA_OFC_def PTP_ece_OA_Size_def PTP_ece_OA_Parent_def PTP_ece_OA_Name_def

section \<open>Image formats\<close>

text \<open>Two entries of size and compression, four bits each, in 16 bits.\<close>

definition image_format :: "u32 \<Rightarrow> u32 \<Rightarrow> u32 \<Rightarrow> u32 \<Rightarrow> u16" where
  "image_format s1 c1 s2 c2 =
     ucast (push_bit 12 (s1 AND 0xF) OR push_bit 8 (c1 AND 0xF) OR push_bit 4 (s2 AND 0xF) OR (c2 AND 0xF))"

text \<open>The format, and the position behind it; a format that is not understood is 0 and takes no bytes.\<close>

definition ptp_unpack_EOS_ImageFormat :: "'p ptp_params_scheme \<Rightarrow> byte list \<Rightarrow> nat \<Rightarrow> (u16 \<times> nat) option" where
  "ptp_unpack_EOS_ImageFormat P dat d = do {
     n \<leftarrow> dtoh32a P dat d;
     (if n \<noteq> 1 \<and> n \<noteq> 2 then Some (0, d)
      else do {
        l \<leftarrow> dtoh32a P dat (d + 4);
        (if l \<noteq> 0x10 then Some (0, d)
         else do {
           s1 \<leftarrow> dtoh32a P dat (d + 12);
           c1 \<leftarrow> dtoh32a P dat (d + 16);
           (if n = 2 then do {
              l \<leftarrow> dtoh32a P dat (d + 20);
              (if l \<noteq> 0x10 then Some (0, d)
               else do {
                 s2 \<leftarrow> dtoh32a P dat (d + 28);
                 c2 \<leftarrow> dtoh32a P dat (d + 32);
                 Some (image_format s1 c1 s2 c2, d + 36) }) }
            else Some (image_format s1 c1 0 0, d + 20)) }) }) }"

definition nibble :: "u16 \<Rightarrow> nat \<Rightarrow> u32" where
  "nibble v k = ucast (drop_bit k v AND 0xF)"

definition image_type :: "u32 \<Rightarrow> u32" where
  "image_type c = (if c = 4 then 6 else 1)"

text \<open>The size alone is asked for with a NULL pointer.\<close>

definition image_format_size :: "u16 \<Rightarrow> nat" where
  "image_format_size v = 4 + 0x10 * (if v AND 0xFF \<noteq> 0 then 2 else 1)"

definition ptp_pack_EOS_ImageFormat :: "'p ptp_params_scheme \<Rightarrow> u16 \<Rightarrow> byte list" where
  "ptp_pack_EOS_ImageFormat P v =
     concat (map (htod32ap P)
       ([if v AND 0xFF \<noteq> 0 then 2 else 1, 0x10, image_type (nibble v 8), nibble v 12, nibble v 8] @
        (if v AND 0xFF \<noteq> 0 then [0x10, image_type (nibble v 0), nibble v 4, nibble v 0] else [])))"

section \<open>Properties\<close>

record canon_property =
  cp_size :: u32
  cp_type :: u32
  cp_proptype :: u32
  cp_data :: "byte list"
  cp_dpd :: ptp_device_prop_desc

text \<open>What \<open>PTPParams\<close> holds for these cameras, without the backlog.\<close>

record eos_state =
  canon_props :: "canon_property list"
  eos_camerastatus :: u32

definition find_canon_prop :: "eos_state \<Rightarrow> u32 \<Rightarrow> nat option" where
  "find_canon_prop st proptype = List.find (\<lambda>j. cp_proptype (canon_props st ! j) = proptype) [0..<length (canon_props st)]"

definition set_dpd :: "nat \<Rightarrow> ptp_device_prop_desc \<Rightarrow> eos_state \<Rightarrow> eos_state" where
  "set_dpd j dpd st = st\<lparr>canon_props := (canon_props st)[j := (canon_props st ! j)\<lparr>cp_dpd := dpd\<rparr>]\<rparr>"

definition image_format_props :: "u32 list" where
  "image_format_props = [PTP_DPC_CANON_EOS_ImageFormat, PTP_DPC_CANON_EOS_ImageFormatCF,
     PTP_DPC_CANON_EOS_ImageFormatSD, PTP_DPC_CANON_EOS_ImageFormatExtHD]"

text \<open>The values of an enumeration from \<open>x\<close> on. Of an unhandled type they stay uninitialised.\<close>

fun image_formats :: "ptp_params \<Rightarrow> byte list \<Rightarrow> nat \<Rightarrow> nat \<Rightarrow> ptp_property_value list option" where
  "image_formats P dat x 0 = Some []"
| "image_formats P dat x (Suc n) = do {
     (v, x') \<leftarrow> ptp_unpack_EOS_ImageFormat P dat x;
     vs \<leftarrow> image_formats P dat x' n;
     Some (PV_16 (dtoh16p P v) # vs) }"

definition supported_values ::
  "ptp_params \<Rightarrow> byte list \<Rightarrow> u32 \<Rightarrow> u32 \<Rightarrow> u16 \<Rightarrow> nat \<Rightarrow> nat \<Rightarrow> ptp_property_value list option" where
  "supported_values P dat proptype esz dt x n =
     (if proptype \<in> set image_format_props then image_formats P dat x n
      else if dt = PTP_DTC_INT16 \<or> dt = PTP_DTC_UINT16
        then mapM (\<lambda>j. map_option PV_16 (dtoh16a P dat (x + 4 * j))) [0..<n]
      else if dt = PTP_DTC_UINT32
        then mapM (\<lambda>j. map_option PV_32 (dtoh32a P dat (x + 4 * j))) [0..<n]
      else if dt = PTP_DTC_UINT8
        then mapM (\<lambda>j. map_option PV_8 (dtoh8a dat (x + 4 * j))) [0..<n]
      else do {
        _ \<leftarrow> dtoh32a P dat x;
        _ \<leftarrow> mapM (\<lambda>j. dtoh32a P dat (x + 4 * j)) [0..<unat (esz - of_nat PTP_ece_Prop_Desc_Data) div 4];
        Some (replicate n PV_unset) })"

text \<open>A record with the values that a property can have; the trace of an unhandled one reads all of it.\<close>

definition avail_list_changed :: "ptp_params \<Rightarrow> byte list \<Rightarrow> nat \<Rightarrow> u32 \<Rightarrow> eos_state \<Rightarrow> eos_state option" where
  "avail_list_changed P dat cur esz st = do {
     proptype \<leftarrow> dtoh32a P dat (cur + PTP_ece_Prop_Subtype);
     propxtype \<leftarrow> dtoh32a P dat (cur + PTP_ece_Prop_Desc_Type);
     propxcnt \<leftarrow> dtoh32a P dat (cur + PTP_ece_Prop_Desc_Count);
     let xdata = cur + PTP_ece_Prop_Desc_Data;
     (case find_canon_prop st proptype of
        None \<Rightarrow> Some st
      | Some j \<Rightarrow>
          if propxtype \<noteq> 3 then do {
            _ \<leftarrow> rd dat xdata (unat (esz - of_nat PTP_ece_Prop_Desc_Data));
            Some st }
          else if propxcnt = 0 then Some st
          else do {
            let dpd = cp_dpd (canon_props st ! j);
            vs \<leftarrow> supported_values P dat proptype esz (dpd_DataType dpd) xdata (unat propxcnt);
            Some (set_dpd j (dpd\<lparr>dpd_FormFlag := PTP_DPFF_Enumeration,
              dpd_FORM := FORM_Enum (ucast propxcnt) vs\<rparr>) st) }) }"

text \<open>
  The tables of \<open>ptp_unpack_CANON_changes\<close>: the properties that cannot be set, and the types of
  the values, in the order of the source.
\<close>

definition eos_read_only :: "u32 list" where
  "eos_read_only = [
    PTP_DPC_CANON_EOS_FocusMode, PTP_DPC_CANON_EOS_BatteryPower, PTP_DPC_CANON_EOS_BatterySelect,
    PTP_DPC_CANON_EOS_ModelID, PTP_DPC_CANON_EOS_PTPExtensionVersion, PTP_DPC_CANON_EOS_DPOFVersion,
    PTP_DPC_CANON_EOS_AvailableShots, PTP_DPC_CANON_EOS_CurrentStorage, PTP_DPC_CANON_EOS_CurrentFolder,
    PTP_DPC_CANON_EOS_MyMenu, PTP_DPC_CANON_EOS_MyMenuList, PTP_DPC_CANON_EOS_HDDirectoryStructure,
    PTP_DPC_CANON_EOS_BatteryInfo, PTP_DPC_CANON_EOS_AdapterInfo, PTP_DPC_CANON_EOS_LensStatus,
    PTP_DPC_CANON_EOS_CardExtension, PTP_DPC_CANON_EOS_TempStatus, PTP_DPC_CANON_EOS_ShutterCounter,
    PTP_DPC_CANON_EOS_SerialNumber, PTP_DPC_CANON_EOS_DepthOfFieldPreview, PTP_DPC_CANON_EOS_EVFRecordStatus,
    PTP_DPC_CANON_EOS_LvAfSystem, PTP_DPC_CANON_EOS_FocusInfoEx, PTP_DPC_CANON_EOS_DepthOfField,
    PTP_DPC_CANON_EOS_Brightness, PTP_DPC_CANON_EOS_EFComp, PTP_DPC_CANON_EOS_LensName,
    PTP_DPC_CANON_EOS_LensID]"

definition eos_uint32 :: "u32 list" where
  "eos_uint32 = [
    PTP_DPC_CANON_EOS_CameraTime, PTP_DPC_CANON_EOS_AvailableShots, PTP_DPC_CANON_EOS_CaptureDestination,
    PTP_DPC_CANON_EOS_WhiteBalanceXA, PTP_DPC_CANON_EOS_WhiteBalanceXB, PTP_DPC_CANON_EOS_CurrentStorage,
    PTP_DPC_CANON_EOS_CurrentFolder, PTP_DPC_CANON_EOS_ShutterCounter, PTP_DPC_CANON_EOS_ModelID,
    PTP_DPC_CANON_EOS_LensID, PTP_DPC_CANON_EOS_StroboFiring]"

definition eos_exposure :: "u32 list" where
  "eos_exposure = [
    PTP_DPC_CANON_EOS_AutoExposureMode]"

definition eos_uint16 :: "u32 list" where
  "eos_uint16 = [
    PTP_DPC_CANON_EOS_Aperture, PTP_DPC_CANON_EOS_ShutterSpeed, PTP_DPC_CANON_EOS_ISOSpeed,
    PTP_DPC_CANON_EOS_FocusMode, PTP_DPC_CANON_EOS_ColorSpace, PTP_DPC_CANON_EOS_BatteryPower,
    PTP_DPC_CANON_EOS_BatterySelect, PTP_DPC_CANON_EOS_PTPExtensionVersion, PTP_DPC_CANON_EOS_DriveMode,
    PTP_DPC_CANON_EOS_AEB, PTP_DPC_CANON_EOS_BracketMode, PTP_DPC_CANON_EOS_QuickReviewTime,
    PTP_DPC_CANON_EOS_EVFMode, PTP_DPC_CANON_EOS_EVFOutputDevice]"

definition eos_uint8 :: "u32 list" where
  "eos_uint8 = [
    PTP_DPC_CANON_EOS_PictureStyle, PTP_DPC_CANON_EOS_WhiteBalance, PTP_DPC_CANON_EOS_MeteringMode,
    PTP_DPC_CANON_EOS_ExpCompensation]"

definition eos_strings :: "u32 list" where
  "eos_strings = [
    PTP_DPC_CANON_EOS_Owner, PTP_DPC_CANON_EOS_Artist, PTP_DPC_CANON_EOS_Copyright,
    PTP_DPC_CANON_EOS_SerialNumber, PTP_DPC_CANON_EOS_LensName]"

definition eos_int16 :: "u32 list" where
  "eos_int16 = [
    PTP_DPC_CANON_EOS_WhiteBalanceAdjustA, PTP_DPC_CANON_EOS_WhiteBalanceAdjustB]"

definition eos_uint16_unknown :: "u32 list" where
  "eos_uint16_unknown = [
    0xD114, PTP_DPC_CANON_EOS_DPOFVersion]"

definition eos_custom_func :: "u32 list" where
  "eos_custom_func = [
    PTP_DPC_CANON_EOS_CustomFunc1, PTP_DPC_CANON_EOS_CustomFunc2, PTP_DPC_CANON_EOS_CustomFunc3,
    PTP_DPC_CANON_EOS_CustomFunc4, PTP_DPC_CANON_EOS_CustomFunc5, PTP_DPC_CANON_EOS_CustomFunc6,
    PTP_DPC_CANON_EOS_CustomFunc7, PTP_DPC_CANON_EOS_CustomFunc8, PTP_DPC_CANON_EOS_CustomFunc9,
    PTP_DPC_CANON_EOS_CustomFunc10, PTP_DPC_CANON_EOS_CustomFunc11]"

definition eos_uint32_unknown :: "u32 list" where
  "eos_uint32_unknown = [
    PTP_DPC_CANON_EOS_ColorTemperature, PTP_DPC_CANON_EOS_WftStatus, PTP_DPC_CANON_EOS_LensStatus,
    PTP_DPC_CANON_EOS_CardExtension, PTP_DPC_CANON_EOS_TempStatus, PTP_DPC_CANON_EOS_PhotoStudioMode,
    PTP_DPC_CANON_EOS_DepthOfFieldPreview, PTP_DPC_CANON_EOS_EVFSharpness, PTP_DPC_CANON_EOS_EVFWBMode,
    PTP_DPC_CANON_EOS_EVFClickWBCoeffs, PTP_DPC_CANON_EOS_EVFColorTemp, PTP_DPC_CANON_EOS_EVFRecordStatus,
    PTP_DPC_CANON_EOS_ExposureSimMode, PTP_DPC_CANON_EOS_LvAfSystem, PTP_DPC_CANON_EOS_MovSize,
    PTP_DPC_CANON_EOS_DepthOfField, PTP_DPC_CANON_EOS_LvViewTypeSelect, PTP_DPC_CANON_EOS_CustomFuncEx]"

definition eos_datatype :: "u32 \<Rightarrow> u16 \<Rightarrow> u16" where
  "eos_datatype p dt =
     (if p \<in> set eos_uint32 then PTP_DTC_UINT32
      else if p \<in> set eos_exposure then PTP_DTC_UINT16
      else if p \<in> set eos_uint16 then PTP_DTC_UINT16
      else if p \<in> set eos_uint8 then PTP_DTC_UINT8
      else if p \<in> set eos_strings then PTP_DTC_STR
      else if p \<in> set eos_int16 then PTP_DTC_INT16
      else if p \<in> set eos_uint16_unknown then PTP_DTC_UINT16
      else if p \<in> set eos_custom_func then PTP_DTC_UINT8
      else if p \<in> set eos_uint32_unknown then PTP_DTC_UINT32
      else dt)"

text \<open>The mode of exposure can be set, but its values are never reported.\<close>

definition eos_describe :: "u32 \<Rightarrow> ptp_device_prop_desc \<Rightarrow> ptp_device_prop_desc" where
  "eos_describe p dpd =
     (let dpd1 = (if p \<in> set eos_read_only then dpd\<lparr>dpd_GetSet := 0\<rparr> else dpd);
          dpd2 = dpd1\<lparr>dpd_DataType := eos_datatype p (dpd_DataType dpd1)\<rparr>
      in if p \<in> set eos_exposure
         then dpd2\<lparr>dpd_FormFlag := PTP_DPFF_Enumeration,
                dpd_FORM := FORM_Enum 0 (case dpd_FORM dpd2 of FORM_Enum _ vs \<Rightarrow> vs | _ \<Rightarrow> [])\<rparr>
         else dpd2)"

text \<open>The string of a value that is to be freed: an unset value is a NULL pointer.\<close>

definition free_str :: "ptp_property_value \<Rightarrow> unit option" where
  "free_str v = (case v of PV_unset \<Rightarrow> Some () | PV_str _ \<Rightarrow> Some () | _ \<Rightarrow> None)"

definition set_values :: "ptp_property_value \<Rightarrow> ptp_device_prop_desc \<Rightarrow> ptp_device_prop_desc" where
  "set_values v dpd = dpd\<lparr>dpd_FactoryDefaultValue := v, dpd_CurrentValue := v\<rparr>"

definition eos_values :: "ptp_params \<Rightarrow> byte list \<Rightarrow> nat \<Rightarrow> ptp_device_prop_desc \<Rightarrow> ptp_device_prop_desc option" where
  "eos_values P dat x dpd =
     (if dpd_DataType dpd = PTP_DTC_UINT32 then map_option (\<lambda>v. set_values (PV_32 v) dpd) (dtoh32a P dat x)
      else if dpd_DataType dpd = PTP_DTC_UINT16 then map_option (\<lambda>v. set_values (PV_16 v) dpd) (dtoh16a P dat x)
      else if dpd_DataType dpd = PTP_DTC_UINT8 then map_option (\<lambda>v. set_values (PV_8 v) dpd) (dtoh8a dat x)
      else if dpd_DataType dpd = PTP_DTC_STR then do {
        _ \<leftarrow> free_str (dpd_FactoryDefaultValue dpd);
        _ \<leftarrow> free_str (dpd_CurrentValue dpd);
        str \<leftarrow> string_at dat x;
        Some (set_values (PV_str (Some str)) dpd) }
      else Some dpd)"

text \<open>
  The bytes of a property as they came. They are compared with the old ones over the new length, and
  \<open>cp_size\<close> keeps the first length; the comparison of more than is held is a fault.
\<close>

definition new_property :: "u32 \<Rightarrow> u32 \<Rightarrow> u32 \<Rightarrow> byte list \<Rightarrow> canon_property" where
  "new_property esz type proptype bs =
     \<lparr>cp_size = esz, cp_type = type, cp_proptype = proptype, cp_data = bs,
      cp_dpd = \<lparr>dpd_DevicePropertyCode = 0, dpd_DataType = 0, dpd_GetSet = 1, dpd_FactoryDefaultValue = PV_unset,
        dpd_CurrentValue = PV_unset, dpd_FormFlag = PTP_DPFF_None, dpd_FORM = FORM_None\<rparr>\<rparr>"

definition keep_data :: "u32 \<Rightarrow> byte list \<Rightarrow> canon_property \<Rightarrow> canon_property option" where
  "keep_data esz bs cp =
     (if cp_size cp \<noteq> esz then Some (cp\<lparr>cp_data := bs\<rparr>)
      else if length (cp_data cp) < length bs then None
      else if take (length bs) (cp_data cp) \<noteq> bs then Some (cp\<lparr>cp_data := bs\<rparr>)
      else Some cp)"

definition store_property ::
  "u32 \<Rightarrow> u32 \<Rightarrow> u32 \<Rightarrow> byte list \<Rightarrow> eos_state \<Rightarrow> (nat \<times> eos_state) option" where
  "store_property esz type proptype bs st =
     (case find_canon_prop st proptype of
        Some j \<Rightarrow> do {
          cp \<leftarrow> keep_data esz bs (canon_props st ! j);
          Some (j, st\<lparr>canon_props := (canon_props st)[j := cp]\<rparr>) }
      | None \<Rightarrow>
          Some (length (canon_props st), st\<lparr>canon_props := canon_props st @ [new_property esz type proptype bs]\<rparr>))"

text \<open>A record with the value of a property, at least 12 bytes long; the traces stay inside the record.\<close>

definition prop_value_changed ::
  "ptp_params \<Rightarrow> byte list \<Rightarrow> nat \<Rightarrow> u32 \<Rightarrow> u32 \<Rightarrow> eos_state \<Rightarrow> (u32 \<times> eos_state) option" where
  "prop_value_changed P dat cur esz type st = do {
     proptype \<leftarrow> dtoh32a P dat (cur + PTP_ece_Prop_Subtype);
     let xdata = cur + PTP_ece_Prop_Val_Data;
     bs \<leftarrow> rd dat xdata (unat esz - PTP_ece_Prop_Val_Data);
     (j, st) \<leftarrow> store_property esz type proptype bs st;
     let dpd = eos_describe proptype (cp_dpd (canon_props st ! j));
     let xdata = (if proptype \<in> set eos_custom_func then xdata + 4 else xdata);
     dpd \<leftarrow> eos_values P dat xdata dpd;
     dpd \<leftarrow> (if proptype \<in> set image_format_props then do {
               (v, _) \<leftarrow> ptp_unpack_EOS_ImageFormat P dat xdata;
               Some (set_values (PV_16 v) (dpd\<lparr>dpd_DataType := PTP_DTC_UINT16\<rparr>)) }
            else Some dpd);
     Some (proptype, set_dpd j dpd st) }"

section \<open>Changes\<close>

text \<open>
  An entry; the fields of the object info that are not stored are uninitialised. The text of an
  unhandled event has its name and the size of the record.
\<close>

record eos_object =
  eo_oid :: u32
  eo_StorageID :: u32
  eo_ParentObject :: u32
  eo_ObjectFormat :: u16
  eo_ObjectCompressedSize :: u32
  eo_Filename :: "byte list"

datatype changes_entry =
    CHANGES_UNKNOWN "(string \<times> u32) option"
  | CHANGES_OBJECTINFO eos_object
  | CHANGES_OBJECTTRANSFER eos_object
  | CHANGES_PROPERTY u16
  | CHANGES_CAMERASTATUS u32

definition object_added :: "ptp_params \<Rightarrow> byte list \<Rightarrow> nat \<Rightarrow> eos_object option" where
  "object_added P dat cur = do {
     ob \<leftarrow> dtoh32a P dat (cur + PTP_ece_OA_ObjectID);
     storage \<leftarrow> dtoh32a P dat (cur + PTP_ece_OA_StorageID);
     parent \<leftarrow> dtoh32a P dat (cur + PTP_ece_OA_Parent);
     ofc \<leftarrow> dtoh16a P dat (cur + PTP_ece_OA_OFC);
     sz \<leftarrow> dtoh32a P dat (cur + PTP_ece_OA_Size);
     name \<leftarrow> string_at dat (cur + PTP_ece_OA_Name);
     Some \<lparr>eo_oid = ob, eo_StorageID = storage, eo_ParentObject = parent, eo_ObjectFormat = ofc,
           eo_ObjectCompressedSize = sz, eo_Filename = name\<rparr> }"

definition object_transfer :: "ptp_params \<Rightarrow> byte list \<Rightarrow> nat \<Rightarrow> eos_object option" where
  "object_transfer P dat cur = do {
     ob \<leftarrow> dtoh32a P dat (cur + PTP_ece_OI_ObjectID);
     ofc \<leftarrow> dtoh16a P dat (cur + PTP_ece_OI_OFC);
     sz \<leftarrow> dtoh32a P dat (cur + PTP_ece_OI_Size);
     name \<leftarrow> string_at dat (cur + PTP_ece_OI_Name);
     Some \<lparr>eo_oid = ob, eo_StorageID = 0, eo_ParentObject = 0, eo_ObjectFormat = ofc,
           eo_ObjectCompressedSize = sz, eo_Filename = name\<rparr> }"

definition eos_unhandled :: "(u32 \<times> string) list" where
  "eos_unhandled = [
    (PTP_EC_CANON_EOS_RequestGetEvent, ''RequestGetEvent''),
    (PTP_EC_CANON_EOS_ObjectRemoved, ''ObjectRemoved''),
    (PTP_EC_CANON_EOS_RequestGetObjectInfoEx, ''RequestGetObjectInfoEx''),
    (PTP_EC_CANON_EOS_StorageStatusChanged, ''StorageStatusChanged''),
    (PTP_EC_CANON_EOS_StorageInfoChanged, ''StorageInfoChanged''),
    (PTP_EC_CANON_EOS_ObjectInfoChangedEx, ''ObjectInfoChangedEx''),
    (PTP_EC_CANON_EOS_ObjectContentChanged, ''ObjectContentChanged''),
    (PTP_EC_CANON_EOS_WillSoonShutdown, ''WillSoonShutdown''),
    (PTP_EC_CANON_EOS_ShutdownTimerUpdated, ''ShutdownTimerUpdated''),
    (PTP_EC_CANON_EOS_RequestCancelTransfer, ''RequestCancelTransfer''),
    (PTP_EC_CANON_EOS_RequestObjectTransferDT, ''RequestObjectTransferDT''),
    (PTP_EC_CANON_EOS_RequestCancelTransferDT, ''RequestCancelTransferDT''),
    (PTP_EC_CANON_EOS_StoreAdded, ''StoreAdded''),
    (PTP_EC_CANON_EOS_StoreRemoved, ''StoreRemoved''),
    (PTP_EC_CANON_EOS_BulbExposureTime, ''BulbExposureTime''),
    (PTP_EC_CANON_EOS_RecordingTime, ''RecordingTime''),
    (PTP_EC_CANON_EOS_RequestObjectTransferTS, ''RequestObjectTransferTS''),
    (PTP_EC_CANON_EOS_AfResult, ''AfResult'')]"

text \<open>
  An event that is not handled. The text has room for a size of nine characters without its
  terminator: a size that needs more than eight is written behind it. The trace reads the record.
\<close>

definition unhandled_event :: "byte list \<Rightarrow> nat \<Rightarrow> u32 \<Rightarrow> u32 \<Rightarrow> changes_entry option" where
  "unhandled_event dat cur esz type = do {
     info \<leftarrow> (case map_of eos_unhandled type of
                None \<Rightarrow> Some None
              | Some name \<Rightarrow> if - 10000000 < sint esz \<and> sint esz < 100000000 then Some (Some (name, esz)) else None);
     _ \<leftarrow> (if 8 \<le> esz then map_option (\<lambda>_. ()) (rd dat (cur + 8) (unat esz - 8)) else Some ());
     Some (CHANGES_UNKNOWN info) }"

definition camera_status_changed ::
  "ptp_params \<Rightarrow> byte list \<Rightarrow> nat \<Rightarrow> eos_state \<Rightarrow> (changes_entry \<times> eos_state) option" where
  "camera_status_changed P dat cur st = do {
     status \<leftarrow> dtoh32a P dat (cur + 8);
     Some (CHANGES_CAMERASTATUS status, st\<lparr>eos_camerastatus := status\<rparr>) }"

text \<open>The switch over the type of a record; a short property record falls through to the next case.\<close>

definition eos_entry ::
  "ptp_params \<Rightarrow> byte list \<Rightarrow> nat \<Rightarrow> u32 \<Rightarrow> u32 \<Rightarrow> eos_state \<Rightarrow> (changes_entry \<times> eos_state) option" where
  "eos_entry P dat cur esz type st =
     (if type = PTP_EC_CANON_EOS_ObjectAddedEx then
        map_option (\<lambda>ob. (CHANGES_OBJECTINFO ob, st)) (object_added P dat cur)
      else if type = PTP_EC_CANON_EOS_RequestObjectTransfer then
        map_option (\<lambda>ob. (CHANGES_OBJECTTRANSFER ob, st)) (object_transfer P dat cur)
      else if type = PTP_EC_CANON_EOS_AvailListChanged then
        map_option (\<lambda>st'. (CHANGES_UNKNOWN None, st')) (avail_list_changed P dat cur esz st)
      else if type = PTP_EC_CANON_EOS_PropValueChanged \<and> 0xC \<le> esz then
        map_option (\<lambda>(p, st'). (CHANGES_PROPERTY (ucast p), st')) (prop_value_changed P dat cur esz type st)
      else if type = PTP_EC_CANON_EOS_PropValueChanged \<or> type = PTP_EC_CANON_EOS_CameraStatusChanged then
        camera_status_changed P dat cur st
      else if type = 0 then Some (CHANGES_UNKNOWN None, st)
      else map_option (\<lambda>e. (e, st)) (unhandled_event dat cur esz type))"

definition entry_header :: "ptp_params \<Rightarrow> byte list \<Rightarrow> nat \<Rightarrow> (u32 \<times> u32) option" where
  "entry_header P dat cur = do {
     esz \<leftarrow> dtoh32a P dat (cur + PTP_ece_Size);
     type \<leftarrow> dtoh32a P dat (cur + PTP_ece_Type);
     Some (esz, type) }"

text \<open>\<open>datasize\<close> is an \<open>int\<close>.\<close>

definition datasize :: "byte list \<Rightarrow> int" where
  "datasize dat = sint (of_nat (length dat) :: u32)"

text \<open>The two passes: the records are counted up to the end marker, then read.\<close>

partial_function (option) count_entries :: "ptp_params \<Rightarrow> byte list \<Rightarrow> nat \<Rightarrow> nat option" where
  "count_entries prm dat cur =
     (if int cur < datasize dat then do {
        (esz, type) \<leftarrow> entry_header prm dat cur;
        (if esz = 8 \<and> type = 0 then Some 0
         else do { n \<leftarrow> count_entries prm dat (cur + unat esz); Some (Suc n) }) }
      else Some 0)"

partial_function (option) read_entries ::
  "ptp_params \<Rightarrow> byte list \<Rightarrow> nat \<Rightarrow> eos_state \<Rightarrow> (changes_entry list \<times> eos_state) option" where
  "read_entries prm dat cur st =
     (if int cur < datasize dat then do {
        (esz, type) \<leftarrow> entry_header prm dat cur;
        (e, st1) \<leftarrow> eos_entry prm dat cur esz type st;
        (if esz = 8 \<and> type = 0 then Some ([e], st1)
         else do { (es, st2) \<leftarrow> read_entries prm dat (cur + unat esz) st1; Some (e # es, st2) }) }
      else Some ([], st))"

definition ptp_unpack_CANON_changes ::
  "ptp_params \<Rightarrow> byte list \<Rightarrow> eos_state \<Rightarrow> (changes_entry list \<times> eos_state) option" where
  "ptp_unpack_CANON_changes P dat st =
     (if dat = [] then Some ([], st)
      else do {
        n \<leftarrow> count_entries P dat 0;
        (ce, st') \<leftarrow> read_entries P dat 0 st;
        Some (take n ce, st') })"

definition ptp_canon_eos_getevent ::
  "'s io_funs \<Rightarrow> eos_state \<Rightarrow> 's ptp_session \<Rightarrow> (u16 \<times> changes_entry list \<times> eos_state \<times> 's ptp_session) option" where
  "ptp_canon_eos_getevent F st s = do {
     (ret, dat, s') \<leftarrow> get_bytes F s PTP_OC_CANON_EOS_GetEvent [];
     (if ret \<noteq> PTP_RC_OK then Some (ret, [], st, s')
      else do { (es, st') \<leftarrow> ptp_unpack_CANON_changes (params s') dat st; Some (PTP_RC_OK, es, st', s') }) }"

section \<open>The backlog\<close>

type_synonym eos_backlog = "changes_entry list"

definition add_backlog :: "eos_backlog \<Rightarrow> changes_entry list \<Rightarrow> eos_backlog" where
  "add_backlog q es = q @ es"

definition ptp_get_one_eos_event :: "eos_backlog \<Rightarrow> (changes_entry \<times> eos_backlog) option" where
  "ptp_get_one_eos_event q = (case q of [] \<Rightarrow> None | e # es \<Rightarrow> Some (e, es))"

interpretation eos_events: fifo "\<lambda>q. q" add_backlog ptp_get_one_eos_event
  by unfold_locales (auto simp: add_backlog_def ptp_get_one_eos_event_def)

text \<open>The camera is asked until it has nothing more to report.\<close>

partial_function (option) ptp_check_eos_events ::
  "'s io_funs \<Rightarrow> eos_backlog \<Rightarrow> eos_state \<Rightarrow> 's ptp_session \<Rightarrow>
     (u16 \<times> eos_backlog \<times> eos_state \<times> 's ptp_session) option" where
  "ptp_check_eos_events F q st s = do {
     (ret, es, st', s') \<leftarrow> ptp_canon_eos_getevent F st s;
     (if ret \<noteq> PTP_RC_OK then Some (ret, q, st', s')
      else if es = [] then Some (PTP_RC_OK, q, st', s')
      else ptp_check_eos_events F (add_backlog q es) st' s') }"

section \<open>Describing and setting properties\<close>

text \<open>A description is copied with its strings and as many values as it counts.\<close>

definition copy_str :: "ptp_property_value \<Rightarrow> ptp_property_value option" where
  "copy_str v = (case v of PV_str (Some x) \<Rightarrow> Some (PV_str (Some x)) | _ \<Rightarrow> None)"

definition ptp_canon_eos_getdevicepropdesc ::
  "eos_state \<Rightarrow> u16 \<Rightarrow> (u16 \<times> ptp_device_prop_desc option) option" where
  "ptp_canon_eos_getdevicepropdesc st propcode =
     (case find_canon_prop st (ucast propcode) of
        None \<Rightarrow> Some (PTP_RC_Undefined, None)
      | Some i \<Rightarrow> do {
          let dpd = cp_dpd (canon_props st ! i);
          dpd \<leftarrow> (if dpd_FormFlag dpd = PTP_DPFF_Enumeration then
                    (case dpd_FORM dpd of
                       FORM_Enum n vs \<Rightarrow> if unat n \<le> length vs
                         then Some (dpd\<lparr>dpd_FORM := FORM_Enum n (take (unat n) vs)\<rparr>) else None
                     | FORM_None \<Rightarrow> Some dpd
                     | _ \<Rightarrow> None)
                 else Some dpd);
          dpd \<leftarrow> (if dpd_DataType dpd = PTP_DTC_STR then do {
                    fdv \<leftarrow> copy_str (dpd_FactoryDefaultValue dpd);
                    cur \<leftarrow> copy_str (dpd_CurrentValue dpd);
                    Some (dpd\<lparr>dpd_FactoryDefaultValue := fdv, dpd_CurrentValue := cur\<rparr>) }
                 else Some dpd);
          Some (PTP_RC_OK, Some dpd) })"

text \<open>The value as it is sent, behind a head of two words, and the new current value of the table.\<close>

definition eos_value_bytes ::
  "ptp_params \<Rightarrow> u16 \<Rightarrow> ptp_property_value \<Rightarrow> u16 \<Rightarrow> ptp_property_value \<Rightarrow> (byte list \<times> ptp_property_value) option" where
  "eos_value_bytes P propcode value dt old =
     (if ucast propcode \<in> set image_format_props then do {
        v \<leftarrow> pv_16 value; Some (ptp_pack_EOS_ImageFormat P v, PV_16 v) }
      else if dt = PTP_DTC_INT8 \<or> dt = PTP_DTC_UINT8 then do { v \<leftarrow> pv_8 value; Some ([v, 0, 0, 0], PV_8 v) }
      else if dt = PTP_DTC_UINT16 \<or> dt = PTP_DTC_INT16 then do {
        v \<leftarrow> pv_16 value; Some (htod16ap P v @ [0, 0], PV_16 v) }
      else if dt = PTP_DTC_INT32 \<or> dt = PTP_DTC_UINT32 then do { v \<leftarrow> pv_32 value; Some (htod32ap P v, PV_32 v) }
      else if dt = PTP_DTC_STR then do {
        v \<leftarrow> copy_str value;
        _ \<leftarrow> free_str old;
        (case v of PV_str (Some x) \<Rightarrow> Some (x @ [0], v) | _ \<Rightarrow> None) }
      else Some ([0, 0, 0, 0], old))"

definition ptp_canon_eos_setdevicepropvalue ::
  "'s io_funs \<Rightarrow> eos_state \<Rightarrow> 's ptp_session \<Rightarrow> u16 \<Rightarrow> ptp_property_value \<Rightarrow> u16 \<Rightarrow>
     (u16 \<times> eos_state \<times> 's ptp_session) option" where
  "ptp_canon_eos_setdevicepropvalue F st s propcode value dt =
     (case find_canon_prop st (ucast propcode) of
        None \<Rightarrow> Some (PTP_RC_Undefined, st, s)
      | Some i \<Rightarrow> do {
          let dpd = cp_dpd (canon_props st ! i);
          (bs, cur) \<leftarrow> eos_value_bytes (params s) propcode value dt (dpd_CurrentValue dpd);
          let esz = 8 + length bs;
          (ret, _, s') \<leftarrow> send_data F s PTP_OC_CANON_EOS_SetDevicePropValueEx [] esz
             (htod32ap (params s) (of_nat esz) @ htod32ap (params s) (ucast propcode) @ bs);
          Some (ret, set_dpd i (dpd\<lparr>dpd_CurrentValue := cur\<rparr>) st, s') })"

section \<open>The other operations\<close>

record eos_device_info =
  ed_EventsSupported :: "u32 list"
  ed_DevicePropertiesSupported :: "u32 list"
  ed_unk :: "u32 list"

text \<open>The three arrays one behind the other; an array that begins at the end of the data stays as it is in \<open>di\<close>.\<close>

definition ptp_unpack_EOS_DI :: "ptp_params \<Rightarrow> byte list \<Rightarrow> eos_device_info \<Rightarrow> eos_device_info option" where
  "ptp_unpack_EOS_DI P dat di =
     (if length dat < 8 then Some di
      else do {
        evs \<leftarrow> ptp_unpack_uint32_t_array P dat 4;
        let di = di\<lparr>ed_EventsSupported := evs\<rparr>;
        let pos = 4 + (length evs * 4 + 4);
        (if length dat \<le> pos then Some di
         else do {
           props \<leftarrow> ptp_unpack_uint32_t_array P dat pos;
           let di = di\<lparr>ed_DevicePropertiesSupported := props\<rparr>;
           let pos = pos + (length props * 4 + 4);
           (if length dat \<le> pos then Some di
            else do {
              unk \<leftarrow> ptp_unpack_uint32_t_array P dat pos;
              Some (di\<lparr>ed_unk := unk\<rparr>) }) }) })"

definition ptp_canon_eos_getdeviceinfo ::
  "'s io_funs \<Rightarrow> 's ptp_session \<Rightarrow> eos_device_info \<Rightarrow> (u16 \<times> eos_device_info \<times> 's ptp_session) option" where
  "ptp_canon_eos_getdeviceinfo F s di = do {
     (ret, _, h, s') \<leftarrow> ptp_transaction_new F s (ptp_request PTP_OC_CANON_EOS_GetDeviceInfoEx []) PTP_DP_GETDATA 0
        ptp_init_recv_memory_handler;
     (if ret = PTP_RC_OK then do {
        di' \<leftarrow> ptp_unpack_EOS_DI (params s') (ptp_exit_recv_memory_handler h) di; Some (ret, di', s') }
      else Some (ret, di, s')) }"

text \<open>A busy camera answers with a code in the first parameter.\<close>

definition bulb_result :: "u16 \<Rightarrow> ptp_container \<Rightarrow> u16" where
  "bulb_result ret ptp =
     (if ret = PTP_RC_OK \<and> 1 \<le> Nparam ptp \<and> Param1 ptp AND 0x7000 = 0x2000 then ucast (Param1 ptp) else ret)"

definition ptp_canon_eos_bulbstart :: "'s io_funs \<Rightarrow> 's ptp_session \<Rightarrow> (u16 \<times> 's ptp_session) option" where
  "ptp_canon_eos_bulbstart F s = do {
     (ret, ptp, s') \<leftarrow> no_data F s PTP_OC_CANON_EOS_BulbStart []; Some (bulb_result ret ptp, s') }"

definition ptp_canon_eos_bulbend :: "'s io_funs \<Rightarrow> 's ptp_session \<Rightarrow> (u16 \<times> 's ptp_session) option" where
  "ptp_canon_eos_bulbend F s = do {
     (ret, ptp, s') \<leftarrow> no_data F s PTP_OC_CANON_EOS_BulbEnd []; Some (bulb_result ret ptp, s') }"

definition ptp_canon_eos_capture :: "'s io_funs \<Rightarrow> 's ptp_session \<Rightarrow> (u16 \<times> u32 \<times> 's ptp_session) option" where
  "ptp_canon_eos_capture F s = do {
     (ret, ptp, s') \<leftarrow> no_data F s PTP_OC_CANON_EOS_RemoteRelease [];
     Some (ret, if ret = PTP_RC_OK \<and> 1 \<le> Nparam ptp then Param1 ptp else 0, s') }"

definition ptp_canon_eos_getstorageids ::
  "'s io_funs \<Rightarrow> 's ptp_session \<Rightarrow> (u16 \<times> u32 list option \<times> 's ptp_session) option" where
  "ptp_canon_eos_getstorageids F s =
     get_dataset F s PTP_OC_CANON_EOS_GetStorageIDs [] (\<lambda>P dat. ptp_unpack_SIDs P dat (length dat))"

definition ptp_canon_eos_getstorageinfo ::
  "'s io_funs \<Rightarrow> 's ptp_session \<Rightarrow> u32 \<Rightarrow> (u16 \<times> byte list \<times> 's ptp_session) option" where
  "ptp_canon_eos_getstorageinfo F s p1 = get_bytes F s PTP_OC_CANON_EOS_GetStorageInfo [p1]"

definition ptp_canon_eos_getpartialobject ::
  "'s io_funs \<Rightarrow> 's ptp_session \<Rightarrow> u32 \<Rightarrow> u32 \<Rightarrow> u32 \<Rightarrow> (u16 \<times> byte list \<times> 's ptp_session) option" where
  "ptp_canon_eos_getpartialobject F s ob offset xsize =
     get_bytes F s PTP_OC_CANON_EOS_GetPartialObject [ob, offset, xsize]"

definition ptp_canon_eos_setdevicepropvalueex ::
  "'s io_funs \<Rightarrow> 's ptp_session \<Rightarrow> byte list \<Rightarrow> u32 \<Rightarrow> (u16 \<times> 's ptp_session) option" where
  "ptp_canon_eos_setdevicepropvalueex F s dat sz = do {
     (ret, _, s') \<leftarrow> send_data F s PTP_OC_CANON_EOS_SetDevicePropValueEx [] (unat sz) dat; Some (ret, s') }"

definition ptp_canon_eos_get_viewfinder_image ::
  "'s io_funs \<Rightarrow> 's ptp_session \<Rightarrow> (u16 \<times> byte list \<times> 's ptp_session) option" where
  "ptp_canon_eos_get_viewfinder_image F s = get_bytes F s PTP_OC_CANON_EOS_GetViewFinderData [0x00100000]"

definition ptp_canon_eos_get_viewfinder_image_handler ::
  "'s io_funs \<Rightarrow> 's ptp_session \<Rightarrow> mem_handler \<Rightarrow> (u16 \<times> mem_handler \<times> 's ptp_session) option" where
  "ptp_canon_eos_get_viewfinder_image_handler F s h = do {
     (ret, _, h', s') \<leftarrow> ptp_transaction_new F s (ptp_request PTP_OC_CANON_EOS_GetViewFinderData [0x00100000])
        PTP_DP_GETDATA 0 h;
     Some (ret, h', s') }"

end
