(* ===== verification/Ptp_Eos_Props.thy ===== *)
theory Ptp_Eos_Props
  imports Ptp_Eos
begin

unbundle bit_operations_syntax

text \<open>
  What the functions for EOS cameras do: image formats come back as they were packed; the records of a
  change are counted one by one and fit what is allocated for them; the backlog keeps
  their order; and what goes wrong with sizes that are zero or change.
\<close>

section \<open>Image formats\<close>

lemma length_words [simp]: "length (concat (map (htod32ap P) ws)) = 4 * length ws"
  by (induction ws) auto

lemma words_at:
  assumes "k < length ws"
  shows "dtoh32a P (pre @ concat (map (htod32ap P) ws) @ post) (length pre + 4 * k) = Some (ws ! k)"
proof -
  have eq: "pre @ concat (map (htod32ap P) ws) @ post =
      (pre @ concat (map (htod32ap P) (take k ws))) @ htod32ap P (ws ! k) @ concat (map (htod32ap P) (drop (Suc k) ws)) @ post"
    using id_take_nth_drop [OF assms] by (metis append.assoc concat.simps(2) concat_append list.simps(9) map_append)
  show ?thesis
    unfolding eq using assms by (intro dtoh32a_field) simp
qed

lemma bit_15: "bit (15 :: int) n \<longleftrightarrow> n < 4"
proof -
  have "(15 :: int) = mask 4" by (simp add: mask_eq_exp_minus_1)
  then show ?thesis by (simp only: bit_mask_iff) simp
qed

lemma bit_255: "bit (255 :: int) n \<longleftrightarrow> n < 8"
proof -
  have "(255 :: int) = mask 8" by (simp add: mask_eq_exp_minus_1)
  then show ?thesis by (simp only: bit_mask_iff) simp
qed

lemma bit_nibble: "bit (nibble v k) n \<longleftrightarrow> n < 4 \<and> bit v (k + n)"
  by (auto simp: nibble_def bit_simps bit_15 dest: bit_imp_le_length)

lemma bit_low: "bit (s AND 0xF :: u32) n \<longleftrightarrow> n < 4 \<and> bit s n"
  by (auto simp: bit_simps bit_15 dest: bit_imp_le_length)

lemma bit_shifted: "bit (push_bit k (s AND 0xF) :: u32) n \<longleftrightarrow> n < 32 \<and> k \<le> n \<and> n < k + 4 \<and> bit s (n - k)"
  by (auto simp only: bit_push_bit_iff bit_low possible_bit_word less_diff_conv2) auto

lemma bit_image_format:
  "bit (image_format s1 c1 s2 c2) n \<longleftrightarrow> n < 16 \<and>
     (12 \<le> n \<and> bit s1 (n - 12) \<or> 8 \<le> n \<and> n < 12 \<and> bit c1 (n - 8) \<or>
      4 \<le> n \<and> n < 8 \<and> bit s2 (n - 4) \<or> n < 4 \<and> bit c2 n)"
proof -
  have "bit (image_format s1 c1 s2 c2) n \<longleftrightarrow> n < 16 \<and>
      (bit (push_bit 12 (s1 AND 0xF)) n \<or> bit (push_bit 8 (c1 AND 0xF)) n \<or> bit (push_bit 4 (s2 AND 0xF)) n \<or>
       bit (c2 AND 0xF) n)"
    unfolding image_format_def by (simp add: bit_ucast_iff bit_or_iff del: push_bit_and)
  then show ?thesis unfolding bit_shifted bit_low by (cases "n < 16") simp_all
qed

lemma image_format_nibbles: "image_format (nibble v 12) (nibble v 8) (nibble v 4) (nibble v 0) = v"
proof (rule bit_word_eqI)
  fix n assume "n < LENGTH(16)"
  then consider "n < 4" | "4 \<le> n" "n < 8" | "8 \<le> n" "n < 12" | "12 \<le> n" "n < 16" by fastforce
  then show "bit (image_format (nibble v 12) (nibble v 8) (nibble v 4) (nibble v 0)) n = bit v n"
    by cases (auto simp: bit_image_format bit_nibble)
qed

lemma image_format_one:
  assumes "v AND 0xFF = 0"
  shows "image_format (nibble v 12) (nibble v 8) 0 0 = v"
proof (rule bit_word_eqI)
  fix n assume "n < LENGTH(16)"
  have "bit (v AND 0xFF) n \<longleftrightarrow> bit v n \<and> n < 8" by (auto simp: bit_simps bit_255 dest: bit_imp_le_length)
  with assms have low: "n < 8 \<Longrightarrow> \<not> bit v n" by auto
  from \<open>n < LENGTH(16)\<close> consider "n < 8" | "8 \<le> n" "n < 12" | "12 \<le> n" "n < 16" by fastforce
  then show "bit (image_format (nibble v 12) (nibble v 8) 0 0) n = bit v n"
    using low by cases (auto simp: bit_image_format bit_nibble)
qed

lemma masked_nibble [simp]: "nibble v k AND 0xF = nibble v k"
  by (rule bit_word_eqI) (auto simp: bit_simps bit_nibble bit_15)

text \<open>
  Every image format is packed in as many bytes as its size says and unpacked to itself, whatever
  stands before and behind it.
\<close>

theorem eos_image_format_roundtrip:
  "length (ptp_pack_EOS_ImageFormat P v) = image_format_size v \<and>
   ptp_unpack_EOS_ImageFormat P (pre @ ptp_pack_EOS_ImageFormat P v @ post) (length pre) =
     Some (v, length pre + image_format_size v)"
proof
  show "length (ptp_pack_EOS_ImageFormat P v) = image_format_size v"
    by (simp add: ptp_pack_EOS_ImageFormat_def image_format_size_def del: map_append concat_append)
  show "ptp_unpack_EOS_ImageFormat P (pre @ ptp_pack_EOS_ImageFormat P v @ post) (length pre) =
      Some (v, length pre + image_format_size v)"
  proof (cases "v AND 0xFF = 0")
    case True
    let ?ws = "[1, 0x10, image_type (nibble v 8), nibble v 12, nibble v 8] :: u32 list"
    have "ptp_pack_EOS_ImageFormat P v = concat (map (htod32ap P) ?ws)"
      using True by (simp add: ptp_pack_EOS_ImageFormat_def)
    with True image_format_one [OF True] words_at [of 0 ?ws P pre post] words_at [of 1 ?ws P pre post]
      words_at [of 3 ?ws P pre post] words_at [of 4 ?ws P pre post]
    show ?thesis by (simp add: ptp_unpack_EOS_ImageFormat_def image_format_size_def)
  next
    case False
    let ?ws = "[2, 0x10, image_type (nibble v 8), nibble v 12, nibble v 8,
      0x10, image_type (nibble v 0), nibble v 4, nibble v 0] :: u32 list"
    have "ptp_pack_EOS_ImageFormat P v = concat (map (htod32ap P) ?ws)"
      using False by (simp add: ptp_pack_EOS_ImageFormat_def)
    with False image_format_nibbles [of v] words_at [of 0 ?ws P pre post] words_at [of 1 ?ws P pre post]
      words_at [of 3 ?ws P pre post] words_at [of 4 ?ws P pre post] words_at [of 5 ?ws P pre post]
      words_at [of 7 ?ws P pre post] words_at [of 8 ?ws P pre post]
    show ?thesis by (simp add: ptp_unpack_EOS_ImageFormat_def image_format_size_def)
  qed
qed

section \<open>Records\<close>

text \<open>The status of a camera, and the end marker.\<close>

definition sample_changes :: "byte list" where
  "sample_changes = [12, 0, 0, 0, 0x8B, 0xC1, 0, 0, 7, 0, 0, 0, 8, 0, 0, 0, 0, 0, 0, 0]"

definition no_eos_props :: eos_state where
  "no_eos_props = \<lparr>canon_props = [], eos_camerastatus = 0\<rparr>"

lemma sample_headers:
  "entry_header (plain_params PTP_DL_LE) sample_changes 0 = Some (12, PTP_EC_CANON_EOS_CameraStatusChanged)"
  "entry_header (plain_params PTP_DL_LE) sample_changes 12 = Some (8, 0)"
  "datasize sample_changes = 20"
  by (simp_all add: entry_header_def dtoh32a_def rd_def dtoh32ap_def ece_defs sample_changes_def datasize_def
      PTP_EC_CANON_EOS_CameraStatusChanged_def)

lemma sample_counted: "count_entries (plain_params PTP_DL_LE) sample_changes 0 = Some 1"
  by (subst count_entries.simps, simp add: sample_headers, subst count_entries.simps, simp add: sample_headers)

lemma sample_read:
  "read_entries (plain_params PTP_DL_LE) sample_changes 0 no_eos_props =
     Some ([CHANGES_CAMERASTATUS 7, CHANGES_UNKNOWN None], no_eos_props\<lparr>eos_camerastatus := 7\<rparr>)"
proof -
  have "eos_entry (plain_params PTP_DL_LE) sample_changes 0 12 PTP_EC_CANON_EOS_CameraStatusChanged no_eos_props =
      Some (CHANGES_CAMERASTATUS 7, no_eos_props\<lparr>eos_camerastatus := 7\<rparr>)"
    by (simp add: eos_entry_def camera_status_changed_def dtoh32a_def rd_def dtoh32ap_def sample_changes_def
        PTP_EC_CANON_EOS_CameraStatusChanged_def PTP_EC_CANON_EOS_ObjectAddedEx_def
        PTP_EC_CANON_EOS_RequestObjectTransfer_def PTP_EC_CANON_EOS_AvailListChanged_def
        PTP_EC_CANON_EOS_PropValueChanged_def)
  moreover have "eos_entry (plain_params PTP_DL_LE) sample_changes 12 8 0 st = Some (CHANGES_UNKNOWN None, st)" for st
    by (simp add: eos_entry_def PTP_EC_CANON_EOS_CameraStatusChanged_def PTP_EC_CANON_EOS_ObjectAddedEx_def
        PTP_EC_CANON_EOS_RequestObjectTransfer_def PTP_EC_CANON_EOS_AvailListChanged_def
        PTP_EC_CANON_EOS_PropValueChanged_def)
  ultimately show ?thesis
    by (subst read_entries.simps, simp add: sample_headers, subst read_entries.simps, simp add: sample_headers)
qed

text \<open>A record of size 0 is counted for ever.\<close>

lemma eos_zero_size_hangs:
  assumes "entry_header P dat cur = Some (0, type)" and "int cur < datasize dat"
  shows "count_entries P dat cur = None"
proof (rule ccontr)
  assume "count_entries P dat cur \<noteq> None"
  then obtain n where n: "count_entries P dat cur = Some n" by blast
  have "entry_header P dat cur = Some (0, type) \<longrightarrow> int cur < datasize dat \<longrightarrow> False"
    by (rule count_entries.raw_induct [OF _ n, where P = "\<lambda>P dat cur n.
          entry_header P dat cur = Some (0, type) \<longrightarrow> int cur < datasize dat \<longrightarrow> False"])
       (auto simp: bind_eq_Some_conv split: if_splits)
  with assms show False by simp
qed

text \<open>
  The second pass over the records of a change fills at most one entry more than the first pass
  has counted, which is what was allocated.
\<close>

theorem eos_entries_fit:
  assumes "count_entries P dat cur = Some n" and "read_entries P dat cur st = Some (ce, st')"
  shows "n \<le> length ce \<and> length ce \<le> n + 1"
proof -
  have "\<forall>st ce st'. read_entries P dat cur st = Some (ce, st') \<longrightarrow> n \<le> length ce \<and> length ce \<le> n + 1"
  proof (rule count_entries.raw_induct [OF _ assms(1), where P = "\<lambda>P dat cur n.
      \<forall>st ce st'. read_entries P dat cur st = Some (ce, st') \<longrightarrow> n \<le> length ce \<and> length ce \<le> n + 1"], goal_cases)
    case (1 rec P dat cur n)
    show ?case
    proof (intro allI impI)
      fix st ce st' assume r: "read_entries P dat cur st = Some (ce, st')"
      show "n \<le> length ce \<and> length ce \<le> n + 1"
        using r 1 by (subst (asm) read_entries.simps) (fastforce simp: bind_eq_Some_conv split: if_splits)
    qed
  qed
  with assms(2) show ?thesis by blast
qed

lemma eos_entries_fit_witness:
  "(1 :: nat) \<le> length [CHANGES_CAMERASTATUS 7, CHANGES_UNKNOWN None] \<and>
   length [CHANGES_CAMERASTATUS 7, CHANGES_UNKNOWN None] \<le> 1 + 1"
  by (rule eos_entries_fit [OF sample_counted sample_read])

text \<open>The record of a type and its data, as a camera sends it.\<close>

definition eos_record :: "ptp_params \<Rightarrow> u32 \<times> byte list \<Rightarrow> byte list" where
  "eos_record P r = htod32ap P (of_nat (8 + length (snd r))) @ htod32ap P (fst r) @ snd r"

lemma length_eos_record [simp]: "length (eos_record P r) = 8 + length (snd r)"
  by (simp add: eos_record_def)

lemma entry_header_record:
  "entry_header P (pre @ eos_record P (t, body) @ post) (length pre) = Some (of_nat (8 + length body), t)"
  using words_at [of 0 "[of_nat (8 + length body), t]" P pre "body @ post"]
    words_at [of 1 "[of_nat (8 + length body), t]" P pre "body @ post"]
  by (simp add: entry_header_def ece_defs eos_record_def)

lemma count_records:
  assumes "int (length dat) < 2 ^ 31" and "(0, []) \<notin> set rs"
    and "dat = pre @ concat (map (eos_record P) rs) @ eos_record P (0, []) @ junk"
  shows "count_entries P dat (length pre) = Some (length rs)"
  using assms(2,3)
proof (induction rs arbitrary: pre)
  case Nil
  from assms(1) have size: "datasize dat = int (length dat)"
    by (simp add: datasize_def signed_of_nat signed_take_bit_int_eq_self)
  have "entry_header P dat (length pre) = Some (8, 0)"
    using Nil entry_header_record [of P pre 0 "[]" junk] by simp
  with Nil size show ?case by (subst count_entries.simps) simp
next
  case (Cons r rs)
  obtain t body where r: "r = (t, body)" by fastforce
  from assms(1) have size: "datasize dat = int (length dat)"
    by (simp add: datasize_def signed_of_nat signed_take_bit_int_eq_self)
  let ?post = "concat (map (eos_record P) rs) @ eos_record P (0, []) @ junk"
  have dat: "dat = pre @ eos_record P (t, body) @ ?post" using Cons.prems(2) r by simp
  then have hd: "entry_header P dat (length pre) = Some (of_nat (8 + length body), t)"
    using entry_header_record by metis
  have "8 + length body < 2 ^ 32" using assms(1) dat by simp
  then have u: "unat (of_nat (8 + length body) :: u32) = 8 + length body"
    by (simp add: unat_of_nat del: of_nat_add)
  have "count_entries P dat (length (pre @ eos_record P (t, body))) = Some (length rs)"
    using Cons.IH [of "pre @ eos_record P (t, body)"] Cons.prems dat r by simp
  moreover have "\<not> (of_nat (8 + length body) = (8 :: u32) \<and> t = 0)"
  proof
    assume "of_nat (8 + length body) = (8 :: u32) \<and> t = 0"
    with u have "body = [] \<and> t = 0" by auto
    with Cons.prems(1) r show False by simp
  qed
  ultimately show ?case
    using hd size dat u by (subst count_entries.simps) (simp del: of_nat_add)
qed

text \<open>
  Of the records of a change as many are counted as stand before the end marker, whatever their
  types and data are and whatever follows.
\<close>

theorem eos_records_counted:
  assumes "(0, []) \<notin> set rs"
    and "length (concat (map (eos_record P) rs) @ eos_record P (0, []) @ junk) < 2 ^ 31"
  shows "count_entries P (concat (map (eos_record P) rs) @ eos_record P (0, []) @ junk) 0 = Some (length rs)"
  using count_records [OF _ assms(1), of _ "[]"] assms(2) by simp

lemma eos_records_counted_witness:
  "count_entries (plain_params PTP_DL_LE)
     (concat (map (eos_record (plain_params PTP_DL_LE)) [(PTP_EC_CANON_EOS_CameraStatusChanged, [7, 0, 0, 0]), (0, [1])]) @
      eos_record (plain_params PTP_DL_LE) (0, []) @ [1, 2, 3]) 0 = Some 2"
  using eos_records_counted
    [where rs = "[(PTP_EC_CANON_EOS_CameraStatusChanged, [7, 0, 0, 0]), (0, [1])]" and P = "plain_params PTP_DL_LE"
     and junk = "[1, 2, 3]"]
  by simp

section \<open>Properties\<close>

text \<open>
  The length of a property is kept from its first record. After a shorter record a record of the first
  length is compared with more bytes than are held.
\<close>

lemma find_canon_prop_Some: "find_canon_prop st p = Some j \<Longrightarrow> j < length (canon_props st) \<and> cp_proptype (canon_props st ! j) = p"
  by (auto simp: find_canon_prop_def find_Some_iff)

lemma find_canon_prop_update:
  assumes "find_canon_prop st p = Some j" and "cp_proptype cp = p"
  shows "find_canon_prop (st\<lparr>canon_props := (canon_props st)[j := cp]\<rparr>) p = Some j"
proof -
  have "List.find (\<lambda>k. cp_proptype ((canon_props st)[j := cp] ! k) = p) [0..<length (canon_props st)] =
      List.find (\<lambda>k. cp_proptype (canon_props st ! k) = p) [0..<length (canon_props st)]"
    using assms(2) find_canon_prop_Some [OF assms(1)] by (intro find_cong) (auto simp: nth_update)
  with assms(1) show ?thesis by (simp add: find_canon_prop_def)
qed

lemma eos_stale_size_overreads:
  assumes "find_canon_prop st p = Some j" and "cp_size (canon_props st ! j) = a" and "b \<noteq> a"
    and "length short < length long"
  shows "\<exists>st'. store_property b t p short st = Some (j, st') \<and> store_property a t p long st' = None"
proof -
  let ?cp = "(canon_props st ! j)\<lparr>cp_data := short\<rparr>" let ?st = "st\<lparr>canon_props := (canon_props st)[j := ?cp]\<rparr>"
  note j = find_canon_prop_Some [OF assms(1)]
  have "store_property b t p short st = Some (j, ?st)"
    using assms by (simp add: store_property_def keep_data_def)
  moreover have "find_canon_prop ?st p = Some j" using find_canon_prop_update [OF assms(1)] j by simp
  ultimately show ?thesis using assms j by (simp add: store_property_def keep_data_def)
qed

text \<open>A property record that is too short is read as the status of the camera.\<close>

lemma eos_short_property_sets_status:
  assumes "esz < 0xC"
  shows "eos_entry P dat cur esz PTP_EC_CANON_EOS_PropValueChanged st = camera_status_changed P dat cur st"
  using assms [unfolded not_le [symmetric]]
  by (simp add: eos_entry_def PTP_EC_CANON_EOS_PropValueChanged_def PTP_EC_CANON_EOS_ObjectAddedEx_def
      PTP_EC_CANON_EOS_RequestObjectTransfer_def PTP_EC_CANON_EOS_AvailListChanged_def)

text \<open>A value is current as soon as it is sent, also when the camera refuses it.\<close>

lemma eos_set_makes_current:
  assumes "ptp_canon_eos_setdevicepropvalue F st s p (PV_16 v) PTP_DTC_UINT16 = Some (ret, st', s')"
    and "find_canon_prop st (ucast p) = Some i"
  shows "dpd_CurrentValue (cp_dpd (canon_props st' ! i)) = PV_16 v"
  using assms find_canon_prop_Some [OF assms(2)]
  by (auto simp: ptp_canon_eos_setdevicepropvalue_def eos_value_bytes_def set_dpd_def bind_eq_Some_conv
      Let_def PTP_DTC_UINT16_def PTP_DTC_INT8_def PTP_DTC_UINT8_def split: if_splits)

section \<open>The backlog\<close>

text \<open>Asking a camera for its events never takes events out of the backlog nor changes their order.\<close>

lemma check_eos_events_appends:
  assumes "ptp_check_eos_events F q st s = Some (ret, q', st', s')"
  shows "\<exists>es. q' = q @ es"
proof -
  have "\<exists>es. fst (snd (ret, q', st', s')) = q @ es"
  proof (rule ptp_check_eos_events.raw_induct [OF _ assms, where P = "\<lambda>F q st s r. \<exists>es. fst (snd r) = q @ es"], goal_cases)
    case (1 rec F q st s r)
    from 1(2) show ?case
      by (auto simp: bind_eq_Some_conv add_backlog_def split: if_splits dest!: 1(1))
  qed
  then show ?thesis by simp
qed

end
