(* ===== verification/Ptp_Free.thy ===== *)
theory Ptp_Free
  imports Ptp_Cache
begin

text \<open>
  Releasing what was unpacked (\<open>src/src/ptp.c\<close>): property values, descriptions, object
  properties and cached objects. The heap is not modelled; a value owns a number of blocks,
  and the functions return how many they release, or \<open>None\<close> where they would hand
  \<open>free\<close> something that is not a block. That the numbers agree means that nothing is leaked
  and nothing is freed twice. The unions of a description are zeroed before they are filled,
  so a value nothing was stored to holds null pointers there; those of a property list are
  not.
\<close>

section \<open>Values\<close>

definition PTP_DTC_AINT128 :: u16 where "PTP_DTC_AINT128 = 0x4009"
definition PTP_DTC_AUINT128 :: u16 where "PTP_DTC_AUINT128 = 0x400A"

definition array_types :: "u16 list" where
  "array_types = [PTP_DTC_AINT8, PTP_DTC_AUINT8, PTP_DTC_AUINT16, PTP_DTC_AINT16, PTP_DTC_AUINT32,
     PTP_DTC_AINT32, PTP_DTC_AUINT64, PTP_DTC_AINT64, PTP_DTC_AUINT128, PTP_DTC_AINT128]"

text \<open>The array of a negative count was not allocated: its pointer is null.\<close>

definition value_blocks :: "ptp_property_value \<Rightarrow> nat" where
  "value_blocks v = (case v of PV_str (Some _) \<Rightarrow> 1 | PV_a n _ \<Rightarrow> (if sint n < 0 then 0 else 1) | _ \<Rightarrow> 0)"

definition free_array :: "ptp_property_value \<Rightarrow> nat option" where
  "free_array v = (case v of PV_a n _ \<Rightarrow> Some (if sint n < 0 then 0 else 1) | PV_unset \<Rightarrow> Some 0 | _ \<Rightarrow> None)"

definition free_string :: "ptp_property_value \<Rightarrow> nat option" where
  "free_string v = (case v of PV_str (Some _) \<Rightarrow> Some 1 | PV_str None \<Rightarrow> Some 0 | PV_unset \<Rightarrow> Some 0
     | _ \<Rightarrow> None)"

definition ptp_free_devicepropvalue :: "u16 \<Rightarrow> ptp_property_value \<Rightarrow> nat option" where
  "ptp_free_devicepropvalue dt v =
     (if dt \<in> set array_types then free_array v
      else if dt = PTP_DTC_STR then free_string v
      else Some 0)"

text \<open>The sum of what the values of a list release.\<close>

definition free_all :: "('a \<Rightarrow> nat option) \<Rightarrow> 'a list \<Rightarrow> nat option" where
  "free_all free xs = map_option sum_list (those (map free xs))"

lemma free_all_simps [simp]:
  "free_all free [] = Some 0"
  "free_all free (x # xs) = do { k \<leftarrow> free x; n \<leftarrow> free_all free xs; Some (k + n) }"
  by (simp_all add: free_all_def map_option_case split: option.splits)

lemma free_all_blocks:
  "\<forall>x \<in> set xs. free x = Some (blocks x) \<Longrightarrow> free_all free xs = Some (sum_list (map blocks xs))"
  by (induction xs) auto

section \<open>Descriptions\<close>

text \<open>The range and the enumeration of a description; the enumeration is a block of its own.\<close>

definition free_form :: "u16 \<Rightarrow> byte \<Rightarrow> prop_form \<Rightarrow> nat option" where
  "free_form dt flag form =
     (if flag = PTP_DPFF_Range then
        (case form of
           FORM_Range mn mx step \<Rightarrow> free_all (ptp_free_devicepropvalue dt) [mn, mx, step]
         | FORM_None \<Rightarrow> Some 0
         | FORM_Enum _ _ \<Rightarrow> None)
      else if flag = PTP_DPFF_Enumeration then
        (case form of
           FORM_Enum n vs \<Rightarrow>
             if unat n \<le> length vs then do {
               k \<leftarrow> free_all (ptp_free_devicepropvalue dt) (take (unat n) vs); Some (k + 1) }
             else None
         | FORM_None \<Rightarrow> Some 0
         | FORM_Range _ _ _ \<Rightarrow> None)
      else Some 0)"

definition ptp_free_devicepropdesc :: "ptp_device_prop_desc \<Rightarrow> nat option" where
  "ptp_free_devicepropdesc dpd = do {
     a \<leftarrow> ptp_free_devicepropvalue (dpd_DataType dpd) (dpd_FactoryDefaultValue dpd);
     b \<leftarrow> ptp_free_devicepropvalue (dpd_DataType dpd) (dpd_CurrentValue dpd);
     c \<leftarrow> free_form (dpd_DataType dpd) (dpd_FormFlag dpd) (dpd_FORM dpd);
     Some (a + b + c) }"

text \<open>The forms of an object property that have no branch of their own have nothing to free.\<close>

definition ptp_free_objectpropdesc :: "ptp_object_prop_desc \<Rightarrow> nat option" where
  "ptp_free_objectpropdesc opd = do {
     a \<leftarrow> ptp_free_devicepropvalue (opd_DataType opd) (opd_FactoryDefaultValue opd);
     c \<leftarrow> free_form (opd_DataType opd) (opd_FormFlag opd) (opd_FORM opd);
     Some (a + c) }"

definition form_blocks :: "prop_form \<Rightarrow> nat" where
  "form_blocks form = (case form of
       FORM_None \<Rightarrow> 0
     | FORM_Range mn mx step \<Rightarrow> value_blocks mn + value_blocks mx + value_blocks step
     | FORM_Enum _ vs \<Rightarrow> sum_list (map value_blocks vs) + 1)"

section \<open>Object properties and cached objects\<close>

definition PTP_OPC_StorageID :: u16 where "PTP_OPC_StorageID = 0xDC01"

text \<open>
  The list grown by an entry with defaults, and the place of the entry. Memory does not run
  out.
\<close>

definition ptp_get_new_object_prop_entry :: "mtp_properties list \<Rightarrow> nat \<times> mtp_properties list" where
  "ptp_get_new_object_prop_entry props = (length props, props @
     [\<lparr>mp_property = PTP_OPC_StorageID, mp_datatype = PTP_DTC_UNDEF, mp_ObjectHandle = 0,
       mp_propval = PV_str None\<rparr>])"

text \<open>A pointer that nothing was stored to is not null here.\<close>

definition ptp_destroy_object_prop :: "mtp_properties \<Rightarrow> nat option" where
  "ptp_destroy_object_prop mp =
     (if mp_datatype mp \<noteq> PTP_DTC_STR \<and> mp_datatype mp \<notin> set array_types then Some 0
      else if mp_propval mp = PV_unset then None
      else if mp_datatype mp = PTP_DTC_STR then free_string (mp_propval mp)
      else free_array (mp_propval mp))"

text \<open>The blocks of the properties; the array itself is released after them.\<close>

definition ptp_destroy_object_prop_list :: "mtp_properties list \<Rightarrow> nat \<Rightarrow> nat option" where
  "ptp_destroy_object_prop_list props nrofprops =
     (if nrofprops \<le> length props then free_all ptp_destroy_object_prop (take nrofprops props)
      else None)"

definition option_block :: "'a option \<Rightarrow> nat" where
  "option_block v = (case v of None \<Rightarrow> 0 | Some _ \<Rightarrow> 1)"

definition ptp_free_objectinfo :: "ptp_object_info \<Rightarrow> nat \<times> ptp_object_info" where
  "ptp_free_objectinfo info =
     (option_block (oi_Filename info) + option_block (oi_Keywords info),
      info\<lparr>oi_Filename := None, oi_Keywords := None\<rparr>)"

text \<open>The array of the properties is not released here.\<close>

definition ptp_free_object :: "ptp_object \<Rightarrow> (nat \<times> ptp_object) option" where
  "ptp_free_object ob = (let (a, info) = ptp_free_objectinfo (oi ob) in do {
     b \<leftarrow> free_all ptp_destroy_object_prop (mtpprops ob);
     Some (a + b, ob\<lparr>oi := info, obj_flags := 0\<rparr>) })"

section \<open>Everything unpacked is released once\<close>

text \<open>A value is owned by its type if freeing it as that type releases what it holds.\<close>

definition owned :: "u16 \<Rightarrow> ptp_property_value \<Rightarrow> bool" where
  "owned dt v \<longleftrightarrow> ptp_free_devicepropvalue dt v = Some (value_blocks v)"

lemmas free_defs = ptp_free_devicepropvalue_def array_types_def free_array_def free_string_def
  PTP_DTC_AINT128_def PTP_DTC_AUINT128_def dtc_defs value_blocks_def

lemma owned_unset [simp]: "owned dt PV_unset"
  by (simp add: owned_def free_defs)

lemma free_nothing [simp]:
  "ptp_free_devicepropvalue dt PV_unset = Some 0" "value_blocks PV_unset = 0"
  "free_form dt PTP_DPFF_None FORM_None = Some 0" "form_blocks FORM_None = 0"
  by (simp_all add: free_defs free_form_def form_blocks_def)

lemma CTVAL_shape:
  "CTVAL load k mk tot off PV_unset = Some (True, off', v) \<Longrightarrow> \<exists>w. v = mk w"
  by (auto simp: CTVAL_def split: if_splits bind_splits)

lemma RARR_shape:
  "RARR p dat load k mk tot off PV_unset = Some (True, off', v) \<Longrightarrow> \<exists>n vs. v = PV_a n vs"
  by (auto simp: RARR_def split: if_splits bind_splits)

lemma unpacked_value_owned:
  "ptp_unpack_DPV p dat off tot PV_unset dt = Some (True, off', v) \<Longrightarrow> owned dt v"
  by (auto simp: ptp_unpack_DPV_def owned_def free_defs split: if_splits bind_splits option.splits
      dest!: CTVAL_shape RARR_shape)

lemma enum_loop_owned:
  "enum_loop (\<lambda>offset. ptp_unpack_DPV p dat offset tot PV_unset dt) n off = Some vs \<Longrightarrow>
     \<forall>v \<in> set vs. owned dt v"
  by (induction n arbitrary: off vs)
    (auto split: if_splits bind_splits dest!: unpacked_value_owned)

lemma enum_loop_length: "enum_loop dpv n off = Some vs \<Longrightarrow> length vs \<le> n"
  by (induction dpv n off arbitrary: vs rule: enum_loop.induct) (auto split: if_splits bind_splits)

lemma free_all_owned:
  "\<forall>v \<in> set vs. owned dt v \<Longrightarrow>
     free_all (ptp_free_devicepropvalue dt) vs = Some (sum_list (map value_blocks vs))"
  by (rule free_all_blocks) (simp add: owned_def)

lemma unpacked_form_owned:
  assumes "unpack_form p dat off tot dt flag = Some (Some form)"
  shows "free_form dt flag form = Some (form_blocks form)"
proof -
  have enum: "free_form dt PTP_DPFF_Enumeration (FORM_Enum (of_nat (length vs)) vs) =
      Some (sum_list (map value_blocks vs) + 1)"
    if "enum_loop (\<lambda>offset. ptp_unpack_DPV p dat offset tot PV_unset dt) (unat (n :: u16)) off' = Some vs"
    for vs n off'
  proof -
    have "unat n < 2 ^ LENGTH(16)" by (rule unsigned_less)
    then have "length vs < 2 ^ 16" using enum_loop_length [OF that] by simp
    then have "unat (of_nat (length vs) :: u16) = length vs" by (simp add: unat_of_nat)
    then show ?thesis
      using free_all_owned [OF enum_loop_owned [OF that]]
      by (simp add: free_form_def PTP_DPFF_Range_def PTP_DPFF_Enumeration_def)
  qed
  show ?thesis
    using assms
    by (auto simp: unpack_form_def form_blocks_def enum split: if_splits bind_splits
        dest!: unpacked_value_owned)
      (auto simp: free_form_def owned_def)
qed

text \<open>
  A description that was unpacked, from whatever bytes, is released completely: each block
  once.
\<close>

lemma unpacked_device_description_freed:
  assumes "ptp_unpack_DPD p dat len = Some (Some dpd)"
  shows "ptp_free_devicepropdesc dpd = Some (value_blocks (dpd_FactoryDefaultValue dpd) +
           value_blocks (dpd_CurrentValue dpd) + form_blocks (dpd_FORM dpd))"
  using assms
  by (auto simp: ptp_unpack_DPD_def ptp_free_devicepropdesc_def Let_def
      split: if_splits bind_splits option.splits dest!: unpacked_value_owned unpacked_form_owned)
    (auto simp: owned_def)

lemma unpacked_object_description_freed:
  assumes "ptp_unpack_OPD p dat len = Some (Some opd)"
  shows "ptp_free_objectpropdesc opd = Some (value_blocks (opd_FactoryDefaultValue opd) +
           form_blocks (opd_FORM opd))"
  using assms
  by (auto simp: ptp_unpack_OPD_def ptp_free_objectpropdesc_def Let_def
      split: if_splits bind_splits option.splits dest!: unpacked_value_owned unpacked_form_owned)
    (auto simp: owned_def)

section \<open>Property lists\<close>

text \<open>
  What a value of the list is after \<open>ptp_unpack_DPV\<close>, whose result is not looked at: only the
  types of arrays can leave it as it was.
\<close>

lemma CTVAL_any: "CTVAL load k mk tot off PV_unset = Some (ret, off', v) \<Longrightarrow> v = PV_unset \<or> (\<exists>w. v = mk w)"
  by (auto simp: CTVAL_def split: if_splits bind_splits)

lemma RARR_any:
  "RARR p dat load k mk tot off PV_unset = Some (ret, off', v) \<Longrightarrow> v = PV_unset \<or> (\<exists>n vs. v = PV_a n vs)"
  by (auto simp: RARR_def split: if_splits bind_splits)

lemma listed_value_shape:
  assumes "ptp_unpack_DPV p dat off tot PV_unset dt = Some (ret, off', v)"
  shows "dt = PTP_DTC_STR \<Longrightarrow> \<exists>s. v = PV_str s"
    and "dt \<in> set array_types \<Longrightarrow> v = PV_unset \<or> (\<exists>n vs. v = PV_a n vs)"
  using assms
  by (auto simp: ptp_unpack_DPV_def free_defs split: if_splits bind_splits dest!: CTVAL_any RARR_any)

definition left_unset :: "mtp_properties \<Rightarrow> bool" where
  "left_unset mp \<longleftrightarrow> mp_datatype mp \<in> set array_types \<and> mp_propval mp = PV_unset"

definition prop_blocks :: "mtp_properties \<Rightarrow> nat" where
  "prop_blocks mp = (if mp_datatype mp = PTP_DTC_STR \<or> mp_datatype mp \<in> set array_types
     then value_blocks (mp_propval mp) else 0)"

lemma listed_prop_destroyed:
  assumes "opl_loop p dat len n = Some props" and "mp \<in> set props"
  shows "ptp_destroy_object_prop mp = (if left_unset mp then None else Some (prop_blocks mp))"
proof -
  have "\<exists>d tot ret off'. ptp_unpack_DPV p d 0 tot PV_unset (mp_datatype mp) = Some (ret, off', mp_propval mp)"
    using assms by (induction p dat len n arbitrary: props rule: opl_loop.induct)
      (auto split: if_splits bind_splits, blast+)
  then obtain d tot ret off' where
    "ptp_unpack_DPV p d 0 tot PV_unset (mp_datatype mp) = Some (ret, off', mp_propval mp)" by blast
  note listed_value_shape [OF this]
  moreover have "PTP_DTC_STR \<notin> set array_types" by (simp add: free_defs)
  ultimately show ?thesis
    by (auto simp: ptp_destroy_object_prop_def left_unset_def prop_blocks_def free_array_def
        free_string_def value_blocks_def split: option.splits)
qed

lemma free_all_None: "x \<in> set xs \<Longrightarrow> free x = None \<Longrightarrow> free_all free xs = None"
  by (induction xs) (auto split: bind_split)

text \<open>
  Claim C37: releasing a property list as it was unpacked from the device, whatever the bytes
  and whatever the order the list was sorted into. If an array was left unread, whose type
  the reader does not know or whose data had ended, \<open>free\<close> is given an arbitrary pointer; in
  every other case each block that the properties own is released exactly once.
\<close>

theorem unpacked_list_released_iff:
  assumes "\<forall>cmp xs. mset (qsort cmp xs) = mset xs" and "ptp_unpack_OPL qsort p dat len = Some props"
  shows "ptp_destroy_object_prop_list props (length props) =
    (if \<exists>mp \<in> set props. left_unset mp then None else Some (sum_list (map prop_blocks props)))"
proof -
  obtain items d l n where l: "opl_loop p d l n = Some items" "set items = set props"
  proof (cases "props = []")
    case True
    then show thesis using that [of dat 0 0 "[]"] by simp
  next
    case False
    then obtain items where "opl_loop p (drop 4 dat) (len - 4) (unat (the (dtoh32a p dat 0))) = Some items"
      and "props = qsort compare_func items"
      using assms(2) by (auto simp: ptp_unpack_OPL_def split: if_splits bind_splits)
    with assms(1) show thesis using that by (metis mset_eq_setD)
  qed
  have each: "ptp_destroy_object_prop mp = (if left_unset mp then None else Some (prop_blocks mp))"
    if "mp \<in> set props" for mp using listed_prop_destroyed [OF l(1)] that l(2) by simp
  show ?thesis
    using free_all_None [of _ props ptp_destroy_object_prop]
      free_all_blocks [of props ptp_destroy_object_prop prop_blocks] each
    by (auto simp: ptp_destroy_object_prop_list_def)
qed

text \<open>
  A device can bring the first case about with twelve bytes: an array of 128-bit numbers is
  not unpacked, but it is freed.
\<close>

definition unread_array :: "byte list" where
  "unread_array = [1, 0, 0, 0] @ [5, 0, 0, 0] @ [0x01, 0xDC] @ [0x0A, 0x40]"

lemma unread_array_unpacked:
  "ptp_unpack_OPL isort (plain_params PTP_DL_LE) unread_array 12 =
     Some [\<lparr>mp_property = 0xDC01, mp_datatype = PTP_DTC_AUINT128, mp_ObjectHandle = 5,
       mp_propval = PV_unset\<rparr>]"
  by code_simp

theorem unpacked_list_released_iff_witness:
  "ptp_destroy_object_prop_list [\<lparr>mp_property = 0xDC01, mp_datatype = PTP_DTC_AUINT128,
     mp_ObjectHandle = 5, mp_propval = PV_unset\<rparr>] 1 = None"
  using unpacked_list_released_iff [OF _ unread_array_unpacked]
  by (simp add: left_unset_def array_types_def mset_isort)

text \<open>The name and the keywords of an object are released with its properties.\<close>

lemma ptp_free_object_released:
  assumes "\<forall>mp \<in> set (mtpprops ob). ptp_destroy_object_prop mp = Some (prop_blocks mp)"
  shows "ptp_free_object ob = Some (option_block (oi_Filename (oi ob)) + option_block (oi_Keywords (oi ob)) +
     sum_list (map prop_blocks (mtpprops ob)),
     ob\<lparr>oi := (oi ob)\<lparr>oi_Filename := None, oi_Keywords := None\<rparr>, obj_flags := 0\<rparr>)"
  using free_all_blocks [OF assms] by (simp add: ptp_free_object_def ptp_free_objectinfo_def)

end
