(* ===== verification/Ptp_Names.thy ===== *)
theory Ptp_Names
  imports Ptp_Vendor
begin

text \<open>
  The names of codes and the rendering of values in \<open>src/src/ptp.c\<close>: the tables of error
  messages, property descriptions, object formats, operations, object properties and
  property values, in the order of the source and with the numbers of \<open>src/src/ptp.h\<close>, and
  the functions that search them. A table without its terminating entry is a list of codes
  and texts. The texts are not translated (\<open>_\<close> and \<open>N_\<close> are the identity when the build has
  no message catalogues).
\<close>

type_synonym name_table = "(u16 \<times> string) list"

text \<open>A loop that returns at the first entry with the code finds what \<open>map_of\<close> finds.\<close>

section \<open>Printing into a buffer\<close>

text \<open>
  \<open>snprintf(out, length, "%s", text)\<close>: at most \<open>length - 1\<close> characters and a terminator are
  stored, and the result is the length of the whole text. The length is an \<open>int\<close> that
  becomes a \<open>size_t\<close>; leaving the buffer is \<open>None\<close>.
\<close>

definition c_snprintf :: "int \<Rightarrow> byte list \<Rightarrow> byte list \<Rightarrow> (int \<times> byte list) option" where
  "c_snprintf len s out = (let n = len mod 2 ^ 64 in
     if n = 0 then Some (int (length s), out)
     else do { out' \<leftarrow> wr out 0 (take (nat (n - 1)) s @ [0]); Some (int (length s), out') })"

text \<open>The digits of \<open>%04x\<close>: a 16-bit number always has four.\<close>

definition hex4 :: "u16 \<Rightarrow> string" where
  "hex4 w = map (\<lambda>k. ''0123456789abcdef'' ! unat (drop_bit k w AND 0xF)) [12, 8, 4, 0]"

text \<open>A positive length within the buffer: nothing is written outside, and the text ends.\<close>

lemma wr_0_take: "wr out 0 t = Some out' \<Longrightarrow> take (length t) out' = t"
  by (auto simp: wr_def split: if_splits)

lemma c_snprintf_fits:
  assumes "0 < len" and "len < 2 ^ 31" and "nat len \<le> length out"
  obtains out' where "c_snprintf len s out = Some (int (length s), out')"
    and "length out' = length out"
    and "take (min (nat len - 1) (length s) + 1) out' = take (nat len - 1) s @ [0]"
proof -
  let ?t = "take (nat len - 1) s @ [0 :: byte]"
  have n: "len mod 2 ^ 64 = len" and k: "nat (len - 1) = nat len - 1" using assms(1,2) by auto
  have "length ?t \<le> length out" using assms(1,3) by auto
  then obtain out' where w: "wr out 0 ?t = Some out'" by (simp add: wr_def)
  have l: "min (nat len - 1) (length s) + 1 = length ?t" by simp
  show ?thesis
  proof (rule that)
    show "c_snprintf len s out = Some (int (length s), out')"
      unfolding c_snprintf_def Let_def n k w using assms(1) by simp
    show "length out' = length out" using w by (rule length_wr)
    show "take (min (nat len - 1) (length s) + 1) out' = ?t"
      unfolding l using w by (rule wr_0_take)
  qed
qed

section \<open>Error messages\<close>

text \<open>
  The code of an entry is a \<open>short\<close>, which is compared with the unsigned error: both become
  \<open>int\<close>s. Every entry that matches is printed.
\<close>

definition ptp_errors :: "name_table" where
  "ptp_errors = [
    (0x2000, ''PTP: Undefined Error''),
    (0x2001, ''PTP: OK!''),
    (0x2002, ''PTP: General Error''),
    (0x2003, ''PTP: Session Not Open''),
    (0x2004, ''PTP: Invalid Transaction ID''),
    (0x2005, ''PTP: Operation Not Supported''),
    (0x2006, ''PTP: Parameter Not Supported''),
    (0x2007, ''PTP: Incomplete Transfer''),
    (0x2008, ''PTP: Invalid Storage ID''),
    (0x2009, ''PTP: Invalid Object Handle''),
    (0x200A, ''PTP: Device Prop Not Supported''),
    (0x200B, ''PTP: Invalid Object Format Code''),
    (0x200C, ''PTP: Store Full''),
    (0x200D, ''PTP: Object Write Protected''),
    (0x200E, ''PTP: Store Read Only''),
    (0x200F, ''PTP: Access Denied''),
    (0x2010, ''PTP: No Thumbnail Present''),
    (0x2011, ''PTP: Self Test Failed''),
    (0x2012, ''PTP: Partial Deletion''),
    (0x2013, ''PTP: Store Not Available''),
    (0x2014, ''PTP: Specification By Format Unsupported''),
    (0x2015, ''PTP: No Valid Object Info''),
    (0x2016, ''PTP: Invalid Code Format''),
    (0x2017, ''PTP: Unknown Vendor Code''),
    (0x2018, ''PTP: Capture Already Terminated''),
    (0x2019, ''PTP: Device Busy''),
    (0x201A, ''PTP: Invalid Parent Object''),
    (0x201B, ''PTP: Invalid Device Prop Format''),
    (0x201C, ''PTP: Invalid Device Prop Value''),
    (0x201D, ''PTP: Invalid Parameter''),
    (0x201E, ''PTP: Session Already Opened''),
    (0x201F, ''PTP: Transaction Canceled''),
    (0x2020, ''PTP: Specification Of Destination Unsupported''),
    (0xA001, ''PTP: EK Filename Required''),
    (0xA002, ''PTP: EK Filename Conflicts''),
    (0xA003, ''PTP: EK Filename Invalid''),
    (0x02FF, ''PTP: I/O error''),
    (0x02FC, ''PTP: Error: bad parameter''),
    (0x02FE, ''PTP: Protocol error, data expected''),
    (0x02FD, ''PTP: Protocol error, response expected'')]"

definition ptp_perror :: "u16 \<Rightarrow> string list" where
  "ptp_perror err = map snd (filter (\<lambda>(n, txt). sint n = uint err) ptp_errors)"

section \<open>Property descriptions\<close>

definition ptp_device_properties :: "name_table" where
  "ptp_device_properties = [
    (0x5000, ''Undefined PTP Property''),
    (0x5001, ''Battery Level''),
    (0x5002, ''Functional Mode''),
    (0x5003, ''Image Size''),
    (0x5004, ''Compression Setting''),
    (0x5005, ''White Balance''),
    (0x5006, ''RGB Gain''),
    (0x5007, ''F-Number''),
    (0x5008, ''Focal Length''),
    (0x5009, ''Focus Distance''),
    (0x500A, ''Focus Mode''),
    (0x500B, ''Exposure Metering Mode''),
    (0x500C, ''Flash Mode''),
    (0x500D, ''Exposure Time''),
    (0x500E, ''Exposure Program Mode''),
    (0x500F, ''Exposure Index (film speed ISO)''),
    (0x5010, ''Exposure Bias Compensation''),
    (0x5011, ''Date & Time''),
    (0x5012, ''Pre-Capture Delay''),
    (0x5013, ''Still Capture Mode''),
    (0x5014, ''Contrast''),
    (0x5015, ''Sharpness''),
    (0x5016, ''Digital Zoom''),
    (0x5017, ''Effect Mode''),
    (0x5018, ''Burst Number''),
    (0x5019, ''Burst Interval''),
    (0x501A, ''Timelapse Number''),
    (0x501B, ''Timelapse Interval''),
    (0x501C, ''Focus Metering Mode''),
    (0x501D, ''Upload URL''),
    (0x501E, ''Artist''),
    (0x501F, ''Copyright Info'')]"

definition ptp_device_properties_EK :: "name_table" where
  "ptp_device_properties_EK = [
    (0xD001, ''Color Temperature''),
    (0xD002, ''Date Time Stamp Format''),
    (0xD003, ''Beep Mode''),
    (0xD004, ''Video Out''),
    (0xD005, ''Power Saving''),
    (0xD006, ''UI Language'')]"

definition ptp_device_properties_Canon :: "name_table" where
  "ptp_device_properties_Canon = [
    (0xD001, ''Beep Mode''),
    (0xD002, ''Battery Type''),
    (0xD003, ''Battery Mode''),
    (0xD004, ''UILockType''),
    (0xD005, ''Camera Mode''),
    (0xD006, ''Image Quality''),
    (0xD007, ''Full View File Format''),
    (0xD008, ''Image Size''),
    (0xD009, ''Self Time''),
    (0xD00A, ''Flash Mode''),
    (0xD00B, ''Beep''),
    (0xD00C, ''Shooting Mode''),
    (0xD00D, ''Image Mode''),
    (0xD00E, ''Drive Mode''),
    (0xD00F, ''Zoom''),
    (0xD010, ''Metering Mode''),
    (0xD011, ''AF Distance''),
    (0xD012, ''Focusing Point''),
    (0xD013, ''White Balance''),
    (0xD014, ''Slow Shutter Setting''),
    (0xD015, ''AF Mode''),
    (0xD016, ''Image Stabilization''),
    (0xD017, ''Contrast''),
    (0xD018, ''Color Gain''),
    (0xD019, ''Sharpness''),
    (0xD01A, ''Sensitivity''),
    (0xD01B, ''Parameter Set''),
    (0xD01C, ''ISO Speed''),
    (0xD01D, ''Aperture''),
    (0xD01E, ''Shutter Speed''),
    (0xD01F, ''Exposure Compensation''),
    (0xD020, ''Flash Compensation''),
    (0xD021, ''AEB Exposure Compensation''),
    (0xD023, ''Av Open''),
    (0xD024, ''Av Max''),
    (0xD025, ''Focal Length''),
    (0xD026, ''Focal Length Tele''),
    (0xD027, ''Focal Length Wide''),
    (0xD028, ''Focal Length Denominator''),
    (0xD029, ''Capture Transfer Mode''),
    (0xD02A, ''Zoom''),
    (0xD02B, ''Name Prefix''),
    (0xD02C, ''Size Quality Mode''),
    (0xD02D, ''Supported Thumb Size''),
    (0xD02E, ''Size of Output Data from Camera''),
    (0xD02F, ''Size of Input Data to Camera''),
    (0xD030, ''Remote API Version''),
    (0xD031, ''Firmware Version''),
    (0xD032, ''Camera Model''),
    (0xD033, ''Camera Owner''),
    (0xD034, ''UNIX Time''),
    (0xD035, ''Camera Body ID''),
    (0xD036, ''Camera Output''),
    (0xD037, ''Disp Av''),
    (0xD038, ''Av Open Apex''),
    (0xD039, ''Digital Zoom Magnification''),
    (0xD03A, ''Ml Spot Position''),
    (0xD03B, ''Disp Av Max''),
    (0xD03C, ''Av Max Apex''),
    (0xD03D, ''EZoom Start Position''),
    (0xD03E, ''Focal Length Tele''),
    (0xD03F, ''EZoom Size of Tele''),
    (0xD040, ''Photo Effect''),
    (0xD041, ''Assist Light''),
    (0xD042, ''Flash Quantity Count''),
    (0xD043, ''Rotation Angle''),
    (0xD044, ''Rotation Scene''),
    (0xD045, ''Event Emulate Mode''),
    (0xD046, ''DPOF Version''),
    (0xD047, ''Type of Slideshow''),
    (0xD048, ''Average Filesizes''),
    (0xD049, ''Model ID'')]"

definition ptp_device_properties_Nikon_1 :: "name_table" where
  "ptp_device_properties_Nikon_1 = [
    (0xD010, ''Shooting Bank''),
    (0xD011, ''Shooting Bank Name A''),
    (0xD012, ''Shooting Bank Name B''),
    (0xD013, ''Shooting Bank Name C''),
    (0xD014, ''Shooting Bank Name D''),
    (0xD015, ''Reset Bank 0''),
    (0xD016, ''Raw Compression''),
    (0xD017, ''Auto White Balance Bias''),
    (0xD018, ''Tungsten White Balance Bias''),
    (0xD019, ''Fluorescent White Balance Bias''),
    (0xD01A, ''Daylight White Balance Bias''),
    (0xD01B, ''Flash White Balance Bias''),
    (0xD01C, ''Cloudy White Balance Bias''),
    (0xD01D, ''Shady White Balance Bias''),
    (0xD01E, ''White Balance Colour Temperature''),
    (0xD01F, ''White Balance Preset Number''),
    (0xD020, ''White Balance Preset Name 0''),
    (0xD021, ''White Balance Preset Name 1''),
    (0xD022, ''White Balance Preset Name 2''),
    (0xD023, ''White Balance Preset Name 3''),
    (0xD024, ''White Balance Preset Name 4''),
    (0xD025, ''White Balance Preset Value 0''),
    (0xD026, ''White Balance Preset Value 1''),
    (0xD027, ''White Balance Preset Value 2''),
    (0xD028, ''White Balance Preset Value 3''),
    (0xD029, ''White Balance Preset Value 4''),
    (0xD02A, ''Sharpening''),
    (0xD02B, ''Tone Compensation''),
    (0xD02C, ''Color Model''),
    (0xD02D, ''Hue Adjustment''),
    (0xD02E, ''Lens Focal Length (Non CPU)''),
    (0xD02F, ''Lens Maximum Aperture (Non CPU)''),
    (0xD030, ''Shooting Mode''),
    (0xD031, ''JPEG Compression Policy''),
    (0xD032, ''Color Space''),
    (0xD033, ''Auto DX Crop''),
    (0xD040, ''PTP_DPC_NIKON_CSMMenuBankSelect''),
    (0xD041, ''Menu Bank Name A''),
    (0xD042, ''Menu Bank Name B''),
    (0xD043, ''Menu Bank Name C''),
    (0xD044, ''Menu Bank Name D''),
    (0xD045, ''Reset Menu Bank''),
    (0xD048, ''PTP_DPC_NIKON_A1AFCModePriority''),
    (0xD049, ''PTP_DPC_NIKON_A2AFSModePriority''),
    (0xD04A, ''PTP_DPC_NIKON_A3GroupDynamicAF''),
    (0xD04B, ''PTP_DPC_NIKON_A4AFActivation''),
    (0xD04C, ''PTP_DPC_NIKON_FocusAreaIllumManualFocus''),
    (0xD04D, ''PTP_DPC_NIKON_FocusAreaIllumContinuous''),
    (0xD04E, ''PTP_DPC_NIKON_FocusAreaIllumWhenSelected''),
    (0xD04F, ''Focus Area Wrap''),
    (0xD050, ''Vertical AF On''),
    (0xD051, ''AF Lock On''),
    (0xD052, ''Focus Area Zone''),
    (0xD053, ''Enable Copyright''),
    (0xD054, ''Auto ISO''),
    (0xD055, ''Exposure ISO Step''),
    (0xD056, ''Exposure Step''),
    (0xD057, ''Exposure Compensation (EV)''),
    (0xD058, ''Exposure Compensation''),
    (0xD059, ''Centre Weight Area''),
    (0xD05A, ''Exposure Base Matrix''),
    (0xD05B, ''Exposure Base Center''),
    (0xD05C, ''Exposure Base Spot''),
    (0xD05D, ''Live View AF Area''),
    (0xD05E, ''Exposure Lock''),
    (0xD05F, ''Focus Lock''),
    (0xD061, ''Live View AF Focus''),
    (0xD062, ''Auto Meter Off Time''),
    (0xD063, ''Self Timer Delay''),
    (0xD064, ''LCD Off Time''),
    (0xD065, ''Img Conf Time'')]"

definition ptp_device_properties_Nikon_2 :: "name_table" where
  "ptp_device_properties_Nikon_2 = [
    (0xD067, ''Angle Level''),
    (0xD068, ''Shooting Speed''),
    (0xD069, ''Maximum Shots''),
    (0xD06A, ''Exposure delay mode''),
    (0xD06B, ''Long Exposure Noise Reduction''),
    (0xD06C, ''File Number Sequencing''),
    (0xD06D, ''PTP_DPC_NIKON_ControlPanelFinderRearControl''),
    (0xD06E, ''PTP_DPC_NIKON_ControlPanelFinderViewfinder''),
    (0xD06F, ''LCD Illumination''),
    (0xD070, ''High ISO noise reduction''),
    (0xD071, ''On screen tips''),
    (0xD072, ''Artist Name''),
    (0xD073, ''Copyright Information''),
    (0xD074, ''Flash Sync. Speed''),
    (0xD075, ''Flash Shutter Speed''),
    (0xD076, ''Flash Mode''),
    (0xD077, ''Modeling Flash''),
    (0xD078, ''Bracket Set''),
    (0xD079, ''Manual Mode Bracketing''),
    (0xD07A, ''Bracket Order''),
    (0xD07B, ''Auto Bracket Selection''),
    (0xD07C, ''NIKON Auto Bracketing Set''),
    (0xD080, ''Center Button Shooting Mode''),
    (0xD081, ''Center Button Playback Mode''),
    (0xD082, ''Multiselector''),
    (0xD083, ''Photo Info. Playback''),
    (0xD084, ''Assign Func. Button''),
    (0xD085, ''Customise Command Dials''),
    (0xD086, ''Reverse Command Dial''),
    (0xD087, ''Aperture Setting''),
    (0xD088, ''Menus and Playback''),
    (0xD089, ''Buttons and Dials''),
    (0xD08A, ''No CF Card Release''),
    (0xD08B, ''Center Button Zoom Ratio''),
    (0xD08C, ''Function Button 2''),
    (0xD08D, ''AF Area Point''),
    (0xD08E, ''Normal AF On''),
    (0xD090, ''Image Comment String''),
    (0xD091, ''Image Comment Enable''),
    (0xD092, ''Image Rotation''),
    (0xD093, ''Manual Set Lens Number''),
    (0xD0A0, ''Movie Screen Size''),
    (0xD0A1, ''Movie Voice''),
    (0xD0C0, ''Bracketing Enable''),
    (0xD0C1, ''Exposure Bracketing Step''),
    (0xD0C2, ''Exposure Bracketing Program''),
    (0xD0C3, ''Auto Exposure Bracket Count''),
    (0xD0C4, ''White Balance Bracket Step''),
    (0xD0C5, ''White Balance Bracket Program''),
    (0xD0E0, ''Lens ID''),
    (0xD0E1, ''Lens Sort''),
    (0xD0E2, ''Lens Type''),
    (0xD0E3, ''Min. Focal Length''),
    (0xD0E4, ''Max. Focal Length''),
    (0xD0E5, ''Max. Aperture at Min. Focal Length''),
    (0xD0E6, ''Max. Aperture at Max. Focal Length''),
    (0xD0F0, ''Finder ISO Display''),
    (0xD0F2, ''Auto Off Photo''),
    (0xD0F3, ''Auto Off Menu''),
    (0xD0F4, ''Auto Off Info''),
    (0xD0F5, ''Self Timer Shot Number''),
    (0xD0F7, ''Vignette Control''),
    (0xD100, ''Nikon Exposure Time''),
    (0xD101, ''AC Power''),
    (0xD102, ''Warning Status''),
    (0xD103, ''Maximum Shots''),
    (0xD104, ''AF Locked''),
    (0xD105, ''AE Locked''),
    (0xD106, ''FV Locked''),
    (0xD107, ''AF LCD Top Mode 2''),
    (0xD108, ''Active AF Sensor''),
    (0xD109, ''Flexible Program''),
    (0xD10A, ''Exposure Meter''),
    (0xD10B, ''Recording Media''),
    (0xD10C, ''USB Speed''),
    (0xD10D, ''CCD Serial Number''),
    (0xD10E, ''Camera Orientation'')]"

definition ptp_device_properties_Nikon_3 :: "name_table" where
  "ptp_device_properties_Nikon_3 = [
    (0xD10F, ''Group PTN Type''),
    (0xD110, ''FNumber Lock''),
    (0xD111, ''Exposure Aperture Lock''),
    (0xD112, ''TV Lock Setting''),
    (0xD113, ''AV Lock Setting''),
    (0xD114, ''Illum Setting''),
    (0xD115, ''Focus Point Bright''),
    (0xD120, ''External Flash Attached''),
    (0xD121, ''External Flash Status''),
    (0xD122, ''External Flash Sort''),
    (0xD123, ''External Flash Mode''),
    (0xD124, ''External Flash Compensation''),
    (0xD125, ''External Flash Mode''),
    (0xD126, ''Flash Exposure Compensation''),
    (0xD140, ''Optimize Image''),
    (0xD142, ''Saturation''),
    (0xD143, ''BW Filler Effect''),
    (0xD144, ''BW Sharpness''),
    (0xD145, ''BW Contrast''),
    (0xD146, ''BW Setting Type''),
    (0xD148, ''Slot 2 Save Mode''),
    (0xD149, ''Raw Bit Mode''),
    (0xD14E, ''ISO Auto Time''),
    (0xD14F, ''Flourescent Type''),
    (0xD150, ''Tune Colour Temperature''),
    (0xD151, ''Tune Preset 0''),
    (0xD152, ''Tune Preset 1''),
    (0xD153, ''Tune Preset 2''),
    (0xD154, ''Tune Preset 3''),
    (0xD155, ''Tune Preset 4''),
    (0xD160, ''AF Beep Mode''),
    (0xD161, ''Autofocus Mode''),
    (0xD163, ''AF Assist Lamp''),
    (0xD164, ''Auto ISO P/A/DVP Setting''),
    (0xD165, ''Image Review''),
    (0xD166, ''AF Area Illumination''),
    (0xD167, ''Flash Mode''),
    (0xD168, ''Flash Commander Mode''),
    (0xD169, ''Flash Sign''),
    (0xD054, ''ISO Auto''),
    (0xD16B, ''Remote Timeout''),
    (0xD16C, ''Viewfinder Grid Display''),
    (0xD16D, ''Flash Mode Manual Power''),
    (0xD16E, ''Flash Mode Commander Power''),
    (0xD16F, ''Auto FP''),
    (0xD180, ''CSM Menu''),
    (0xD181, ''Warning Display''),
    (0xD182, ''Battery Cell Kind''),
    (0xD183, ''ISO Auto High Limit''),
    (0xD184, ''Dynamic AF Area''),
    (0xD186, ''Continuous Speed High''),
    (0xD187, ''Info Disp Setting''),
    (0xD189, ''Preview Button''),
    (0xD18A, ''Preview Button 2''),
    (0xD18B, ''AEAF Lock Button 2''),
    (0xD18D, ''Indicator Display''),
    (0xD18E, ''Cell Kind Priority''),
    (0xD190, ''Bracketing Frames and Steps''),
    (0xD1A0, ''Live View Mode''),
    (0xD1A1, ''Live View Drive Mode''),
    (0xD1A2, ''Live View Status''),
    (0xD1A3, ''Live View Image Zoom Ratio''),
    (0xD1A4, ''Live View Prohibit Condition''),
    (0xD1B0, ''Exposure Display Status''),
    (0xD1B1, ''Exposure Indicate Status''),
    (0xD1B3, ''Exposure Indicate Lightup''),
    (0xD1C0, ''Flash Open''),
    (0xD1C1, ''Flash Charged''),
    (0xD1D0, ''Flash MRepeat Value''),
    (0xD1D1, ''Flash MRepeat Count''),
    (0xD1D2, ''Flash MRepeat Interval''),
    (0xD1D3, ''Flash Command Channel''),
    (0xD1D4, ''Flash Command Self Mode'')]"

definition ptp_device_properties_Nikon_4 :: "name_table" where
  "ptp_device_properties_Nikon_4 = [
    (0xD1D5, ''Flash Command Self Compensation''),
    (0xD1D6, ''Flash Command Self Value''),
    (0xD1D7, ''Flash Command A Mode''),
    (0xD1D8, ''Flash Command A Compensation''),
    (0xD1D9, ''Flash Command A Value''),
    (0xD1DA, ''Flash Command B Mode''),
    (0xD1DB, ''Flash Command B Compensation''),
    (0xD1DC, ''Flash Command B Value''),
    (0xD200, ''Active Pic Ctrl Item''),
    (0xD201, ''Change Pic Ctrl Item'')]"

definition ptp_device_properties_Nikon :: "name_table" where
  "ptp_device_properties_Nikon = ptp_device_properties_Nikon_1 @ ptp_device_properties_Nikon_2 @ ptp_device_properties_Nikon_3 @ ptp_device_properties_Nikon_4"

definition ptp_device_properties_MTP :: "name_table" where
  "ptp_device_properties_MTP = [
    (0xD101, ''Secure Time''),
    (0xD102, ''Device Certificate''),
    (0xD103, ''Revocation Info''),
    (0xD401, ''Synchronization Partner''),
    (0xD402, ''Friendly Device Name''),
    (0xD403, ''Volume Level''),
    (0xD405, ''Device Icon''),
    (0xD406, ''Session Initiator Info''),
    (0xD407, ''Perceived Device Type''),
    (0xD410, ''Playback Rate''),
    (0xD411, ''Playback Object''),
    (0xD412, ''Playback Container Index''),
    (0xD413, ''Playback Position''),
    (0xD131, ''PlaysForSure ID'')]"

definition ptp_device_properties_FUJI :: "name_table" where
  "ptp_device_properties_FUJI = [
    (0xD017, ''Color Temperature''),
    (0xD018, ''Quality''),
    (0xD018, ''Release Mode''),
    (0xD018, ''Focus Areas''),
    (0xD018, ''AE Lock''),
    (0xD018, ''Aperture''),
    (0xD018, ''Shutter Speed'')]"

definition PTP_VENDOR_EASTMAN_KODAK :: u32 where "PTP_VENDOR_EASTMAN_KODAK = 0x00000001"
definition PTP_VENDOR_MICROSOFT :: u32 where "PTP_VENDOR_MICROSOFT = 0x00000006"
definition PTP_VENDOR_FUJI :: u32 where "PTP_VENDOR_FUJI = 0x0000000E"
definition PTP_VENDOR_MTP :: u32 where "PTP_VENDOR_MTP = 0xffffffff"

lemmas vendor_defs = PTP_VENDOR_EASTMAN_KODAK_def PTP_VENDOR_MICROSOFT_def PTP_VENDOR_FUJI_def
  PTP_VENDOR_MTP_def PTP_VENDOR_NIKON_def PTP_VENDOR_CANON_def

text \<open>
  The tables of the vendors are tried in the order of the source; a device has one vendor.
\<close>

definition vendor_properties :: "u32 \<Rightarrow> name_table" where
  "vendor_properties vid =
     (if vid = PTP_VENDOR_MICROSOFT \<or> vid = PTP_VENDOR_MTP then ptp_device_properties_MTP
      else if vid = PTP_VENDOR_EASTMAN_KODAK then ptp_device_properties_EK
      else if vid = PTP_VENDOR_CANON then ptp_device_properties_Canon
      else if vid = PTP_VENDOR_NIKON then ptp_device_properties_Nikon
      else if vid = PTP_VENDOR_FUJI then ptp_device_properties_FUJI
      else [])"

definition ptp_get_property_description :: "u32 \<Rightarrow> u16 \<Rightarrow> string option" where
  "ptp_get_property_description vid dpc =
     (case map_of ptp_device_properties dpc of
        Some txt \<Rightarrow> Some txt
      | None \<Rightarrow> map_of (vendor_properties vid) dpc)"

section \<open>Values of properties\<close>

definition PTP_DTC_ARRAY_MASK :: u16 where "PTP_DTC_ARRAY_MASK = 0x4000"

text \<open>\<open>atol\<close> reads like \<open>atoi\<close>; a number beyond a \<open>long\<close> is undefined there.\<close>

definition value_to_num :: "ptp_property_value \<Rightarrow> u16 \<Rightarrow> int option" where
  "value_to_num dat dt =
     (if dt = PTP_DTC_STR then
        (case dat of PV_str None \<Rightarrow> Some 0 | PV_str (Some s) \<Rightarrow> Some (atoi s) | _ \<Rightarrow> None)
      else if dt AND PTP_DTC_ARRAY_MASK \<noteq> 0 then Some 0
      else if dt = PTP_DTC_UNDEF then Some 0
      else if dt = PTP_DTC_INT8 then map_option sint (pv_8 dat)
      else if dt = PTP_DTC_UINT8 then map_option uint (pv_8 dat)
      else if dt = PTP_DTC_INT16 then map_option sint (pv_16 dat)
      else if dt = PTP_DTC_UINT16 then map_option uint (pv_16 dat)
      else if dt = PTP_DTC_INT32 then map_option sint (pv_32 dat)
      else if dt = PTP_DTC_UINT32 then map_option uint (pv_32 dat)
      else Some 0)"

text \<open>
  The numbers: property, vendor, the coefficient as a fraction, the bias and the format.
\<close>

definition ptp_value_trans :: "(u16 \<times> u32 \<times> int \<times> int \<times> int \<times> string) list" where
  "ptp_value_trans = [
    (0x5001, 0, 1, 1, 0, ''%.0f%%''),
    (0x5007, 0, 1, 100, 0, ''f/%.2g''),
    (0x5008, 0, 1, 100, 0, ''%.0f mm''),
    (0x5009, 0, 1, 100, 0, ''%.0f mm''),
    (0x500D, 0, 1, 100000, 0, ''%.2g sec''),
    (0x500F, 0, 1, 1, 0, ''ISO %.0f''),
    (0x5010, 0, 1, 1000, 0, ''%.1f stops''),
    (0x5012, 0, 1, 1000, 0, ''%.1fs''),
    (0x5016, 0, 1, 10, 0, ''%.1f''),
    (0x5019, 0, 1, 1000, 0, ''%.1fs''),
    (0xD10A, 10, 8333, 100000, 0, ''%.1f stops''),
    (0xD126, 10, 16666, 100000, 0, ''%.1f stops''),
    (0xD059, 10, 2, 1, 6, ''%.0f mm''),
    (0xD0E3, 10, 1, 100, 0, ''%.0f mm''),
    (0xD0E4, 10, 1, 100, 0, ''%.0f mm''),
    (0xD0E5, 10, 1, 100, 0, ''f/%.2g''),
    (0xD0E6, 10, 1, 100, 0, ''f/%.2g''),
    (0xD124, 10, 1, 6, 0, ''%.0f''),
    (0xD1B1, 10, 8333, 100000, 0, ''%.1f stops'')]"

text \<open>The named values: property, vendor, value and name.\<close>

definition ptp_value_list_1 :: "(u16 \<times> u32 \<times> int \<times> string) list" where
  "ptp_value_list_1 = [
    (0x5004, 0, 0, ''JPEG Basic''),
    (0x5004, 0, 1, ''JPEG Norm''),
    (0x5004, 0, 2, ''JPEG Fine''),
    (0x5004, 0, 4, ''RAW''),
    (0x5004, 0, 5, ''RAW + JPEG Basic''),
    (0x5005, 0, 1, ''Manual''),
    (0x5005, 0, 2, ''Automatic''),
    (0x5005, 0, 3, ''One-push Automatic''),
    (0x5005, 0, 4, ''Daylight''),
    (0x5005, 0, 5, ''Fluorescent''),
    (0x5005, 0, 6, ''Incandescent''),
    (0x5005, 0, 7, ''Flash''),
    (0x5005, 10, 32784, ''Cloudy''),
    (0x5005, 10, 32785, ''Shade''),
    (0x5005, 10, 32786, ''Color Temperature''),
    (0x5005, 10, 32787, ''Preset''),
    (0x500A, 0, 1, ''Manual Focus''),
    (0x500A, 0, 2, ''Automatic''),
    (0x500A, 0, 3, ''Automatic Macro (close-up)''),
    (0x500A, 10, 32784, ''AF-S''),
    (0x500A, 10, 32785, ''AF-C''),
    (0x500A, 10, 32786, ''AF-A''),
    (0x500B, 0, 1, ''Average''),
    (0x500B, 0, 2, ''Center Weighted Average''),
    (0x500B, 0, 3, ''Multi-spot''),
    (0x500B, 0, 4, ''Center-spot''),
    (0x500C, 0, 0, ''Undefined''),
    (0x500C, 0, 1, ''Automatic flash''),
    (0x500C, 0, 2, ''Flash off''),
    (0x500C, 0, 3, ''Fill flash''),
    (0x500C, 0, 4, ''Automatic Red-eye Reduction''),
    (0x500C, 0, 5, ''Red-eye fill flash''),
    (0x500C, 0, 6, ''External sync''),
    (0x500C, 10, 32784, ''Auto''),
    (0x500C, 10, 32785, ''Auto Slow Sync''),
    (0x500C, 10, 32786, ''Rear Curtain Sync + Slow Sync''),
    (0x500C, 10, 32787, ''Red-eye Reduction + Slow Sync''),
    (0x500E, 0, 1, ''M''),
    (0x500E, 0, 3, ''A''),
    (0x500E, 0, 4, ''S''),
    (0x500E, 0, 2, ''P''),
    (0x500E, 10, 32784, ''Auto''),
    (0x500E, 10, 32785, ''Portrait''),
    (0x500E, 10, 32786, ''Landscape''),
    (0x500E, 10, 32787, ''Macro''),
    (0x500E, 10, 32788, ''Sports''),
    (0x500E, 10, 32790, ''Night Landscape''),
    (0x500E, 10, 32789, ''Night Portrait''),
    (0x5013, 0, 1, ''Single Shot''),
    (0x5013, 0, 2, ''Power Wind''),
    (0x5013, 0, 3, ''Timelapse''),
    (0x5013, 10, 32784, ''Continuous Low Speed''),
    (0x5013, 10, 32785, ''Timer''),
    (0x5013, 10, 32787, ''Remote''),
    (0x5013, 10, 32787, ''Mirror Up''),
    (0x5013, 10, 32788, ''Timer + Remote''),
    (0x501C, 0, 1, ''Centre-spot''),
    (0x501C, 0, 2, ''Multi-spot''),
    (0x501C, 10, 32784, ''Single Area''),
    (0x501C, 10, 32785, ''Closest Subject''),
    (0x501C, 10, 32786, ''Group Dynamic''),
    (0xD02A, 10, 0, ''Auto''),
    (0xD02A, 10, 1, ''Normal''),
    (0xD02A, 10, 2, ''Low''),
    (0xD02A, 10, 3, ''Medium Low''),
    (0xD02A, 10, 4, ''Medium high''),
    (0xD02A, 10, 5, ''High''),
    (0xD02A, 10, 6, ''None''),
    (0xD02B, 10, 0, ''Auto''),
    (0xD02B, 10, 1, ''Normal''),
    (0xD02B, 10, 2, ''Low contrast''),
    (0xD02B, 10, 3, ''Medium Low''),
    (0xD02B, 10, 4, ''Medium High''),
    (0xD02B, 10, 5, ''High control''),
    (0xD02B, 10, 6, ''Custom''),
    (0xD02C, 10, 0, ''sRGB''),
    (0xD02C, 10, 1, ''AdobeRGB''),
    (0xD02C, 10, 2, ''sRGB''),
    (0xD033, 10, 0, ''Off''),
    (0xD033, 10, 1, ''On''),
    (0xD04F, 10, 0, ''Off''),
    (0xD04F, 10, 1, ''On''),
    (0xD053, 10, 0, ''Off''),
    (0xD053, 10, 1, ''On''),
    (0xD054, 10, 0, ''Off''),
    (0xD054, 10, 1, ''On''),
    (0xD054, 10, 0, ''1/125''),
    (0xD054, 10, 1, ''1/60''),
    (0xD054, 10, 2, ''1/30''),
    (0xD054, 10, 3, ''1/15''),
    (0xD054, 10, 4, ''1/8''),
    (0xD054, 10, 5, ''1/4''),
    (0xD054, 10, 6, ''1/2''),
    (0xD054, 10, 7, ''1''),
    (0xD054, 10, 8, ''2''),
    (0xD054, 10, 9, ''4''),
    (0xD054, 10, 10, ''8''),
    (0xD054, 10, 11, ''15''),
    (0xD054, 10, 12, ''30''),
    (0xD056, 10, 0, ''1/3''),
    (0xD056, 10, 1, ''1/2''),
    (0xD058, 10, 0, ''Off''),
    (0xD058, 10, 1, ''On''),
    (0xD05E, 10, 0, ''Off''),
    (0xD05E, 10, 1, ''On''),
    (0xD05F, 10, 0, ''AE/AF Lock''),
    (0xD05F, 10, 1, ''AF Lock only''),
    (0xD05F, 10, 2, ''AE Lock only''),
    (0xD05F, 10, 3, ''AF Lock Hold''),
    (0xD05F, 10, 4, ''AF On''),
    (0xD05F, 10, 5, ''Flash Lock''),
    (0xD062, 10, 0, ''4 seconds''),
    (0xD062, 10, 1, ''6 seconds''),
    (0xD062, 10, 2, ''8 seconds''),
    (0xD062, 10, 3, ''16 seconds''),
    (0xD062, 10, 4, ''30 minutes''),
    (0xD062, 10, 5, ''30 seconds''),
    (0xD063, 10, 0, ''2 seconds''),
    (0xD063, 10, 1, ''5 seconds''),
    (0xD063, 10, 2, ''10 seconds''),
    (0xD063, 10, 3, ''20 seconds''),
    (0xD064, 10, 0, ''10 seconds''),
    (0xD064, 10, 1, ''20 seconds''),
    (0xD064, 10, 2, ''1 minute''),
    (0xD064, 10, 3, ''5 minutes''),
    (0xD064, 10, 4, ''10 minutes''),
    (0xD064, 10, 5, ''5 seconds''),
    (0xD06A, 10, 0, ''Off''),
    (0xD06A, 10, 1, ''On''),
    (0xD06B, 10, 0, ''Off''),
    (0xD06B, 10, 1, ''On'')]"

definition ptp_value_list_2 :: "(u16 \<times> u32 \<times> int \<times> string) list" where
  "ptp_value_list_2 = [
    (0xD06C, 10, 0, ''Off''),
    (0xD06C, 10, 1, ''On''),
    (0xD06F, 10, 0, ''Off''),
    (0xD06F, 10, 1, ''On''),
    (0xD071, 10, 0, ''Off''),
    (0xD071, 10, 1, ''On''),
    (0xD075, 10, 0, ''1/60s''),
    (0xD075, 10, 1, ''1/30s''),
    (0xD075, 10, 2, ''1/15s''),
    (0xD075, 10, 3, ''1/8s''),
    (0xD075, 10, 4, ''1/4s''),
    (0xD075, 10, 5, ''1/2s''),
    (0xD075, 10, 6, ''1s''),
    (0xD075, 10, 7, ''2s''),
    (0xD075, 10, 8, ''4s''),
    (0xD075, 10, 9, ''8s''),
    (0xD075, 10, 10, ''15s''),
    (0xD075, 10, 11, ''30s''),
    (0xD077, 10, 0, ''Off''),
    (0xD077, 10, 1, ''On''),
    (0xD078, 10, 0, ''AE & Flash''),
    (0xD078, 10, 1, ''AE only''),
    (0xD078, 10, 2, ''Flash only''),
    (0xD078, 10, 3, ''WB bracketing''),
    (0xD07A, 10, 0, ''MTR > Under''),
    (0xD07A, 10, 1, ''Under > MTR''),
    (0xD080, 10, 0, ''Reset focus point to center''),
    (0xD080, 10, 1, ''Highlight active focus point''),
    (0xD080, 10, 2, ''Unused''),
    (0xD083, 10, 0, ''Off''),
    (0xD083, 10, 1, ''On''),
    (0xD085, 10, 0, ''Off''),
    (0xD085, 10, 1, ''On''),
    (0xD086, 10, 0, ''Off''),
    (0xD086, 10, 1, ''On''),
    (0xD089, 10, 0, ''On''),
    (0xD089, 10, 1, ''Off''),
    (0xD08A, 10, 0, ''On''),
    (0xD08A, 10, 1, ''Off''),
    (0xD08D, 10, 0, ''On''),
    (0xD08D, 10, 1, ''Off''),
    (0xD091, 10, 0, ''Off''),
    (0xD091, 10, 1, ''On''),
    (0xD092, 10, 0, ''On''),
    (0xD092, 10, 1, ''Off''),
    (0xD0A1, 10, 0, ''On''),
    (0xD0A1, 10, 1, ''Off''),
    (0xD0C0, 10, 0, ''Off''),
    (0xD0C0, 10, 1, ''On''),
    (0xD0E0, 10, 0, ''Unknown''),
    (0xD0E0, 10, 38, ''Sigma 70-300mm 1:4-5.6 D APO Macro''),
    (0xD0E0, 10, 83, ''AF Nikkor 80-200mm 1:2.8 D ED''),
    (0xD0E0, 10, 118, ''AF Nikkor 50mm 1:1.8 D''),
    (0xD0E0, 10, 127, ''AF-S Nikkor 18-70mm 1:3.5-4.5G ED DX''),
    (0xD0E0, 10, 139, ''AF-S Nikkor 18-200mm 1:3.5-5.6 GED DX VR''),
    (0xD0E0, 10, 147, ''AF-S Nikkor 24-70mm 1:2.8G ED DX''),
    (0xD0E0, 10, 154, ''AF-S Nikkor 18-55mm 1:3.5-F5.6G DX VR''),
    (0xD0E0, 10, 159, ''AF-S Nikkor 35mm 1:1.8G DX''),
    (0xD0F0, 10, 0, ''Show ISO sensitivity''),
    (0xD0F0, 10, 1, ''Show ISO/Easy ISO''),
    (0xD0F0, 10, 2, ''Show frame count''),
    (0xD101, 10, 0, ''No''),
    (0xD101, 10, 1, ''Yes''),
    (0xD104, 10, 0, ''No''),
    (0xD104, 10, 1, ''Yes''),
    (0xD105, 10, 0, ''No''),
    (0xD105, 10, 1, ''Yes''),
    (0xD106, 10, 0, ''No''),
    (0xD106, 10, 1, ''Yes''),
    (0xD108, 10, 0, ''Centre''),
    (0xD108, 10, 1, ''Top''),
    (0xD108, 10, 2, ''Bottom''),
    (0xD108, 10, 3, ''Left''),
    (0xD108, 10, 4, ''Right''),
    (0xD10B, 10, 0, ''Card''),
    (0xD10B, 10, 1, ''SDRam''),
    (0xD10C, 10, 0, ''USB 1.1''),
    (0xD10C, 10, 1, ''USB 2.0''),
    (0xD10E, 10, 0, ''0'' @ [CHR 0x27]),
    (0xD10E, 10, 1, ''270'' @ [CHR 0x27]),
    (0xD10E, 10, 2, ''90'' @ [CHR 0x27]),
    (0xD10E, 10, 3, ''180'' @ [CHR 0x27]),
    (0xD110, 10, 0, ''No''),
    (0xD110, 10, 1, ''Yes''),
    (0xD111, 10, 0, ''No''),
    (0xD111, 10, 1, ''Yes''),
    (0xD112, 10, 0, ''No''),
    (0xD112, 10, 1, ''Yes''),
    (0xD113, 10, 0, ''No''),
    (0xD113, 10, 1, ''Yes''),
    (0xD114, 10, 0, ''LCD Backlight''),
    (0xD114, 10, 1, ''LCD Backlight and Info Display''),
    (0xD120, 10, 0, ''No''),
    (0xD120, 10, 1, ''Yes''),
    (0xD121, 10, 0, ''No''),
    (0xD121, 10, 1, ''Yes''),
    (0xD140, 10, 0, ''Normal''),
    (0xD140, 10, 1, ''Vivid''),
    (0xD140, 10, 2, ''Sharper''),
    (0xD140, 10, 3, ''Softer''),
    (0xD140, 10, 4, ''Direct Print''),
    (0xD140, 10, 5, ''Portrait''),
    (0xD140, 10, 6, ''Landscape''),
    (0xD140, 10, 7, ''Custom''),
    (0xD142, 10, 0, ''Normal''),
    (0xD142, 10, 1, ''Moderate''),
    (0xD142, 10, 2, ''Enhanced''),
    (0xD160, 10, 0, ''On''),
    (0xD160, 10, 1, ''Off''),
    (0xD161, 10, 0, ''AF-S''),
    (0xD161, 10, 1, ''AF-C''),
    (0xD161, 10, 2, ''AF-A''),
    (0xD161, 10, 3, ''MF (fixed)''),
    (0xD161, 10, 4, ''MF (selection)''),
    (0xD163, 10, 0, ''On''),
    (0xD163, 10, 1, ''Off''),
    (0xD164, 10, 0, ''1/125''),
    (0xD164, 10, 1, ''1/60''),
    (0xD164, 10, 2, ''1/30''),
    (0xD164, 10, 3, ''1/15''),
    (0xD164, 10, 4, ''1/8''),
    (0xD164, 10, 5, ''1/4''),
    (0xD164, 10, 6, ''1/2''),
    (0xD164, 10, 7, ''1''),
    (0xD164, 10, 8, ''2''),
    (0xD164, 10, 9, ''4''),
    (0xD164, 10, 10, ''8''),
    (0xD164, 10, 11, ''15''),
    (0xD164, 10, 12, ''30''),
    (0xD165, 10, 0, ''On''),
    (0xD165, 10, 1, ''Off''),
    (0xD166, 10, 0, ''Auto''),
    (0xD166, 10, 1, ''Off''),
    (0xD166, 10, 2, ''On''),
    (0xD167, 10, 0, ''iTTL''),
    (0xD167, 10, 1, ''Manual''),
    (0xD167, 10, 2, ''Commander''),
    (0xD168, 10, 0, ''TTL''),
    (0xD168, 10, 1, ''Auto Aperture''),
    (0xD168, 10, 2, ''Full Manual''),
    (0xD169, 10, 0, ''On''),
    (0xD169, 10, 1, ''Off'')]"

definition ptp_value_list_3 :: "(u16 \<times> u32 \<times> int \<times> string) list" where
  "ptp_value_list_3 = [
    (0xD16B, 10, 0, ''1 min''),
    (0xD16B, 10, 1, ''5 mins''),
    (0xD16B, 10, 2, ''10 mins''),
    (0xD16B, 10, 3, ''15 mins''),
    (0xD16C, 10, 0, ''Off''),
    (0xD16C, 10, 1, ''On''),
    (0xD16D, 10, 0, ''Full''),
    (0xD16D, 10, 1, ''1/2''),
    (0xD16D, 10, 2, ''1/4''),
    (0xD16D, 10, 3, ''1/8''),
    (0xD16D, 10, 4, ''1/16''),
    (0xD16E, 10, 0, ''Full''),
    (0xD16E, 10, 1, ''1/2''),
    (0xD16E, 10, 2, ''1/4''),
    (0xD16E, 10, 3, ''1/8''),
    (0xD16E, 10, 4, ''1/16''),
    (0xD16E, 10, 5, ''1/32''),
    (0xD16E, 10, 6, ''1/64''),
    (0xD16E, 10, 7, ''1/128''),
    (0xD180, 10, 0, ''No''),
    (0xD180, 10, 1, ''Yes''),
    (0xD181, 10, 0, ''No''),
    (0xD181, 10, 1, ''Yes''),
    (0xD182, 10, 0, ''LR6 (AA alkaline)''),
    (0xD182, 10, 1, ''HR6 (AA Ni-Mh)''),
    (0xD182, 10, 2, ''FR6 (AA Lithium)''),
    (0xD182, 10, 3, ''ZR6 (AA Ni-Mn)''),
    (0xD183, 10, 0, ''400''),
    (0xD183, 10, 1, ''800''),
    (0xD183, 10, 2, ''1600''),
    (0xD183, 10, 3, ''3200''),
    (0xD183, 10, 4, ''Hi 1''),
    (0xD183, 10, 5, ''Hi 2''),
    (0xD187, 10, 0, ''Auto''),
    (0xD187, 10, 1, ''Dark on light''),
    (0xD187, 10, 2, ''Light on dark''),
    (0xD18D, 10, 0, ''No''),
    (0xD18D, 10, 1, ''Yes''),
    (0xD1A2, 10, 0, ''No''),
    (0xD1A2, 10, 1, ''Yes''),
    (0xD1B0, 10, 0, ''No''),
    (0xD1B0, 10, 1, ''Yes''),
    (0xD1B2, 10, 0, ''No''),
    (0xD1B2, 10, 1, ''Yes''),
    (0xD1B3, 10, 0, ''No''),
    (0xD1B3, 10, 1, ''Yes''),
    (0xD1C0, 10, 0, ''No''),
    (0xD1C0, 10, 1, ''Yes''),
    (0xD1C1, 10, 0, ''No''),
    (0xD1C1, 10, 1, ''Yes''),
    (0xD041, 11, 0, ''Off''),
    (0xD041, 11, 1, ''On''),
    (0xD044, 11, 0, ''On''),
    (0xD044, 11, 1, ''Off''),
    (0xD001, 11, 0, ''On''),
    (0xD001, 11, 1, ''Off''),
    (0xD00B, 11, 0, ''Off''),
    (0xD00B, 11, 1, ''On''),
    (0xD043, 11, 0, ''0'' @ [CHR 0x27]),
    (0xD043, 11, 3, ''270'' @ [CHR 0x27]),
    (0xD043, 11, 1, ''90'' @ [CHR 0x27]),
    (0xD002, 11, 0, ''Unknown''),
    (0xD002, 11, 1, ''AC''),
    (0xD002, 11, 2, ''Lithium Ion''),
    (0xD002, 11, 3, ''Nickel hydride''),
    (0xD002, 11, 4, ''Nickel cadmium''),
    (0xD002, 11, 5, ''Alkalium manganese''),
    (0xD003, 11, 0, ''Undefined''),
    (0xD003, 11, 1, ''Normal''),
    (0xD003, 11, 2, ''Warning Level 1''),
    (0xD003, 11, 3, ''Emergency''),
    (0xD003, 11, 4, ''Warning Level 0''),
    (0xD006, 11, 0, ''Undefined''),
    (0xD006, 11, 1, ''Economy''),
    (0xD006, 11, 2, ''Normal''),
    (0xD006, 11, 3, ''Fine''),
    (0xD006, 11, 4, ''Lossless''),
    (0xD006, 11, 5, ''SuperFine''),
    (0xD007, 11, 0, ''Undefined''),
    (0xD007, 11, 1, ''JPEG''),
    (0xD007, 11, 2, ''CRW''),
    (0xD008, 11, 0, ''Large''),
    (0xD008, 11, 1, ''Medium 1''),
    (0xD008, 11, 2, ''Small''),
    (0xD008, 11, 3, ''Medium 2''),
    (0xD008, 11, 7, ''Medium 3''),
    (0xD009, 11, 0, ''Not used''),
    (0xD009, 11, 100, ''10 seconds''),
    (0xD009, 11, 20, ''2 seconds''),
    (0xD00A, 11, 0, ''Off''),
    (0xD00A, 11, 1, ''Auto''),
    (0xD00A, 11, 2, ''On''),
    (0xD00A, 11, 3, ''Red Eye Suppression''),
    (0xD00A, 11, 4, ''Low Speed Synchronization''),
    (0xD00A, 11, 5, ''Auto + Red Eye Suppression''),
    (0xD00A, 11, 6, ''On + Red Eye Suppression''),
    (0xD00C, 11, 0, ''Auto''),
    (0xD00C, 11, 1, ''P''),
    (0xD00C, 11, 2, ''Tv''),
    (0xD00C, 11, 3, ''Av''),
    (0xD00C, 11, 4, ''M''),
    (0xD00C, 11, 5, ''A_DEP''),
    (0xD00C, 11, 6, ''M_DEP''),
    (0xD00C, 11, 7, ''Bulb''),
    (0xD00D, 11, 0, ''Auto''),
    (0xD00D, 11, 1, ''Manual''),
    (0xD00D, 11, 2, ''Distant View''),
    (0xD00D, 11, 3, ''High-Speed Shutter''),
    (0xD00D, 11, 4, ''Low-Speed Shutter''),
    (0xD00D, 11, 5, ''Night View''),
    (0xD00D, 11, 6, ''Grayscale''),
    (0xD00D, 11, 7, ''Sepia''),
    (0xD00D, 11, 8, ''Portrait''),
    (0xD00D, 11, 9, ''Sports''),
    (0xD00D, 11, 10, ''Macro''),
    (0xD00D, 11, 11, ''Monochrome''),
    (0xD00D, 11, 12, ''Pan Focus''),
    (0xD00D, 11, 13, ''Neutral''),
    (0xD00D, 11, 14, ''Soft''),
    (0xD00E, 11, 0, ''Single-Frame Shooting''),
    (0xD00E, 11, 1, ''Continuous Shooting''),
    (0xD00E, 11, 2, ''Timer (Single) Shooting''),
    (0xD00E, 11, 4, ''Continuous Low-speed Shooting''),
    (0xD00E, 11, 5, ''Continuous High-speed Shooting''),
    (0xD00F, 11, 0, ''Off''),
    (0xD00F, 11, 1, ''2x''),
    (0xD00F, 11, 2, ''4x''),
    (0xD00F, 11, 3, ''Smooth''),
    (0xD010, 11, 0, ''Center-weighted Metering''),
    (0xD010, 11, 1, ''Spot Metering''),
    (0xD010, 11, 2, ''Average Metering''),
    (0xD010, 11, 3, ''Evaluative Metering''),
    (0xD010, 11, 4, ''Partial Metering'')]"

definition ptp_value_list_4 :: "(u16 \<times> u32 \<times> int \<times> string) list" where
  "ptp_value_list_4 = [
    (0xD010, 11, 5, ''Center-weighted Average Metering''),
    (0xD010, 11, 6, ''Spot Metering Interlocked with AF Frame''),
    (0xD010, 11, 7, ''Multi-Spot Metering''),
    (0xD011, 11, 0, ''Manual''),
    (0xD011, 11, 1, ''Auto''),
    (0xD011, 11, 2, ''Unknown''),
    (0xD011, 11, 3, ''Zone Focus (Close-up)''),
    (0xD011, 11, 4, ''Zone Focus (Very Close)''),
    (0xD011, 11, 5, ''Zone Focus (Close)''),
    (0xD011, 11, 6, ''Zone Focus (Medium)''),
    (0xD011, 11, 7, ''Zone Focus (Far)''),
    (0xD012, 11, 0, ''Invalid''),
    (0xD012, 11, 4096, ''Focusing Point on Center Only, Manual''),
    (0xD012, 11, 4097, ''Focusing Point on Center Only, Auto''),
    (0xD012, 11, 12288, ''Multiple Focusing Points (No Specification), Manual''),
    (0xD012, 11, 12289, ''Multiple Focusing Points, Auto''),
    (0xD012, 11, 12290, ''Multiple Focusing Points (Right)''),
    (0xD012, 11, 12291, ''Multiple Focusing Points (Center)''),
    (0xD012, 11, 12292, ''Multiple Focusing Points (Left)''),
    (0xD013, 11, 0, ''Auto''),
    (0xD013, 11, 1, ''Daylight''),
    (0xD013, 11, 2, ''Cloudy''),
    (0xD013, 11, 3, ''Tungsten''),
    (0xD013, 11, 4, ''Fluorescent''),
    (0xD013, 11, 6, ''Preset''),
    (0xD013, 11, 7, ''Fluorescent H''),
    (0xD013, 11, 9, ''Color Temperature''),
    (0xD013, 11, 10, ''Custom Whitebalance PC-1''),
    (0xD013, 11, 11, ''Custom Whitebalance PC-2''),
    (0xD013, 11, 12, ''Custom Whitebalance PC-3''),
    (0xD013, 11, 13, ''Missing Number''),
    (0xD013, 11, 14, ''Fluorescent H''),
    (0xD014, 11, 0, ''Off''),
    (0xD014, 11, 1, ''Night View''),
    (0xD014, 11, 2, ''On''),
    (0xD014, 11, 3, ''Low-speed shutter function not available''),
    (0xD015, 11, 0, ''Single Shot''),
    (0xD015, 11, 1, ''AI Servo''),
    (0xD015, 11, 2, ''AI Focus''),
    (0xD015, 11, 3, ''Manual''),
    (0xD015, 11, 4, ''Continuous''),
    (0xD016, 11, 0, ''Off''),
    (0xD016, 11, 1, ''On''),
    (0xD017, 11, -2, ''Low 2''),
    (0xD017, 11, -1, ''Low''),
    (0xD017, 11, 0, ''Standard''),
    (0xD017, 11, 1, ''High''),
    (0xD017, 11, 2, ''High 2''),
    (0xD018, 11, -2, ''Low 2''),
    (0xD018, 11, -1, ''Low''),
    (0xD018, 11, 0, ''Standard''),
    (0xD018, 11, 1, ''High''),
    (0xD018, 11, 2, ''High 2''),
    (0xD019, 11, -2, ''Low 2''),
    (0xD019, 11, -1, ''Low''),
    (0xD019, 11, 0, ''Standard''),
    (0xD019, 11, 1, ''High''),
    (0xD019, 11, 2, ''High 2''),
    (0xD01A, 11, 0, ''Standard''),
    (0xD01A, 11, 1, ''Upper 1''),
    (0xD01A, 11, 2, ''Upper 2''),
    (0xD01B, 11, 8, ''Standard Development Parameters''),
    (0xD01B, 11, 16, ''Development Parameters 1''),
    (0xD01B, 11, 32, ''Development Parameters 2''),
    (0xD01B, 11, 64, ''Development Parameters 3''),
    (0xD01C, 11, 0, ''Auto''),
    (0xD01C, 11, 40, ''6''),
    (0xD01C, 11, 48, ''12''),
    (0xD01C, 11, 56, ''25''),
    (0xD01C, 11, 64, ''50''),
    (0xD01C, 11, 67, ''64''),
    (0xD01C, 11, 72, ''100''),
    (0xD01C, 11, 80, ''200''),
    (0xD01C, 11, 88, ''400''),
    (0xD01C, 11, 96, ''800''),
    (0xD01C, 11, 104, ''1600''),
    (0xD01C, 11, 112, ''3200''),
    (0xD01C, 11, 120, ''6400''),
    (0xD036, 11, 0, ''Undefined''),
    (0xD036, 11, 1, ''LCD''),
    (0xD036, 11, 2, ''Video OUT''),
    (0xD036, 11, 3, ''Off''),
    (0xD03A, 11, 0, ''MlSpotPosCenter''),
    (0xD03A, 11, 1, ''MlSpotPosAfLink''),
    (0xD040, 11, 0, ''Off''),
    (0xD040, 11, 1, ''Vivid''),
    (0xD040, 11, 2, ''Neutral''),
    (0xD040, 11, 3, ''Soft''),
    (0xD040, 11, 4, ''Sepia''),
    (0xD040, 11, 5, ''Monochrome'')]"

definition ptp_value_list :: "(u16 \<times> u32 \<times> int \<times> string) list" where
  "ptp_value_list = ptp_value_list_1 @ ptp_value_list_2 @ ptp_value_list_3 @ ptp_value_list_4"

text \<open>
  What is printed: text in the buffer, with the length the function returns, or a number. The
  number is the exact fraction the format is applied to; the source computes it in
  \<open>double\<close>s, and its digits are left to the C library.
\<close>

datatype rendered =
    Rendered int "byte list"
  | Formatted string int int

definition matches_dpc :: "u32 \<Rightarrow> u16 \<Rightarrow> u16 \<Rightarrow> u32 \<Rightarrow> bool" where
  "matches_dpc vid dpc c v \<longleftrightarrow> c = dpc \<and> (c AND 0xf000 = 0x5000 \<or> v = vid)"

definition render_text :: "int \<Rightarrow> byte list \<Rightarrow> byte list \<Rightarrow> rendered option" where
  "render_text len s out = do { (r, out') \<leftarrow> c_snprintf len s out; Some (Rendered r out') }"

text \<open>
  The low bytes of the 16-bit elements of an array. The loop compares the index with the
  unsigned count and with the signed length, the condition after it compares the two
  unsigned.
\<close>

definition render_units :: "u32 \<Rightarrow> ptp_property_value list \<Rightarrow> int \<Rightarrow> byte list \<Rightarrow> rendered option" where
  "render_units n vs len out = (let m = min (unat n) (nat len) in
     if length vs < m then None
     else do {
       us \<leftarrow> those (map pv_16 (take m vs));
       out1 \<leftarrow> wr out 0 (map ucast us);
       if n \<noteq> 0 \<and> n < word_of_int len then do {
         out2 \<leftarrow> wr out1 (unat n - 1) [0];
         Some (Rendered (sint (n - 1)) out2) }
       else if len < 1 then None
       else do {
         out2 \<leftarrow> wr out1 (nat (len - 1)) [0];
         Some (Rendered len out2) } })"

definition PTP_DPC_MTP_SecureTime :: u16 where "PTP_DPC_MTP_SecureTime = 0xD101"
definition PTP_DPC_MTP_DeviceCertificate :: u16 where "PTP_DPC_MTP_DeviceCertificate = 0xD102"
definition PTP_DPC_MTP_SynchronizationPartner :: u16 where "PTP_DPC_MTP_SynchronizationPartner = 0xD401"
definition PTP_DPC_MTP_DeviceFriendlyName :: u16 where "PTP_DPC_MTP_DeviceFriendlyName = 0xD402"

definition render_mtp_value ::
  "u32 \<Rightarrow> u16 \<Rightarrow> ptp_property_value \<Rightarrow> int \<Rightarrow> byte list \<Rightarrow> rendered option" where
  "render_mtp_value vid dpc cur len out =
     (if vid = PTP_VENDOR_MICROSOFT \<or> vid = PTP_VENDOR_MTP then
        if dpc = PTP_DPC_MTP_SynchronizationPartner \<or> dpc = PTP_DPC_MTP_DeviceFriendlyName then
          (case cur of PV_str (Some s) \<Rightarrow> render_text len s out | _ \<Rightarrow> None)
        else if dpc = PTP_DPC_MTP_SecureTime \<or> dpc = PTP_DPC_MTP_DeviceCertificate then
          (case cur of PV_a n vs \<Rightarrow> render_units n vs len out | _ \<Rightarrow> None)
        else Some (Rendered 0 out)
      else Some (Rendered 0 out))"

definition ptp_render_property_value ::
  "u32 \<Rightarrow> u16 \<Rightarrow> ptp_device_prop_desc \<Rightarrow> int \<Rightarrow> byte list \<Rightarrow> rendered option" where
  "ptp_render_property_value vid dpc dpd len out = do {
     kval \<leftarrow> value_to_num (dpd_CurrentValue dpd) (dpd_DataType dpd);
     case List.find (\<lambda>(c, v, _). matches_dpc vid dpc c v) ptp_value_trans of
       Some (_, _, cn, cd, bias, fmt) \<Rightarrow> Some (Formatted fmt (kval * cn + bias * cd) cd)
     | None \<Rightarrow>
         (case List.find (\<lambda>(c, v, key, _). matches_dpc vid dpc c v \<and> key = kval) ptp_value_list of
            Some (_, _, _, name) \<Rightarrow> render_text len (bytes_of name) out
          | None \<Rightarrow> render_mtp_value vid dpc (dpd_CurrentValue dpd) len out) }"

section \<open>Object formats, operations and object properties\<close>

definition ptp_ofc_trans :: "name_table" where
  "ptp_ofc_trans = [
    (0x3000, ''Undefined Type''),
    (0x3800, ''Defined Type''),
    (0x3001, ''Association/Directory''),
    (0x3002, ''Script''),
    (0x3003, ''Executable''),
    (0x3004, ''Text''),
    (0x3005, ''HTML''),
    (0x3006, ''DPOF''),
    (0x3007, ''AIFF''),
    (0x3008, ''MS Wave''),
    (0x3009, ''MP3''),
    (0x300A, ''MS AVI''),
    (0x300B, ''MPEG''),
    (0x300C, ''ASF''),
    (0x300D, ''Apple Quicktime''),
    (0x3801, ''JPEG''),
    (0x3802, ''TIFF EP''),
    (0x3803, ''FlashPix''),
    (0x3804, ''BMP''),
    (0x3805, ''CIFF''),
    (0x3807, ''GIF''),
    (0x3808, ''JFIF''),
    (0x3809, ''PCD''),
    (0x380A, ''PICT''),
    (0x380B, ''PNG''),
    (0x380D, ''TIFF''),
    (0x380E, ''TIFF_IT''),
    (0x380F, ''JP2''),
    (0x3810, ''JPX''),
    (0x3811, ''DNG'')]"

definition ptp_ofc_mtp_trans :: "name_table" where
  "ptp_ofc_mtp_trans = [
    (0xB211, ''Media Card''),
    (0xB212, ''Media Card Group''),
    (0xB213, ''Encounter''),
    (0xB214, ''Encounter Box''),
    (0xB215, ''M4A''),
    (0xB802, ''Firmware''),
    (0xB881, ''Windows Image Format''),
    (0xB900, ''Undefined Audio''),
    (0xB901, ''WMA''),
    (0xB902, ''OGG''),
    (0xB903, ''AAC''),
    (0xB904, ''Audible.com Codec''),
    (0xB906, ''FLAC''),
    (0xB909, ''Samsung Playlist''),
    (0xB980, ''Undefined Video''),
    (0xB981, ''WMV''),
    (0xB982, ''MP4''),
    (0xB983, ''MP2''),
    (0xB984, ''3GP''),
    (0xBA00, ''Undefined Collection''),
    (0xBA01, ''Abstract Multimedia Album''),
    (0xBA02, ''Abstract Image Album''),
    (0xBA03, ''Abstract Audio Album''),
    (0xBA04, ''Abstract Video Album''),
    (0xBA05, ''Abstract Audio Video Playlist''),
    (0xBA06, ''Abstract Contact Group''),
    (0xBA07, ''Abstract Message Folder''),
    (0xBA08, ''Abstract Chaptered Production''),
    (0xBA09, ''Abstract Audio Playlist''),
    (0xBA0A, ''Abstract Video Playlist''),
    (0xBA0B, ''Abstract Mediacast''),
    (0xBA10, ''WPL Playlist''),
    (0xBA11, ''M3U Playlist''),
    (0xBA12, ''MPL Playlist''),
    (0xBA13, ''ASX Playlist''),
    (0xBA14, ''PLS Playlist''),
    (0xBA80, ''Undefined Document''),
    (0xBA81, ''Abstract Document''),
    (0xBA82, ''XMLDocument''),
    (0xBA83, ''Microsoft Word Document''),
    (0xBA84, ''MHT Compiled HTML Document''),
    (0xBA85, ''Microsoft Excel Spreadsheet (.xls)''),
    (0xBA86, ''Microsoft Powerpoint (.ppt)''),
    (0xBB00, ''Undefined Message''),
    (0xBB01, ''Abstract Message''),
    (0xBB80, ''Undefined Contact''),
    (0xBB81, ''Abstract Contact''),
    (0xBB82, ''vCard2''),
    (0xBB83, ''vCard3''),
    (0xBE00, ''Undefined Calendar Item''),
    (0xBE01, ''Abstract Calendar Item''),
    (0xBE02, ''vCalendar1''),
    (0xBE03, ''vCalendar2''),
    (0xBE80, ''Undefined Windows Executable''),
    (0xBE81, ''Media Cast''),
    (0xBE82, ''Section'')]"

definition PTP_OFC_EK_M3U :: u16 where "PTP_OFC_EK_M3U = 0xb002"
definition PTP_OFC_CANON_CRW :: u16 where "PTP_OFC_CANON_CRW = 0xb101"

definition ofc_name :: "u32 \<Rightarrow> u16 \<Rightarrow> string option" where
  "ofc_name vid ofc =
     (if ofc AND 0x8000 = 0 then map_of ptp_ofc_trans ofc
      else if vid = PTP_VENDOR_EASTMAN_KODAK then (if ofc = PTP_OFC_EK_M3U then Some ''M3U'' else None)
      else if vid = PTP_VENDOR_CANON then (if ofc = PTP_OFC_CANON_CRW then Some ''CRW'' else None)
      else if vid = PTP_VENDOR_MICROSOFT \<or> vid = PTP_VENDOR_MTP then map_of ptp_ofc_mtp_trans ofc
      else None)"

definition ptp_render_ofc :: "u32 \<Rightarrow> u16 \<Rightarrow> int \<Rightarrow> byte list \<Rightarrow> (int \<times> byte list) option" where
  "ptp_render_ofc vid ofc spaceleft txt = c_snprintf spaceleft
     (bytes_of (case ofc_name vid ofc of Some s \<Rightarrow> s | None \<Rightarrow> ''Unknown('' @ hex4 ofc @ '')'')) txt"

definition ptp_opcode_trans :: "name_table" where
  "ptp_opcode_trans = [
    (0x1000, ''Undefined''),
    (0x1001, ''get device info''),
    (0x1002, ''Open session''),
    (0x1003, ''Close session''),
    (0x1004, ''Get storage IDs''),
    (0x1005, ''Get storage info''),
    (0x1006, ''Get number of objects''),
    (0x1007, ''Get object handles''),
    (0x1008, ''Get object info''),
    (0x1009, ''Get object''),
    (0x100A, ''Get thumbnail''),
    (0x100B, ''Delete object''),
    (0x100C, ''Send object info''),
    (0x100D, ''Send object''),
    (0x100E, ''Initiate capture''),
    (0x100F, ''Format storage''),
    (0x1010, ''Reset device''),
    (0x1011, ''Self test device''),
    (0x1012, ''Set object protection''),
    (0x1013, ''Power down device''),
    (0x1014, ''Get device property description''),
    (0x1015, ''Get device property value''),
    (0x1016, ''Set device property value''),
    (0x1017, ''Reset device property value''),
    (0x1018, ''Terminate open capture''),
    (0x1019, ''Move object''),
    (0x101A, ''Copy object''),
    (0x101B, ''Get partial object''),
    (0x101C, ''Initiate open capture'')]"

definition ptp_opcode_mtp_trans :: "name_table" where
  "ptp_opcode_mtp_trans = [
    (0x9801, ''Get object properties supported''),
    (0x9802, ''Get object property description''),
    (0x9803, ''Get object property value''),
    (0x9804, ''Set object property value''),
    (0x9805, ''Get object property list''),
    (0x9806, ''Set object property list''),
    (0x9807, ''Get interdependent property description''),
    (0x9808, ''Send object property list''),
    (0x9810, ''Get object references''),
    (0x9811, ''Set object references''),
    (0x9812, ''Update device firmware''),
    (0x9820, ''Skip to next position in playlist''),
    (0x9101, ''Get secure time challenge''),
    (0x9102, ''Get secure time response''),
    (0x9103, ''Set license response''),
    (0x9104, ''Get sync list''),
    (0x9105, ''Send meter challenge query''),
    (0x9106, ''Get meter challenge''),
    (0x9107, ''Get meter response''),
    (0x9108, ''Clean data store''),
    (0x9109, ''Get license state''),
    (0x910A, ''Send WMDRM-PD Command''),
    (0x910B, ''Send WMDRM-PD Request''),
    (0x9201, ''Report Added/Deleted Items''),
    (0x9202, ''Report Acquired Items''),
    (0x9203, ''Get transferable playlist types''),
    (0x9212, ''Send WMDRM-PD Application Request''),
    (0x9213, ''Get WMDRM-PD Application Response''),
    (0x9214, ''Enable trusted file operations''),
    (0x9215, ''Disable trusted file operations''),
    (0x9216, ''End trusted application session''),
    (0x9170, ''Open Media Session''),
    (0x9171, ''Close Media Session''),
    (0x9172, ''Get Next Data Block''),
    (0x9173, ''Set Current Time Position''),
    (0x9180, ''Send Registration Request''),
    (0x9181, ''Get Registration Response''),
    (0x9182, ''Get Proximity Challenge''),
    (0x9183, ''Send Proximity Response''),
    (0x9184, ''Send WMDRM-ND License Request''),
    (0x9185, ''Get WMDRM-ND License Response''),
    (0x9122, ''Process WFC Object'')]"

definition opcode_name :: "u32 \<Rightarrow> u16 \<Rightarrow> string option" where
  "opcode_name vid opc =
     (if opc AND 0x8000 = 0 then map_of ptp_opcode_trans opc
      else if vid = PTP_VENDOR_MICROSOFT \<or> vid = PTP_VENDOR_MTP then map_of ptp_opcode_mtp_trans opc
      else None)"

definition ptp_render_opcode :: "u32 \<Rightarrow> u16 \<Rightarrow> int \<Rightarrow> byte list \<Rightarrow> (int \<times> byte list) option" where
  "ptp_render_opcode vid opc spaceleft txt = c_snprintf spaceleft
     (bytes_of (case opcode_name vid opc of Some s \<Rightarrow> s | None \<Rightarrow> ''Unknown ('' @ hex4 opc @ '')'')) txt"

definition ptp_opc_trans_1 :: "name_table" where
  "ptp_opc_trans_1 = [
    (0xDC01, ''StorageID''),
    (0xDC02, ''ObjectFormat''),
    (0xDC03, ''ProtectionStatus''),
    (0xDC04, ''ObjectSize''),
    (0xDC05, ''AssociationType''),
    (0xDC06, ''AssociationDesc''),
    (0xDC07, ''ObjectFileName''),
    (0xDC08, ''DateCreated''),
    (0xDC09, ''DateModified''),
    (0xDC0A, ''Keywords''),
    (0xDC0B, ''ParentObject''),
    (0xDC0C, ''AllowedFolderContents''),
    (0xDC0D, ''Hidden''),
    (0xDC0E, ''SystemObject''),
    (0xDC41, ''PersistantUniqueObjectIdentifier''),
    (0xDC42, ''SyncID''),
    (0xDC43, ''PropertyBag''),
    (0xDC44, ''Name''),
    (0xDC45, ''CreatedBy''),
    (0xDC46, ''Artist''),
    (0xDC47, ''DateAuthored''),
    (0xDC48, ''Description''),
    (0xDC49, ''URLReference''),
    (0xDC4A, ''LanguageLocale''),
    (0xDC4B, ''CopyrightInformation''),
    (0xDC4C, ''Source''),
    (0xDC4D, ''OriginLocation''),
    (0xDC4E, ''DateAdded''),
    (0xDC4F, ''NonConsumable''),
    (0xDC50, ''CorruptOrUnplayable''),
    (0xDC51, ''ProducerSerialNumber''),
    (0xDC81, ''RepresentativeSampleFormat''),
    (0xDC82, ''RepresentativeSampleSize''),
    (0xDC83, ''RepresentativeSampleHeight''),
    (0xDC84, ''RepresentativeSampleWidth''),
    (0xDC85, ''RepresentativeSampleDuration''),
    (0xDC86, ''RepresentativeSampleData''),
    (0xDC87, ''Width''),
    (0xDC88, ''Height''),
    (0xDC89, ''Duration''),
    (0xDC8A, ''Rating''),
    (0xDC8B, ''Track''),
    (0xDC8C, ''Genre''),
    (0xDC8D, ''Credits''),
    (0xDC8E, ''Lyrics''),
    (0xDC8F, ''SubscriptionContentID''),
    (0xDC90, ''ProducedBy''),
    (0xDC91, ''UseCount''),
    (0xDC92, ''SkipCount''),
    (0xDC93, ''LastAccessed''),
    (0xDC94, ''ParentalRating''),
    (0xDC95, ''MetaGenre''),
    (0xDC96, ''Composer''),
    (0xDC97, ''EffectiveRating''),
    (0xDC98, ''Subtitle''),
    (0xDC99, ''OriginalReleaseDate''),
    (0xDC9A, ''AlbumName''),
    (0xDC9B, ''AlbumArtist''),
    (0xDC9C, ''Mood''),
    (0xDC9D, ''DRMStatus''),
    (0xDC9E, ''SubDescription''),
    (0xDCD1, ''IsCropped''),
    (0xDCD2, ''IsColorCorrected''),
    (0xDCD3, ''ImageBitDepth''),
    (0xDCD4, ''Fnumber''),
    (0xDCD5, ''ExposureTime''),
    (0xDCD6, ''ExposureIndex''),
    (0xDCE0, ''DisplayName''),
    (0xDCE1, ''BodyText''),
    (0xDCE2, ''Subject''),
    (0xDCE3, ''Priority''),
    (0xDD00, ''GivenName''),
    (0xDD01, ''MiddleNames''),
    (0xDD02, ''FamilyName''),
    (0xDD03, ''Prefix''),
    (0xDD04, ''Suffix''),
    (0xDD05, ''PhoneticGivenName''),
    (0xDD06, ''PhoneticFamilyName''),
    (0xDD07, ''EmailPrimary''),
    (0xDD08, ''EmailPersonal1''),
    (0xDD09, ''EmailPersonal2''),
    (0xDD0A, ''EmailBusiness1''),
    (0xDD0B, ''EmailBusiness2''),
    (0xDD0C, ''EmailOthers''),
    (0xDD0D, ''PhoneNumberPrimary''),
    (0xDD0E, ''PhoneNumberPersonal''),
    (0xDD0F, ''PhoneNumberPersonal2''),
    (0xDD10, ''PhoneNumberBusiness''),
    (0xDD11, ''PhoneNumberBusiness2''),
    (0xDD12, ''PhoneNumberMobile''),
    (0xDD13, ''PhoneNumberMobile2''),
    (0xDD14, ''FaxNumberPrimary''),
    (0xDD15, ''FaxNumberPersonal''),
    (0xDD16, ''FaxNumberBusiness''),
    (0xDD17, ''PagerNumber''),
    (0xDD18, ''PhoneNumberOthers''),
    (0xDD19, ''PrimaryWebAddress''),
    (0xDD1A, ''PersonalWebAddress''),
    (0xDD1B, ''BusinessWebAddress''),
    (0xDD1C, ''InstantMessengerAddress''),
    (0xDD1D, ''InstantMessengerAddress2''),
    (0xDD1E, ''InstantMessengerAddress3''),
    (0xDD1F, ''PostalAddressPersonalFull''),
    (0xDD20, ''PostalAddressPersonalFullLine1''),
    (0xDD21, ''PostalAddressPersonalFullLine2''),
    (0xDD22, ''PostalAddressPersonalFullCity''),
    (0xDD23, ''PostalAddressPersonalFullRegion''),
    (0xDD24, ''PostalAddressPersonalFullPostalCode''),
    (0xDD25, ''PostalAddressPersonalFullCountry''),
    (0xDD26, ''PostalAddressBusinessFull''),
    (0xDD27, ''PostalAddressBusinessLine1''),
    (0xDD28, ''PostalAddressBusinessLine2''),
    (0xDD29, ''PostalAddressBusinessCity''),
    (0xDD2A, ''PostalAddressBusinessRegion''),
    (0xDD2B, ''PostalAddressBusinessPostalCode''),
    (0xDD2C, ''PostalAddressBusinessCountry''),
    (0xDD2D, ''PostalAddressOtherFull''),
    (0xDD2E, ''PostalAddressOtherLine1''),
    (0xDD2F, ''PostalAddressOtherLine2''),
    (0xDD30, ''PostalAddressOtherCity''),
    (0xDD31, ''PostalAddressOtherRegion''),
    (0xDD32, ''PostalAddressOtherPostalCode''),
    (0xDD33, ''PostalAddressOtherCountry''),
    (0xDD34, ''OrganizationName''),
    (0xDD35, ''PhoneticOrganizationName''),
    (0xDD36, ''Role''),
    (0xDD37, ''Birthdate''),
    (0xDD40, ''MessageTo''),
    (0xDD41, ''MessageCC''),
    (0xDD42, ''MessageBCC''),
    (0xDD43, ''MessageRead''),
    (0xDD44, ''MessageReceivedTime''),
    (0xDD45, ''MessageSender''),
    (0xDD50, ''ActivityBeginTime''),
    (0xDD51, ''ActivityEndTime''),
    (0xDD52, ''ActivityLocation''),
    (0xDD54, ''ActivityRequiredAttendees''),
    (0xDD55, ''ActivityOptionalAttendees''),
    (0xDD56, ''ActivityResources''),
    (0xDD57, ''ActivityAccepted''),
    (0xDD5D, ''Owner'')]"

definition ptp_opc_trans_2 :: "name_table" where
  "ptp_opc_trans_2 = [
    (0xDD5E, ''Editor''),
    (0xDD5F, ''Webmaster''),
    (0xDD60, ''URLSource''),
    (0xDD61, ''URLDestination''),
    (0xDD62, ''TimeBookmark''),
    (0xDD63, ''ObjectBookmark''),
    (0xDD64, ''ByteBookmark''),
    (0xDD70, ''LastBuildDate''),
    (0xDD71, ''TimetoLive''),
    (0xDD72, ''MediaGUID''),
    (0xDE91, ''TotalBitRate''),
    (0xDE92, ''BitRateType''),
    (0xDE93, ''SampleRate''),
    (0xDE94, ''NumberOfChannels''),
    (0xDE95, ''AudioBitDepth''),
    (0xDE97, ''ScanDepth''),
    (0xDE99, ''AudioWAVECodec''),
    (0xDE9A, ''AudioBitRate''),
    (0xDE9B, ''VideoFourCCCodec''),
    (0xDE9C, ''VideoBitRate''),
    (0xDE9D, ''FramesPerThousandSeconds''),
    (0xDE9E, ''KeyFrameDistance''),
    (0xDE9F, ''BufferSize''),
    (0xDEA0, ''EncodingQuality''),
    (0xDEA1, ''EncodingProfile''),
    (0xD901, ''BuyFlag'')]"

definition ptp_opc_trans :: "name_table" where
  "ptp_opc_trans = ptp_opc_trans_1 @ ptp_opc_trans_2"

definition ptp_render_mtp_propname :: "u16 \<Rightarrow> int \<Rightarrow> byte list \<Rightarrow> (int \<times> byte list) option" where
  "ptp_render_mtp_propname propid spaceleft txt = c_snprintf spaceleft
     (bytes_of (case map_of ptp_opc_trans propid of Some s \<Rightarrow> s
                | None \<Rightarrow> ''unknown('' @ hex4 propid @ '')'')) txt"

section \<open>What the tables give\<close>

text \<open>
  The contract of a table: no code is listed twice. Then every name of the table is found
  under its code, and nothing else is.
\<close>

locale name_table =
  fixes tbl :: name_table
  assumes codes: "distinct (map fst tbl)"
begin

lemma found_iff: "map_of tbl c = Some s \<longleftrightarrow> (c, s) \<in> set tbl"
  using codes by (rule map_of_eq_Some_iff)

lemma not_found_iff: "map_of tbl c = None \<longleftrightarrow> c \<notin> set (map fst tbl)"
  by (simp add: map_of_eq_None_iff)

end

text \<open>The tables are nearly sorted, so their contract is cheap to compute.\<close>

lemma ascending_codes: "successively (<) (sort (map fst tbl)) \<Longrightarrow> name_table tbl"
proof
  assume "successively (<) (sort (map fst tbl))"
  then have "sorted_wrt (<) (sort (map fst tbl))" by (simp add: successively_conv_sorted_wrt)
  then have "distinct (sort (map fst tbl))" by (simp add: strict_sorted_iff)
  then show "distinct (map fst tbl)" by simp
qed

interpretation standard_props: name_table ptp_device_properties by (rule ascending_codes) code_simp

interpretation kodak_props: name_table ptp_device_properties_EK by (rule ascending_codes) code_simp

interpretation canon_props: name_table ptp_device_properties_Canon by (rule ascending_codes) code_simp

interpretation mtp_props: name_table ptp_device_properties_MTP by (rule ascending_codes) code_simp

interpretation formats: name_table ptp_ofc_trans by (rule ascending_codes) code_simp

interpretation mtp_formats: name_table ptp_ofc_mtp_trans by (rule ascending_codes) code_simp

interpretation opcodes: name_table ptp_opcode_trans by (rule ascending_codes) code_simp

interpretation mtp_opcodes: name_table ptp_opcode_mtp_trans by (rule ascending_codes) code_simp

interpretation object_props: name_table ptp_opc_trans by (rule ascending_codes) code_simp

text \<open>
  Every format, operation and object property of the tables is printed by its name, and on a
  device of the right vendor those of MTP are.
\<close>

lemma listed_name_bits:
  "list_all (\<lambda>(c, _). c AND 0x8000 = 0) (ptp_ofc_trans @ ptp_opcode_trans)"
  "list_all (\<lambda>(c, _). c AND 0x8000 \<noteq> 0) (ptp_ofc_mtp_trans @ ptp_opcode_mtp_trans)"
  by code_simp+

lemma standard_names:
  "(c, s) \<in> set ptp_ofc_trans \<Longrightarrow> ofc_name vid c = Some s"
  "(c, s) \<in> set ptp_opcode_trans \<Longrightarrow> opcode_name vid c = Some s"
  using listed_name_bits(1)
  by (auto simp: ofc_name_def opcode_name_def list_all_iff formats.found_iff opcodes.found_iff)

lemma mtp_names:
  assumes "vid = PTP_VENDOR_MICROSOFT \<or> vid = PTP_VENDOR_MTP"
  shows "(c, s) \<in> set ptp_ofc_mtp_trans \<Longrightarrow> ofc_name vid c = Some s"
    and "(c, s) \<in> set ptp_opcode_mtp_trans \<Longrightarrow> opcode_name vid c = Some s"
  using listed_name_bits(2) assms
  by (auto simp: ofc_name_def opcode_name_def list_all_iff vendor_defs mtp_formats.found_iff
      mtp_opcodes.found_iff)

text \<open>A printed name never leaves the buffer it was given the size of.\<close>

lemma names_stay_inside:
  assumes "0 < len" and "len < 2 ^ 31" and "nat len \<le> length out"
  shows "\<exists>r out'. ptp_render_ofc vid c len out = Some (r, out') \<and> length out' = length out"
    and "\<exists>r out'. ptp_render_opcode vid c len out = Some (r, out') \<and> length out' = length out"
    and "\<exists>r out'. ptp_render_mtp_propname c len out = Some (r, out') \<and> length out' = length out"
  unfolding ptp_render_ofc_def ptp_render_opcode_def ptp_render_mtp_propname_def
  by (rule c_snprintf_fits [OF assms]; blast)+

text \<open>
  An error below \<open>0x8000\<close> of the table is reported once. The codes of Kodak are negative as
  \<open>short\<close>s and are never reported.
\<close>

lemma perror_reports:
  assumes "(n, txt) \<in> set ptp_errors" and "n < 0x8000"
  shows "ptp_perror n = [txt]"
proof -
  have "list_all (\<lambda>(n, txt). n < 0x8000 \<longrightarrow> ptp_perror n = [txt]) ptp_errors" by code_simp
  then show ?thesis using assms by (auto simp: list_all_iff)
qed

lemma perror_kodak_silent:
  "(0xA001, ''PTP: EK Filename Required'') \<in> set ptp_errors"
  "ptp_perror 0xA001 = []" "ptp_perror 0xA002 = []" "ptp_perror 0xA003 = []"
  by code_simp+

text \<open>A property of the standard has the same description on every device.\<close>

lemma standard_description:
  "(dpc, txt) \<in> set ptp_device_properties \<Longrightarrow> ptp_get_property_description vid dpc = Some txt"
  by (simp add: ptp_get_property_description_def standard_props.found_iff [symmetric])

text \<open>
  Five entries of Fuji have the code of the second and are never found; an entry of Nikon
  repeats the code of another.
\<close>

lemma fuji_names_unreachable:
  "txt \<in> {''Release Mode'', ''Focus Areas'', ''AE Lock'', ''Aperture'', ''Shutter Speed''} \<Longrightarrow>
     txt \<in> snd ` set ptp_device_properties_FUJI \<and>
     ptp_get_property_description PTP_VENDOR_FUJI dpc \<noteq> Some txt"
  by (auto simp: ptp_get_property_description_def vendor_properties_def vendor_defs
      ptp_device_properties_FUJI_def ptp_device_properties_def split: option.splits if_splits)

lemma nikon_iso_auto_shadowed:
  "(0xD054, ''ISO Auto'') \<in> set ptp_device_properties_Nikon"
  "ptp_get_property_description PTP_VENDOR_NIKON 0xD054 = Some ''Auto ISO''"
  by code_simp+

text \<open>Entries of the values that follow another with the same key.\<close>

lemma mirror_up_shadowed:
  "(0x5013, PTP_VENDOR_NIKON, 32787, ''Mirror Up'') \<in> set ptp_value_list"
  "List.find (\<lambda>(c, v, key, _). matches_dpc PTP_VENDOR_NIKON 0x5013 c v \<and> key = 32787) ptp_value_list =
     Some (0x5013, PTP_VENDOR_NIKON, 32787, ''Remote'')"
  by code_simp+

text \<open>
  An empty array as the certificate of a device: the whole length is reported, and only the
  last byte of the buffer was written.
\<close>

lemma render_empty_array:
  assumes "0 < len" and "nat len \<le> length out"
  shows "\<exists>out'. render_units 0 vs len out = Some (Rendered len out') \<and>
           take (nat len - 1) out' = take (nat len - 1) out"
  using assms by (auto simp: render_units_def wr_def Let_def nat_diff_distrib)

text \<open>A certificate that fits loses its last element to the terminator.\<close>

lemma those_pv_16: "those (map pv_16 (map PV_16 us)) = Some us"
  by (induction us) auto

lemma pred_small:
  assumes "0 < n" and "unat n < 2 ^ 31"
  shows "sint (n - 1 :: u32) = int (unat n) - 1"
proof -
  have u: "unat (n - 1) = unat n - 1" using assms(1) by (simp add: unat_minus_one word_gt_0)
  have p: "0 < unat n" using assms(1) by (simp add: word_gt_0 unat_gt_0)
  have "sint (n - 1) = int (unat (n - 1))"
    using u assms(2) by (simp add: sint_uint uint_nat signed_take_bit_int_eq_self)
  then show ?thesis using u p by simp
qed

lemma render_units_drops_last:
  assumes "length us = unat n" and "0 < n" and "int (unat n) < len" and "len < 2 ^ 31"
    and "nat len \<le> length out"
  shows "\<exists>out'. render_units n (map PV_16 us) len out = Some (Rendered (int (length us) - 1) out') \<and>
           take (length us) out' = map ucast (butlast us) @ [0]"
proof -
  have m: "min (unat n) (nat len) = unat n" using assms(3) by linarith
  have "0 \<le> len" using assms(3) by linarith
  then have "len mod 2 ^ 32 = len" using assms(4) by simp
  then have lt: "n < word_of_int len"
    using assms(3) by (simp add: word_less_def uint_word_of_int)
  have nz: "n \<noteq> 0" "0 < unat n" using assms(2) by (auto simp: word_gt_0 unat_gt_0)
  obtain vs v where us: "us = vs @ [v]" using nz(2) assms(1) by (cases us rule: rev_cases) auto
  have l: "length vs = unat n - 1" using us assms(1) by simp
  have fit: "unat n \<le> length out" using assms(3,5) by linarith
  let ?out1 = "map ucast us @ drop (unat n) out" and ?out2 = "map ucast vs @ [0] @ drop (unat n) out"
  have w1: "wr out 0 (map ucast us) = Some ?out1" using fit assms(1) by (simp add: wr_def)
  have w2: "wr ?out1 (unat n - 1) [0] = Some ?out2" using l nz(2) fit by (simp add: wr_def us)
  have "render_units n (map PV_16 us) len out = Some (Rendered (sint (n - 1)) ?out2)"
    using assms(1) nz(1) unfolding render_units_def Let_def m
    by (simp add: those_pv_16 lt w1 w2 [simplified] del: map_map)
  moreover have "int (unat n) < 2 ^ 31" using assms(3,4) by (rule less_trans)
  then have "unat n < 2 ^ 31" by (metis of_nat_less_iff of_nat_numeral of_nat_power)
  then have "sint (n - 1) = int (length us) - 1" using pred_small [OF assms(2)] assms(1) by simp
  moreover have "take (length us) ?out2 = map ucast (butlast us) @ [0]" by (simp add: us)
  ultimately show ?thesis by auto
qed

end
