(* ===== verification/Utilities.thy ===== *)
theory Utilities
  imports Prelude
begin

unbundle bit_operations_syntax

text \<open>
  The helpers of \<open>src/src/utilities.c\<close> that OpenCMA's database and event handlers call:
  string replacement, URL mapping, directory creation, and reading and writing files.
  Strings are HOL strings without the terminator. The file system is outside the
  program: \<open>fopen\<close>, \<open>access\<close>, \<open>mkdir\<close> and the rest are operations on an explicit map
  from paths to contents.
\<close>

section \<open>Searching and replacing\<close>

text \<open>\<open>strstr\<close>: the offset of the first occurrence.\<close>

fun strstr :: "'a list \<Rightarrow> 'a list \<Rightarrow> nat option" where
  "strstr [] needle = (if needle = [] then Some 0 else None)"
| "strstr (c # cs) needle =
     (if take (length needle) (c # cs) = needle then Some 0 else map_option Suc (strstr cs needle))"

definition strreplace :: "'a list \<Rightarrow> 'a list \<Rightarrow> 'a list \<Rightarrow> 'a list" where
  "strreplace haystack needle replace =
     (case strstr haystack needle of
        None \<Rightarrow> haystack
      | Some off \<Rightarrow> take off haystack @ replace @ drop (off + length needle) haystack)"

lemma strstr_Some:
  "strstr hay needle = Some off \<Longrightarrow> off + length needle \<le> length hay \<and> take (length needle) (drop off hay) = needle"
proof (induction hay arbitrary: off)
  case Nil
  then show ?case by (auto split: if_splits)
next
  case (Cons c cs)
  show ?case
  proof (cases "take (length needle) (c # cs) = needle")
    case True
    then have "length needle \<le> length (c # cs)" by (metis length_take min.cobounded1)
    then show ?thesis using Cons.prems True by simp
  next
    case False
    then obtain o' where "off = Suc o'" "strstr cs needle = Some o'" using Cons.prems by auto
    then show ?thesis using Cons.IH by simp
  qed
qed

lemma strstr_first:
  "strstr hay needle = Some off \<Longrightarrow> k < off \<Longrightarrow> take (length needle) (drop k hay) \<noteq> needle"
proof (induction hay arbitrary: off k)
  case Nil
  then show ?case by (auto split: if_splits)
next
  case (Cons c cs)
  then show ?case by (cases k) (auto split: if_splits)
qed

lemma strstr_None_iff:
  "strstr hay needle = None \<longleftrightarrow> (\<forall>k \<le> length hay. take (length needle) (drop k hay) \<noteq> needle)"
proof (induction hay)
  case Nil
  then show ?case by auto
next
  case (Cons c cs)
  show ?case
  proof
    assume "strstr (c # cs) needle = None"
    then have "take (length needle) (c # cs) \<noteq> needle" and "strstr cs needle = None"
      by (auto split: if_splits)
    then show "\<forall>k \<le> length (c # cs). take (length needle) (drop k (c # cs)) \<noteq> needle"
      using Cons.IH by (auto simp: drop_Cons split: nat.splits)
  next
    assume a: "\<forall>k \<le> length (c # cs). take (length needle) (drop k (c # cs)) \<noteq> needle"
    then have "take (length needle) (c # cs) \<noteq> needle" by (metis drop0 zero_le)
    moreover have "strstr cs needle = None" unfolding Cons.IH using a by (metis Suc_le_mono drop_Suc_Cons length_Cons)
    ultimately show "strstr (c # cs) needle = None" by simp
  qed
qed

lemma strstr_prefix: "strstr (needle @ rest) needle = Some 0"
proof (cases "needle @ rest")
  case Nil
  then show ?thesis by simp
next
  case (Cons c cs)
  then have "take (length needle) (c # cs) = needle" by (metis append_eq_conv_conj)
  with Cons show ?thesis by simp
qed

lemma strreplace_prefix: "strreplace (needle @ rest) needle replace = replace @ rest"
  by (simp add: strreplace_def strstr_prefix)

lemma strreplace_self: "strreplace s s replace = replace"
  using strreplace_prefix [of s "[]" replace] by simp

text \<open>
  Replacement at a chosen place, which is the first occurrence when the search text does
  not begin any earlier.
\<close>

lemma strreplace_at:
  assumes "\<And>k. k < length pre \<Longrightarrow> take (length needle) (drop k (pre @ needle @ post)) \<noteq> needle"
  shows "strreplace (pre @ needle @ post) needle replace = pre @ replace @ post"
proof -
  have at: "take (length needle) (drop (length pre) (pre @ needle @ post)) = needle" by simp
  have "length pre \<le> length (pre @ needle @ post)" by simp
  with at have "strstr (pre @ needle @ post) needle \<noteq> None" unfolding strstr_None_iff by blast
  then obtain off where off: "strstr (pre @ needle @ post) needle = Some off" by blast
  have "\<not> length pre < off" using strstr_first [OF off, of "length pre"] at by blast
  moreover have "\<not> off < length pre" using assms [of off] strstr_Some [OF off] by blast
  ultimately have "off = length pre" by simp
  then show ?thesis using off by (simp add: strreplace_def)
qed

section \<open>Paths\<close>

text \<open>\<open>asprintf("%s/%s", a, b)\<close>\<close>

definition path_join :: "string \<Rightarrow> string \<Rightarrow> string" where
  "path_join a b = a @ ''/'' @ b"

text \<open>\<open>strrchr(url, '/')\<close>: what follows the last slash.\<close>

definition after_last_slash :: "string \<Rightarrow> string option" where
  "after_last_slash url =
     (if CHR ''/'' \<in> set url then Some (rev (takeWhile (\<lambda>c. c \<noteq> CHR ''/'') (rev url))) else None)"

section \<open>Files\<close>

text \<open>The file system: directories and files with their contents.\<close>

datatype fs_node = FS_dir | FS_file "byte list"

type_synonym fs = "string \<Rightarrow> fs_node option"

definition fileExists :: "fs \<Rightarrow> string \<Rightarrow> bool" where
  "fileExists fs path \<longleftrightarrow> fs path \<noteq> None"

text \<open>
  \<open>mkdir\<close> and \<open>open\<close> can be refused by the system (permissions, a full disk, a missing
  parent); \<open>may\<close> is the system's answer for a path.
\<close>

definition c_mkdir :: "(string \<Rightarrow> bool) \<Rightarrow> fs \<Rightarrow> string \<Rightarrow> fs \<times> int" where
  "c_mkdir may fs path = (if fs path = None \<and> may path then (fs(path \<mapsto> FS_dir), 0) else (fs, -1))"

text \<open>
  The loop of \<open>createNewDirectory\<close> makes every missing prefix that ends before a slash
  and ignores failures; then the whole path. A trailing slash is dropped first.
\<close>

fun mkdir_prefixes :: "(string \<Rightarrow> bool) \<Rightarrow> string \<Rightarrow> string \<Rightarrow> fs \<Rightarrow> fs" where
  "mkdir_prefixes may done [] fs = fs"
| "mkdir_prefixes may done (c # cs) fs =
     mkdir_prefixes may (done @ [c]) cs
       (if c = CHR ''/'' \<and> fs done = None then fst (c_mkdir may fs done) else fs)"

definition PATH_MAX :: nat where "PATH_MAX = 4096"

text \<open>
  \<open>None\<close>: an empty path reads \<open>opath[-1]\<close>, and a path of \<open>PATH_MAX\<close> characters or more
  leaves \<open>opath\<close> without a terminator.
\<close>

definition createNewDirectory :: "(string \<Rightarrow> bool) \<Rightarrow> fs \<Rightarrow> string \<Rightarrow> (fs \<times> int) option" where
  "createNewDirectory may fs path =
     (if path = [] \<or> PATH_MAX \<le> length path then None
      else let opath = (if last path = CHR ''/'' then butlast path else path);
               fs' = mkdir_prefixes may [] opath fs
           in Some (if fs' opath = None then c_mkdir may fs' opath else (fs', 0)))"

definition createNewFile :: "(string \<Rightarrow> bool) \<Rightarrow> fs \<Rightarrow> string \<Rightarrow> fs \<times> int" where
  "createNewFile may fs name =
     (if fs name = None \<and> may name then (fs(name \<mapsto> FS_file []), 0) else (fs, -1))"

text \<open>
  \<open>len = 0\<close> asks for the size of the file, cut to 32 bits. The result is the data that was
  read; a short read is an error. \<open>fopen\<close> of a directory succeeds but nothing can be
  read from it, which the size question already refuses here.
\<close>

definition readFileToBuffer :: "fs \<Rightarrow> string \<Rightarrow> nat \<Rightarrow> u32 \<Rightarrow> (byte list \<times> u32) option" where
  "readFileToBuffer fs name seek len =
     (case fs name of
        Some (FS_file contents) \<Rightarrow>
          (let buflen = (if len = 0 then of_nat (length contents) else len);
               got = take (unat buflen) (drop seek contents)
           in if length got < unat buflen then None else Some (got, buflen))
      | _ \<Rightarrow> None)"

text \<open>
  \<open>fopen(name, "a+")\<close> creates a missing file, and every write of a stream opened for
  appending goes to the end of the file: the \<open>fseek\<close> before it has no effect on it.
\<close>

definition writeFileFromBuffer :: "(string \<Rightarrow> bool) \<Rightarrow> fs \<Rightarrow> string \<Rightarrow> nat \<Rightarrow> byte list \<Rightarrow> fs \<times> int" where
  "writeFileFromBuffer may fs name seek data =
     (case fs name of
        Some (FS_file contents) \<Rightarrow>
          if may name then (fs(name \<mapsto> FS_file (contents @ data)), 0) else (fs, -1)
      | Some FS_dir \<Rightarrow> (fs, -1)
      | None \<Rightarrow> if may name then (fs(name \<mapsto> FS_file data), 0) else (fs, -1))"

text \<open>
  \<open>nftw\<close> with \<open>FTW_DEPTH\<close>: the path and everything below it. The code ignores what \<open>remove\<close>
  answers; here every removal succeeds.
\<close>

definition below :: "string \<Rightarrow> string \<Rightarrow> bool" where
  "below dir path \<longleftrightarrow> path = dir \<or> take (length dir + 1) path = dir @ ''/''"

definition deleteAll :: "fs \<Rightarrow> string \<Rightarrow> fs" where
  "deleteAll fs path = (\<lambda>p. if below path p then None else fs p)"

text \<open>\<open>rename\<close>: refused when the source is missing; what is below a directory moves with it.\<close>

definition move :: "(string \<Rightarrow> bool) \<Rightarrow> fs \<Rightarrow> string \<Rightarrow> string \<Rightarrow> fs \<times> int" where
  "move may fs src dest =
     (if fs src = None \<or> \<not> may dest then (fs, -1)
      else (\<lambda>p. if below dest p then fs (src @ drop (length dest) p)
                else if below src p then None else fs p, 0))"

definition requestURL :: "fs \<Rightarrow> string \<Rightarrow> string \<Rightarrow> u32 \<Rightarrow> (byte list \<times> u32) option" where
  "requestURL fs urlPath url len =
     (case after_last_slash url of
        None \<Rightarrow> None
      | Some name \<Rightarrow>
          readFileToBuffer fs (path_join urlPath (takeWhile (\<lambda>c. c \<noteq> CHR ''?'') name)) 0 len)"

section \<open>Facts about the helpers\<close>

lemma after_last_slash_append:
  "CHR ''/'' \<notin> set name \<Longrightarrow> after_last_slash (base @ ''/'' @ name) = Some name"
  by (simp add: after_last_slash_def takeWhile_neq)

lemma below_self [simp]: "below d d"
  by (simp add: below_def)

lemma below_join [simp]: "below d (path_join d n)"
  by (simp add: below_def path_join_def)

end
