(* ===== verification/Database.thy ===== *)
theory Database
  imports Utilities
begin

text \<open>
  OpenCMA's in-memory database (\<open>src/src/database.c\<close>, structures in
  \<open>src/src/opencma.h\<close> and \<open>src/src/vitamtp.h\<close>): ten linked lists, each headed by a
  master object that is a field of \<open>struct cma_database\<close>. A list is a HOL list whose
  first element is the master; a pointer to an object is its list and its position. The
  \<open>next_metadata\<close> links that \<open>filterObjects\<close> threads through the objects are the list it
  returns. Locking is a recursive mutex around each function and is not modelled here.
\<close>

section \<open>Data\<close>

definition MASK_SET :: "u32 \<Rightarrow> u32 \<Rightarrow> bool" where "MASK_SET v m \<longleftrightarrow> v AND m = m"

definition Folder :: u32 where "Folder = 0x001"
definition File :: u32 where "File = 0x002"
definition App :: u32 where "App = 0x004"
definition Thumbnail :: u32 where "Thumbnail = 0x008"
definition SaveData :: u32 where "SaveData = 0x010"
definition Music :: u32 where "Music = 0x020"
definition Photo :: u32 where "Photo = 0x040"
definition Video :: u32 where "Video = 0x080"
definition Game :: u32 where "Game = 0x100"
definition Special :: u32 where "Special = 0x200"

lemmas datatype_bits = Folder_def File_def App_def Thumbnail_def SaveData_def Music_def Photo_def
  Video_def Game_def Special_def

definition VITA_OHFI_MUSIC :: int where "VITA_OHFI_MUSIC = 0x01"
definition VITA_OHFI_PHOTO :: int where "VITA_OHFI_PHOTO = 0x02"
definition VITA_OHFI_VIDEO :: int where "VITA_OHFI_VIDEO = 0x03"
definition VITA_OHFI_PACKAGE :: int where "VITA_OHFI_PACKAGE = 0x05"
definition VITA_OHFI_BACKUP :: int where "VITA_OHFI_BACKUP = 0x06"
definition VITA_OHFI_VITAAPP :: int where "VITA_OHFI_VITAAPP = 0x0A"
definition VITA_OHFI_PSPAPP :: int where "VITA_OHFI_PSPAPP = 0x0D"
definition VITA_OHFI_PSPSAVE :: int where "VITA_OHFI_PSPSAVE = 0x0E"
definition VITA_OHFI_PSXAPP :: int where "VITA_OHFI_PSXAPP = 0x10"
definition VITA_OHFI_PSMAPP :: int where "VITA_OHFI_PSMAPP = 0x12"
definition OHFI_OFFSET :: int where "OHFI_OFFSET = 1000"

lemmas ohfi_defs = VITA_OHFI_MUSIC_def VITA_OHFI_PHOTO_def VITA_OHFI_VIDEO_def
  VITA_OHFI_PACKAGE_def VITA_OHFI_BACKUP_def VITA_OHFI_VITAAPP_def VITA_OHFI_PSPAPP_def
  VITA_OHFI_PSPSAVE_def VITA_OHFI_PSXAPP_def VITA_OHFI_PSMAPP_def OHFI_OFFSET_def

definition VITA_DIR_TYPE_MASK_MUSIC :: u32 where "VITA_DIR_TYPE_MASK_MUSIC = 0x1000000"
definition VITA_DIR_TYPE_MASK_PHOTO :: u32 where "VITA_DIR_TYPE_MASK_PHOTO = 0x2000000"
definition VITA_DIR_TYPE_MASK_VIDEO :: u32 where "VITA_DIR_TYPE_MASK_VIDEO = 0x4000000"
definition VITA_DIR_TYPE_MASK_ROOT :: u32 where "VITA_DIR_TYPE_MASK_ROOT = 0x0010000"
definition VITA_DIR_TYPE_MASK_REGULAR :: u32 where "VITA_DIR_TYPE_MASK_REGULAR = 0x0000001"
definition VITA_DIR_TYPE_MASK_ALL :: u32 where "VITA_DIR_TYPE_MASK_ALL = 0x0000200"
definition VITA_DIR_TYPE_MASK_SONGS :: u32 where "VITA_DIR_TYPE_MASK_SONGS = 0x0000008"

lemmas dir_type_defs = VITA_DIR_TYPE_MASK_MUSIC_def VITA_DIR_TYPE_MASK_PHOTO_def
  VITA_DIR_TYPE_MASK_VIDEO_def VITA_DIR_TYPE_MASK_ROOT_def VITA_DIR_TYPE_MASK_REGULAR_def
  VITA_DIR_TYPE_MASK_ALL_def VITA_DIR_TYPE_MASK_SONGS_def

text \<open>
  The union \<open>data\<close> of a metadata record: what is stored for the kind of object. A track
  is its type and codec, the two fields that are ever set.
\<close>

datatype media_data =
    NoData
  | SaveDataInfo string string string nat string nat
      \<comment> \<open>title, dirName, savedataTitle, statusType, detail, dateTimeUpdated\<close>
  | PhotoInfo string string nat nat nat "(nat \<times> nat) list"
      \<comment> \<open>title, fileName, fileFormatType, statusType, dateTimeOriginal, tracks\<close>
  | MusicInfo string string nat nat string string "(nat \<times> nat) list"
      \<comment> \<open>title, fileName, fileFormatType, statusType, album, artist, tracks\<close>
  | VideoInfo string string nat nat nat nat string string "(nat \<times> nat) list"
      \<comment> \<open>title, fileName, fileFormatType, statusType, dateTimeUpdated, parentalLevel,
           explanation, copyright, tracks\<close>
  | ThumbnailInfo nat nat nat nat nat nat nat
      \<comment> \<open>codecType, width, height, type, orientationType, aspectRatio in millionths, fromType\<close>

record metadata =
  ohfiParent :: int
  ohfi :: int
  handle :: u32
  md_name :: "string option"
  md_path :: "string option"
  md_type :: u32
  dateTimeCreated :: nat
  md_size :: u64
  dataType :: u32
  md_data :: media_data

definition metadata_zero :: metadata where
  "metadata_zero = \<lparr>ohfiParent = 0, ohfi = 0, handle = 0, md_name = None, md_path = None,
     md_type = 0, dateTimeCreated = 0, md_size = 0, dataType = 0, md_data = NoData\<rparr>"

text \<open>\<open>num_filters\<close> is the length of \<open>filters\<close>.\<close>

record cma_object =
  meta :: metadata
  o_path :: string
  filters :: "metadata list"

abbreviation "o_ohfi obj \<equiv> ohfi (meta obj)"
abbreviation "o_parent obj \<equiv> ohfiParent (meta obj)"

record cma_db =
  db_chains :: "cma_object list list"
  ohfi_count :: int

type_synonym objref = "nat \<times> nat"

definition deref :: "cma_db \<Rightarrow> objref \<Rightarrow> cma_object" where
  "deref db r = db_chains db ! fst r ! snd r"

definition valid_ref :: "cma_db \<Rightarrow> objref \<Rightarrow> bool" where
  "valid_ref db r \<longleftrightarrow> fst r < length (db_chains db) \<and> snd r < length (db_chains db ! fst r)"

definition update_chain :: "nat \<Rightarrow> (cma_object list \<Rightarrow> cma_object list) \<Rightarrow> cma_db \<Rightarrow> cma_db" where
  "update_chain i f db = db\<lparr>db_chains := (db_chains db)[i := f (db_chains db ! i)]\<rparr>"

definition update_obj :: "objref \<Rightarrow> (cma_object \<Rightarrow> cma_object) \<Rightarrow> cma_db \<Rightarrow> cma_db" where
  "update_obj r f = update_chain (fst r) (\<lambda>os. os[snd r := f (os ! snd r)])"

section \<open>Adding an object\<close>

definition object_data :: "u32 \<Rightarrow> string \<Rightarrow> string option \<Rightarrow> media_data" where
  "object_data dt name rootname =
     (if MASK_SET dt (SaveData OR Folder) then SaveDataInfo name name [] 1 [] 0
      else if MASK_SET dt (Photo OR File) then PhotoInfo name name 28 1 0 [(3, 17)]
      else if MASK_SET dt (Music OR File) then
        MusicInfo name name 20 1 (case rootname of None \<Rightarrow> [] | Some n \<Rightarrow> n) [] [(1, 12)]
      else if MASK_SET dt (Video OR File) then VideoInfo name name 1 1 0 0 [] [] [(2, 3)]
      else NoData)"

definition new_object :: "int \<Rightarrow> cma_object \<Rightarrow> string \<Rightarrow> u64 \<Rightarrow> u32 \<Rightarrow> cma_object" where
  "new_object fresh root name size0 type =
     (let dt = type OR (dataType (meta root) AND NOT Folder) in
      \<lparr>meta = \<lparr>ohfiParent = o_ohfi root, ohfi = fresh, handle = 0, md_name = Some name,
         md_path = Some (case md_path (meta root) of None \<Rightarrow> name | Some p \<Rightarrow> path_join p name),
         md_type = VITA_DIR_TYPE_MASK_REGULAR, dateTimeCreated = 0, md_size = size0,
         dataType = dt, md_data = object_data dt name (md_name (meta root))\<rparr>,
       o_path = path_join (o_path root) name, filters = []\<rparr>)"

text \<open>
  The new object goes to the end of the list that \<open>root\<close> is in. \<open>g_ohfi_count\<close> is an \<open>int\<close>, whose
  overflow after some two thousand million objects is undefined; here it has no bound.
\<close>

definition addToDatabase ::
  "cma_db \<Rightarrow> objref \<Rightarrow> string \<Rightarrow> u64 \<Rightarrow> u32 \<Rightarrow> cma_db \<times> objref" where
  "addToDatabase db root name size0 type =
     (let current = new_object (ohfi_count db) (deref db root) name size0 type;
          i = fst root
      in ((update_chain i (\<lambda>os. os @ [current]) db)\<lparr>ohfi_count := ohfi_count db + 1\<rparr>,
          (i, length (db_chains db ! i))))"

definition createFilter :: "cma_db \<Rightarrow> cma_object \<Rightarrow> string \<Rightarrow> u32 \<Rightarrow> cma_db \<times> metadata" where
  "createFilter db dirobject name type =
     (db\<lparr>ohfi_count := ohfi_count db + 1\<rparr>,
      metadata_zero\<lparr>ohfiParent := o_ohfi dirobject, ohfi := ohfi_count db, md_name := Some name,
        md_path := Some (case md_path (meta dirobject) of None \<Rightarrow> [] | Some p \<Rightarrow> p),
        md_type := type, dataType := Folder OR Special\<rparr>)"

section \<open>Looking objects up\<close>

text \<open>
  \<open>ohfiToObject\<close> walks the lists in order. A match on the object ends the walk of its
  list at once; a match on a filter does not, and a later match in the same list
  overrides it. The first list with a match ends the search.
\<close>

fun scan_chain :: "int \<Rightarrow> cma_object list \<Rightarrow> nat \<Rightarrow> nat option \<Rightarrow> nat option" where
  "scan_chain k [] j found = found"
| "scan_chain k (x # xs) j found =
     (if o_ohfi x = k then Some j
      else scan_chain k xs (Suc j) (if \<exists>f \<in> set (filters x). ohfi f = k then Some j else found))"

fun scan_chains :: "int \<Rightarrow> cma_object list list \<Rightarrow> nat \<Rightarrow> objref option" where
  "scan_chains k [] i = None"
| "scan_chains k (c # cs) i =
     (case scan_chain k c 0 None of Some j \<Rightarrow> Some (i, j) | None \<Rightarrow> scan_chains k cs (Suc i))"

definition ohfiToObject :: "cma_db \<Rightarrow> int \<Rightarrow> objref option" where
  "ohfiToObject db k = scan_chains k (db_chains db) 0"

text \<open>The masters themselves are skipped; every other object has a relative path.\<close>

fun path_scan_chain :: "string \<Rightarrow> cma_object list \<Rightarrow> nat \<Rightarrow> nat option" where
  "path_scan_chain path [] j = None"
| "path_scan_chain path (x # xs) j =
     (if md_path (meta x) = Some path then Some j else path_scan_chain path xs (Suc j))"

fun path_scan_chains :: "string \<Rightarrow> int \<Rightarrow> cma_object list list \<Rightarrow> nat \<Rightarrow> objref option" where
  "path_scan_chains path root [] i = None"
| "path_scan_chains path root (c # cs) i =
     (if root \<noteq> 0 \<and> o_ohfi (hd c) \<noteq> root then path_scan_chains path root cs (Suc i)
      else case path_scan_chain path (tl c) 1 of
             Some j \<Rightarrow> Some (i, j)
           | None \<Rightarrow> path_scan_chains path root cs (Suc i))"

definition pathToObject :: "cma_db \<Rightarrow> string \<Rightarrow> int \<Rightarrow> objref option" where
  "pathToObject db path ohfiRoot = path_scan_chains path ohfiRoot (db_chains db) 0"

section \<open>Filtering\<close>

definition acceptFilteredObject :: "cma_object \<Rightarrow> cma_object \<Rightarrow> u32 \<Rightarrow> bool" where
  "acceptFilteredObject parent current type =
     (let dt = dataType (meta current);
          result =
            (if MASK_SET type VITA_DIR_TYPE_MASK_PHOTO then dt AND Photo \<noteq> 0
             else if MASK_SET type VITA_DIR_TYPE_MASK_VIDEO then dt AND Video \<noteq> 0
             else if MASK_SET type VITA_DIR_TYPE_MASK_MUSIC then dt AND Music \<noteq> 0
             else False)
      in if type AND (VITA_DIR_TYPE_MASK_ALL OR VITA_DIR_TYPE_MASK_SONGS) \<noteq> 0
         then result \<and> dt AND File \<noteq> 0
         else if type AND VITA_DIR_TYPE_MASK_REGULAR \<noteq> 0
         then o_ohfi parent = o_parent current
         else result)"

text \<open>The loop over the lists stops after the first one in which something was accepted.\<close>

fun filter_chains :: "(cma_object \<Rightarrow> bool) \<Rightarrow> cma_object list list \<Rightarrow> metadata list" where
  "filter_chains accept [] = []"
| "filter_chains accept (c # cs) =
     (let accepted = filter accept c
      in if accepted \<noteq> [] then map meta accepted else filter_chains accept cs)"

text \<open>The metadata list the function links together; its length is the number returned.\<close>

definition filterObjects :: "cma_db \<Rightarrow> int \<Rightarrow> metadata list" where
  "filterObjects db ohfi_parent =
     (case ohfiToObject db ohfi_parent of
        None \<Rightarrow> []
      | Some r \<Rightarrow>
          (let parent = deref db r in
           if filters parent \<noteq> [] \<and> ohfi_parent = o_ohfi parent then filters parent
           else
             (let type = (case find (\<lambda>f. ohfi f = ohfi_parent) (filters parent) of
                            Some f \<Rightarrow> md_type f | None \<Rightarrow> md_type (meta parent))
              in filter_chains (\<lambda>obj. acceptFilteredObject parent obj type) (db_chains db))))"

section \<open>Removing an object and everything below it\<close>

text \<open>
  The ways the C function goes wrong: a child found before any predecessor (it logs,
  returns, and keeps the lock; a caller in the recursion would retry for ever), an object
  that is not in the list (\<open>p_toFree\<close> is never set and is dereferenced), and removal of
  \<open>start\<close> itself (only the local variable is updated, the freed object stays linked).
\<close>

datatype rm_error = Rm_invalid_entry | Rm_uninitialised | Rm_frees_start | Rm_out_of_fuel

text \<open>
  \<open>os\<close> is the list from \<open>start\<close> on; \<open>i\<close>, \<open>prev\<close> and \<open>toFree\<close> are the positions that
  \<open>p_object\<close>, \<open>prev\<close> and \<open>p_toFree\<close> point to.
\<close>

fun rm_loop ::
  "nat \<Rightarrow> int \<Rightarrow> cma_object list \<Rightarrow> nat \<Rightarrow> nat option \<Rightarrow> nat option \<Rightarrow> rm_error + cma_object list" where
  "rm_loop 0 k os i prev toFree = Inl Rm_out_of_fuel"
| "rm_loop (Suc fuel) k os i prev toFree =
     (if i < length os then
        (let toFree' = (if o_ohfi (os ! i) = k then Some i else toFree) in
         if o_parent (os ! i) = k then
           (case prev of
              None \<Rightarrow> Inl Rm_invalid_entry
            | Some pv \<Rightarrow>
                (case rm_loop fuel (o_ohfi (os ! i)) (drop pv os) 0 None None of
                   Inl e \<Rightarrow> Inl e
                 | Inr rest \<Rightarrow> rm_loop fuel k (take pv os @ rest) (Suc pv) (Some pv) toFree'))
         else rm_loop fuel k os (Suc i) (Some i) toFree')
      else
        (case toFree of
           None \<Rightarrow> Inl Rm_uninitialised
         | Some t \<Rightarrow> if t = 0 then Inl Rm_frees_start else Inr (take t os @ drop (Suc t) os)))"

definition rm_fuel :: "cma_object list \<Rightarrow> nat" where
  "rm_fuel os = (length os + 1) * (length os + 1) + 1"

definition removeFromDatabase :: "cma_db \<Rightarrow> int \<Rightarrow> objref \<Rightarrow> rm_error + cma_db" where
  "removeFromDatabase db k start =
     (let c = db_chains db ! fst start; os = drop (snd start) c in
      case rm_loop (rm_fuel os) k os 0 None None of
        Inl e \<Rightarrow> Inl e
      | Inr rest \<Rightarrow> Inr (update_chain (fst start) (\<lambda>_. take (snd start) c @ rest) db))"

section \<open>Renaming\<close>

text \<open>
  \<open>renameRootEntry\<close> on the list from \<open>object\<close> on. \<open>name = None\<close> stands for NULL. A missing
  name or path (the masters have none) is dereferenced: \<open>None\<close>. The children are found
  by their parent id among the objects from \<open>object\<close> on, and renamed in turn.
\<close>

definition rename_one :: "string option \<Rightarrow> string \<Rightarrow> cma_object \<Rightarrow> cma_object option" where
  "rename_one name newname obj = do {
     origName \<leftarrow> md_name (meta obj);
     origRel \<leftarrow> md_path (meta obj);
     let nm = (case name of None \<Rightarrow> origName | Some n \<Rightarrow> n);
     let newRel = strreplace origRel nm newname;
     Some (obj\<lparr>meta := (meta obj)\<lparr>md_name := Some (strreplace origName nm newname),
                                  md_path := Some newRel\<rparr>,
               o_path := strreplace (o_path obj) origRel newRel\<rparr>) }"

fun rename_loop ::
  "nat \<Rightarrow> string option \<Rightarrow> string \<Rightarrow> cma_object list \<Rightarrow> nat \<Rightarrow> cma_object list option"
and rename_children ::
  "nat \<Rightarrow> int \<Rightarrow> string \<Rightarrow> string \<Rightarrow> cma_object list \<Rightarrow> nat \<Rightarrow> nat \<Rightarrow> cma_object list option" where
  "rename_loop 0 name newname os i = None"
| "rename_loop (Suc fuel) name newname os i = do {
     origRel \<leftarrow> md_path (meta (os ! i));
     obj \<leftarrow> rename_one name newname (os ! i);
     newRel \<leftarrow> md_path (meta obj);
     rename_children fuel (o_ohfi obj) origRel newRel (os[i := obj]) i (length os - i) }"
| "rename_children fuel k origRel newRel os j 0 = Some os"
| "rename_children fuel k origRel newRel os j (Suc n) =
     (if o_parent (os ! j) = k then do {
        nm \<leftarrow> md_name (meta (os ! j));
        os' \<leftarrow> rename_loop fuel (Some (path_join origRel nm)) (path_join newRel nm) os j;
        rename_children fuel k origRel newRel os' (Suc j) n }
      else rename_children fuel k origRel newRel os (Suc j) n)"

definition renameRootEntry :: "cma_db \<Rightarrow> objref \<Rightarrow> string option \<Rightarrow> string \<Rightarrow> cma_db option" where
  "renameRootEntry db r name newname = do {
     os \<leftarrow> rename_loop (length (db_chains db ! fst r) + 1) name newname (db_chains db ! fst r) (snd r);
     Some (update_chain (fst r) (\<lambda>_. os) db) }"

end
