(* ===== verification/Database_Remove.thy ===== *)
theory Database_Remove
  imports Database
begin

text \<open>
  \<open>removeFromDatabase\<close> against its specification: on a list in which every object comes
  after its parent, it terminates and removes exactly the object and its descendants.
\<close>

section \<open>Well-formed lists\<close>

text \<open>Ids are distinct and no object comes before (or is) its own parent.\<close>

fun chain_ok :: "cma_object list \<Rightarrow> bool" where
  "chain_ok [] = True"
| "chain_ok (x # xs) =
     (o_ohfi x \<notin> o_ohfi ` set xs \<and> o_parent x \<notin> o_ohfi ` set (x # xs) \<and> chain_ok xs)"

abbreviation "ids os \<equiv> o_ohfi ` set os"

lemma chain_ok_append:
  "chain_ok (xs @ ys) \<longleftrightarrow> chain_ok xs \<and> chain_ok ys \<and> ids xs \<inter> ids ys = {} \<and>
     o_parent ` set xs \<inter> ids ys = {}"
  by (induction xs) auto

lemma chain_ok_filter: "chain_ok xs \<Longrightarrow> chain_ok (filter P xs)"
  by (induction xs) auto

lemma chain_ok_drop: "chain_ok xs \<Longrightarrow> chain_ok (drop n xs)"
  by (metis append_take_drop_id chain_ok_append)

lemma chain_ok_distinct: "chain_ok xs \<Longrightarrow> distinct (map o_ohfi xs)"
  by (induction xs) auto

lemma chain_ok_inj: "chain_ok xs \<Longrightarrow> x \<in> set xs \<Longrightarrow> y \<in> set xs \<Longrightarrow> o_ohfi x = o_ohfi y \<Longrightarrow> x = y"
  by (metis chain_ok_distinct distinct_map inj_onD)

section \<open>Descendants\<close>

definition child_rel :: "cma_object list \<Rightarrow> (int \<times> int) set" where
  "child_rel os = {(o_parent x, o_ohfi x) | x. x \<in> set os}"

definition descendants :: "cma_object list \<Rightarrow> int \<Rightarrow> int set" where
  "descendants os k = (child_rel os)\<^sup>* `` {k}"

lemma descendants_self [simp]: "k \<in> descendants os k"
  by (simp add: descendants_def)

lemma descendants_step:
  "k \<in> descendants os a \<Longrightarrow> x \<in> set os \<Longrightarrow> o_parent x = k \<Longrightarrow> o_ohfi x \<in> descendants os a"
  unfolding descendants_def child_rel_def by (auto intro: rtrancl_into_rtrancl)

lemma descendants_trans: "b \<in> descendants os a \<Longrightarrow> descendants os b \<subseteq> descendants os a"
  unfolding descendants_def by auto

lemma descendants_induct [consumes 1, case_names self step]:
  assumes "k \<in> descendants os a" and "P a"
    and "\<And>x. x \<in> set os \<Longrightarrow> o_parent x \<in> descendants os a \<Longrightarrow> P (o_parent x) \<Longrightarrow> P (o_ohfi x)"
  shows "P k"
proof -
  have "(a, k) \<in> (child_rel os)\<^sup>*" using assms(1) by (simp add: descendants_def)
  then show ?thesis
  proof (induction rule: rtrancl_induct)
    case base
    show ?case by (rule assms(2))
  next
    case (step y z)
    then obtain x where "x \<in> set os" "y = o_parent x" "z = o_ohfi x" by (auto simp: child_rel_def)
    then show ?case using step assms(3) by (auto simp: descendants_def)
  qed
qed

lemma descendants_mono: "set os \<subseteq> set os' \<Longrightarrow> descendants os k \<subseteq> descendants os' k"
proof
  fix y
  assume s: "set os \<subseteq> set os'" and "y \<in> descendants os k"
  from this(2) show "y \<in> descendants os' k"
    by (induction rule: descendants_induct) (use s in \<open>auto intro: descendants_step\<close>)
qed

lemma descendants_subset: "descendants os k \<subseteq> insert k (ids os)"
proof
  fix y
  assume "y \<in> descendants os k"
  then show "y \<in> insert k (ids os)" by (induction rule: descendants_induct) auto
qed

lemma finite_descendants [simp]: "finite (descendants os k)"
  by (rule finite_subset [OF descendants_subset]) simp

text \<open>What lies below an object lies behind it in the list.\<close>

lemma descendants_behind:
  assumes "chain_ok (xs @ ys)" and "k \<in> ids ys"
  shows "descendants (xs @ ys) k \<subseteq> ids ys"
proof
  fix d
  assume "d \<in> descendants (xs @ ys) k"
  then show "d \<in> ids ys"
    by (induction rule: descendants_induct) (use assms in \<open>auto simp: chain_ok_append\<close>)
qed

lemma descendants_suffix:
  assumes "chain_ok (xs @ ys)" and "k \<in> ids ys"
  shows "descendants (xs @ ys) k = descendants ys k"
proof
  show "descendants ys k \<subseteq> descendants (xs @ ys) k" by (rule descendants_mono) auto
  show "descendants (xs @ ys) k \<subseteq> descendants ys k"
  proof
    fix d
    assume "d \<in> descendants (xs @ ys) k"
    then show "d \<in> descendants ys k"
    proof (induction rule: descendants_induct)
      case self
      show ?case by simp
    next
      case (step x)
      have "o_parent x \<in> ids ys" using descendants_behind [OF assms] step.hyps by blast
      then have "x \<in> set ys" using step.hyps assms(1) by (auto simp: chain_ok_append)
      then show ?case using step by (auto intro: descendants_step)
    qed
  qed
qed

lemma not_own_descendant:
  assumes "chain_ok os" and "x \<in> set os" and "o_parent x = k" and "k \<in> ids os"
  shows "k \<notin> descendants os (o_ohfi x)"
proof -
  obtain xs ys where os: "os = xs @ x # ys" using assms(2) by (auto simp: in_set_conv_decomp)
  have "descendants os (o_ohfi x) \<subseteq> ids (x # ys)"
    unfolding os by (rule descendants_behind) (use assms os in auto)
  moreover have "k \<notin> ids (x # ys)" using assms(1,3) unfolding os by (auto simp: chain_ok_append)
  ultimately show ?thesis by blast
qed

text \<open>Removing the subtree of one child leaves the others.\<close>

definition prune :: "cma_object list \<Rightarrow> int \<Rightarrow> cma_object list" where
  "prune os k = filter (\<lambda>x. o_ohfi x \<notin> descendants os k) os"

lemma descendants_prune:
  assumes "c \<in> descendants os k" and "k \<notin> descendants os c"
  shows "descendants (prune os c) k = descendants os k - descendants os c"
proof
  have "set (prune os c) \<subseteq> set os" by (auto simp: prune_def)
  moreover have "descendants (prune os c) k \<inter> descendants os c = {}"
  proof (intro equals0I)
    fix y
    assume y: "y \<in> descendants (prune os c) k \<inter> descendants os c"
    then have "y \<in> descendants (prune os c) k" by blast
    then have "y \<notin> descendants os c"
      by (induction rule: descendants_induct) (use assms in \<open>auto simp: prune_def\<close>)
    with y show False by blast
  qed
  ultimately show "descendants (prune os c) k \<subseteq> descendants os k - descendants os c"
    using descendants_mono by blast
  show "descendants os k - descendants os c \<subseteq> descendants (prune os c) k"
  proof
    fix y
    assume "y \<in> descendants os k - descendants os c"
    then have "y \<in> descendants os k" and n: "y \<notin> descendants os c" by auto
    then show "y \<in> descendants (prune os c) k"
    proof (induction rule: descendants_induct)
      case self
      show ?case by simp
    next
      case (step x)
      have "o_parent x \<notin> descendants os c" using step by (auto intro: descendants_step)
      moreover have "x \<in> set (prune os c)" using step by (simp add: prune_def)
      ultimately show ?case using step by (auto intro: descendants_step)
    qed
  qed
qed

lemma prune_prune:
  assumes "c \<in> descendants os k" and "k \<notin> descendants os c"
  shows "prune (prune os c) k = prune os k"
proof -
  have "descendants os c \<subseteq> descendants os k" using assms(1) by (rule descendants_trans)
  then show ?thesis
    unfolding prune_def [of "prune os c"] descendants_prune [OF assms]
    by (auto simp: prune_def intro!: filter_cong)
qed

lemma prune_suffix:
  assumes "chain_ok (xs @ ys)" and "k \<in> ids ys"
  shows "prune (xs @ ys) k = xs @ prune ys k"
proof -
  have d: "descendants (xs @ ys) k = descendants ys k" using assms by (rule descendants_suffix)
  have "descendants ys k \<subseteq> ids ys" using descendants_behind [OF assms] d by simp
  then have "filter (\<lambda>x. o_ohfi x \<notin> descendants ys k) xs = xs"
    using assms(1) by (intro filter_True) (auto simp: chain_ok_append)
  then show ?thesis by (simp add: prune_def d)
qed

lemma chain_ok_prune: "chain_ok os \<Longrightarrow> chain_ok (prune os k)"
  by (simp add: prune_def chain_ok_filter)

lemma prune_no_children:
  assumes "chain_ok os" and "\<forall>x \<in> set os. o_parent x \<noteq> k"
  shows "prune os k = filter (\<lambda>x. o_ohfi x \<noteq> k) os"
proof -
  have "descendants os k \<subseteq> {k}"
  proof
    fix d
    assume "d \<in> descendants os k"
    then show "d \<in> {k}" by (induction rule: descendants_induct) (use assms in auto)
  qed
  then have "descendants os k = {k}" by auto
  then show ?thesis by (simp add: prune_def)
qed

lemma filter_remove_nth:
  assumes "distinct (map f os)" and "t < length os"
  shows "filter (\<lambda>x. f x \<noteq> f (os ! t)) os = take t os @ drop (Suc t) os"
proof -
  have d: "distinct (map f (take t os @ os ! t # drop (Suc t) os))"
    using assms by (simp only: id_take_nth_drop [symmetric])
  have "filter (\<lambda>x. f x \<noteq> f (os ! t)) os =
      filter (\<lambda>x. f x \<noteq> f (os ! t)) (take t os @ os ! t # drop (Suc t) os)"
    using assms(2) by (simp only: id_take_nth_drop [symmetric])
  also have "\<dots> = take t os @ drop (Suc t) os"
  proof -
    have "f x \<noteq> f (os ! t)" if "x \<in> set (take t os) \<union> set (drop (Suc t) os)" for x
      using d that by (auto simp: image_iff)
    then have "filter (\<lambda>x. f x \<noteq> f (os ! t)) (take t os) = take t os"
      "filter (\<lambda>x. f x \<noteq> f (os ! t)) (drop (Suc t) os) = drop (Suc t) os"
      by (auto intro!: filter_True)
    then show ?thesis by simp
  qed
  finally show ?thesis .
qed

section \<open>The loop\<close>

text \<open>The state of the loop at position \<open>i\<close>.\<close>

definition rm_state ::
  "int \<Rightarrow> cma_object list \<Rightarrow> nat \<Rightarrow> nat option \<Rightarrow> nat option \<Rightarrow> bool" where
  "rm_state k os i prev toFree \<longleftrightarrow>
     chain_ok os \<and> k \<in> ids (tl os) \<and> i \<le> length os \<and>
     (\<forall>j < i. o_parent (os ! j) \<noteq> k) \<and>
     prev = (if i = 0 then None else Some (i - 1)) \<and>
     (case toFree of None \<Rightarrow> \<forall>j < i. o_ohfi (os ! j) \<noteq> k | Some t \<Rightarrow> t < i \<and> o_ohfi (os ! t) = k)"

lemma rm_state_start: "chain_ok os \<Longrightarrow> k \<in> ids (tl os) \<Longrightarrow> rm_state k os 0 None None"
  by (simp add: rm_state_def)

lemma ids_tl_nth: "k \<in> ids (tl os) \<Longrightarrow> \<exists>t. 0 < t \<and> t < length os \<and> o_ohfi (os ! t) = k"
  by (cases os) (auto simp: in_set_conv_nth, metis Suc_less_eq nth_Cons_Suc zero_less_Suc)

lemma chain_ok_head:
  assumes "chain_ok os" and "k \<in> ids (tl os)"
  shows "os \<noteq> []" and "o_parent (os ! 0) \<noteq> k" and "o_ohfi (os ! 0) \<noteq> k"
  using assms by (cases os; auto)+

lemma rm_loop_end:
  assumes "rm_state k os (length os) prev toFree"
  shows "\<exists>t. toFree = Some t \<and> t \<noteq> 0 \<and> take t os @ drop (Suc t) os = prune os k"
proof -
  note st = assms [unfolded rm_state_def]
  obtain u where u: "0 < u" "u < length os" "o_ohfi (os ! u) = k"
    using st ids_tl_nth by blast
  then obtain t where t: "toFree = Some t" "t < length os" "o_ohfi (os ! t) = k"
    using st by (auto split: option.splits)
  have "o_ohfi (os ! 0) \<noteq> k" using st chain_ok_head by blast
  then have "t \<noteq> 0" using t by (cases t) auto
  have "\<forall>x \<in> set os. o_parent x \<noteq> k" using st by (auto simp: in_set_conv_nth)
  then have "prune os k = filter (\<lambda>x. o_ohfi x \<noteq> o_ohfi (os ! t)) os"
    using st t by (simp add: prune_no_children)
  also have "\<dots> = take t os @ drop (Suc t) os"
    using st t by (intro filter_remove_nth chain_ok_distinct) auto
  finally show ?thesis using t \<open>t \<noteq> 0\<close> by simp
qed

lemma rm_state_step:
  assumes "rm_state k os i prev toFree" and "i < length os" and "o_parent (os ! i) \<noteq> k"
  shows "rm_state k os (Suc i) (Some i) (if o_ohfi (os ! i) = k then Some i else toFree)"
  using assms by (auto simp: rm_state_def less_Suc_eq split: option.splits)

text \<open>The recursive call works on the list from the predecessor on.\<close>

lemma rm_child:
  assumes "rm_state k os i prev toFree" and "i < length os" and "o_parent (os ! i) = k"
  defines "c \<equiv> o_ohfi (os ! i)"
  shows "0 < i" and "prev = Some (i - 1)" and "rm_state c (drop (i - 1) os) 0 None None"
    and "take (i - 1) os @ prune (drop (i - 1) os) c = prune os c"
    and "c \<in> descendants os k" and "k \<notin> descendants os c"
    and "rm_state k (prune os c) i (Some (i - 1)) toFree"
    and "length (prune os c) < length os"
    and "descendants (drop (i - 1) os) c = descendants os c"
proof -
  note st = assms(1) [unfolded rm_state_def]
  have "o_parent (os ! 0) \<noteq> k" using st chain_ok_head by blast
  then show i0: "0 < i" using assms(3) by (cases i) auto
  then show "prev = Some (i - 1)" using st by simp
  have dr: "drop (i - 1) os = os ! (i - 1) # os ! i # drop (Suc i) os"
    using i0 assms(2) by (cases i) (simp_all add: Cons_nth_drop_Suc)
  have ok: "chain_ok os" using st by simp
  have cd: "chain_ok (take (i - 1) os @ drop (i - 1) os)" using ok by simp
  have cin: "c \<in> ids (drop (i - 1) os)" unfolding dr by (simp add: c_def)
  show "rm_state c (drop (i - 1) os) 0 None None"
    using chain_ok_drop [OF ok, of "i - 1"] unfolding dr
    by (intro rm_state_start) (simp_all add: c_def)
  show pr: "take (i - 1) os @ prune (drop (i - 1) os) c = prune os c"
    using prune_suffix [OF cd cin] by simp
  show "descendants (drop (i - 1) os) c = descendants os c"
    using descendants_suffix [OF cd cin] by simp
  have mem: "os ! i \<in> set os" using assms(2) by simp
  show ck: "c \<in> descendants os k"
    unfolding c_def by (rule descendants_step [OF descendants_self mem assms(3)])
  obtain u where u: "0 < u" "u < length os" "o_ohfi (os ! u) = k" using st ids_tl_nth by blast
  then have kin: "k \<in> ids os" by (auto intro: rev_image_eqI)
  show nk: "k \<notin> descendants os c"
    unfolding c_def by (rule not_own_descendant [OF ok mem assms(3) kin])
  have "os = take i os @ drop i os" by simp
  moreover have "c \<in> ids (drop i os)"
    using assms(2) by (simp add: c_def Cons_nth_drop_Suc [symmetric])
  ultimately have pr2: "prune os c = take i os @ prune (drop i os) c"
    using prune_suffix ok by metis
  have nth: "prune os c ! j = os ! j" if "j < i" for j
    using that assms(2) by (simp add: pr2 nth_append)
  have "k \<in> ids (prune os c)" using kin nk by (auto simp: prune_def)
  moreover have "o_ohfi (prune os c ! 0) \<noteq> k" using nth [OF i0] st chain_ok_head by metis
  moreover have "prune os c \<noteq> []" using i0 assms(2) by (auto simp: pr2)
  ultimately have "k \<in> ids (tl (prune os c))" by (cases "prune os c") auto
  moreover have "i \<le> length (prune os c)" using assms(2) by (simp add: pr2)
  ultimately show "rm_state k (prune os c) i (Some (i - 1)) toFree"
    using st i0 nth chain_ok_prune [OF ok]
    by (auto simp: rm_state_def split: option.splits)
  show "length (prune os c) < length os"
    unfolding prune_def by (rule length_filter_less [OF mem]) (simp add: c_def)
qed

lemma rm_loop_correct:
  assumes "rm_state k os i prev toFree"
    and "card (descendants os k) * (length os + 1) + (length os - i) < fuel"
  shows "rm_loop fuel k os i prev toFree = Inr (prune os k)"
  using assms
proof (induction fuel arbitrary: k os i prev toFree)
  case 0
  then show ?case by simp
next
  case (Suc fuel)
  have ile: "i \<le> length os" using Suc.prems(1) by (simp add: rm_state_def)
  show ?case
  proof (cases "i < length os")
    case False
    then have "rm_state k os (length os) prev toFree" using Suc.prems(1) ile by simp
    from rm_loop_end [OF this] show ?thesis using False by auto
  next
    case True
    show ?thesis
    proof (cases "o_parent (os ! i) = k")
      case False
      from rm_state_step [OF Suc.prems(1) True False]
      have "rm_loop fuel k os (Suc i) (Some i) (if o_ohfi (os ! i) = k then Some i else toFree)
          = Inr (prune os k)"
        using Suc.prems(2) True by (intro Suc.IH) auto
      then show ?thesis using True False by (simp add: Let_def)
    next
      case child: True
      let ?c = "o_ohfi (os ! i)" and ?L = "length os"
      note ch = rm_child [OF Suc.prems(1) True child]
      have "os ! i \<in> set os" using True by simp
      have "o_ohfi (os ! i) \<noteq> k" using ch(6) by (metis descendants_self)
      have "descendants os ?c \<subset> descendants os k"
        using descendants_trans [OF ch(5)] ch(6) descendants_self by blast
      then have lt: "card (descendants os ?c) < card (descendants os k)"
        by (rule psubset_card_mono [OF finite_descendants])
      have "card (descendants os ?c) * (length (drop (i - 1) os) + 1) \<le> card (descendants os ?c) * (?L + 1)"
        by simp
      also have "\<dots> + (?L + 1) \<le> card (descendants os k) * (?L + 1)"
        using mult_le_mono1 [of "Suc (card (descendants os ?c))" "card (descendants os k)" "?L + 1"] lt
        by simp
      finally have f1: "card (descendants (drop (i - 1) os) ?c) * (length (drop (i - 1) os) + 1) +
          (length (drop (i - 1) os) - 0) < fuel"
        using Suc.prems(2) True unfolding ch(9) by simp
      have "rm_loop fuel ?c (drop (i - 1) os) 0 None None = Inr (prune (drop (i - 1) os) ?c)"
        by (rule Suc.IH [OF ch(3) f1])
      moreover have "card (descendants (prune os ?c) k) * (length (prune os ?c) + 1) +
          (length (prune os ?c) - i) < fuel"
      proof -
        have "card (descendants (prune os ?c) k) \<le> card (descendants os k)"
          by (rule card_mono) (auto simp: descendants_prune [OF ch(5,6)])
        then have "card (descendants (prune os ?c) k) * (length (prune os ?c) + 1) \<le>
            card (descendants os k) * (?L + 1)"
          using ch(8) by (intro mult_le_mono) auto
        moreover have "length (prune os ?c) - i < ?L - i" using ch(8) True by simp
        ultimately show ?thesis using Suc.prems(2) by linarith
      qed
      then have "rm_loop fuel k (prune os ?c) i (Some (i - 1)) toFree = Inr (prune (prune os ?c) k)"
        by (rule Suc.IH [OF ch(7)])
      ultimately show ?thesis
        using True child ch(1,2,4) \<open>o_ohfi (os ! i) \<noteq> k\<close> prune_prune [OF ch(5,6)]
        by (simp add: Let_def)
    qed
  qed
qed

lemma rm_correct:
  assumes "chain_ok os" and "k \<in> ids (tl os)"
  shows "rm_loop (rm_fuel os) k os 0 None None = Inr (prune os k)"
proof (rule rm_loop_correct [OF rm_state_start [OF assms]])
  have "k \<in> ids os" using assms(2) by (cases os) auto
  then have "descendants os k \<subseteq> ids os" using descendants_subset [of os k] by auto
  then have "card (descendants os k) \<le> length os"
    by (metis List.finite_set card_image_le card_length card_mono finite_imageI le_trans)
  then have "card (descendants os k) * (length os + 1) \<le> length os * (length os + 1)"
    by (rule mult_le_mono1)
  then show "card (descendants os k) * (length os + 1) + (length os - 0) < rm_fuel os"
    by (simp add: rm_fuel_def)
qed

end
