(* ===== verification/Database_Inv.thy ===== *)
theory Database_Inv
  imports Database_Remove
begin

text \<open>
  The invariant of the database, that every operation keeps it, and what a lookup returns
  after an operation.
\<close>

section \<open>Ids\<close>

definition obj_ids :: "cma_object \<Rightarrow> int list" where
  "obj_ids x = o_ohfi x # map ohfi (filters x)"

definition chain_ids :: "cma_object list \<Rightarrow> int list" where
  "chain_ids c = concat (map obj_ids c)"

lemma chain_ids_append [simp]: "chain_ids (xs @ ys) = chain_ids xs @ chain_ids ys"
  by (simp add: chain_ids_def)

lemma chain_ids_simps [simp]: "chain_ids [] = []" "chain_ids (x # xs) = obj_ids x @ chain_ids xs"
  by (simp_all add: chain_ids_def)

lemma set_chain_ids: "set (chain_ids c) = (\<Union>x \<in> set c. set (obj_ids x))"
  by (simp add: chain_ids_def)

lemma ids_subset_chain_ids: "ids c \<subseteq> set (chain_ids c)"
  by (auto simp: set_chain_ids obj_ids_def)

definition owns :: "cma_object \<Rightarrow> int \<Rightarrow> bool" where
  "owns x k \<longleftrightarrow> k \<in> set (obj_ids x)"

lemma owns_iff: "owns x k \<longleftrightarrow> o_ohfi x = k \<or> (\<exists>f \<in> set (filters x). ohfi f = k)"
  by (auto simp: owns_def obj_ids_def)

lemma distinct_chain_owner:
  assumes "distinct (chain_ids c)" and "p < length c" and "q < length c"
    and "owns (c ! p) k" and "owns (c ! q) k"
  shows "p = q"
  using assms
proof (induction c arbitrary: p q)
  case Nil
  then show ?case by simp
next
  case (Cons x c)
  have dj: "set (obj_ids x) \<inter> set (chain_ids c) = {}" using Cons.prems(1) by simp
  have "owns (c ! r) k \<Longrightarrow> r < length c \<Longrightarrow> k \<in> set (chain_ids c)" for r
    by (auto simp: set_chain_ids owns_def)
  then have "\<not> (owns x k \<and> r < length c \<and> owns (c ! r) k)" for r
    using dj by (auto simp: owns_def)
  then show ?case using Cons by (cases p; cases q) auto
qed

lemma distinct_chain_owner_mem:
  assumes "distinct (chain_ids c)" and "x \<in> set c" and "y \<in> set c" and "owns x k" and "owns y k"
  shows "x = y"
proof -
  obtain p q where "p < length c" "x = c ! p" "q < length c" "y = c ! q"
    using assms(2,3) by (auto simp: in_set_conv_nth)
  then show ?thesis using distinct_chain_owner [OF assms(1), of p q k] assms(4,5) by simp
qed

section \<open>Looking up\<close>

lemma scan_chain_none: "\<forall>x \<in> set c. \<not> owns x k \<Longrightarrow> scan_chain k c j found = found"
  by (induction c arbitrary: j) (auto simp: owns_iff)

lemma scan_chain_owner:
  assumes "p < length c" and "owns (c ! p) k" and "\<forall>q < length c. owns (c ! q) k \<longrightarrow> q = p"
  shows "scan_chain k c j found = Some (j + p)"
  using assms
proof (induction c arbitrary: p j found)
  case Nil
  then show ?case by simp
next
  case (Cons x c)
  show ?case
  proof (cases p)
    case 0
    have "\<forall>y \<in> set c. \<not> owns y k"
    proof
      fix y
      assume "y \<in> set c"
      then obtain q where "q < length c" "y = c ! q" by (auto simp: in_set_conv_nth)
      then show "\<not> owns y k" using Cons.prems(3) 0 by (metis Suc_less_eq length_Cons nat.distinct(1) nth_Cons_Suc)
    qed
    then show ?thesis using Cons.prems(2) 0 by (auto simp: scan_chain_none owns_iff)
  next
    case (Suc p')
    have nx: "\<not> owns x k" using Cons.prems(3) Suc by (metis length_greater_0_conv list.distinct(1) nat.distinct(1) nth_Cons_0)
    have "scan_chain k c (Suc j) f = Some (Suc j + p')" for f
      using Cons.prems Suc by (intro Cons.IH) (auto dest: spec [of _ "Suc q" for q])
    then show ?thesis using nx Suc by (simp add: owns_iff)
  qed
qed

lemma scan_chains_owner:
  assumes "i < length cs" and "j < length (cs ! i)" and "owns (cs ! i ! j) k"
    and "\<And>i' j'. i' < length cs \<Longrightarrow> j' < length (cs ! i') \<Longrightarrow> owns (cs ! i' ! j') k \<Longrightarrow> i' = i \<and> j' = j"
  shows "scan_chains k cs n = Some (n + i, j)"
  using assms
proof (induction cs arbitrary: i n)
  case Nil
  from Nil.prems(1) show ?case by simp
next
  case (Cons c cs)
  show ?case
  proof (cases i)
    case 0
    have u: "\<forall>q < length c. owns (c ! q) k \<longrightarrow> q = j"
      using Cons.prems(4) [of 0] 0 by (metis length_greater_0_conv list.distinct(1) nth_Cons_0)
    have "j < length c" "owns (c ! j) k" using Cons.prems(2,3) 0 by simp_all
    from scan_chain_owner [OF this u] have "scan_chain k c 0 None = Some (0 + j)" .
    then show ?thesis using 0 by simp
  next
    case (Suc i')
    have "\<forall>x \<in> set c. \<not> owns x k"
      using Cons.prems(4) [of 0] Suc by (auto simp: in_set_conv_nth)
    then have "scan_chain k c 0 None = None" by (rule scan_chain_none)
    moreover have u: "m = i' \<and> q = j" if "m < length cs" "q < length (cs ! m)" "owns (cs ! m ! q) k" for m q
      using Cons.prems(4) [of "Suc m" q] that Suc by simp
    have "i' < length cs" "j < length (cs ! i')" "owns (cs ! i' ! j) k"
      using Cons.prems(1-3) Suc by simp_all
    from Cons.IH [OF this u] have "scan_chains k cs (Suc n) = Some (Suc n + i', j)" .
    ultimately show ?thesis using Suc by simp
  qed
qed

lemma scan_chains_none: "\<forall>c \<in> set cs. \<forall>x \<in> set c. \<not> owns x k \<Longrightarrow> scan_chains k cs n = None"
  by (induction cs arbitrary: n) (auto simp: scan_chain_none)

section \<open>The invariant\<close>

definition master_ids :: "int list" where
  "master_ids = [VITA_OHFI_PHOTO, VITA_OHFI_VIDEO, VITA_OHFI_MUSIC, VITA_OHFI_PACKAGE,
     VITA_OHFI_VITAAPP, VITA_OHFI_PSPAPP, VITA_OHFI_PSPSAVE, VITA_OHFI_PSXAPP, VITA_OHFI_PSMAPP,
     VITA_OHFI_BACKUP]"

text \<open>
  A list: headed by its master, which has no parent and may have filters, their ids from
  \<open>OHFI_OFFSET\<close> on; every other
  object has an id from \<open>OHFI_OFFSET\<close> on, no filters, and its parent in the list, before
  it. All ids of objects and filters are different and were handed out.
\<close>

definition chain_inv :: "int \<Rightarrow> int \<Rightarrow> cma_object list \<Rightarrow> bool" where
  "chain_inv m n c \<longleftrightarrow> c \<noteq> [] \<and> o_ohfi (hd c) = m \<and> o_parent (hd c) = 0 \<and>
     (\<forall>f \<in> set (filters (hd c)). OHFI_OFFSET \<le> ohfi f) \<and> chain_ok c \<and>
     distinct (chain_ids c) \<and> (\<forall>k \<in> set (chain_ids c). k < n) \<and>
     (\<forall>x \<in> set (tl c). filters x = [] \<and> OHFI_OFFSET \<le> o_ohfi x \<and> o_parent x \<in> ids c)"

definition db_ok :: "cma_db \<Rightarrow> bool" where
  "db_ok db \<longleftrightarrow> length (db_chains db) = 10 \<and> OHFI_OFFSET \<le> ohfi_count db \<and>
     (\<forall>i < 10. chain_inv (master_ids ! i) (ohfi_count db) (db_chains db ! i)) \<and>
     (\<forall>i < 10. \<forall>j < 10. i \<noteq> j \<longrightarrow>
        set (chain_ids (db_chains db ! i)) \<inter> set (chain_ids (db_chains db ! j)) = {})"

lemma db_okD:
  assumes "db_ok db" and "i < length (db_chains db)"
  shows "chain_inv (master_ids ! i) (ohfi_count db) (db_chains db ! i)"
    and "chain_ok (db_chains db ! i)" and "distinct (chain_ids (db_chains db ! i))"
  using assms by (auto simp: db_ok_def chain_inv_def)

lemma db_ok_owner_unique:
  assumes "db_ok db" and "valid_ref db r" and "valid_ref db r'"
    and "owns (deref db r) k" and "owns (deref db r') k"
  shows "r = r'"
proof -
  obtain i j i' j' where r: "r = (i, j)" "r' = (i', j')" by (cases r, cases r') auto
  have k: "k \<in> set (chain_ids (db_chains db ! i))" "k \<in> set (chain_ids (db_chains db ! i'))"
    using assms(2-5) unfolding r by (auto simp: set_chain_ids owns_def valid_ref_def deref_def)
  have "i < 10" "i' < 10" using assms(1-3) unfolding r by (auto simp: valid_ref_def db_ok_def)
  then have "i = i'" using k assms(1) unfolding db_ok_def by (metis IntI empty_iff)
  moreover have "j = j'"
    using distinct_chain_owner [OF db_okD(3) [OF assms(1), of i], of j j' k] assms(2-5) \<open>i = i'\<close>
    unfolding r by (simp add: valid_ref_def deref_def)
  ultimately show ?thesis by (simp add: r)
qed

lemma ohfiToObject_Some:
  assumes "db_ok db" and "valid_ref db r" and "owns (deref db r) k"
  shows "ohfiToObject db k = Some r"
proof -
  obtain i j where r: "r = (i, j)" by (cases r)
  have "scan_chains k (db_chains db) 0 = Some (0 + i, j)"
  proof (rule scan_chains_owner)
    show "i < length (db_chains db)" "j < length (db_chains db ! i)" "owns (db_chains db ! i ! j) k"
      using assms(2,3) by (simp_all add: r valid_ref_def deref_def)
    show "i' = i \<and> j' = j" if "i' < length (db_chains db)" "j' < length (db_chains db ! i')"
      "owns (db_chains db ! i' ! j') k" for i' j'
      using db_ok_owner_unique [OF assms(1,2), of "(i', j')" k] that assms(3)
      by (simp add: r valid_ref_def deref_def)
  qed
  then show ?thesis by (simp add: ohfiToObject_def r)
qed

lemma ohfiToObject_iff:
  assumes "db_ok db"
  shows "ohfiToObject db k = Some r \<longleftrightarrow> valid_ref db r \<and> owns (deref db r) k"
proof (cases "\<exists>r'. valid_ref db r' \<and> owns (deref db r') k")
  case True
  then obtain r' where r': "valid_ref db r'" "owns (deref db r') k" by blast
  then have "ohfiToObject db k = Some r'" by (rule ohfiToObject_Some [OF assms])
  then show ?thesis using r' db_ok_owner_unique [OF assms r'(1), of r k] by auto
next
  case False
  have "\<forall>c \<in> set (db_chains db). \<forall>x \<in> set c. \<not> owns x k"
  proof (intro ballI)
    fix c x
    assume "c \<in> set (db_chains db)" "x \<in> set c"
    then obtain i j where "i < length (db_chains db)" "c = db_chains db ! i" "j < length c" "x = c ! j"
      by (auto simp: in_set_conv_nth)
    then have "valid_ref db (i, j)" "deref db (i, j) = x" by (simp_all add: valid_ref_def deref_def)
    then show "\<not> owns x k" using False by blast
  qed
  then have "ohfiToObject db k = None" unfolding ohfiToObject_def by (rule scan_chains_none)
  with False show ?thesis by (metis option.distinct(1))
qed

lemma ohfiToObject_None_iff:
  assumes "db_ok db"
  shows "ohfiToObject db k = None \<longleftrightarrow> (\<forall>c \<in> set (db_chains db). k \<notin> set (chain_ids c))"
proof
  assume n: "ohfiToObject db k = None"
  show "\<forall>c \<in> set (db_chains db). k \<notin> set (chain_ids c)"
  proof (intro ballI notI)
    fix c
    assume "c \<in> set (db_chains db)" "k \<in> set (chain_ids c)"
    then obtain x where "x \<in> set c" "owns x k" by (auto simp: set_chain_ids owns_def)
    moreover from this obtain i j where "i < length (db_chains db)" "c = db_chains db ! i" "j < length c" "x = c ! j"
      using \<open>c \<in> set (db_chains db)\<close> by (auto simp: in_set_conv_nth)
    ultimately have "i < length (db_chains db)" "j < length (db_chains db ! i)" "owns (db_chains db ! i ! j) k"
      by auto
    then have "ohfiToObject db k = Some (i, j)"
      by (intro ohfiToObject_Some [OF assms]) (simp_all add: valid_ref_def deref_def)
    with n show False by simp
  qed
next
  assume "\<forall>c \<in> set (db_chains db). k \<notin> set (chain_ids c)"
  then show "ohfiToObject db k = None"
    unfolding ohfiToObject_def by (intro scan_chains_none) (auto simp: set_chain_ids owns_def)
qed

section \<open>Replacing one list\<close>

lemma chains_update_chain [simp]: "db_chains (update_chain i f db) = (db_chains db)[i := f (db_chains db ! i)]"
  by (simp add: update_chain_def)

lemma count_update_chain [simp]: "ohfi_count (update_chain i f db) = ohfi_count db"
  by (simp add: update_chain_def)

lemma chain_inv_mono: "chain_inv m n c \<Longrightarrow> n \<le> n' \<Longrightarrow> chain_inv m n' c"
  by (auto simp: chain_inv_def)

lemma db_ok_update:
  assumes "db_ok db" and "i < length (db_chains db)"
    and "chain_inv (master_ids ! i) n' c'" and "ohfi_count db \<le> n'"
    and "\<forall>k \<in> set (chain_ids c'). k \<in> set (chain_ids (db_chains db ! i)) \<or> ohfi_count db \<le> k"
  shows "db_ok ((update_chain i (\<lambda>_. c') db)\<lparr>ohfi_count := n'\<rparr>)"
proof -
  have other: "set (chain_ids c') \<inter> set (chain_ids (db_chains db ! j)) = {}" if "j < 10" "j \<noteq> i" for j
  proof -
    have "set (chain_ids (db_chains db ! i)) \<inter> set (chain_ids (db_chains db ! j)) = {}"
      using assms(1,2) that by (simp add: db_ok_def)
    moreover have "\<forall>k \<in> set (chain_ids (db_chains db ! j)). k < ohfi_count db"
      using assms(1) that by (simp add: db_ok_def chain_inv_def)
    ultimately show ?thesis using assms(5) by force
  qed
  then show ?thesis
    using assms by (auto simp: db_ok_def nth_list_update intro: chain_inv_mono)
qed

section \<open>Adding\<close>

lemma new_object_simps [simp]:
  "o_ohfi (new_object n root name sz ty) = n" "o_parent (new_object n root name sz ty) = o_ohfi root"
  "filters (new_object n root name sz ty) = []" "obj_ids (new_object n root name sz ty) = [n]"
  by (simp_all add: new_object_def obj_ids_def Let_def)

lemma chain_inv_add:
  assumes "chain_inv m n c" and "x \<in> set c" and "OHFI_OFFSET \<le> n"
  shows "chain_inv m (n + 1) (c @ [new_object n x name sz ty])"
proof -
  have lt: "\<forall>k \<in> set (chain_ids c). k < n" using assms(1) by (simp add: chain_inv_def)
  then have lt': "\<forall>k \<in> ids c. k < n" using ids_subset_chain_ids [of c] by blast
  have par: "o_parent ` set c \<subseteq> insert 0 (ids c)"
    using assms(1) by (cases c) (auto simp: chain_inv_def)
  have "n \<noteq> 0" using assms(3) by (simp add: OHFI_OFFSET_def)
  have n: "n \<notin> ids c" using lt' by auto
  have n': "n \<notin> o_parent ` set c" using n par \<open>n \<noteq> 0\<close> by blast
  have "o_ohfi x \<noteq> n" using n assms(2) by blast
  then have "chain_ok (c @ [new_object n x name sz ty])"
    using n n' assms(1) by (auto simp: chain_ok_append chain_inv_def)
  moreover have "\<forall>k \<in> set (chain_ids c). k \<le> n" using lt by (auto intro: less_imp_le)
  ultimately show ?thesis
    using assms lt by (cases c) (auto simp: chain_inv_def)
qed

lemma addToDatabase_simps:
  assumes "addToDatabase db root name sz ty = (db', r)"
  defines "x \<equiv> new_object (ohfi_count db) (deref db root) name sz ty"
  shows "db' = (update_chain (fst root) (\<lambda>_. db_chains db ! fst root @ [x]) db)\<lparr>ohfi_count := ohfi_count db + 1\<rparr>"
    and "r = (fst root, length (db_chains db ! fst root))"
  using assms by (simp_all add: addToDatabase_def update_chain_def Let_def)

lemma addToDatabase_ok:
  assumes "db_ok db" and "valid_ref db root" and "addToDatabase db root name sz ty = (db', r)"
  shows "db_ok db'" and "valid_ref db' r"
    and "deref db' r = new_object (ohfi_count db) (deref db root) name sz ty"
    and "\<And>r0. valid_ref db r0 \<Longrightarrow> valid_ref db' r0 \<and> deref db' r0 = deref db r0"
    and "ohfi_count db' = ohfi_count db + 1"
proof -
  note eq = addToDatabase_simps [OF assms(3)]
  have i: "fst root < length (db_chains db)" "deref db root \<in> set (db_chains db ! fst root)"
    using assms(2) by (auto simp: valid_ref_def deref_def)
  have off: "OHFI_OFFSET \<le> ohfi_count db" using assms(1) by (simp add: db_ok_def)
  show "db_ok db'"
    unfolding eq
    by (rule db_ok_update [OF assms(1) i(1)])
      (use chain_inv_add [OF db_okD(1) [OF assms(1) i(1)] i(2) off] in auto)
  show "valid_ref db' r" "ohfi_count db' = ohfi_count db + 1"
    using i by (simp_all add: eq valid_ref_def)
  show "deref db' r = new_object (ohfi_count db) (deref db root) name sz ty"
    using i by (simp add: eq deref_def)
  show "valid_ref db' r0 \<and> deref db' r0 = deref db r0" if "valid_ref db r0" for r0
    using that by (cases "fst r0 = fst root") (auto simp: eq valid_ref_def deref_def nth_append)
qed

section \<open>Removing\<close>

lemma set_prune: "set (prune os k) = {x \<in> set os. o_ohfi x \<notin> descendants os k}"
  by (auto simp: prune_def)

lemma chain_ids_prune: "set (chain_ids (prune os k)) \<subseteq> set (chain_ids os)"
  by (auto simp: set_chain_ids set_prune)

lemma distinct_chain_ids_filter: "distinct (chain_ids c) \<Longrightarrow> distinct (chain_ids (filter P c))"
  by (induction c) (auto simp: set_chain_ids)

lemma chain_inv_prune:
  assumes "chain_inv m n c" and "k \<in> ids (tl c)"
  shows "chain_inv m n (prune c k)" and "hd (prune c k) = hd c" and "tl (prune c k) = prune (tl c) k"
proof -
  obtain x xs where c: "c = x # xs" using assms(1) by (cases c) (auto simp: chain_inv_def)
  have ok: "chain_ok ([x] @ xs)" using assms(1) c by (auto simp: chain_inv_def)
  have k: "k \<in> ids xs" using assms(2) c by simp
  have p: "prune c k = x # prune xs k" using prune_suffix [OF ok k] c by simp
  then show "hd (prune c k) = hd c" "tl (prune c k) = prune (tl c) k" using c by simp_all
  have d: "descendants c k \<subseteq> ids xs" using descendants_behind [OF ok k] c by simp
  have par: "o_parent y \<in> ids (prune c k)" if "y \<in> set (prune xs k)" for y
  proof -
    have y: "y \<in> set xs" "o_ohfi y \<notin> descendants c k"
      using that descendants_suffix [OF ok k] c by (auto simp: set_prune)
    then have "o_parent y \<in> ids c" using assms(1) c by (auto simp: chain_inv_def)
    moreover have "o_parent y \<notin> descendants c k" using y c by (auto intro: descendants_step)
    ultimately show ?thesis by (auto simp: set_prune)
  qed
  have "\<forall>y \<in> set (tl (prune c k)). filters y = [] \<and> OHFI_OFFSET \<le> o_ohfi y \<and> o_parent y \<in> ids (prune c k)"
  proof
    fix y
    assume "y \<in> set (tl (prune c k))"
    then have y: "y \<in> set (prune xs k)" using p by simp
    then have "y \<in> set xs" by (simp add: set_prune)
    then show "filters y = [] \<and> OHFI_OFFSET \<le> o_ohfi y \<and> o_parent y \<in> ids (prune c k)"
      using par [OF y] assms(1) c by (simp add: chain_inv_def)
  qed
  moreover have "prune c k \<noteq> []" "o_ohfi (hd (prune c k)) = m" "o_parent (hd (prune c k)) = 0"
    "\<forall>f \<in> set (filters (hd (prune c k))). OHFI_OFFSET \<le> ohfi f"
    using p assms(1) c by (simp_all add: chain_inv_def)
  moreover have "\<forall>j \<in> set (chain_ids (prune c k)). j < n"
    using assms(1) chain_ids_prune [of c k] by (auto simp: chain_inv_def)
  moreover have "chain_ok (prune c k)" using ok c by (simp add: chain_ok_prune)
  moreover have "distinct (chain_ids (prune c k))"
    using assms(1) by (simp add: chain_inv_def prune_def distinct_chain_ids_filter)
  ultimately show "chain_inv m n (prune c k)" unfolding chain_inv_def by blast
qed

lemma removeFromDatabase_prunes:
  assumes "db_ok db" and "fst start < length (db_chains db)"
    and "k \<in> ids (tl (drop (snd start) (db_chains db ! fst start)))"
  shows "removeFromDatabase db k start =
    Inr (update_chain (fst start) (\<lambda>_. prune (db_chains db ! fst start) k) db)"
proof -
  let ?c = "db_chains db ! fst start" and ?n = "snd start"
  have ok: "chain_ok (take ?n ?c @ drop ?n ?c)" using db_okD(2) [OF assms(1,2)] by (simp only: append_take_drop_id)
  have "chain_ok (drop ?n ?c)" using db_okD(2) [OF assms(1,2)] by (rule chain_ok_drop)
  from rm_correct [OF this assms(3)]
  have r: "rm_loop (rm_fuel (drop ?n ?c)) k (drop ?n ?c) 0 None None = Inr (prune (drop ?n ?c) k)" .
  have "k \<in> ids (drop ?n ?c)" using assms(3) by (cases "drop ?n ?c") auto
  from prune_suffix [OF ok this] r show ?thesis by (simp add: removeFromDatabase_def Let_def)
qed

lemma removeFromDatabase_ok:
  assumes "db_ok db" and "fst start < length (db_chains db)"
    and "k \<in> ids (tl (drop (snd start) (db_chains db ! fst start)))"
    and "removeFromDatabase db k start = Inr db'"
  shows "db_ok db'"
proof -
  let ?c = "db_chains db ! fst start"
  have kt: "k \<in> ids (tl ?c)"
    using assms(3) by (metis (no_types, lifting) drop_tl image_iff in_set_dropD tl_drop)
  have db': "db' = (update_chain (fst start) (\<lambda>_. prune ?c k) db)\<lparr>ohfi_count := ohfi_count db\<rparr>"
    using removeFromDatabase_prunes [OF assms(1-3)] assms(4) by (simp add: update_chain_def)
  show ?thesis
    unfolding db'
    by (rule db_ok_update [OF assms(1,2)])
      (use chain_inv_prune(1) [OF db_okD(1) [OF assms(1,2)] kt] chain_ids_prune [of ?c k] in auto)
qed

end
