(* ===== verification/Catalog.thy ===== *)
theory Catalog
  imports Database_Inv
begin

text \<open>
  Building the database: \<open>initDatabase\<close> and \<open>createDatabase\<close> of \<open>src/src/database.c\<close>,
  and the directory walk \<open>addEntriesForDirectory\<close> of \<open>src/src/utilities.c\<close> (the POSIX
  version). The directory listing and \<open>stat\<close> belong to the system and are parameters:
  \<open>dir path\<close> is what \<open>readdir\<close> returns for the directory, in order, or \<open>None\<close> when
  \<open>opendir\<close> fails; \<open>st path\<close> tells directories from files and gives the size.
\<close>

record cma_paths =
  urlPath :: string
  photosPath :: string
  videosPath :: string
  musicPath :: string
  appsPath :: string
  packagesPath :: string

definition master :: "int \<Rightarrow> u32 \<Rightarrow> string \<Rightarrow> cma_object" where
  "master k dt path = \<lparr>meta = metadata_zero\<lparr>ohfi := k,
       md_type := VITA_DIR_TYPE_MASK_ROOT OR VITA_DIR_TYPE_MASK_REGULAR, dataType := dt\<rparr>,
     o_path = path, filters = []\<rparr>"

text \<open>The filters take the first ids from \<open>OHFI_OFFSET\<close> on, in the order they are created.\<close>

definition initDatabase :: "cma_paths \<Rightarrow> string \<Rightarrow> cma_db" where
  "initDatabase paths uuid =
    (let db0 = \<lparr>db_chains = [], ohfi_count = OHFI_OFFSET\<rparr>;
         photos = master VITA_OHFI_PHOTO Photo (photosPath paths);
         (db1, pf0) = createFilter db0 photos ''Folders''
            (VITA_DIR_TYPE_MASK_PHOTO OR VITA_DIR_TYPE_MASK_ROOT OR VITA_DIR_TYPE_MASK_REGULAR);
         (db2, pf1) = createFilter db1 photos ''All''
            (VITA_DIR_TYPE_MASK_PHOTO OR VITA_DIR_TYPE_MASK_ROOT OR VITA_DIR_TYPE_MASK_ALL);
         videos = master VITA_OHFI_VIDEO Video (videosPath paths);
         (db3, vf0) = createFilter db2 videos ''Folders''
            (VITA_DIR_TYPE_MASK_VIDEO OR VITA_DIR_TYPE_MASK_ROOT OR VITA_DIR_TYPE_MASK_REGULAR);
         (db4, vf1) = createFilter db3 videos ''All''
            (VITA_DIR_TYPE_MASK_VIDEO OR VITA_DIR_TYPE_MASK_ROOT OR VITA_DIR_TYPE_MASK_ALL);
         music = master VITA_OHFI_MUSIC Music (musicPath paths);
         (db5, mf0) = createFilter db4 music ''All''
            (VITA_DIR_TYPE_MASK_MUSIC OR VITA_DIR_TYPE_MASK_ROOT OR VITA_DIR_TYPE_MASK_SONGS);
         app = (\<lambda>k dt sub. master k dt (path_join (path_join (appsPath paths) sub) uuid))
     in db5\<lparr>db_chains :=
          [[photos\<lparr>filters := [pf0, pf1]\<rparr>],
           [videos\<lparr>filters := [vf0, vf1]\<rparr>],
           [music\<lparr>filters := [mf0]\<rparr>],
           [master VITA_OHFI_PACKAGE Game (packagesPath paths)],
           [app VITA_OHFI_VITAAPP App ''APP''],
           [app VITA_OHFI_PSPAPP App ''PGAME''],
           [app VITA_OHFI_PSPSAVE SaveData ''PSAVEDATA''],
           [app VITA_OHFI_PSXAPP App ''PSGAME''],
           [app VITA_OHFI_PSMAPP App ''PSM''],
           [app VITA_OHFI_BACKUP App ''SYSTEM'']]\<rparr>)"

section \<open>Walking a directory\<close>

definition add_size :: "u64 \<Rightarrow> cma_object \<Rightarrow> cma_object" where
  "add_size n obj = obj\<lparr>meta := (meta obj)\<lparr>md_size := md_size (meta obj) + n\<rparr>\<rparr>"

text \<open>
  \<open>None\<close>: a path that does not fit \<open>fullpath\<close>, or directories nested deeper than the fuel
  (a symbolic link to a parent directory makes the C function recurse until then). When
  \<open>stat\<close> fails the loop continues without cutting \<open>fullpath\<close> back to the directory.
\<close>

function (sequential) addEntriesForDirectory ::
  "nat \<Rightarrow> (string \<Rightarrow> string list option) \<Rightarrow> (string \<Rightarrow> (bool \<times> u64) option) \<Rightarrow> cma_db \<Rightarrow> objref \<Rightarrow>
     cma_db option"
and add_entries_loop ::
  "nat \<Rightarrow> (string \<Rightarrow> string list option) \<Rightarrow> (string \<Rightarrow> (bool \<times> u64) option) \<Rightarrow> objref \<Rightarrow> nat \<Rightarrow>
     string list \<Rightarrow> string \<Rightarrow> cma_db \<Rightarrow> u64 \<Rightarrow> (cma_db \<times> u64) option" where
  "addEntriesForDirectory 0 dir st db lst = None"
| "addEntriesForDirectory (Suc fuel) dir st db lst =
     (let fullpath = o_path (deref db lst) @ ''/'' in
      if PATH_MAX \<le> length fullpath then None
      else case dir fullpath of
             None \<Rightarrow> Some db
           | Some names \<Rightarrow> do {
               (db', totalSize) \<leftarrow>
                 add_entries_loop fuel dir st lst (length fullpath) names fullpath db 0;
               Some (update_obj lst (add_size totalSize) db') })"
| "add_entries_loop fuel dir st lst pos [] fullpath db total_size = Some (db, total_size)"
| "add_entries_loop fuel dir st lst pos (e # es) fullpath db total_size =
     (if take 1 e = ''.'' then add_entries_loop fuel dir st lst pos es fullpath db total_size
      else
        (let fp = fullpath @ e in
         if PATH_MAX \<le> length fp then None
         else case st fp of
                None \<Rightarrow> add_entries_loop fuel dir st lst pos es fp db total_size
              | Some (isdir, sz) \<Rightarrow>
                  (let (db1, current) = addToDatabase db lst e sz (if isdir then Folder else File)
                   in do {
                     db2 \<leftarrow> (if dataType (meta (deref db1 current)) AND Folder \<noteq> 0
                            then addEntriesForDirectory fuel dir st db1 current else Some db1);
                     add_entries_loop fuel dir st lst pos es (take pos fp) db2
                       (total_size + md_size (meta (deref db2 current))) })))"
  by pat_completeness auto

termination
  by (relation "measures [\<lambda>x. case x of Inl (n, _) \<Rightarrow> n | Inr (n, _) \<Rightarrow> n,
       \<lambda>x. case x of Inl _ \<Rightarrow> 0 | Inr (_, _, _, _, _, es, _) \<Rightarrow> length es]") auto

fun add_all_masters ::
  "nat \<Rightarrow> (string \<Rightarrow> string list option) \<Rightarrow> (string \<Rightarrow> (bool \<times> u64) option) \<Rightarrow> nat list \<Rightarrow> cma_db \<Rightarrow>
     cma_db option" where
  "add_all_masters fuel dir st [] db = Some db"
| "add_all_masters fuel dir st (i # is) db = do {
     db' \<leftarrow> addEntriesForDirectory fuel dir st db (i, 0);
     add_all_masters fuel dir st is db' }"

definition createDatabase ::
  "nat \<Rightarrow> (string \<Rightarrow> string list option) \<Rightarrow> (string \<Rightarrow> (bool \<times> u64) option) \<Rightarrow> cma_paths \<Rightarrow> string \<Rightarrow>
     cma_db option" where
  "createDatabase fuel dir st paths uuid =
     add_all_masters fuel dir st [0..<10] (initDatabase paths uuid)"

section \<open>The walk keeps the invariant\<close>

lemma initDatabase_ok: "db_ok (initDatabase paths uuid)"
proof -
  have "i = 0 \<or> i = 1 \<or> i = 2 \<or> i = 3 \<or> i = 4 \<or> i = 5 \<or> i = 6 \<or> i = 7 \<or> i = 8 \<or> i = 9"
    if "i < 10" for i :: nat using that by auto
  note ten = this
  let ?db = "initDatabase paths uuid"
  have n: "length (db_chains ?db) = 10" "OHFI_OFFSET \<le> ohfi_count ?db"
    by (simp_all add: initDatabase_def createFilter_def Let_def)
  have inv: "chain_inv (master_ids ! i) (ohfi_count ?db) (db_chains ?db ! i)" if "i < 10" for i
    using ten [OF that]
    by (elim disjE; simp add: initDatabase_def createFilter_def Let_def master_def
        metadata_zero_def chain_inv_def master_ids_def ohfi_defs obj_ids_def)
  have "map chain_ids (db_chains ?db) =
      [[2, 1000, 1001], [3, 1002, 1003], [1, 1004], [5], [10], [13], [14], [16], [18], [6]]"
    by (simp add: initDatabase_def createFilter_def Let_def master_def metadata_zero_def ohfi_defs obj_ids_def)
  then have "chain_ids (db_chains ?db ! i) =
      [[2, 1000, 1001], [3, 1002, 1003], [1, 1004], [5], [10], [13], [14], [16], [18], [6]] ! i"
    if "i < 10" for i using that n(1) by (metis nth_map)
  then have dis: "set (chain_ids (db_chains ?db ! i)) \<inter> set (chain_ids (db_chains ?db ! j)) = {}"
    if "i < 10" "j < 10" "i \<noteq> j" for i j
    using ten [OF that(1)] ten [OF that(2)] that by (elim disjE; simp)
  show ?thesis unfolding db_ok_def using n inv dis by blast
qed

text \<open>An update of an object that leaves its ids and links alone.\<close>

lemma chain_ok_map:
  "(\<And>x. o_ohfi (f x) = o_ohfi x \<and> o_parent (f x) = o_parent x) \<Longrightarrow> chain_ok (map f c) = chain_ok c"
  by (induction c) (simp_all add: image_image)

lemma same_links_chain_inv:
  assumes "length c' = length c"
    and "\<And>j. j < length c \<Longrightarrow> o_ohfi (c' ! j) = o_ohfi (c ! j) \<and> o_parent (c' ! j) = o_parent (c ! j) \<and>
      filters (c' ! j) = filters (c ! j)"
    and "chain_inv m n c"
  shows "chain_inv m n c' \<and> chain_ids c' = chain_ids c"
proof -
  have eqs: "map o_ohfi c' = map o_ohfi c" "map o_parent c' = map o_parent c" "map filters c' = map filters c"
    using assms(1,2) by (auto intro!: nth_equalityI)
  have ids_eq: "ids c' = ids c" using eqs(1) by (metis list.set_map)
  have "map obj_ids c' = map obj_ids c"
    using assms(1,2) by (auto intro!: nth_equalityI simp: obj_ids_def)
  then have ci: "chain_ids c' = chain_ids c" by (simp add: chain_ids_def)
  have ok: "chain_ok c' = chain_ok c"
    using eqs(1,2)
  proof (induction c' arbitrary: c)
    case Nil
    then show ?case by simp
  next
    case (Cons x xs)
    then obtain y ys where c: "c = y # ys" by (cases c) auto
    then have m: "map o_ohfi xs = map o_ohfi ys" "map o_parent xs = map o_parent ys" using Cons.prems by auto
    then have "ids xs = ids ys" by (metis list.set_map)
    then show ?case using Cons.IH [OF m] Cons.prems c by simp
  qed
  have ne: "c \<noteq> []" "c' \<noteq> []" using assms(1,3) by (auto simp: chain_inv_def)
  then have hd: "o_ohfi (hd c') = o_ohfi (hd c)" "o_parent (hd c') = o_parent (hd c)"
    "filters (hd c') = filters (hd c)"
    using assms(2) [of 0] by (simp_all add: hd_conv_nth)
  have "\<forall>x \<in> set (tl c'). filters x = [] \<and> OHFI_OFFSET \<le> o_ohfi x \<and> o_parent x \<in> ids c'"
  proof
    fix x
    assume "x \<in> set (tl c')"
    then obtain j where "j < length (tl c')" "x = tl c' ! j" by (metis in_set_conv_nth)
    then have j: "Suc j < length c'" "x = c' ! Suc j" by (simp_all add: nth_tl)
    have "j < length (tl c)" using j(1) assms(1) by simp
    then have "tl c ! j \<in> set (tl c)" "tl c ! j = c ! Suc j" by (rule nth_mem, rule nth_tl)
    then show "filters x = [] \<and> OHFI_OFFSET \<le> o_ohfi x \<and> o_parent x \<in> ids c'"
      using assms(2) [of "Suc j"] j assms(1,3) ids_eq by (auto simp: chain_inv_def)
  qed
  then show ?thesis using assms(3) ne hd ok ci by (simp add: chain_inv_def)
qed

lemma update_obj_ok:
  assumes "db_ok db" and "valid_ref db r"
    and "\<And>x. o_ohfi (f x) = o_ohfi x \<and> o_parent (f x) = o_parent x \<and> filters (f x) = filters x"
  shows "db_ok (update_obj r f db)"
proof -
  let ?c = "db_chains db ! fst r" and ?i = "fst r"
  let ?c' = "?c[snd r := f (?c ! snd r)]"
  have i: "?i < length (db_chains db)" using assms(2) by (simp add: valid_ref_def)
  have "chain_inv (master_ids ! ?i) (ohfi_count db) ?c' \<and> chain_ids ?c' = chain_ids ?c"
    by (rule same_links_chain_inv [OF _ _ db_okD(1) [OF assms(1) i]])
      (use assms(2) in \<open>simp_all add: valid_ref_def nth_list_update assms(3)\<close>)
  then have "db_ok ((update_chain ?i (\<lambda>_. ?c') db)\<lparr>ohfi_count := ohfi_count db\<rparr>)"
    by (intro db_ok_update [OF assms(1) i]) auto
  then show ?thesis by (simp add: update_obj_def update_chain_def)
qed

lemma valid_ref_update_obj [simp]: "valid_ref (update_obj r f db) r' = valid_ref db r'"
  by (cases "fst r' = fst r") (auto simp: valid_ref_def update_obj_def nth_list_update)

lemma add_size_simps [simp]:
  "o_ohfi (add_size n x) = o_ohfi x" "o_parent (add_size n x) = o_parent x"
  "filters (add_size n x) = filters x"
  by (simp_all add: add_size_def)

lemma walk_ok:
  "db_ok db \<Longrightarrow> valid_ref db lst \<Longrightarrow> addEntriesForDirectory fuel dir st db lst = Some db' \<Longrightarrow>
     db_ok db' \<and> (\<forall>r. valid_ref db r \<longrightarrow> valid_ref db' r)"
  "db_ok db \<Longrightarrow> valid_ref db lst \<Longrightarrow>
     add_entries_loop fuel dir st lst pos es fullpath db total_size = Some (db', total') \<Longrightarrow>
     db_ok db' \<and> (\<forall>r. valid_ref db r \<longrightarrow> valid_ref db' r)"
proof (induction fuel dir st db lst and fuel dir st lst pos es fullpath db total_size
    arbitrary: db' and db' total'
    rule: addEntriesForDirectory_add_entries_loop.induct)
  case (1 dir st db lst)
  then show ?case by simp
next
  case (2 fuel dir st db lst)
  let ?fp = "o_path (deref db lst) @ ''/''"
  show ?case
  proof (cases "dir ?fp")
    case None
    then show ?thesis using 2 by (auto simp: Let_def split: if_splits)
  next
    case (Some names)
    then obtain db1 sz where l: "add_entries_loop fuel dir st lst (length ?fp) names ?fp db 0 = Some (db1, sz)"
      and db': "db' = update_obj lst (add_size sz) db1" and pm: "\<not> PATH_MAX \<le> length ?fp"
      using 2(4) by (auto simp: Let_def Option.bind_eq_Some_conv split: if_splits)
    from 2(1) [OF refl pm Some 2(2,3) l] have "db_ok db1 \<and> (\<forall>r. valid_ref db r \<longrightarrow> valid_ref db1 r)" .
    then have ok1: "db_ok db1" and v1: "\<And>r. valid_ref db r \<Longrightarrow> valid_ref db1 r" by blast+
    have "db_ok (update_obj lst (add_size sz) db1)"
      by (rule update_obj_ok [OF ok1 v1 [OF 2(3)]]) simp
    then show ?thesis using db' v1 by simp
  qed
next
  case (3 fuel dir st lst pos fullpath db total_size)
  then show ?case by simp
next
  case (4 fuel dir st lst pos e es fullpath db total_size)
  note IHskip = 4(1) and IHstat = 4(2) and IHdir = 4(3) and IHrest = 4(4)
  show ?case
  proof (cases "take 1 e = ''.''")
    case True
    then show ?thesis using IHskip [OF True 4(5,6)] 4(7) by simp
  next
    case vis: False
    have pm: "\<not> PATH_MAX \<le> length (fullpath @ e)" using 4(7) vis by (auto simp: Let_def split: if_splits)
    show ?thesis
    proof (cases "st (fullpath @ e)")
      case None
      then show ?thesis using IHstat [OF vis refl pm None 4(5,6)] 4(7) vis pm by (simp add: Let_def)
    next
      case (Some a)
      obtain isdir sz where a: "a = (isdir, sz)" by (cases a)
      obtain db1 cur where add: "addToDatabase db lst e sz (if isdir then Folder else File) = (db1, cur)"
        by (cases "addToDatabase db lst e sz (if isdir then Folder else File)")
      note ok1 = addToDatabase_ok [OF 4(5,6) add]
      from 4(7) vis pm Some a add obtain db2 where
        d2: "(if dataType (meta (deref db1 cur)) AND Folder \<noteq> 0
              then addEntriesForDirectory fuel dir st db1 cur else Some db1) = Some db2"
        and rest: "add_entries_loop fuel dir st lst pos es (take pos (fullpath @ e)) db2
           (total_size + md_size (meta (deref db2 cur))) = Some (db', total')"
        by (auto simp: Let_def Option.bind_eq_Some_conv split: if_splits)
      have "db_ok db2 \<and> (\<forall>r. valid_ref db1 r \<longrightarrow> valid_ref db2 r)"
      proof (cases "dataType (meta (deref db1 cur)) AND Folder \<noteq> 0")
        case True
        then show ?thesis
          using IHdir [OF vis refl pm Some a [symmetric] refl add [symmetric] True ok1(1,2)] d2 by simp
      next
        case False
        then show ?thesis using d2 ok1 by simp
      qed
      then have ok2: "db_ok db2" and v2: "\<And>r. valid_ref db r \<Longrightarrow> valid_ref db2 r" using ok1(4) by blast+
      from IHrest [OF vis refl pm Some a [symmetric] refl add [symmetric] d2 ok2 v2 [OF 4(6)] rest]
      show ?thesis using v2 by blast
    qed
  qed
qed

lemma add_all_masters_ok:
  "db_ok db \<Longrightarrow> \<forall>i \<in> set is. i < 10 \<Longrightarrow> add_all_masters fuel dir st is db = Some db' \<Longrightarrow> db_ok db'"
proof (induction "is" arbitrary: db)
  case Nil
  then show ?case by simp
next
  case (Cons i "is")
  then obtain db1 where d: "addEntriesForDirectory fuel dir st db (i, 0) = Some db1"
    and r: "add_all_masters fuel dir st is db1 = Some db'" by (auto simp: Option.bind_eq_Some_conv)
  have "chain_inv (master_ids ! i) (ohfi_count db) (db_chains db ! i)" "length (db_chains db) = 10"
    using Cons.prems(1,2) by (simp_all add: db_ok_def)
  then have "valid_ref db (i, 0)" using Cons.prems(2) by (simp add: valid_ref_def chain_inv_def)
  from walk_ok(1) [OF Cons.prems(1) this d] Cons.IH [OF _ _ r] Cons.prems(2) show ?case by simp
qed

section \<open>The walk comes to an end\<close>

text \<open>The objects that are there keep all but their sizes.\<close>

lemma deref_add_size:
  assumes "\<And>n x. f (add_size n x) = f x" and "valid_ref db lst"
  shows "f (deref (update_obj lst (add_size n) db) r) = f (deref db r)"
  using assms by (cases r) (auto simp: deref_def update_obj_def update_chain_def valid_ref_def nth_list_update)

text \<open>What each new object and each new size of a directory keeps, the walk keeps.\<close>

lemma walk_inv:
  assumes add: "\<And>db r name sz ty. I db \<Longrightarrow> db_ok db \<Longrightarrow> valid_ref db r \<Longrightarrow> ty \<in> {File, Folder} \<Longrightarrow>
      I (fst (addToDatabase db r name sz ty))"
    and size: "\<And>db r n. I db \<Longrightarrow> db_ok db \<Longrightarrow> valid_ref db r \<Longrightarrow> I (update_obj r (add_size n) db)"
  shows "db_ok db \<Longrightarrow> valid_ref db lst \<Longrightarrow> I db \<Longrightarrow> addEntriesForDirectory fuel dir st db lst = Some db' \<Longrightarrow> I db'"
    "db_ok db \<Longrightarrow> valid_ref db lst \<Longrightarrow> I db \<Longrightarrow>
     add_entries_loop fuel dir st lst pos es fullpath db total_size = Some (db', total') \<Longrightarrow> I db'"
proof (induction fuel dir st db lst and fuel dir st lst pos es fullpath db total_size
    arbitrary: db' and db' total'
    rule: addEntriesForDirectory_add_entries_loop.induct)
  case (2 fuel dir st db lst)
  let ?fp = "o_path (deref db lst) @ ''/''"
  show ?case
  proof (cases "dir ?fp")
    case None
    then have "db' = db" using 2(5) by (simp add: Let_def split: if_splits)
    then show ?thesis using 2(4) by simp
  next
    case (Some names)
    then obtain db1 sz where l: "add_entries_loop fuel dir st lst (length ?fp) names ?fp db 0 = Some (db1, sz)"
      and db': "db' = update_obj lst (add_size sz) db1" and pm: "\<not> PATH_MAX \<le> length ?fp"
      using 2(5) by (auto simp: Let_def Option.bind_eq_Some_conv split: if_splits)
    have "db_ok db1" "valid_ref db1 lst" using walk_ok(2) [OF 2(2,3) l] 2(3) by blast+
    then show ?thesis using size 2(1) [OF refl pm Some 2(2-4) l] db' by blast
  qed
next
  case (4 fuel dir st lst pos e es fullpath db total_size)
  note IHskip = 4(1) and IHstat = 4(2) and IHdir = 4(3) and IHrest = 4(4)
  show ?case
  proof (cases "take 1 e = ''.''")
    case True
    then show ?thesis using IHskip [OF True 4(5-7)] 4(8) by simp
  next
    case vis: False
    have pm: "\<not> PATH_MAX \<le> length (fullpath @ e)" using 4(8) vis by (auto simp: Let_def split: if_splits)
    show ?thesis
    proof (cases "st (fullpath @ e)")
      case None
      then show ?thesis using IHstat [OF vis refl pm None 4(5-7)] 4(8) vis pm by (simp add: Let_def)
    next
      case (Some a)
      obtain isdir sz where a: "a = (isdir, sz)" by (cases a)
      obtain db1 cur where add: "addToDatabase db lst e sz (if isdir then Folder else File) = (db1, cur)"
        by (cases "addToDatabase db lst e sz (if isdir then Folder else File)")
      note ok1 = addToDatabase_ok [OF 4(5,6) add]
      from 4(8) vis pm Some a add obtain db2 where
        d2: "(if dataType (meta (deref db1 cur)) AND Folder \<noteq> 0
              then addEntriesForDirectory fuel dir st db1 cur else Some db1) = Some db2"
        and rest: "add_entries_loop fuel dir st lst pos es (take pos (fullpath @ e)) db2
           (total_size + md_size (meta (deref db2 cur))) = Some (db', total')"
        by (auto simp: Let_def Option.bind_eq_Some_conv split: if_splits)
      have I1: "I db1" using assms(1) [OF 4(7,5,6), of "if isdir then Folder else File" e sz] add by simp
      have I2: "I db2"
      proof (cases "dataType (meta (deref db1 cur)) AND Folder \<noteq> 0")
        case True
        then show ?thesis
          using IHdir [OF vis refl pm Some a [symmetric] refl add [symmetric] True ok1(1,2) I1] d2 by simp
      qed (use d2 I1 in simp)
      have "db_ok db2 \<and> (\<forall>r. valid_ref db1 r \<longrightarrow> valid_ref db2 r)"
        using walk_ok(1) [OF ok1(1,2)] ok1(1) d2 by (auto split: if_splits)
      then have ok2: "db_ok db2" and v2: "\<And>r. valid_ref db r \<Longrightarrow> valid_ref db2 r" using ok1(4) by blast+
      from IHrest [OF vis refl pm Some a [symmetric] refl add [symmetric] d2 ok2 v2 [OF 4(6)] I2 rest]
      show ?thesis .
    qed
  qed
qed simp_all

lemma walk_keeps:
  assumes f: "\<And>n x. f (add_size n x) = f x"
  shows "db_ok db \<Longrightarrow> valid_ref db lst \<Longrightarrow> addEntriesForDirectory fuel dir st db lst = Some db' \<Longrightarrow>
     \<forall>r. valid_ref db r \<longrightarrow> f (deref db' r) = f (deref db r)"
  "db_ok db \<Longrightarrow> valid_ref db lst \<Longrightarrow>
     add_entries_loop fuel dir st lst pos es fullpath db total_size = Some (db', total') \<Longrightarrow>
     \<forall>r. valid_ref db r \<longrightarrow> f (deref db' r) = f (deref db r)"
proof -
  let ?I = "\<lambda>d. \<forall>r. valid_ref db r \<longrightarrow> valid_ref d r \<and> f (deref d r) = f (deref db r)"
  have add: "?I (fst (addToDatabase d r name sz ty))" if "?I d" "db_ok d" "valid_ref d r" for d r name sz ty
    using that addToDatabase_ok(4) [OF that(2,3)] by (cases "addToDatabase d r name sz ty") simp
  have size: "?I (update_obj r (add_size n) d)" if "?I d" "valid_ref d r" for d r n
    using that by (simp add: deref_add_size [of f, OF f])
  note inv = walk_inv [of ?I, OF add size]
  show "db_ok db \<Longrightarrow> valid_ref db lst \<Longrightarrow> addEntriesForDirectory fuel dir st db lst = Some db' \<Longrightarrow>
     \<forall>r. valid_ref db r \<longrightarrow> f (deref db' r) = f (deref db r)" using inv(1) [of db lst] by blast
  show "db_ok db \<Longrightarrow> valid_ref db lst \<Longrightarrow>
     add_entries_loop fuel dir st lst pos es fullpath db total_size = Some (db', total') \<Longrightarrow>
     \<forall>r. valid_ref db r \<longrightarrow> f (deref db' r) = f (deref db r)" using inv(2) [of db lst] by blast
qed

lemma o_path_add_size [simp]: "o_path (add_size n x) = o_path x"
  by (simp add: add_size_def)

lemmas walk_paths = walk_keeps [of o_path, OF o_path_add_size]

text \<open>More fuel does not change a walk that has ended.\<close>

lemma walk_more_fuel:
  "addEntriesForDirectory fuel dir st db lst = Some db' \<Longrightarrow> fuel \<le> fuel' \<Longrightarrow>
     addEntriesForDirectory fuel' dir st db lst = Some db'"
  "add_entries_loop fuel dir st lst pos es fullpath db total_size = Some r \<Longrightarrow> fuel \<le> fuel' \<Longrightarrow>
     add_entries_loop fuel' dir st lst pos es fullpath db total_size = Some r"
proof (induction fuel dir st db lst and fuel dir st lst pos es fullpath db total_size
    arbitrary: fuel' db' and fuel' r
    rule: addEntriesForDirectory_add_entries_loop.induct)
  case (2 fuel dir st db lst)
  let ?fp = "o_path (deref db lst) @ ''/''"
  obtain n where n: "fuel' = Suc n" "fuel \<le> n" using 2(3) by (cases fuel') auto
  have pm: "\<not> PATH_MAX \<le> length ?fp" using 2(2) by (simp add: Let_def split: if_splits)
  show ?case
  proof (cases "dir ?fp")
    case None
    then show ?thesis using 2(2) pm n by (simp add: Let_def)
  next
    case (Some names)
    then obtain db1 sz where l: "add_entries_loop fuel dir st lst (length ?fp) names ?fp db 0 = Some (db1, sz)"
      and db': "db' = update_obj lst (add_size sz) db1"
      using 2(2) pm by (auto simp: Let_def Option.bind_eq_Some_conv)
    from 2(1) [OF refl pm Some l n(2)] show ?thesis using Some pm n(1) db' by (simp add: Let_def)
  qed
next
  case (4 fuel dir st lst pos e es fullpath db total_size)
  note IH = 4(1-4)
  show ?case
  proof (cases "take 1 e = ''.''")
    case True
    have "add_entries_loop fuel dir st lst pos es fullpath db total_size = Some r" using 4(5) True by simp
    from IH(1) [OF True this 4(6)] True show ?thesis by simp
  next
    case vis: False
    have pm: "\<not> PATH_MAX \<le> length (fullpath @ e)" using 4(5) vis by (auto simp: Let_def split: if_splits)
    show ?thesis
    proof (cases "st (fullpath @ e)")
      case None
      then have "add_entries_loop fuel dir st lst pos es (fullpath @ e) db total_size = Some r"
        using 4(5) vis pm by (simp add: Let_def)
      from IH(2) [OF vis refl pm None this 4(6)] show ?thesis using vis pm None by (simp add: Let_def)
    next
      case (Some a)
      obtain isdir sz where a: "a = (isdir, sz)" by (cases a)
      obtain db1 cur where add: "addToDatabase db lst e sz (if isdir then Folder else File) = (db1, cur)"
        by (cases "addToDatabase db lst e sz (if isdir then Folder else File)")
      from 4(5) vis pm Some a add obtain db2 where
        d2: "(if dataType (meta (deref db1 cur)) AND Folder \<noteq> 0
              then addEntriesForDirectory fuel dir st db1 cur else Some db1) = Some db2"
        and rest: "add_entries_loop fuel dir st lst pos es (take pos (fullpath @ e)) db2
           (total_size + md_size (meta (deref db2 cur))) = Some r"
        by (auto simp: Let_def Option.bind_eq_Some_conv split: if_splits)
      have "(if dataType (meta (deref db1 cur)) AND Folder \<noteq> 0
              then addEntriesForDirectory fuel' dir st db1 cur else Some db1) = Some db2"
        using IH(3) [OF vis refl pm Some a [symmetric] refl add [symmetric] _ _ 4(6)] d2
        by (cases "dataType (meta (deref db1 cur)) AND Folder \<noteq> 0") simp_all
      moreover have "add_entries_loop fuel' dir st lst pos es (take pos (fullpath @ e)) db2
           (total_size + md_size (meta (deref db2 cur))) = Some r"
        using IH(4) [OF vis refl pm Some a [symmetric] refl add [symmetric] d2 rest 4(6)] .
      ultimately show ?thesis using vis pm Some a add by (simp add: Let_def)
    qed
  qed
qed simp_all

text \<open>
  The paths that a directory with the path \<open>p\<close>, which ends with a slash, makes of its names fit into
  the buffer, also when a name stays in it because \<open>stat\<close> fails; each leaves room for a slash. A tree is
  finite when the directories have ranks that decrease.
\<close>

fun paths_fit :: "(string \<Rightarrow> (bool \<times> u64) option) \<Rightarrow> string \<Rightarrow> string \<Rightarrow> string list \<Rightarrow> bool" where
  "paths_fit st p fullpath [] = True"
| "paths_fit st p fullpath (e # es) =
     (if take 1 e = ''.'' then paths_fit st p fullpath es
      else length (fullpath @ e) + 1 < PATH_MAX \<and>
        paths_fit st p (if st (fullpath @ e) = None then fullpath @ e else p) es)"

definition finite_tree ::
  "(string \<Rightarrow> string list option) \<Rightarrow> (string \<Rightarrow> (bool \<times> u64) option) \<Rightarrow> (string \<Rightarrow> nat) \<Rightarrow> bool" where
  "finite_tree dir st rank \<longleftrightarrow>
     (\<forall>p names. dir p = Some names \<longrightarrow>
        paths_fit st p p names \<and> (\<forall>e \<in> set names. take 1 e \<noteq> ''.'' \<longrightarrow> rank (p @ e @ ''/'') < rank p))"

lemma walk_ends:
  "finite_tree dir st rank \<Longrightarrow> db_ok db \<Longrightarrow> valid_ref db lst \<Longrightarrow>
     length (o_path (deref db lst)) + 1 < PATH_MAX \<Longrightarrow> rank (o_path (deref db lst) @ ''/'') < fuel \<Longrightarrow>
     addEntriesForDirectory fuel dir st db lst \<noteq> None"
  "finite_tree dir st rank \<Longrightarrow> db_ok db \<Longrightarrow> valid_ref db lst \<Longrightarrow> p = o_path (deref db lst) @ ''/'' \<Longrightarrow> pos = length p \<Longrightarrow>
     fullpath = p @ q \<Longrightarrow> paths_fit st p fullpath es \<Longrightarrow>
     \<forall>e \<in> set es. take 1 e \<noteq> ''.'' \<longrightarrow> rank (p @ e @ ''/'') < fuel \<Longrightarrow>
     add_entries_loop fuel dir st lst pos es fullpath db total_size \<noteq> None"
proof (induction fuel dir st db lst and fuel dir st lst pos es fullpath db total_size
    arbitrary: and p q
    rule: addEntriesForDirectory_add_entries_loop.induct)
  case (2 fuel dir st db lst)
  let ?fp = "o_path (deref db lst) @ ''/''"
  have pm: "\<not> PATH_MAX \<le> length ?fp" using 2(5) by simp
  show ?case
  proof (cases "dir ?fp")
    case None
    then show ?thesis using pm by (simp add: Let_def)
  next
    case (Some names)
    have f: "paths_fit st ?fp ?fp names" "\<forall>e \<in> set names. take 1 e \<noteq> ''.'' \<longrightarrow> rank (?fp @ e @ ''/'') < rank ?fp"
      using 2(2) Some unfolding finite_tree_def by blast+
    then have "\<forall>e \<in> set names. take 1 e \<noteq> ''.'' \<longrightarrow> rank (?fp @ e @ ''/'') < fuel"
      using 2(6) by (meson less_Suc_eq_le order_less_le_trans)
    with f(1) have "paths_fit st ?fp ?fp names" "\<forall>e \<in> set names. take 1 e \<noteq> ''.'' \<longrightarrow> rank (?fp @ e @ ''/'') < fuel" by blast+
    then have "add_entries_loop fuel dir st lst (length ?fp) names ?fp db 0 \<noteq> None"
      using 2(1) [OF refl pm Some 2(2-4) refl refl, of "[]"] by simp
    then show ?thesis using Some pm by (auto simp: Let_def)
  qed
next
  case (4 fuel dir st lst pos e es fullpath db total_size)
  note IH = 4(1-4) and tree = 4(5) and ok = 4(6,7) and p = 4(8,9,10) and fit = 4(11) and rank = 4(12)
  show ?case
  proof (cases "take 1 e = ''.''")
    case True
    then show ?thesis using IH(1) [OF True tree ok p] fit rank by simp
  next
    case vis: False
    have pm: "\<not> PATH_MAX \<le> length (fullpath @ e)" using fit vis by simp
    show ?thesis
    proof (cases "st (fullpath @ e)")
      case None
      then show ?thesis
        using IH(2) [OF vis refl pm None tree ok p(1,2), of "q @ e"] fit rank vis pm p(3) by (simp add: Let_def)
    next
      case (Some a)
      obtain isdir sz where a: "a = (isdir, sz)" by (cases a)
      obtain db1 cur where add: "addToDatabase db lst e sz (if isdir then Folder else File) = (db1, cur)"
        by (cases "addToDatabase db lst e sz (if isdir then Folder else File)")
      note ok1 = addToDatabase_ok [OF ok add]
      have cur: "o_path (deref db1 cur) @ ''/'' = p @ e @ ''/''"
        using p(1) by (simp add: ok1(3) new_object_def path_join_def Let_def)
      have "length (o_path (deref db1 cur)) + 1 < PATH_MAX"
        using fit vis p(1,3) by (simp add: ok1(3) new_object_def path_join_def Let_def)
      moreover have "rank (o_path (deref db1 cur) @ ''/'') < fuel" using rank vis by (simp only: cur) simp
      ultimately have "dataType (meta (deref db1 cur)) AND Folder \<noteq> 0 \<Longrightarrow>
          addEntriesForDirectory fuel dir st db1 cur \<noteq> None"
        using IH(3) [OF vis refl pm Some a [symmetric] refl add [symmetric] _ tree ok1(1,2)] by blast
      then have "(if dataType (meta (deref db1 cur)) AND Folder \<noteq> 0
              then addEntriesForDirectory fuel dir st db1 cur else Some db1) \<noteq> None" by (simp del: not_None_eq)
      then obtain db2 where d2: "(if dataType (meta (deref db1 cur)) AND Folder \<noteq> 0
              then addEntriesForDirectory fuel dir st db1 cur else Some db1) = Some db2" by blast
      have "db_ok db2 \<and> (\<forall>r. valid_ref db1 r \<longrightarrow> valid_ref db2 r)"
        using walk_ok(1) [OF ok1(1,2)] ok1(1) d2 by (auto split: if_splits)
      then have ok2: "db_ok db2" "valid_ref db2 lst" using ok1(4) [OF ok(2)] by blast+
      have path2: "o_path (deref db2 lst) = o_path (deref db lst)"
        using walk_paths(1) [OF ok1(1,2), of fuel dir st db2] ok1(4) [OF ok(2)] d2
        by (cases lst, cases "dataType (meta (deref db1 cur)) AND Folder \<noteq> 0") simp_all
      have "add_entries_loop fuel dir st lst pos es (take pos (fullpath @ e)) db2
           (total_size + md_size (meta (deref db2 cur))) \<noteq> None"
        by (rule IH(4) [OF vis refl pm Some a [symmetric] refl add [symmetric] d2 tree, of p "[]"])
          (use ok2 path2 p fit rank vis Some in auto)
      then show ?thesis using vis pm Some a add d2 by (simp add: Let_def)
    qed
  qed
qed simp_all

text \<open>The paths of the ten masters, in the order of their lists.\<close>

definition master_paths :: "cma_paths \<Rightarrow> string \<Rightarrow> string list" where
  "master_paths paths uuid =
     [photosPath paths, videosPath paths, musicPath paths, packagesPath paths] @
     map (\<lambda>sub. path_join (path_join (appsPath paths) sub) uuid)
       [''APP'', ''PGAME'', ''PSAVEDATA'', ''PSGAME'', ''PSM'', ''SYSTEM'']"

lemma initDatabase_paths:
  "i < 10 \<Longrightarrow> o_path (deref (initDatabase paths uuid) (i, 0)) = master_paths paths uuid ! i"
proof -
  assume "i < 10"
  moreover have "map (\<lambda>c. o_path (c ! 0)) (db_chains (initDatabase paths uuid)) = master_paths paths uuid"
    "length (db_chains (initDatabase paths uuid)) = 10"
    by (simp_all add: initDatabase_def createFilter_def Let_def master_def master_paths_def)
  ultimately show ?thesis by (metis (no_types, lifting) deref_def fst_conv nth_map snd_conv)
qed

lemma master_valid: "db_ok db \<Longrightarrow> i < 10 \<Longrightarrow> valid_ref db (i, 0)"
proof -
  assume "db_ok db" "i < 10"
  then have "chain_inv (master_ids ! i) (ohfi_count db) (db_chains db ! i)" "length (db_chains db) = 10"
    by (simp_all add: db_ok_def)
  then show ?thesis using \<open>i < 10\<close> by (simp add: valid_ref_def chain_inv_def)
qed

lemma all_masters_end:
  assumes "finite_tree dir st rank"
  shows "db_ok db \<Longrightarrow> \<forall>i \<in> set is. i < 10 \<Longrightarrow>
     \<forall>i < 10. length (o_path (deref db (i, 0))) + 1 < PATH_MAX \<and> rank (o_path (deref db (i, 0)) @ ''/'') < fuel \<Longrightarrow>
     add_all_masters fuel dir st is db \<noteq> None"
proof (induction "is" arbitrary: db)
  case (Cons i "is")
  then have i: "i < 10" and v: "valid_ref db (i, 0)" by (simp_all add: master_valid)
  from walk_ends(1) [OF assms Cons.prems(1) v] Cons.prems(3) i
  obtain db1 where d: "addEntriesForDirectory fuel dir st db (i, 0) = Some db1" by blast
  have "\<forall>j < 10. o_path (deref db1 (j, 0)) = o_path (deref db (j, 0))"
    using walk_paths(1) [OF Cons.prems(1) v d] master_valid [OF Cons.prems(1)] by blast
  then have "add_all_masters fuel dir st is db1 \<noteq> None"
    using Cons.prems walk_ok(1) [OF Cons.prems(1) v d] by (intro Cons.IH) auto
  then show ?case by (simp add: d)
qed simp

lemma all_masters_more_fuel:
  "add_all_masters fuel dir st is db = Some db' \<Longrightarrow> fuel \<le> fuel' \<Longrightarrow> add_all_masters fuel' dir st is db = Some db'"
  by (induction "is" arbitrary: db) (auto simp: Option.bind_eq_Some_conv dest: walk_more_fuel(1))

text \<open>An invariant of the first database, of new objects and of sizes is one of every database.\<close>

lemma createDatabase_inv:
  assumes "I (initDatabase paths uuid)"
    and add: "\<And>db r name sz ty. I db \<Longrightarrow> db_ok db \<Longrightarrow> valid_ref db r \<Longrightarrow> ty \<in> {File, Folder} \<Longrightarrow>
      I (fst (addToDatabase db r name sz ty))"
    and size: "\<And>db r n. I db \<Longrightarrow> db_ok db \<Longrightarrow> valid_ref db r \<Longrightarrow> I (update_obj r (add_size n) db)"
    and "createDatabase fuel dir st paths uuid = Some db"
  shows "I db"
proof -
  have "db_ok d \<Longrightarrow> I d \<Longrightarrow> \<forall>i \<in> set is. i < 10 \<Longrightarrow> add_all_masters fuel dir st is d = Some db \<Longrightarrow> I db" for "is" d
  proof (induction "is" arbitrary: d)
    case (Cons i "is")
    then obtain d1 where d: "addEntriesForDirectory fuel dir st d (i, 0) = Some d1"
      and r: "add_all_masters fuel dir st is d1 = Some db" by (auto simp: Option.bind_eq_Some_conv)
    have v: "valid_ref d (i, 0)" using Cons.prems(1,3) by (simp add: master_valid)
    have "I d1" by (rule walk_inv(1) [of I, OF add size Cons.prems(1) v Cons.prems(2) d])
    moreover have "db_ok d1" using walk_ok(1) [OF Cons.prems(1) v d] by blast
    ultimately show ?case using Cons.IH r Cons.prems(3) by simp
  qed simp
  then show ?thesis
    using assms(1,4) initDatabase_ok unfolding createDatabase_def by (metis atLeastLessThan_iff set_upt)
qed

section \<open>Properties\<close>

text \<open>What the walk builds, whatever is on disk, if it comes to an end.\<close>

lemma createDatabase_keeps_ok: "createDatabase fuel dir st paths uuid = Some db \<Longrightarrow> db_ok db"
  unfolding createDatabase_def by (intro add_all_masters_ok [OF initDatabase_ok]) auto

text \<open>
  Claim C28: building the database. When the directories form a finite tree (no link to a directory
  above) and their paths fit into the buffer of \<open>PATH_MAX\<close> bytes, the ten walks come to an end, with
  the same result for every fuel above the ranks of the ten directories, and the database satisfies the
  invariant: ten lists under their masters, all ids of objects and filters different and below the
  counter, every object after its parent.
\<close>

theorem createDatabase_ok:
  assumes "finite_tree dir st rank" and "\<forall>p \<in> set (master_paths paths uuid). length p + 1 < PATH_MAX"
  shows "\<exists>db. db_ok db \<and> (\<forall>fuel. (\<forall>p \<in> set (master_paths paths uuid). rank (p @ ''/'') < fuel) \<longrightarrow>
    createDatabase fuel dir st paths uuid = Some db)"
proof -
  let ?db = "initDatabase paths uuid" and ?ps = "master_paths paths uuid"
  have n: "length ?ps = 10" by (simp add: master_paths_def)
  let ?top = "Suc (Max (set (map (\<lambda>p. rank (p @ ''/'')) ?ps)))"
  have ends: "add_all_masters fuel dir st [0..<10] ?db \<noteq> None" if "\<forall>p \<in> set ?ps. rank (p @ ''/'') < fuel" for fuel
    by (rule all_masters_end [OF assms(1) initDatabase_ok])
      (use that assms(2) n in \<open>auto simp: initDatabase_paths\<close>)
  have top: "\<forall>p \<in> set ?ps. rank (p @ ''/'') < ?top" by (simp add: le_imp_less_Suc)
  then obtain db where db: "createDatabase ?top dir st paths uuid = Some db"
    using ends [of ?top] by (auto simp: createDatabase_def)
  have "createDatabase fuel dir st paths uuid = Some db" if f: "\<forall>p \<in> set ?ps. rank (p @ ''/'') < fuel" for fuel
  proof -
    obtain db2 where db2: "createDatabase fuel dir st paths uuid = Some db2"
      using ends [OF f] by (auto simp: createDatabase_def)
    have "createDatabase (max fuel ?top) dir st paths uuid = Some db2"
      "createDatabase (max fuel ?top) dir st paths uuid = Some db"
      using db2 db all_masters_more_fuel unfolding createDatabase_def by (metis max.cobounded1, metis max.cobounded2)
    then show ?thesis using db2 by simp
  qed
  then show ?thesis using createDatabase_keeps_ok [OF db] by blast
qed

definition sample_paths :: cma_paths where
  "sample_paths = \<lparr>urlPath = ''.'', photosPath = ''/p'', videosPath = ''/v'', musicPath = ''/m'',
     appsPath = ''/a'', packagesPath = ''/k''\<rparr>"

definition sample_dir :: "string \<Rightarrow> string list option" where
  "sample_dir p = (if p = ''/p/'' then Some [''.'', ''..'', ''d'', ''x.jpg'']
     else if p = ''/p/d/'' then Some [''y.jpg''] else None)"

definition sample_st :: "string \<Rightarrow> (bool \<times> u64) option" where
  "sample_st p = (if p = ''/p/d'' then Some (True, 4096) else if p = ''/p/x.jpg'' then Some (False, 10)
     else if p = ''/p/d/y.jpg'' then Some (False, 20) else None)"

definition sample_rank :: "string \<Rightarrow> nat" where
  "sample_rank p = (if p = ''/p/'' then 2 else if p = ''/p/d/'' then 1 else 0)"

lemma sample_tree: "finite_tree sample_dir sample_st sample_rank"
  unfolding finite_tree_def
proof (intro allI impI)
  fix p names
  assume "sample_dir p = Some names"
  then consider "p = ''/p/''" "names = [''.'', ''..'', ''d'', ''x.jpg'']" | "p = ''/p/d/''" "names = [''y.jpg'']"
    by (auto simp: sample_dir_def split: if_splits)
  then show "paths_fit sample_st p p names \<and>
      (\<forall>e \<in> set names. take 1 e \<noteq> ''.'' \<longrightarrow> sample_rank (p @ e @ ''/'') < sample_rank p)"
    by cases (simp_all add: sample_rank_def sample_st_def PATH_MAX_def)
qed

theorem createDatabase_ok_witness:
  "\<exists>db. db_ok db \<and> createDatabase 3 sample_dir sample_st sample_paths ''id'' = Some db"
proof -
  have "\<forall>p \<in> set (master_paths sample_paths ''id''). length p + 1 < PATH_MAX"
    "\<forall>p \<in> set (master_paths sample_paths ''id''). sample_rank (p @ ''/'') < 3"
    by (simp_all add: master_paths_def sample_paths_def path_join_def PATH_MAX_def sample_rank_def)
  then show ?thesis using createDatabase_ok [OF sample_tree, of sample_paths "''id''"] by blast
qed

end
