(* ===== verification/Catalog_Props.thy ===== *)
theory Catalog_Props
  imports Catalog
begin

text \<open>
  What the database promises its clients, stated over the definitions of the code: ids,
  lookups after an insertion, removal of subtrees, listing of folders, renaming, and the
  directory walk.
\<close>

section \<open>The interface of an object table\<close>

text \<open>
  The event handlers use the database as a table of objects under ids: an object that was
  added is found under its id, and what was found before is still found, unchanged. The
  laws of a client that adds many objects are proved once from that.
\<close>

locale object_table =
  fixes ok :: "'db \<Rightarrow> bool"
    and valid :: "'db \<Rightarrow> 'r \<Rightarrow> bool"
    and find :: "'db \<Rightarrow> int \<Rightarrow> 'r option"
    and get :: "'db \<Rightarrow> 'r \<Rightarrow> 'o"
    and add :: "'db \<Rightarrow> 'r \<Rightarrow> 'a \<Rightarrow> 'db \<times> 'r"
    and id_of :: "'o \<Rightarrow> int"
  assumes add_ok: "ok db \<Longrightarrow> valid db r \<Longrightarrow> ok (fst (add db r a))"
    and add_valid: "ok db \<Longrightarrow> valid db r \<Longrightarrow> valid (fst (add db r a)) (snd (add db r a))"
    and add_keeps: "ok db \<Longrightarrow> valid db r \<Longrightarrow> valid db r' \<Longrightarrow>
      valid (fst (add db r a)) r' \<and> get (fst (add db r a)) r' = get db r'"
    and find_get: "ok db \<Longrightarrow> valid db r \<Longrightarrow> find db (id_of (get db r)) = Some r"
    and find_valid: "ok db \<Longrightarrow> find db k = Some r \<Longrightarrow> valid db r"
    and find_keeps: "ok db \<Longrightarrow> valid db r \<Longrightarrow> find db k = Some r' \<Longrightarrow> find (fst (add db r a)) k = Some r'"
begin

lemma find_added:
  assumes "ok db" and "valid db r" and "add db r a = (db', r')"
  shows "find db' (id_of (get db' r')) = Some r'"
  using find_get [OF add_ok [OF assms(1,2), of a] add_valid [OF assms(1,2), of a]] assms(3) by simp

text \<open>A client that adds a list of objects below the same one.\<close>

fun add_many :: "'db \<Rightarrow> 'r \<Rightarrow> 'a list \<Rightarrow> 'db \<times> 'r list" where
  "add_many db r [] = (db, [])"
| "add_many db r (a # as) =
     (let (db1, r1) = add db r a; (db2, rs) = add_many db1 r as in (db2, r1 # rs))"

lemma add_many_keeps:
  assumes "ok db" and "valid db r" and "add_many db r as = (db', rs)"
  shows "ok db' \<and> length rs = length as \<and>
    (\<forall>r'. valid db r' \<longrightarrow> valid db' r' \<and> get db' r' = get db r') \<and>
    (\<forall>k r'. find db k = Some r' \<longrightarrow> find db' k = Some r')"
  using assms
proof (induction "as" arbitrary: db rs)
  case Nil
  then show ?case by simp
next
  case (Cons a "as")
  obtain db1 r1 where a: "add db r a = (db1, r1)" by (cases "add db r a")
  obtain rs' where m: "add_many db1 r as = (db', rs')" and rs: "rs = r1 # rs'"
    using Cons.prems(3) a by (auto simp: Let_def split: prod.splits)
  have 1: "ok db1" "valid db1 r"
    using add_ok [OF Cons.prems(1,2), of a] add_keeps [OF Cons.prems(1,2,2), of a] a by auto
  note IH = Cons.IH [OF 1 m]
  show ?case
    using IH rs add_keeps [OF Cons.prems(1,2), of _ a] find_keeps [OF Cons.prems(1,2), of _ _ a] a
    by simp
qed

lemma add_many_found:
  assumes "ok db" and "valid db r" and "add_many db r as = (db', rs)" and "r' \<in> set rs"
  shows "find db' (id_of (get db' r')) = Some r'"
  using assms
proof (induction "as" arbitrary: db rs)
  case Nil
  then show ?case by simp
next
  case (Cons a "as")
  obtain db1 r1 where a: "add db r a = (db1, r1)" by (cases "add db r a")
  obtain rs' where m: "add_many db1 r as = (db', rs')" and rs: "rs = r1 # rs'"
    using Cons.prems(3) a by (auto simp: Let_def split: prod.splits)
  have 1: "ok db1" "valid db1 r" "valid db1 r1"
    using add_ok [OF Cons.prems(1,2), of a] add_keeps [OF Cons.prems(1,2,2), of a]
      add_valid [OF Cons.prems(1,2), of a] a by auto
  show ?case
  proof (cases "r' \<in> set rs'")
    case True
    then show ?thesis using Cons.IH [OF 1(1,2) m] by simp
  next
    case False
    then have "r' = r1" using Cons.prems(4) rs by simp
    then show ?thesis using add_many_keeps [OF 1(1,2) m] find_get [of db' r1] 1(3) by simp
  qed
qed

end

definition add_entry :: "cma_db \<Rightarrow> objref \<Rightarrow> string \<times> u64 \<times> u32 \<Rightarrow> cma_db \<times> objref" where
  "add_entry db r a = (case a of (name, sz, ty) \<Rightarrow> addToDatabase db r name sz ty)"

lemma owns_own_id [simp]: "owns x (o_ohfi x)"
  by (simp add: owns_iff)

interpretation dbt: object_table db_ok valid_ref ohfiToObject deref add_entry o_ohfi
proof
  fix db :: cma_db and r r' :: objref and a :: "string \<times> u64 \<times> u32" and k
  assume ok: "db_ok db"
  obtain name sz ty where a: "a = (name, sz, ty)" by (cases a) auto
  obtain db1 r1 where e: "addToDatabase db r name sz ty = (db1, r1)"
    by (cases "addToDatabase db r name sz ty")
  have ae: "add_entry db r a = (db1, r1)" by (simp add: add_entry_def a e)
  show "ohfiToObject db (o_ohfi (deref db r)) = Some r" if "valid_ref db r"
    using ok that by (rule ohfiToObject_Some) simp
  show "valid_ref db r" if "ohfiToObject db k = Some r"
    using that by (simp add: ohfiToObject_iff [OF ok])
  assume v: "valid_ref db r"
  note ad = addToDatabase_ok [OF ok v e]
  show "db_ok (fst (add_entry db r a))" using ad by (simp add: ae)
  show "valid_ref (fst (add_entry db r a)) (snd (add_entry db r a))" using ad by (simp add: ae)
  show "valid_ref (fst (add_entry db r a)) r' \<and> deref (fst (add_entry db r a)) r' = deref db r'"
    if "valid_ref db r'" using ad(4) that by (simp add: ae)
  show "ohfiToObject (fst (add_entry db r a)) k = Some r'" if "ohfiToObject db k = Some r'"
    using that ad(1,4) by (simp add: ae ohfiToObject_iff [OF ok] ohfiToObject_iff [OF ad(1)])
qed

section \<open>Properties\<close>

text \<open>
  Adding an object. The id it gets was unused; afterwards a lookup of that id
  finds it, with the name, parent id and paths derived from its root, the invariant still
  holds, and every lookup that succeeded before gives the same object.
\<close>

theorem addToDatabase_lookup:
  assumes "db_ok db" and "valid_ref db root" and "addToDatabase db root name sz ty = (db', r)"
  shows "db_ok db' \<and> ohfiToObject db (ohfi_count db) = None \<and>
    ohfiToObject db' (ohfi_count db) = Some r \<and>
    o_ohfi (deref db' r) = ohfi_count db \<and> o_parent (deref db' r) = o_ohfi (deref db root) \<and>
    o_path (deref db' r) = path_join (o_path (deref db root)) name \<and>
    (\<forall>k r0. ohfiToObject db k = Some r0 \<longrightarrow>
       ohfiToObject db' k = Some r0 \<and> deref db' r0 = deref db r0)"
proof -
  have e: "add_entry db root (name, sz, ty) = (db', r)" by (simp add: add_entry_def assms(3))
  note ad = addToDatabase_ok [OF assms]
  have "ohfi_count db \<notin> set (chain_ids c)" if mem: "c \<in> set (db_chains db)" for c
  proof -
    obtain i where "i < length (db_chains db)" "c = db_chains db ! i"
      using mem by (auto simp: in_set_conv_nth)
    then have "chain_inv (master_ids ! i) (ohfi_count db) c" using db_okD(1) [OF assms(1)] by blast
    then show ?thesis by (auto simp: chain_inv_def)
  qed
  then have "ohfiToObject db (ohfi_count db) = None" by (simp add: ohfiToObject_None_iff [OF assms(1)])
  moreover have "ohfiToObject db' (ohfi_count db) = Some r"
    using dbt.find_added [OF assms(1,2) e] by (simp add: ad(3))
  moreover have "ohfiToObject db' k = Some r0 \<and> deref db' r0 = deref db r0"
    if "ohfiToObject db k = Some r0" for k r0
    using dbt.find_keeps [OF assms(1,2) that, of "(name, sz, ty)"] ad(4) that
      dbt.find_valid [OF assms(1) that] by (simp add: e)
  ultimately show ?thesis using ad(1,3) by (simp add: new_object_def Let_def)
qed

theorem addToDatabase_lookup_witness:
  "\<exists>db' r. addToDatabase (initDatabase sample_paths ''id'') (3, 0) ''a.pkg'' 7 File = (db', r) \<and>
     ohfiToObject db' 1005 = Some r \<and> o_path (deref db' r) = ''/k/a.pkg''"
proof -
  let ?db = "initDatabase sample_paths ''id''"
  obtain db' r where e: "addToDatabase ?db (3, 0) ''a.pkg'' 7 File = (db', r)"
    by (cases "addToDatabase ?db (3, 0) ''a.pkg'' 7 File")
  have v: "valid_ref ?db (3, 0)" by code_simp
  have c: "ohfi_count ?db = 1005" by code_simp
  have p: "path_join (o_path (deref ?db (3, 0))) ''a.pkg'' = ''/k/a.pkg''" by code_simp
  from addToDatabase_lookup [OF initDatabase_ok v e] e show ?thesis by (simp add: c p)
qed

lemma subtree_removed:
  assumes "db_ok db" and "i < 10" and "k \<in> ids (tl (drop j (db_chains db ! i)))"
  shows "\<exists>db'. removeFromDatabase db k (i, j) = Inr db' \<and> db_ok db' \<and>
    db_chains db' = (db_chains db)[i :=
      filter (\<lambda>x. o_ohfi x \<notin> descendants (db_chains db ! i) k) (db_chains db ! i)] \<and>
    (\<forall>k' \<in> descendants (db_chains db ! i) k. ohfiToObject db' k' = None)"
proof -
  let ?c = "db_chains db ! i"
  have len: "fst (i, j) < length (db_chains db)" using assms(1,2) by (simp add: db_ok_def)
  have k: "k \<in> ids (tl (drop (snd (i, j)) (db_chains db ! fst (i, j))))" using assms(3) by simp
  note rm = removeFromDatabase_prunes [OF assms(1) len k]
  let ?db' = "update_chain i (\<lambda>_. prune ?c k) db"
  have rm': "removeFromDatabase db k (i, j) = Inr ?db'" using rm by simp
  have ok': "db_ok ?db'" by (rule removeFromDatabase_ok [OF assms(1) len k rm'])
  have kt: "k \<in> ids (tl ?c)"
    using assms(3) by (metis (no_types, lifting) drop_tl image_iff in_set_dropD tl_drop)
  have "ohfiToObject ?db' k' = None" if d: "k' \<in> descendants ?c k" for k'
    unfolding ohfiToObject_None_iff [OF ok']
  proof
    fix c
    assume "c \<in> set (db_chains ?db')"
    then obtain l where l: "l < 10" "c = db_chains ?db' ! l"
      using ok' by (auto simp: in_set_conv_nth db_ok_def)
    have ci: "chain_inv (master_ids ! i) (ohfi_count db) ?c" by (rule db_okD(1) [OF assms(1)]) (use len in simp)
    have "k \<in> ids ?c" using kt by (cases ?c) auto
    then have kin: "k' \<in> ids ?c" using descendants_subset d by blast
    show "k' \<notin> set (chain_ids c)"
    proof (cases "l = i")
      case False
      then have "c = db_chains db ! l" using l by simp
      then show ?thesis
        using assms(1,2) l False kin ids_subset_chain_ids [of ?c] unfolding db_ok_def by blast
    next
      case True
      then have c: "c = prune ?c k" using l len by simp
      obtain y where y: "y \<in> set ?c" "o_ohfi y = k'" using kin by auto
      have "\<not> owns x k'" if "x \<in> set c" for x
      proof
        assume "owns x k'"
        moreover have "x \<in> set ?c" using that c by (simp add: set_prune)
        moreover have "distinct (chain_ids ?c)" using ci by (simp add: chain_inv_def)
        ultimately have "x = y" using y distinct_chain_owner_mem [of ?c x y k'] by auto
        then show False using that c y d by (simp add: set_prune)
      qed
      then show ?thesis by (auto simp: set_chain_ids owns_def)
    qed
  qed
  then show ?thesis using rm' ok' by (simp add: prune_def)
qed

text \<open>
  Claim C27: removing an object. Started at or before the parent, \<open>removeFromDatabase\<close>
  terminates without touching freed or missing nodes, and leaves exactly the objects that
  are not the object or below it, in their order; the other lists and the invariant are
  kept, and no removed id is found any more.
\<close>

theorem removeFromDatabase_subtree:
  assumes "db_ok db" and "i < 10" and "k \<in> ids (tl (drop j (db_chains db ! i)))"
  shows "\<exists>db'. removeFromDatabase db k (i, j) = Inr db' \<and> db_ok db' \<and>
    db_chains db' = (db_chains db)[i :=
      filter (\<lambda>x. o_ohfi x \<notin> descendants (db_chains db ! i) k) (db_chains db ! i)] \<and>
    (\<forall>k' \<in> descendants (db_chains db ! i) k. ohfiToObject db' k' = None)"
  using assms by (rule subtree_removed)

definition sample_db :: cma_db where
  "sample_db = the (createDatabase 3 sample_dir sample_st sample_paths ''id'')"

lemma sample_db_ok: "db_ok sample_db"
proof -
  have "createDatabase 3 sample_dir sample_st sample_paths ''id'' \<noteq> None" by code_simp
  then have "createDatabase 3 sample_dir sample_st sample_paths ''id'' = Some sample_db"
    by (auto simp: sample_db_def)
  then show ?thesis
    unfolding createDatabase_def by (intro add_all_masters_ok [OF initDatabase_ok]) auto
qed

theorem removeFromDatabase_subtree_witness:
  "\<exists>db'. removeFromDatabase sample_db 1005 (0, 0) = Inr db' \<and> db_ok db' \<and>
     ohfiToObject db' 1005 = None"
proof -
  have "(1005 :: int) \<in> ids (tl (drop 0 (db_chains sample_db ! 0)))" by code_simp
  from removeFromDatabase_subtree [OF sample_db_ok _ this] show ?thesis
    using descendants_self by (metis zero_less_numeral)
qed

lemma filter_chains_single:
  assumes "i < length cs" and "\<And>j x. j < length cs \<Longrightarrow> j \<noteq> i \<Longrightarrow> x \<in> set (cs ! j) \<Longrightarrow> \<not> P x"
  shows "filter_chains P cs = map meta (filter P (cs ! i))"
  using assms
proof (induction cs arbitrary: i)
  case Nil
  then show ?case by simp
next
  case (Cons c cs)
  have rest: "\<not> P x" if "j < length cs" "Suc j \<noteq> i" "x \<in> set (cs ! j)" for j x
    using Cons.prems(2) [of "Suc j" x] that by simp
  show ?case
  proof (cases i)
    case 0
    have "\<forall>d \<in> set cs. filter P d = []"
    proof
      fix d
      assume "d \<in> set cs"
      then obtain m where "m < length cs" "d = cs ! m" by (metis in_set_conv_nth)
      then show "filter P d = []" using rest [of m] 0 by (simp add: filter_empty_conv)
    qed
    then have "filter_chains P cs = []" by (induction cs) auto
    then show ?thesis using 0 by (simp add: Let_def)
  next
    case (Suc i')
    have "filter P c = []" using Cons.prems(2) [of 0] Suc by (simp add: filter_empty_conv)
    moreover have "filter_chains P cs = map meta (filter P (cs ! i'))"
    proof (rule Cons.IH)
      show "i' < length cs" using Cons.prems(1) Suc by simp
      show "\<not> P x" if "j < length cs" "j \<noteq> i'" "x \<in> set (cs ! j)" for j x
        using rest [of j x] that Suc by simp
    qed
    ultimately show ?thesis using Suc by simp
  qed
qed

lemma chain_inv_nonzero: "chain_inv (master_ids ! i) n c \<Longrightarrow> i < 10 \<Longrightarrow> 0 \<notin> ids c"
proof
  assume inv: "chain_inv (master_ids ! i) n c" and i: "i < 10" and z: "0 \<in> ids c"
  have "\<forall>m \<in> set master_ids. m \<noteq> 0" by (simp add: master_ids_def ohfi_defs)
  moreover have "length master_ids = 10" by (simp add: master_ids_def)
  ultimately have "master_ids ! i \<noteq> 0" using i by (metis nth_mem)
  then show False using inv z by (cases c) (auto simp: chain_inv_def OHFI_OFFSET_def)
qed

text \<open>
  The children of an object are in its own list, so the walk over all lists, which stops at the first
  with a match, finds just them.
\<close>

lemma children_listed:
  assumes "db_ok db" and "valid_ref db r"
  shows "filter_chains (\<lambda>x. o_ohfi (deref db r) = o_parent x) (db_chains db) =
    map meta (filter (\<lambda>x. o_parent x = o_ohfi (deref db r)) (db_chains db ! fst r))"
proof -
  let ?k = "o_ohfi (deref db r)" and ?cs = "db_chains db"
  have i: "fst r < length ?cs" "fst r < 10" and mem: "deref db r \<in> set (?cs ! fst r)"
    using assms(1,2) by (auto simp: valid_ref_def db_ok_def deref_def)
  have kin: "?k \<in> ids (?cs ! fst r)" using mem by simp
  have "filter_chains (\<lambda>x. ?k = o_parent x) ?cs = map meta (filter (\<lambda>x. ?k = o_parent x) (?cs ! fst r))"
  proof (rule filter_chains_single [OF i(1)])
    fix j x
    assume j: "j < length ?cs" "j \<noteq> fst r" "x \<in> set (?cs ! j)"
    have inv: "chain_inv (master_ids ! j) (ohfi_count db) (?cs ! j)" by (rule db_okD(1) [OF assms(1) j(1)])
    have "j < 10" using j assms(1) by (simp add: db_ok_def)
    have "?k \<notin> ids (?cs ! j)"
      using assms(1) j(2) \<open>j < 10\<close> i(2) kin ids_subset_chain_ids unfolding db_ok_def by blast
    moreover have "?k \<noteq> 0" using chain_inv_nonzero [OF db_okD(1) [OF assms(1) i(1)] i(2)] kin by metis
    ultimately show "\<not> ?k = o_parent x"
      using inv j(3) by (cases "?cs ! j") (auto simp: chain_inv_def)
  qed
  then show ?thesis by (simp add: eq_commute [of ?k])
qed

lemma add_entries_loop_blind:
  assumes "\<And>x. x \<noteq> [] \<Longrightarrow> st (fullpath @ x) = None" and "\<forall>e \<in> set es. e \<noteq> []"
    and "length fullpath + sum_list (map length es) < PATH_MAX"
  shows "add_entries_loop fuel dir st lst pos es fullpath db total_size = Some (db, total_size)"
  using assms
proof (induction es arbitrary: fullpath)
  case Nil
  then show ?case by simp
next
  case (Cons e es)
  have a: "add_entries_loop fuel dir st lst pos es fullpath db total_size = Some (db, total_size)"
    using Cons.prems by (intro Cons.IH) auto
  have b: "add_entries_loop fuel dir st lst pos es (fullpath @ e) db total_size = Some (db, total_size)"
    using Cons.prems(2,3) Cons.prems(1) [of "e @ x" for x] by (intro Cons.IH) auto
  have "e \<noteq> []" using Cons.prems(2) by simp
  then have st: "st (fullpath @ e) = None" by (rule Cons.prems(1))
  show ?case using a b st Cons.prems(3) by (simp add: Let_def)
qed

text \<open>
  One entry that \<open>stat\<close> refuses hides the rest of its directory. The loop
  continues without cutting the entry's name off \<open>fullpath\<close>, so the following names are
  appended to it; when none of these longer paths exists (a dangling symbolic link, say),
  nothing after the entry is added, whatever is on disk.
\<close>

theorem stat_failure_hides_the_rest:
  assumes "st (dirpath @ bad) = None" and "\<And>x. x \<noteq> [] \<Longrightarrow> st (dirpath @ bad @ x) = None"
    and "take 1 bad \<noteq> ''.''" and "\<forall>e \<in> set es. e \<noteq> []"
    and "length dirpath + length bad + sum_list (map length es) < PATH_MAX"
  shows "add_entries_loop fuel dir st lst (length dirpath) (bad # es) dirpath db total_size =
    Some (db, total_size)"
  using assms add_entries_loop_blind [of st "dirpath @ bad" es fuel dir lst "length dirpath" db total_size]
  by (simp add: Let_def)

theorem stat_failure_hides_the_rest_witness:
  "add_entries_loop 2 sample_dir sample_st (0, 0) 3 [''link'', ''x.jpg'', ''d''] ''/p/''
     (initDatabase sample_paths ''id'') 0 = Some (initDatabase sample_paths ''id'', 0) \<and>
   sample_st ''/p/x.jpg'' = Some (False, 10)"
proof -
  have "sample_st (''/p/'' @ ''link'' @ x) = None" for x by (simp add: sample_st_def)
  then show ?thesis
    using stat_failure_hides_the_rest [of sample_st "''/p/''" "''link''" "[''x.jpg'', ''d'']" 2 sample_dir
        "(0, 0)" "initDatabase sample_paths ''id''" 0]
    by (simp add: sample_st_def PATH_MAX_def numeral_3_eq_3 del: add_entries_loop.simps)
qed

text \<open>
  Renaming an object. When the old relative path does not occur earlier in the
  full path, and the old name not earlier in the relative path, \<open>renameRootEntry\<close> puts
  the new name in their place and leaves everything in front of them alone.
\<close>

theorem rename_one_replaces_name:
  assumes "md_name (meta obj) = Some name" and "md_path (meta obj) = Some (pre @ name)"
    and "o_path obj = base @ pre @ name"
    and "\<And>k. k < length pre \<Longrightarrow> take (length name) (drop k (pre @ name)) \<noteq> name"
    and "\<And>k. k < length base \<Longrightarrow>
       take (length (pre @ name)) (drop k (base @ pre @ name)) \<noteq> pre @ name"
  shows "\<exists>obj'. rename_one None newname obj = Some obj' \<and> md_name (meta obj') = Some newname \<and>
    md_path (meta obj') = Some (pre @ newname) \<and> o_path obj' = base @ pre @ newname \<and>
    o_ohfi obj' = o_ohfi obj \<and> o_parent obj' = o_parent obj"
proof -
  have "strreplace (pre @ name) name newname = pre @ newname"
    using strreplace_at [of pre name "[]" newname] assms(4) by simp
  moreover have "strreplace (base @ pre @ name) (pre @ name) (pre @ newname) = base @ pre @ newname"
    using strreplace_at [of base "pre @ name" "[]" "pre @ newname"] assms(5) by simp
  ultimately show ?thesis using assms(1-3) by (simp add: rename_one_def strreplace_self Let_def)
qed

definition sample_file :: "string \<Rightarrow> string \<Rightarrow> string \<Rightarrow> cma_object" where
  "sample_file name rel path = \<lparr>meta = metadata_zero\<lparr>ohfi := 1005, ohfiParent := 2, md_name := Some name,
     md_path := Some rel, dataType := File OR Photo\<rparr>, o_path = path, filters = []\<rparr>"

lemma less_4_nat: "k < (4 :: nat) \<Longrightarrow> k = 0 \<or> k = 1 \<or> k = 2 \<or> k = 3" by auto

theorem rename_one_replaces_name_witness:
  "\<exists>obj'. rename_one None ''old.jpg'' (sample_file ''x.jpg'' ''x.jpg'' ''/pp/x.jpg'') = Some obj' \<and>
     md_path (meta obj') = Some ''old.jpg'' \<and> o_path obj' = ''/pp/old.jpg''"
proof -
  have "take (length ([] @ ''x.jpg'')) (drop k (''/pp/'' @ [] @ ''x.jpg'')) \<noteq> [] @ ''x.jpg''"
    if "k < length ''/pp/''" for k
    using less_4_nat [of k] that by auto
  from rename_one_replaces_name [of "sample_file ''x.jpg'' ''x.jpg'' ''/pp/x.jpg''" "''x.jpg''" "[]" "''/pp/''"
      "''old.jpg''", OF _ _ _ _ this]
  show ?thesis by (auto simp: sample_file_def metadata_zero_def)
qed

text \<open>
  \<open>strreplace\<close> replaces the first occurrence, wherever it is. Renaming a photo
  \<open>p\<close> of the folder \<open>/photos\<close> to \<open>q\<close> changes the root folder's name in its path
  instead, and renaming \<open>a\<close> inside the folder \<open>band\<close> changes the folder: the file is
  then moved to a place outside the database.
\<close>

lemma rename_hits_wrong_component:
  "\<exists>o1 o2. rename_one None ''q'' (sample_file ''p'' ''p'' ''/photos/p'') = Some o1 \<and>
     o_path o1 = ''/qhotos/p'' \<and>
     rename_one None ''z'' (sample_file ''a'' ''band/a'' ''/m/band/a'') = Some o2 \<and>
     md_path (meta o2) = Some ''bznd/a'' \<and> o_path o2 = ''/m/bznd/a''"
  by (simp add: rename_one_def sample_file_def metadata_zero_def strreplace_def Let_def)

end
