(* ===== verification/Datautils.thy ===== *)
theory Datautils
  imports Database Ptp_Datasets
begin

unbundle bit_operations_syntax

text \<open>
  datautils.c: the XML documents that VitaMTP exchanges with the device, and the time stamps
  in them. libxml2 is external: its reader is a parameter that turns bytes into a tree, its
  writer a parameter that turns a tree into text; the code's own work, which elements and
  attributes are read and written, is modelled. Results are \<open>None\<close> where the C code touches
  memory it must not touch. The time functions of the C library are parameters.
\<close>

section \<open>Text\<close>

fun show_nat :: "nat \<Rightarrow> string" where
  "show_nat n = (if n < 10 then [char_of (48 + n)] else show_nat (n div 10) @ [char_of (48 + n mod 10)])"

declare show_nat.simps [simp del]

definition show_int :: "int \<Rightarrow> string" where
  "show_int i = (if i < 0 then CHR ''-'' # show_nat (nat (- i)) else show_nat (nat i))"

text \<open>The conversion \<open>%0kd\<close>.\<close>

definition show_padded :: "nat \<Rightarrow> int \<Rightarrow> string" where
  "show_padded k i =
     (let zeros = (\<lambda>w ds. replicate (w - length ds) CHR ''0'' @ ds) in
      if i < 0 then CHR ''-'' # zeros (k - 1) (show_nat (nat (- i))) else zeros k (show_nat (nat i)))"

section \<open>Size header and time stamp\<close>

definition VitaMTP_Data_Add_Size_Header :: "byte list \<Rightarrow> u32 \<Rightarrow> byte list option" where
  "VitaMTP_Data_Add_Size_Header orig len = do {
     body \<leftarrow> rd orig 0 (unat len);
     Some (le_bytes 4 len @ body) }"

text \<open>
  \<open>sprintf\<close> writes into 27 bytes. The month is \<open>tm_mon\<close> as it is, and the minutes of the
  offset are taken modulo 60 from the difference in seconds.
\<close>

definition VitaMTP_Data_Make_Timestamp ::
  "(int \<Rightarrow> c_tm) \<Rightarrow> (int \<Rightarrow> c_tm) \<Rightarrow> (c_tm \<Rightarrow> int) \<Rightarrow> int \<Rightarrow> string option" where
  "VitaMTP_Data_Make_Timestamp gmtime localtime mktime time =
     (let diff = time - mktime (gmtime time);
          h = \<bar>diff\<bar> div 3600;
          m = \<bar>diff\<bar> mod 60;
          tl = localtime time;
          str = show_padded 4 (tm_year tl + 1900) @ ''-'' @ show_padded 2 (tm_mon tl) @ ''-'' @
            show_padded 2 (tm_mday tl) @ ''T'' @ show_padded 2 (tm_hour tl) @ '':'' @
            show_padded 2 (tm_min tl) @ '':'' @ show_padded 2 (tm_sec tl) @
            (if diff < 0 then ''-'' else ''+'') @ show_padded 2 h @ '':'' @ show_padded 2 m
      in if length str + 1 \<le> 27 then Some str else None)"

section \<open>Reading documents\<close>

datatype xml = Elem string "(string \<times> string) list" "xml list" | Text string

fun node_name :: "xml \<Rightarrow> string" where
  "node_name (Elem n _ _) = n"
| "node_name (Text _) = ''text''"

fun xmlGetProp :: "xml \<Rightarrow> string \<Rightarrow> string option" where
  "xmlGetProp (Elem _ attrs _) k = map_of attrs k"
| "xmlGetProp (Text _) k = None"

fun node_children :: "xml \<Rightarrow> xml list" where
  "node_children (Elem _ _ cs) = cs"
| "node_children (Text _) = []"

definition xml_atoi :: "string \<Rightarrow> int" where
  "xml_atoi s = atoi (bytes_of s)"

record thumb_format =
  tf_type :: int
  tf_codecType :: int
  tf_width :: int
  tf_height :: int
  tf_duration :: int

record vita_info =
  vi_responderVersion :: string
  vi_protocolVersion :: int
  vi_photoThumb :: thumb_format
  vi_videoThumb :: thumb_format
  vi_musicThumb :: thumb_format
  vi_gameThumb :: thumb_format

text \<open>One child of the document: only the video thumbnail needs and stores a duration.\<close>

definition read_thumb :: "xml \<Rightarrow> thumb_format \<Rightarrow> thumb_format option" where
  "read_thumb node old = do {
     t \<leftarrow> xmlGetProp node ''type'';
     c \<leftarrow> xmlGetProp node ''codecType'';
     w \<leftarrow> xmlGetProp node ''width'';
     h \<leftarrow> xmlGetProp node ''height'';
     Some (old\<lparr>tf_type := xml_atoi t, tf_codecType := xml_atoi c, tf_width := xml_atoi w,
               tf_height := xml_atoi h\<rparr>) }"

definition info_child :: "xml \<Rightarrow> vita_info \<Rightarrow> vita_info" where
  "info_child node vi =
     (let upd = (\<lambda>old put. case read_thumb node old of None \<Rightarrow> vi | Some t \<Rightarrow> put t) in
      if node_name node = ''photoThumb'' then upd (vi_photoThumb vi) (\<lambda>t. vi\<lparr>vi_photoThumb := t\<rparr>)
      else if node_name node = ''videoThumb'' then
        (case xmlGetProp node ''duration'' of
           None \<Rightarrow> vi
         | Some d \<Rightarrow> upd (vi_videoThumb vi) (\<lambda>t. vi\<lparr>vi_videoThumb := t\<lparr>tf_duration := xml_atoi d\<rparr>\<rparr>))
      else if node_name node = ''musicThumb'' then upd (vi_musicThumb vi) (\<lambda>t. vi\<lparr>vi_musicThumb := t\<rparr>)
      else if node_name node = ''gameThumb'' then upd (vi_gameThumb vi) (\<lambda>t. vi\<lparr>vi_gameThumb := t\<rparr>)
      else vi)"

text \<open>
  The return value and the structure. The version is copied with \<open>strcpy\<close> into six bytes.
\<close>

definition VitaMTP_Data_Info_From_XML ::
  "(byte list \<Rightarrow> xml option) \<Rightarrow> vita_info \<Rightarrow> byte list \<Rightarrow> (int \<times> vita_info) option" where
  "VitaMTP_Data_Info_From_XML xmlReadMemory vi raw =
     (case xmlReadMemory raw of
        None \<Rightarrow> Some (1, vi)
      | Some node \<Rightarrow>
          if node_name node \<noteq> ''VITAInformation'' then Some (1, vi)
          else
            (case (xmlGetProp node ''responderVersion'', xmlGetProp node ''protocolVersion'') of
               (Some rv, Some pv) \<Rightarrow>
                 if 6 \<le> length rv then None
                 else
                   (let vi1 = vi\<lparr>vi_responderVersion := rv, vi_protocolVersion := xml_atoi pv\<rparr> in
                    if node_children node = [] then Some (1, vi1)
                    else Some (0, fold info_child (node_children node) vi1))
             | _ \<Rightarrow> Some (1, vi)))"

record account =
  ac_userName :: "string option"
  ac_signInId :: "string option"
  ac_accountId :: "string option"
  ac_countryCode :: "string option"
  ac_langCode :: "string option"
  ac_birthday :: "string option"
  ac_onlineUser :: "string option"
  ac_passwd :: "string option"

definition read_account :: "xml \<Rightarrow> account" where
  "read_account node = \<lparr>ac_userName = xmlGetProp node ''userName'', ac_signInId = xmlGetProp node ''signInId'',
     ac_accountId = xmlGetProp node ''accountId'', ac_countryCode = xmlGetProp node ''countryCode'',
     ac_langCode = xmlGetProp node ''langCode'', ac_birthday = xmlGetProp node ''birthday'',
     ac_onlineUser = xmlGetProp node ''onlineUser'', ac_passwd = xmlGetProp node ''passwd''\<rparr>"

text \<open>
  The list of accounts, the first of them inside the settings structure. A new account is
  allocated whenever the current node has a sibling after it, whatever this is: \<open>None\<close> is an
  account whose fields, its link included, were never set.
\<close>

fun read_accounts :: "xml list \<Rightarrow> account option list" where
  "read_accounts [] = [None]"
| "read_accounts (n # ns) =
     (if node_name n \<noteq> ''npAccount'' then read_accounts ns
      else if ns = [] then [Some (read_account n)]
      else Some (read_account n) # read_accounts ns)"

fun settings_children :: "xml list \<Rightarrow> account option list \<Rightarrow> account option list" where
  "settings_children [] accs = accs"
| "settings_children (n # ns) accs =
     settings_children ns
       (if node_name n = ''accounts'' \<and> hd (read_accounts (node_children n)) \<noteq> None
        then read_accounts (node_children n) else accs)"

definition VitaMTP_Data_Settings_From_XML ::
  "(byte list \<Rightarrow> xml option) \<Rightarrow> byte list \<Rightarrow> int \<times> account option list" where
  "VitaMTP_Data_Settings_From_XML xmlReadMemory raw =
     (case xmlReadMemory raw of
        None \<Rightarrow> (1, [])
      | Some node \<Rightarrow>
          if node_name node \<noteq> ''settingInfo'' \<or> node_children node = [] then (1, [])
          else (0, settings_children (node_children node) [None]))"

text \<open>
  Freeing: each turn frees the account of the turn before; the first account has the address
  of the settings structure itself, which is freed at the end. \<open>freed\<close> says whether it
  already was. \<open>None\<close>: uninitialised pointers are freed or followed, or a block is freed
  twice.
\<close>

fun free_accounts :: "account option list \<Rightarrow> nat option \<Rightarrow> bool \<Rightarrow> nat \<Rightarrow> bool option" where
  "free_accounts [] lst freed pos = Some freed"
| "free_accounts (None # accs) lst freed pos = None"
| "free_accounts (Some a # accs) lst freed pos =
     free_accounts accs (Some pos) (freed \<or> lst = Some 0) (Suc pos)"

definition VitaMTP_Data_Free_Settings :: "account option list \<Rightarrow> int option" where
  "VitaMTP_Data_Free_Settings accs = do {
     freed \<leftarrow> free_accounts accs None False 0;
     (if freed then None else Some 0) }"

section \<open>Writing documents\<close>

record initiator_info =
  ii_platformType :: string
  ii_platformSubtype :: string
  ii_osVersion :: string
  ii_version :: string
  ii_protocolVersion :: int
  ii_name :: string
  ii_applicationType :: int

definition VITAMTP_VERSION_MAJOR :: nat where "VITAMTP_VERSION_MAJOR = 2"
definition VITAMTP_VERSION_MINOR :: nat where "VITAMTP_VERSION_MINOR = 2"

definition VitaMTP_Data_Initiator_New :: "string option \<Rightarrow> int \<Rightarrow> initiator_info" where
  "VitaMTP_Data_Initiator_New host_name protocol_version = \<lparr>ii_platformType = ''PC'',
     ii_platformSubtype = ''Unknown'', ii_osVersion = ''0.0'',
     ii_version = show_nat VITAMTP_VERSION_MAJOR @ ''.'' @ show_nat VITAMTP_VERSION_MINOR,
     ii_protocolVersion = protocol_version,
     ii_name = (case host_name of None \<Rightarrow> ''VitaMTP Library'' | Some n \<Rightarrow> n), ii_applicationType = 5\<rparr>"

definition quoted :: "string \<Rightarrow> string \<Rightarrow> string" where
  "quoted k v = '' '' @ k @ ''='' @ [CHR 0x22] @ v @ [CHR 0x22]"

text \<open>The values go into the text as they are, without escaping.\<close>

definition initiator_text :: "initiator_info \<Rightarrow> string" where
  "initiator_text ii =
     ''<?xml'' @ quoted ''version'' ''1.0'' @ quoted ''encoding'' ''UTF-8'' @ ''?>'' @ [CHR 0x0A] @
     ''<initiatorInfo'' @ quoted ''platformType'' (ii_platformType ii) @
     quoted ''platformSubtype'' (ii_platformSubtype ii) @ quoted ''osVersion'' (ii_osVersion ii) @
     quoted ''version'' (ii_version ii) @ quoted ''protocolVersion'' (show_padded 8 (ii_protocolVersion ii)) @
     quoted ''name'' (ii_name ii) @ quoted ''applicationType'' (show_int (ii_applicationType ii)) @
     '' />'' @ [CHR 0x0A]"

text \<open>The data and its length; the terminating NUL is part of both.\<close>

definition VitaMTP_Data_Initiator_To_XML :: "initiator_info \<Rightarrow> (byte list \<times> nat) option" where
  "VitaMTP_Data_Initiator_To_XML ii = (let str = bytes_of (initiator_text ii) in do {
     dat \<leftarrow> VitaMTP_Data_Add_Size_Header (str @ [0]) (of_nat (length str + 1));
     Some (dat, length str + 1 + 4) })"

definition capability_text :: string where
  "capability_text = ''<?xml'' @ quoted ''version'' ''1.0'' @ quoted ''encoding'' ''UTF-8'' @ ''?><capabilityInfo'' @
     quoted ''version'' ''1.0'' @ ''></capabilityInfo>''"

definition VitaMTP_Data_Capability_To_XML :: "(byte list \<times> nat) option" where
  "VitaMTP_Data_Capability_To_XML = (let str = bytes_of capability_text in do {
     dat \<leftarrow> VitaMTP_Data_Add_Size_Header (str @ [0]) (of_nat (length str + 1));
     Some (dat, length str + 4 + 1) })"

section \<open>Object metadata\<close>

definition VITA_TRACK_TYPE_AUDIO :: nat where "VITA_TRACK_TYPE_AUDIO = 1"
definition VITA_TRACK_TYPE_VIDEO :: nat where "VITA_TRACK_TYPE_VIDEO = 2"
definition VITA_TRACK_TYPE_PHOTO :: nat where "VITA_TRACK_TYPE_PHOTO = 3"

text \<open>Of a track only the type and the codec are ever set, the other fields are zero.\<close>

definition track_xml :: "nat \<Rightarrow> nat \<times> nat \<Rightarrow> xml" where
  "track_xml j t =
     (let (ty, codec) = t; zero = ''0'' in
      Elem ''track'' ([(''index'', show_nat (j + 1)), (''type'', show_nat ty)] @
        (if ty = VITA_TRACK_TYPE_AUDIO then [(''bitrate'', zero), (''codecType'', show_nat codec)]
         else if ty = VITA_TRACK_TYPE_VIDEO then
           [(''width'', zero), (''height'', zero), (''bitrate'', zero), (''codecType'', show_nat codec), (''duration'', zero)]
         else if ty = VITA_TRACK_TYPE_PHOTO then
           [(''width'', zero), (''height'', zero), (''codecType'', show_nat codec)]
         else [])) [])"

text \<open>
  The number of tracks lies at the start of the union, where a record without tracks has a
  padding of zero.
\<close>

fun tracks_of :: "media_data \<Rightarrow> (nat \<times> nat) list option" where
  "tracks_of (PhotoInfo _ _ _ _ _ ts) = Some ts"
| "tracks_of (MusicInfo _ _ _ _ _ _ ts) = Some ts"
| "tracks_of (VideoInfo _ _ _ _ _ _ _ _ ts) = Some ts"
| "tracks_of NoData = Some []"
| "tracks_of (SaveDataInfo _ _ _ _ _ _) = Some []"
| "tracks_of (ThumbnailInfo _ _ _ _ _ _ _) = None"

text \<open>
  The element of one object and the attributes that come first: \<open>Some None\<close> when the kind of
  object is not supported, \<open>None\<close> when a union member is read that was not stored or a NULL
  name is printed. The time of a video is read through the save data's member of the union,
  which lies over the parental level.
\<close>

definition kind_xml :: "(int \<Rightarrow> string option) \<Rightarrow> metadata \<Rightarrow> (string \<times> (string \<times> string) list) option option" where
  "kind_xml stamp md = (let dt = dataType md in
     if MASK_SET dt (SaveData OR Folder) then
       (case md_data md of
          SaveDataInfo title dirName savedataTitle statusType detail updated \<Rightarrow> do {
            t \<leftarrow> stamp (int updated);
            Some (Some (''saveData'', [(''detail'', detail), (''dirName'', dirName), (''savedataTitle'', savedataTitle),
              (''dateTimeUpdated'', t), (''title'', title), (''statusType'', show_nat statusType)])) }
        | _ \<Rightarrow> None)
     else if MASK_SET dt (Photo OR File) then
       (case md_data md of
          PhotoInfo title fileName fileFormatType statusType original _ \<Rightarrow> do {
            t \<leftarrow> stamp (int original);
            Some (Some (''photo'', [(''title'', title), (''dateTimeOriginal'', t),
              (''fileFormatType'', show_nat fileFormatType), (''fileName'', fileName),
              (''statusType'', show_nat statusType)])) }
        | _ \<Rightarrow> None)
     else if MASK_SET dt (Music OR File) then
       (case md_data md of
          MusicInfo title fileName fileFormatType statusType album artist _ \<Rightarrow>
            Some (Some (''music'', [(''title'', title), (''album'', album), (''artist'', artist),
              (''statusType'', show_nat statusType), (''fileFormatType'', show_nat fileFormatType),
              (''fileName'', fileName)]))
        | _ \<Rightarrow> None)
     else if MASK_SET dt (Video OR File) then
       (case md_data md of
          VideoInfo title fileName fileFormatType statusType updated parental explanation copyright _ \<Rightarrow> do {
            t \<leftarrow> stamp (int parental);
            Some (Some (''video'', [(''title'', title), (''fileFormatType'', show_nat fileFormatType),
              (''fileName'', fileName), (''parentalLevel'', show_nat parental), (''statusType'', show_nat statusType),
              (''explanation'', explanation), (''dateTimeUpdated'', t), (''copyright'', copyright)])) }
        | _ \<Rightarrow> None)
     else if MASK_SET dt (Game OR File) then do {
       name \<leftarrow> md_name md;
       Some (Some (''game'', [(''title'', name)])) }
     else if MASK_SET dt Thumbnail then
       (case md_data md of
          ThumbnailInfo cdc width height ty orientation aspect from \<Rightarrow>
            Some (Some (''thumbnail'', [(''codecType'', show_nat cdc), (''width'', show_nat width),
              (''height'', show_nat height), (''type'', show_nat ty), (''orientationType'', show_nat orientation),
              (''aspectRatio'', show_nat (aspect div 1000000) @ '','' @ show_padded 6 (int (aspect mod 1000000))),
              (''fromType'', show_nat from)]))
        | _ \<Rightarrow> None)
     else if dt AND Folder \<noteq> 0 then do {
       name \<leftarrow> md_name md;
       Some (Some (''folder'', [(''type'', show_int (sint (md_type md))), (''name'', name), (''title'', name)])) }
     else if dt AND File \<noteq> 0 then do {
       name \<leftarrow> md_name md;
       Some (Some (''file'', [(''name'', name), (''statusType'', show_int (sint (md_type md))), (''title'', name)])) }
     else Some None)"

text \<open>The objects one after the other; \<open>i\<close> counts the supported ones.\<close>

fun metas_xml :: "(int \<Rightarrow> string option) \<Rightarrow> nat \<Rightarrow> metadata list \<Rightarrow> xml list option" where
  "metas_xml stamp i [] = Some []"
| "metas_xml stamp i (md # mds) = do {
     kind \<leftarrow> kind_xml stamp md;
     (case kind of
        None \<Rightarrow> metas_xml stamp i mds
      | Some (elem, attrs) \<Rightarrow> do {
          t \<leftarrow> stamp (int (dateTimeCreated md));
          tracks \<leftarrow> (if dataType md AND (Photo OR Music OR Video) \<noteq> 0 \<and> MASK_SET (dataType md) File
                    then tracks_of (md_data md) else Some []);
          rest \<leftarrow> metas_xml stamp (i + 1) mds;
          Some (Elem elem (attrs @ [(''index'', show_nat i), (''ohfiParent'', show_int (ohfiParent md)),
                  (''ohfi'', show_int (ohfi md)), (''size'', show_nat (unat (md_size md))),
                  (''dateTimeCreated'', t)])
                  (map2 track_xml [0..<length tracks] tracks) # rest) }) }"

text \<open>\<open>render\<close> is libxml's writer; the buffer it fills ends with a NUL that is sent too.\<close>

definition VitaMTP_Data_Metadata_To_XML ::
  "(xml \<Rightarrow> byte list) \<Rightarrow> (int \<Rightarrow> string option) \<Rightarrow> metadata list \<Rightarrow> (byte list \<times> nat) option" where
  "VitaMTP_Data_Metadata_To_XML render stamp mds = do {
     elems \<leftarrow> metas_xml stamp 0 mds;
     let content = render (Elem ''objectMetadata'' [] elems);
     dat \<leftarrow> VitaMTP_Data_Add_Size_Header (content @ [0]) (of_nat (length content + 1));
     Some (dat, length content + 4 + 1) }"

section \<open>Facts about the documents\<close>

lemma add_size_header_frame:
  assumes "VitaMTP_Data_Add_Size_Header orig len = Some dat"
  shows "length dat = 4 + unat len \<and> (le_word (take 4 dat) :: u32) = len \<and> drop 4 dat = take (unat len) orig"
  using assms by (auto simp: VitaMTP_Data_Add_Size_Header_def rd_eq_Some_iff bind_eq_Some_conv le_word_le_bytes)

definition supported :: "(int \<Rightarrow> string option) \<Rightarrow> metadata \<Rightarrow> bool" where
  "supported stamp md \<longleftrightarrow> kind_xml stamp md \<noteq> Some None"

lemma kind_xml_keys:
  assumes "kind_xml stamp md = Some (Some (elem, attrs))"
  shows "map_of attrs ''index'' = None \<and> map_of attrs ''ohfi'' = None"
proof (cases "md_data md")
  case NoData
  then show ?thesis using assms
    by (auto simp: kind_xml_def Let_def bind_eq_Some_conv split: if_splits)
next
  case SaveDataInfo
  then show ?thesis using assms
    by (auto simp: kind_xml_def Let_def bind_eq_Some_conv split: if_splits)
next
  case PhotoInfo
  then show ?thesis using assms
    by (auto simp: kind_xml_def Let_def bind_eq_Some_conv split: if_splits)
next
  case MusicInfo
  then show ?thesis using assms
    by (auto simp: kind_xml_def Let_def bind_eq_Some_conv split: if_splits)
next
  case VideoInfo
  then show ?thesis using assms
    by (auto simp: kind_xml_def Let_def bind_eq_Some_conv split: if_splits)
next
  case ThumbnailInfo
  then show ?thesis using assms
    by (auto simp: kind_xml_def Let_def bind_eq_Some_conv split: if_splits)
qed

lemma metas_xml_items:
  assumes "metas_xml stamp i mds = Some elems"
  shows "map (\<lambda>x. xmlGetProp x ''index'') elems = map (\<lambda>k. Some (show_nat k)) [i..<i + length elems] \<and>
    map (\<lambda>x. xmlGetProp x ''ohfi'') elems = map (\<lambda>md. Some (show_int (ohfi md))) (filter (supported stamp) mds)"
  using assms
proof (induction mds arbitrary: i elems)
  case (Cons md mds)
  then obtain kind where k: "kind_xml stamp md = Some kind" by (auto simp: bind_eq_Some_conv)
  show ?case
  proof (cases kind)
    case None
    then show ?thesis using Cons k by (simp add: supported_def)
  next
    case (Some ea)
    obtain elem attrs where ea: "ea = (elem, attrs)" by fastforce
    from Cons.prems k Some ea obtain e rest where e: "elems = e # rest" "metas_xml stamp (i + 1) mds = Some rest"
        "xmlGetProp e ''index'' = Some (show_nat i)" "xmlGetProp e ''ohfi'' = Some (show_int (ohfi md))"
      using kind_xml_keys [of stamp md elem attrs]
      by (auto simp: bind_eq_Some_conv map_add_def)
    have "[i..<i + length elems] = i # [i + 1..<i + 1 + length rest]"
      using upt_conv_Cons [of i "i + Suc (length rest)"] by (simp add: e(1) del: upt_Suc)
    then show ?thesis
      using Cons.IH [OF e(2)] k Some ea e by (simp add: supported_def)
  qed
qed simp

section \<open>Properties\<close>

text \<open>
  Claim C38: the metadata document lists exactly the supported objects of the given list, in
  its order, and numbers them 0, 1, 2 and so on: an object that is skipped leaves no gap.
\<close>

theorem metadata_xml_lists_objects:
  assumes "metas_xml stamp 0 mds = Some elems"
  shows "map (\<lambda>x. xmlGetProp x ''index'') elems = map (\<lambda>k. Some (show_nat k)) [0..<length elems] \<and>
    map (\<lambda>x. xmlGetProp x ''ohfi'') elems = map (\<lambda>md. Some (show_int (ohfi md))) (filter (supported stamp) mds)"
  using metas_xml_items [OF assms] by simp

definition sample_meta :: "int \<Rightarrow> u32 \<Rightarrow> metadata" where
  "sample_meta k dt = metadata_zero\<lparr>ohfi := k, md_name := Some ''n'', dataType := dt\<rparr>"

theorem metadata_xml_lists_objects_witness:
  "\<exists>elems. metas_xml (\<lambda>_. Some ''t'') 0 [sample_meta 1000 Folder, sample_meta 2 Photo, sample_meta 1001 File] = Some elems \<and>
     map (\<lambda>x. xmlGetProp x ''index'') elems = [Some ''0'', Some ''1''] \<and>
     map (\<lambda>x. xmlGetProp x ''ohfi'') elems = [Some ''1000'', Some ''1001'']"
proof -
  let ?m = "metas_xml (\<lambda>_. Some ''t'') 0 [sample_meta 1000 Folder, sample_meta 2 Photo, sample_meta 1001 File]"
  have k: "kind_xml (\<lambda>_. Some ''t'') (sample_meta 2 Photo) = Some None"
    "\<exists>x. kind_xml (\<lambda>_. Some ''t'') (sample_meta 1000 Folder) = Some (Some x)"
    "\<exists>x. kind_xml (\<lambda>_. Some ''t'') (sample_meta 1001 File) = Some (Some x)"
    by (simp_all add: kind_xml_def sample_meta_def metadata_zero_def MASK_SET_def datatype_bits)
  then obtain e1 e2 where m: "?m = Some [e1, e2]"
    by (auto simp: sample_meta_def metadata_zero_def datatype_bits)
  have s: "filter (supported (\<lambda>_. Some ''t'')) [sample_meta 1000 Folder, sample_meta 2 Photo, sample_meta 1001 File] =
      [sample_meta 1000 Folder, sample_meta 1001 File]"
    using k by (auto simp: supported_def)
  from metadata_xml_lists_objects [OF m] show ?thesis
    unfolding s using m by (simp add: upt_rec sample_meta_def show_int_def show_nat.simps) code_simp
qed

text \<open>
  Claim C39: every object that enters the database can be described to the device: whatever
  its kind and its parent's, the union member that the writer reads is the one that
  \<open>addToDatabase\<close> stored, and no NULL string is printed.
\<close>

theorem new_object_is_printable:
  assumes "\<And>t. stamp t \<noteq> None" and "dataType (meta root) AND Thumbnail = 0" and "type AND Thumbnail = 0"
  shows "metas_xml stamp i [meta (new_object fresh root name sz type)] \<noteq> None"
proof -
  define dt where "dt = type OR (dataType (meta root) AND NOT Folder)"
  have "dt AND Thumbnail = (type AND Thumbnail) OR (NOT Folder AND (dataType (meta root) AND Thumbnail))"
    by (simp add: dt_def bit.conj_disj_distrib bit.conj_disj_distrib2 ac_simps)
  then have "dt AND Thumbnail = 0" by (simp add: assms(2,3))
  then have thumb: "\<not> MASK_SET dt Thumbnail" by (simp add: MASK_SET_def Thumbnail_def)
  have stamp: "\<exists>s. stamp t = Some s" for t using assms(1) [of t] by blast
  let ?md = "meta (new_object fresh root name sz type)"
  have md: "dataType ?md = dt" "md_name ?md = Some name" "md_data ?md = object_data dt name (md_name (meta root))"
    by (simp_all add: new_object_def Let_def dt_def)
  have tracks: "tracks_of (md_data ?md) \<noteq> None"
    by (simp add: md object_data_def)
  have "kind_xml stamp ?md \<noteq> None"
  proof -
    obtain s where "stamp 0 = Some s" using stamp by blast
    then show ?thesis by (simp add: kind_xml_def md object_data_def thumb Let_def)
  qed
  then obtain kind where k: "kind_xml stamp ?md = Some kind" by blast
  obtain s where s: "stamp (int (dateTimeCreated ?md)) = Some s" using stamp by blast
  show ?thesis using k s tracks by (cases kind) (auto split: if_splits)
qed

theorem new_object_is_printable_witness:
  "metas_xml (\<lambda>_. Some ''t'') 0 [meta (new_object 1000 \<lparr>meta = metadata_zero\<lparr>ohfi := VITA_OHFI_PHOTO, dataType := Photo\<rparr>,
     o_path = ''p'', filters = []\<rparr> ''x.jpg'' 10 File)] \<noteq> None"
  by (rule new_object_is_printable) (simp_all add: metadata_zero_def datatype_bits)

lemma length_show_nat: "n < 10 ^ k \<Longrightarrow> 0 < k \<Longrightarrow> length (show_nat n) \<le> k"
proof (induction k arbitrary: n)
  case (Suc k)
  show ?case
  proof (cases "n < 10")
    case False
    then have "0 < k" using Suc.prems by (cases k) auto
    moreover have "n div 10 < 10 ^ k" using Suc.prems by (simp add: less_mult_imp_div_less mult.commute)
    ultimately show ?thesis using Suc.IH [of "n div 10"] False by (subst show_nat.simps) simp
  qed (subst show_nat.simps, simp)
qed simp

lemma length_show_padded: "0 \<le> i \<Longrightarrow> i < 10 ^ k \<Longrightarrow> 0 < k \<Longrightarrow> length (show_padded k i) = k"
  using length_show_nat [of "nat i" k] by (simp add: show_padded_def nat_less_iff)

lemma show_padded_00: "show_padded 2 0 = ''00''"
  by code_simp

definition sample_tm :: c_tm where
  "sample_tm = \<lparr>tm_sec = 0, tm_min = 0, tm_hour = 0, tm_mday = 1, tm_mon = 0, tm_year = 120, tm_isdst = 0\<rparr>"

text \<open>
  The time stamps of the metadata. The month is printed as C counts it, from 0
  (January is month 00), and in a time zone that is a whole number of minutes away from
  UTC the minutes of the offset are always 00: half an hour is lost.
\<close>

lemma timestamp_month_and_offset:
  assumes "VitaMTP_Data_Make_Timestamp gmtime localtime mktime time = Some str"
    and "0 \<le> tm_year (localtime time) + 1900" and "tm_year (localtime time) + 1900 \<le> 9999"
    and "0 \<le> tm_mon (localtime time)" and "tm_mon (localtime time) \<le> 11"
    and "60 dvd (time - mktime (gmtime time))"
  shows "take 2 (drop 5 str) = show_padded 2 (tm_mon (localtime time)) \<and> drop (length str - 2) str = ''00''"
proof -
  let ?y = "show_padded 4 (tm_year (localtime time) + 1900)" and ?m = "show_padded 2 (tm_mon (localtime time))"
  have len: "length ?y = 4" "length ?m = 2" using assms(2-5) by (simp_all add: length_show_padded)
  have "\<bar>time - mktime (gmtime time)\<bar> mod 60 = 0" using assms(6) by (simp add: dvd_imp_mod_0)
  then have z: "show_padded 2 (\<bar>time - mktime (gmtime time)\<bar> mod 60) = ''00''"
    by (simp only: show_padded_00)
  have inj: "(if P then Some x else None) = Some y \<Longrightarrow> x = y" for P and x y :: string
    by (simp split: if_splits)
  from inj [OF assms(1) [unfolded VitaMTP_Data_Make_Timestamp_def Let_def z]]
  obtain mid where str: "str = ?y @ ''-'' @ ?m @ mid @ ''00''"
    by (metis append_assoc)
  then obtain pre where "str = pre @ ''00''" by (metis append_assoc)
  then have "drop (length str - 2) str = ''00''" by simp
  then show ?thesis by (simp add: str len)
qed

lemma timestamp_month_and_offset_witness:
  "\<exists>str. VitaMTP_Data_Make_Timestamp (\<lambda>t. sample_tm) (\<lambda>t. sample_tm) (\<lambda>tm. 0) 19800 = Some str \<and>
     take 2 (drop 5 str) = ''00'' \<and> drop (length str - 2) str = ''00''"
proof -
  have "\<exists>str. VitaMTP_Data_Make_Timestamp (\<lambda>t. sample_tm) (\<lambda>t. sample_tm) (\<lambda>tm. 0) 19800 = Some str"
    by (simp add: VitaMTP_Data_Make_Timestamp_def Let_def length_show_padded sample_tm_def)
  then obtain str where s: "VitaMTP_Data_Make_Timestamp (\<lambda>t. sample_tm) (\<lambda>t. sample_tm) (\<lambda>tm. 0) 19800 = Some str"
    by blast
  from timestamp_month_and_offset [OF this] s show ?thesis
    by (auto simp: sample_tm_def show_padded_00)
qed

lemma free_settings_iff:
  "VitaMTP_Data_Free_Settings accs \<noteq> None \<longleftrightarrow> accs = [] \<or> (\<exists>a. accs = [Some a])"
proof -
  have f: "free_accounts accs lst True pos = Some freed \<Longrightarrow> freed" for accs lst pos freed
    by (induction accs lst "True" pos rule: free_accounts.induct) auto
  have "free_accounts (Some a # b # accs) None False 0 \<noteq> Some False" for a b accs
    by (cases b) (auto dest: f)
  note two = this
  show ?thesis
  proof (cases accs)
    case (Cons x xs)
    then show ?thesis
      using two by (cases x; cases xs) (auto simp: VitaMTP_Data_Free_Settings_def bind_eq_Some_conv)
  qed (simp add: VitaMTP_Data_Free_Settings_def)
qed

text \<open>
  The settings structure can be freed only when it holds exactly one account: with a
  second one the structure is freed twice, since its address is that of the first account.
\<close>

lemma free_settings_safe_iff:
  "VitaMTP_Data_Free_Settings accs \<noteq> None \<longleftrightarrow> accs = [] \<or> (\<exists>a. accs = [Some a])"
  by (rule free_settings_iff)

end
