(* ===== verification/Vitamtp.thy ===== *)
theory Vitamtp
  imports Ptp_Ops Datautils
begin

unbundle bit_operations_syntax

text \<open>
  vitamtp.c and the two generic commands of device.c: the Vita's own PTP commands. Each is
  one transaction, or a few; the data of a command are little structures that are copied
  with \<open>memcpy\<close> from what the device sent. Where the C code copies whether or not the
  transaction succeeded, so does the model, and a copy that leaves the received data is
  \<open>None\<close>.
\<close>

section \<open>Codes\<close>

definition PTP_OC_VITA_GetVitaInfo :: u16 where "PTP_OC_VITA_GetVitaInfo = 0x9511"
definition PTP_OC_VITA_SendNumOfObject :: u16 where "PTP_OC_VITA_SendNumOfObject = 0x9513"
definition PTP_OC_VITA_GetBrowseInfo :: u16 where "PTP_OC_VITA_GetBrowseInfo = 0x9514"
definition PTP_OC_VITA_SendObjectMetadata :: u16 where "PTP_OC_VITA_SendObjectMetadata = 0x9515"
definition PTP_OC_VITA_SendObjectThumb :: u16 where "PTP_OC_VITA_SendObjectThumb = 0x9516"
definition PTP_OC_VITA_ReportResult :: u16 where "PTP_OC_VITA_ReportResult = 0x9518"
definition PTP_OC_VITA_SendInitiatorInfo :: u16 where "PTP_OC_VITA_SendInitiatorInfo = 0x951C"
definition PTP_OC_VITA_GetUrl :: u16 where "PTP_OC_VITA_GetUrl = 0x951F"
definition PTP_OC_VITA_SendHttpObjectFromURL :: u16 where "PTP_OC_VITA_SendHttpObjectFromURL = 0x9520"
definition PTP_OC_VITA_SendNPAccountInfo :: u16 where "PTP_OC_VITA_SendNPAccountInfo = 0x9523"
definition PTP_OC_VITA_GetSettingInfo :: u16 where "PTP_OC_VITA_GetSettingInfo = 0x9524"
definition PTP_OC_VITA_SendObjectStatus :: u16 where "PTP_OC_VITA_SendObjectStatus = 0x9528"
definition PTP_OC_VITA_SendHttpObjectPropFromURL :: u16 where "PTP_OC_VITA_SendHttpObjectPropFromURL = 0x9529"
definition PTP_OC_VITA_SendHostStatus :: u16 where "PTP_OC_VITA_SendHostStatus = 0x952A"
definition PTP_OC_VITA_SendPartOfObjectInit :: u16 where "PTP_OC_VITA_SendPartOfObjectInit = 0x952B"
definition PTP_OC_VITA_SendPartOfObject :: u16 where "PTP_OC_VITA_SendPartOfObject = 0x952C"
definition PTP_OC_VITA_OperateObject :: u16 where "PTP_OC_VITA_OperateObject = 0x952E"
definition PTP_OC_VITA_GetPartOfObject :: u16 where "PTP_OC_VITA_GetPartOfObject = 0x952F"
definition PTP_OC_VITA_SendStorageSize :: u16 where "PTP_OC_VITA_SendStorageSize = 0x9533"
definition PTP_OC_VITA_GetTreatObject :: u16 where "PTP_OC_VITA_GetTreatObject = 0x9534"
definition PTP_OC_VITA_SendCopyConfirmationInfo :: u16 where "PTP_OC_VITA_SendCopyConfirmationInfo = 0x9535"
definition PTP_OC_VITA_SendObjectMetadataItems :: u16 where "PTP_OC_VITA_SendObjectMetadataItems = 0x9536"
definition PTP_OC_VITA_SendCopyConfirmationInfoInit :: u16 where "PTP_OC_VITA_SendCopyConfirmationInfoInit = 0x9537"
definition PTP_OC_VITA_KeepAlive :: u16 where "PTP_OC_VITA_KeepAlive = 0x9538"
definition PTP_OC_VITA_GetVitaCapabilityInfo :: u16 where "PTP_OC_VITA_GetVitaCapabilityInfo = 0x953B"
definition PTP_OC_VITA_SendPCCapabilityInfo :: u16 where "PTP_OC_VITA_SendPCCapabilityInfo = 0x953C"

definition VITA_STORAGE_ID :: u32 where "VITA_STORAGE_ID = 0x00010001"
definition VITA_HOST_STATUS_Connected :: u32 where "VITA_HOST_STATUS_Connected = 0"
definition VITA_HOST_STATUS_EndConnection :: u32 where "VITA_HOST_STATUS_EndConnection = 3"
definition PTP_OFC_Undefined :: u16 where "PTP_OFC_Undefined = 0x3000"
definition PTP_OFC_Association :: u16 where "PTP_OFC_Association = 0x3001"
definition PTP_OFC_PSPSave :: u16 where "PTP_OFC_PSPSave = 0xB00A"
definition PTP_AT_GenericFolder :: u16 where "PTP_AT_GenericFolder = 0x0001"
definition PTP_OPC_ObjectFormat :: u16 where "PTP_OPC_ObjectFormat = 0xDC02"
definition PTP_OPC_ObjectSize :: u16 where "PTP_OPC_ObjectSize = 0xDC04"
definition PTP_OPC_ObjectFileName :: u16 where "PTP_OPC_ObjectFileName = 0xDC07"

section \<open>Generic commands\<close>

definition VitaMTP_SendData ::
  "'s io_funs \<Rightarrow> 's ptp_session \<Rightarrow> u32 \<Rightarrow> u16 \<Rightarrow> byte list \<Rightarrow> nat \<Rightarrow> (u16 \<times> 's ptp_session) option" where
  "VitaMTP_SendData F s event_id code dat len = do {
     (ret, _, _, s') \<leftarrow> ptp_transaction F s (ptp_request code [event_id]) PTP_DP_SENDDATA len dat;
     Some (ret, s') }"

definition VitaMTP_GetData ::
  "'s io_funs \<Rightarrow> 's ptp_session \<Rightarrow> u32 \<Rightarrow> u16 \<Rightarrow> (u16 \<times> byte list \<times> 's ptp_session) option" where
  "VitaMTP_GetData F s event_id code = do {
     (ret, _, dat, s') \<leftarrow> ptp_transaction F s (ptp_request code [event_id]) PTP_DP_GETDATA 0 [];
     Some (ret, dat, s') }"

text \<open>A command without data: the result code.\<close>

definition command ::
  "'s io_funs \<Rightarrow> 's ptp_session \<Rightarrow> u16 \<Rightarrow> u32 list \<Rightarrow> (u16 \<times> 's ptp_session) option" where
  "command F s code args = do {
     (ret, _, _, s') \<leftarrow> ptp_transaction F s (ptp_request code args) PTP_DP_NODATA 0 [];
     Some (ret, s') }"

text \<open>Fields of the packed structures, in the byte order of the host.\<close>

definition u32_at :: "byte list \<Rightarrow> nat \<Rightarrow> u32 option" where
  "u32_at bs off = map_option le_word (rd bs off 4)"

definition u64_at :: "byte list \<Rightarrow> nat \<Rightarrow> u64 option" where
  "u64_at bs off = map_option le_word (rd bs off 8)"

section \<open>Commands without data\<close>

definition VitaMTP_SendNumOfObject :: "'s io_funs \<Rightarrow> 's ptp_session \<Rightarrow> u32 \<Rightarrow> u32 \<Rightarrow> (u16 \<times> 's ptp_session) option" where
  "VitaMTP_SendNumOfObject F s event_id num = command F s PTP_OC_VITA_SendNumOfObject [event_id, num]"

definition VitaMTP_ReportResult :: "'s io_funs \<Rightarrow> 's ptp_session \<Rightarrow> u32 \<Rightarrow> u16 \<Rightarrow> (u16 \<times> 's ptp_session) option" where
  "VitaMTP_ReportResult F s event_id result = command F s PTP_OC_VITA_ReportResult [event_id, ucast result]"

definition VitaMTP_ReportResultWithParam ::
  "'s io_funs \<Rightarrow> 's ptp_session \<Rightarrow> u32 \<Rightarrow> u16 \<Rightarrow> u32 \<Rightarrow> (u16 \<times> 's ptp_session) option" where
  "VitaMTP_ReportResultWithParam F s event_id result param =
     command F s PTP_OC_VITA_ReportResult [event_id, ucast result, param]"

definition VitaMTP_SendHostStatus :: "'s io_funs \<Rightarrow> 's ptp_session \<Rightarrow> u32 \<Rightarrow> (u16 \<times> 's ptp_session) option" where
  "VitaMTP_SendHostStatus F s status = command F s PTP_OC_VITA_SendHostStatus [status]"

definition VitaMTP_KeepAlive :: "'s io_funs \<Rightarrow> 's ptp_session \<Rightarrow> u32 \<Rightarrow> (u16 \<times> 's ptp_session) option" where
  "VitaMTP_KeepAlive F s event_id = command F s PTP_OC_VITA_KeepAlive [event_id]"

definition VitaMTP_CancelTask :: "'s ptp_session \<Rightarrow> u32 \<Rightarrow> u16 \<times> 's ptp_session" where
  "VitaMTP_CancelTask s cancel_event_id = (PTP_RC_OK, s)"

section \<open>Commands that send data\<close>

definition VitaMTP_SendObjectMetadata ::
  "(xml \<Rightarrow> byte list) \<Rightarrow> (int \<Rightarrow> string option) \<Rightarrow> 's io_funs \<Rightarrow> 's ptp_session \<Rightarrow> u32 \<Rightarrow> metadata list \<Rightarrow>
     (u16 \<times> 's ptp_session) option" where
  "VitaMTP_SendObjectMetadata render stamp F s event_id metas = do {
     (dat, len) \<leftarrow> VitaMTP_Data_Metadata_To_XML render stamp metas;
     VitaMTP_SendData F s event_id PTP_OC_VITA_SendObjectMetadata dat len }"

definition VitaMTP_SendObjectThumb ::
  "(xml \<Rightarrow> byte list) \<Rightarrow> (int \<Rightarrow> string option) \<Rightarrow> 's io_funs \<Rightarrow> 's ptp_session \<Rightarrow> u32 \<Rightarrow> metadata list \<Rightarrow>
     byte list \<Rightarrow> u64 \<Rightarrow> (u16 \<times> 's ptp_session) option" where
  "VitaMTP_SendObjectThumb render stamp F s event_id metas thumb_data thumb_len = do {
     (dat, len) \<leftarrow> VitaMTP_Data_Metadata_To_XML render stamp metas;
     head \<leftarrow> rd dat 0 len;
     thumb \<leftarrow> rd thumb_data 0 (unat thumb_len);
     let new_data = head @ le_bytes 8 thumb_len @ thumb;
     VitaMTP_SendData F s event_id PTP_OC_VITA_SendObjectThumb new_data (uint32 (length new_data)) }"

definition VitaMTP_SendInitiatorInfo ::
  "'s io_funs \<Rightarrow> 's ptp_session \<Rightarrow> initiator_info \<Rightarrow> (u16 \<times> 's ptp_session) option" where
  "VitaMTP_SendInitiatorInfo F s info = do {
     (dat, len) \<leftarrow> VitaMTP_Data_Initiator_To_XML info;
     (ret, _, _, s') \<leftarrow> ptp_transaction F s (ptp_request PTP_OC_VITA_SendInitiatorInfo []) PTP_DP_SENDDATA len dat;
     Some (ret, s') }"

definition VitaMTP_SendHttpObjectFromURL ::
  "'s io_funs \<Rightarrow> 's ptp_session \<Rightarrow> u32 \<Rightarrow> byte list \<Rightarrow> u32 \<Rightarrow> (u16 \<times> 's ptp_session) option" where
  "VitaMTP_SendHttpObjectFromURL F s event_id dat len = do {
     body \<leftarrow> rd dat 0 (unat len);
     VitaMTP_SendData F s event_id PTP_OC_VITA_SendHttpObjectFromURL
       (le_bytes 8 (ucast len :: u64) @ body) (uint32 (unat len + 8)) }"

definition VitaMTP_SendNPAccountInfo ::
  "'s io_funs \<Rightarrow> 's ptp_session \<Rightarrow> u32 \<Rightarrow> byte list \<Rightarrow> u32 \<Rightarrow> (u16 \<times> 's ptp_session) option" where
  "VitaMTP_SendNPAccountInfo F s event_id dat len =
     VitaMTP_SendData F s event_id PTP_OC_VITA_SendNPAccountInfo dat (unat len)"

text \<open>The structure without its pointer is nine bytes.\<close>

record http_object_prop =
  hp_size :: u64
  hp_timestamp_len :: byte
  hp_timestamp :: "byte list"

definition VitaMTP_SendHttpObjectPropFromURL ::
  "'s io_funs \<Rightarrow> 's ptp_session \<Rightarrow> u32 \<Rightarrow> http_object_prop \<Rightarrow> (u16 \<times> 's ptp_session) option" where
  "VitaMTP_SendHttpObjectPropFromURL F s event_id prop = do {
     stamp \<leftarrow> rd (hp_timestamp prop) 0 (unat (hp_timestamp_len prop));
     VitaMTP_SendData F s event_id PTP_OC_VITA_SendHttpObjectPropFromURL
       (le_bytes 8 (hp_size prop) @ [hp_timestamp_len prop] @ stamp) (9 + unat (hp_timestamp_len prop)) }"

definition VitaMTP_SendPartOfObject ::
  "'s io_funs \<Rightarrow> 's ptp_session \<Rightarrow> u32 \<Rightarrow> byte list \<Rightarrow> u64 \<Rightarrow> (u16 \<times> 's ptp_session) option" where
  "VitaMTP_SendPartOfObject F s event_id obj_bytes object_len = do {
     body \<leftarrow> rd obj_bytes 0 (unat object_len);
     VitaMTP_SendData F s event_id PTP_OC_VITA_SendPartOfObject
       (le_bytes 8 object_len @ body) (uint32 (unat object_len + 8)) }"

definition VitaMTP_SendStorageSize ::
  "'s io_funs \<Rightarrow> 's ptp_session \<Rightarrow> u32 \<Rightarrow> u64 \<Rightarrow> u64 \<Rightarrow> (u16 \<times> 's ptp_session) option" where
  "VitaMTP_SendStorageSize F s event_id storage_size available_size =
     VitaMTP_SendData F s event_id PTP_OC_VITA_SendStorageSize
       (le_bytes 8 storage_size @ le_bytes 8 available_size @ replicate 4 0 @ replicate 5 0xFF) 25"

text \<open>
  \<open>info\<close> is the structure as it was received: a count and that many ids. Its size is
  computed as an \<open>int\<close>.
\<close>

definition VitaMTP_SendCopyConfirmationInfo ::
  "'s io_funs \<Rightarrow> 's ptp_session \<Rightarrow> u32 \<Rightarrow> byte list \<Rightarrow> u64 \<Rightarrow> (u16 \<times> 's ptp_session) option" where
  "VitaMTP_SendCopyConfirmationInfo F s event_id info sz = do {
     count \<leftarrow> u32_at info 0;
     let info_size = sint (count * 4 + 4);
     (if info_size < 0 then None
      else do {
        body \<leftarrow> rd info 0 (nat info_size);
        VitaMTP_SendData F s event_id PTP_OC_VITA_SendCopyConfirmationInfo (le_bytes 8 sz @ body) (nat info_size + 8) }) }"

definition VitaMTP_SendPCCapabilityInfo :: "'s io_funs \<Rightarrow> 's ptp_session \<Rightarrow> (u16 \<times> 's ptp_session) option" where
  "VitaMTP_SendPCCapabilityInfo F s = do {
     (dat, len) \<leftarrow> VitaMTP_Data_Capability_To_XML;
     (ret, _, _, s') \<leftarrow> ptp_transaction F s (ptp_request PTP_OC_VITA_SendPCCapabilityInfo []) PTP_DP_SENDDATA len dat;
     Some (ret, s') }"

section \<open>Commands that get data\<close>

record browse_info =
  bi_ohfiParent :: u32
  bi_numObjects :: u32

record object_status =
  os_ohfiRoot :: u32
  os_title :: "byte list"

record send_part_init =
  sp_ohfi :: u32
  sp_offset :: u64
  sp_size :: u64

record operate_object =
  op_cmd :: u32
  op_ohfi :: u32
  op_title :: "byte list"

record treat_object =
  to_ohfiParent :: u32
  to_handle :: u32


text \<open>Copied whatever the result is.\<close>

definition VitaMTP_GetBrowseInfo ::
  "'s io_funs \<Rightarrow> 's ptp_session \<Rightarrow> u32 \<Rightarrow> (u16 \<times> browse_info \<times> 's ptp_session) option" where
  "VitaMTP_GetBrowseInfo F s event_id = do {
     (ret, dat, s') \<leftarrow> VitaMTP_GetData F s event_id PTP_OC_VITA_GetBrowseInfo;
     parent \<leftarrow> u32_at dat 0;
     num \<leftarrow> u32_at dat 12;
     _ \<leftarrow> rd dat 0 20;
     Some (ret, \<lparr>bi_ohfiParent = parent, bi_numObjects = num\<rparr>, s') }"

text \<open>\<open>None\<close> in the result: the caller's pointer is not set.\<close>

definition VitaMTP_GetUrl ::
  "'s io_funs \<Rightarrow> 's ptp_session \<Rightarrow> u32 \<Rightarrow> (u16 \<times> byte list option \<times> 's ptp_session) option" where
  "VitaMTP_GetUrl F s event_id = do {
     (ret, dat, s') \<leftarrow> VitaMTP_GetData F s event_id PTP_OC_VITA_GetUrl;
     (if ret \<noteq> PTP_RC_OK \<or> length dat = 0 then Some (ret, None, s')
      else do {
        url_len \<leftarrow> u32_at dat 8;
        (if sint url_len < 0 then None
         else do {
           url \<leftarrow> rd dat 12 (unat url_len);
           Some (ret, Some url, s') }) }) }"

text \<open>The four bytes in front of the document are skipped; an XML error is a general error.\<close>

definition VitaMTP_GetVitaInfo ::
  "(byte list \<Rightarrow> xml option) \<Rightarrow> 's io_funs \<Rightarrow> 's ptp_session \<Rightarrow> vita_info \<Rightarrow> (u16 \<times> vita_info \<times> 's ptp_session) option" where
  "VitaMTP_GetVitaInfo xmlReadMemory F s info = do {
     (ret, _, dat, s') \<leftarrow> ptp_transaction F s (ptp_request PTP_OC_VITA_GetVitaInfo []) PTP_DP_GETDATA 0 [];
     (if ret \<noteq> PTP_RC_OK \<or> length dat = 0 then Some (ret, info, s')
      else if length dat < 4 then None
      else do {
        (r, info') \<leftarrow> VitaMTP_Data_Info_From_XML xmlReadMemory info (drop 4 dat);
        Some (if r \<noteq> 0 then PTP_RC_GeneralError else ret, info', s') }) }"

definition VitaMTP_GetSettingInfo ::
  "(byte list \<Rightarrow> xml option) \<Rightarrow> 's io_funs \<Rightarrow> 's ptp_session \<Rightarrow> u32 \<Rightarrow>
     (u16 \<times> account option list option \<times> 's ptp_session) option" where
  "VitaMTP_GetSettingInfo xmlReadMemory F s event_id = do {
     (ret, dat, s') \<leftarrow> VitaMTP_GetData F s event_id PTP_OC_VITA_GetSettingInfo;
     (if ret \<noteq> PTP_RC_OK \<or> length dat = 0 then Some (ret, None, s')
      else if length dat < 4 then None
      else (let (r, accs) = VitaMTP_Data_Settings_From_XML xmlReadMemory (drop 4 dat) in
            Some (if r \<noteq> 0 then (PTP_RC_GeneralError, None, s') else (ret, Some accs, s')))) }"

text \<open>The information itself is not parsed; the flag says whether the caller's pointer is set.\<close>

definition VitaMTP_GetVitaCapabilityInfo :: "'s io_funs \<Rightarrow> 's ptp_session \<Rightarrow> (u16 \<times> bool \<times> 's ptp_session) option" where
  "VitaMTP_GetVitaCapabilityInfo F s = do {
     (ret, _, dat, s') \<leftarrow> ptp_transaction F s (ptp_request PTP_OC_VITA_GetVitaCapabilityInfo []) PTP_DP_GETDATA 0 [];
     Some (ret, ret = PTP_RC_OK \<and> dat \<noteq> [], s') }"

definition VitaMTP_SendObjectStatus ::
  "'s io_funs \<Rightarrow> 's ptp_session \<Rightarrow> u32 \<Rightarrow> (u16 \<times> object_status option \<times> 's ptp_session) option" where
  "VitaMTP_SendObjectStatus F s event_id = do {
     (ret, dat, s') \<leftarrow> VitaMTP_GetData F s event_id PTP_OC_VITA_SendObjectStatus;
     (if ret \<noteq> PTP_RC_OK then Some (ret, None, s')
      else do {
        root \<leftarrow> u32_at dat 0;
        len \<leftarrow> u32_at dat 4;
        title \<leftarrow> rd dat 8 (unat len);
        Some (ret, Some \<lparr>os_ohfiRoot = root, os_title = title\<rparr>, s') }) }"

definition part_init :: "byte list \<Rightarrow> send_part_init option" where
  "part_init dat = do {
     k \<leftarrow> u32_at dat 0;
     off \<leftarrow> u64_at dat 4;
     sz \<leftarrow> u64_at dat 12;
     Some \<lparr>sp_ohfi = k, sp_offset = off, sp_size = sz\<rparr> }"

definition VitaMTP_SendPartOfObjectInit ::
  "'s io_funs \<Rightarrow> 's ptp_session \<Rightarrow> u32 \<Rightarrow> (u16 \<times> send_part_init option \<times> 's ptp_session) option" where
  "VitaMTP_SendPartOfObjectInit F s event_id = do {
     (ret, dat, s') \<leftarrow> VitaMTP_GetData F s event_id PTP_OC_VITA_SendPartOfObjectInit;
     (if ret \<noteq> PTP_RC_OK then Some (ret, None, s')
      else do { init \<leftarrow> part_init dat; Some (ret, Some init, s') }) }"

text \<open>The length plus one is a 32-bit sum.\<close>

definition VitaMTP_OperateObject ::
  "'s io_funs \<Rightarrow> 's ptp_session \<Rightarrow> u32 \<Rightarrow> (u16 \<times> operate_object \<times> 's ptp_session) option" where
  "VitaMTP_OperateObject F s event_id = do {
     (ret, dat, s') \<leftarrow> VitaMTP_GetData F s event_id PTP_OC_VITA_OperateObject;
     cmd \<leftarrow> u32_at dat 0;
     k \<leftarrow> u32_at dat 4;
     _ \<leftarrow> u32_at dat 8;
     len \<leftarrow> u32_at dat 12;
     title \<leftarrow> rd dat 16 (unat (len + 1));
     Some (ret, \<lparr>op_cmd = cmd, op_ohfi = k, op_title = title\<rparr>, s') }"

definition VitaMTP_GetPartOfObject ::
  "'s io_funs \<Rightarrow> 's ptp_session \<Rightarrow> u32 \<Rightarrow> (u16 \<times> send_part_init \<times> byte list \<times> 's ptp_session) option" where
  "VitaMTP_GetPartOfObject F s event_id = do {
     (ret, dat, s') \<leftarrow> VitaMTP_GetData F s event_id PTP_OC_VITA_GetPartOfObject;
     init \<leftarrow> part_init dat;
     body \<leftarrow> rd dat 20 (unat (sp_size init));
     Some (ret, init, body, s') }"

definition VitaMTP_GetTreatObject ::
  "'s io_funs \<Rightarrow> 's ptp_session \<Rightarrow> u32 \<Rightarrow> (u16 \<times> treat_object \<times> 's ptp_session) option" where
  "VitaMTP_GetTreatObject F s event_id = do {
     (ret, dat, s') \<leftarrow> VitaMTP_GetData F s event_id PTP_OC_VITA_GetTreatObject;
     parent \<leftarrow> u32_at dat 0;
     _ \<leftarrow> u32_at dat 4;
     h \<leftarrow> u32_at dat 8;
     Some (ret, \<lparr>to_ohfiParent = parent, to_handle = h\<rparr>, s') }"

definition VitaMTP_SendCopyConfirmationInfoInit ::
  "'s io_funs \<Rightarrow> 's ptp_session \<Rightarrow> u32 \<Rightarrow> (u16 \<times> byte list \<times> 's ptp_session) option" where
  "VitaMTP_SendCopyConfirmationInfoInit F s event_id =
     VitaMTP_GetData F s event_id PTP_OC_VITA_SendCopyConfirmationInfoInit"

definition VitaMTP_SendObjectMetadataItems ::
  "'s io_funs \<Rightarrow> 's ptp_session \<Rightarrow> u32 \<Rightarrow> (u16 \<times> u32 option \<times> 's ptp_session) option" where
  "VitaMTP_SendObjectMetadataItems F s event_id = do {
     (ret, dat, s') \<leftarrow> VitaMTP_GetData F s event_id PTP_OC_VITA_SendObjectMetadataItems;
     (if ret \<noteq> PTP_RC_OK then Some (ret, None, s')
      else do { k \<leftarrow> u32_at dat 0; Some (ret, Some k, s') }) }"

section \<open>Objects\<close>

text \<open>
  \<open>VitaMTP_SendObject\<close> gives the result, the parent handle and the handle that the device
  chose; \<open>None\<close> for the handle when nothing was sent. \<open>objectinfo\<close> is zeroed and \<open>data\<close> is
  not used for a folder.
\<close>

definition VitaMTP_SendObject ::
  "'s io_funs \<Rightarrow> 's ptp_session \<Rightarrow> u32 \<Rightarrow> metadata \<Rightarrow> byte list \<Rightarrow>
     (u16 \<times> u32 \<times> u32 option \<times> 's ptp_session) option" where
  "VitaMTP_SendObject F s parenthandle md dat =
     (let info = ptp_object_info_zero\<lparr>oi_StorageID := VITA_STORAGE_ID, oi_ParentObject := parenthandle,
            oi_Filename := map_option bytes_of (md_name md)\<rparr>
      in if dataType md AND Folder \<noteq> 0 then do {
           (ret, (_, parent', h'), s') \<leftarrow> ptp_sendobjectinfo F s VITA_STORAGE_ID parenthandle
              (info\<lparr>oi_ObjectFormat := PTP_OFC_Association, oi_AssociationType := PTP_AT_GenericFolder\<rparr>);
           Some (ret, parent', Some h', s') }
         else if dataType md AND File \<noteq> 0 then do {
           (ret, (_, parent', h'), s1) \<leftarrow> ptp_sendobjectinfo F s VITA_STORAGE_ID parenthandle
              (info\<lparr>oi_ObjectFormat := (if dataType md AND SaveData \<noteq> 0 then PTP_OFC_PSPSave else PTP_OFC_Undefined),
                    oi_ObjectCompressedSize := ucast (md_size md),
                    oi_CaptureDate := int (dateTimeCreated md), oi_ModificationDate := int (dateTimeCreated md)\<rparr>);
           (if ret \<noteq> PTP_RC_OK then Some (ret, parent', Some h', s1)
            else do {
              (ret2, s2) \<leftarrow> ptp_sendobject F s1 dat (ucast (md_size md));
              Some (ret2, parent', Some h', s2) }) }
         else Some (PTP_RC_OperationNotSupported, parenthandle, None, s))"

text \<open>What comes back for a handle: the handles in a folder, or a file.\<close>

datatype got_object =
    Got_Folder "byte list option" "u32 list"
  | Got_File "byte list option" u64 "byte list"

text \<open>
  A value that the device did not send is an uninitialised union and reading it is \<open>None\<close>;
  an inner \<open>None\<close> is an error code.
\<close>

definition VitaMTP_GetObject ::
  "'s io_funs \<Rightarrow> 's ptp_session \<Rightarrow> u32 \<Rightarrow> (u16 \<times> got_object option \<times> 's ptp_session) option" where
  "VitaMTP_GetObject F s h = do {
     (ret1, v1, s1) \<leftarrow> ptp_mtp_getobjectpropvalue F s h PTP_OPC_ObjectFormat PV_unset PTP_DTC_UINT16;
     (case v1 of
        None \<Rightarrow> Some (ret1, None, s1)
      | Some w1 \<Rightarrow> do {
          fmt \<leftarrow> pv_16 w1;
          (ret2, v2, s2) \<leftarrow> ptp_mtp_getobjectpropvalue F s1 h PTP_OPC_ObjectFileName w1 PTP_DTC_STR;
          (case v2 of
             None \<Rightarrow> Some (ret2, None, s2)
           | Some w2 \<Rightarrow> do {
               name \<leftarrow> (case w2 of PV_str str \<Rightarrow> Some str | _ \<Rightarrow> None);
               (if fmt = PTP_OFC_Association then do {
                  (ret3, hs, s3) \<leftarrow> ptp_getobjecthandles F s2 VITA_STORAGE_ID 0 h;
                  Some (ret3, map_option (Got_Folder name) hs, s3) }
                else do {
                  (ret3, v3, s3) \<leftarrow> ptp_mtp_getobjectpropvalue F s2 h PTP_OPC_ObjectSize w2 PTP_DTC_UINT64;
                  (case v3 of
                     None \<Rightarrow> Some (ret3, None, s3)
                   | Some w3 \<Rightarrow> do {
                       sz \<leftarrow> pv_64 w3;
                       (ret4, dat, s4) \<leftarrow> ptp_getobject F s3 h;
                       Some (ret4, Some (Got_File name sz dat), s4) }) }) }) }) }"

text \<open>
  The first bytes of an object go into an array of \<open>0x400\<close>; what the device sends is not
  checked against it.
\<close>

definition VitaMTP_CheckExistance ::
  "'s io_funs \<Rightarrow> 's ptp_session \<Rightarrow> u32 \<Rightarrow> (u16 \<times> byte list option option \<times> 's ptp_session) option" where
  "VitaMTP_CheckExistance F s h = do {
     (ret1, v1, s1) \<leftarrow> ptp_mtp_getobjectpropvalue F s h PTP_OPC_ObjectSize PV_unset PTP_DTC_UINT64;
     (case v1 of
        None \<Rightarrow> Some (ret1, None, s1)
      | Some w1 \<Rightarrow> do {
          _ \<leftarrow> pv_64 w1;
          (ret2, v2, s2) \<leftarrow> ptp_mtp_getobjectpropvalue F s1 h PTP_OPC_ObjectFileName w1 PTP_DTC_STR;
          (case v2 of
             None \<Rightarrow> Some (ret2, None, s2)
           | Some w2 \<Rightarrow> do {
               name \<leftarrow> (case w2 of PV_str str \<Rightarrow> Some str | _ \<Rightarrow> None);
               (ret3, dat, s3) \<leftarrow> ptp_getpartialobject F s2 h 0 0x400;
               (if ret3 \<noteq> PTP_RC_OK then Some (ret3, None, s3)
                else if 0x400 < length dat then None
                else Some (ret3, Some name, s3)) }) }) }"

end
