(* ===== verification/Opencma.thy ===== *)
theory Opencma
  imports Vitamtp Catalog
begin

unbundle bit_operations_syntax

text \<open>
  The event handlers of \<open>src/src/opencma.c\<close>. Each handler is one function from the world
  before the event to the world after it: the PTP session, the object database
  (\<open>None\<close> for a NULL \<open>g_database\<close>), the file system, the account id, the semaphore
  that asks for a refresh, the connected flag and the depth of the recursive database lock.
  \<open>None\<close> as a result: the C code reads memory it must not read, or it does not return.
\<close>

section \<open>Codes\<close>

definition PTP_RC_VITA_Invalid_Context :: u16 where "PTP_RC_VITA_Invalid_Context = 0xA001"
definition PTP_RC_VITA_Not_Ready :: u16 where "PTP_RC_VITA_Not_Ready = 0xA002"
definition PTP_RC_VITA_Invalid_OHFI :: u16 where "PTP_RC_VITA_Invalid_OHFI = 0xA003"
definition PTP_RC_VITA_Invalid_Data :: u16 where "PTP_RC_VITA_Invalid_Data = 0xA004"
definition PTP_RC_VITA_Not_Exist_Object :: u16 where "PTP_RC_VITA_Not_Exist_Object = 0xA00A"
definition PTP_RC_VITA_Invalid_Permission :: u16 where "PTP_RC_VITA_Invalid_Permission = 0xA012"
definition PTP_RC_VITA_Failed_Download :: u16 where "PTP_RC_VITA_Failed_Download = 0xA018"
definition PTP_RC_VITA_Failed_Operate_Object :: u16 where "PTP_RC_VITA_Failed_Operate_Object = 0xA01F"
definition PTP_RC_VITA_Same_Object :: u16 where "PTP_RC_VITA_Same_Object = 0xA022"
definition PTP_RC_VITA_Different_Object :: u16 where "PTP_RC_VITA_Different_Object = 0xA023"

definition PTP_EC_VITA_RequestSendNumOfObject :: u16 where "PTP_EC_VITA_RequestSendNumOfObject = 0xC104"

definition VITA_OPERATE_CREATE_FOLDER :: u32 where "VITA_OPERATE_CREATE_FOLDER = 1"
definition VITA_OPERATE_RENAME :: u32 where "VITA_OPERATE_RENAME = 3"
definition VITA_OPERATE_CREATE_FILE :: u32 where "VITA_OPERATE_CREATE_FILE = 4"

definition LERROR :: u32 where "LERROR = 1"

section \<open>The world and the environment\<close>

record vita_event =
  ev_Code :: u16
  ev_Param1 :: u32
  ev_Param2 :: u32
  ev_Param3 :: u32

record 's world =
  w_sess :: "'s ptp_session"
  w_db :: "cma_db option"
  w_fs :: fs
  w_uuid :: string
  w_refresh :: nat
  w_connected :: bool
  w_lock :: nat

text \<open>
  What is outside the program: the transport, the XML library, the system's answers about
  files (\<open>e_may\<close>), disks and directories, whether the refresh thread was scheduled while a
  handler slept, and the value that an uninitialised variable happens to have.
\<close>

record 's env =
  e_io :: "'s io_funs"
  e_render :: "xml \<Rightarrow> byte list"
  e_stamp :: "int \<Rightarrow> string option"
  e_xmlRead :: "byte list \<Rightarrow> xml option"
  e_may :: "string \<Rightarrow> bool"
  e_space :: "string \<Rightarrow> (u64 \<times> u64) option"
  e_dir :: "fs \<Rightarrow> string \<Rightarrow> string list option"
  e_stat :: "fs \<Rightarrow> string \<Rightarrow> (bool \<times> u64) option"
  e_depth :: nat
  e_paths :: cma_paths
  e_log_level :: u32
  e_slept :: bool
  e_junk :: u64

definition lockDatabase :: "'s world \<Rightarrow> 's world" where
  "lockDatabase w = w\<lparr>w_lock := w_lock w + 1\<rparr>"

definition unlockDatabase :: "'s world \<Rightarrow> 's world" where
  "unlockDatabase w = w\<lparr>w_lock := w_lock w - 1\<rparr>"

text \<open>A C string in a buffer; without a terminator its reader leaves the buffer.\<close>

definition str_of :: "byte list \<Rightarrow> string option" where
  "str_of bs = (if 0 \<in> set bs then Some (map (\<lambda>b. char_of (unat b)) (cstr bs)) else None)"

text \<open>The results of the reports are not looked at.\<close>

definition report :: "'s env \<Rightarrow> 's world \<Rightarrow> u32 \<Rightarrow> u16 \<Rightarrow> 's world option" where
  "report E w eventId code = do {
     (_, s) \<leftarrow> VitaMTP_ReportResult (e_io E) (w_sess w) eventId code;
     Some (w\<lparr>w_sess := s\<rparr>) }"

definition report_param :: "'s env \<Rightarrow> 's world \<Rightarrow> u32 \<Rightarrow> u16 \<Rightarrow> u32 \<Rightarrow> 's world option" where
  "report_param E w eventId code param = do {
     (_, s) \<leftarrow> VitaMTP_ReportResultWithParam (e_io E) (w_sess w) eventId code param;
     Some (w\<lparr>w_sess := s\<rparr>) }"

text \<open>What most handlers do with the result of the command that answers the event.\<close>

definition report_sent :: "'s env \<Rightarrow> 's world \<Rightarrow> u32 \<Rightarrow> u16 \<times> 's ptp_session \<Rightarrow> 's world option" where
  "report_sent E w eventId r =
     (let w' = w\<lparr>w_sess := snd r\<rparr> in
      if fst r \<noteq> PTP_RC_OK then Some w' else report E w' eventId PTP_RC_OK)"

section \<open>Refreshing the database\<close>

text \<open>All objects are freed, the pointer is reset; nothing happens without a database.\<close>

definition destroyDatabase :: "'s world \<Rightarrow> 's world" where
  "destroyDatabase w = w\<lparr>w_db := None\<rparr>"

definition refreshDatabase :: "'s env \<Rightarrow> 's world \<Rightarrow> 's world option" where
  "refreshDatabase E w = do {
     db \<leftarrow> createDatabase (e_depth E) (e_dir E (w_fs w)) (e_stat E (w_fs w)) (e_paths E) (w_uuid w);
     Some (w\<lparr>w_db := Some db\<rparr>) }"

text \<open>One round of the loop of \<open>main\<close>; \<open>LOCK_SEMAPHORE\<close> takes all further requests.\<close>

definition refresh_round :: "'s env \<Rightarrow> 's world \<Rightarrow> 's world option" where
  "refresh_round E w =
     (if \<not> w_connected w then Some w
      else do {
        w' \<leftarrow> refreshDatabase E (destroyDatabase w);
        Some (w'\<lparr>w_refresh := 0\<rparr>) })"

section \<open>Sizes\<close>

text \<open>
  The loop climbs from the object to its ancestors. Every object is passed at most once
  unless the parents form a cycle, in which case the loop does not end.
\<close>

fun climb_sizes :: "nat \<Rightarrow> u64 \<Rightarrow> objref \<Rightarrow> cma_db \<Rightarrow> cma_db option" where
  "climb_sizes 0 n r db = None"
| "climb_sizes (Suc fuel) n r db =
     (let db' = update_obj r (add_size n) db; parent = o_parent (deref db' r) in
      if parent > 0 then
        (case ohfiToObject db' parent of
           None \<Rightarrow> Some db'
         | Some r' \<Rightarrow> climb_sizes fuel n r' db')
      else Some db')"

definition incrementSizeMetadata :: "cma_db \<Rightarrow> objref \<Rightarrow> u64 \<Rightarrow> cma_db option" where
  "incrementSizeMetadata db r n = climb_sizes (length (concat (db_chains db)) + 1) n r db"

section \<open>Objects to the device\<close>

text \<open>\<open>sleep(1)\<close> gives the main thread time to refresh, or not.\<close>

definition vitaEventSendNumOfObject :: "'s env \<Rightarrow> vita_event \<Rightarrow> u32 \<Rightarrow> 's world \<Rightarrow> 's world option" where
  "vitaEventSendNumOfObject E ev eventId w0 =
     (let k = sint (ev_Param2 ev) in do {
        w \<leftarrow> (if k = VITA_OHFI_PACKAGE \<and> w_db w0 = None then
                (let w1 = w0\<lparr>w_uuid := ''0000000000000000'', w_refresh := w_refresh w0 + 1\<rparr> in
                 if e_slept E then refresh_round E w1 else Some w1)
              else Some w0);
        (case w_db w of
           None \<Rightarrow> report E w eventId PTP_RC_VITA_Not_Ready
         | Some db \<Rightarrow> do {
             let w2 = lockDatabase w;
             let items = length (filterObjects db k);
             r \<leftarrow> VitaMTP_SendNumOfObject (e_io E) (w_sess w2) eventId (of_nat items);
             w3 \<leftarrow> report_sent E w2 eventId r;
             Some (unlockDatabase w3) }) })"

text \<open>For an unknown object \<open>filterObjects\<close> returns without setting \<open>meta\<close>.\<close>

definition vitaEventSendObjectMetadata :: "'s env \<Rightarrow> vita_event \<Rightarrow> u32 \<Rightarrow> 's world \<Rightarrow> 's world option" where
  "vitaEventSendObjectMetadata E ev eventId w0 = do {
     (ret, browse, s) \<leftarrow> VitaMTP_GetBrowseInfo (e_io E) (w_sess w0) eventId;
     let w = w0\<lparr>w_sess := s\<rparr>;
     (if ret \<noteq> PTP_RC_OK then Some w
      else do {
        let w1 = lockDatabase w;
        db \<leftarrow> w_db w1;
        _ \<leftarrow> ohfiToObject db (sint (bi_ohfiParent browse));
        r \<leftarrow> VitaMTP_SendObjectMetadata (e_render E) (e_stamp E) (e_io E) (w_sess w1) eventId
               (filterObjects db (sint (bi_ohfiParent browse)));
        w2 \<leftarrow> report_sent E w1 eventId r;
        Some (unlockDatabase w2) }) }"

datatype send_end = All_sent u32 | Unreadable | Send_failed

text \<open>
  The loop of \<open>vitaEventSendObject\<close>: \<open>xs\<close> are the objects that have not been sent, the
  first of them at position \<open>j\<close> of list \<open>i\<close>; \<open>h\<close> and \<open>ph\<close> are the variables \<open>handle\<close> and
  \<open>parentHandle\<close>. The parent's handle is looked for among the objects sent before.
\<close>

definition parent_handle :: "cma_object list \<Rightarrow> cma_object \<Rightarrow> u32 \<Rightarrow> u32" where
  "parent_handle earlier x ph =
     (case find (\<lambda>t. o_ohfi t = o_parent x) earlier of Some t \<Rightarrow> handle (meta t) | None \<Rightarrow> ph)"

definition set_handle :: "u32 \<Rightarrow> cma_object \<Rightarrow> cma_object" where
  "set_handle h obj = obj\<lparr>meta := (meta obj)\<lparr>handle := h\<rparr>\<rparr>"

fun send_objects ::
  "'s env \<Rightarrow> nat \<Rightarrow> nat \<Rightarrow> nat \<Rightarrow> cma_object list \<Rightarrow> u32 \<Rightarrow> u32 \<Rightarrow> 's world \<Rightarrow> (send_end \<times> 's world) option" where
  "send_objects E i start j [] h ph w = Some (All_sent h, w)"
| "send_objects E i start j (x # xs) h ph w =
     (if start < j \<and> o_parent x < OHFI_OFFSET then Some (All_sent h, w)
      else
        (case (if dataType (meta x) AND File \<noteq> 0
               then map_option fst (readFileToBuffer (w_fs w) (o_path x) 0 (ucast (md_size (meta x))))
               else Some []) of
           None \<Rightarrow> Some (Unreadable, w)
         | Some dat \<Rightarrow> do {
             db \<leftarrow> w_db w;
             let ph1 = parent_handle (drop start (take j (db_chains db ! i))) x ph;
             (ret, ph2, h', s) \<leftarrow> VitaMTP_SendObject (e_io E) (w_sess w) ph1 (meta x) dat;
             let w' = w\<lparr>w_sess := s\<rparr>;
             (if ret \<noteq> PTP_RC_OK then Some (Send_failed, w')
              else do {
                h2 \<leftarrow> h';
                send_objects E i start (j + 1) xs h2 ph2
                  (w'\<lparr>w_db := Some (update_obj (i, j) (set_handle h2) db)\<rparr>) }) }))"

definition vitaEventSendObject :: "'s env \<Rightarrow> vita_event \<Rightarrow> u32 \<Rightarrow> 's world \<Rightarrow> 's world option" where
  "vitaEventSendObject E ev eventId w0 = do {
     let w = lockDatabase w0;
     db \<leftarrow> w_db w;
     (case ohfiToObject db (sint (ev_Param2 ev)) of
        None \<Rightarrow> report E (unlockDatabase w) eventId PTP_RC_VITA_Invalid_OHFI
      | Some r \<Rightarrow> do {
          (fin, w1) \<leftarrow> send_objects E (fst r) (snd r) (snd r) (drop (snd r) (db_chains db ! fst r))
                         0 (ev_Param3 ev) w;
          (case fin of
             Unreadable \<Rightarrow> report E (unlockDatabase w1) eventId PTP_RC_VITA_Not_Exist_Object
           | Send_failed \<Rightarrow> Some (unlockDatabase w1)
           | All_sent h \<Rightarrow> do {
               w2 \<leftarrow> report_param E (unlockDatabase w1) eventId PTP_RC_OK h;
               report E w2 eventId PTP_RC_VITA_Invalid_Data }) }) }"

definition vitaEventCancelTask :: "'s env \<Rightarrow> vita_event \<Rightarrow> u32 \<Rightarrow> 's world \<Rightarrow> 's world option" where
  "vitaEventCancelTask E ev eventId w =
     Some (w\<lparr>w_sess := snd (VitaMTP_CancelTask (w_sess w) (ev_Param2 ev))\<rparr>)"

section \<open>URLs\<close>

definition update_region :: "string \<Rightarrow> string" where
  "update_region r = ''<region id=\"'' @ r @
     ''\"><np level0_system_version=\"00.000.000\" level1_system_version=\"00.000.000\" level2_system_version=\"00.000.000\" map=\"00.000.000\" /><version system_version=\"00.000.000\" label=\"0.00\"></version></region>''"

definition g_update_list :: string where
  "g_update_list = ''<?xml version=\"1.0\" encoding=\"UTF-8\"?><update_data_list>'' @
     concat (map update_region [''au'', ''eu'', ''jp'', ''kr'', ''mx'', ''ru'', ''tw'', ''uk'', ''us'']) @
     ''</update_data_list>''"

text \<open>
  A failed download is logged after \<open>url\<close> was freed, so with error logging on, which is the
  default, the handler ends in undefined behaviour.
\<close>

definition vitaEventSendHttpObjectFromURL :: "'s env \<Rightarrow> vita_event \<Rightarrow> u32 \<Rightarrow> 's world \<Rightarrow> 's world option" where
  "vitaEventSendHttpObjectFromURL E ev eventId w0 = do {
     (ret, u, s) \<leftarrow> VitaMTP_GetUrl (e_io E) (w_sess w0) eventId;
     let w = w0\<lparr>w_sess := s\<rparr>;
     (if ret \<noteq> PTP_RC_OK then Some w
      else do {
        raw \<leftarrow> u;
        url \<leftarrow> str_of raw;
        (case (case requestURL (w_fs w) (urlPath (e_paths E)) url 0 of
                 Some d \<Rightarrow> Some d
               | None \<Rightarrow> if strstr url ''/psp2-updatelist.xml'' \<noteq> None
                         then Some (bytes_of g_update_list, of_nat (length g_update_list)) else None) of
           None \<Rightarrow> if MASK_SET (e_log_level E) LERROR then None
                   else report E w eventId PTP_RC_VITA_Failed_Download
         | Some (dat, len) \<Rightarrow> do {
             r \<leftarrow> VitaMTP_SendHttpObjectFromURL (e_io E) (w_sess w) eventId dat len;
             report_sent E w eventId r }) }) }"

text \<open>
  The size field, uninitialised, is the length that the file is read with; the read sets its
  lower half.
\<close>

definition vitaEventSendHttpObjectPropFromURL :: "'s env \<Rightarrow> vita_event \<Rightarrow> u32 \<Rightarrow> 's world \<Rightarrow> 's world option" where
  "vitaEventSendHttpObjectPropFromURL E ev eventId w0 = do {
     (ret, u, s) \<leftarrow> VitaMTP_GetUrl (e_io E) (w_sess w0) eventId;
     let w = w0\<lparr>w_sess := s\<rparr>;
     (if ret \<noteq> PTP_RC_OK then Some w
      else do {
        raw \<leftarrow> u;
        url \<leftarrow> str_of raw;
        (case requestURL (w_fs w) (urlPath (e_paths E)) url (ucast (e_junk E)) of
           None \<Rightarrow> report E w eventId PTP_RC_VITA_Failed_Download
         | Some (dat, len) \<Rightarrow> do {
             r \<leftarrow> VitaMTP_SendHttpObjectPropFromURL (e_io E) (w_sess w) eventId
                    \<lparr>hp_size = (e_junk E AND NOT 0xFFFFFFFF) OR ucast len, hp_timestamp_len = 0, hp_timestamp = []\<rparr>;
             report_sent E w eventId r }) }) }"

section \<open>Looking at objects\<close>

definition vitaEventSendObjectStatus :: "'s env \<Rightarrow> vita_event \<Rightarrow> u32 \<Rightarrow> 's world \<Rightarrow> 's world option" where
  "vitaEventSendObjectStatus E ev eventId w0 = do {
     (ret, st, s) \<leftarrow> VitaMTP_SendObjectStatus (e_io E) (w_sess w0) eventId;
     let w = w0\<lparr>w_sess := s\<rparr>;
     (if ret \<noteq> PTP_RC_OK then Some w
      else do {
        status \<leftarrow> st;
        let w1 = lockDatabase w;
        db \<leftarrow> w_db w1;
        title \<leftarrow> str_of (os_title status);
        w2 \<leftarrow> (case pathToObject db title (sint (os_ohfiRoot status)) of
                 None \<Rightarrow> report E w1 eventId PTP_RC_OK
               | Some r \<Rightarrow> do {
                   res \<leftarrow> VitaMTP_SendObjectMetadata (e_render E) (e_stamp E) (e_io E) (w_sess w1) eventId
                            [meta (deref db r)];
                   report_sent E w1 eventId res });
        Some (unlockDatabase w2) }) }"

definition g_thumbmeta :: metadata where
  "g_thumbmeta = metadata_zero\<lparr>dataType := Thumbnail, md_data := ThumbnailInfo 18 144 80 0 1 1000000 2\<rparr>"

text \<open>The outer \<open>None\<close>: the path does not fit \<open>thumbpath\<close>; the inner one: not supported.\<close>

definition thumbpath :: "cma_object \<Rightarrow> string option option" where
  "thumbpath obj =
     (let fits = (\<lambda>p. if length p < PATH_MAX then Some (Some p) else None) in
      if MASK_SET (dataType (meta obj)) Photo then fits (o_path obj)
      else if MASK_SET (dataType (meta obj)) SaveData then fits (path_join (o_path obj) ''ICON0.PNG'')
      else Some None)"

definition vitaEventSendObjectThumb :: "'s env \<Rightarrow> vita_event \<Rightarrow> u32 \<Rightarrow> 's world \<Rightarrow> 's world option" where
  "vitaEventSendObjectThumb E ev eventId w0 = do {
     let w = lockDatabase w0;
     db \<leftarrow> w_db w;
     (case ohfiToObject db (sint (ev_Param2 ev)) of
        None \<Rightarrow> report E (unlockDatabase w) eventId PTP_RC_VITA_Invalid_OHFI
      | Some r \<Rightarrow> do {
          p \<leftarrow> thumbpath (deref db r);
          let w1 = unlockDatabase w;
          (case p of
             None \<Rightarrow> report E w1 eventId PTP_RC_VITA_Invalid_Data
           | Some path \<Rightarrow>
               (case readFileToBuffer (w_fs w1) path 0 0 of
                  None \<Rightarrow> report E w1 eventId PTP_RC_VITA_Invalid_Data
                | Some (dat, len) \<Rightarrow> do {
                    res \<leftarrow> VitaMTP_SendObjectThumb (e_render E) (e_stamp E) (e_io E) (w_sess w1) eventId
                             [g_thumbmeta] dat (ucast len);
                    report_sent E w1 eventId res })) }) }"

definition vitaEventSendObjectMetadataItems :: "'s env \<Rightarrow> vita_event \<Rightarrow> u32 \<Rightarrow> 's world \<Rightarrow> 's world option" where
  "vitaEventSendObjectMetadataItems E ev eventId w0 = do {
     (ret, k, s) \<leftarrow> VitaMTP_SendObjectMetadataItems (e_io E) (w_sess w0) eventId;
     let w = w0\<lparr>w_sess := s\<rparr>;
     (if ret \<noteq> PTP_RC_OK then Some w
      else do {
        wanted \<leftarrow> k;
        let w1 = lockDatabase w;
        db \<leftarrow> w_db w1;
        (case ohfiToObject db (sint wanted) of
           None \<Rightarrow> report E (unlockDatabase w1) eventId PTP_RC_VITA_Invalid_OHFI
         | Some r \<Rightarrow> do {
             res \<leftarrow> VitaMTP_SendObjectMetadata (e_render E) (e_stamp E) (e_io E) (w_sess w1) eventId
                      [meta (deref db r)];
             w2 \<leftarrow> report_sent E w1 eventId res;
             Some (unlockDatabase w2) }) }) }"

text \<open>When the file cannot be read the report is sent with the lock held.\<close>

definition vitaEventSendPartOfObject :: "'s env \<Rightarrow> vita_event \<Rightarrow> u32 \<Rightarrow> 's world \<Rightarrow> 's world option" where
  "vitaEventSendPartOfObject E ev eventId w0 = do {
     (ret, p, s) \<leftarrow> VitaMTP_SendPartOfObjectInit (e_io E) (w_sess w0) eventId;
     let w = w0\<lparr>w_sess := s\<rparr>;
     (if ret \<noteq> PTP_RC_OK then Some w
      else do {
        pinit \<leftarrow> p;
        let w1 = lockDatabase w;
        db \<leftarrow> w_db w1;
        (case ohfiToObject db (sint (sp_ohfi pinit)) of
           None \<Rightarrow> report E (unlockDatabase w1) eventId PTP_RC_VITA_Invalid_Context
         | Some r \<Rightarrow>
             (case readFileToBuffer (w_fs w1) (o_path (deref db r)) (unat (sp_offset pinit)) (ucast (sp_size pinit)) of
                None \<Rightarrow> do {
                  w2 \<leftarrow> report E w1 eventId PTP_RC_VITA_Not_Exist_Object;
                  Some (unlockDatabase w2) }
              | Some (dat, len) \<Rightarrow> do {
                  let w2 = unlockDatabase w1;
                  res \<leftarrow> VitaMTP_SendPartOfObject (e_io E) (w_sess w2) eventId dat (ucast len);
                  report_sent E w2 eventId res })) }) }"

definition vitaEventSendStorageSize :: "'s env \<Rightarrow> vita_event \<Rightarrow> u32 \<Rightarrow> 's world \<Rightarrow> 's world option" where
  "vitaEventSendStorageSize E ev eventId w0 = do {
     let w = lockDatabase w0;
     db \<leftarrow> w_db w;
     (case ohfiToObject db (sint (ev_Param2 ev)) of
        None \<Rightarrow> report E (unlockDatabase w) eventId PTP_RC_VITA_Invalid_OHFI
      | Some r \<Rightarrow> do {
          let path = o_path (deref db r);
          (fs', made) \<leftarrow> (if fileExists (w_fs w) path then Some (w_fs w, 0)
                          else createNewDirectory (e_may E) (w_fs w) path);
          let w1 = unlockDatabase (w\<lparr>w_fs := fs'\<rparr>);
          (if made < 0 then report E w1 eventId PTP_RC_VITA_Invalid_Permission
           else (case e_space E path of
                   None \<Rightarrow> report E w1 eventId PTP_RC_VITA_Invalid_Permission
                 | Some (free, tot) \<Rightarrow> do {
                     res \<leftarrow> VitaMTP_SendStorageSize (e_io E) (w_sess w1) eventId tot free;
                     report_sent E w1 eventId res })) }) }"

text \<open>The name is a C string from the device, or NULL, which \<open>strcmp\<close> would read.\<close>

definition vitaEventCheckExistance :: "'s env \<Rightarrow> vita_event \<Rightarrow> u32 \<Rightarrow> 's world \<Rightarrow> 's world option" where
  "vitaEventCheckExistance E ev eventId w0 = do {
     (ret, nm, s) \<leftarrow> VitaMTP_CheckExistance (e_io E) (w_sess w0) (ev_Param2 ev);
     let w = w0\<lparr>w_sess := s\<rparr>;
     (if ret \<noteq> PTP_RC_OK then Some w
      else do {
        name0 \<leftarrow> nm;
        name \<leftarrow> name0;
        let w1 = lockDatabase w;
        db \<leftarrow> w_db w1;
        w2 \<leftarrow> (case pathToObject db (map (\<lambda>b. char_of (unat b)) name) 0 of
                 None \<Rightarrow> report E w1 eventId PTP_RC_VITA_Different_Object
               | Some r \<Rightarrow> report_param E w1 eventId PTP_RC_VITA_Same_Object (of_int (o_ohfi (deref db r))));
        report E (unlockDatabase w2) eventId PTP_RC_OK }) }"

text \<open>
  \<open>info\<close> is the structure as the device sent it. A missing object ends the handler without
  a report.
\<close>

fun sum_sizes :: "cma_db \<Rightarrow> byte list \<Rightarrow> nat \<Rightarrow> nat \<Rightarrow> u64 \<Rightarrow> u64 option option" where
  "sum_sizes db info i 0 acc = Some (Some acc)"
| "sum_sizes db info i (Suc n) acc = do {
     k \<leftarrow> u32_at info (4 + 4 * i);
     (case ohfiToObject db (sint k) of
        None \<Rightarrow> Some None
      | Some r \<Rightarrow> sum_sizes db info (Suc i) n (acc + md_size (meta (deref db r)))) }"

definition vitaEventSendCopyConfirmationInfo :: "'s env \<Rightarrow> vita_event \<Rightarrow> u32 \<Rightarrow> 's world \<Rightarrow> 's world option" where
  "vitaEventSendCopyConfirmationInfo E ev eventId w0 = do {
     (ret, info, s) \<leftarrow> VitaMTP_SendCopyConfirmationInfoInit (e_io E) (w_sess w0) eventId;
     let w = w0\<lparr>w_sess := s\<rparr>;
     (if ret \<noteq> PTP_RC_OK then Some w
      else do {
        let w1 = lockDatabase w;
        num \<leftarrow> u32_at info 0;
        db \<leftarrow> (if num = 0 then Some \<lparr>db_chains = [], ohfi_count = 0\<rparr> else w_db w1);
        sz \<leftarrow> sum_sizes db info 0 (unat num) 0;
        let w2 = unlockDatabase w1;
        (case sz of
           None \<Rightarrow> Some w2
         | Some tot \<Rightarrow> do {
             res \<leftarrow> VitaMTP_SendCopyConfirmationInfo (e_io E) (w_sess w2) eventId info tot;
             report_sent E w2 eventId res }) }) }"

section \<open>Changing objects\<close>

definition remove_object :: "'s world \<Rightarrow> int \<Rightarrow> objref \<Rightarrow> 's world option" where
  "remove_object w k start = do {
     db \<leftarrow> w_db w;
     (case removeFromDatabase db k start of
        Inl _ \<Rightarrow> None
      | Inr db' \<Rightarrow> Some (w\<lparr>w_db := Some db'\<rparr>)) }"

text \<open>
  The file is deleted before the entry. For a master or a filter there is no parent, and
  \<open>removeFromDatabase\<close> is called with NULL.
\<close>

definition vitaEventDeleteObject :: "'s env \<Rightarrow> vita_event \<Rightarrow> u32 \<Rightarrow> 's world \<Rightarrow> 's world option" where
  "vitaEventDeleteObject E ev eventId w0 = do {
     let k = sint (ev_Param2 ev);
     let w = lockDatabase w0;
     db \<leftarrow> w_db w;
     (case ohfiToObject db k of
        None \<Rightarrow> report E (unlockDatabase w) eventId PTP_RC_VITA_Invalid_OHFI
      | Some r \<Rightarrow> do {
          parent \<leftarrow> ohfiToObject db (o_parent (deref db r));
          w1 \<leftarrow> remove_object (w\<lparr>w_fs := deleteAll (w_fs w) (o_path (deref db r))\<rparr>) k parent;
          report E (unlockDatabase w1) eventId PTP_RC_OK }) }"

definition vitaEventGetSettingInfo :: "'s env \<Rightarrow> vita_event \<Rightarrow> u32 \<Rightarrow> 's world \<Rightarrow> 's world option" where
  "vitaEventGetSettingInfo E ev eventId w0 = do {
     (ret, accs, s) \<leftarrow> VitaMTP_GetSettingInfo (e_xmlRead E) (e_io E) (w_sess w0) eventId;
     let w = w0\<lparr>w_sess := s\<rparr>;
     (if ret \<noteq> PTP_RC_OK then Some w
      else do {
        settings \<leftarrow> accs;
        current \<leftarrow> (case settings of [] \<Rightarrow> None | a # _ \<Rightarrow> a);
        uuid \<leftarrow> ac_accountId current;
        _ \<leftarrow> VitaMTP_Data_Free_Settings settings;
        report E (w\<lparr>w_uuid := uuid, w_refresh := w_refresh w + 1\<rparr>) eventId PTP_RC_OK }) }"

text \<open>The two cases that create something differ in the kind only.\<close>

definition operate_create :: "'s env \<Rightarrow> u32 \<Rightarrow> objref \<Rightarrow> string \<Rightarrow> u32 \<Rightarrow> 's world \<Rightarrow> 's world option" where
  "operate_create E eventId root title kind w = do {
     db \<leftarrow> w_db w;
     let (db1, newobj) = addToDatabase db root title 0 kind;
     let path = o_path (deref db1 newobj);
     let k = o_ohfi (deref db1 newobj);
     (fs', made) \<leftarrow> (if kind = Folder then createNewDirectory (e_may E) (w_fs w) path
                     else Some (createNewFile (e_may E) (w_fs w) path));
     let w1 = w\<lparr>w_db := Some db1, w_fs := fs'\<rparr>;
     (if made < 0 then do {
        w2 \<leftarrow> remove_object w1 k root;
        report E w2 eventId PTP_RC_VITA_Failed_Operate_Object }
      else report_param E w1 eventId PTP_RC_OK (of_int k)) }"

definition operate_rename :: "'s env \<Rightarrow> u32 \<Rightarrow> objref \<Rightarrow> string \<Rightarrow> 's world \<Rightarrow> 's world option" where
  "operate_rename E eventId root title w = do {
     db \<leftarrow> w_db w;
     origName \<leftarrow> md_name (meta (deref db root));
     db1 \<leftarrow> renameRootEntry db root None title;
     let (fs', moved) = move (e_may E) (w_fs w) (o_path (deref db root)) (o_path (deref db1 root));
     (if moved < 0 then do {
        db2 \<leftarrow> renameRootEntry db1 root None origName;
        report E (w\<lparr>w_db := Some db2, w_fs := fs'\<rparr>) eventId PTP_RC_VITA_Failed_Operate_Object }
      else report_param E (w\<lparr>w_db := Some db1, w_fs := fs'\<rparr>) eventId PTP_RC_OK (of_int (o_ohfi (deref db1 root)))) }"

text \<open>The \<open>switch\<close> over the commands.\<close>

definition operate :: "'s env \<Rightarrow> u32 \<Rightarrow> operate_object \<Rightarrow> objref \<Rightarrow> 's world \<Rightarrow> 's world option" where
  "operate E eventId oper root w =
     (if op_cmd oper = VITA_OPERATE_CREATE_FOLDER then do {
        title \<leftarrow> str_of (op_title oper);
        operate_create E eventId root title Folder w }
      else if op_cmd oper = VITA_OPERATE_CREATE_FILE then do {
        title \<leftarrow> str_of (op_title oper);
        operate_create E eventId root title File w }
      else if op_cmd oper = VITA_OPERATE_RENAME then do {
        title \<leftarrow> str_of (op_title oper);
        operate_rename E eventId root title w }
      else report E w eventId PTP_RC_VITA_Failed_Operate_Object)"

definition vitaEventOperateObject :: "'s env \<Rightarrow> vita_event \<Rightarrow> u32 \<Rightarrow> 's world \<Rightarrow> 's world option" where
  "vitaEventOperateObject E ev eventId w0 = do {
     (ret, oper, s) \<leftarrow> VitaMTP_OperateObject (e_io E) (w_sess w0) eventId;
     let w = w0\<lparr>w_sess := s\<rparr>;
     (if ret \<noteq> PTP_RC_OK then Some w
      else do {
        let w1 = lockDatabase w;
        db \<leftarrow> w_db w1;
        (case ohfiToObject db (sint (op_ohfi oper)) of
           None \<Rightarrow> report E (unlockDatabase w1) eventId PTP_RC_VITA_Not_Exist_Object
         | Some root \<Rightarrow> do {
             w2 \<leftarrow> operate E eventId oper root w1;
             Some (unlockDatabase w2) }) }) }"

definition vitaEventGetPartOfObject :: "'s env \<Rightarrow> vita_event \<Rightarrow> u32 \<Rightarrow> 's world \<Rightarrow> 's world option" where
  "vitaEventGetPartOfObject E ev eventId w0 = do {
     (ret, pinit, body, s) \<leftarrow> VitaMTP_GetPartOfObject (e_io E) (w_sess w0) eventId;
     let w = w0\<lparr>w_sess := s\<rparr>;
     (if ret \<noteq> PTP_RC_OK then Some w
      else do {
        let w1 = lockDatabase w;
        db \<leftarrow> w_db w1;
        (case ohfiToObject db (sint (sp_ohfi pinit)) of
           None \<Rightarrow> report E (unlockDatabase w1) eventId PTP_RC_VITA_Invalid_OHFI
         | Some r \<Rightarrow> do {
             let (fs', wrote) = writeFileFromBuffer (e_may E) (w_fs w1) (o_path (deref db r)) (unat (sp_offset pinit)) body;
             let w2 = w1\<lparr>w_fs := fs'\<rparr>;
             w3 \<leftarrow> (if wrote < 0 then report E w2 eventId PTP_RC_VITA_Invalid_Permission
                    else do {
                      db' \<leftarrow> incrementSizeMetadata db r (sp_size pinit);
                      report E (w2\<lparr>w_db := Some db'\<rparr>) eventId PTP_RC_OK });
             Some (unlockDatabase w3) }) }) }"

section \<open>Objects from the device\<close>

fun got_name :: "got_object \<Rightarrow> string option" where
  "got_name (Got_Folder n _) = map_option (map (\<lambda>b. char_of (unat b))) n"
| "got_name (Got_File n _ _) = map_option (map (\<lambda>b. char_of (unat b))) n"

fun got_type :: "got_object \<Rightarrow> u32" where
  "got_type (Got_Folder _ _) = Folder"
| "got_type (Got_File _ _ _) = File"

text \<open>
  The check for an object of the same name: \<open>pathToObject\<close> is asked for the bare name in the
  list that the parent is the master of.
\<close>

definition replace_existing :: "objref \<Rightarrow> objref \<Rightarrow> 's world \<Rightarrow> 's world option" where
  "replace_existing parent obj w = do {
     db \<leftarrow> w_db w;
     name \<leftarrow> md_name (meta (deref db obj));
     (case pathToObject db name (o_ohfi (deref db parent)) of
        None \<Rightarrow> Some w
      | Some t \<Rightarrow>
          if t = obj then Some w
          else remove_object (w\<lparr>w_fs := deleteAll (w_fs w) (o_path (deref db t))\<rparr>) (o_ohfi (deref db t)) parent) }"

text \<open>The error paths after the object was added: the entry is removed again.\<close>

definition give_up :: "objref \<Rightarrow> int \<Rightarrow> u16 \<Rightarrow> 's world \<Rightarrow> (u16 \<times> 's world) option" where
  "give_up parent k code w = do {
     w' \<leftarrow> remove_object w k parent;
     Some (code, unlockDatabase w') }"

text \<open>
  Up to the question what was received: the entry is made, its id and type are returned. A
  pointer to the new object is kept as its id, since the list in front of it may become
  shorter.
\<close>

definition enter_object :: "objref \<Rightarrow> u32 \<Rightarrow> got_object \<Rightarrow> 's world \<Rightarrow> (int \<times> u32 \<times> 's world) option" where
  "enter_object parent h g w = do {
     db \<leftarrow> w_db w;
     name \<leftarrow> got_name g;
     let (db1, newobj) = addToDatabase db parent name 0 (got_type g);
     w1 \<leftarrow> replace_existing parent newobj (w\<lparr>w_db := Some (update_obj newobj (set_handle h) db1)\<rparr>);
     Some (o_ohfi (deref db1 newobj), dataType (meta (deref db1 newobj)), w1) }"

definition receive_file ::
  "'s env \<Rightarrow> objref \<Rightarrow> int \<Rightarrow> u64 \<Rightarrow> byte list \<Rightarrow> 's world \<Rightarrow> (u16 \<times> 's world) option" where
  "receive_file E parent k sz dat w = do {
     db \<leftarrow> w_db w;
     r \<leftarrow> ohfiToObject db k;
     let path = o_path (deref db r);
     let (fs1, made) = createNewFile (e_may E) (w_fs w) path;
     (fs2, wrote) \<leftarrow> (if made < 0 then Some (fs1, made)
                      else do {
                        body \<leftarrow> rd dat 0 (unat sz);
                        Some (writeFileFromBuffer (e_may E) fs1 path 0 body) });
     (if wrote < 0 then give_up parent k PTP_RC_VITA_Invalid_Permission (w\<lparr>w_fs := fs2\<rparr>)
      else do {
        db' \<leftarrow> incrementSizeMetadata db r sz;
        Some (PTP_RC_OK, unlockDatabase (w\<lparr>w_fs := fs2, w_db := Some db'\<rparr>)) }) }"

definition make_folder :: "'s env \<Rightarrow> int \<Rightarrow> 's world \<Rightarrow> (int \<times> 's world) option" where
  "make_folder E k w = do {
     db \<leftarrow> w_db w;
     r \<leftarrow> ohfiToObject db k;
     (fs', made) \<leftarrow> createNewDirectory (e_may E) (w_fs w) (o_path (deref db r));
     Some (made, w\<lparr>w_fs := fs'\<rparr>) }"

text \<open>
  The fuel is the stack; a device whose folders contain each other exhausts it. A folder
  received into a file inherits the file's type, and its handles are taken for data of an
  unknown size.
\<close>

fun vitaGetAllObjects ::
  "nat \<Rightarrow> 's env \<Rightarrow> objref \<Rightarrow> u32 \<Rightarrow> 's world \<Rightarrow> (u16 \<times> 's world) option"
and get_children ::
  "nat \<Rightarrow> 's env \<Rightarrow> int \<Rightarrow> u32 list \<Rightarrow> 's world \<Rightarrow> (u16 \<times> 's world) option" where
  "vitaGetAllObjects 0 E parent h w0 = None"
| "vitaGetAllObjects (Suc fuel) E parent h w0 = do {
     (ret, got, s) \<leftarrow> VitaMTP_GetObject (e_io E) (w_sess w0) h;
     (if ret \<noteq> PTP_RC_OK then Some (PTP_RC_VITA_Invalid_Data, w0\<lparr>w_sess := s\<rparr>)
      else do {
        g \<leftarrow> got;
        (k, dt, w1) \<leftarrow> enter_object parent h g (lockDatabase (w0\<lparr>w_sess := s\<rparr>));
        (case g of
           Got_File _ sz dat \<Rightarrow> receive_file E parent k sz dat w1
         | Got_Folder _ hs \<Rightarrow>
             if dt AND File \<noteq> 0 then None
             else do {
               (made, w2) \<leftarrow> make_folder E k w1;
               (if made < 0 then give_up parent k PTP_RC_VITA_Failed_Operate_Object w2
                else do {
                  (code, w3) \<leftarrow> get_children fuel E k hs w2;
                  (if code \<noteq> PTP_RC_OK then give_up parent k code w3
                   else Some (PTP_RC_OK, unlockDatabase w3)) }) }) }) }"
| "get_children fuel E k [] w = Some (PTP_RC_OK, w)"
| "get_children fuel E k (h # hs) w = do {
     db \<leftarrow> w_db w;
     r \<leftarrow> ohfiToObject db k;
     (code, w') \<leftarrow> vitaGetAllObjects fuel E r h w;
     (if code \<noteq> PTP_RC_OK then Some (code, w') else get_children fuel E k hs w') }"

text \<open>The parent is looked up, and kept, without the lock.\<close>

definition vitaEventGetTreatObject :: "'s env \<Rightarrow> vita_event \<Rightarrow> u32 \<Rightarrow> 's world \<Rightarrow> 's world option" where
  "vitaEventGetTreatObject E ev eventId w0 = do {
     (ret, treat, s) \<leftarrow> VitaMTP_GetTreatObject (e_io E) (w_sess w0) eventId;
     let w = w0\<lparr>w_sess := s\<rparr>;
     (if ret \<noteq> PTP_RC_OK then Some w
      else do {
        db \<leftarrow> w_db w;
        (case ohfiToObject db (sint (to_ohfiParent treat)) of
           None \<Rightarrow> report E w eventId PTP_RC_VITA_Invalid_OHFI
         | Some parent \<Rightarrow> do {
             (code, w1) \<leftarrow> vitaGetAllObjects (e_depth E) E parent (to_handle treat) w;
             report E w1 eventId code }) }) }"

section \<open>The table of handlers\<close>

definition vitaEventSendNPAccountInfo :: "'s env \<Rightarrow> vita_event \<Rightarrow> u32 \<Rightarrow> 's world \<Rightarrow> 's world option" where
  "vitaEventSendNPAccountInfo E ev eventId w = Some w"

definition vitaEventRequestTerminate :: "'s env \<Rightarrow> vita_event \<Rightarrow> u32 \<Rightarrow> 's world \<Rightarrow> 's world option" where
  "vitaEventRequestTerminate E ev eventId w = Some w"

definition vitaEventUnimplementated :: "'s env \<Rightarrow> vita_event \<Rightarrow> u32 \<Rightarrow> 's world \<Rightarrow> 's world option" where
  "vitaEventUnimplementated E ev eventId w = Some w"

type_synonym 's handler = "'s env \<Rightarrow> vita_event \<Rightarrow> u32 \<Rightarrow> 's world \<Rightarrow> 's world option"

definition g_event_processes :: "'s handler list" where
  "g_event_processes = [
     vitaEventSendNumOfObject,
     vitaEventSendObjectMetadata,
     vitaEventUnimplementated,
     vitaEventSendObject,
     vitaEventCancelTask,
     vitaEventUnimplementated,
     vitaEventUnimplementated,
     vitaEventSendHttpObjectFromURL,
     vitaEventUnimplementated,
     vitaEventUnimplementated,
     vitaEventUnimplementated,
     vitaEventSendObjectStatus,
     vitaEventSendObjectThumb,
     vitaEventDeleteObject,
     vitaEventGetSettingInfo,
     vitaEventSendHttpObjectPropFromURL,
     vitaEventUnimplementated,
     vitaEventSendPartOfObject,
     vitaEventUnimplementated,
     vitaEventOperateObject,
     vitaEventGetPartOfObject,
     vitaEventSendStorageSize,
     vitaEventUnimplementated,
     vitaEventUnimplementated,
     vitaEventUnimplementated,
     vitaEventUnimplementated,
     vitaEventUnimplementated,
     vitaEventUnimplementated,
     vitaEventCheckExistance,
     vitaEventUnimplementated,
     vitaEventGetTreatObject,
     vitaEventSendCopyConfirmationInfo,
     vitaEventSendObjectMetadataItems,
     vitaEventSendNPAccountInfo,
     vitaEventRequestTerminate,
     vitaEventUnimplementated]"

text \<open>
  The slot may be as large as the number of entries before it is replaced by the last one,
  so one code reads behind the table.
\<close>

definition event_slot :: "u16 \<Rightarrow> int" where
  "event_slot code =
     (let slot = uint code - uint PTP_EC_VITA_RequestSendNumOfObject in
      if slot < 0 \<or> slot > 36 then 36 - 1 else slot)"

definition dispatch :: "'s env \<Rightarrow> vita_event \<Rightarrow> 's world \<Rightarrow> 's world option" where
  "dispatch E ev w =
     (let slot = nat (event_slot (ev_Code ev)) in
      if slot < length (g_event_processes :: 's handler list)
      then (g_event_processes ! slot) E ev (ev_Param1 ev) w else None)"

end
