(* ===== verification/Opencma_Inv.thy ===== *)
theory Opencma_Inv
  imports Opencma Catalog_Props
begin

text \<open>
  What every handler keeps: the database stays well formed and the lock is released as often
  as it is taken. A small calculus for partial results carries the proofs: \<open>holds m Q\<close>
  says that \<open>Q\<close> is true of the result of \<open>m\<close> if there is one, with a rule for every
  construct that the handlers are made of.
\<close>

section \<open>Partial results\<close>

definition holds :: "'a option \<Rightarrow> ('a \<Rightarrow> bool) \<Rightarrow> bool" where
  "holds m Q \<longleftrightarrow> (\<forall>x. m = Some x \<longrightarrow> Q x)"

named_theorems holds_intros

lemma holdsD: "holds m Q \<Longrightarrow> m = Some x \<Longrightarrow> Q x"
  by (simp add: holds_def)

lemma holdsI: "(\<And>x. m = Some x \<Longrightarrow> Q x) \<Longrightarrow> holds m Q"
  by (simp add: holds_def)

lemma holds_mono: "holds m P \<Longrightarrow> (\<And>x. m = Some x \<Longrightarrow> P x \<Longrightarrow> Q x) \<Longrightarrow> holds m Q"
  by (simp add: holds_def)

lemma holds_Some [holds_intros]: "Q x \<Longrightarrow> holds (Some x) Q"
  by (simp add: holds_def)

lemma holds_None [holds_intros]: "holds None Q"
  by (simp add: holds_def)

lemma holds_bind [holds_intros]: "(\<And>x. m = Some x \<Longrightarrow> holds (f x) Q) \<Longrightarrow> holds (m \<bind> f) Q"
  by (auto simp: holds_def bind_eq_Some_conv)

lemma holds_bind_via: "holds m P \<Longrightarrow> (\<And>x. m = Some x \<Longrightarrow> P x \<Longrightarrow> holds (f x) Q) \<Longrightarrow> holds (m \<bind> f) Q"
  by (auto simp: holds_def bind_eq_Some_conv)

lemma holds_if [holds_intros]:
  "(b \<Longrightarrow> holds m Q) \<Longrightarrow> (\<not> b \<Longrightarrow> holds m' Q) \<Longrightarrow> holds (if b then m else m') Q"
  by simp

lemma holds_Let [holds_intros]: "(\<And>x. x = v \<Longrightarrow> holds (f x) Q) \<Longrightarrow> holds (Let v f) Q"
  by simp

lemma holds_prod [holds_intros]:
  "(\<And>a b. p = (a, b) \<Longrightarrow> holds (f a b) Q) \<Longrightarrow> holds (case p of (a, b) \<Rightarrow> f a b) Q"
  by (cases p) simp

lemma holds_option [holds_intros]:
  "(x = None \<Longrightarrow> holds m Q) \<Longrightarrow> (\<And>y. x = Some y \<Longrightarrow> holds (f y) Q) \<Longrightarrow>
     holds (case x of None \<Rightarrow> m | Some y \<Rightarrow> f y) Q"
  by (cases x) simp_all

lemma holds_bind_option [holds_intros]:
  "(x = None \<Longrightarrow> holds (m \<bind> g) Q) \<Longrightarrow> (\<And>y. x = Some y \<Longrightarrow> holds (f y \<bind> g) Q) \<Longrightarrow>
     holds ((case x of None \<Rightarrow> m | Some y \<Rightarrow> f y) \<bind> g) Q"
  by (cases x) simp_all

lemma holds_bind_if [holds_intros]:
  "(b \<Longrightarrow> holds (m \<bind> g) Q) \<Longrightarrow> (\<not> b \<Longrightarrow> holds (m' \<bind> g) Q) \<Longrightarrow> holds ((if b then m else m') \<bind> g) Q"
  by simp

lemma holds_bind_bind [holds_intros]:
  "holds (m \<bind> (\<lambda>x. f x \<bind> g)) Q \<Longrightarrow> holds ((m \<bind> f) \<bind> g) Q"
  by (cases m) simp_all

lemma holds_bind_Some [holds_intros]: "holds (g x) Q \<Longrightarrow> holds (Some x \<bind> g) Q"
  by simp

lemma holds_bind_prod [holds_intros]:
  "(\<And>a b. p = (a, b) \<Longrightarrow> holds (f a b \<bind> g) Q) \<Longrightarrow> holds ((case p of (a, b) \<Rightarrow> f a b) \<bind> g) Q"
  by (cases p) simp

lemma holds_bind_Let [holds_intros]: "(\<And>x. x = v \<Longrightarrow> holds (f x \<bind> g) Q) \<Longrightarrow> holds (Let v f \<bind> g) Q"
  by simp

lemma holds_sum [holds_intros]:
  "(\<And>e. x = Inl e \<Longrightarrow> holds (g e) Q) \<Longrightarrow> (\<And>y. x = Inr y \<Longrightarrow> holds (f y) Q) \<Longrightarrow>
     holds (case x of Inl e \<Rightarrow> g e | Inr y \<Rightarrow> f y) Q"
  by (cases x) simp_all

section \<open>The invariant of the world\<close>

definition world_ok :: "nat \<Rightarrow> 's world \<Rightarrow> bool" where
  "world_ok n w \<longleftrightarrow> w_lock w = n \<and> (\<forall>db. w_db w = Some db \<longrightarrow> db_ok db)"

lemma world_ok_simps [simp]:
  "world_ok n (w\<lparr>w_sess := s\<rparr>) = world_ok n w"
  "world_ok n (w\<lparr>w_fs := fs\<rparr>) = world_ok n w"
  "world_ok n (w\<lparr>w_uuid := u\<rparr>) = world_ok n w"
  "world_ok n (w\<lparr>w_refresh := m\<rparr>) = world_ok n w"
  "world_ok n (w\<lparr>w_connected := b\<rparr>) = world_ok n w"
  "world_ok n (w\<lparr>w_db := Some db\<rparr>) = (w_lock w = n \<and> db_ok db)"
  "world_ok n (w\<lparr>w_db := None\<rparr>) = (w_lock w = n)"
  by (simp_all add: world_ok_def)

lemma world_ok_db: "world_ok n w \<Longrightarrow> w_db w = Some db \<Longrightarrow> db_ok db"
  by (simp add: world_ok_def)

lemma world_ok_lock: "world_ok n w \<Longrightarrow> w_lock w = n"
  by (simp add: world_ok_def)

lemma lock_simps [simp]:
  "w_db (lockDatabase w) = w_db w" "w_fs (lockDatabase w) = w_fs w" "w_sess (lockDatabase w) = w_sess w"
  "w_lock (lockDatabase w) = w_lock w + 1" "w_uuid (lockDatabase w) = w_uuid w"
  "w_refresh (lockDatabase w) = w_refresh w" "w_connected (lockDatabase w) = w_connected w"
  "w_db (unlockDatabase w) = w_db w" "w_fs (unlockDatabase w) = w_fs w" "w_sess (unlockDatabase w) = w_sess w"
  "w_lock (unlockDatabase w) = w_lock w - 1" "w_uuid (unlockDatabase w) = w_uuid w"
  "w_refresh (unlockDatabase w) = w_refresh w" "w_connected (unlockDatabase w) = w_connected w"
  by (simp_all add: lockDatabase_def unlockDatabase_def)

lemma world_ok_locked [simp]:
  "world_ok (Suc n) (lockDatabase w) = world_ok n w"
  "world_ok (Suc n) w \<Longrightarrow> world_ok n (unlockDatabase w)"
  by (simp_all add: world_ok_def)

section \<open>Reports\<close>

lemma report_conv:
  "report E w eventId code = Some w' \<Longrightarrow> \<exists>s. w' = w\<lparr>w_sess := s\<rparr>"
  by (auto simp: report_def bind_eq_Some_conv split: prod.splits)

lemma report_param_conv:
  "report_param E w eventId code p = Some w' \<Longrightarrow> \<exists>s. w' = w\<lparr>w_sess := s\<rparr>"
  by (auto simp: report_param_def bind_eq_Some_conv split: prod.splits)

lemma report_sent_conv:
  "report_sent E w eventId r = Some w' \<Longrightarrow> \<exists>s. w' = w\<lparr>w_sess := s\<rparr>"
  by (auto simp: report_sent_def Let_def dest!: report_conv split: if_splits)

lemmas report_convs = report_conv report_param_conv report_sent_conv

lemma report_keeps [holds_intros]: "(\<And>s. Q (w\<lparr>w_sess := s\<rparr>)) \<Longrightarrow> holds (report E w eventId code) Q"
  by (auto simp: holds_def dest!: report_conv)

lemma report_param_keeps [holds_intros]:
  "(\<And>s. Q (w\<lparr>w_sess := s\<rparr>)) \<Longrightarrow> holds (report_param E w eventId code p) Q"
  by (auto simp: holds_def dest!: report_param_conv)

lemma report_sent_keeps [holds_intros]:
  "(\<And>s. Q (w\<lparr>w_sess := s\<rparr>)) \<Longrightarrow> holds (report_sent E w eventId r) Q"
  by (auto simp: holds_def dest!: report_sent_conv)

lemma report_bind [holds_intros]:
  "(\<And>s. holds (f (w\<lparr>w_sess := s\<rparr>)) Q) \<Longrightarrow> holds (report E w eventId code \<bind> f) Q"
  by (auto simp: holds_def bind_eq_Some_conv dest!: report_conv)

lemma report_param_bind [holds_intros]:
  "(\<And>s. holds (f (w\<lparr>w_sess := s\<rparr>)) Q) \<Longrightarrow> holds (report_param E w eventId code p \<bind> f) Q"
  by (auto simp: holds_def bind_eq_Some_conv dest!: report_param_conv)

lemma report_sent_bind [holds_intros]:
  "(\<And>s. holds (f (w\<lparr>w_sess := s\<rparr>)) Q) \<Longrightarrow> holds (report_sent E w eventId r \<bind> f) Q"
  by (auto simp: holds_def bind_eq_Some_conv dest!: report_sent_conv)

section \<open>Handlers that do not change the database\<close>

definition keeps :: "('s world \<Rightarrow> 's world option) \<Rightarrow> bool" where
  "keeps f \<longleftrightarrow> (\<forall>w. world_ok 0 w \<longrightarrow> holds (f w) (world_ok 0))"

named_theorems keeps_rules

lemma keepsI: "(\<And>w. world_ok 0 w \<Longrightarrow> holds (f w) (world_ok 0)) \<Longrightarrow> keeps f"
  by (simp add: keeps_def)

lemma keeps_SendObjectMetadata [keeps_rules]: "keeps (vitaEventSendObjectMetadata E ev eventId)"
  by (rule keepsI, unfold vitaEventSendObjectMetadata_def) (intro holds_intros; simp)

lemma keeps_CancelTask [keeps_rules]: "keeps (vitaEventCancelTask E ev eventId)"
  by (rule keepsI, unfold vitaEventCancelTask_def) (intro holds_intros; simp)

lemma keeps_SendHttpObjectFromURL [keeps_rules]: "keeps (vitaEventSendHttpObjectFromURL E ev eventId)"
  by (rule keepsI, unfold vitaEventSendHttpObjectFromURL_def) (intro holds_intros; simp)

lemma keeps_SendHttpObjectPropFromURL [keeps_rules]: "keeps (vitaEventSendHttpObjectPropFromURL E ev eventId)"
  by (rule keepsI, unfold vitaEventSendHttpObjectPropFromURL_def) (intro holds_intros; simp)

lemma keeps_SendObjectStatus [keeps_rules]: "keeps (vitaEventSendObjectStatus E ev eventId)"
  by (rule keepsI, unfold vitaEventSendObjectStatus_def) (intro holds_intros; simp)

lemma keeps_SendObjectThumb [keeps_rules]: "keeps (vitaEventSendObjectThumb E ev eventId)"
  by (rule keepsI, unfold vitaEventSendObjectThumb_def) (intro holds_intros; simp)

lemma keeps_SendObjectMetadataItems [keeps_rules]: "keeps (vitaEventSendObjectMetadataItems E ev eventId)"
  by (rule keepsI, unfold vitaEventSendObjectMetadataItems_def) (intro holds_intros; simp)

lemma keeps_SendPartOfObject [keeps_rules]: "keeps (vitaEventSendPartOfObject E ev eventId)"
  by (rule keepsI, unfold vitaEventSendPartOfObject_def) (intro holds_intros; simp)

lemma keeps_SendStorageSize [keeps_rules]: "keeps (vitaEventSendStorageSize E ev eventId)"
  by (rule keepsI, unfold vitaEventSendStorageSize_def) (intro holds_intros; simp)

lemma keeps_SendCopyConfirmationInfo [keeps_rules]: "keeps (vitaEventSendCopyConfirmationInfo E ev eventId)"
  by (rule keepsI, unfold vitaEventSendCopyConfirmationInfo_def) (intro holds_intros; simp)

lemma keeps_GetSettingInfo [keeps_rules]: "keeps (vitaEventGetSettingInfo E ev eventId)"
  by (rule keepsI, unfold vitaEventGetSettingInfo_def) (intro holds_intros; simp)

lemma keeps_nothing [keeps_rules]:
  "keeps (vitaEventSendNPAccountInfo E ev eventId)" "keeps (vitaEventRequestTerminate E ev eventId)"
  "keeps (vitaEventUnimplementated E ev eventId)"
  by (simp_all add: keeps_def vitaEventSendNPAccountInfo_def vitaEventRequestTerminate_def
      vitaEventUnimplementated_def holds_Some)

section \<open>What a change of the database leaves in place\<close>

text \<open>
  A handler keeps references to objects while it changes the database. Up to a reference
  \<open>r\<close> in its list, and in all other lists, every object stays where it is, with its id and
  its parent.
\<close>

definition keeps_to :: "objref \<Rightarrow> cma_db \<Rightarrow> cma_db \<Rightarrow> bool" where
  "keeps_to r db db' \<longleftrightarrow> (\<forall>r0. valid_ref db r0 \<and> (fst r0 = fst r \<longrightarrow> snd r0 \<le> snd r) \<longrightarrow>
     valid_ref db' r0 \<and> o_ohfi (deref db' r0) = o_ohfi (deref db r0) \<and>
     o_parent (deref db' r0) = o_parent (deref db r0))"

lemma keeps_to_refl [simp]: "keeps_to r db db"
  by (simp add: keeps_to_def)

lemma keeps_to_trans: "keeps_to r db db1 \<Longrightarrow> keeps_to r db1 db2 \<Longrightarrow> keeps_to r db db2"
  by (simp add: keeps_to_def)

lemma keeps_to_le: "keeps_to r db db' \<Longrightarrow> fst r1 = fst r \<Longrightarrow> snd r1 \<le> snd r \<Longrightarrow> keeps_to r1 db db'"
  by (auto simp: keeps_to_def)

lemma keeps_toD:
  assumes "keeps_to r db db'" and "valid_ref db r0" and "fst r0 = fst r \<Longrightarrow> snd r0 \<le> snd r"
  shows "valid_ref db' r0" and "o_ohfi (deref db' r0) = o_ohfi (deref db r0)"
    and "o_parent (deref db' r0) = o_parent (deref db r0)"
  using assms unfolding keeps_to_def by blast+

lemma deref_update_obj:
  "valid_ref db r0 \<Longrightarrow> deref (update_obj r f db) r0 = (if r0 = r then f (deref db r0) else deref db r0)"
  by (cases r0, cases r, cases "fst r = fst r0") (auto simp: deref_def update_obj_def valid_ref_def nth_list_update)

lemma keeps_to_update_obj:
  assumes "\<And>x. o_ohfi (f x) = o_ohfi x \<and> o_parent (f x) = o_parent x"
  shows "keeps_to r0 db (update_obj r f db)"
  using assms by (simp add: keeps_to_def deref_update_obj)

lemma set_handle_simps [simp]:
  "o_ohfi (set_handle h x) = o_ohfi x" "o_parent (set_handle h x) = o_parent x"
  "filters (set_handle h x) = filters x" "o_path (set_handle h x) = o_path x"
  "md_name (meta (set_handle h x)) = md_name (meta x)" "md_path (meta (set_handle h x)) = md_path (meta x)"
  by (simp_all add: set_handle_def)

lemma keeps_to_add:
  assumes "db_ok db" and "valid_ref db root" and "addToDatabase db root name sz ty = (db', r)"
  shows "keeps_to r0 db db'"
  using addToDatabase_ok(4) [OF assms] by (simp add: keeps_to_def)

lemma climb_sizes_keeps:
  assumes "db_ok db" and "valid_ref db r"
  shows "holds (climb_sizes fuel n r db) (\<lambda>db'. db_ok db' \<and> (\<forall>r0. keeps_to r0 db db'))"
  using assms
proof (induction fuel arbitrary: r db)
  case 0
  show ?case by (simp add: holds_None)
next
  case (Suc fuel)
  let ?db = "update_obj r (add_size n) db"
  have ok: "db_ok ?db" by (rule update_obj_ok [OF Suc.prems]) simp
  have k: "keeps_to r0 db ?db" for r0 by (rule keeps_to_update_obj) simp
  show ?case unfolding climb_sizes.simps
  proof (intro holds_intros)
    fix db' parent r'
    assume d: "db' = ?db" and "ohfiToObject db' parent = Some r'"
    then have "valid_ref ?db r'" by (simp add: ohfiToObject_iff [OF ok])
    from Suc.IH [OF ok this] show "holds (climb_sizes fuel n r' db') (\<lambda>db''. db_ok db'' \<and> (\<forall>r0. keeps_to r0 db db''))"
      unfolding d by (rule holds_mono) (use k keeps_to_trans in blast)
  qed (simp_all add: ok k)
qed

lemma incrementSizeMetadata_keeps:
  "db_ok db \<Longrightarrow> valid_ref db r \<Longrightarrow>
     holds (incrementSizeMetadata db r n) (\<lambda>db'. db_ok db' \<and> (\<forall>r0. keeps_to r0 db db'))"
  unfolding incrementSizeMetadata_def by (rule climb_sizes_keeps)

section \<open>Where a child is\<close>

lemma chain_ok_parent_before:
  "chain_ok c \<Longrightarrow> j < length c \<Longrightarrow> q < length c \<Longrightarrow> o_ohfi (c ! q) = o_parent (c ! j) \<Longrightarrow> q < j"
proof (induction c arbitrary: j q)
  case (Cons x xs)
  have "o_parent x \<notin> ids (x # xs)" using Cons.prems(1) by simp
  moreover have "o_ohfi ((x # xs) ! q) \<in> ids (x # xs)" using Cons.prems(3) by (intro imageI nth_mem)
  ultimately have "j \<noteq> 0" using Cons.prems(4) by (metis nth_Cons_0)
  then obtain j' where j: "j = Suc j'" by (cases j) auto
  show ?case
  proof (cases q)
    case (Suc q')
    have "q' < j'" by (rule Cons.IH) (use Cons.prems j Suc in simp_all)
    then show ?thesis by (simp add: j Suc)
  qed (simp add: j)
qed simp

lemma child_behind_parent:
  assumes "db_ok db" and "valid_ref db p" and "valid_ref db r"
    and "o_parent (deref db r) = o_ohfi (deref db p)"
  shows "fst r = fst p" and "snd p < snd r"
    and "o_ohfi (deref db r) \<in> ids (tl (drop (snd p) (db_chains db ! fst p)))"
proof -
  obtain i j pi pj where e: "r = (i, j)" "p = (pi, pj)" by (cases r, cases p) auto
  let ?c = "db_chains db ! i"
  have i: "i < length (db_chains db)" "j < length ?c" using assms(3) by (simp_all add: e valid_ref_def)
  have pi: "pi < length (db_chains db)" "pj < length (db_chains db ! pi)" using assms(2) by (simp_all add: e valid_ref_def)
  note inv = db_okD(1) [OF assms(1) i(1)]
  have own: "owns (deref db p) (o_ohfi (deref db p))" by simp
  have nz: "o_ohfi (deref db p) \<noteq> 0"
  proof -
    have "pi < 10" using pi(1) assms(1) by (simp add: db_ok_def)
    then have "0 \<notin> ids (db_chains db ! pi)" using chain_inv_nonzero db_okD(1) [OF assms(1) pi(1)] by blast
    moreover have "deref db p \<in> set (db_chains db ! pi)" using pi(2) by (simp add: e deref_def)
    ultimately show ?thesis by force
  qed
  have x: "deref db r = ?c ! j" by (simp add: e deref_def)
  have "j \<noteq> 0"
  proof
    assume "j = 0"
    then have "?c ! j = hd ?c" using i(2) by (simp add: hd_conv_nth)
    then have "o_parent (deref db r) = 0" using inv x by (simp add: chain_inv_def)
    then show False using nz assms(4) by simp
  qed
  then obtain j' where j': "j = Suc j'" by (cases j) auto
  have "?c ! j \<in> set (tl ?c)" using i(2) nth_mem [of j' "tl ?c"] by (simp add: j' nth_tl)
  then have "o_parent (deref db r) \<in> ids ?c" using inv x by (simp add: chain_inv_def)
  then obtain y where y: "y \<in> set ?c" "o_ohfi y = o_parent (deref db r)" by auto
  then obtain q where "q < length ?c" "?c ! q = y" by (auto simp: in_set_conv_nth)
  with y have q: "q < length ?c" "o_ohfi (?c ! q) = o_parent (deref db r)" by simp_all
  then have "owns (deref db (i, q)) (o_ohfi (deref db p))" using assms(4) by (simp add: deref_def owns_iff)
  moreover have "valid_ref db (i, q)" using i q by (simp add: valid_ref_def)
  ultimately have "(i, q) = p" using db_ok_owner_unique [OF assms(1) _ assms(2) _ own] by blast
  then have pq: "pi = i" "pj = q" by (simp_all add: e)
  show "fst r = fst p" by (simp add: e pq)
  have lt: "q < j" using chain_ok_parent_before [OF db_okD(2) [OF assms(1) i(1)] i(2) q(1)] q(2) x by simp
  then show "snd p < snd r" by (simp add: e pq)
  have "drop (Suc q) ?c ! (j - Suc q) \<in> set (drop (Suc q) ?c)" using lt i(2) by (intro nth_mem) simp
  then have "?c ! j \<in> set (drop (Suc q) ?c)" using lt i(2) by simp
  then show "o_ohfi (deref db r) \<in> ids (tl (drop (snd p) (db_chains db ! fst p)))"
    using x pq by (simp add: e drop_Suc tl_drop)
qed

text \<open>
  An object with a parent in the table is no master, so it has no filters, and what was looked
  up is the object itself; nor can its parent id be that of a filter.
\<close>

lemma parent_and_id:
  assumes "db_ok db" and "valid_ref db r" and "valid_ref db p"
    and "owns (deref db r) k" and "owns (deref db p) (o_parent (deref db r))"
  shows "o_ohfi (deref db r) = k" and "o_parent (deref db r) = o_ohfi (deref db p)"
proof -
  obtain i j where e: "r = (i, j)" by (cases r)
  let ?c = "db_chains db ! i"
  have i: "i < length (db_chains db)" "j < length ?c" "i < 10"
    using assms(1,2) by (simp_all add: e valid_ref_def db_ok_def)
  note inv = db_okD(1) [OF assms(1) i(1)]
  have x: "deref db r = ?c ! j" by (simp add: e deref_def)
  obtain pi pj where p: "p = (pi, pj)" by (cases p)
  have pi: "pi < length (db_chains db)" "pi < 10" "deref db p \<in> set (db_chains db ! pi)"
    using assms(1,3) by (simp_all add: p valid_ref_def db_ok_def deref_def)
  have "j \<noteq> 0"
  proof
    assume "j = 0"
    then have "?c ! j = hd ?c" using i(2) by (simp add: hd_conv_nth)
    then have "owns (deref db p) 0" using assms(5) inv x by (simp add: chain_inv_def)
    moreover have "0 \<notin> ids (db_chains db ! pi)"
      using chain_inv_nonzero [OF db_okD(1) [OF assms(1) pi(1)] pi(2)] .
    then have "o_ohfi (deref db p) \<noteq> 0" using pi(3) by force
    ultimately obtain f where f: "f \<in> set (filters (deref db p))" "ohfi f = 0" by (auto simp: owns_iff)
    have "\<forall>x \<in> set (db_chains db ! pi). \<forall>f \<in> set (filters x). OHFI_OFFSET \<le> ohfi f"
      using db_okD(1) [OF assms(1) pi(1)] by (cases "db_chains db ! pi") (auto simp: chain_inv_def)
    then show False using f pi(3) by (force simp: OHFI_OFFSET_def)
  qed
  then obtain j' where j': "j = Suc j'" by (cases j) auto
  have "?c ! j \<in> set (tl ?c)" using i(2) nth_mem [of j' "tl ?c"] by (simp add: j' nth_tl)
  then have t: "filters (deref db r) = []" "o_parent (deref db r) \<in> ids ?c"
    using inv x by (simp_all add: chain_inv_def)
  then show "o_ohfi (deref db r) = k" using assms(4) by (simp add: owns_iff)
  obtain y where y: "y \<in> set ?c" "o_ohfi y = o_parent (deref db r)" using t(2) by auto
  then obtain q where q: "q < length ?c" "y = ?c ! q" by (auto simp: in_set_conv_nth)
  then have "valid_ref db (i, q)" "deref db (i, q) = y" using i by (simp_all add: valid_ref_def deref_def)
  then have "p = (i, q)"
    using db_ok_owner_unique [OF assms(1,3), of "(i, q)" "o_parent (deref db r)"] assms(5) y(2)
    by (simp add: owns_iff)
  then show "o_parent (deref db r) = o_ohfi (deref db p)" using y(2) q(2) by (simp add: deref_def)
qed

section \<open>Removing\<close>

lemma keeps_to_prune:
  assumes "db_ok db" and "valid_ref db start"
    and "k \<in> ids (tl (drop (snd start) (db_chains db ! fst start)))"
  shows "keeps_to start db (update_chain (fst start) (\<lambda>_. prune (db_chains db ! fst start) k) db)"
proof -
  let ?c = "db_chains db ! fst start" and ?n = "Suc (snd start)"
  have i: "fst start < length (db_chains db)" using assms(2) by (simp add: valid_ref_def)
  have "chain_ok (take ?n ?c @ drop ?n ?c)" using db_okD(2) [OF assms(1) i] by (simp only: append_take_drop_id)
  moreover have "k \<in> ids (drop ?n ?c)" using assms(3) by (simp add: drop_Suc tl_drop)
  ultimately have "prune ?c k = take ?n ?c @ prune (drop ?n ?c) k"
    using prune_suffix by (metis append_take_drop_id)
  note p = this
  have len: "snd start < length ?c" using assms(2) by (simp add: valid_ref_def)
  have "prune ?c k ! j = ?c ! j \<and> j < length (prune ?c k)" if "j \<le> snd start" for j
    using that len unfolding p by (simp add: nth_append)
  then show ?thesis using i by (auto simp: keeps_to_def valid_ref_def deref_def nth_list_update)
qed

lemma remove_object_keeps:
  assumes "world_ok n w" and "w_db w = Some db" and "valid_ref db start"
    and "k \<in> ids (tl (drop (snd start) (db_chains db ! fst start)))"
  shows "holds (remove_object w k start) (\<lambda>w'. \<exists>db'. w' = w\<lparr>w_db := Some db'\<rparr> \<and> db_ok db' \<and>
    keeps_to start db db' \<and>
    db' = update_chain (fst start) (\<lambda>_. prune (db_chains db ! fst start) k) db)"
proof -
  have ok: "db_ok db" using assms(1,2) by (rule world_ok_db)
  have i: "fst start < length (db_chains db)" using assms(3) by (simp add: valid_ref_def)
  note rm = removeFromDatabase_prunes [OF ok i assms(4)]
  show ?thesis
    using removeFromDatabase_ok [OF ok i assms(4) rm] keeps_to_prune [OF ok assms(3,4)]
    by (simp add: remove_object_def assms(2) rm holds_def)
qed

lemma remove_child_keeps:
  assumes "world_ok n w" and "w_db w = Some db" and "valid_ref db p" and "ohfiToObject db k = Some r"
    and "o_ohfi (deref db r) = k" and "o_parent (deref db r) = o_ohfi (deref db p)"
  shows "holds (remove_object w k p) (\<lambda>w'. world_ok n w' \<and> (\<exists>db'. w_db w' = Some db' \<and> keeps_to p db db'))"
proof -
  have ok: "db_ok db" using assms(1,2) by (rule world_ok_db)
  then have "valid_ref db r" using assms(4) by (simp add: ohfiToObject_iff)
  note b = child_behind_parent [OF ok assms(3) this assms(6)]
  show ?thesis
    by (rule holds_mono [OF remove_object_keeps [OF assms(1-3)]])
      (use b(3) assms(1,5) in \<open>auto simp: world_ok_lock\<close>)
qed

section \<open>Renaming\<close>

definition same_links :: "cma_object list \<Rightarrow> cma_object list \<Rightarrow> bool" where
  "same_links os os' \<longleftrightarrow> length os' = length os \<and> (\<forall>j < length os. o_ohfi (os' ! j) = o_ohfi (os ! j) \<and>
     o_parent (os' ! j) = o_parent (os ! j) \<and> filters (os' ! j) = filters (os ! j))"

lemma same_links_trans: "same_links a b \<Longrightarrow> same_links b c \<Longrightarrow> same_links a c"
  by (auto simp: same_links_def)

lemma rename_one_links:
  "rename_one name newname x = Some y \<Longrightarrow> o_ohfi y = o_ohfi x \<and> o_parent y = o_parent x \<and> filters y = filters x"
  by (auto simp: rename_one_def bind_eq_Some_conv Let_def)

lemma rename_loop_links:
  "rename_loop fuel name newname os i = Some os' \<Longrightarrow> same_links os os'"
  "rename_children fuel k a b os j n = Some os' \<Longrightarrow> same_links os os'"
proof (induction fuel name newname os i and fuel k a b os j n arbitrary: os' and os'
    rule: rename_loop_rename_children.induct)
  case (2 fuel name newname os i)
  from "2.prems" obtain rel obj newRel where r: "md_path (meta (os ! i)) = Some rel"
    "rename_one name newname (os ! i) = Some obj" "md_path (meta obj) = Some newRel"
    and c: "rename_children fuel (o_ohfi obj) rel newRel (os[i := obj]) i (length os - i) = Some os'"
    by (auto simp: bind_eq_Some_conv)
  have "same_links os (os[i := obj])"
    using rename_one_links [OF r(2)] by (auto simp: same_links_def nth_update)
  then show ?case using "2.IH" [OF r c] same_links_trans by blast
next
  case (4 fuel k a b os j n)
  show ?case
  proof (cases "o_parent (os ! j) = k")
    case True
    then obtain nm os1 where m: "md_name (meta (os ! j)) = Some nm"
      "rename_loop fuel (Some (path_join a nm)) (path_join b nm) os j = Some os1"
      "rename_children fuel k a b os1 (Suc j) n = Some os'"
      using "4.prems" by (auto simp: bind_eq_Some_conv)
    then show ?thesis using "4.IH"(1) [OF True m(1,2)] "4.IH"(2) [OF True m(1,2) m(3)] same_links_trans by blast
  next
    case False
    then show ?thesis using "4.prems" "4.IH"(3) by simp
  qed
qed (auto simp: same_links_def)

lemma renameRootEntry_ok:
  assumes "db_ok db" and "valid_ref db r" and "renameRootEntry db r name newname = Some db'"
  shows "db_ok db'" and "keeps_to r0 db db'"
proof -
  let ?i = "fst r" and ?c = "db_chains db ! fst r"
  obtain os where os: "rename_loop (length ?c + 1) name newname ?c (snd r) = Some os"
    and db': "db' = (update_chain ?i (\<lambda>_. os) db)\<lparr>ohfi_count := ohfi_count db\<rparr>"
    using assms(3) by (auto simp: renameRootEntry_def bind_eq_Some_conv update_chain_def)
  have sl: "same_links ?c os" by (rule rename_loop_links(1) [OF os])
  have i: "?i < length (db_chains db)" using assms(2) by (simp add: valid_ref_def)
  have "chain_inv (master_ids ! ?i) (ohfi_count db) os \<and> chain_ids os = chain_ids ?c"
    by (rule same_links_chain_inv [OF _ _ db_okD(1) [OF assms(1) i]]) (use sl in \<open>simp_all add: same_links_def\<close>)
  then show "db_ok db'" unfolding db' by (intro db_ok_update [OF assms(1) i]) auto
  show "keeps_to r0 db db'"
    using sl by (auto simp: db' keeps_to_def valid_ref_def deref_def nth_update same_links_def)
qed

section \<open>Handlers that change the database\<close>

lemma destroyDatabase_keeps [simp]: "world_ok n w \<Longrightarrow> world_ok n (destroyDatabase w)"
  by (simp add: destroyDatabase_def world_ok_lock)

lemma refreshDatabase_keeps: "w_lock w = n \<Longrightarrow> holds (refreshDatabase E w) (world_ok n)"
  unfolding refreshDatabase_def createDatabase_def
proof (rule holds_bind)
  fix db
  assume w: "w_lock w = n"
    and a: "add_all_masters (e_depth E) (e_dir E (w_fs w)) (e_stat E (w_fs w)) [0..<10]
      (initDatabase (e_paths E) (w_uuid w)) = Some db"
  have "db_ok db" by (rule add_all_masters_ok [OF initDatabase_ok _ a]) simp
  then show "holds (Some (w\<lparr>w_db := Some db\<rparr>)) (world_ok n)" using w by (simp add: holds_Some)
qed

lemma refresh_round_keeps: "world_ok n w \<Longrightarrow> holds (refresh_round E w) (world_ok n)"
  unfolding refresh_round_def
  by (rule holds_if, simp add: holds_Some, rule holds_bind_via [OF refreshDatabase_keeps])
    (auto simp: world_ok_lock [OF destroyDatabase_keeps] intro!: holds_Some)

lemma keeps_SendNumOfObject [keeps_rules]: "keeps (vitaEventSendNumOfObject E ev eventId)"
proof (rule keepsI)
  fix w :: "'a world"
  assume w: "world_ok 0 w"
  show "holds (vitaEventSendNumOfObject E ev eventId w) (world_ok 0)"
    unfolding vitaEventSendNumOfObject_def Let_def
  proof (rule holds_bind_via [where P = "world_ok 0"])
    show "holds (if sint (ev_Param2 ev) = VITA_OHFI_PACKAGE \<and> w_db w = None
          then if e_slept E then refresh_round E (w\<lparr>w_uuid := ''0000000000000000'', w_refresh := w_refresh w + 1\<rparr>)
            else Some (w\<lparr>w_uuid := ''0000000000000000'', w_refresh := w_refresh w + 1\<rparr>)
          else Some w) (world_ok 0)"
      using w by (auto intro!: holds_if refresh_round_keeps holds_Some)
  qed (intro holds_intros; simp)
qed

lemma keeps_CheckExistance [keeps_rules]: "keeps (vitaEventCheckExistance E ev eventId)"
  by (rule keepsI, unfold vitaEventCheckExistance_def) (intro holds_intros; simp)

lemma send_objects_keeps:
  "world_ok n w \<Longrightarrow> w_db w = Some db \<Longrightarrow> i < length (db_chains db) \<Longrightarrow>
     j + length xs \<le> length (db_chains db ! i) \<Longrightarrow>
     holds (send_objects E i start j xs h ph w) (\<lambda>(_, w'). world_ok n w')"
proof (induction xs arbitrary: j h ph w db)
  case Nil
  then show ?case by (simp add: holds_Some)
next
  case (Cons x xs)
  have v: "valid_ref db (i, j)" using Cons.prems by (simp add: valid_ref_def)
  have step: "holds (send_objects E i start (j + 1) xs h2 ph2
      (w\<lparr>w_sess := s, w_db := Some (update_obj (i, j) (set_handle h2) db)\<rparr>)) (\<lambda>(_, w'). world_ok n w')" for h2 ph2 s
  proof (rule Cons.IH [where db = "update_obj (i, j) (set_handle h2) db"])
    have "db_ok (update_obj (i, j) (set_handle h2) db)"
      by (rule update_obj_ok [OF world_ok_db [OF Cons.prems(1,2)] v]) simp
    then show "world_ok n (w\<lparr>w_sess := s, w_db := Some (update_obj (i, j) (set_handle h2) db)\<rparr>)"
      using Cons.prems(1) by (simp add: world_ok_lock)
  qed (use Cons.prems in \<open>auto simp: update_obj_def nth_list_update\<close>)
  show ?case
    unfolding send_objects.simps Cons.prems(2)
    by (intro holds_intros; (simp add: Cons.prems; fail)?; (simp only: step; fail)?)
qed

lemma keeps_SendObject [keeps_rules]: "keeps (vitaEventSendObject E ev eventId)"
proof (rule keepsI)
  fix w :: "'a world"
  assume w: "world_ok 0 w"
  show "holds (vitaEventSendObject E ev eventId w) (world_ok 0)"
    unfolding vitaEventSendObject_def Let_def lock_simps
  proof (rule holds_bind, rule holds_option)
    show "holds (report E (unlockDatabase (lockDatabase w)) eventId PTP_RC_VITA_Invalid_OHFI) (world_ok 0)"
      using w by (intro holds_intros) simp
    fix db r
    assume db: "w_db w = Some db" and r: "ohfiToObject db (sint (ev_Param2 ev)) = Some r"
    have ok: "db_ok db" using w db by (rule world_ok_db)
    then have v: "valid_ref db r" using r by (simp add: ohfiToObject_iff)
    have w1: "world_ok 1 (lockDatabase w)" using w by simp
    have s: "holds (send_objects E (fst r) (snd r) (snd r) (drop (snd r) (db_chains db ! fst r)) 0
        (ev_Param3 ev) (lockDatabase w)) (\<lambda>(_, w'). world_ok 1 w')"
      by (rule send_objects_keeps [OF w1]) (use db v in \<open>auto simp: valid_ref_def\<close>)
    show "holds (send_objects E (fst r) (snd r) (snd r) (drop (snd r) (db_chains db ! fst r)) 0
        (ev_Param3 ev) (lockDatabase w) \<bind>
        (\<lambda>(fin, w1). case fin of
            All_sent h \<Rightarrow> report_param E (unlockDatabase w1) eventId PTP_RC_OK h \<bind>
              (\<lambda>w2. report E w2 eventId PTP_RC_VITA_Invalid_Data)
          | Unreadable \<Rightarrow> report E (unlockDatabase w1) eventId PTP_RC_VITA_Not_Exist_Object
          | Send_failed \<Rightarrow> Some (unlockDatabase w1))) (world_ok 0)"
      by (rule holds_bind_via [OF s]) (auto split: send_end.split intro!: holds_intros)
  qed
qed

lemma keeps_DeleteObject [keeps_rules]: "keeps (vitaEventDeleteObject E ev eventId)"
proof (rule keepsI)
  fix w :: "'a world"
  assume w: "world_ok 0 w"
  show "holds (vitaEventDeleteObject E ev eventId w) (world_ok 0)"
    unfolding vitaEventDeleteObject_def Let_def lock_simps
  proof (rule holds_bind, rule holds_option)
    show "holds (report E (unlockDatabase (lockDatabase w)) eventId PTP_RC_VITA_Invalid_OHFI) (world_ok 0)"
      using w by (intro holds_intros) simp
    fix db r
    assume db: "w_db w = Some db" and r: "ohfiToObject db (sint (ev_Param2 ev)) = Some r"
    have ok: "db_ok db" using w db by (rule world_ok_db)
    have fz: "holds (remove_object ((lockDatabase w)\<lparr>w_fs := fs\<rparr>) (sint (ev_Param2 ev)) p) (world_ok 1)"
      if p: "ohfiToObject db (o_parent (deref db r)) = Some p" for p fs
    proof -
      have v: "valid_ref db r" "valid_ref db p" "owns (deref db r) (sint (ev_Param2 ev))"
        "owns (deref db p) (o_parent (deref db r))" using r p by (simp_all add: ohfiToObject_iff [OF ok])
      from parent_and_id [OF ok this] have e: "o_ohfi (deref db r) = sint (ev_Param2 ev)"
        "o_parent (deref db r) = o_ohfi (deref db p)" by simp_all
      have "world_ok 1 ((lockDatabase w)\<lparr>w_fs := fs\<rparr>)" using w by simp
      from remove_child_keeps [OF this _ v(2) r e] show ?thesis using db by (auto simp: holds_def)
    qed
    show "holds (ohfiToObject db (o_parent (deref db r)) \<bind>
        (\<lambda>parent. remove_object ((lockDatabase w)\<lparr>w_fs := deleteAll (w_fs w) (o_path (deref db r))\<rparr>)
            (sint (ev_Param2 ev)) parent \<bind>
          (\<lambda>w1. report E (unlockDatabase w1) eventId PTP_RC_OK))) (world_ok 0)"
      by (rule holds_bind, rule holds_bind_via [OF fz], assumption) (intro holds_intros, simp)
  qed
qed

section \<open>Handlers that add objects\<close>

lemma operate_create_keeps:
  assumes w: "world_ok n w" and db: "w_db w = Some db" and v: "valid_ref db root"
  shows "holds (operate_create E eventId root title kind w) (world_ok n)"
proof -
  obtain db1 r1 where add: "addToDatabase db root title 0 kind = (db1, r1)"
    by (cases "addToDatabase db root title 0 kind")
  have ok: "db_ok db" using w db by (rule world_ok_db)
  note ad = addToDatabase_ok [OF ok v add]
  have k: "ohfiToObject db1 (o_ohfi (deref db1 r1)) = Some r1" by (rule ohfiToObject_Some [OF ad(1,2)]) simp
  have p: "o_parent (deref db1 r1) = o_ohfi (deref db1 root)" using ad(4) [OF v] by (simp add: ad(3))
  have rm: "holds (remove_object (w\<lparr>w_db := Some db1, w_fs := fs\<rparr>) (o_ohfi (deref db1 r1)) root)
      (\<lambda>w'. world_ok n w' \<and> (\<exists>db'. w_db w' = Some db' \<and> keeps_to root db1 db'))" for fs
    by (rule remove_child_keeps [OF _ _ _ k refl p]) (use ad w v in \<open>simp_all add: world_ok_lock\<close>)
  show ?thesis
    unfolding operate_create_def db Option.bind.bind_lunit add Let_def prod.case
    by (rule holds_bind, rule holds_prod, rule holds_if, rule holds_bind_via [OF rm])
      (auto intro!: holds_intros simp: ad(1) world_ok_lock [OF w])
qed

lemma operate_rename_keeps:
  assumes w: "world_ok n w" and db: "w_db w = Some db" and v: "valid_ref db root"
  shows "holds (operate_rename E eventId root title w) (world_ok n)"
proof -
  have ok: "db_ok db" using w db by (rule world_ok_db)
  have ok1: "db_ok db1 \<and> valid_ref db1 root" if "renameRootEntry db root None title = Some db1" for db1
    using renameRootEntry_ok [OF ok v that] keeps_toD(1) [of root db db1 root] v by blast
  have ok2: "db_ok db2" if "renameRootEntry db root None title = Some db1"
    "renameRootEntry db1 root None orig = Some db2" for db1 db2 orig
    using renameRootEntry_ok(1) ok1 that by blast
  show ?thesis
    unfolding operate_rename_def db Option.bind.bind_lunit
    by (intro holds_intros) (auto simp: world_ok_lock [OF w] dest: ok1 ok2)
qed

lemma operate_keeps:
  assumes "world_ok 0 w" and "w_db w = Some db" and "ohfiToObject db k = Some root"
  shows "holds (operate E eventId oper root (lockDatabase w)) (world_ok (Suc 0))"
proof -
  have w: "world_ok (Suc 0) (lockDatabase w)" using assms(1) by simp
  have v: "valid_ref db root" using assms world_ok_db by (metis ohfiToObject_iff)
  have db: "w_db (lockDatabase w) = Some db" by (simp add: assms(2))
  note rules = operate_create_keeps [OF w db v] operate_rename_keeps [OF w db v]
  show ?thesis unfolding operate_def using w by (auto intro!: holds_if holds_bind rules report_keeps)
qed

lemma keeps_OperateObject [keeps_rules]: "keeps (vitaEventOperateObject E ev eventId)"
proof (rule keepsI)
  fix w :: "'a world"
  assume w: "world_ok 0 w"
  have op: "world_ok (Suc 0) w2" if "operate E eventId oper root (lockDatabase (w\<lparr>w_sess := s\<rparr>)) = Some w2"
    "w_db w = Some db" "ohfiToObject db k = Some root" for db root k s oper w2
    by (rule holdsD [OF operate_keeps that(1)]) (use w that in simp_all)
  show "holds (vitaEventOperateObject E ev eventId w) (world_ok 0)"
    unfolding vitaEventOperateObject_def by (intro holds_intros) (use w in \<open>auto dest: op\<close>)
qed

lemma keeps_GetPartOfObject [keeps_rules]: "keeps (vitaEventGetPartOfObject E ev eventId)"
proof (rule keepsI)
  fix w :: "'a world"
  assume w: "world_ok 0 w"
  have inc: "holds (incrementSizeMetadata db r n) db_ok" if "w_db w = Some db" "ohfiToObject db k = Some r" for db r n k
    by (rule holds_mono [OF incrementSizeMetadata_keeps])
      (use that world_ok_db [OF w] in \<open>auto simp: ohfiToObject_iff\<close>)
  show "holds (vitaEventGetPartOfObject E ev eventId w) (world_ok 0)"
    unfolding vitaEventGetPartOfObject_def
    by (intro holds_intros) (use w in \<open>auto dest!: holdsD [OF inc] simp: world_ok_lock\<close>)
qed

section \<open>Receiving objects\<close>

text \<open>\<open>r\<close> is the object with id \<open>k\<close>, a child of \<open>p\<close>.\<close>

definition child_at :: "cma_db \<Rightarrow> objref \<Rightarrow> int \<Rightarrow> objref \<Rightarrow> bool" where
  "child_at db p k r \<longleftrightarrow> valid_ref db p \<and> ohfiToObject db k = Some r \<and> o_ohfi (deref db r) = k \<and>
     o_parent (deref db r) = o_ohfi (deref db p)"

lemma child_atD:
  assumes "db_ok db" and "child_at db p k r"
  shows "valid_ref db p" and "valid_ref db r" and "ohfiToObject db k = Some r" and "fst r = fst p"
    and "snd p < snd r"
  using assms child_behind_parent [OF assms(1), of p r] by (auto simp: child_at_def ohfiToObject_iff)

lemma ohfiToObject_own: "db_ok db \<Longrightarrow> valid_ref db r \<Longrightarrow> ohfiToObject db (o_ohfi (deref db r)) = Some r"
  by (rule ohfiToObject_Some) simp_all

lemma child_at_keeps:
  assumes "db_ok db" and "db_ok db'" and "child_at db p k r" and "keeps_to r db db'"
  shows "child_at db' p k r" and "keeps_to p db db'"
proof -
  note c = child_atD [OF assms(1,3)]
  show kp: "keeps_to p db db'" by (rule keeps_to_le [OF assms(4)]) (use c in simp_all)
  note d = keeps_toD [OF assms(4) c(2)] keeps_toD [OF kp c(1)]
  show "child_at db' p k r"
    using d assms(3) ohfiToObject_own [OF assms(2), of r] by (auto simp: child_at_def)
qed

lemma remove_child_at:
  assumes "world_ok n w" and "w_db w = Some db" and "child_at db p k r"
  shows "holds (remove_object w k p) (\<lambda>w'. world_ok n w' \<and> (\<exists>db'. w_db w' = Some db' \<and> keeps_to p db db'))"
  by (rule remove_child_keeps [OF assms(1,2)]) (use assms(3) in \<open>auto simp: child_at_def\<close>)

lemma descendants_cases:
  "k \<in> descendants os a \<Longrightarrow> k = a \<or> (\<exists>x \<in> set os. o_ohfi x = k \<and> o_parent x \<in> descendants os a)"
  by (induction rule: descendants_induct) auto

lemma path_scan_chain_Some: "path_scan_chain p xs j = Some t \<Longrightarrow> j \<le> t \<and> t < j + length xs"
  by (induction p xs j rule: path_scan_chain.induct) (auto split: if_splits)

lemma path_scan_chains_Some:
  "path_scan_chains p root cs i = Some t \<Longrightarrow> root \<noteq> 0 \<Longrightarrow>
     i \<le> fst t \<and> fst t - i < length cs \<and> o_ohfi (hd (cs ! (fst t - i))) = root \<and> 0 < snd t \<and>
     snd t < Suc (length (tl (cs ! (fst t - i))))"
proof (induction p root cs i rule: path_scan_chains.induct)
  case (2 path root c cs i)
  show ?case
  proof (cases "o_ohfi (hd c) = root \<and> path_scan_chain path (tl c) 1 \<noteq> None")
    case True
    then obtain j where j: "path_scan_chain path (tl c) 1 = Some j" by blast
    with True have "t = (i, j)" using "2.prems" by simp
    then show ?thesis using True path_scan_chain_Some [OF j] by simp
  next
    case False
    then have r: "path_scan_chains path root cs (Suc i) = Some t"
      using "2.prems" by (auto split: if_splits option.splits)
    have "Suc i \<le> fst t \<and> fst t - Suc i < length cs \<and> o_ohfi (hd (cs ! (fst t - Suc i))) = root \<and> 0 < snd t \<and>
        snd t < Suc (length (tl (cs ! (fst t - Suc i))))"
    proof (cases "o_ohfi (hd c) = root")
      case True
      then show ?thesis using "2.IH"(2) False r "2.prems"(2) by auto
    next
      case f: False
      then show ?thesis using "2.IH"(1) r "2.prems"(2) by auto
    qed
    moreover from this obtain m where "fst t - i = Suc m" "fst t - Suc i = m" by (metis Suc_diff_le diff_Suc_Suc)
    ultimately show ?thesis by simp
  qed
qed simp

lemma own_id_nonzero:
  assumes "db_ok db" and "valid_ref db r"
  shows "o_ohfi (deref db r) \<noteq> 0"
proof -
  have i: "fst r < length (db_chains db)" "fst r < 10" "deref db r \<in> set (db_chains db ! fst r)"
    using assms by (auto simp: valid_ref_def db_ok_def deref_def)
  have "0 \<notin> ids (db_chains db ! fst r)" by (rule chain_inv_nonzero [OF db_okD(1) [OF assms(1) i(1)] i(2)])
  then show ?thesis using i(3) by force
qed

text \<open>Only a master can be the parent in \<open>replace_existing\<close>, and the object found is in its list.\<close>

lemma pathToObject_below:
  assumes "db_ok db" and "valid_ref db p" and "pathToObject db name (o_ohfi (deref db p)) = Some t"
  shows "p = (fst t, 0)" and "valid_ref db t" and "o_ohfi (deref db t) \<in> ids (tl (db_chains db ! fst t))"
proof -
  let ?c = "db_chains db ! fst t"
  have t: "fst t < length (db_chains db)" "o_ohfi (hd ?c) = o_ohfi (deref db p)" "0 < snd t"
    "snd t < Suc (length (tl ?c))"
    using path_scan_chains_Some [OF assms(3) [unfolded pathToObject_def] own_id_nonzero [OF assms(1,2)]] by auto
  have ne: "?c \<noteq> []" using t(3,4) by (cases ?c) auto
  have v: "valid_ref db (fst t, 0)" using t(1) ne by (simp add: valid_ref_def)
  have "deref db (fst t, 0) = hd ?c" using ne by (simp add: deref_def hd_conv_nth)
  then show "p = (fst t, 0)" using db_ok_owner_unique [OF assms(1,2) v, of "o_ohfi (deref db p)"] t(2) by (simp add: owns_iff)
  have l: "snd t < length ?c" using t(4) ne by simp
  then show "valid_ref db t" using t(1) by (simp add: valid_ref_def)
  obtain m where m: "snd t = Suc m" using t(3) by (cases "snd t") auto
  then have "tl ?c ! m \<in> set (tl ?c)" using t(4) by (intro nth_mem) simp
  then show "o_ohfi (deref db t) \<in> ids (tl ?c)" using m l by (simp add: deref_def nth_tl)
qed

lemma prune_keeps_other:
  assumes "chain_inv m n c" and "x \<in> set c" and "o_parent x = o_ohfi (hd c)" and "kt \<in> ids (tl c)" and "o_ohfi x \<noteq> kt"
  shows "x \<in> set (prune c kt)"
proof -
  obtain y ys where c: "c = y # ys" using assms(1) by (cases c) (auto simp: chain_inv_def)
  have ok: "chain_ok ([y] @ ys)" using assms(1) c by (auto simp: chain_inv_def)
  have "descendants c kt \<subseteq> ids ys" using descendants_behind [OF ok] assms(4) c by simp
  moreover have "o_ohfi y \<notin> ids ys" using ok by simp
  ultimately have m: "o_ohfi (hd c) \<notin> descendants c kt" using c by auto
  have "o_ohfi x \<notin> descendants c kt"
  proof
    assume "o_ohfi x \<in> descendants c kt"
    from descendants_cases [OF this] assms(5) obtain z where
      z: "z \<in> set c" "o_ohfi z = o_ohfi x" "o_parent z \<in> descendants c kt" by blast
    then have "z = x" using chain_ok_inj [of c z x] assms(2) ok c by simp
    then show False using z(3) assms(3) m by simp
  qed
  then show ?thesis using assms(2) by (simp add: set_prune)
qed

lemma replace_existing_keeps:
  assumes w: "world_ok n w" and db: "w_db w = Some db" and c: "child_at db p k obj"
  shows "holds (replace_existing p obj w) (\<lambda>w'. world_ok n w' \<and>
    (\<exists>db' r. w_db w' = Some db' \<and> keeps_to p db db' \<and> child_at db' p k r \<and> deref db' r = deref db obj))"
proof -
  have ok: "db_ok db" using w db by (rule world_ok_db)
  note ca = child_atD [OF ok c]
  have rm: "holds (remove_object (w\<lparr>w_fs := fs\<rparr>) (o_ohfi (deref db t)) p) (\<lambda>w'. world_ok n w' \<and>
      (\<exists>db' r. w_db w' = Some db' \<and> keeps_to p db db' \<and> child_at db' p k r \<and> deref db' r = deref db obj))"
    if t: "pathToObject db name (o_ohfi (deref db p)) = Some t" "t \<noteq> obj" for t name fs
  proof -
    note pt = pathToObject_below [OF ok ca(1) t(1)]
    let ?i = "fst t" and ?c = "db_chains db ! fst t" and ?k = "o_ohfi (deref db t)"
    have i: "?i < length (db_chains db)" "?i < 10" using pt(2) ok by (auto simp: valid_ref_def db_ok_def)
    note inv = db_okD(1) [OF ok i(1)]
    have w1: "world_ok n (w\<lparr>w_fs := fs\<rparr>)" and db1: "w_db (w\<lparr>w_fs := fs\<rparr>) = Some db" using w db by simp_all
    have ids: "?k \<in> ids (tl (drop (snd p) (db_chains db ! fst p)))" using pt(3) by (simp add: pt(1))
    have x: "deref db obj \<in> set ?c" using ca(2,4) pt(1) by (auto simp: deref_def valid_ref_def)
    have par: "o_parent (deref db obj) = o_ohfi (hd ?c)"
      using c inv pt(1) by (auto simp: child_at_def deref_def chain_inv_def hd_conv_nth)
    have "?k \<noteq> o_ohfi (deref db obj)"
      using db_ok_owner_unique [OF ok pt(2) ca(2), of ?k] t(2) by (auto simp: owns_iff)
    with prune_keeps_other [OF inv x par pt(3)] have mem: "deref db obj \<in> set (prune ?c ?k)" by simp
    show ?thesis
    proof (rule holds_mono [OF remove_object_keeps [OF w1 db1 ca(1) ids]])
      fix w'
      assume "\<exists>db'. w' = w\<lparr>w_fs := fs, w_db := Some db'\<rparr> \<and> db_ok db' \<and> keeps_to p db db' \<and>
        db' = update_chain (fst p) (\<lambda>_. prune (db_chains db ! fst p) ?k) db"
      then obtain db' where d: "w' = w\<lparr>w_fs := fs, w_db := Some db'\<rparr>" "db_ok db'" "keeps_to p db db'"
        "db' = update_chain ?i (\<lambda>_. prune ?c ?k) db" by (auto simp: pt(1))
      obtain q where q: "q < length (prune ?c ?k)" "prune ?c ?k ! q = deref db obj"
        using mem by (auto simp: in_set_conv_nth)
      then have r: "valid_ref db' (?i, q)" "deref db' (?i, q) = deref db obj"
        using i(1) by (simp_all add: d(4) valid_ref_def deref_def)
      have "child_at db' p k (?i, q)"
        using keeps_toD(1,2) [OF d(3) ca(1)] c ohfiToObject_own [OF d(2) r(1)] r(2) by (simp add: child_at_def)
      then show "world_ok n w' \<and> (\<exists>db' r. w_db w' = Some db' \<and> keeps_to p db db' \<and> child_at db' p k r \<and>
          deref db' r = deref db obj)"
        using d r(2) world_ok_lock [OF w] by auto
    qed
  qed
  show ?thesis
    unfolding replace_existing_def db Option.bind.bind_lunit
    by (rule holds_bind, rule holds_option, rule_tac [2] holds_if)
      (use w db c keeps_to_refl in \<open>fastforce intro!: holds_Some\<close>, use w db c keeps_to_refl in \<open>fastforce intro!: holds_Some\<close>,
        rule rm)
qed

abbreviation kept :: "nat \<Rightarrow> objref \<Rightarrow> cma_db \<Rightarrow> u16 \<times> 's world \<Rightarrow> bool" where
  "kept n p db \<equiv> \<lambda>(code, w'). world_ok n w' \<and> (\<exists>db'. w_db w' = Some db' \<and> keeps_to p db db')"

lemma give_up_keeps:
  assumes "world_ok (Suc n) w" and "w_db w = Some db" and "child_at db p k r"
  shows "holds (give_up p k code w) (kept n p db)"
  unfolding give_up_def
  by (rule holds_bind_via [OF remove_child_at [OF assms]]) (auto intro: holds_Some)

lemma enter_object_keeps:
  assumes w: "world_ok n w" and db: "w_db w = Some db" and v: "valid_ref db p"
  shows "holds (enter_object p h g w) (\<lambda>(k, dt, w'). world_ok n w' \<and>
    (\<exists>db' r. w_db w' = Some db' \<and> keeps_to p db db' \<and> child_at db' p k r))"
  unfolding enter_object_def db Option.bind.bind_lunit
proof (rule holds_bind, rule holds_Let, rule holds_prod)
  fix name db1 newobj x
  assume "x = addToDatabase db p name 0 (got_type g)" "x = (db1, newobj)"
  then have add: "addToDatabase db p name 0 (got_type g) = (db1, newobj)" by simp
  have ok: "db_ok db" using w db by (rule world_ok_db)
  note ad = addToDatabase_ok [OF ok v add]
  let ?db2 = "update_obj newobj (set_handle h) db1"
  have ok2: "db_ok ?db2" by (rule update_obj_ok [OF ad(1,2)]) simp
  have k2: "keeps_to p db ?db2"
    by (rule keeps_to_trans [OF keeps_to_add [OF ok v add] keeps_to_update_obj]) simp
  let ?k = "o_ohfi (deref db1 newobj)"
  have "deref ?db2 newobj = set_handle h (deref db1 newobj)" using ad(2) by (simp add: deref_update_obj)
  then have c: "child_at ?db2 p ?k newobj"
    using keeps_toD(1,2) [OF k2 v] ad(2,3) ohfiToObject_own [OF ok2, of newobj] by (simp add: child_at_def)
  have w2: "world_ok n (w\<lparr>w_db := Some ?db2\<rparr>)" using ok2 w by (simp add: world_ok_lock)
  have db2: "w_db (w\<lparr>w_db := Some ?db2\<rparr>) = Some ?db2" by simp
  show "holds (replace_existing p newobj (w\<lparr>w_db := Some ?db2\<rparr>) \<bind>
      (\<lambda>w1. Some (?k, dataType (meta (deref db1 newobj)), w1)))
    (\<lambda>(k, dt, w'). world_ok n w' \<and> (\<exists>db' r. w_db w' = Some db' \<and> keeps_to p db db' \<and> child_at db' p k r))"
    by (rule holds_bind_via [OF replace_existing_keeps [OF w2 db2 c]])
      (auto intro!: holds_Some intro: keeps_to_trans [OF k2])
qed

lemma receive_file_keeps:
  assumes w: "world_ok (Suc n) w" and db: "w_db w = Some db" and c: "child_at db p k r"
  shows "holds (receive_file E p k sz dat w) (kept n p db)"
proof -
  have ok: "db_ok db" using w db by (rule world_ok_db)
  note ca = child_atD [OF ok c]
  have rm: "holds (give_up p k code (w\<lparr>w_fs := fs\<rparr>)) (kept n p db)" for fs code
    by (rule give_up_keeps [OF _ _ c]) (use w db in simp_all)
  have inc: "holds (incrementSizeMetadata db r sz) (\<lambda>db'. db_ok db' \<and> keeps_to p db db')"
    by (rule holds_mono [OF incrementSizeMetadata_keeps [OF ok ca(2)]]) blast
  show ?thesis
    unfolding receive_file_def db Option.bind.bind_lunit ca(3) Let_def
    by (rule holds_prod, rule holds_bind, rule holds_prod, rule holds_if, rule rm, rule holds_bind_via [OF inc])
      (use w in \<open>auto intro!: holds_Some simp: world_ok_lock\<close>)
qed

lemma make_folder_keeps:
  "world_ok n w \<Longrightarrow> w_db w = Some db \<Longrightarrow>
     holds (make_folder E k w) (\<lambda>(made, w'). world_ok n w' \<and> w_db w' = Some db)"
  unfolding make_folder_def by (intro holds_intros) auto

lemma kept_trans: "keeps_to p db db1 \<Longrightarrow> kept n p db1 x \<Longrightarrow> kept n p db x"
  using keeps_to_trans by (cases x) blast

lemma holds_kept_trans: "keeps_to p db db1 \<Longrightarrow> holds m (kept n p db1) \<Longrightarrow> holds m (kept n p db)"
  by (erule holds_mono) (rule kept_trans)

lemma vitaGetAllObjects_keeps:
  "world_ok n w \<Longrightarrow> w_db w = Some db \<Longrightarrow> valid_ref db p \<Longrightarrow>
     holds (vitaGetAllObjects fuel E p h w) (kept n p db)"
  "world_ok n w \<Longrightarrow> w_db w = Some db \<Longrightarrow> ohfiToObject db k = Some r \<Longrightarrow> o_ohfi (deref db r) = k \<Longrightarrow>
     holds (get_children fuel E k hs w) (kept n r db)"
proof (induction fuel E p h w and fuel E k hs w arbitrary: n db and n db r
    rule: vitaGetAllObjects_get_children.induct)
  case (2 fuel E p h w0)
  show ?case unfolding vitaGetAllObjects.simps
  proof (rule holds_bind, rule holds_prod, rule holds_prod, rule holds_if)
    fix x ret b got s
    assume b: "b = (got, s)" and gx: "VitaMTP_GetObject (e_io E) (w_sess w0) h = Some x" "x = (ret, b)"
    show "holds (Some (PTP_RC_VITA_Invalid_Data, w0\<lparr>w_sess := s\<rparr>)) (kept n p db)"
      using "2.prems" by (simp add: holds_Some)
    assume ret: "\<not> ret \<noteq> PTP_RC_OK"
    let ?w = "lockDatabase (w0\<lparr>w_sess := s\<rparr>)"
    have w: "world_ok (Suc n) ?w" "w_db ?w = Some db" using "2.prems" by simp_all
    show "holds (got \<bind> (\<lambda>g. enter_object p h g ?w \<bind> (\<lambda>(k, dt, w1). case g of
          Got_Folder _ hs \<Rightarrow> if dt AND File \<noteq> 0 then None
            else make_folder E k w1 \<bind> (\<lambda>(made, w2).
              if made < 0 then give_up p k PTP_RC_VITA_Failed_Operate_Object w2
              else get_children fuel E k hs w2 \<bind> (\<lambda>(code, w3).
                if code \<noteq> PTP_RC_OK then give_up p k code w3 else Some (PTP_RC_OK, unlockDatabase w3)))
        | Got_File _ sz dat \<Rightarrow> receive_file E p k sz dat w1))) (kept n p db)"
    proof (rule holds_bind, rule holds_bind_via [OF enter_object_keeps [OF w "2.prems"(3)]], rule holds_prod, rule holds_prod)
      fix g k dt w1 y z
      assume g: "got = Some g" and en: "enter_object p h g ?w = Some y" "y = (k, z)" "z = (dt, w1)"
        and ex: "case y of (k, dt, w') \<Rightarrow> world_ok (Suc n) w' \<and>
          (\<exists>db' r. w_db w' = Some db' \<and> keeps_to p db db' \<and> child_at db' p k r)"
      then obtain db1 i j where w1: "world_ok (Suc n) w1" "w_db w1 = Some db1"
        and k1: "keeps_to p db db1" and c1: "child_at db1 p k (i, j)" by auto
      have ok1: "db_ok db1" using w1 by (rule world_ok_db)
      have folder: "holds (if dt AND File \<noteq> 0 then None
            else make_folder E k w1 \<bind> (\<lambda>(made, w2).
              if made < 0 then give_up p k PTP_RC_VITA_Failed_Operate_Object w2
              else get_children fuel E k hs w2 \<bind> (\<lambda>(code, w3).
                if code \<noteq> PTP_RC_OK then give_up p k code w3 else Some (PTP_RC_OK, unlockDatabase w3))))
          (kept n p db1)" if gf: "g = Got_Folder nm hs" for nm hs
      proof (rule holds_if, rule holds_None, rule holds_bind_via [OF make_folder_keeps [OF w1]], rule holds_prod, rule holds_if)
        fix made w2 m
        assume dt: "\<not> dt AND File \<noteq> 0" and mk: "make_folder E k w1 = Some m" "m = (made, w2)"
          and "case m of (made, w') \<Rightarrow> world_ok (Suc n) w' \<and> w_db w' = Some db1"
        then have w2: "world_ok (Suc n) w2" "w_db w2 = Some db1" by simp_all
        show "holds (give_up p k PTP_RC_VITA_Failed_Operate_Object w2) (kept n p db1)"
          by (rule give_up_keeps [OF w2 c1])
        assume made: "\<not> made < 0"
        have at: "ohfiToObject db1 k = Some (i, j)" "o_ohfi (deref db1 (i, j)) = k" using c1 by (simp_all add: child_at_def)
        have "holds (get_children fuel E k hs w2) (kept (Suc n) (i, j) db1)"
          by (rule "2.IH" [OF gx(1) gx(2) [symmetric] b [symmetric] ret g en(1) en(2) [symmetric]
                en(3) [symmetric] gf dt mk(1) mk(2) [symmetric] made w2 at])
        then show "holds (get_children fuel E k hs w2 \<bind> (\<lambda>(code, w3).
            if code \<noteq> PTP_RC_OK then give_up p k code w3 else Some (PTP_RC_OK, unlockDatabase w3))) (kept n p db1)"
        proof (rule holds_bind_via, rule_tac holds_prod, rule_tac holds_if)
          fix code w3 y
          assume "y = (code, w3)" "kept (Suc n) (i, j) db1 y"
          then obtain db3 where w3: "world_ok (Suc n) w3" "w_db w3 = Some db3" and k3: "keeps_to (i, j) db1 db3"
            by auto
          note c3 = child_at_keeps [OF ok1 world_ok_db [OF w3] c1 k3]
          show "holds (give_up p k code w3) (kept n p db1)"
            by (rule holds_kept_trans [OF c3(2) give_up_keeps [OF w3 c3(1)]])
          show "holds (Some (PTP_RC_OK, unlockDatabase w3)) (kept n p db1)"
            using w3 c3(2) by (auto intro!: holds_Some)
        qed
      qed
      have "holds (case g of
          Got_Folder _ hs \<Rightarrow> if dt AND File \<noteq> 0 then None
            else make_folder E k w1 \<bind> (\<lambda>(made, w2).
              if made < 0 then give_up p k PTP_RC_VITA_Failed_Operate_Object w2
              else get_children fuel E k hs w2 \<bind> (\<lambda>(code, w3).
                if code \<noteq> PTP_RC_OK then give_up p k code w3 else Some (PTP_RC_OK, unlockDatabase w3)))
        | Got_File _ sz dat \<Rightarrow> receive_file E p k sz dat w1) (kept n p db1)"
        using folder receive_file_keeps [OF w1 c1] by (cases g) simp_all
      then show "holds (case g of
          Got_Folder _ hs \<Rightarrow> if dt AND File \<noteq> 0 then None
            else make_folder E k w1 \<bind> (\<lambda>(made, w2).
              if made < 0 then give_up p k PTP_RC_VITA_Failed_Operate_Object w2
              else get_children fuel E k hs w2 \<bind> (\<lambda>(code, w3).
                if code \<noteq> PTP_RC_OK then give_up p k code w3 else Some (PTP_RC_OK, unlockDatabase w3)))
        | Got_File _ sz dat \<Rightarrow> receive_file E p k sz dat w1) (kept n p db)"
        by (rule holds_kept_trans [OF k1])
    qed
  qed
next
  case (4 fuel E k h hs w)
  show ?case unfolding get_children.simps "4.prems"(2,3) Option.bind.bind_lunit
  proof (rule holds_bind_via, rule "4.IH"(1) [OF "4.prems"(2,3,1,2)], rule_tac [2] holds_prod, rule_tac [2] holds_if)
    have ok: "db_ok db" using "4.prems"(1,2) by (rule world_ok_db)
    show v: "valid_ref db r" using "4.prems"(3) by (simp add: ohfiToObject_iff [OF ok])
    fix code w' y
    assume g: "vitaGetAllObjects fuel E r h w = Some y" "y = (code, w')" and "kept n r db y"
    then obtain db' where w': "world_ok n w'" "w_db w' = Some db'" and k: "keeps_to r db db'" by auto
    show "holds (Some (code, w')) (kept n r db)" using w' k by (auto intro!: holds_Some)
    assume code: "\<not> code \<noteq> PTP_RC_OK"
    note d = keeps_toD(1,2) [OF k v]
    have at: "ohfiToObject db' k = Some r" "o_ohfi (deref db' r) = k"
      using ohfiToObject_own [OF world_ok_db [OF w'] d(1)] d(2) "4.prems"(4) by simp_all
    show "holds (get_children fuel E k hs w') (kept n r db)"
      by (rule holds_kept_trans [OF k "4.IH"(2) [OF "4.prems"(2,3) g(1) g(2) [symmetric] code w' at]])
  qed
qed (auto simp: holds_None holds_Some)

lemma keeps_GetTreatObject [keeps_rules]: "keeps (vitaEventGetTreatObject E ev eventId)"
proof (rule keepsI)
  fix w :: "'a world"
  assume w: "world_ok 0 w"
  have all: "world_ok 0 w1" if "vitaGetAllObjects fuel E p h (w\<lparr>w_sess := s\<rparr>) = Some (code, w1)"
    "w_db w = Some db" "ohfiToObject db k = Some p" for fuel p h s code w1 db k
  proof -
    have "world_ok 0 (w\<lparr>w_sess := s\<rparr>)" "w_db (w\<lparr>w_sess := s\<rparr>) = Some db" using w that by simp_all
    moreover have "valid_ref db p" using that world_ok_db [OF w] by (simp add: ohfiToObject_iff)
    ultimately show ?thesis using holdsD [OF vitaGetAllObjects_keeps(1) that(1)] by fastforce
  qed
  show "holds (vitaEventGetTreatObject E ev eventId w) (world_ok 0)"
    unfolding vitaEventGetTreatObject_def by (intro holds_intros) (use w in \<open>auto dest: all\<close>)
qed

section \<open>All handlers\<close>

lemma table_keeps: "f \<in> set g_event_processes \<Longrightarrow> keeps (f E ev eventId)"
  unfolding g_event_processes_def by (auto simp: keeps_rules)

lemma dispatch_keeps:
  assumes "world_ok 0 w"
  shows "holds (dispatch E ev w) (world_ok 0)"
proof (unfold dispatch_def Let_def, rule holds_if)
  assume "nat (event_slot (ev_Code ev)) < length (g_event_processes :: 'a handler list)"
  from table_keeps [OF nth_mem [OF this]] assms
  show "holds ((g_event_processes ! nat (event_slot (ev_Code ev))) E ev (ev_Param1 ev) w) (world_ok 0)"
    unfolding keeps_def by blast
qed (rule holds_None)

end
