(* ===== verification/Database_Spec.thy ===== *)
theory Database_Spec
  imports Opencma_Inv
begin

text \<open>
  What the content database promises, without its lists: a catalog is the next id together
  with a partial map from ids to objects. Adding binds the next id, removing unbinds the
  ids of an object and everything below it. The operations of \<open>src/src/database.c\<close>, called
  the way the event handlers call them, implement these, for any sequence of them.
\<close>

section \<open>Refinement of an operation\<close>

fun run :: "('op \<Rightarrow> 's \<Rightarrow> 's option) \<Rightarrow> 'op list \<Rightarrow> 's \<Rightarrow> 's option" where
  "run step [] s = Some s"
| "run step (p # ps) s = do { s' \<leftarrow> step p s; run step ps s' }"

locale refines =
  fixes ok :: "'c \<Rightarrow> bool"
    and abstraction :: "'c \<Rightarrow> 'a"
    and cstep :: "'op \<Rightarrow> 'c \<Rightarrow> 'c option"
    and astep :: "'op \<Rightarrow> 'a \<Rightarrow> 'a option"
  assumes step: "ok c \<Longrightarrow> astep p (abstraction c) = Some a \<Longrightarrow>
    \<exists>c'. cstep p c = Some c' \<and> ok c' \<and> abstraction c' = a"
begin

lemma run_refines:
  "ok c \<Longrightarrow> run astep ps (abstraction c) = Some a \<Longrightarrow>
     \<exists>c'. run cstep ps c = Some c' \<and> ok c' \<and> abstraction c' = a"
proof (induction ps arbitrary: c)
  case (Cons p ps)
  from Cons.prems(2) obtain a1 where a1: "astep p (abstraction c) = Some a1" "run astep ps a1 = Some a"
    by (auto simp: bind_eq_Some_conv)
  from step [OF Cons.prems(1) a1(1)] obtain c1 where c1: "cstep p c = Some c1" "ok c1" "abstraction c1 = a1" by blast
  with Cons.IH [of c1] a1(2) show ?case by simp
qed simp

end

section \<open>The catalog\<close>

type_synonym catalog = "int \<times> (int \<Rightarrow> cma_object option)"

datatype catalog_op = Add int string u64 u32 | Remove int

definition catalog_children :: "(int \<Rightarrow> cma_object option) \<Rightarrow> (int \<times> int) set" where
  "catalog_children m = {(o_parent x, o_ohfi x) | x k. m k = Some x}"

definition catalog_below :: "(int \<Rightarrow> cma_object option) \<Rightarrow> int \<Rightarrow> int set" where
  "catalog_below m k = (catalog_children m)\<^sup>* `` {k}"

fun catalog_step :: "catalog_op \<Rightarrow> catalog \<Rightarrow> catalog option" where
  "catalog_step (Add root name n ty) (fresh, m) =
     map_option (\<lambda>x. (fresh + 1, m(fresh \<mapsto> new_object fresh x name n ty))) (m root)"
| "catalog_step (Remove k) (fresh, m) = do {
     x \<leftarrow> m k;
     _ \<leftarrow> m (o_parent x);
     Some (fresh, \<lambda>k'. case m k' of None \<Rightarrow> None
                     | Some y \<Rightarrow> if o_ohfi y \<in> catalog_below m k then None else Some y) }"

text \<open>The same on the database, with lookups by id as in the handlers.\<close>

fun db_step :: "catalog_op \<Rightarrow> cma_db \<Rightarrow> cma_db option" where
  "db_step (Add root name n ty) db =
     map_option (\<lambda>r. fst (addToDatabase db r name n ty)) (ohfiToObject db root)"
| "db_step (Remove k) db = do {
     r \<leftarrow> ohfiToObject db k;
     parent \<leftarrow> ohfiToObject db (o_parent (deref db r));
     (case removeFromDatabase db k parent of Inl _ \<Rightarrow> None | Inr db' \<Rightarrow> Some db') }"

definition db_map :: "cma_db \<Rightarrow> int \<Rightarrow> cma_object option" where
  "db_map db k = map_option (deref db) (ohfiToObject db k)"

definition catalog_of :: "cma_db \<Rightarrow> catalog" where
  "catalog_of db = (ohfi_count db, db_map db)"

lemma db_map_iff:
  assumes "db_ok db"
  shows "db_map db k = Some x \<longleftrightarrow> (\<exists>i < 10. x \<in> set (db_chains db ! i) \<and> owns x k)"
proof
  assume "db_map db k = Some x"
  then obtain r where "ohfiToObject db k = Some r" "x = deref db r" by (auto simp: db_map_def)
  with assms show "\<exists>i < 10. x \<in> set (db_chains db ! i) \<and> owns x k"
    by (intro exI [of _ "fst r"]) (auto simp: ohfiToObject_iff valid_ref_def deref_def db_ok_def)
next
  assume "\<exists>i < 10. x \<in> set (db_chains db ! i) \<and> owns x k"
  then obtain i j where "i < 10" "j < length (db_chains db ! i)" "x = db_chains db ! i ! j" "owns x k"
    by (auto simp: in_set_conv_nth)
  then have "ohfiToObject db k = Some (i, j)"
    using assms by (intro ohfiToObject_Some) (auto simp: valid_ref_def deref_def db_ok_def)
  with \<open>x = _\<close> show "db_map db k = Some x" by (simp add: db_map_def deref_def)
qed

lemma children_iff:
  assumes "db_ok db"
  shows "(a, b) \<in> catalog_children (db_map db) \<longleftrightarrow> (\<exists>i < 10. (a, b) \<in> child_rel (db_chains db ! i))"
proof -
  have "(\<exists>k. db_map db k = Some x) \<longleftrightarrow> (\<exists>i < 10. x \<in> set (db_chains db ! i))" for x
    unfolding db_map_iff [OF assms] using owns_own_id by blast
  then show ?thesis unfolding catalog_children_def child_rel_def by auto
qed

text \<open>Below an object there are objects of its list only.\<close>

lemma catalog_below_descendants:
  assumes "db_ok db" and "i < 10" and "k \<in> ids (db_chains db ! i)"
  shows "catalog_below (db_map db) k = descendants (db_chains db ! i) k"
proof
  let ?c = "db_chains db ! i"
  have len: "i < length (db_chains db)" using assms(1,2) by (simp add: db_ok_def)
  show "descendants ?c k \<subseteq> catalog_below (db_map db) k"
    unfolding descendants_def catalog_below_def
    by (intro Image_mono rtrancl_mono subsetI order_refl) (use assms(2) in \<open>auto simp: children_iff [OF assms(1)]\<close>)
  show "catalog_below (db_map db) k \<subseteq> descendants ?c k"
  proof
    fix b
    assume "b \<in> catalog_below (db_map db) k"
    then have "(k, b) \<in> (catalog_children (db_map db))\<^sup>*" by (simp add: catalog_below_def)
    then show "b \<in> descendants ?c k"
    proof (induction rule: rtrancl_induct)
      case (step a b)
      from step(2) obtain l where l: "l < 10" "(a, b) \<in> child_rel (db_chains db ! l)"
        by (auto simp: children_iff [OF assms(1)])
      then obtain x where x: "x \<in> set (db_chains db ! l)" "a = o_parent x" "b = o_ohfi x"
        by (auto simp: child_rel_def)
      have a: "a \<in> ids ?c" using step.IH descendants_subset assms(3) by blast
      then have a0: "a \<noteq> 0" using chain_inv_nonzero [OF db_okD(1) [OF assms(1) len] assms(2)] by auto
      have "l < length (db_chains db)" using l(1) assms(1) by (simp add: db_ok_def)
      note inv = db_okD(1) [OF assms(1) this]
      have "a \<in> ids (db_chains db ! l)"
        using inv x(1,2) a0 by (cases "db_chains db ! l") (auto simp: chain_inv_def)
      then have "l = i"
        using a l(1) assms(1,2) ids_subset_chain_ids [of ?c] ids_subset_chain_ids [of "db_chains db ! l"]
        unfolding db_ok_def by blast
      with x step.IH show ?case by (auto intro: descendants_step)
    qed simp
  qed
qed

section \<open>The operations refine the catalog\<close>

lemma db_map_add:
  assumes "db_ok db" and "valid_ref db r" and "addToDatabase db r name n ty = (db', r')"
  shows "db_map db' = (db_map db)(ohfi_count db \<mapsto> new_object (ohfi_count db) (deref db r) name n ty)"
proof
  fix k
  note ad = addToDatabase_ok [OF assms] and sim = addToDatabase_simps [OF assms(3)]
  let ?x = "new_object (ohfi_count db) (deref db r) name n ty"
  have new: "ohfiToObject db' (ohfi_count db) = Some r'"
    using ohfiToObject_Some [OF ad(1,2)] ad(3) by (simp add: owns_iff)
  show "db_map db' k = ((db_map db)(ohfi_count db \<mapsto> ?x)) k"
  proof (cases "k = ohfi_count db")
    case True
    with new ad(3) show ?thesis by (simp add: db_map_def)
  next
    case False
    have "ohfiToObject db' k = ohfiToObject db k"
    proof (cases "ohfiToObject db k")
      case (Some r0)
      then have "valid_ref db r0 \<and> owns (deref db r0) k" by (simp add: ohfiToObject_iff [OF assms(1)])
      then have "ohfiToObject db' k = Some r0"
        using ad(1) ad(4) [of r0] by (intro ohfiToObject_Some) auto
      with Some show ?thesis by simp
    next
      case None
      have "ohfiToObject db' k = None"
        unfolding ohfiToObject_None_iff [OF ad(1)]
      proof
        fix c
        assume "c \<in> set (db_chains db')"
        then consider "c \<in> set (db_chains db)" | "c = db_chains db ! fst r @ [?x]"
          by (auto simp: sim dest!: set_update_subset_insert [THEN subsetD])
        then show "k \<notin> set (chain_ids c)"
          using None assms(2) False
          by cases (auto simp: ohfiToObject_None_iff [OF assms(1)] valid_ref_def)
      qed
      with None show ?thesis by simp
    qed
    moreover have "deref db' r0 = deref db r0" if "ohfiToObject db k = Some r0" for r0
      using that ad(4) [of r0] by (simp add: ohfiToObject_iff [OF assms(1)])
    ultimately show ?thesis using False by (cases "ohfiToObject db k") (simp_all add: db_map_def)
  qed
qed

lemma db_map_remove:
  assumes "db_ok db" and "ohfiToObject db k = Some r" and "ohfiToObject db (o_parent (deref db r)) = Some p"
  shows "\<exists>db'. removeFromDatabase db k p = Inr db' \<and> db_ok db' \<and> ohfi_count db' = ohfi_count db \<and>
    db_map db' = (\<lambda>k'. case db_map db k' of None \<Rightarrow> None
      | Some y \<Rightarrow> if o_ohfi y \<in> catalog_below (db_map db) k then None else Some y)"
proof -
  have v: "valid_ref db r" "owns (deref db r) k" "valid_ref db p" "owns (deref db p) (o_parent (deref db r))"
    using assms(2,3) by (simp_all add: ohfiToObject_iff [OF assms(1)])
  from parent_and_id [OF assms(1) v(1,3,2,4)] have e: "o_ohfi (deref db r) = k"
    "o_parent (deref db r) = o_ohfi (deref db p)" by simp_all
  note behind = child_behind_parent [OF assms(1) v(3,1) e(2)]
  let ?c = "db_chains db ! fst p" and ?cs = "db_chains db"
  have i: "fst p < 10" "fst p < length ?cs" using v(3) assms(1) by (simp_all add: valid_ref_def db_ok_def)
  have kc: "k \<in> ids ?c" using behind(1) e(1) v(1) by (auto simp: valid_ref_def deref_def)
  have below: "catalog_below (db_map db) k = descendants ?c k"
    by (rule catalog_below_descendants [OF assms(1) i(1) kc])
  from subtree_removed [OF assms(1) i(1), of k "snd p"] behind(3) e(1) obtain db' where
    r: "removeFromDatabase db k p = Inr db'" "db_ok db'"
      "db_chains db' = ?cs[fst p := filter (\<lambda>x. o_ohfi x \<notin> descendants ?c k) ?c]"
    by auto
  have cnt: "ohfi_count db' = ohfi_count db"
    using r(1) by (auto simp: removeFromDatabase_def Let_def split: sum.splits)
  have other: "o_ohfi x \<notin> descendants ?c k" if "l < 10" "l \<noteq> fst p" "x \<in> set (?cs ! l)" for l x
  proof
    assume "o_ohfi x \<in> descendants ?c k"
    then have "o_ohfi x \<in> set (chain_ids ?c)" using descendants_subset kc ids_subset_chain_ids by blast
    moreover have "o_ohfi x \<in> set (chain_ids (?cs ! l))" using that(3) ids_subset_chain_ids by blast
    ultimately show False using that assms(1) i(1) unfolding db_ok_def by blast
  qed
  have mem: "x \<in> set (db_chains db' ! l) \<longleftrightarrow> x \<in> set (?cs ! l) \<and> o_ohfi x \<notin> descendants ?c k" if "l < 10" for l x
    using other [OF that, of x] i that by (cases "l = fst p") (auto simp: r(3))
  have iff: "db_map db' k' = Some x \<longleftrightarrow> db_map db k' = Some x \<and> o_ohfi x \<notin> descendants ?c k" for k' x
    unfolding db_map_iff [OF r(2)] db_map_iff [OF assms(1)] using mem by blast
  have "db_map db' = (\<lambda>k'. case db_map db k' of None \<Rightarrow> None
      | Some y \<Rightarrow> if o_ohfi y \<in> catalog_below (db_map db) k then None else Some y)"
  proof
    fix k'
    show "db_map db' k' = (case db_map db k' of None \<Rightarrow> None
        | Some y \<Rightarrow> if o_ohfi y \<in> catalog_below (db_map db) k then None else Some y)"
    proof (cases "db_map db k'")
      case None
      then have "db_map db' k' = None" using iff [of k'] by (metis option.exhaust option.distinct(1))
      with None show ?thesis by simp
    next
      case (Some y)
      show ?thesis
      proof (cases "o_ohfi y \<in> descendants ?c k")
        case True
        then have "db_map db' k' = None" using iff [of k'] Some by (metis option.exhaust option.inject)
        with Some True show ?thesis by (simp add: below)
      qed (use iff [of k' y] Some in \<open>simp add: below\<close>)
    qed
  qed
  with r cnt show ?thesis by blast
qed

interpretation db: refines db_ok catalog_of db_step catalog_step
proof
  fix db p and m :: catalog
  assume ok: "db_ok db" and s: "catalog_step p (catalog_of db) = Some m"
  show "\<exists>db'. db_step p db = Some db' \<and> db_ok db' \<and> catalog_of db' = m"
  proof (cases p)
    case (Add root name n ty)
    with s obtain r where r: "ohfiToObject db root = Some r"
      "m = (ohfi_count db + 1, (db_map db)(ohfi_count db \<mapsto> new_object (ohfi_count db) (deref db r) name n ty))"
      by (auto simp: catalog_of_def db_map_def)
    obtain db' r' where a: "addToDatabase db r name n ty = (db', r')"
      by (cases "addToDatabase db r name n ty")
    have v: "valid_ref db r" using r(1) by (simp add: ohfiToObject_iff [OF ok])
    from db_map_add [OF ok v a] addToDatabase_ok [OF ok v a] Add r a show ?thesis
      by (simp add: catalog_of_def)
  next
    case (Remove k)
    with s obtain r q where r: "ohfiToObject db k = Some r" "ohfiToObject db (o_parent (deref db r)) = Some q"
      "m = (ohfi_count db, \<lambda>k'. case db_map db k' of None \<Rightarrow> None
         | Some y \<Rightarrow> if o_ohfi y \<in> catalog_below (db_map db) k then None else Some y)"
      by (auto simp: catalog_of_def db_map_def bind_eq_Some_conv)
    from db_map_remove [OF ok r(1,2)] Remove r show ?thesis by (auto simp: catalog_of_def)
  qed
qed

text \<open>
  Claim C5: the database implements a catalog. Any sequence of additions and removals that is
  defined on the map of ids to objects runs on the lists of the database without an error,
  keeps its invariant, and ends with the lists that stand for the map the sequence ends with.
\<close>

theorem database_refines_catalog:
  assumes "db_ok db" and "run catalog_step ps (catalog_of db) = Some m"
  shows "\<exists>db'. run db_step ps db = Some db' \<and> db_ok db' \<and> catalog_of db' = m"
  by (rule db.run_refines [OF assms])

theorem database_refines_catalog_witness:
  "\<exists>db'. run db_step [Add VITA_OHFI_PACKAGE ''a.pkg'' 7 File, Remove 1005] (initDatabase sample_paths ''id'') = Some db' \<and>
     db_map db' 1005 = None"
proof -
  let ?db = "initDatabase sample_paths ''id''" and ?ps = "[Add VITA_OHFI_PACKAGE ''a.pkg'' 7 File, Remove 1005]"
  have root: "ohfiToObject ?db VITA_OHFI_PACKAGE \<noteq> None" by code_simp
  have id: "ohfi_count ?db = 1005" by code_simp
  have p: "o_ohfi (deref ?db (the (ohfiToObject ?db VITA_OHFI_PACKAGE))) = VITA_OHFI_PACKAGE" by code_simp
  have ne: "VITA_OHFI_PACKAGE \<noteq> 1005" by (simp add: ohfi_defs)
  from root obtain r where r: "ohfiToObject ?db VITA_OHFI_PACKAGE = Some r" by auto
  let ?x = "new_object 1005 (deref ?db r) ''a.pkg'' 7 File"
  have "o_parent ?x = VITA_OHFI_PACKAGE" using p r by simp
  then have "\<exists>m. run catalog_step ?ps (catalog_of ?db) = Some m \<and> snd m 1005 = None"
    using r ne id by (simp add: catalog_of_def db_map_def catalog_below_def)
  then obtain m where m: "run catalog_step ?ps (catalog_of ?db) = Some m" "snd m 1005 = None" by blast
  from database_refines_catalog [OF initDatabase_ok m(1)] m(2) show ?thesis by (auto simp: catalog_of_def)
qed

end
