(* ===== verification/Database_Free.thy ===== *)
theory Database_Free
  imports Database_Spec
begin

text \<open>
  What the objects of the database own on the heap, and what \<open>freeCMAObject\<close> and
  \<open>destroyDatabase\<close> of \<open>src/src/database.c\<close> give back. A block is named by the pointer that
  holds it; the heap itself is not a state. The masters are not blocks: they are fields of
  the structure of the database.
\<close>

section \<open>Blocks\<close>

datatype cma_block = B_object | B_name | B_path | B_full_path | B_filters | B_filter_name nat
  | B_filter_path nat | B_title | B_dirName | B_savedataTitle | B_detail | B_fileName | B_tracks
  | B_album | B_artist | B_explanation | B_copyright

text \<open>What \<open>addToDatabase\<close> allocates for the union.\<close>

definition data_blocks :: "media_data \<Rightarrow> cma_block list" where
  "data_blocks d = (case d of
       SaveDataInfo _ _ _ _ _ _ \<Rightarrow> [B_title, B_detail, B_dirName, B_savedataTitle]
     | PhotoInfo _ _ _ _ _ _ \<Rightarrow> [B_title, B_fileName, B_tracks]
     | MusicInfo _ _ _ _ _ _ _ \<Rightarrow> [B_title, B_fileName, B_album, B_artist, B_tracks]
     | VideoInfo _ _ _ _ _ _ _ _ _ \<Rightarrow> [B_title, B_explanation, B_fileName, B_copyright, B_tracks]
     | _ \<Rightarrow> [])"

definition pointer_block :: "'a option \<Rightarrow> cma_block \<Rightarrow> cma_block list" where
  "pointer_block v b = (case v of None \<Rightarrow> [] | Some _ \<Rightarrow> [b])"

text \<open>The array of the filters, with the name and the path that \<open>createFilter\<close> copies for each.\<close>

definition filter_blocks :: "metadata list \<Rightarrow> cma_block list" where
  "filter_blocks fs = (if fs = [] then [] else [B_filters]) @
     concat (map (\<lambda>i. [B_filter_name i, B_filter_path i]) [0..<length fs])"

definition object_blocks :: "bool \<Rightarrow> cma_object \<Rightarrow> cma_block list" where
  "object_blocks is_master obj =
     pointer_block (md_name (meta obj)) B_name @ pointer_block (md_path (meta obj)) B_path @
     data_blocks (md_data (meta obj)) @ [B_full_path] @ filter_blocks (filters obj) @
     (if is_master then [] else [B_object])"

section \<open>Releasing\<close>

text \<open>
  The branch is chosen by the data type; \<open>None\<close> when the union holds another kind, whose
  fields would be taken for the pointers. In a zeroed union the pointers are null.
\<close>

definition free_data :: "u32 \<Rightarrow> media_data \<Rightarrow> cma_block list option" where
  "free_data dt d =
     (if MASK_SET dt (SaveData OR Folder) then
        (case d of SaveDataInfo _ _ _ _ _ _ \<Rightarrow> Some [B_detail, B_dirName, B_savedataTitle]
         | NoData \<Rightarrow> Some [] | _ \<Rightarrow> None)
      else if MASK_SET dt (Photo OR File) then
        (case d of PhotoInfo _ _ _ _ _ _ \<Rightarrow> Some [B_tracks, B_title, B_fileName]
         | NoData \<Rightarrow> Some [] | _ \<Rightarrow> None)
      else if MASK_SET dt (Music OR File) then
        (case d of MusicInfo _ _ _ _ _ _ _ \<Rightarrow> Some [B_tracks, B_title, B_fileName, B_album, B_artist]
         | NoData \<Rightarrow> Some [] | _ \<Rightarrow> None)
      else if MASK_SET dt (Video OR File) then
        (case d of VideoInfo _ _ _ _ _ _ _ _ _ \<Rightarrow>
             Some [B_title, B_explanation, B_fileName, B_copyright, B_tracks]
         | NoData \<Rightarrow> Some [] | _ \<Rightarrow> None)
      else Some [])"

text \<open>
  The array of the filters goes, what they point to stays. An object with an id from
  \<open>OHFI_OFFSET\<close> on is a block of its own.
\<close>

definition freeCMAObject :: "cma_object \<Rightarrow> cma_block list option" where
  "freeCMAObject obj = do {
     bs \<leftarrow> free_data (dataType (meta obj)) (md_data (meta obj));
     Some (pointer_block (md_name (meta obj)) B_name @ pointer_block (md_path (meta obj)) B_path @ bs @
       [B_full_path] @ (if filters obj = [] then [] else [B_filters]) @
       (if OHFI_OFFSET \<le> o_ohfi obj then [B_object] else [])) }"

text \<open>The loop of \<open>destroyDatabase\<close> over the lists, after the test for a database and the lock.\<close>

definition freeObjects :: "cma_db \<Rightarrow> cma_block list list list option" where
  "freeObjects db = mapM (mapM freeCMAObject) (db_chains db)"

section \<open>What is lost\<close>

definition lost_blocks :: "cma_object \<Rightarrow> cma_block list" where
  "lost_blocks obj =
     (case md_data (meta obj) of SaveDataInfo _ _ _ _ _ _ \<Rightarrow> [B_title] | _ \<Rightarrow> []) @
     concat (map (\<lambda>i. [B_filter_name i, B_filter_path i]) [0..<length (filters obj)])"

text \<open>An object whose union holds what its type says, or nothing.\<close>

definition data_matches :: "cma_object \<Rightarrow> bool" where
  "data_matches obj \<longleftrightarrow> md_data (meta obj) = NoData \<or>
     (\<exists>name root. md_data (meta obj) = object_data (dataType (meta obj)) name root)"

lemma object_blocks_distinct: "distinct (object_blocks m obj)"
proof -
  have d: "distinct (concat (map (\<lambda>i. [B_filter_name i, B_filter_path i]) is))" if "distinct is" for "is"
    using that by (induction "is") auto
  have "distinct (filter_blocks fs)" "set (filter_blocks fs) \<subseteq> {B_filters} \<union> range B_filter_name \<union> range B_filter_path" for fs
    using d [of "[0..<length fs]"] by (auto simp: filter_blocks_def)
  then show ?thesis
    by (fastforce simp: object_blocks_def pointer_block_def data_blocks_def split: option.splits media_data.splits)
qed

text \<open>The data of an object are released but for the title of a folder of saved data.\<close>

lemma free_data_object_data:
  "\<exists>bs. free_data dt (object_data dt name root) = Some bs \<and>
     mset bs + mset (case object_data dt name root of SaveDataInfo _ _ _ _ _ _ \<Rightarrow> [B_title] | _ \<Rightarrow> []) =
     mset (data_blocks (object_data dt name root))"
  by (simp add: free_data_def object_data_def data_blocks_def)

lemma free_data_NoData [simp]: "free_data dt NoData = Some []" "data_blocks NoData = []"
  by (simp_all add: free_data_def data_blocks_def)

lemma free_data_matches:
  assumes "data_matches obj"
  shows "\<exists>bs. free_data (dataType (meta obj)) (md_data (meta obj)) = Some bs \<and>
     mset bs + mset (case md_data (meta obj) of SaveDataInfo _ _ _ _ _ _ \<Rightarrow> [B_title] | _ \<Rightarrow> []) =
     mset (data_blocks (md_data (meta obj)))"
  using assms free_data_object_data unfolding data_matches_def by fastforce

lemma freeCMAObject_releases:
  assumes "data_matches obj" and "OHFI_OFFSET \<le> o_ohfi obj \<longleftrightarrow> \<not> is_master"
  shows "\<exists>bs. freeCMAObject obj = Some bs \<and>
    mset bs + mset (lost_blocks obj) = mset (object_blocks is_master obj)"
proof -
  from free_data_matches [OF assms(1)] obtain bs where
    bs: "free_data (dataType (meta obj)) (md_data (meta obj)) = Some bs"
    "mset bs + mset (case md_data (meta obj) of SaveDataInfo _ _ _ _ _ _ \<Rightarrow> [B_title] | _ \<Rightarrow> []) =
     mset (data_blocks (md_data (meta obj)))" by blast
  show ?thesis
    using assms(2) by (simp add: freeCMAObject_def bs(1) object_blocks_def lost_blocks_def filter_blocks_def
        bs(2) [symmetric] ac_simps)
qed

section \<open>The objects of the database\<close>

definition all_match :: "cma_db \<Rightarrow> bool" where
  "all_match db \<longleftrightarrow> (\<forall>c \<in> set (db_chains db). \<forall>x \<in> set c. data_matches x)"

lemma new_object_matches: "data_matches (new_object fresh root name sz ty)"
  unfolding data_matches_def by (auto simp: new_object_def Let_def)

lemma all_match_nth: "all_match db \<Longrightarrow> i < length (db_chains db) \<Longrightarrow> x \<in> set (db_chains db ! i) \<Longrightarrow> data_matches x"
  unfolding all_match_def using nth_mem by blast

text \<open>A place outside of the lists is not updated, so the reference need not be valid.\<close>

lemma all_match_update_chain:
  assumes "all_match db"
    and "\<And>x. i < length (db_chains db) \<Longrightarrow> x \<in> set (f (db_chains db ! i)) \<Longrightarrow> data_matches x"
  shows "all_match (update_chain i f db)"
proof (cases "i < length (db_chains db)")
  case True
  then show ?thesis
    using assms unfolding all_match_def
    by (auto simp: update_chain_def dest!: set_update_subset_insert [THEN subsetD])
next
  case False
  then show ?thesis using assms(1) by (simp add: update_chain_def list_update_beyond all_match_def)
qed

lemma all_match_count [simp]: "all_match (db\<lparr>ohfi_count := n\<rparr>) = all_match db"
  by (simp add: all_match_def)

lemma all_match_add: "all_match db \<Longrightarrow> all_match (fst (addToDatabase db r name sz ty))"
  by (auto simp: addToDatabase_def Let_def new_object_matches intro!: all_match_update_chain dest: all_match_nth)

lemma all_match_initDatabase: "all_match (initDatabase paths uuid)"
  by (simp add: all_match_def initDatabase_def createFilter_def Let_def master_def metadata_zero_def data_matches_def)

lemma add_size_matches: "data_matches x \<Longrightarrow> data_matches (add_size n x)"
  by (simp add: data_matches_def add_size_def)

lemma all_match_update_obj:
  assumes "all_match db" and "\<And>x. data_matches x \<Longrightarrow> data_matches (f x)"
  shows "all_match (update_obj r f db)"
  unfolding update_obj_def
proof (rule all_match_update_chain [OF assms(1)])
  let ?c = "db_chains db ! fst r"
  fix x
  assume i: "fst r < length (db_chains db)" and x: "x \<in> set (?c[snd r := f (?c ! snd r)])"
  show "data_matches x"
  proof (cases "snd r < length ?c")
    case True
    then have "data_matches (?c ! snd r)" using all_match_nth [OF assms(1) i] nth_mem by blast
    then show ?thesis
      using x assms(2) all_match_nth [OF assms(1) i] by (blast dest!: set_update_subset_insert [THEN subsetD])
  next
    case False
    then show ?thesis using x all_match_nth [OF assms(1) i] by (simp add: list_update_beyond)
  qed
qed

lemma createDatabase_matches: "createDatabase fuel dir st paths uuid = Some db \<Longrightarrow> all_match db"
  by (rule createDatabase_inv [of all_match])
    (auto simp: all_match_initDatabase all_match_add intro: all_match_update_obj add_size_matches)

text \<open>Removing leaves objects of the list, and renaming leaves their data.\<close>

lemma rm_loop_subset: "rm_loop fuel k os i prev toFree = Inr rest \<Longrightarrow> set rest \<subseteq> set os"
proof (induction fuel k os i prev toFree arbitrary: rest rule: rm_loop.induct)
  case (2 fuel k os i prev toFree)
  then show ?case
    by (fastforce simp: Let_def split: if_splits option.splits sum.splits
        dest: in_set_takeD in_set_dropD)
qed simp

lemma removeFromDatabase_matches:
  assumes "all_match db" and "removeFromDatabase db k start = Inr db'"
  shows "all_match db'"
proof -
  let ?c = "db_chains db ! fst start"
  from assms(2) obtain rest where r: "rm_loop (rm_fuel (drop (snd start) ?c)) k (drop (snd start) ?c) 0 None None = Inr rest"
    and db': "db' = update_chain (fst start) (\<lambda>_. take (snd start) ?c @ rest) db"
    by (auto simp: removeFromDatabase_def Let_def split: sum.splits)
  have "set (take (snd start) ?c @ rest) \<subseteq> set ?c"
    using rm_loop_subset [OF r] set_take_subset [of "snd start" ?c] set_drop_subset [of "snd start" ?c] by auto
  then show ?thesis
    unfolding db' by (intro all_match_update_chain [OF assms(1)]) (use all_match_nth [OF assms(1)] in blast)
qed

lemma db_step_RemoveE:
  assumes "db_step (Remove k) db = Some db'"
  obtains r q where "ohfiToObject db k = Some r" and "ohfiToObject db (o_parent (deref db r)) = Some q"
    and "removeFromDatabase db k q = Inr db'"
proof -
  from assms obtain r q where "ohfiToObject db k = Some r" "ohfiToObject db (o_parent (deref db r)) = Some q"
    "(case removeFromDatabase db k q of Inl _ \<Rightarrow> None | Inr db' \<Rightarrow> Some db') = Some db'"
    by (auto simp: bind_eq_Some_conv)
  then show ?thesis by (cases "removeFromDatabase db k q") (auto intro: that)
qed

lemma db_step_matches:
  assumes "all_match db" and "db_step p db = Some db'"
  shows "all_match db'"
proof (cases p)
  case (Add root name sz ty)
  then show ?thesis using assms by (auto simp: all_match_add)
next
  case (Remove k)
  with assms(2) show ?thesis
    by (auto elim: db_step_RemoveE intro: removeFromDatabase_matches [OF assms(1)] simp del: db_step.simps)
qed

lemma rename_one_matches: "rename_one name newname x = Some y \<Longrightarrow> data_matches x \<Longrightarrow> data_matches y"
  by (fastforce simp: rename_one_def bind_eq_Some_conv data_matches_def Let_def)

lemma rename_loop_all:
  assumes one: "\<And>name newname x y. rename_one name newname x = Some y \<Longrightarrow> Q x \<Longrightarrow> Q y"
  shows "rename_loop fuel name newname os i = Some os' \<Longrightarrow> i < length os \<Longrightarrow> \<forall>x \<in> set os. Q x \<Longrightarrow>
     length os' = length os \<and> (\<forall>x \<in> set os'. Q x)"
  "rename_children fuel k origRel newRel os j n = Some os' \<Longrightarrow> j + n \<le> length os \<Longrightarrow>
     \<forall>x \<in> set os. Q x \<Longrightarrow> length os' = length os \<and> (\<forall>x \<in> set os'. Q x)"
proof (induction fuel name newname os i and fuel k origRel newRel os j n arbitrary: os' and os'
    rule: rename_loop_rename_children.induct)
  case (2 fuel name newname os i)
  from 2(2) obtain origRel obj newRel where o: "md_path (meta (os ! i)) = Some origRel"
    "rename_one name newname (os ! i) = Some obj" "md_path (meta obj) = Some newRel"
    "rename_children fuel (o_ohfi obj) origRel newRel (os[i := obj]) i (length os - i) = Some os'"
    by (auto simp: bind_eq_Some_conv)
  have "Q obj" using one [OF o(2)] 2(3,4) by simp
  then have "\<forall>x \<in> set (os[i := obj]). Q x"
    using 2(4) by (blast dest!: set_update_subset_insert [THEN subsetD])
  with 2(1) [OF o(1-4)] 2(3) show ?case by simp
next
  case (4 fuel k origRel newRel os j n)
  show ?case
  proof (cases "o_parent (os ! j) = k")
    case True
    with 4(4) obtain nm os1 where n: "md_name (meta (os ! j)) = Some nm"
      "rename_loop fuel (Some (path_join origRel nm)) (path_join newRel nm) os j = Some os1"
      "rename_children fuel k origRel newRel os1 (Suc j) n = Some os'"
      by (auto simp: bind_eq_Some_conv)
    with 4(1) [OF True n(1,2)] 4(2) [OF True n(1,2,3)] 4(5,6) show ?thesis by simp
  next
    case False
    then show ?thesis using 4(3) [OF False] 4(4-6) by simp
  qed
qed simp_all

lemma rename_loop_matches:
  "rename_loop fuel name newname os i = Some os' \<Longrightarrow> i < length os \<Longrightarrow> \<forall>x \<in> set os. data_matches x \<Longrightarrow>
     length os' = length os \<and> (\<forall>x \<in> set os'. data_matches x)"
  using rename_loop_all(1) [of data_matches] rename_one_matches by blast

section \<open>The life of a database\<close>

text \<open>What the handlers do to the database: they add, remove and rename.\<close>

datatype db_change = Catalog_change catalog_op | Rename int "string option" string

fun change_db :: "db_change \<Rightarrow> cma_db \<Rightarrow> cma_db option" where
  "change_db (Catalog_change p) db = db_step p db"
| "change_db (Rename k name newname) db = do {
     r \<leftarrow> ohfiToObject db k;
     renameRootEntry db r name newname }"

lemma db_step_ok:
  assumes "db_ok db" and "db_step p db = Some db'"
  shows "db_ok db'"
proof (cases p)
  case (Add root name sz ty)
  with assms(2) obtain r where r: "ohfiToObject db root = Some r" "db' = fst (addToDatabase db r name sz ty)"
    by auto
  then show ?thesis
    using addToDatabase_ok(1) [OF assms(1)] ohfiToObject_iff [OF assms(1)] by (metis prod.collapse)
next
  case (Remove k)
  with assms(2) obtain r q where r: "ohfiToObject db k = Some r" "ohfiToObject db (o_parent (deref db r)) = Some q"
    "removeFromDatabase db k q = Inr db'" by (auto elim: db_step_RemoveE simp del: db_step.simps)
  with db_map_remove [OF assms(1) r(1,2)] show ?thesis by auto
qed

lemma change_db_keeps:
  assumes "db_ok db" and "all_match db" and "change_db c db = Some db'"
  shows "db_ok db' \<and> all_match db'"
proof (cases c)
  case (Catalog_change p)
  then show ?thesis using assms db_step_ok db_step_matches by simp
next
  case (Rename k name newname)
  with assms(3) obtain r os where r: "ohfiToObject db k = Some r" "renameRootEntry db r name newname = Some db'"
    "rename_loop (length (db_chains db ! fst r) + 1) name newname (db_chains db ! fst r) (snd r) = Some os"
    "db' = update_chain (fst r) (\<lambda>_. os) db"
    by (auto simp: bind_eq_Some_conv renameRootEntry_def)
  then have v: "valid_ref db r" by (simp add: ohfiToObject_iff [OF assms(1)])
  have "\<forall>x \<in> set (db_chains db ! fst r). data_matches x"
    using v all_match_nth [OF assms(2)] by (auto simp: valid_ref_def)
  with rename_loop_matches [OF r(3)] v have "\<forall>x \<in> set os. data_matches x" by (simp add: valid_ref_def)
  then show ?thesis
    using renameRootEntry_ok(1) [OF assms(1) v r(2)] by (simp add: r(4) all_match_update_chain [OF assms(2)])
qed

lemma run_changes_keep: "run change_db cs db = Some db' \<Longrightarrow> db_ok db \<Longrightarrow> all_match db \<Longrightarrow> db_ok db' \<and> all_match db'"
  by (induction cs arbitrary: db) (auto simp: bind_eq_Some_conv dest: change_db_keeps)

text \<open>Just the masters, which head the lists, have ids below \<open>OHFI_OFFSET\<close>.\<close>

lemma master_position:
  assumes "db_ok db" and "i < 10" and "j < length (db_chains db ! i)"
  shows "OHFI_OFFSET \<le> o_ohfi (db_chains db ! i ! j) \<longleftrightarrow> j \<noteq> 0"
proof -
  have inv: "chain_inv (master_ids ! i) (ohfi_count db) (db_chains db ! i)" using assms(1,2) by (simp add: db_ok_def)
  have "master_ids ! i \<in> set master_ids" using assms(2) by (intro nth_mem) (simp add: master_ids_def)
  then have "master_ids ! i < OHFI_OFFSET" by (auto simp: master_ids_def ohfi_defs)
  moreover have "OHFI_OFFSET \<le> o_ohfi (db_chains db ! i ! j)" if "j \<noteq> 0"
  proof -
    from that assms(3) have "db_chains db ! i ! j = tl (db_chains db ! i) ! (j - 1)" "j - 1 < length (tl (db_chains db ! i))"
      by (simp_all add: nth_tl)
    then have "db_chains db ! i ! j \<in> set (tl (db_chains db ! i))" by simp
    then show ?thesis using inv by (simp add: chain_inv_def)
  qed
  ultimately show ?thesis using inv by (cases "j = 0") (auto simp: chain_inv_def hd_conv_nth)
qed

text \<open>
  Claim C16: however the database was built and changed, destroying it hands \<open>free\<close> no pointer that
  is not a block, no master among them, and no block twice. What an object releases is what
  it owns, but for the title of a folder of saved data and the names and paths of the
  filters, which are lost.
\<close>

theorem database_released:
  assumes "createDatabase fuel dir st paths uuid = Some db0" and "run change_db cs db0 = Some db"
  shows "\<exists>rss. freeObjects db = Some rss \<and> length rss = 10 \<and>
    (\<forall>i < 10. \<forall>j < length (db_chains db ! i).
       mset (rss ! i ! j) + mset (lost_blocks (db_chains db ! i ! j)) =
       mset (object_blocks (j = 0) (db_chains db ! i ! j)))"
proof -
  have "db_ok db0"
    using add_all_masters_ok [OF initDatabase_ok _ assms(1) [unfolded createDatabase_def]] by simp
  with run_changes_keep [OF assms(2) _ createDatabase_matches [OF assms(1)]]
  have ok: "db_ok db" and m: "all_match db" by simp_all
  then have len: "length (db_chains db) = 10" by (simp add: db_ok_def)
  have rel: "\<exists>bs. freeCMAObject x = Some bs \<and> mset bs + mset (lost_blocks x) = mset (object_blocks (j = 0) x)"
    if "i < 10" "j < length (db_chains db ! i)" "x = db_chains db ! i ! j" for i j x
    using freeCMAObject_releases [of x "j = 0"] master_position [OF ok that(1,2)] that
      all_match_nth [OF m, of i x] len by simp
  let ?f = "\<lambda>x. the (freeCMAObject x)"
  have "mapM freeCMAObject c = Some (map ?f c)" if c: "c \<in> set (db_chains db)" for c
  proof (rule mapM_total)
    fix x
    assume "x \<in> set c"
    then obtain i j where "i < 10" "c = db_chains db ! i" "j < length c" "x = c ! j"
      using c len by (metis in_set_conv_nth)
    then show "freeCMAObject x = Some (?f x)" using rel [of i j x] by auto
  qed
  then have "freeObjects db = Some (map (map ?f) (db_chains db))" unfolding freeObjects_def by (rule mapM_total)
  moreover have "mset (?f (db_chains db ! i ! j)) + mset (lost_blocks (db_chains db ! i ! j)) =
      mset (object_blocks (j = 0) (db_chains db ! i ! j))" if "i < 10" "j < length (db_chains db ! i)" for i j
    using rel [OF that refl] by auto
  ultimately show ?thesis using len by simp
qed

definition save_folder :: cma_db where
  "save_folder = the (run change_db [Catalog_change (Add VITA_OHFI_PSPSAVE ''s'' 0 Folder), Rename 1008 None ''t'']
     (the (createDatabase 3 sample_dir sample_st sample_paths ''id'')))"

theorem database_released_witness:
  "\<exists>rss. freeObjects save_folder = Some rss \<and>
     mset (rss ! 6 ! 1) + {#B_title#} = mset (object_blocks False (db_chains save_folder ! 6 ! 1)) \<and>
     mset (rss ! 6 ! 0) = {#B_full_path#}"
proof -
  let ?new = "createDatabase 3 sample_dir sample_st sample_paths ''id''"
  let ?cs = "[Catalog_change (Add VITA_OHFI_PSPSAVE ''s'' 0 Folder), Rename 1008 None ''t'']"
  have "?new \<noteq> None" by code_simp
  then have new: "?new = Some (the ?new)" by simp
  have "run change_db ?cs (the ?new) \<noteq> None" by code_simp
  then have r: "run change_db ?cs (the ?new) = Some save_folder" by (simp add: save_folder_def del: run.simps)
  have "length (db_chains save_folder ! 6) = 2" by code_simp
  moreover have "lost_blocks (db_chains save_folder ! 6 ! 1) = [B_title]" by code_simp
  moreover have "lost_blocks (db_chains save_folder ! 6 ! 0) = []" by code_simp
  moreover have "object_blocks True (db_chains save_folder ! 6 ! 0) = [B_full_path]" by code_simp
  moreover from database_released [OF new r] obtain rss where rss: "freeObjects save_folder = Some rss"
    "\<And>j. j < length (db_chains save_folder ! 6) \<Longrightarrow> mset (rss ! 6 ! j) + mset (lost_blocks (db_chains save_folder ! 6 ! j)) =
       mset (object_blocks (j = 0) (db_chains save_folder ! 6 ! j))" by auto
  ultimately show ?thesis using rss(2) [of 0] rss(2) [of 1] by (intro exI [of _ rss]) simp
qed

end
