(* ===== verification/Catalog_Lists.thy ===== *)
theory Catalog_Lists
  imports Database_Free
begin

unbundle bit_operations_syntax

text \<open>
  What the lists of the database hold, and what \<open>filterObjects\<close> (\<open>src/src/database.c\<close>) makes of them.
  Only the lists of photos, videos and music hold objects of these kinds, and their masters keep the
  filters they were made with, as long as what is added is a file or a folder; then each of the
  branches of \<open>acceptFilteredObject\<close> selects from the one list that is meant.
\<close>

section \<open>The filters and the kinds of a list\<close>

definition filter_of :: "int \<Rightarrow> int \<Rightarrow> string \<Rightarrow> u32 \<Rightarrow> metadata" where
  "filter_of parent k name type = metadata_zero\<lparr>ohfiParent := parent, ohfi := k, md_name := Some name,
     md_path := Some [], md_type := type, dataType := Folder OR Special\<rparr>"

definition master_filters :: "metadata list list" where
  "master_filters =
     [[filter_of VITA_OHFI_PHOTO 1000 ''Folders'' (VITA_DIR_TYPE_MASK_PHOTO OR VITA_DIR_TYPE_MASK_ROOT OR VITA_DIR_TYPE_MASK_REGULAR),
       filter_of VITA_OHFI_PHOTO 1001 ''All'' (VITA_DIR_TYPE_MASK_PHOTO OR VITA_DIR_TYPE_MASK_ROOT OR VITA_DIR_TYPE_MASK_ALL)],
      [filter_of VITA_OHFI_VIDEO 1002 ''Folders'' (VITA_DIR_TYPE_MASK_VIDEO OR VITA_DIR_TYPE_MASK_ROOT OR VITA_DIR_TYPE_MASK_REGULAR),
       filter_of VITA_OHFI_VIDEO 1003 ''All'' (VITA_DIR_TYPE_MASK_VIDEO OR VITA_DIR_TYPE_MASK_ROOT OR VITA_DIR_TYPE_MASK_ALL)],
      [filter_of VITA_OHFI_MUSIC 1004 ''All'' (VITA_DIR_TYPE_MASK_MUSIC OR VITA_DIR_TYPE_MASK_ROOT OR VITA_DIR_TYPE_MASK_SONGS)],
      [], [], [], [], [], [], []]"

definition suits :: "nat \<Rightarrow> cma_object \<Rightarrow> bool" where
  "suits i x \<longleftrightarrow>
     (dataType (meta x) AND Photo \<noteq> 0) = (i = 0) \<and> (dataType (meta x) AND Video \<noteq> 0) = (i = 1) \<and>
     (dataType (meta x) AND Music \<noteq> 0) = (i = 2) \<and>
     md_type (meta x) \<in> {VITA_DIR_TYPE_MASK_REGULAR, VITA_DIR_TYPE_MASK_ROOT OR VITA_DIR_TYPE_MASK_REGULAR}"

definition sorted_lists :: "cma_db \<Rightarrow> bool" where
  "sorted_lists db \<longleftrightarrow>
     (\<forall>i < 10. (\<forall>x \<in> set (db_chains db ! i). suits i x) \<and> filters (db_chains db ! i ! 0) = master_filters ! i)"

lemma less_10: "(i :: nat) < 10 \<longleftrightarrow> i \<in> {0, 1, 2, 3, 4, 5, 6, 7, 8, 9}"
  by auto

lemma sorted_lists_init: "sorted_lists (initDatabase paths uuid)"
  unfolding sorted_lists_def less_10
  by (simp add: initDatabase_def createFilter_def Let_def master_def suits_def master_filters_def filter_of_def
      metadata_zero_def datatype_bits dir_type_defs ohfi_defs)

lemma kind_bit:
  assumes "ty \<in> {File, Folder}" and "c \<in> {Photo, Video, Music}"
  shows "(ty OR (dt AND NOT Folder)) AND c = dt AND c"
proof -
  have "ty AND c = 0" "NOT Folder AND c = c" using assms by (auto simp: datatype_bits)
  then have "ty AND c = 0" "(dt AND NOT Folder) AND c = dt AND c" by (simp_all add: and.assoc)
  then show ?thesis by (simp add: bit.conj_disj_distrib2)
qed

lemma suits_new: "suits i x \<Longrightarrow> ty \<in> {File, Folder} \<Longrightarrow> suits i (new_object k x name sz ty)"
  using kind_bit [of ty Photo] kind_bit [of ty Video] kind_bit [of ty Music]
  by (simp add: suits_def new_object_def Let_def)

text \<open>An update of one list that leaves its first object its filters.\<close>

lemma sorted_update_chain:
  assumes "sorted_lists db" and "length (db_chains db) = 10" and "i < 10"
    and "\<And>x. x \<in> set c \<Longrightarrow> suits i x" and "filters (c ! 0) = filters (db_chains db ! i ! 0)"
  shows "sorted_lists (update_chain i (\<lambda>_. c) db)"
  using assms by (auto simp: sorted_lists_def update_chain_def nth_list_update)

lemma sorted_count [simp]: "sorted_lists (db\<lparr>ohfi_count := n\<rparr>) = sorted_lists db"
  by (simp add: sorted_lists_def)

lemma valid_refD:
  assumes "db_ok db" and "valid_ref db r"
  shows "fst r < 10" "length (db_chains db) = 10" "deref db r \<in> set (db_chains db ! fst r)" "db_chains db ! fst r \<noteq> []"
  using assms by (auto simp: db_ok_def valid_ref_def deref_def)

lemma sorted_add:
  assumes "sorted_lists db" and "db_ok db" and "valid_ref db r" and "ty \<in> {File, Folder}"
  shows "sorted_lists (fst (addToDatabase db r name sz ty))"
proof -
  note v = valid_refD [OF assms(2,3)]
  have "suits (fst r) (deref db r)" using assms(1) v by (simp add: sorted_lists_def)
  then have "suits (fst r) (new_object (ohfi_count db) (deref db r) name sz ty)" by (rule suits_new [OF _ assms(4)])
  then have "sorted_lists (update_chain (fst r) (\<lambda>_. db_chains db ! fst r @ [new_object (ohfi_count db) (deref db r) name sz ty]) db)"
    by (intro sorted_update_chain [OF assms(1) v(2,1)]) (use assms(1) v in \<open>auto simp: sorted_lists_def nth_append\<close>)
  then show ?thesis by (simp add: addToDatabase_def Let_def update_chain_def)
qed

lemma sorted_size:
  assumes "sorted_lists db" and "db_ok db" and "valid_ref db r"
  shows "sorted_lists (update_obj r (add_size n) db)"
proof -
  note v = valid_refD [OF assms(2,3)]
  let ?c = "db_chains db ! fst r"
  have s: "suits (fst r) (add_size n x)" if "suits (fst r) x" for x using that by (simp add: suits_def add_size_def)
  have j: "snd r < length ?c" using assms(3) by (simp add: valid_ref_def)
  have "sorted_lists (update_chain (fst r) (\<lambda>_. ?c[snd r := add_size n (?c ! snd r)]) db)"
  proof (rule sorted_update_chain [OF assms(1) v(2,1)])
    show "suits (fst r) x" if "x \<in> set (?c[snd r := add_size n (?c ! snd r)])" for x
      using that assms(1) v(1) j s nth_mem [OF j] by (auto simp: sorted_lists_def dest!: set_update_subset_insert [THEN subsetD])
    show "filters (?c[snd r := add_size n (?c ! snd r)] ! 0) = filters (?c ! 0)"
      using j by (cases "snd r") (simp_all add: nth_list_update)
  qed
  then show ?thesis by (simp add: update_obj_def update_chain_def)
qed

lemma createDatabase_sorted: "createDatabase fuel dir st paths uuid = Some db \<Longrightarrow> sorted_lists db"
  by (rule createDatabase_inv [of sorted_lists]) (auto simp: sorted_lists_init intro: sorted_add sorted_size)

section \<open>Changes\<close>

text \<open>What is added is a file or a folder.\<close>

fun plain_change :: "db_change \<Rightarrow> bool" where
  "plain_change (Catalog_change (Add root name sz ty)) = (ty = File \<or> ty = Folder)"
| "plain_change _ = True"

text \<open>The first object of a list after a removal is its master.\<close>

lemma sorted_remove:
  assumes "sorted_lists db" and "db_ok db" and "db_ok db'" and "valid_ref db q" and "removeFromDatabase db k q = Inr db'"
  shows "sorted_lists db'"
proof -
  let ?c = "db_chains db ! fst q"
  note v = valid_refD [OF assms(2,4)]
  from assms(5) obtain rest where r: "rm_loop (rm_fuel (drop (snd q) ?c)) k (drop (snd q) ?c) 0 None None = Inr rest"
    and db': "db' = update_chain (fst q) (\<lambda>_. take (snd q) ?c @ rest) db"
    by (auto simp: removeFromDatabase_def Let_def split: sum.splits)
  let ?c' = "take (snd q) ?c @ rest"
  have sub: "set ?c' \<subseteq> set ?c"
    using rm_loop_subset [OF r] set_take_subset [of "snd q" ?c] set_drop_subset [of "snd q" ?c] by auto
  have inv: "chain_inv (master_ids ! fst q) (ohfi_count db) ?c" using assms(2) v(1) by (simp add: db_ok_def)
  have "chain_inv (master_ids ! fst q) (ohfi_count db') (db_chains db' ! fst q)" using assms(3) v(1) by (simp add: db_ok_def)
  then have inv': "chain_inv (master_ids ! fst q) (ohfi_count db') ?c'" using v(1,2) by (simp add: db' update_chain_def)
  have "?c' \<noteq> []" "?c \<noteq> []" using inv inv' by (simp_all add: chain_inv_def)
  then have "hd ?c' \<in> set ?c" "hd ?c \<in> set ?c" using sub hd_in_set by blast+
  moreover have "o_ohfi (hd ?c') = o_ohfi (hd ?c)" using inv inv' by (simp add: chain_inv_def)
  moreover have "inj_on o_ohfi (set ?c)"
  proof -
    have "distinct (chain_ids c) \<Longrightarrow> distinct (map o_ohfi c)" for c
      by (induction c) (auto simp: obj_ids_def set_chain_ids)
    then show ?thesis using inv by (simp add: chain_inv_def distinct_map)
  qed
  ultimately have "hd ?c' = hd ?c" by (auto dest: inj_onD)
  then have hd: "?c' ! 0 = ?c ! 0" using inv inv' by (simp add: chain_inv_def hd_conv_nth)
  show ?thesis
    unfolding db' by (rule sorted_update_chain [OF assms(1) v(2,1)])
      (use sub assms(1) v(1) hd in \<open>auto simp: sorted_lists_def\<close>)
qed

lemma rename_one_suits: "rename_one name newname x = Some y \<Longrightarrow> suits i x \<Longrightarrow> suits i y"
  by (auto simp: rename_one_def bind_eq_Some_conv Let_def suits_def)

lemma sorted_rename:
  assumes "sorted_lists db" and "db_ok db" and "valid_ref db r" and "renameRootEntry db r name newname = Some db'"
  shows "sorted_lists db'"
proof -
  let ?c = "db_chains db ! fst r"
  note v = valid_refD [OF assms(2,3)]
  from assms(4) obtain os where os: "rename_loop (length ?c + 1) name newname ?c (snd r) = Some os"
    and db': "db' = update_chain (fst r) (\<lambda>_. os) db"
    by (auto simp: renameRootEntry_def bind_eq_Some_conv)
  have "\<forall>x \<in> set ?c. suits (fst r) x" using assms(1) v(1) by (simp add: sorted_lists_def)
  then have "\<forall>x \<in> set os. suits (fst r) x"
    using rename_loop_all(1) [of "suits (fst r)"] rename_one_suits os assms(3) unfolding valid_ref_def by blast
  moreover have "filters (os ! 0) = filters (?c ! 0)"
    using rename_loop_links(1) [OF os] v(4) by (auto simp: same_links_def)
  ultimately show ?thesis unfolding db' by (intro sorted_update_chain [OF assms(1) v(2,1)]) auto
qed

lemma change_sorted:
  assumes "change_db c db = Some db'" and "db_ok db" and "db_ok db'" and "sorted_lists db" and "plain_change c"
  shows "sorted_lists db'"
proof (cases c)
  case (Catalog_change p)
  show ?thesis
  proof (cases p)
    case (Add root name sz ty)
    with assms Catalog_change show ?thesis
      by (auto intro!: sorted_add simp: ohfiToObject_iff [OF assms(2)])
  next
    case (Remove k)
    with assms(1) Catalog_change obtain r q where "ohfiToObject db (o_parent (deref db r)) = Some q"
      "removeFromDatabase db k q = Inr db'" by (auto elim: db_step_RemoveE simp del: db_step.simps)
    then show ?thesis using sorted_remove assms(2-4) ohfiToObject_iff [OF assms(2)] by blast
  qed
next
  case (Rename k name newname)
  with assms(1) obtain r where "ohfiToObject db k = Some r" "renameRootEntry db r name newname = Some db'"
    by (auto simp: bind_eq_Some_conv)
  then show ?thesis using sorted_rename assms(2,4) ohfiToObject_iff [OF assms(2)] by blast
qed

lemma changes_sorted:
  "run change_db cs db = Some db' \<Longrightarrow> \<forall>c \<in> set cs. plain_change c \<Longrightarrow> db_ok db \<Longrightarrow> all_match db \<Longrightarrow> sorted_lists db \<Longrightarrow>
     db_ok db' \<and> sorted_lists db'"
proof (induction cs arbitrary: db)
  case (Cons c cs)
  then obtain db1 where d: "change_db c db = Some db1" "run change_db cs db1 = Some db'"
    by (auto simp: bind_eq_Some_conv)
  have "db_ok db1" "all_match db1" using change_db_keeps [OF Cons.prems(3,4) d(1)] by simp_all
  then show ?case using Cons.IH [OF d(2)] change_sorted [OF d(1) Cons.prems(3)] Cons.prems by simp
qed simp

section \<open>Listing\<close>

text \<open>The files of a kind are in one list.\<close>

lemma files_listed:
  assumes "db_ok db" and "i < 10" and "\<And>j x. j < 10 \<Longrightarrow> x \<in> set (db_chains db ! j) \<Longrightarrow> Q x = (j = i)"
  shows "filter_chains (\<lambda>x. Q x \<and> P x) (db_chains db) = map meta (filter P (db_chains db ! i))"
proof -
  have len: "length (db_chains db) = 10" using assms(1) by (simp add: db_ok_def)
  have "filter_chains (\<lambda>x. Q x \<and> P x) (db_chains db) = map meta (filter (\<lambda>x. Q x \<and> P x) (db_chains db ! i))"
    by (rule filter_chains_single) (use assms len in auto)
  also have "filter (\<lambda>x. Q x \<and> P x) (db_chains db ! i) = filter P (db_chains db ! i)"
    using assms(2,3) by (intro filter_cong) auto
  finally show ?thesis .
qed

lemma filter_at:
  assumes "i < 10" and "f \<in> set (master_filters ! i)"
  shows "i \<in> {0, 1, 2}" and "ohfi f \<noteq> master_ids ! i"
    and "find (\<lambda>g. ohfi g = ohfi f) (master_filters ! i) = Some f"
    and "acceptFilteredObject parent x (md_type f) =
      (if md_type f AND (VITA_DIR_TYPE_MASK_ALL OR VITA_DIR_TYPE_MASK_SONGS) \<noteq> 0
       then dataType (meta x) AND ([Photo, Video, Music] ! i) \<noteq> 0 \<and> dataType (meta x) AND File \<noteq> 0
       else o_ohfi parent = o_parent x)"
proof -
  have i: "i \<in> set [0..<10]" using assms(1) by simp
  have "\<forall>i \<in> set [0..<10]. \<forall>f \<in> set (master_filters ! i). i \<in> set [0, 1, 2] \<and> ohfi f \<noteq> master_ids ! i \<and>
      find (\<lambda>g. ohfi g = ohfi f) (master_filters ! i) = Some f" by code_simp
  with i assms(2) have f: "i \<in> set [0, 1, 2]" "ohfi f \<noteq> master_ids ! i"
    "find (\<lambda>g. ohfi g = ohfi f) (master_filters ! i) = Some f" by blast+
  then show "i \<in> {0, 1, 2}" "ohfi f \<noteq> master_ids ! i" "find (\<lambda>g. ohfi g = ohfi f) (master_filters ! i) = Some f"
    by simp_all
  have "\<forall>i \<in> set [0..<10]. \<forall>f \<in> set (master_filters ! i).
      (if md_type f AND (VITA_DIR_TYPE_MASK_ALL OR VITA_DIR_TYPE_MASK_SONGS) = 0
       then md_type f AND VITA_DIR_TYPE_MASK_REGULAR \<noteq> 0 else True) \<and>
      MASK_SET (md_type f) VITA_DIR_TYPE_MASK_PHOTO = (i = 0) \<and>
      MASK_SET (md_type f) VITA_DIR_TYPE_MASK_VIDEO = (i = 1) \<and>
      MASK_SET (md_type f) VITA_DIR_TYPE_MASK_MUSIC = (i = 2)" by code_simp
  with i assms(2) have "(if md_type f AND (VITA_DIR_TYPE_MASK_ALL OR VITA_DIR_TYPE_MASK_SONGS) = 0
       then md_type f AND VITA_DIR_TYPE_MASK_REGULAR \<noteq> 0 else True)"
    "MASK_SET (md_type f) VITA_DIR_TYPE_MASK_PHOTO = (i = 0)" "MASK_SET (md_type f) VITA_DIR_TYPE_MASK_VIDEO = (i = 1)"
    "MASK_SET (md_type f) VITA_DIR_TYPE_MASK_MUSIC = (i = 2)" by blast+
  then show "acceptFilteredObject parent x (md_type f) =
      (if md_type f AND (VITA_DIR_TYPE_MASK_ALL OR VITA_DIR_TYPE_MASK_SONGS) \<noteq> 0
       then dataType (meta x) AND ([Photo, Video, Music] ! i) \<noteq> 0 \<and> dataType (meta x) AND File \<noteq> 0
       else o_ohfi parent = o_parent x)"
    using f(1) by (auto simp: acceptFilteredObject_def Let_def split: if_splits)
qed

lemma plain_accept:
  assumes "t \<in> {VITA_DIR_TYPE_MASK_REGULAR, VITA_DIR_TYPE_MASK_ROOT OR VITA_DIR_TYPE_MASK_REGULAR}"
  shows "acceptFilteredObject parent x t = (o_ohfi parent = o_parent x)"
  using assms by (auto simp: acceptFilteredObject_def Let_def MASK_SET_def dir_type_defs)

text \<open>
  Claim C29: what is listed, in a database that was built from the disk and then changed by adding files
  and folders, removing and renaming. For an id that nobody has, nothing. For an object: its filters when it
  has some (the masters of photos, videos and music), otherwise the metadata of exactly its children,
  in list order. For the filter \<open>Folders\<close> of photos or videos, the children of the master; for the
  filter \<open>All\<close> of photos, videos or music, all files of that list, at whatever depth, in list order;
  although the walk is over all lists and stops at the first with a match.
\<close>

theorem filterObjects_lists_children:
  assumes "createDatabase fuel dir st paths uuid = Some db0" and "run change_db cs db0 = Some db"
    and "\<forall>c \<in> set cs. plain_change c"
  shows "(ohfiToObject db k = None \<longrightarrow> filterObjects db k = []) \<and>
    (\<forall>i < 10. \<forall>x \<in> set (db_chains db ! i). o_ohfi x = k \<longrightarrow>
       filterObjects db k = (if filters x \<noteq> [] then filters x
         else map meta (filter (\<lambda>y. o_parent y = k) (db_chains db ! i)))) \<and>
    (\<forall>i < 10. \<forall>f \<in> set (master_filters ! i). ohfi f = k \<longrightarrow>
       filterObjects db k = map meta (filter
         (\<lambda>y. if md_type f AND (VITA_DIR_TYPE_MASK_ALL OR VITA_DIR_TYPE_MASK_SONGS) \<noteq> 0
              then dataType (meta y) AND File \<noteq> 0 else o_parent y = master_ids ! i)
         (db_chains db ! i)))"
proof (intro conjI allI impI ballI)
  have "db_ok db0" by (rule createDatabase_keeps_ok [OF assms(1)])
  with changes_sorted [OF assms(2,3) _ createDatabase_matches [OF assms(1)] createDatabase_sorted [OF assms(1)]]
  have ok: "db_ok db" and sorted: "sorted_lists db" by simp_all
  then have len: "length (db_chains db) = 10" by (simp add: db_ok_def)
  show "filterObjects db k = []" if "ohfiToObject db k = None" using that by (simp add: filterObjects_def)
  fix i :: nat
  assume i: "i < 10"
  show "filterObjects db k = (if filters x \<noteq> [] then filters x
      else map meta (filter (\<lambda>y. o_parent y = k) (db_chains db ! i)))"
    if x: "x \<in> set (db_chains db ! i)" and k: "o_ohfi x = k" for x
  proof -
    from x obtain j where j: "j < length (db_chains db ! i)" "x = db_chains db ! i ! j" by (metis in_set_conv_nth)
    then have v: "valid_ref db (i, j)" "deref db (i, j) = x" using i len by (simp_all add: valid_ref_def deref_def)
    then have "ohfiToObject db k = Some (i, j)" using k [symmetric] by (simp add: ohfiToObject_iff [OF ok])
    moreover have "acceptFilteredObject x y (md_type (meta x)) = (k = o_parent y)" for y
      using sorted i x k by (auto simp: sorted_lists_def suits_def intro!: plain_accept)
    moreover have "find (\<lambda>f. ohfi f = k) (filters x) = None" if "filters x = []" using that by simp
    ultimately show ?thesis
      using children_listed [OF ok v(1)] v(2) k by (simp add: filterObjects_def Let_def)
  qed
  show "filterObjects db k = map meta (filter
         (\<lambda>y. if md_type f AND (VITA_DIR_TYPE_MASK_ALL OR VITA_DIR_TYPE_MASK_SONGS) \<noteq> 0
              then dataType (meta y) AND File \<noteq> 0 else o_parent y = master_ids ! i)
         (db_chains db ! i))"
    if f: "f \<in> set (master_filters ! i)" and k: "ohfi f = k" for f
  proof -
    note fa = filter_at [OF i f]
    let ?m = "db_chains db ! i ! 0"
    have inv: "chain_inv (master_ids ! i) (ohfi_count db) (db_chains db ! i)" using ok i by (simp add: db_ok_def)
    then have v: "valid_ref db (i, 0)" "deref db (i, 0) = ?m" "o_ohfi ?m = master_ids ! i"
      using i len by (auto simp: valid_ref_def deref_def chain_inv_def simp flip: hd_conv_nth)
    have fs: "filters ?m = master_filters ! i" using sorted i by (simp add: sorted_lists_def)
    have "owns ?m k" using f k fs by (auto simp: owns_def obj_ids_def)
    then have r: "ohfiToObject db k = Some (i, 0)" using v by (simp add: ohfiToObject_iff [OF ok])
    have step: "filterObjects db k = filter_chains (\<lambda>x. acceptFilteredObject ?m x (md_type f)) (db_chains db)"
      using fa(2,3) k v fs by (simp add: filterObjects_def Let_def r)
    show ?thesis
    proof (cases "md_type f AND (VITA_DIR_TYPE_MASK_ALL OR VITA_DIR_TYPE_MASK_SONGS) \<noteq> 0")
      case True
      have "(dataType (meta y) AND ([Photo, Video, Music] ! i) \<noteq> 0) = (j = i)" if "j < 10" "y \<in> set (db_chains db ! j)" for j y
        using sorted that fa(1) by (auto simp: sorted_lists_def suits_def)
      from files_listed [OF ok i this] show ?thesis unfolding step fa(4) using True by simp
    next
      case False
      then show ?thesis unfolding step fa(4) using children_listed [OF ok v(1)] v(2,3) by simp
    qed
  qed
qed

text \<open>
  A folder with a photo, a photo beside it, and another that is added to the folder: the children of the
  folder, the children of the master, and all photos.
\<close>

definition sample_photos :: cma_db where
  "sample_photos = the (run change_db [Catalog_change (Add 1005 ''z.jpg'' 5 File)] sample_db)"

theorem filterObjects_lists_children_witness:
  "map ohfi (filterObjects sample_photos 1005) = [1006, 1008] \<and> map ohfi (filterObjects sample_photos 1000) = [1005, 1007] \<and>
   map ohfi (filterObjects sample_photos 1001) = [1006, 1007, 1008] \<and> map ohfi (filterObjects sample_photos 2) = [1000, 1001]"
proof -
  have c: "createDatabase 3 sample_dir sample_st sample_paths ''id'' = Some sample_db"
  proof -
    have "createDatabase 3 sample_dir sample_st sample_paths ''id'' \<noteq> None" by code_simp
    then show ?thesis by (auto simp: sample_db_def)
  qed
  let ?cs = "[Catalog_change (Add 1005 ''z.jpg'' 5 File)]" and ?c = "db_chains sample_photos ! 0"
  have "run change_db ?cs sample_db \<noteq> None" by code_simp
  then have r: "run change_db ?cs sample_db = Some sample_photos" by (auto simp: sample_photos_def simp del: run.simps)
  have p: "\<forall>c \<in> set ?cs. plain_change c" by simp
  note th = filterObjects_lists_children [OF c r p]
  have in1: "\<exists>x \<in> set ?c. o_ohfi x = 1005 \<and> filters x = []" "\<exists>x \<in> set ?c. o_ohfi x = 2 \<and> map ohfi (filters x) = [1000, 1001]"
    by code_simp+
  have fs: "map ohfi (map meta (filter (\<lambda>y. o_parent y = 1005) ?c)) = [1006, 1008]"
    "map ohfi (map meta (filter (\<lambda>y. o_parent y = master_ids ! 0) ?c)) = [1005, 1007]"
    "map ohfi (map meta (filter (\<lambda>y. dataType (meta y) AND File \<noteq> 0) ?c)) = [1006, 1007, 1008]"
    by code_simp+
  have f: "filter_of VITA_OHFI_PHOTO 1000 ''Folders'' (VITA_DIR_TYPE_MASK_PHOTO OR VITA_DIR_TYPE_MASK_ROOT OR VITA_DIR_TYPE_MASK_REGULAR)
      \<in> set (master_filters ! 0)"
    "filter_of VITA_OHFI_PHOTO 1001 ''All'' (VITA_DIR_TYPE_MASK_PHOTO OR VITA_DIR_TYPE_MASK_ROOT OR VITA_DIR_TYPE_MASK_ALL)
      \<in> set (master_filters ! 0)"
    by (simp_all add: master_filters_def)
  have "filterObjects sample_photos 1005 = map meta (filter (\<lambda>y. o_parent y = 1005) ?c)" using th [of 1005] in1(1) by fastforce
  moreover have "map ohfi (filterObjects sample_photos 2) = [1000, 1001]" using th [of 2] in1(2) by fastforce
  moreover have "filterObjects sample_photos 1000 = map meta (filter (\<lambda>y. o_parent y = master_ids ! 0) ?c)"
    using th [of 1000] f(1) by (fastforce simp: filter_of_def dir_type_defs)
  moreover have "filterObjects sample_photos 1001 = map meta (filter (\<lambda>y. dataType (meta y) AND File \<noteq> 0) ?c)"
    using th [of 1001] f(2) by (fastforce simp: filter_of_def dir_type_defs)
  ultimately show ?thesis using fs by simp
qed

end
