(* ===== verification/Vitamtp_Props.thy ===== *)
theory Vitamtp_Props
  imports Vitamtp
begin

text \<open>
  What the commands of vitamtp.c put on the wire and what they accept from it: the commands
  over a scripted connection, and exactly which answers they read without leaving them.
\<close>

section \<open>Commands over a scripted connection\<close>

lemma script_command:
  "sc_replies (io_dev (io s)) = [] \<Longrightarrow>
     command script_funs s code args = Some (PTP_RC_OK, script_after s (ptp_request code args) [] (sc_data (io_dev (io s))))"
  by (simp add: command_def script_transaction_nodata)

lemma script_GetData:
  "sc_replies (io_dev (io s)) = [] \<Longrightarrow> sc_data (io_dev (io s)) = d # ds \<Longrightarrow>
     VitaMTP_GetData script_funs s event_id code = Some (PTP_RC_OK, d, script_after s (ptp_request code [event_id]) [] ds)"
  by (simp add: VitaMTP_GetData_def script_transaction_get)

lemma script_SendData:
  "sc_replies (io_dev (io s)) = [] \<Longrightarrow> len = length dat \<Longrightarrow>
     VitaMTP_SendData script_funs s event_id code dat len =
       Some (PTP_RC_OK, script_after s (ptp_request code [event_id]) [dat] (sc_data (io_dev (io s))))"
  by (simp add: VitaMTP_SendData_def script_transaction_send)

section \<open>Fields of the structures\<close>

lemma u32_at_bytes: "length pre = off \<Longrightarrow> u32_at (pre @ le_bytes 4 v @ post) off = Some v"
  by (simp add: u32_at_def rd_middle le_word_le_bytes)

lemma u64_at_bytes: "length pre = off \<Longrightarrow> u64_at (pre @ le_bytes 8 v @ post) off = Some v"
  by (simp add: u64_at_def rd_middle le_word_le_bytes)

lemma u32_at_0: "u32_at (le_bytes 4 v @ post) 0 = Some v"
  using u32_at_bytes [of "[]" 0 v post] by simp

lemma u64_at_0: "u64_at (le_bytes 8 v @ post) 0 = Some v"
  using u64_at_bytes [of "[]" 0 v post] by simp

lemma u32_at_None_iff: "u32_at d off = None \<longleftrightarrow> length d < off + 4"
  by (simp add: u32_at_def rd_eq_None_iff)

lemma u64_at_None_iff: "u64_at d off = None \<longleftrightarrow> length d < off + 8"
  by (simp add: u64_at_def rd_eq_None_iff)

lemma part_init_bytes:
  "part_init (le_bytes 4 k @ le_bytes 8 off @ le_bytes 8 sz @ post) = Some \<lparr>sp_ohfi = k, sp_offset = off, sp_size = sz\<rparr>"
  using u32_at_0 [of k "le_bytes 8 off @ le_bytes 8 sz @ post"]
    u64_at_bytes [of "le_bytes 4 k" 4 off "le_bytes 8 sz @ post"]
    u64_at_bytes [of "le_bytes 4 k @ le_bytes 8 off" 12 sz post]
  by (simp add: part_init_def)

lemma part_init_None_iff: "part_init d = None \<longleftrightarrow> length d < 20"
proof (cases "length d < 20")
  case True
  then show ?thesis using u64_at_None_iff [of d 12] by (simp add: part_init_def bind_eq_None_conv)
next
  case False
  then have "u32_at d 0 \<noteq> None" "u64_at d 4 \<noteq> None" "u64_at d 12 \<noteq> None"
    by (simp_all add: u32_at_None_iff u64_at_None_iff)
  then show ?thesis using False by (auto simp: part_init_def)
qed

lemma script_GetPartOfObject:
  assumes "sc_replies (io_dev (io s)) = []"
    and "sc_data (io_dev (io s)) = (le_bytes 4 k @ le_bytes 8 off @ le_bytes 8 sz @ body) # ds"
    and "length body = unat sz"
  shows "\<exists>s'. VitaMTP_GetPartOfObject script_funs s event_id =
      Some (PTP_RC_OK, \<lparr>sp_ohfi = k, sp_offset = off, sp_size = sz\<rparr>, body, s') \<and> sc_replies (io_dev (io s')) = []"
proof -
  have "rd ((le_bytes 4 k @ le_bytes 8 off @ le_bytes 8 sz) @ body @ []) 20 (unat sz) = Some body"
    by (rule rd_middle) (simp_all add: assms(3))
  then show ?thesis
    using assms by (simp add: VitaMTP_GetPartOfObject_def script_GetData part_init_bytes)
qed

section \<open>Properties\<close>

text \<open>
  Claim C11: receiving part of an object. What the device announces as the size is copied from
  what it sent; the copy stays inside the received data exactly if that holds the 20 bytes
  of the header and as many bytes as the header says.
\<close>

theorem get_part_safe_iff:
  assumes "VitaMTP_GetData F s event_id PTP_OC_VITA_GetPartOfObject = Some (ret, dat, s')"
  shows "VitaMTP_GetPartOfObject F s event_id \<noteq> None \<longleftrightarrow>
    20 \<le> length dat \<and> 20 + unat (sp_size (the (part_init dat))) \<le> length dat"
proof (cases "part_init dat")
  case None
  then show ?thesis
    using assms part_init_None_iff [of dat] by (auto simp: VitaMTP_GetPartOfObject_def)
next
  case (Some init)
  then have "20 \<le> length dat" using part_init_None_iff [of dat] by (simp add: not_less [symmetric])
  then show ?thesis
    using assms Some rd_eq_None_iff [of dat 20 "unat (sp_size init)"]
    by (cases "rd dat 20 (unat (sp_size init))") (auto simp: VitaMTP_GetPartOfObject_def)
qed

theorem get_part_safe_iff_witness:
  "VitaMTP_GetPartOfObject script_funs
     (script_session 7 [le_bytes 4 (5 :: u32) @ le_bytes 8 (0 :: u64) @ le_bytes 8 (4 :: u64) @ [1, 2, 3]] []) 99 = None"
proof -
  let ?d = "le_bytes 4 (5 :: u32) @ le_bytes 8 (0 :: u64) @ le_bytes 8 (4 :: u64) @ [1, 2, 3]"
  let ?s = "script_session 7 [?d] []"
  have g: "VitaMTP_GetData script_funs ?s 99 PTP_OC_VITA_GetPartOfObject =
      Some (PTP_RC_OK, ?d, script_after ?s (ptp_request PTP_OC_VITA_GetPartOfObject [99]) [] [])"
    by (rule script_GetData) (simp_all add: script_session_def)
  show ?thesis using get_part_safe_iff [OF g] by (simp add: part_init_bytes del: not_None_eq)
qed

text \<open>
  The storage size on the wire. One request with the id of the event and a data phase
  of 25 bytes, from which the device reads back both sizes.
\<close>

lemma storage_size_on_the_wire:
  assumes "sc_replies (io_dev (io s)) = []"
  shows "\<exists>s' dat. VitaMTP_SendStorageSize script_funs s event_id tot avail = Some (PTP_RC_OK, s') \<and>
    sc_requests (io_dev (io s')) = sc_requests (io_dev (io s)) @
      [request_of s (ptp_request PTP_OC_VITA_SendStorageSize [event_id])] \<and>
    sc_sent (io_dev (io s')) = sc_sent (io_dev (io s)) @ [dat] \<and> length dat = 25 \<and>
    u64_at dat 0 = Some tot \<and> u64_at dat 8 = Some avail"
proof -
  let ?dat = "le_bytes 8 tot @ le_bytes 8 avail @ replicate 4 0 @ replicate 5 0xFF"
  have "u64_at ?dat 0 = Some tot" by (rule u64_at_0)
  moreover have "u64_at ?dat 8 = Some avail" by (rule u64_at_bytes) simp
  ultimately show ?thesis
    using script_SendData [OF assms, of 25 ?dat event_id PTP_OC_VITA_SendStorageSize]
    by (auto simp: VitaMTP_SendStorageSize_def intro!: exI [of _ ?dat])
qed

lemma storage_size_on_the_wire_witness:
  "\<exists>s' dat. VitaMTP_SendStorageSize script_funs (script_session 7 [] []) 99 1000 10 = Some (PTP_RC_OK, s') \<and>
     sc_sent (io_dev (io s')) = [dat] \<and> u64_at dat 8 = Some 10"
proof -
  have "sc_replies (io_dev (io (script_session 7 [] []))) = []" "sc_sent (io_dev (io (script_session 7 [] []))) = []"
    by (simp_all add: script_session_def)
  with storage_size_on_the_wire [of "script_session 7 [] []" 99 1000 10] show ?thesis by auto
qed

text \<open>
  Claim C10: parts of objects, sent and received. What \<open>VitaMTP_SendPartOfObject\<close> puts into its
  data phase, behind an object id and an offset, is what \<open>VitaMTP_GetPartOfObject\<close> takes
  apart again: the two ends agree on the layout.
\<close>

theorem part_of_object_roundtrip:
  assumes "sc_replies (io_dev (io s)) = []" and "length body = unat len" and "unat len + 8 < 2 ^ 32"
    and "VitaMTP_SendPartOfObject script_funs s event_id body len = Some (ret, s1)"
    and "sc_replies (io_dev (io s2)) = []"
    and "sc_data (io_dev (io s2)) = (le_bytes 4 k @ le_bytes 8 off @ last (sc_sent (io_dev (io s1)))) # ds"
  shows "ret = PTP_RC_OK \<and> (\<exists>s3. VitaMTP_GetPartOfObject script_funs s2 event_id' =
    Some (PTP_RC_OK, \<lparr>sp_ohfi = k, sp_offset = off, sp_size = len\<rparr>, body, s3))"
proof -
  have r: "rd body 0 (unat len) = Some body" by (simp add: rd_def assms(2))
  have l: "uint32 (unat len + 8) = length (le_bytes 8 len @ body)" using assms(2,3) by (simp add: uint32_def)
  have "ret = PTP_RC_OK" "last (sc_sent (io_dev (io s1))) = le_bytes 8 len @ body"
    using assms(4) script_SendData [OF assms(1) l, of event_id PTP_OC_VITA_SendPartOfObject]
    by (auto simp: VitaMTP_SendPartOfObject_def r)
  then show ?thesis using script_GetPartOfObject [OF assms(5), of k off len body ds event_id'] assms(2,6) by auto
qed

theorem part_of_object_roundtrip_witness:
  "\<exists>s1 s3. VitaMTP_SendPartOfObject script_funs (script_session 7 [] []) 99 [4, 5] 2 = Some (PTP_RC_OK, s1) \<and>
     VitaMTP_GetPartOfObject script_funs
       (script_session 9 [le_bytes 4 (1007 :: u32) @ le_bytes 8 (6 :: u64) @ last (sc_sent (io_dev (io s1)))] []) 98 =
     Some (PTP_RC_OK, \<lparr>sp_ohfi = 1007, sp_offset = 6, sp_size = 2\<rparr>, [4, 5], s3)"
proof -
  let ?s = "script_session 7 [] []"
  have e: "sc_replies (io_dev (io (script_session t ds []))) = []" "sc_data (io_dev (io (script_session t ds []))) = ds" for t ds
    by (simp_all add: script_session_def)
  have "uint32 (unat (2 :: u64) + 8) = length (le_bytes 8 (2 :: u64) @ [4, 5 :: byte])" by (simp add: uint32_def)
  from script_SendData [OF e(1) this, of 7 "[]" 99 PTP_OC_VITA_SendPartOfObject]
  obtain s1 where s1: "VitaMTP_SendPartOfObject script_funs ?s 99 [4, 5] 2 = Some (PTP_RC_OK, s1)"
    by (simp add: VitaMTP_SendPartOfObject_def rd_def)
  from part_of_object_roundtrip [OF e(1) _ _ s1 e(1), where k = 1007 and off = 6 and ds = "[]" and event_id' = 98]
  show ?thesis using s1 e(2) by fastforce
qed

end
