(* ===== verification/Opencma_System.thy ===== *)
theory Opencma_System
  imports Opencma_Inv
begin

text \<open>
  The program around the handlers: the handshake of \<open>main\<close>, the event listener, the command
  reader and the refresh loop of \<open>src/src/opencma.c\<close>, and the order of their rounds. A handler, a
  refresh and a command are one step each here; the interleavings inside them, which the database
  lock is there for, are those of \<open>Opencma_Locks\<close>.
\<close>

section \<open>The handshake\<close>

definition OPENCMA_VERSION_STRING :: string where "OPENCMA_VERSION_STRING = ''OpenCMA 2.1 Beta''"
definition VITAMTP_PROTOCOL_FW_2_10 :: int where "VITAMTP_PROTOCOL_FW_2_10 = 1500010"

text \<open>Devices from firmware 2.10 on also exchange capabilities.\<close>

definition exchange_capabilities ::
  "'s env \<Rightarrow> 's ptp_session \<Rightarrow> (bool \<times> 's ptp_session) option" where
  "exchange_capabilities E s = do {
     (ret, is_set, s1) \<leftarrow> VitaMTP_GetVitaCapabilityInfo (e_io E) s;
     (if ret \<noteq> PTP_RC_OK then Some (False, s1)
      else if \<not> is_set then None
      else do {
        (ret2, s2) \<leftarrow> VitaMTP_SendPCCapabilityInfo (e_io E) s1;
        Some (ret2 = PTP_RC_OK, s2) }) }"

text \<open>\<open>info\<close> is the uninitialised structure. \<open>False\<close>: \<open>main\<close> returns with an error.\<close>

definition handshake :: "'s env \<Rightarrow> vita_info \<Rightarrow> 's world \<Rightarrow> (bool \<times> 's world) option" where
  "handshake E info w = do {
     (ret, vi, s1) \<leftarrow> VitaMTP_GetVitaInfo (e_xmlRead E) (e_io E) (w_sess w) info;
     (if ret \<noteq> PTP_RC_OK then Some (False, w\<lparr>w_sess := s1\<rparr>)
      else do {
        (ret2, s2) \<leftarrow> VitaMTP_SendInitiatorInfo (e_io E) s1
          (VitaMTP_Data_Initiator_New (Some OPENCMA_VERSION_STRING) (vi_protocolVersion vi));
        (if ret2 \<noteq> PTP_RC_OK then Some (False, w\<lparr>w_sess := s2\<rparr>)
         else do {
           (good, s3) \<leftarrow> (if vi_protocolVersion vi \<ge> VITAMTP_PROTOCOL_FW_2_10
                         then exchange_capabilities E s2 else Some (True, s2));
           (if \<not> good then Some (False, w\<lparr>w_sess := s3\<rparr>)
            else do {
              (ret4, s4) \<leftarrow> VitaMTP_SendHostStatus (e_io E) s3 VITA_HOST_STATUS_Connected;
              (if ret4 \<noteq> PTP_RC_OK then Some (False, w\<lparr>w_sess := s4\<rparr>)
               else Some (True, w\<lparr>w_sess := s4, w_connected := True\<rparr>)) }) }) }) }"

section \<open>The threads\<close>

definition VitaMTP_Read_Event :: "'s io_funs \<Rightarrow> 's ptp_session \<Rightarrow> (int \<times> vita_event \<times> 's ptp_session) option" where
  "VitaMTP_Read_Event F s = do {
     (ret, c, io') \<leftarrow> event_wait F (session_id s) (io s) ptp_container_zero;
     Some (if ret \<noteq> PTP_RC_OK then -1 else 0,
       \<lparr>ev_Code = Code c, ev_Param1 = Param1 c, ev_Param2 = Param2 c, ev_Param3 = Param3 c\<rparr>, s\<lparr>io := io'\<rparr>) }"

text \<open>One round of \<open>vitaEventListener\<close>, entered while the device is connected.\<close>

definition listener_round :: "'s env \<Rightarrow> 's world \<Rightarrow> 's world option" where
  "listener_round E w = do {
     (r, ev, s) \<leftarrow> VitaMTP_Read_Event (e_io E) (w_sess w);
     let w1 = w\<lparr>w_sess := s\<rparr>;
     (if r < 0 then Some (w1\<lparr>w_connected := False\<rparr>) else dispatch E ev w1) }"

text \<open>
  One round of \<open>handle_commands\<close>. \<open>"%10s"\<close> writes up to eleven bytes into ten. Without a
  connection, \<open>exit\<close> ends the process and \<open>refresh\<close> ends the thread.
\<close>

datatype command_end = Next_command | Thread_returns | Process_exits

definition handle_command :: "string \<Rightarrow> 's world \<Rightarrow> (command_end \<times> 's world) option" where
  "handle_command cmd w =
     (if 10 \<le> length cmd then None
      else if cmd = ''exit'' then
        Some (if \<not> w_connected w then (Process_exits, w)
              else (Next_command, w\<lparr>w_connected := False, w_refresh := w_refresh w + 1\<rparr>))
      else if cmd = ''refresh'' then
        Some (if \<not> w_connected w then (Thread_returns, w)
              else (Next_command, w\<lparr>w_refresh := w_refresh w + 1\<rparr>))
      else Some (Next_command, w))"

text \<open>What \<open>main\<close> does after its loop.\<close>

definition shutdown :: "'s env \<Rightarrow> 's world \<Rightarrow> 's world option" where
  "shutdown E w = do {
     (_, s) \<leftarrow> VitaMTP_SendHostStatus (e_io E) (w_sess w) VITA_HOST_STATUS_EndConnection;
     Some (destroyDatabase (w\<lparr>w_sess := s\<rparr>)) }"

section \<open>The system\<close>

datatype main_point = At_test | In_sem_wait | Returned | Exited

record 's system =
  sy_world :: "'s world"
  sy_listener :: bool
  sy_commands :: bool
  sy_main :: main_point

abbreviation alive :: "'s system \<Rightarrow> bool" where
  "alive S \<equiv> sy_main S = At_test \<or> sy_main S = In_sem_wait"

inductive sys_step :: "'s env \<Rightarrow> 's system \<Rightarrow> 's system \<Rightarrow> bool" for E where
  listen: "alive S \<Longrightarrow> sy_listener S \<Longrightarrow> w_connected (sy_world S) \<Longrightarrow>
    listener_round E (sy_world S) = Some w' \<Longrightarrow> sys_step E S (S\<lparr>sy_world := w'\<rparr>)"
| listen_end: "alive S \<Longrightarrow> sy_listener S \<Longrightarrow> \<not> w_connected (sy_world S) \<Longrightarrow>
    sys_step E S (S\<lparr>sy_listener := False\<rparr>)"
| command: "alive S \<Longrightarrow> sy_commands S \<Longrightarrow> handle_command cmd (sy_world S) = Some (Next_command, w') \<Longrightarrow>
    sys_step E S (S\<lparr>sy_world := w'\<rparr>)"
| command_end: "alive S \<Longrightarrow> sy_commands S \<Longrightarrow> handle_command cmd (sy_world S) = Some (Thread_returns, w') \<Longrightarrow>
    sys_step E S (S\<lparr>sy_world := w', sy_commands := False\<rparr>)"
| command_exit: "alive S \<Longrightarrow> sy_commands S \<Longrightarrow> handle_command cmd (sy_world S) = Some (Process_exits, w') \<Longrightarrow>
    sys_step E S (S\<lparr>sy_world := w', sy_main := Exited\<rparr>)"
| test_wait: "sy_main S = At_test \<Longrightarrow> w_connected (sy_world S) \<Longrightarrow> sys_step E S (S\<lparr>sy_main := In_sem_wait\<rparr>)"
| test_leave: "sy_main S = At_test \<Longrightarrow> \<not> w_connected (sy_world S) \<Longrightarrow> shutdown E (sy_world S) = Some w' \<Longrightarrow>
    sys_step E S (S\<lparr>sy_world := w', sy_main := Returned\<rparr>)"
| wake_refresh: "sy_main S = In_sem_wait \<Longrightarrow> 0 < w_refresh (sy_world S) \<Longrightarrow> w_connected (sy_world S) \<Longrightarrow>
    refresh_round E ((sy_world S)\<lparr>w_refresh := w_refresh (sy_world S) - 1\<rparr>) = Some w' \<Longrightarrow>
    sys_step E S (S\<lparr>sy_world := w', sy_main := At_test\<rparr>)"
| wake_leave: "sy_main S = In_sem_wait \<Longrightarrow> 0 < w_refresh (sy_world S) \<Longrightarrow> \<not> w_connected (sy_world S) \<Longrightarrow>
    shutdown E ((sy_world S)\<lparr>w_refresh := w_refresh (sy_world S) - 1\<rparr>) = Some w' \<Longrightarrow>
    sys_step E S (S\<lparr>sy_world := w', sy_main := Returned\<rparr>)"

inductive_cases sys_stepE: "sys_step E S S'"

inductive sys_steps :: "'s env \<Rightarrow> 's system \<Rightarrow> 's system \<Rightarrow> bool" for E where
  sys_refl: "sys_steps E S S"
| sys_trans: "sys_steps E S S' \<Longrightarrow> sys_step E S' S'' \<Longrightarrow> sys_steps E S S''"

section \<open>The invariant of the system\<close>

lemma handle_command_keeps: "world_ok n w \<Longrightarrow> handle_command cmd w = Some (fin, w') \<Longrightarrow> world_ok n w'"
  by (auto simp: handle_command_def split: if_splits)

lemma shutdown_keeps: "world_ok n w \<Longrightarrow> holds (shutdown E w) (\<lambda>w'. world_ok n w' \<and> w_db w' = None)"
  unfolding shutdown_def by (intro holds_intros) (auto simp: destroyDatabase_def world_ok_lock)

lemma listener_keeps: "world_ok 0 w \<Longrightarrow> holds (listener_round E w) (world_ok 0)"
  unfolding listener_round_def by (intro holds_bind holds_prod holds_Let holds_if) (auto intro: holds_Some dispatch_keeps)

lemma sys_step_keeps: "sys_step E S S' \<Longrightarrow> world_ok 0 (sy_world S) \<Longrightarrow> world_ok 0 (sy_world S')"
proof (induction rule: sys_step.induct)
  case (listen S w')
  then show ?case using holdsD [OF listener_keeps] by fastforce
next
  case (wake_refresh S w')
  then have "world_ok 0 ((sy_world S)\<lparr>w_refresh := w_refresh (sy_world S) - 1\<rparr>)" by simp
  then show ?case using holdsD [OF refresh_round_keeps] wake_refresh by fastforce
next
  case (test_leave S w')
  then show ?case using holdsD [OF shutdown_keeps] by fastforce
next
  case (wake_leave S w')
  then have "world_ok 0 ((sy_world S)\<lparr>w_refresh := w_refresh (sy_world S) - 1\<rparr>)" by simp
  then show ?case using holdsD [OF shutdown_keeps] wake_leave by fastforce
qed (auto dest: handle_command_keeps)

lemma sys_steps_keep: "sys_steps E S S' \<Longrightarrow> world_ok 0 (sy_world S) \<Longrightarrow> world_ok 0 (sy_world S')"
  by (induction rule: sys_steps.induct) (auto dest: sys_step_keeps)

text \<open>
  How the threads end. Once the connection is lost no step brings it back; a thread ends only then,
  and \<open>main\<close> returns with the database destroyed.
\<close>

lemma refresh_round_connected: "refresh_round E w = Some w' \<Longrightarrow> w_connected w' = w_connected w"
  by (auto simp: refresh_round_def refreshDatabase_def destroyDatabase_def bind_eq_Some_conv Let_def split: if_splits)

lemma shutdown_result: "shutdown E w = Some w' \<Longrightarrow> w_connected w' = w_connected w \<and> w_db w' = None"
  by (auto simp: shutdown_def destroyDatabase_def bind_eq_Some_conv)

definition ends_ok :: "'s system \<Rightarrow> bool" where
  "ends_ok S \<longleftrightarrow>
     (\<not> sy_listener S \<or> \<not> sy_commands S \<or> \<not> alive S \<longrightarrow> \<not> w_connected (sy_world S)) \<and>
     (sy_main S = Returned \<longrightarrow> w_db (sy_world S) = None)"

lemma sys_step_disconnected: "sys_step E S S' \<Longrightarrow> \<not> w_connected (sy_world S) \<Longrightarrow> \<not> w_connected (sy_world S')"
  by (erule sys_stepE) (auto simp: handle_command_def dest: refresh_round_connected shutdown_result split: if_splits)

lemma sys_step_alive: "sys_step E S S' \<Longrightarrow> alive S"
  by (erule sys_stepE) auto

lemma sys_step_ends: "sys_step E S S' \<Longrightarrow> ends_ok S \<Longrightarrow> ends_ok S'"
  by (erule sys_stepE)
    (auto simp: ends_ok_def handle_command_def dest: refresh_round_connected shutdown_result split: if_splits)

lemma sys_steps_disconnected: "sys_steps E S S' \<Longrightarrow> \<not> w_connected (sy_world S) \<Longrightarrow> \<not> w_connected (sy_world S')"
  by (induction rule: sys_steps.induct) (auto dest: sys_step_disconnected)

lemma sys_steps_ends: "sys_steps E S S' \<Longrightarrow> ends_ok S \<Longrightarrow> ends_ok S'"
  by (induction rule: sys_steps.induct) (auto dest: sys_step_ends)

lemma sys_steps_stopped: "sys_steps E S S' \<Longrightarrow> \<not> alive S \<Longrightarrow> S' = S"
  by (induction rule: sys_steps.induct) (auto dest: sys_step_alive)

lemma sys_steps_join: "sys_steps E S1 S2 \<Longrightarrow> sys_steps E S S1 \<Longrightarrow> sys_steps E S S2"
  by (induction rule: sys_steps.induct) (auto intro: sys_trans)

end
