(* ===== verification/Opencma_Sizes.thy ===== *)
theory Opencma_Sizes
  imports Opencma_Inv
begin

text \<open>
  \<open>incrementSizeMetadata\<close> of \<open>src/src/opencma.c\<close>: that its loop ends, and exactly which sizes
  it changes.
\<close>

section \<open>Ancestors\<close>

text \<open>\<open>a\<close> is the object \<open>r\<close> or contains it.\<close>

definition contains_obj :: "cma_db \<Rightarrow> objref \<Rightarrow> objref \<Rightarrow> bool" where
  "contains_obj db a r \<longleftrightarrow> fst a = fst r \<and>
     o_ohfi (deref db r) \<in> descendants (db_chains db ! fst r) (o_ohfi (deref db a))"

lemma contains_self [simp]: "contains_obj db r r"
  by (simp add: contains_obj_def)

lemma child_rel_same_links:
  assumes "same_links os os'"
  shows "child_rel os' = child_rel os"
proof -
  let ?f = "\<lambda>x. (o_parent x, o_ohfi x)"
  have "map ?f os' = map ?f os" using assms by (intro nth_equalityI) (auto simp: same_links_def)
  then have "?f ` set os' = ?f ` set os" by (metis list.set_map)
  moreover have "child_rel l = ?f ` set l" for l by (auto simp: child_rel_def)
  ultimately show ?thesis by simp
qed

lemma descendants_same_links: "same_links os os' \<Longrightarrow> descendants os' k = descendants os k"
  by (simp add: descendants_def child_rel_same_links)

lemma update_obj_same_links:
  assumes "\<And>x. o_ohfi (f x) = o_ohfi x \<and> o_parent (f x) = o_parent x \<and> filters (f x) = filters x"
  shows "same_links (db_chains db ! i) (db_chains (update_obj r f db) ! i)"
  using assms by (cases "i = fst r"; cases "fst r < length (db_chains db)")
    (auto simp: same_links_def update_obj_def nth_update list_update_beyond)

lemma contains_update_obj:
  assumes "\<And>x. o_ohfi (f x) = o_ohfi x \<and> o_parent (f x) = o_parent x \<and> filters (f x) = filters x"
    and "valid_ref db a" and "valid_ref db r"
  shows "contains_obj (update_obj r' f db) a r = contains_obj db a r"
  using assms update_obj_same_links [of f db "fst r" r'] descendants_same_links
  by (auto simp: contains_obj_def deref_update_obj)

lemma own_id_positive:
  assumes "db_ok db" and "valid_ref db r"
  shows "0 < o_ohfi (deref db r)"
proof -
  let ?c = "db_chains db ! fst r"
  have i: "fst r < length (db_chains db)" "fst r < 10" "deref db r \<in> set ?c"
    using assms by (auto simp: valid_ref_def db_ok_def deref_def)
  note inv = db_okD(1) [OF assms(1) i(1)]
  have "\<forall>m \<in> set master_ids. 0 < m" by (simp add: master_ids_def ohfi_defs)
  moreover have "master_ids ! fst r \<in> set master_ids" using i(2) by (intro nth_mem) (simp add: master_ids_def)
  ultimately have "0 < master_ids ! fst r" by blast
  then show ?thesis using inv i(3) by (cases ?c) (auto simp: chain_inv_def OHFI_OFFSET_def)
qed

text \<open>An object is a master, or its parent is in the same list before it.\<close>

lemma parent_cases:
  assumes "db_ok db" and "valid_ref db r"
  obtains (is_master) "o_parent (deref db r) = 0" "snd r = 0"
  | (has_parent) p where "valid_ref db p" "fst p = fst r" "snd p < snd r" "o_ohfi (deref db p) = o_parent (deref db r)"
      "ohfiToObject db (o_parent (deref db r)) = Some p" "0 < o_parent (deref db r)"
proof -
  obtain i j where e: "r = (i, j)" by (cases r)
  let ?c = "db_chains db ! i"
  have i: "i < length (db_chains db)" "j < length ?c" using assms(2) by (simp_all add: e valid_ref_def)
  note inv = db_okD(1) [OF assms(1) i(1)]
  show thesis
  proof (cases j)
    case 0
    have "?c ! 0 = hd ?c" using i(2) by (cases ?c) auto
    then have "o_parent (deref db r) = 0" using inv 0 by (simp add: e deref_def chain_inv_def)
    then show thesis using is_master 0 e by simp
  next
    case (Suc j')
    then have "deref db r \<in> set (tl ?c)" using i(2) nth_mem [of j' "tl ?c"] by (simp add: e deref_def nth_tl)
    then have "o_parent (deref db r) \<in> ids ?c" using inv by (simp add: chain_inv_def)
    then obtain x where x: "x \<in> set ?c" "o_ohfi x = o_parent (deref db r)" by auto
    then obtain q where q: "q < length ?c" "?c ! q = x" by (auto simp: in_set_conv_nth)
    have v: "valid_ref db (i, q)" and d: "o_ohfi (deref db (i, q)) = o_parent (deref db r)"
      using i q x by (simp_all add: valid_ref_def deref_def)
    from child_behind_parent(2) [OF assms(1) v assms(2) d [symmetric]] have "q < j" by (simp add: e)
    then show thesis
      using has_parent [OF v] d ohfiToObject_own [OF assms(1) v] own_id_positive [OF assms(1) v] by (simp add: e)
  qed
qed

lemma contains_parent:
  assumes "db_ok db" and "valid_ref db a" and "valid_ref db r" and "valid_ref db p" and "fst p = fst r"
    and "o_ohfi (deref db p) = o_parent (deref db r)"
  shows "contains_obj db a r \<longleftrightarrow> a = r \<or> contains_obj db a p" and "\<not> contains_obj db r p"
proof -
  let ?c = "db_chains db ! fst r"
  have i: "fst r < length (db_chains db)" "deref db r \<in> set ?c" "deref db p \<in> set ?c"
    using assms(3-5) by (auto simp: valid_ref_def deref_def)
  note ok = db_okD(2) [OF assms(1) i(1)]
  have same: "a = r" if "o_ohfi (deref db a) = o_ohfi (deref db r)"
    by (rule db_ok_owner_unique [OF assms(1-3), of "o_ohfi (deref db r)"]) (simp_all add: owns_iff that)
  have "contains_obj db a r \<Longrightarrow> a = r \<or> contains_obj db a p"
  proof -
    assume c: "contains_obj db a r"
    then have d: "o_ohfi (deref db r) \<in> descendants ?c (o_ohfi (deref db a))" by (simp add: contains_obj_def)
    from descendants_cases [OF this]
    show "a = r \<or> contains_obj db a p"
    proof
      assume "o_ohfi (deref db r) = o_ohfi (deref db a)"
      then show ?thesis using same by simp
    next
      assume "\<exists>x \<in> set ?c. o_ohfi x = o_ohfi (deref db r) \<and> o_parent x \<in> descendants ?c (o_ohfi (deref db a))"
      then obtain x where x: "x \<in> set ?c" "o_ohfi x = o_ohfi (deref db r)"
        "o_parent x \<in> descendants ?c (o_ohfi (deref db a))" by blast
      then have "x = deref db r" using chain_ok_inj [OF ok _ i(2)] by simp
      then show ?thesis using x(3) c assms(5,6) by (simp add: contains_obj_def)
    qed
  qed
  moreover have "contains_obj db a p \<Longrightarrow> contains_obj db a r"
    using descendants_step [of "o_parent (deref db r)" ?c _ "deref db r"] i(2) assms(5,6) by (simp add: contains_obj_def)
  ultimately show "contains_obj db a r \<longleftrightarrow> a = r \<or> contains_obj db a p" by auto
  show "\<not> contains_obj db r p"
    using not_own_descendant [OF ok i(2)] i(3) assms(5,6) by (force simp: contains_obj_def)
qed

section \<open>The loop\<close>

lemma climb_sizes_exact:
  "db_ok db \<Longrightarrow> valid_ref db r \<Longrightarrow> snd r < fuel \<Longrightarrow>
     \<exists>db'. climb_sizes fuel n r db = Some db' \<and>
       (\<forall>a. valid_ref db a \<longrightarrow> deref db' a = (if contains_obj db a r then add_size n (deref db a) else deref db a))"
proof (induction fuel arbitrary: r db)
  case (Suc fuel)
  let ?db = "update_obj r (add_size n) db"
  have ok: "db_ok ?db" by (rule update_obj_ok [OF Suc.prems(1,2)]) simp
  have d: "deref ?db a = (if a = r then add_size n (deref db a) else deref db a)" if "valid_ref db a" for a
    using that by (simp add: deref_update_obj)
  have par: "o_parent (deref ?db r) = o_parent (deref db r)" using d [OF Suc.prems(2)] by simp
  show ?case using Suc.prems(1,2)
  proof (cases rule: parent_cases)
    case is_master
    have "contains_obj db a r \<Longrightarrow> a = r" if a: "valid_ref db a" for a
    proof -
      assume "contains_obj db a r"
      then have e: "fst a = fst r" "o_ohfi (deref db r) \<in> descendants (db_chains db ! fst r) (o_ohfi (deref db a))"
        by (simp_all add: contains_obj_def)
      have "deref db a \<in> set (db_chains db ! fst r)" using a e(1) by (auto simp: valid_ref_def deref_def)
      then have sub: "descendants (db_chains db ! fst r) (o_ohfi (deref db a)) \<subseteq> ids (db_chains db ! fst r)"
        using descendants_subset by blast
      have i: "fst r < length (db_chains db)" "fst r < 10" using Suc.prems(1,2) by (auto simp: valid_ref_def db_ok_def)
      have z: "0 \<notin> ids (db_chains db ! fst r)" by (rule chain_inv_nonzero [OF db_okD(1) [OF Suc.prems(1) i(1)] i(2)])
      have "o_ohfi (deref db r) = o_ohfi (deref db a)"
      proof (rule ccontr)
        assume "o_ohfi (deref db r) \<noteq> o_ohfi (deref db a)"
        with descendants_cases [OF e(2)] obtain x where x: "x \<in> set (db_chains db ! fst r)"
          "o_ohfi x = o_ohfi (deref db r)" "o_parent x \<in> descendants (db_chains db ! fst r) (o_ohfi (deref db a))" by blast
        have "deref db r \<in> set (db_chains db ! fst r)" using Suc.prems(2) by (auto simp: valid_ref_def deref_def)
        then have "x = deref db r" using chain_ok_inj [OF db_okD(2) [OF Suc.prems(1) i(1)] x(1)] x(2) by simp
        then show False using x(3) sub z is_master(1) by auto
      qed
      then show "a = r"
        using db_ok_owner_unique [OF Suc.prems(1) a Suc.prems(2), of "o_ohfi (deref db a)"] by (simp add: owns_iff)
    qed
    then show ?thesis using is_master d par by (auto simp: Let_def)
  next
    case (has_parent p)
    have vp: "valid_ref ?db p" using has_parent(1) by simp
    have "o_ohfi (deref ?db p) = o_parent (deref db r)" using d [OF has_parent(1)] has_parent(3,4) by auto
    then have found: "ohfiToObject ?db (o_parent (deref db r)) = Some p" using ohfiToObject_own [OF ok vp] by simp
    have "snd p < fuel" using has_parent(3) Suc.prems(3) by simp
    from Suc.IH [OF ok vp this] obtain db' where db': "climb_sizes fuel n p ?db = Some db'"
      "\<forall>a. valid_ref db a \<longrightarrow> deref db' a = (if contains_obj ?db a p then add_size n (deref ?db a) else deref ?db a)"
      by auto
    have "deref db' a = (if contains_obj db a r then add_size n (deref db a) else deref db a)" if a: "valid_ref db a" for a
    proof -
      have c: "contains_obj ?db a p = contains_obj db a p" by (rule contains_update_obj [OF _ a has_parent(1)]) simp
      note cp = contains_parent [OF Suc.prems(1) a Suc.prems(2) has_parent(1,2,4)]
      show ?thesis using db'(2) [rule_format, OF a] c cp d [OF a] by (cases "a = r") auto
    qed
    then show ?thesis using db'(1) found par has_parent(6) by (auto simp: Let_def)
  qed
qed simp

lemma fuel_enough: "valid_ref db r \<Longrightarrow> snd r < length (concat (db_chains db)) + 1"
proof -
  assume v: "valid_ref db r"
  then have "length (db_chains db ! fst r) \<le> sum_list (map length (db_chains db))"
    by (intro member_le_sum_list) (auto simp: valid_ref_def)
  then show ?thesis using v by (simp add: length_concat valid_ref_def)
qed

lemma incrementSizeMetadata_total:
  assumes "db_ok db" and "valid_ref db r"
  shows "\<exists>db'. incrementSizeMetadata db r n = Some db' \<and> db_ok db' \<and>
    (\<forall>a. valid_ref db a \<longrightarrow> deref db' a = (if contains_obj db a r then add_size n (deref db a) else deref db a))"
  using climb_sizes_exact [OF assms fuel_enough [OF assms(2)]] holdsD [OF incrementSizeMetadata_keeps [OF assms]]
  unfolding incrementSizeMetadata_def by blast

end
