(* ===== verification/Opencma_Props.thy ===== *)
theory Opencma_Props
  imports Opencma_System Opencma_Sizes Vitamtp_Props
begin

text \<open>
  What the handlers of OpenCMA and the system around them do, and a scripted device to try
  them on.
\<close>

section \<open>Handlers in closed form\<close>

lemma unlock_lock [simp]: "unlockDatabase (lockDatabase w) = w"
  by (simp add: lockDatabase_def unlockDatabase_def)

text \<open>Reports commute with the lock.\<close>

lemma report_locked:
  "report E (lockDatabase w) eventId code \<bind> (\<lambda>w'. Some (unlockDatabase w')) = report E w eventId code"
  by (auto simp: report_def lockDatabase_def unlockDatabase_def bind_eq_Some_conv
      intro!: Option.bind_cong split: prod.splits)

lemma lock_update [simp]:
  "(lockDatabase w)\<lparr>w_fs := fs\<rparr> = lockDatabase (w\<lparr>w_fs := fs\<rparr>)"
  "(lockDatabase w)\<lparr>w_db := d\<rparr> = lockDatabase (w\<lparr>w_db := d\<rparr>)"
  by (simp_all add: lockDatabase_def)

lemma nothing_has_id_0:
  assumes "db_ok db"
  shows "ohfiToObject db 0 = None"
proof (cases "ohfiToObject db 0")
  case (Some r)
  then have v: "valid_ref db r" and o: "owns (deref db r) 0" by (simp_all add: ohfiToObject_iff [OF assms])
  have i: "fst r < length (db_chains db)" "deref db r \<in> set (db_chains db ! fst r)"
    using v by (auto simp: valid_ref_def deref_def)
  have "\<forall>x \<in> set (db_chains db ! fst r). \<forall>f \<in> set (filters x). OHFI_OFFSET \<le> ohfi f"
    using db_okD(1) [OF assms i(1)] by (cases "db_chains db ! fst r") (auto simp: chain_inv_def)
  then show ?thesis using o own_id_nonzero [OF assms v] i(2) by (force simp: owns_iff OHFI_OFFSET_def)
qed simp

lemma delete_closed_form:
  assumes "world_ok 0 w" and "w_db w = Some db" and "ohfiToObject db (sint (ev_Param2 ev)) = Some r"
    and "snd r \<noteq> 0"
  shows "\<exists>db'. db_ok db' \<and> db_chains db' = (db_chains db)[fst r :=
      filter (\<lambda>x. o_ohfi x \<notin> descendants (db_chains db ! fst r) (sint (ev_Param2 ev))) (db_chains db ! fst r)] \<and>
    (\<forall>k \<in> descendants (db_chains db ! fst r) (sint (ev_Param2 ev)). ohfiToObject db' k = None) \<and>
    vitaEventDeleteObject E ev eventId w =
      report E (w\<lparr>w_fs := deleteAll (w_fs w) (o_path (deref db r)), w_db := Some db'\<rparr>) eventId PTP_RC_OK"
proof -
  let ?k = "sint (ev_Param2 ev)"
  have ok: "db_ok db" using assms(1,2) by (rule world_ok_db)
  have v: "valid_ref db r" and o: "owns (deref db r) ?k" using assms(3) by (simp_all add: ohfiToObject_iff [OF ok])
  from ok v show ?thesis
  proof (cases rule: parent_cases)
    case is_master
    then show ?thesis using assms(4) by simp
  next
    case (has_parent p)
    have pid: "owns (deref db p) (o_parent (deref db r))" using has_parent(4) by (simp add: owns_iff)
    note e = parent_and_id [OF ok v has_parent(1) o pid]
    have k: "?k \<in> ids (tl (drop (snd p) (db_chains db ! fst r)))"
      using child_behind_parent(3) [OF ok has_parent(1) v e(2)] e(1) has_parent(2) by simp
    have i: "fst r < 10" using v ok by (auto simp: valid_ref_def db_ok_def)
    have p: "(fst r, snd p) = p" using has_parent(2) by (simp add: prod_eq_iff)
    from subtree_removed [OF ok i k] obtain db' where db': "removeFromDatabase db ?k p = Inr db'" "db_ok db'"
      "db_chains db' = (db_chains db)[fst r := filter (\<lambda>x. o_ohfi x \<notin> descendants (db_chains db ! fst r) ?k) (db_chains db ! fst r)]"
      "\<forall>k' \<in> descendants (db_chains db ! fst r) ?k. ohfiToObject db' k' = None" unfolding p by blast
    have "vitaEventDeleteObject E ev eventId w =
        report E (w\<lparr>w_fs := deleteAll (w_fs w) (o_path (deref db r)), w_db := Some db'\<rparr>) eventId PTP_RC_OK"
      using assms(2,3) has_parent(5) db'(1)
      by (simp add: vitaEventDeleteObject_def Let_def remove_object_def)
    then show ?thesis using db' by blast
  qed
qed

section \<open>A scripted device\<close>

definition sample_env :: "script env" where
  "sample_env = \<lparr>e_io = script_funs, e_render = (\<lambda>_. [60]), e_stamp = (\<lambda>_. Some ''t''), e_xmlRead = (\<lambda>_. None),
     e_may = (\<lambda>_. True), e_space = (\<lambda>_. Some (5, 9)), e_dir = (\<lambda>_. sample_dir), e_stat = (\<lambda>_. sample_st),
     e_depth = 3, e_paths = sample_paths, e_log_level = 3, e_slept = True, e_junk = 0\<rparr>"

definition sample_world :: "byte list list \<Rightarrow> script world" where
  "sample_world ds = \<lparr>w_sess = script_session 7 ds [], w_db = Some sample_db,
     w_fs = [''/p/x.jpg'' \<mapsto> FS_file [1, 2]], w_uuid = ''id'', w_refresh = 0, w_connected = True, w_lock = 0\<rparr>"

definition sample_event :: "u16 \<Rightarrow> u32 \<Rightarrow> vita_event" where
  "sample_event c k = \<lparr>ev_Code = c, ev_Param1 = 99, ev_Param2 = k, ev_Param3 = 0\<rparr>"

lemma sample_env_simps [simp]:
  "e_io sample_env = script_funs" "e_may sample_env = (\<lambda>_. True)" "e_xmlRead sample_env = (\<lambda>_. None)"
  by (simp_all add: sample_env_def)

lemma sample_world_simps [simp]:
  "w_db (sample_world ds) = Some sample_db" "w_sess (sample_world ds) = script_session 7 ds []"
  "w_connected (sample_world ds)" "w_refresh (sample_world ds) = 0"
  by (simp_all add: sample_world_def)

lemma sample_world_ok [simp]: "world_ok 0 (sample_world ds)"
  using sample_db_ok by (simp add: world_ok_def sample_world_def)

lemma script_report_total:
  "e_io E = script_funs \<Longrightarrow> sc_replies (io_dev (io (w_sess w))) = [] \<Longrightarrow> report E w eventId code \<noteq> None"
  by (simp add: report_def VitaMTP_ReportResult_def command_def script_transaction_nodata)

lemma sample_db_lookups:
  "ohfiToObject sample_db 1005 = Some (0, 1)" "ohfiToObject sample_db 1007 = Some (0, 3)"
  "ohfiToObject sample_db 1000 = Some (0, 0)" "ohfiToObject sample_db 4711 = None"
  by code_simp+

lemma sample_replies [simp]: "sc_replies (io_dev (io (script_session t ds []))) = []"
  by (simp add: script_session_def)

section \<open>Properties\<close>

text \<open>
  Claim C1: the events. Whatever event the device sends, with whatever parameters, data and
  answers, a handler that ends leaves the lock released and the database, if there is one,
  well formed: ten lists under their masters, unique ids, every object behind its parent.
\<close>

theorem dispatch_keeps_invariant:
  assumes "world_ok 0 w" and "dispatch E ev w = Some w'"
  shows "w_lock w' = 0 \<and> (\<forall>db. w_db w' = Some db \<longrightarrow> db_ok db)"
  using holdsD [OF dispatch_keeps [OF assms(1)] assms(2)] by (simp add: world_ok_def)

lemma delete_slot: "dispatch E (sample_event 0xC111 k) w = vitaEventDeleteObject E (sample_event 0xC111 k) 99 w"
  by (simp add: dispatch_def event_slot_def sample_event_def PTP_EC_VITA_RequestSendNumOfObject_def g_event_processes_def)

theorem dispatch_keeps_invariant_witness:
  "\<exists>w' db'. dispatch sample_env (sample_event 0xC111 1005) (sample_world []) = Some w' \<and> w_db w' = Some db' \<and>
     w_lock w' = 0 \<and> db_ok db'"
proof -
  let ?ev = "sample_event 0xC111 1005"
  have k: "sint (ev_Param2 ?ev) = 1005" by (simp add: sample_event_def)
  from delete_closed_form [of "sample_world []" sample_db ?ev "(0, 1)" sample_env 99]
  obtain db' where d: "vitaEventDeleteObject sample_env ?ev 99 (sample_world []) =
      report sample_env ((sample_world [])\<lparr>w_fs := deleteAll (w_fs (sample_world [])) (o_path (deref sample_db (0, 1))),
        w_db := Some db'\<rparr>) 99 PTP_RC_OK" by (auto simp: k sample_db_lookups)
  then obtain w' where w': "dispatch sample_env ?ev (sample_world []) = Some w'"
    using script_report_total [of sample_env] by (fastforce simp: delete_slot)
  then have "w_db w' \<noteq> None" using d report_conv [of sample_env] by (fastforce simp: delete_slot)
  with w' dispatch_keeps_invariant [OF sample_world_ok w'] show ?thesis by auto
qed

text \<open>
  Claim C2: deleting an object. The entry and everything below it leave the database, and only
  that; none of the removed ids is found any more; the path and everything below it are
  deleted on disk; one OK is reported. The sizes of the folders around it stay as they were.
\<close>

theorem delete_removes_subtree:
  assumes "world_ok 0 w" and "w_db w = Some db" and "ohfiToObject db (sint (ev_Param2 ev)) = Some r"
    and "snd r \<noteq> 0"
  shows "\<exists>db'. db_chains db' = (db_chains db)[fst r :=
      filter (\<lambda>x. o_ohfi x \<notin> descendants (db_chains db ! fst r) (sint (ev_Param2 ev))) (db_chains db ! fst r)] \<and>
    (\<forall>k \<in> descendants (db_chains db ! fst r) (sint (ev_Param2 ev)). ohfiToObject db' k = None) \<and>
    vitaEventDeleteObject E ev eventId w =
      report E (w\<lparr>w_fs := deleteAll (w_fs w) (o_path (deref db r)), w_db := Some db'\<rparr>) eventId PTP_RC_OK"
  using delete_closed_form [OF assms, of E eventId] by blast

theorem delete_removes_subtree_witness:
  "\<exists>w' db'. vitaEventDeleteObject sample_env (sample_event 0xC111 1007) 99 (sample_world []) = Some w' \<and>
     w_db w' = Some db' \<and> ohfiToObject db' 1007 = None \<and> w_fs w' ''/p/x.jpg'' = None"
proof -
  let ?ev = "sample_event 0xC111 1007" and ?w = "sample_world []"
  have k: "sint (ev_Param2 ?ev) = 1007" by (simp add: sample_event_def)
  have p: "o_path (deref sample_db (0, 3)) = ''/p/x.jpg''" by code_simp
  from delete_removes_subtree [of ?w sample_db ?ev "(0, 3)" sample_env 99]
  obtain db' where a: "\<forall>k \<in> descendants (db_chains sample_db ! 0) 1007. ohfiToObject db' k = None"
    and d: "vitaEventDeleteObject sample_env ?ev 99 ?w =
      report sample_env (?w\<lparr>w_fs := deleteAll (w_fs ?w) ''/p/x.jpg'', w_db := Some db'\<rparr>) 99 PTP_RC_OK"
    by (simp add: k p sample_db_lookups) blast
  have n: "ohfiToObject db' 1007 = None" using a descendants_self by blast
  from d obtain w' where w': "vitaEventDeleteObject sample_env ?ev 99 ?w = Some w'"
    using script_report_total [of sample_env] by fastforce
  then have "w_db w' = Some db'" "w_fs w' ''/p/x.jpg'' = None"
    using report_conv [OF trans [OF d [symmetric] w']] by (auto simp: deleteAll_def)
  with w' n show ?thesis by blast
qed

text \<open>
  Deleting a category. The id of a master, or of one of its filters, leads to an
  object without a parent: \<open>removeFromDatabase\<close> is called with NULL and dereferences an
  uninitialised pointer, after the files of the whole category were deleted.
\<close>

lemma delete_master_undefined:
  assumes "world_ok 0 w" and "w_db w = Some db" and "ohfiToObject db (sint (ev_Param2 ev)) = Some r"
    and "snd r = 0"
  shows "vitaEventDeleteObject E ev eventId w = None"
proof -
  have ok: "db_ok db" using assms(1,2) by (rule world_ok_db)
  have v: "valid_ref db r" using assms(3) by (simp add: ohfiToObject_iff [OF ok])
  from ok v have "o_parent (deref db r) = 0" using assms(4) by (cases rule: parent_cases) auto
  then show ?thesis using assms(2,3) nothing_has_id_0 [OF ok] by (simp add: vitaEventDeleteObject_def Let_def)
qed

lemma delete_master_undefined_witness:
  "vitaEventDeleteObject sample_env (sample_event 0xC111 1000) 99 (sample_world []) = None"
  by (rule delete_master_undefined [of _ sample_db _ "(0, 0)"]) (simp_all add: sample_event_def sample_db_lookups)

text \<open>
  Claim C13: receiving a part of a file. The bytes are appended to the file, wherever the device
  said they belong: the offset of the request has no effect. The size that was received is
  added to the object and to the folders that contain it, and to nothing else.
\<close>

theorem received_part_is_appended:
  assumes "world_ok 0 w" and "w_db w = Some db"
    and "VitaMTP_GetPartOfObject (e_io E) (w_sess w) eventId = Some (PTP_RC_OK, pinit, body, s)"
    and "ohfiToObject db (sint (sp_ohfi pinit)) = Some r"
    and "w_fs w (o_path (deref db r)) = Some (FS_file old)" and "e_may E (o_path (deref db r))"
  shows "\<exists>db'. vitaEventGetPartOfObject E ev eventId w =
      report E (w\<lparr>w_sess := s, w_fs := (w_fs w)(o_path (deref db r) \<mapsto> FS_file (old @ body)), w_db := Some db'\<rparr>)
        eventId PTP_RC_OK \<and>
    (\<forall>a. valid_ref db a \<longrightarrow> deref db' a =
       (if contains_obj db a r then add_size (sp_size pinit) (deref db a) else deref db a))"
proof -
  have ok: "db_ok db" using assms(1,2) by (rule world_ok_db)
  have v: "valid_ref db r" using assms(4) by (simp add: ohfiToObject_iff [OF ok])
  obtain db' where db': "incrementSizeMetadata db r (sp_size pinit) = Some db'"
    "\<forall>a. valid_ref db a \<longrightarrow> deref db' a = (if contains_obj db a r then add_size (sp_size pinit) (deref db a) else deref db a)"
    using incrementSizeMetadata_total [OF ok v, of "sp_size pinit"] by blast
  have "vitaEventGetPartOfObject E ev eventId w =
      report E (w\<lparr>w_sess := s, w_fs := (w_fs w)(o_path (deref db r) \<mapsto> FS_file (old @ body)), w_db := Some db'\<rparr>)
        eventId PTP_RC_OK"
    using assms(2-6) db'(1)
    by (simp add: vitaEventGetPartOfObject_def Let_def writeFileFromBuffer_def report_locked)
  with db'(2) show ?thesis by blast
qed

theorem received_part_is_appended_witness:
  "\<exists>w'. vitaEventGetPartOfObject sample_env (sample_event 0xC118 0) 99
       (sample_world [le_bytes 4 (1007 :: u32) @ le_bytes 8 (0 :: u64) @ le_bytes 8 (3 :: u64) @ [7, 8, 9]]) = Some w' \<and>
     w_fs w' ''/p/x.jpg'' = Some (FS_file [1, 2, 7, 8, 9])"
proof -
  let ?d = "le_bytes 4 (1007 :: u32) @ le_bytes 8 (0 :: u64) @ le_bytes 8 (3 :: u64) @ [7, 8, 9]"
  let ?w = "sample_world [?d]" and ?i = "\<lparr>sp_ohfi = 1007, sp_offset = 0, sp_size = 3\<rparr>"
  have p: "o_path (deref sample_db (0, 3)) = ''/p/x.jpg''" by code_simp
  have g: "\<exists>s. VitaMTP_GetPartOfObject script_funs (script_session 7 [?d] []) 99 = Some (PTP_RC_OK, ?i, [7, 8, 9], s) \<and>
      sc_replies (io_dev (io s)) = []"
    by (rule script_GetPartOfObject) (simp_all add: script_session_def)
  then obtain s where s: "VitaMTP_GetPartOfObject (e_io sample_env) (w_sess ?w) 99 = Some (PTP_RC_OK, ?i, [7, 8, 9], s)"
    "sc_replies (io_dev (io s)) = []" by auto
  from received_part_is_appended [OF sample_world_ok _ s(1), of sample_db "(0, 3)" "[1, 2]" "sample_event 0xC118 0"]
  obtain db' where d: "vitaEventGetPartOfObject sample_env (sample_event 0xC118 0) 99 ?w =
      report sample_env (?w\<lparr>w_sess := s, w_fs := (w_fs ?w)(''/p/x.jpg'' \<mapsto> FS_file [1, 2, 7, 8, 9]), w_db := Some db'\<rparr>) 99 PTP_RC_OK"
    by (auto simp: p sample_db_lookups sample_world_def)
  then obtain w' where w': "vitaEventGetPartOfObject sample_env (sample_event 0xC118 0) 99 ?w = Some w'"
    using script_report_total [of sample_env] s(2) by fastforce
  with report_conv [OF trans [OF d [symmetric] w']] show ?thesis by auto
qed

text \<open>The events that \<open>vitamtp.h\<close> names, with the handlers of the same names.\<close>

definition documented_events :: "(int \<times> 's handler) list" where
  "documented_events = [
     (0xC104, vitaEventSendNumOfObject), (0xC105, vitaEventSendObjectMetadata), (0xC107, vitaEventSendObject),
     (0xC108, vitaEventCancelTask), (0xC10B, vitaEventSendHttpObjectFromURL), (0xC10F, vitaEventSendObjectStatus),
     (0xC110, vitaEventSendObjectThumb), (0xC111, vitaEventDeleteObject), (0xC112, vitaEventGetSettingInfo),
     (0xC113, vitaEventSendHttpObjectPropFromURL), (0xC115, vitaEventSendPartOfObject),
     (0xC117, vitaEventOperateObject), (0xC118, vitaEventGetPartOfObject), (0xC119, vitaEventSendStorageSize),
     (0xC120, vitaEventCheckExistance), (0xC122, vitaEventGetTreatObject),
     (0xC123, vitaEventSendCopyConfirmationInfo), (0xC124, vitaEventSendObjectMetadataItems),
     (0xC125, vitaEventSendNPAccountInfo), (0xC126, vitaEventRequestTerminate)]"

lemma slot_handlers:
  "g_event_processes = map (\<lambda>m. case map_of documented_events (int m + 0xC104) of
     Some f \<Rightarrow> f | None \<Rightarrow> vitaEventUnimplementated) [0..<36]"
  by (simp add: g_event_processes_def documented_events_def upt_rec)

lemma documented_out: "n < 0xC104 \<or> 0xC128 \<le> n \<or> n = 0xC127 \<Longrightarrow> map_of documented_events n = None"
  by (auto simp: documented_events_def)

lemma dispatch_slot:
  "event_slot (ev_Code ev) = int m \<Longrightarrow> m < 36 \<Longrightarrow> dispatch E ev w = (g_event_processes ! m) E ev (ev_Param1 ev) w"
  by (simp add: dispatch_def slot_handlers)

lemma event_slot_eq:
  "event_slot c = (if uint c < 0xC104 \<or> 0xC128 < uint c then 35 else uint c - 0xC104)"
  by (simp add: event_slot_def PTP_EC_VITA_RequestSendNumOfObject_def Let_def)

text \<open>
  Claim C7: the dispatch of events. Each documented event runs the handler of its name, with
  its first parameter as the event id; every other code is ignored, except \<open>0xC128\<close>, for
  which the listener calls through a pointer read behind the table.
\<close>

theorem dispatch_by_name:
  "dispatch E ev w =
     (case map_of documented_events (uint (ev_Code ev)) of
        Some f \<Rightarrow> f E ev (ev_Param1 ev) w
      | None \<Rightarrow> if uint (ev_Code ev) = 0xC128 then None else Some w)"
proof -
  define n where "n = uint (ev_Code ev)"
  consider "n < 0xC104 \<or> 0xC128 < n" | "n = 0xC128" | "0xC104 \<le> n" "n < 0xC128" by linarith
  then show ?thesis
  proof cases
    case 1
    then have "dispatch E ev w = Some w"
      by (simp add: dispatch_def event_slot_eq n_def [symmetric] g_event_processes_def vitaEventUnimplementated_def)
    moreover have "n \<noteq> 0xC128" "n < 0xC104 \<or> 0xC128 \<le> n \<or> n = 0xC127" using 1 by linarith+
    ultimately show ?thesis by (simp add: documented_out n_def [symmetric])
  next
    case 2
    then show ?thesis
      by (simp add: dispatch_def event_slot_eq documented_out n_def [symmetric] g_event_processes_def)
  next
    case 3
    define m where "m = nat (n - 0xC104)"
    have m: "n = int m + 0xC104" "m < 36" using 3 by (auto simp: m_def)
    have "event_slot (ev_Code ev) = int m" using 3 m(1) by (simp add: event_slot_eq n_def [symmetric])
    from dispatch_slot [OF this m(2), of E w] m show ?thesis
      by (cases "map_of documented_events (int m + 0xC104) :: 'a handler option")
        (simp_all add: slot_handlers n_def [symmetric] vitaEventUnimplementated_def)
  qed
qed

text \<open>
  Metadata of an unknown object. When the device asks for the content of an id that
  is not in the database, the handler does not send an empty document: \<open>meta\<close> was never
  set, and the list is read through it.
\<close>

lemma unknown_parent_undefined:
  assumes "VitaMTP_GetBrowseInfo (e_io E) (w_sess w) eventId = Some (PTP_RC_OK, browse, s)"
    and "w_db w = Some db" and "ohfiToObject db (sint (bi_ohfiParent browse)) = None"
  shows "vitaEventSendObjectMetadata E ev eventId w = None"
  using assms by (simp add: vitaEventSendObjectMetadata_def Let_def)

lemma unknown_parent_undefined_witness:
  "vitaEventSendObjectMetadata sample_env (sample_event 0xC105 0) 99
     (sample_world [le_bytes 4 (4711 :: u32) @ replicate 8 0 @ le_bytes 4 (9 :: u32) @ replicate 4 0]) = None"
proof -
  let ?d = "le_bytes 4 (4711 :: u32) @ replicate 8 0 @ le_bytes 4 (9 :: u32) @ replicate 4 0"
  let ?s = "script_session 7 [?d] []"
  have "u32_at ((le_bytes 4 (4711 :: u32) @ replicate 8 0) @ le_bytes 4 (9 :: u32) @ replicate 4 0) 12 = Some 9"
    by (rule u32_at_bytes) simp
  moreover have "VitaMTP_GetData script_funs ?s 99 PTP_OC_VITA_GetBrowseInfo =
      Some (PTP_RC_OK, ?d, script_after ?s (ptp_request PTP_OC_VITA_GetBrowseInfo [99]) [] [])"
    by (rule script_GetData) (simp_all add: script_session_def)
  ultimately have "\<exists>s. VitaMTP_GetBrowseInfo script_funs ?s 99 = Some (PTP_RC_OK, \<lparr>bi_ohfiParent = 4711, bi_numObjects = 9\<rparr>, s)"
    by (simp add: VitaMTP_GetBrowseInfo_def u32_at_0 rd_def)
  then obtain s where s: "VitaMTP_GetBrowseInfo (e_io sample_env) (w_sess (sample_world [?d])) 99 =
      Some (PTP_RC_OK, \<lparr>bi_ohfiParent = 4711, bi_numObjects = 9\<rparr>, s)" by auto
  show ?thesis by (rule unknown_parent_undefined [OF s, where db = sample_db]) (simp_all add: sample_db_lookups)
qed

text \<open>
  Claim C14: the account. The handler of the settings takes the account id of the only account
  as the name of the user directory and asks for a refresh; with any other number of
  accounts, or without an id, it ends in undefined behaviour (a double free, or a NULL
  string).
\<close>

theorem settings_need_one_account:
  assumes "VitaMTP_GetSettingInfo (e_xmlRead E) (e_io E) (w_sess w) eventId = Some (PTP_RC_OK, Some accs, s)"
  shows "vitaEventGetSettingInfo E ev eventId w =
    (case accs of
       [Some a] \<Rightarrow> (case ac_accountId a of
          Some uuid \<Rightarrow> report E (w\<lparr>w_sess := s, w_uuid := uuid, w_refresh := w_refresh w + 1\<rparr>) eventId PTP_RC_OK
        | None \<Rightarrow> None)
     | _ \<Rightarrow> None)"
proof -
  have "VitaMTP_Data_Free_Settings accs = None" if "\<not> (accs = [] \<or> (\<exists>a. accs = [Some a]))"
    using that free_settings_iff by blast
  moreover have "\<exists>f. VitaMTP_Data_Free_Settings [Some a] = Some f" for a
    using free_settings_iff [of "[Some a]"] by simp
  then have "VitaMTP_Data_Free_Settings [Some a] \<bind> (\<lambda>_. k) = k" for a and k :: "'a world option"
    by (metis bind.bind_lunit)
  ultimately show ?thesis using assms
    by (auto simp: vitaEventGetSettingInfo_def Let_def bind_eq_Some_conv split: list.splits option.splits)
qed

theorem settings_need_one_account_witness:
  "\<exists>(E :: script env) w w'. vitaEventGetSettingInfo E (sample_event 0xC112 0) 99 w = Some w' \<and> w_uuid w' = ''ab'' \<and> w_refresh w' = 1"
proof -
  let ?x = "Elem ''settingInfo'' [] [Elem ''accounts'' [] [Elem ''npAccount'' [(''accountId'', ''ab'')] []]]"
  let ?E = "sample_env\<lparr>e_xmlRead := \<lambda>_. Some ?x\<rparr>" and ?d = "[0, 0, 0, 0, 60]"
  let ?s = "script_session 7 [?d] []"
  let ?s' = "script_after ?s (ptp_request PTP_OC_VITA_GetSettingInfo [99]) [] []"
  obtain a where a: "VitaMTP_Data_Settings_From_XML (\<lambda>_. Some ?x) [60] = (0, [Some a])" "ac_accountId a = Some ''ab''"
    by (simp add: VitaMTP_Data_Settings_From_XML_def read_account_def)
  have "VitaMTP_GetData script_funs ?s 99 PTP_OC_VITA_GetSettingInfo = Some (PTP_RC_OK, ?d, ?s')"
    by (rule script_GetData) (simp_all add: script_session_def)
  with a have g: "VitaMTP_GetSettingInfo (e_xmlRead ?E) (e_io ?E) (w_sess (sample_world [?d])) 99 =
      Some (PTP_RC_OK, Some [Some a], ?s')"
    by (simp add: VitaMTP_GetSettingInfo_def)
  have d: "vitaEventGetSettingInfo ?E (sample_event 0xC112 0) 99 (sample_world [?d]) =
      report ?E ((sample_world [?d])\<lparr>w_sess := ?s', w_uuid := ''ab'', w_refresh := 1\<rparr>) 99 PTP_RC_OK"
    using settings_need_one_account [OF g] a(2) by (simp add: sample_world_def)
  then obtain w' where w': "vitaEventGetSettingInfo ?E (sample_event 0xC112 0) 99 (sample_world [?d]) = Some w'"
    using script_report_total [of ?E] by (fastforce simp: script_session_def)
  from report_conv [OF trans [OF d [symmetric] w']] have "w_uuid w' = ''ab''" "w_refresh w' = 1" by auto
  with w' show ?thesis by blast
qed

section \<open>The system\<close>

text \<open>
  Claim C3: the life of the program, from the end of the handshake, in rounds: the handler of an event, a
  refresh, a command, the loss of the connection and the end of a thread are one step each, in any
  order (what happens inside them when they overlap is the subject of \<open>Opencma_Locks\<close>). In every state
  that is reached the database, if there is one, is well formed and its lock is free; a connection that
  was lost at some point is not there at any later one; the listener, the command reader and \<open>main\<close> end
  only when it is lost; \<open>main\<close> returns with the database destroyed; and after \<open>main\<close> returned, or the
  process was ended, nothing changes.
\<close>

theorem system_invariant:
  assumes "w_lock (sy_world S0) = 0" and "w_db (sy_world S0) = None" and "sy_main S0 = At_test"
    and "sy_listener S0" and "sy_commands S0"
    and "sys_steps E S0 S" and "sys_steps E S S'"
  shows "w_lock (sy_world S') = 0 \<and> (\<forall>db. w_db (sy_world S') = Some db \<longrightarrow> db_ok db) \<and>
    (\<not> w_connected (sy_world S) \<longrightarrow> \<not> w_connected (sy_world S')) \<and>
    (\<not> sy_listener S' \<or> \<not> sy_commands S' \<or> sy_main S' \<in> {Returned, Exited} \<longrightarrow> \<not> w_connected (sy_world S')) \<and>
    (sy_main S' = Returned \<longrightarrow> w_db (sy_world S') = None) \<and>
    (sy_main S \<in> {Returned, Exited} \<longrightarrow> S' = S)"
proof -
  have s: "sys_steps E S0 S'" using sys_steps_join assms(6,7) by blast
  have "world_ok 0 (sy_world S')" using sys_steps_keep [OF s] assms(1,2) by (simp add: world_ok_def)
  moreover have "ends_ok S'" using sys_steps_ends [OF s] assms(3-5) by (simp add: ends_ok_def)
  ultimately show ?thesis
    using sys_steps_disconnected [OF assms(7)] sys_steps_stopped [OF assms(7)]
    by (auto simp: world_ok_def ends_ok_def)
qed

definition sample_system :: "bool \<Rightarrow> nat \<Rightarrow> main_point \<Rightarrow> script system" where
  "sample_system conn n pc = \<lparr>sy_world = (sample_world [])\<lparr>w_db := None, w_connected := conn, w_refresh := n\<rparr>,
     sy_listener = True, sy_commands = True, sy_main = pc\<rparr>"

lemma sample_refresh:
  "refresh_round sample_env ((sample_world [])\<lparr>w_db := None, w_connected := True, w_refresh := 0\<rparr>) =
     Some (sample_world [])"
proof -
  have "createDatabase 3 sample_dir sample_st sample_paths ''id'' \<noteq> None" by code_simp
  then have "createDatabase 3 sample_dir sample_st sample_paths ''id'' = Some sample_db" by (auto simp: sample_db_def)
  then show ?thesis
    by (simp add: refresh_round_def refreshDatabase_def destroyDatabase_def sample_env_def sample_world_def)
qed

theorem system_invariant_witness:
  "sys_steps sample_env (sample_system True 1 At_test)
     \<lparr>sy_world = sample_world [], sy_listener = True, sy_commands = True, sy_main = At_test\<rparr> \<and> db_ok sample_db"
proof -
  let ?S = "\<lparr>sy_world = sample_world [], sy_listener = True, sy_commands = True, sy_main = At_test\<rparr>"
  have "sys_step sample_env (sample_system True 1 At_test) (sample_system True 1 In_sem_wait)"
    using test_wait [of "sample_system True 1 At_test" sample_env] by (simp add: sample_system_def)
  moreover have "sys_step sample_env (sample_system True 1 In_sem_wait)
      ((sample_system True 1 In_sem_wait)\<lparr>sy_world := sample_world [], sy_main := At_test\<rparr>)"
    by (rule wake_refresh) (simp_all add: sample_system_def sample_refresh)
  moreover have "(sample_system True 1 In_sem_wait)\<lparr>sy_world := sample_world [], sy_main := At_test\<rparr> = ?S"
    by (simp add: sample_system_def)
  ultimately have s: "sys_steps sample_env (sample_system True 1 At_test) ?S"
    using sys_trans [OF sys_trans [OF sys_refl]] by metis
  have "w_db (sy_world ?S) = Some sample_db" by (simp add: sample_world_def)
  moreover have "w_lock (sample_world []) = 0" by (simp add: sample_world_def)
  ultimately show ?thesis using system_invariant [OF _ _ _ _ _ s sys_refl] s by (simp add: sample_system_def)
qed

text \<open>
  A lost connection. When reading an event fails while no refresh is pending, the
  listener only clears \<open>g_connected\<close> and nobody posts the semaphore: the main thread never
  leaves \<open>sem_wait\<close>. Whatever happens then, the device is not told that the connection
  ended and the database is not released; the program can only be killed.
\<close>

theorem lost_connection_never_shuts_down:
  assumes "sys_steps E S S'" and "sy_main S = In_sem_wait" and "\<not> w_connected (sy_world S)"
    and "w_refresh (sy_world S) = 0"
  shows "sy_world S' = sy_world S \<and> (sy_main S' = In_sem_wait \<or> sy_main S' = Exited)"
  using assms
proof (induction rule: sys_steps.induct)
  case (sys_trans S S' S'')
  then have "sy_world S' = sy_world S" "sy_main S' = In_sem_wait \<or> sy_main S' = Exited" by simp_all
  with sys_trans.hyps(2) sys_trans.prems show ?case
    by (elim sys_stepE) (auto simp: handle_command_def split: if_splits)
qed simp

theorem lost_connection_never_shuts_down_witness:
  "sys_steps sample_env (sample_system False 0 In_sem_wait) ((sample_system False 0 In_sem_wait)\<lparr>sy_listener := False\<rparr>) \<and>
     sy_world (sample_system False 0 In_sem_wait) = sy_world ((sample_system False 0 In_sem_wait)\<lparr>sy_listener := False\<rparr>)"
proof -
  have "sys_step sample_env (sample_system False 0 In_sem_wait) ((sample_system False 0 In_sem_wait)\<lparr>sy_listener := False\<rparr>)"
    by (rule listen_end) (simp_all add: sample_system_def)
  then have s: "sys_steps sample_env (sample_system False 0 In_sem_wait) ((sample_system False 0 In_sem_wait)\<lparr>sy_listener := False\<rparr>)"
    using sys_trans [OF sys_refl] by blast
  then show ?thesis
    using lost_connection_never_shuts_down [OF s] by (simp add: sample_system_def)
qed

text \<open>
  Claim C12: the \<open>exit\<close> command. While \<open>main\<close> waits, the command clears \<open>g_connected\<close> and
  posts the semaphore, so the program can go on to its end: the device is told and the
  database is released.
\<close>

theorem exit_command_shuts_down:
  assumes "sy_main S = In_sem_wait" and "sy_commands S" and "w_connected (sy_world S)"
    and "shutdown E ((sy_world S)\<lparr>w_connected := False\<rparr>) = Some w'"
  shows "handle_command ''exit'' (sy_world S) =
      Some (Next_command, (sy_world S)\<lparr>w_connected := False, w_refresh := w_refresh (sy_world S) + 1\<rparr>) \<and>
    sys_steps E S (S\<lparr>sy_world := w', sy_main := Returned\<rparr>) \<and> w_db w' = None"
proof -
  let ?S = "S\<lparr>sy_world := (sy_world S)\<lparr>w_connected := False, w_refresh := w_refresh (sy_world S) + 1\<rparr>\<rparr>"
  have c: "handle_command ''exit'' (sy_world S) = Some (Next_command, sy_world ?S)"
    using assms(3) by (simp add: handle_command_def)
  have "sys_step E S ?S" using command [OF _ assms(2) c] assms(1) by simp
  moreover have "sys_step E ?S (?S\<lparr>sy_world := w', sy_main := Returned\<rparr>)"
    by (rule wake_leave) (simp_all add: assms)
  ultimately have "sys_steps E S (?S\<lparr>sy_world := w', sy_main := Returned\<rparr>)"
    by (blast intro: sys_refl sys_trans)
  moreover have "w_db w' = None"
    using assms(4) by (auto simp: shutdown_def destroyDatabase_def bind_eq_Some_conv)
  ultimately show ?thesis using c by simp
qed

theorem exit_command_shuts_down_witness:
  "\<exists>w'. sys_steps sample_env (sample_system True 0 In_sem_wait)
      ((sample_system True 0 In_sem_wait)\<lparr>sy_world := w', sy_main := Returned\<rparr>) \<and> w_db w' = None"
proof -
  let ?S = "sample_system True 0 In_sem_wait"
  obtain w' where "shutdown sample_env ((sy_world ?S)\<lparr>w_connected := False\<rparr>) = Some w'"
    by (simp add: shutdown_def VitaMTP_SendHostStatus_def script_command sample_system_def)
  from exit_command_shuts_down [OF _ _ _ this] show ?thesis
    by (fastforce simp: sample_system_def)
qed

section \<open>Connecting\<close>

lemma sized_text:
  assumes "length str < 2 ^ 32 - 1"
  shows "VitaMTP_Data_Add_Size_Header (str @ [0]) (of_nat (length str + 1)) =
    Some (le_bytes 4 (of_nat (length str + 1) :: u32) @ str @ [0])"
proof -
  have "unat (of_nat (length str + 1) :: u32) = length str + 1"
    using assms by (simp add: unat_of_nat take_bit_nat_eq_self_iff del: of_nat_add of_nat_Suc)
  then show ?thesis by (simp add: VitaMTP_Data_Add_Size_Header_def rd_def del: of_nat_add of_nat_Suc)
qed

lemma initiator_sized:
  "length (initiator_text ii) < 2 ^ 32 - 1 \<Longrightarrow> \<exists>dat. VitaMTP_Data_Initiator_To_XML ii = Some (dat, length dat)"
  using sized_text [of "bytes_of (initiator_text ii)"]
  by (simp add: VitaMTP_Data_Initiator_To_XML_def Let_def bytes_of_def)

lemma capability_sized: "\<exists>dat. VitaMTP_Data_Capability_To_XML = Some (dat, length dat)"
  using sized_text [of "bytes_of capability_text"]
  by (simp add: VitaMTP_Data_Capability_To_XML_def Let_def bytes_of_def capability_text_def quoted_def)

lemma set_params_code [simp]: "Code (set_params n args p) = Code p"
  by (induction n args p rule: set_params.induct) (simp_all add: set_param_def)

lemma request_code [simp]: "Code (request_of s (ptp_request code args)) = code"
  by (simp add: request_of_def ptp_request_def)

text \<open>
  Claim C9: the handshake. With a device that answers every request, the program asks for the
  device information, sends its own, exchanges capabilities when the protocol of the
  device is that of firmware 2.10 or later, and reports itself connected, in this order.
\<close>

theorem handshake_requests:
  assumes "e_io E = script_funs" and "sc_replies (io_dev (io (w_sess w))) = []"
    and "sc_data (io_dev (io (w_sess w))) = d # ds" and "4 \<le> length d"
    and "VitaMTP_Data_Info_From_XML (e_xmlRead E) info (drop 4 d) = Some (0, vi)"
    and "length (initiator_text (VitaMTP_Data_Initiator_New (Some OPENCMA_VERSION_STRING) (vi_protocolVersion vi))) < 2 ^ 32 - 1"
    and "vi_protocolVersion vi \<ge> VITAMTP_PROTOCOL_FW_2_10 \<Longrightarrow> \<exists>c ds'. ds = c # ds' \<and> c \<noteq> []"
  shows "\<exists>w'. handshake E info w = Some (True, w') \<and> w_connected w' \<and> w_db w' = w_db w \<and>
    map Code (sc_requests (io_dev (io (w_sess w')))) = map Code (sc_requests (io_dev (io (w_sess w)))) @
      [PTP_OC_VITA_GetVitaInfo, PTP_OC_VITA_SendInitiatorInfo] @
      (if vi_protocolVersion vi \<ge> VITAMTP_PROTOCOL_FW_2_10
       then [PTP_OC_VITA_GetVitaCapabilityInfo, PTP_OC_VITA_SendPCCapabilityInfo] else []) @
      [PTP_OC_VITA_SendHostStatus]"
proof -
  let ?ii = "VitaMTP_Data_Initiator_New (Some OPENCMA_VERSION_STRING) (vi_protocolVersion vi)"
  obtain dat where dat: "VitaMTP_Data_Initiator_To_XML ?ii = Some (dat, length dat)"
    using initiator_sized [OF assms(6)] by blast
  obtain cap where cap: "VitaMTP_Data_Capability_To_XML = Some (cap, length cap)"
    using capability_sized by blast
  have d: "d \<noteq> []" using assms(4) by auto
  note run = handshake_def VitaMTP_GetVitaInfo_def VitaMTP_SendInitiatorInfo_def VitaMTP_SendHostStatus_def
    script_transaction_get script_transaction_send script_command
  show ?thesis
  proof (cases "vi_protocolVersion vi \<ge> VITAMTP_PROTOCOL_FW_2_10")
    case True
    with assms(7) obtain c ds' where "ds = c # ds'" "c \<noteq> []" by blast
    with True show ?thesis using assms(1-5) d dat
      by (simp add: run cap exchange_capabilities_def VitaMTP_GetVitaCapabilityInfo_def VitaMTP_SendPCCapabilityInfo_def)
  next
    case False
    then show ?thesis using assms(1-5) d dat by (simp add: run)
  qed
qed

theorem handshake_requests_witness:
  "\<exists>(E :: script env) w' info. handshake E info (sample_world [[0, 0, 0, 0, 60], [1]]) = Some (True, w') \<and>
     map Code (sc_requests (io_dev (io (w_sess w')))) =
       [PTP_OC_VITA_GetVitaInfo, PTP_OC_VITA_SendInitiatorInfo, PTP_OC_VITA_GetVitaCapabilityInfo,
        PTP_OC_VITA_SendPCCapabilityInfo, PTP_OC_VITA_SendHostStatus]"
proof -
  let ?x = "Elem ''VITAInformation'' [(''responderVersion'', ''1''), (''protocolVersion'', ''01500010'')] [Elem ''x'' [] []]"
  let ?E = "sample_env\<lparr>e_xmlRead := \<lambda>_. Some ?x\<rparr>" and ?w = "sample_world [[0, 0, 0, 0, 60], [1]]"
  fix info
  have "atoi (bytes_of ''01500010'') = 1500010" by code_simp
  then obtain vi where vi: "VitaMTP_Data_Info_From_XML (e_xmlRead ?E) info (drop 4 [0, 0, 0, 0, 60]) = Some (0, vi)"
    "vi_protocolVersion vi = 1500010"
    by (auto simp: VitaMTP_Data_Info_From_XML_def info_child_def xml_atoi_def)
  have "length (initiator_text (VitaMTP_Data_Initiator_New (Some OPENCMA_VERSION_STRING) 1500010)) < 2 ^ 32 - 1"
  proof -
    have "length (show_padded 8 1500010) = 8" by (simp add: length_show_padded)
    moreover have "length (show_int 5) = 1" "length (show_nat VITAMTP_VERSION_MAJOR) = 1"
      "length (show_nat VITAMTP_VERSION_MINOR) = 1"
      by (simp_all add: show_int_def show_nat.simps VITAMTP_VERSION_MAJOR_def VITAMTP_VERSION_MINOR_def)
    ultimately show ?thesis
      by (simp add: initiator_text_def VitaMTP_Data_Initiator_New_def quoted_def OPENCMA_VERSION_STRING_def)
  qed
  with vi handshake_requests [of ?E ?w "[0, 0, 0, 0, 60]" "[[1]]" info vi] show ?thesis
    by (fastforce simp: script_session_def VITAMTP_PROTOCOL_FW_2_10_def)
qed

section \<open>Sizes of the folders\<close>

text \<open>
  Claim C6: \<open>incrementSizeMetadata\<close> ends for every object of a well-formed database, and adds
  the size to that object and to the folders that contain it, to each of them once.
\<close>

theorem incrementSizeMetadata_exact:
  assumes "db_ok db" and "valid_ref db r"
  shows "\<exists>db'. incrementSizeMetadata db r n = Some db' \<and> db_ok db' \<and>
    (\<forall>a. valid_ref db a \<longrightarrow> deref db' a = (if contains_obj db a r then add_size n (deref db a) else deref db a))"
  using incrementSizeMetadata_total [OF assms] .

theorem incrementSizeMetadata_exact_witness:
  "\<exists>db'. incrementSizeMetadata sample_db (0, 3) 5 = Some db' \<and>
     md_size (meta (deref db' (0, 3))) = md_size (meta (deref sample_db (0, 3))) + 5"
proof -
  have v: "valid_ref sample_db (0, 3)" by code_simp
  from incrementSizeMetadata_exact [OF sample_db_ok this, of 5] show ?thesis
    using v by (auto simp: add_size_def simp del: split_paired_All)
qed

end
