(* ===== verification/Ptpip.thy ===== *)
theory Ptpip
  imports Ptp_Ops
begin

text \<open>
  PTP/IP, the transport of the wireless connection (\<open>src/src/wireless.c\<close>): requests, data
  phases, responses and events as packets on two TCP connections. A socket is the
  sequence of what will arrive on it, in any segmentation, with failures, and a plan of
  how much each \<open>send\<close> accepts; quantifying over both covers every behaviour of the
  network. A socket with nothing left to arrive is closed by the peer.
\<close>

section \<open>Sockets\<close>

datatype arrival = Seg "byte list" | Pause | Failure

fun bytes_left :: "arrival list \<Rightarrow> byte list" where
  "bytes_left [] = []"
| "bytes_left (Seg bs # rest) = bs @ bytes_left rest"
| "bytes_left (_ # rest) = bytes_left rest"

text \<open>A blocking \<open>recv\<close> of up to \<open>n\<close> bytes: \<open>None\<close> is -1, the empty list 0.\<close>

fun recv_blocking :: "nat \<Rightarrow> arrival list \<Rightarrow> byte list option \<times> arrival list" where
  "recv_blocking n [] = (Some [], [])"
| "recv_blocking n (Pause # rest) = recv_blocking n rest"
| "recv_blocking n (Failure # rest) = (None, rest)"
| "recv_blocking n (Seg bs # rest) =
     (if bs = [] then recv_blocking n rest
      else (Some (take n bs), if n < length bs then Seg (drop n bs) # rest else rest))"

record sock =
  rx :: "arrival list"
  tx :: "byte list"
  plan :: "int list"

text \<open>\<open>send\<close>: the result and what the peer gets. Without a plan everything is accepted.\<close>

definition sock_send :: "byte list \<Rightarrow> sock \<Rightarrow> int \<times> sock" where
  "sock_send bs s =
     (case plan s of
        [] \<Rightarrow> (int (length bs), s\<lparr>tx := tx s @ bs\<rparr>)
      | k # ks \<Rightarrow>
          if k < 0 then (-1, s\<lparr>plan := ks\<rparr>)
          else (min k (int (length bs)), s\<lparr>tx := tx s @ take (nat k) bs, plan := ks\<rparr>))"

record net =
  cmd :: sock
  evt :: sock
  readable :: "bool list"
  log_errors :: bool
  eventpipeid :: u32

section \<open>Reading packets\<close>

definition PTPIP_INIT_COMMAND_REQUEST :: u32 where "PTPIP_INIT_COMMAND_REQUEST = 1"
definition PTPIP_INIT_COMMAND_ACK :: u32 where "PTPIP_INIT_COMMAND_ACK = 2"
definition PTPIP_INIT_EVENT_REQUEST :: u32 where "PTPIP_INIT_EVENT_REQUEST = 3"
definition PTPIP_INIT_EVENT_ACK :: u32 where "PTPIP_INIT_EVENT_ACK = 4"
definition PTPIP_CMD_REQUEST :: u32 where "PTPIP_CMD_REQUEST = 6"
definition PTPIP_CMD_RESPONSE :: u32 where "PTPIP_CMD_RESPONSE = 7"
definition PTPIP_EVENT :: u32 where "PTPIP_EVENT = 8"
definition PTPIP_START_DATA_PACKET :: u32 where "PTPIP_START_DATA_PACKET = 9"
definition PTPIP_DATA_PACKET :: u32 where "PTPIP_DATA_PACKET = 10"
definition PTPIP_END_DATA_PACKET :: u32 where "PTPIP_END_DATA_PACKET = 12"

lemmas packet_types = PTPIP_INIT_COMMAND_REQUEST_def PTPIP_INIT_COMMAND_ACK_def
  PTPIP_INIT_EVENT_REQUEST_def PTPIP_INIT_EVENT_ACK_def PTPIP_CMD_REQUEST_def PTPIP_CMD_RESPONSE_def
  PTPIP_EVENT_def PTPIP_START_DATA_PACKET_def PTPIP_DATA_PACKET_def PTPIP_END_DATA_PACKET_def

lemma recv_blocking_Nil [simp]: "recv_blocking n as = (Some [], as') \<Longrightarrow> 0 < n \<Longrightarrow> as' = []"
  by (induction n as rule: recv_blocking.induct) (auto split: if_splits)

lemma recv_blocking_length:
  "recv_blocking n as = (Some bs, as') \<Longrightarrow> length bs \<le> n \<and> bytes_left as = bs @ bytes_left as'"
  by (induction n as rule: recv_blocking.induct) (auto split: if_splits)

text \<open>The two reading loops of \<open>ptp_ptpip_generic_read\<close>: \<open>None\<close> when the stream ends or fails.\<close>

function recv_all :: "nat \<Rightarrow> byte list \<Rightarrow> arrival list \<Rightarrow> byte list option \<times> arrival list" where
  "recv_all n got as =
     (if n \<le> length got then (Some got, as)
      else case recv_blocking (n - length got) as of
        (None, as') \<Rightarrow> (None, as')
      | (Some bs, as') \<Rightarrow> if bs = [] then (None, as') else recv_all n (got @ bs) as')"
  by pat_completeness auto
termination
  by (relation "measure (\<lambda>(n, got, as). n - length got)") (auto intro!: diff_less_mono2)

declare recv_all.simps [simp del]

record packet =
  pk_length :: u32
  pk_type :: u32
  pk_data :: "byte list"

text \<open>
  \<open>len\<close> is an \<open>int\<close>, computed from 32 bits. \<open>None\<close> is \<open>PTP_RC_GeneralError\<close>, the only error.
\<close>

definition ptp_ptpip_generic_read :: "ptp_params \<Rightarrow> arrival list \<Rightarrow> packet option \<times> arrival list" where
  "ptp_ptpip_generic_read P as =
     (case recv_all 8 [] as of
        (None, as1) \<Rightarrow> (None, as1)
      | (Some hdr, as1) \<Rightarrow>
          (let pl = dtoh32ap P (take 4 hdr); pt = dtoh32ap P (drop 4 hdr); len = sint (pl - 8) in
           if len < 0 then (None, as1)
           else case recv_all (nat len) [] as1 of
             (None, as2) \<Rightarrow> (None, as2)
           | (Some dat, as2) \<Rightarrow> (Some \<lparr>pk_length = pl, pk_type = pt, pk_data = dat\<rparr>, as2)))"

definition ptp_ptpip_cmd_read :: "ptp_params \<Rightarrow> net ptp_io \<Rightarrow> packet option \<times> net ptp_io" where
  "ptp_ptpip_cmd_read P i =
     (let (r, as) = ptp_ptpip_generic_read P (rx (cmd (io_dev i)))
      in (r, i\<lparr>io_dev := (io_dev i)\<lparr>cmd := (cmd (io_dev i))\<lparr>rx := as\<rparr>\<rparr>\<rparr>))"

definition ptp_ptpip_evt_read :: "ptp_params \<Rightarrow> net ptp_io \<Rightarrow> packet option \<times> net ptp_io" where
  "ptp_ptpip_evt_read P i =
     (let (r, as) = ptp_ptpip_generic_read P (rx (evt (io_dev i)))
      in (r, i\<lparr>io_dev := (io_dev i)\<lparr>evt := (evt (io_dev i))\<lparr>rx := as\<rparr>\<rparr>\<rparr>))"

definition send_cmd :: "byte list \<Rightarrow> net ptp_io \<Rightarrow> int \<times> net ptp_io" where
  "send_cmd bs i = (let (r, s) = sock_send bs (cmd (io_dev i)) in (r, i\<lparr>io_dev := (io_dev i)\<lparr>cmd := s\<rparr>\<rparr>))"

section \<open>Requests\<close>

text \<open>Up to five parameters are stored; the length counts what \<open>Nparam\<close> says.\<close>

definition request_params :: "ptp_container \<Rightarrow> u32 list" where
  "request_params req = [Param1 req, Param2 req, Param3 req, Param4 req, Param5 req]"

definition request_packet :: "ptp_params \<Rightarrow> ptp_container \<Rightarrow> byte list" where
  "request_packet P req =
     htod32ap P (of_nat (18 + Nparam req * 4)) @ htod32ap P PTPIP_CMD_REQUEST @ htod32ap P 1 @
     htod16ap P (Code req) @ htod32ap P (Transaction_ID req) @
     concat (map (htod32ap P) (take (Nparam req) (request_params req)))"

text \<open>
  A number of parameters above five leaves bytes of the request uninitialised: \<open>None\<close>. The
  result is \<open>PTP_RC_OK\<close> whether or not the request could be sent.
\<close>

definition ptp_ptpip_sendreq :: "ptp_params \<Rightarrow> net ptp_io \<Rightarrow> ptp_container \<Rightarrow> (u16 \<times> net ptp_io) option" where
  "ptp_ptpip_sendreq P i req =
     (if 5 < Nparam req then None else Some (PTP_RC_OK, snd (send_cmd (request_packet P req) i)))"

section \<open>The data phase\<close>

definition WRITE_BLOCKSIZE :: nat where "WRITE_BLOCKSIZE = 32756"

definition start_packet :: "ptp_params \<Rightarrow> u32 \<Rightarrow> nat \<Rightarrow> byte list" where
  "start_packet P tid n =
     htod32ap P 0x14 @ htod32ap P PTPIP_START_DATA_PACKET @ htod32ap P tid @ htod32ap P (of_nat n) @ htod32ap P 0"

definition data_packet :: "ptp_params \<Rightarrow> u32 \<Rightarrow> u32 \<Rightarrow> byte list \<Rightarrow> byte list" where
  "data_packet P type tid bs =
     htod32ap P (of_nat (length bs + 12)) @ htod32ap P type @ htod32ap P tid @ bs"

text \<open>The loop around \<open>send\<close>.\<close>

function send_all :: "byte list \<Rightarrow> net ptp_io \<Rightarrow> bool \<times> net ptp_io" where
  "send_all bs i =
     (if bs = [] then (True, i)
      else case send_cmd bs i of
        (r, i') \<Rightarrow> if r = -1 then (False, i') else send_all (drop (nat r) bs) i')"
  by pat_completeness auto
termination
  by (relation "measure (\<lambda>(bs, i). length (plan (cmd (io_dev i))) + (if bs = [] then 0 else 1))")
    (auto simp: send_cmd_def sock_send_def Let_def split: list.splits if_splits)

declare send_all.simps [simp del]

function send_blocks ::
  "ptp_params \<Rightarrow> u32 \<Rightarrow> nat \<Rightarrow> nat \<Rightarrow> mem_handler \<Rightarrow> net ptp_io \<Rightarrow> u16 \<times> mem_handler \<times> net ptp_io" where
  "send_blocks P tid curwrite n h i =
     (if curwrite < n then
        (let rest = n - curwrite;
             towrite = (if rest > WRITE_BLOCKSIZE then WRITE_BLOCKSIZE else rest);
             type = (if rest > WRITE_BLOCKSIZE then PTPIP_DATA_PACKET else PTPIP_END_DATA_PACKET)
         in case memory_getfunc h towrite of
           (_, bs, h') \<Rightarrow>
             (case send_all (data_packet P type tid bs) i of
                (ok, i') \<Rightarrow>
                  if ok then send_blocks P tid (curwrite + towrite) n h' i'
                  else (PTP_RC_GeneralError, h', i')))
      else (PTP_RC_OK, h, i))"
  by pat_completeness auto
termination
  by (relation "measure (\<lambda>(P, tid, curwrite, n, h, i). n - curwrite)") (auto simp: WRITE_BLOCKSIZE_def)

declare send_blocks.simps [simp del]

definition ptp_ptpip_senddata ::
  "ptp_params \<Rightarrow> net ptp_io \<Rightarrow> ptp_container \<Rightarrow> nat \<Rightarrow> mem_handler \<Rightarrow> (u16 \<times> mem_handler \<times> net ptp_io) option" where
  "ptp_ptpip_senddata P i ptp n h =
     (let (r, i1) = send_cmd (start_packet P (Transaction_ID ptp) n) i in
      Some (if r \<noteq> 20 then (PTP_RC_GeneralError, h, i1)
            else send_blocks P (Transaction_ID ptp) 0 n h i1))"

text \<open>Reading takes bytes from the front of the stream, a packet at least its header.\<close>

lemma recv_all_takes:
  "recv_all n got as = (Some bs, as') \<Longrightarrow>
     \<exists>new. bs = got @ new \<and> length new = n - length got \<and> bytes_left as = new @ bytes_left as'"
proof (induction n got as rule: recv_all.induct)
  case (1 n got as)
  show ?case
  proof (cases "n \<le> length got")
    case False
    with 1(2) obtain c as1 where r: "recv_blocking (n - length got) as = (Some c, as1)" "c \<noteq> []"
      and rec: "recv_all n (got @ c) as1 = (Some bs, as')"
      by (subst (asm) recv_all.simps) (auto split: prod.splits option.splits if_splits)
    from 1(1) [OF False r(1) [symmetric] refl r(2) rec] obtain new
      where new: "bs = (got @ c) @ new" "length new = n - length (got @ c)" "bytes_left as1 = new @ bytes_left as'"
      by blast
    with recv_blocking_length [OF r(1)] False show ?thesis by (intro exI [of _ "c @ new"]) auto
  qed (use 1(2) in \<open>simp add: recv_all.simps\<close>)
qed

lemma generic_read_takes:
  assumes "ptp_ptpip_generic_read P as = (Some pk, as')"
  shows "\<exists>hdr. length hdr = 8 \<and> bytes_left as = hdr @ pk_data pk @ bytes_left as' \<and>
    pk_length pk = dtoh32ap P (take 4 hdr) \<and> pk_type pk = dtoh32ap P (drop 4 hdr) \<and>
    int (length (pk_data pk)) = sint (pk_length pk - 8)"
proof -
  from assms obtain hdr as1 where h: "recv_all 8 [] as = (Some hdr, as1)"
    by (auto simp: ptp_ptpip_generic_read_def split: prod.splits option.splits)
  with assms obtain dat where d: "recv_all (nat (sint (dtoh32ap P (take 4 hdr) - 8))) [] as1 = (Some dat, as')"
    and pk: "pk = \<lparr>pk_length = dtoh32ap P (take 4 hdr), pk_type = dtoh32ap P (drop 4 hdr), pk_data = dat\<rparr>"
    and nn: "\<not> sint (dtoh32ap P (take 4 hdr) - 8) < 0"
    by (auto simp: ptp_ptpip_generic_read_def Let_def split: prod.splits option.splits if_splits)
  from recv_all_takes [OF h] recv_all_takes [OF d] nn show ?thesis
    by (intro exI [of _ hdr]) (auto simp: pk)
qed

lemma cmd_read_takes:
  assumes "ptp_ptpip_cmd_read P i = (Some pk, i')"
  shows "length (bytes_left (rx (cmd (io_dev i')))) + 8 \<le> length (bytes_left (rx (cmd (io_dev i))))"
proof -
  obtain r as where g: "ptp_ptpip_generic_read P (rx (cmd (io_dev i))) = (r, as)" by fastforce
  with assms have "r = Some pk" "rx (cmd (io_dev i')) = as" by (auto simp: ptp_ptpip_cmd_read_def)
  with generic_read_takes [of P "rx (cmd (io_dev i))" pk as] g show ?thesis by auto
qed

lemma evt_read_takes:
  assumes "ptp_ptpip_evt_read P i = (Some pk, i')"
  shows "length (bytes_left (rx (evt (io_dev i')))) + 8 \<le> length (bytes_left (rx (evt (io_dev i))))"
proof -
  obtain r as where g: "ptp_ptpip_generic_read P (rx (evt (io_dev i))) = (r, as)" by fastforce
  with assms have "r = Some pk" "rx (evt (io_dev i')) = as" by (auto simp: ptp_ptpip_evt_read_def)
  with generic_read_takes [of P "rx (evt (io_dev i))" pk as] g show ?thesis by auto
qed

text \<open>
  The loop of \<open>ptp_ptpip_getdata\<close>. The length of the payload is computed in 32 bits, so a
  packet shorter than its fields gets a huge one. The two branches for data packets are
  the same; a packet of another type is logged and skipped.
\<close>

function get_blocks ::
  "ptp_params \<Rightarrow> nat \<Rightarrow> nat \<Rightarrow> mem_handler \<Rightarrow> net ptp_io \<Rightarrow> (u16 \<times> mem_handler \<times> net ptp_io) option" where
  "get_blocks P toread curread h i =
     (if curread < toread then
        (case ptp_ptpip_cmd_read P i of
           (None, i') \<Rightarrow> Some (PTP_RC_GeneralError, h, i')
         | (Some pk, i') \<Rightarrow>
             if pk_type pk = PTPIP_END_DATA_PACKET \<or> pk_type pk = PTPIP_DATA_PACKET then
               (let datalen = unat (pk_length pk - 8 - 4) in
                if datalen > toread - curread then Some (PTP_RC_GeneralError, h, i')
                else (case rd (pk_data pk) 4 datalen of
                        None \<Rightarrow> None
                      | Some bs \<Rightarrow> get_blocks P toread (curread + datalen) (snd (memory_putfunc h bs)) i'))
             else get_blocks P toread curread h i')
      else Some (PTP_RC_OK, h, i))"
  by pat_completeness auto
termination
  by (relation "measure (\<lambda>(P, toread, curread, h, i). length (bytes_left (rx (cmd (io_dev i)))))")
    (auto dest!: cmd_read_takes [OF sym])

declare get_blocks.simps [simp del]

text \<open>
  A response in place of the data is an error; the message about it reads a code behind the
  fields of a response without parameters.
\<close>

definition ptp_ptpip_getdata ::
  "ptp_params \<Rightarrow> net ptp_io \<Rightarrow> ptp_container \<Rightarrow> mem_handler \<Rightarrow> (u16 \<times> mem_handler \<times> net ptp_io) option" where
  "ptp_ptpip_getdata P i ptp h =
     (case ptp_ptpip_cmd_read P i of
        (None, i') \<Rightarrow> Some (PTP_RC_GeneralError, h, i')
      | (Some pk, i') \<Rightarrow>
          if pk_type pk = PTPIP_CMD_RESPONSE then
            (if log_errors (io_dev i) \<and> dtoh32a P (pk_data pk) 8 = None then None
             else Some (PTP_RC_GeneralError, h, i'))
          else if pk_type pk \<noteq> PTPIP_START_DATA_PACKET then Some (PTP_RC_GeneralError, h, i')
          else do {
            toread \<leftarrow> dtoh32a P (pk_data pk) 4;
            get_blocks P (unat toread) 0 h i' })"

section \<open>Responses and events\<close>

text \<open>
  The number of parameters, from the length in unsigned 64 bits; the fields are read from
  the last one down.
\<close>

definition packet_nparam :: "packet \<Rightarrow> int" where
  "packet_nparam pk = sint (ucast ((ucast (pk_length pk) - 8 - 6 :: u64) div 4) :: u32)"

fun read_params :: "ptp_params \<Rightarrow> byte list \<Rightarrow> nat \<Rightarrow> ptp_container \<Rightarrow> ptp_container option" where
  "read_params P dat 0 c = Some c"
| "read_params P dat (Suc n) c = do {
     v \<leftarrow> dtoh32a P dat (6 + 4 * n);
     read_params P dat n (set_param n v c) }"

definition packet_fields :: "ptp_params \<Rightarrow> nat \<Rightarrow> packet \<Rightarrow> ptp_container \<Rightarrow> ptp_container option" where
  "packet_fields P most pk c = do {
     code \<leftarrow> dtoh16a P (pk_data pk) 0;
     tid \<leftarrow> dtoh32a P (pk_data pk) 2;
     let c' = c\<lparr>Code := code, Transaction_ID := tid\<rparr>;
     (if 0 \<le> packet_nparam pk \<and> packet_nparam pk \<le> int most
      then read_params P (pk_data pk) (nat (packet_nparam pk)) c' else Some c') }"

definition ptp_ptpip_getresp ::
  "ptp_params \<Rightarrow> net ptp_io \<Rightarrow> ptp_container \<Rightarrow> (u16 \<times> ptp_container \<times> net ptp_io) option" where
  "ptp_ptpip_getresp P i resp =
     (case ptp_ptpip_cmd_read P i of
        (None, i') \<Rightarrow> Some (PTP_RC_GeneralError, resp, i')
      | (Some pk, i') \<Rightarrow> do {
          resp' \<leftarrow> packet_fields P 5 pk resp;
          Some (PTP_RC_OK, resp', i') })"

text \<open>
  \<open>fast\<close> is \<open>PTP_EVENT_CHECK_FAST\<close>: \<open>select\<close> is asked first whether there is anything to
  read, and its answers are the list \<open>readable\<close>.
\<close>

definition select_evt :: "net ptp_io \<Rightarrow> bool \<times> net ptp_io" where
  "select_evt i =
     (case readable (io_dev i) of
        [] \<Rightarrow> (True, i)
      | b # bs \<Rightarrow> (b, i\<lparr>io_dev := (io_dev i)\<lparr>readable := bs\<rparr>\<rparr>))"

lemma select_evt_keeps: "(go, i') = select_evt i \<Longrightarrow> evt (io_dev i') = evt (io_dev i)"
  by (auto simp: select_evt_def split: list.splits)

function ptp_ptpip_event ::
  "ptp_params \<Rightarrow> net ptp_io \<Rightarrow> ptp_container \<Rightarrow> bool \<Rightarrow> (u16 \<times> ptp_container \<times> net ptp_io) option" where
  "ptp_ptpip_event P i event fast =
     (let (go, i1) = (if fast then select_evt i else (True, i)) in
      if \<not> go then Some (PTP_RC_OK, event, i1)
      else (case ptp_ptpip_evt_read P i1 of
              (None, i2) \<Rightarrow> Some (PTP_RC_GeneralError, event, i2)
            | (Some pk, i2) \<Rightarrow>
                if pk_type pk = PTPIP_EVENT then do {
                  event' \<leftarrow> packet_fields P 3 pk event;
                  Some (PTP_RC_OK, event', i2) }
                else ptp_ptpip_event P i2 event fast))"
  by pat_completeness auto
termination
  by (relation "measure (\<lambda>(P, i, event, fast). length (bytes_left (rx (evt (io_dev i)))))")
    (auto split: if_splits dest!: evt_read_takes [OF sym] dest: select_evt_keeps)

declare ptp_ptpip_event.simps [simp del]

definition ptp_ptpip_event_check ::
  "ptp_params \<Rightarrow> net ptp_io \<Rightarrow> ptp_container \<Rightarrow> (u16 \<times> ptp_container \<times> net ptp_io) option" where
  "ptp_ptpip_event_check P i event = ptp_ptpip_event P i event True"

definition ptp_ptpip_event_wait ::
  "ptp_params \<Rightarrow> net ptp_io \<Rightarrow> ptp_container \<Rightarrow> (u16 \<times> ptp_container \<times> net ptp_io) option" where
  "ptp_ptpip_event_wait P i event = ptp_ptpip_event P i event False"

section \<open>Opening the connection\<close>

definition command_request :: "ptp_params \<Rightarrow> byte list" where
  "command_request P = htod32ap P 24 @ htod32ap P PTPIP_INIT_COMMAND_REQUEST @ replicate 16 0"

definition ptp_ptpip_init_command_request :: "ptp_params \<Rightarrow> net ptp_io \<Rightarrow> bool \<times> net ptp_io" where
  "ptp_ptpip_init_command_request P i =
     (let (r, i') = send_cmd (command_request P) i in (r = 24, i'))"

text \<open>\<open>None\<close> in the option: the index of the event pipe is read behind the data.\<close>

definition ptp_ptpip_init_command_ack :: "ptp_params \<Rightarrow> net ptp_io \<Rightarrow> (bool \<times> net ptp_io) option" where
  "ptp_ptpip_init_command_ack P i =
     (case ptp_ptpip_cmd_read P i of
        (None, i') \<Rightarrow> Some (False, i')
      | (Some pk, i') \<Rightarrow>
          if pk_type pk \<noteq> PTPIP_INIT_COMMAND_ACK then Some (False, i')
          else do {
            pipe \<leftarrow> dtoh32a P (pk_data pk) 0;
            Some (True, i'\<lparr>io_dev := (io_dev i')\<lparr>eventpipeid := pipe\<rparr>\<rparr>) })"

definition event_request :: "ptp_params \<Rightarrow> u32 \<Rightarrow> byte list" where
  "event_request P pipe = htod32ap P 12 @ htod32ap P PTPIP_INIT_EVENT_REQUEST @ htod32ap P pipe"

definition ptp_ptpip_init_event_request :: "ptp_params \<Rightarrow> net ptp_io \<Rightarrow> bool \<times> net ptp_io" where
  "ptp_ptpip_init_event_request P i =
     (let (r, s) = sock_send (event_request P (eventpipeid (io_dev i))) (evt (io_dev i))
      in (r = 12, i\<lparr>io_dev := (io_dev i)\<lparr>evt := s\<rparr>\<rparr>))"

definition ptp_ptpip_init_event_ack :: "ptp_params \<Rightarrow> net ptp_io \<Rightarrow> bool \<times> net ptp_io" where
  "ptp_ptpip_init_event_ack P i =
     (case ptp_ptpip_evt_read P i of
        (None, i') \<Rightarrow> (False, i')
      | (Some pk, i') \<Rightarrow> (pk_type pk = PTPIP_INIT_EVENT_ACK, i'))"

text \<open>
  \<open>opened\<close> says whether both sockets could be created and connected. \<open>False\<close> is -1, with both
  sockets closed.
\<close>

definition VitaMTP_PTPIP_Connect :: "bool \<Rightarrow> ptp_params \<Rightarrow> net ptp_io \<Rightarrow> (bool \<times> net ptp_io) option" where
  "VitaMTP_PTPIP_Connect opened P i =
     (if \<not> opened then Some (False, i)
      else (case ptp_ptpip_init_command_request P i of
        (ok1, i1) \<Rightarrow>
          if \<not> ok1 then Some (False, i1)
          else do {
            (ok2, i2) \<leftarrow> ptp_ptpip_init_command_ack P i1;
            (if \<not> ok2 then Some (False, i2)
             else (case ptp_ptpip_init_event_request P i2 of
               (ok3, i3) \<Rightarrow>
                 if \<not> ok3 then Some (False, i3)
                 else Some (ptp_ptpip_init_event_ack P i3))) }))"

text \<open>The transport functions that \<open>VitaMTP_Data_Connect\<close> installs; a cancel function is not set.\<close>

definition ptpip_funs :: "ptp_params \<Rightarrow> net io_funs" where
  "ptpip_funs P = \<lparr>sendreq_func = ptp_ptpip_sendreq P, senddata_func = ptp_ptpip_senddata P,
     getdata_func = ptp_ptpip_getdata P, getresp_func = (\<lambda>_. ptp_ptpip_getresp P),
     event_wait = (\<lambda>_. ptp_ptpip_event_wait P), cancelreq_func = (\<lambda>_ _. None)\<rparr>"

type_synonym conversion = "byte list \<Rightarrow> byte list option"

definition VitaMTP_Data_Connect ::
  "conversion option \<Rightarrow> conversion option \<Rightarrow> bool \<Rightarrow> net \<Rightarrow> net ptp_session option option" where
  "VitaMTP_Data_Connect to_ucs2 from_ucs2 opened dev =
     (let P = \<lparr>byteorder = PTP_DL_LE, cd_locale_to_ucs2 = to_ucs2, cd_ucs2_to_locale = from_ucs2\<rparr>;
          i0 = \<lparr>response_packet = [], split_header_data = False, io_dev = dev\<rparr> in
      if to_ucs2 = None \<or> from_ucs2 = None then Some None
      else do {
        (ok, i1) \<leftarrow> VitaMTP_PTPIP_Connect opened P i0;
        (if \<not> ok then Some None
         else do {
           (ret, s) \<leftarrow> ptp_opensession (ptpip_funs P)
             \<lparr>params = P, transaction_id = 0, session_id = 0, io = i1\<rparr> 1;
           Some (if ret \<noteq> PTP_RC_OK then None else Some s) }) })"

end
