(* ===== verification/Wireless.thy ===== *)
theory Wireless
  imports Ptpip Datautils
begin

text \<open>
  Finding and registering a device over the network (\<open>src/src/wireless.c\<close>): the broadcast of
  the host, and the server that answers the requests of a device until it is ready to be
  connected. A request is text in a buffer of exactly the bytes received; what the C
  library reads as a string needs a NUL among them. Descriptors can always be switched
  between blocking and not.
\<close>

section \<open>Reading and writing\<close>

datatype received = Got "byte list" | Would_block | Recv_error

fun recv_now :: "nat \<Rightarrow> arrival list \<Rightarrow> received \<times> arrival list" where
  "recv_now n [] = (Got [], [])"
| "recv_now n (Pause # rest) = (Would_block, rest)"
| "recv_now n (Failure # rest) = (Recv_error, rest)"
| "recv_now n (Seg bs # rest) =
     (if bs = [] then recv_now n rest
      else (Got (take n bs), if n < length bs then Seg (drop n bs) # rest else rest))"

lemma recv_now_length:
  "recv_now n as = (Got bs, as') \<Longrightarrow> length bs \<le> n \<and> bytes_left as = bs @ bytes_left as'"
  by (induction n as rule: recv_now.induct) (auto split: if_splits)

definition REQUEST_BUFFER_SIZE :: nat where "REQUEST_BUFFER_SIZE = 100"

function read_more :: "byte list \<Rightarrow> arrival list \<Rightarrow> byte list option \<times> arrival list" where
  "read_more got as =
     (case recv_now REQUEST_BUFFER_SIZE as of
        (Got c, as') \<Rightarrow> if c = [] then (Some got, as') else read_more (got @ c) as'
      | (Would_block, as') \<Rightarrow> (Some got, as')
      | (Recv_error, as') \<Rightarrow> (None, as'))"
  by pat_completeness auto
termination
  by (relation "measure (\<lambda>(got, as). length (bytes_left as))") (auto dest!: recv_now_length [OF sym])

declare read_more.simps [simp del]

text \<open>\<open>None\<close> is -1.\<close>

definition VitaMTP_Sock_Read_All :: "arrival list \<Rightarrow> byte list option \<times> arrival list" where
  "VitaMTP_Sock_Read_All as =
     (case recv_blocking REQUEST_BUFFER_SIZE as of
        (None, as') \<Rightarrow> (None, as')
      | (Some c, as') \<Rightarrow> if c = [] then (Some [], as') else read_more c as')"

function VitaMTP_Sock_Write_All :: "byte list \<Rightarrow> sock \<Rightarrow> bool \<times> sock" where
  "VitaMTP_Sock_Write_All bs s =
     (case sock_send bs s of
        (clen, s') \<Rightarrow>
          if clen = int (length bs) then (True, s')
          else if clen < 0 then (False, s')
          else VitaMTP_Sock_Write_All (drop (nat clen) bs) s')"
  by pat_completeness auto
termination
  by (relation "measure (\<lambda>(bs, s). length (plan s))") (auto simp: sock_send_def split: list.splits if_splits)

declare VitaMTP_Sock_Write_All.simps [simp del]

section \<open>Text\<close>

definition is_eol :: "byte \<Rightarrow> bool" where
  "is_eol b \<longleftrightarrow> b = 13 \<or> b = 10"

text \<open>What \<open>strtok\<close> returns one after the other for the delimiters CR and LF.\<close>

function lines_of :: "byte list \<Rightarrow> byte list list" where
  "lines_of s =
     (let s' = dropWhile is_eol s in
      if s' = [] then [] else takeWhile (Not \<circ> is_eol) s' # lines_of (dropWhile (Not \<circ> is_eol) s'))"
  by pat_completeness auto
termination
proof (relation "measure length", goal_cases)
  case (2 s x)
  then have "dropWhile is_eol s \<noteq> []" by simp
  then obtain b bs where b: "dropWhile is_eol s = b # bs" "\<not> is_eol b"
    by (metis hd_dropWhile list.collapse list.sel(1))
  then have "length (b # bs) \<le> length s" using length_dropWhile_le [of is_eol s] by simp
  moreover have "length (dropWhile (Not \<circ> is_eol) bs) \<le> length bs" by (rule length_dropWhile_le)
  ultimately show ?case using b 2 by simp
qed simp

declare lines_of.simps [simp del]

fun strip :: "byte list \<Rightarrow> byte list \<Rightarrow> byte list option" where
  "strip [] s = Some s"
| "strip (c # cs) [] = None"
| "strip (c # cs) (b # bs) = (if c = b then strip cs bs else None)"

definition skip_space :: "byte list \<Rightarrow> byte list" where
  "skip_space s = dropWhile c_isspace s"

text \<open>The conversion \<open>%ns\<close>: the word and the rest.\<close>

definition scan_word :: "nat \<Rightarrow> byte list \<Rightarrow> byte list \<times> byte list" where
  "scan_word n s =
     (let s' = skip_space s; w = take n (takeWhile (Not \<circ> c_isspace) s') in (w, drop (length w) s'))"

text \<open>
  \<open>"%20s * HTTP/1.1\r\n%n"\<close>: the method, and the offset behind the line when it matches. A
  method of twenty characters does not fit the array of twenty: \<open>None\<close>.
\<close>

definition scan_request :: "byte list \<Rightarrow> (byte list \<times> nat option) option" where
  "scan_request s =
     (let (w, rest) = scan_word 20 s in
      if 20 \<le> length w then None
      else Some (w,
        do { r1 \<leftarrow> strip (bytes_of ''*'') (skip_space rest);
             r2 \<leftarrow> strip (bytes_of ''HTTP/1.1'') (skip_space r1);
             Some (length s - length (skip_space r2)) }))"

definition int_range :: "int \<Rightarrow> bool" where
  "int_range k \<longleftrightarrow> - (2 ^ 31) \<le> k \<and> k < 2 ^ 31"

definition starts_number :: "byte list \<Rightarrow> bool" where
  "starts_number s \<longleftrightarrow>
     (case skip_space s of
        [] \<Rightarrow> False
      | c # cs \<Rightarrow> c_isdigit c \<or> ((c = 0x2D \<or> c = 0x2B) \<and> cs \<noteq> [] \<and> c_isdigit (hd cs)))"

text \<open>
  \<open>"device-id:%32s\r\ndevice-port:%d\r\n"\<close>: what is assigned. \<open>None\<close>: a port that is not an
  \<open>int\<close>.
\<close>

definition scan_connect :: "byte list \<Rightarrow> (byte list option \<times> int option) option" where
  "scan_connect s =
     (case strip (bytes_of ''device-id:'') s of
        None \<Rightarrow> Some (None, None)
      | Some r \<Rightarrow>
          (let (w, r1) = scan_word 32 r in
           if w = [] then Some (None, None)
           else (case strip (bytes_of ''device-port:'') (skip_space r1) of
             None \<Rightarrow> Some (Some w, None)
           | Some r2 \<Rightarrow>
               if \<not> starts_number r2 then Some (Some w, None)
               else if int_range (atoi r2) then Some (Some w, Some (atoi r2)) else None)))"

section \<open>The headers of a request\<close>

text \<open>\<open>None\<close> is a pointer that was not set.\<close>

record wireless_vita_info =
  wi_deviceid :: "byte list option"
  wi_type :: "byte list option"
  wi_mac_addr :: "byte list option"
  wi_name :: "byte list option"
  wi_host :: "byte list option"
  wi_pin :: "byte list option"

definition no_info :: wireless_vita_info where
  "no_info = \<lparr>wi_deviceid = None, wi_type = None, wi_mac_addr = None, wi_name = None, wi_host = None, wi_pin = None\<rparr>"

definition parse_header :: "byte list \<Rightarrow> wireless_vita_info \<Rightarrow> wireless_vita_info" where
  "parse_header line info =
     (case strip (bytes_of ''host-id:'') line of Some v \<Rightarrow> info\<lparr>wi_host := Some v\<rparr> | None \<Rightarrow>
      case strip (bytes_of ''device-id:'') line of Some v \<Rightarrow> info\<lparr>wi_deviceid := Some v\<rparr> | None \<Rightarrow>
      case strip (bytes_of ''device-type:'') line of Some v \<Rightarrow> info\<lparr>wi_type := Some v\<rparr> | None \<Rightarrow>
      case strip (bytes_of ''device-mac-address:'') line of Some v \<Rightarrow> info\<lparr>wi_mac_addr := Some v\<rparr> | None \<Rightarrow>
      case strip (bytes_of ''device-name:'') line of Some v \<Rightarrow> info\<lparr>wi_name := Some v\<rparr> | None \<Rightarrow>
      case strip (bytes_of ''pin-code:'') line of Some v \<Rightarrow> info\<lparr>wi_pin := Some v\<rparr> | None \<Rightarrow> info)"

definition VitaMTP_Parse_Device_Headers :: "byte list \<Rightarrow> wireless_vita_info \<Rightarrow> wireless_vita_info" where
  "VitaMTP_Parse_Device_Headers text info = fold parse_header (lines_of text) info"

section \<open>The requests of a device\<close>

text \<open>
  What the loops of \<open>VitaMTP_Get_Wireless_Device\<close> remember. \<open>pa_read\<close> is the offset of the
  headers, which keeps its value from an earlier request; \<open>pa_asked\<close> counts the calls of the
  callback that makes a PIN.
\<close>

record pairing =
  pa_guid :: "byte list"
  pa_registered :: bool
  pa_port :: int
  pa_addr :: u32
  pa_pin :: int
  pa_read :: "nat option"
  pa_listen :: bool
  pa_asked :: nat

definition pairing_zero :: pairing where
  "pairing_zero = \<lparr>pa_guid = [], pa_registered = False, pa_port = 0, pa_addr = 0, pa_pin = -1, pa_read = None,
     pa_listen = True, pa_asked = 0\<rparr>"

text \<open>
  The callbacks: whether a device is known, and the PIN or a negative number and an error code.
  A callback may follow a pointer of the information that was not set.
\<close>

record callbacks =
  is_registered :: "byte list \<Rightarrow> bool"
  create_register_pin :: "nat \<Rightarrow> wireless_vita_info \<Rightarrow> (int \<times> int) option"

text \<open>
  How a request ends: with a response still to be sent, without one, or with the end of
  listening.
\<close>

datatype answer = Respond "byte list" | Go_on | Stop_listening

definition line_of :: "string \<Rightarrow> byte list" where
  "line_of s = bytes_of s @ [13, 10]"

definition answer_connect :: "callbacks \<Rightarrow> byte list \<Rightarrow> pairing \<Rightarrow> (answer \<times> pairing) option" where
  "answer_connect C text st = do {
     (guid, port) \<leftarrow> scan_connect text;
     let st1 = (case guid of None \<Rightarrow> st | Some g \<Rightarrow> st\<lparr>pa_guid := g\<rparr>);
     (case port of
        None \<Rightarrow> Some (Stop_listening, st1)
      | Some k \<Rightarrow>
          Some (Respond (line_of (if pa_registered st1 \<or> is_registered C (pa_guid st1)
                                  then ''HTTP/1.1 210 OK'' else ''HTTP/1.1 605 NG'')),
                st1\<lparr>pa_port := k\<rparr>)) }"

definition cancel_text :: "int \<Rightarrow> byte list" where
  "cancel_text err = line_of ''REGISTERCANCEL * HTTP/1.1'' @ line_of (''errorcode:'' @ show_int err)"

text \<open>The first response of \<open>SHOWPIN\<close> is sent at once; \<open>sent\<close> says with what success.\<close>

definition answer_showpin ::
  "callbacks \<Rightarrow> byte list \<Rightarrow> pairing \<Rightarrow> sock \<Rightarrow> (answer \<times> pairing \<times> sock) option" where
  "answer_showpin C text st s =
     (let info = VitaMTP_Parse_Device_Headers text no_info in do {
        id \<leftarrow> wi_deviceid info;
        let st1 = st\<lparr>pa_guid := take 32 id\<rparr>;
        (case VitaMTP_Sock_Write_All (line_of ''HTTP/1.1 200 OK'' @ [0]) s of
           (sent, s') \<Rightarrow>
             if \<not> sent then Some (Stop_listening, st1, s')
             else do {
               (pin, err) \<leftarrow> create_register_pin C (pa_asked st) info;
               Some (if pin < 0 then Respond (cancel_text err) else Go_on,
                     st1\<lparr>pa_pin := pin, pa_asked := pa_asked st + 1\<rparr>, s') }) })"

definition answer_register :: "byte list \<Rightarrow> pairing \<Rightarrow> (answer \<times> pairing) option" where
  "answer_register text st =
     (let info = VitaMTP_Parse_Device_Headers text no_info; bad = Respond (line_of ''HTTP/1.1 610 NG'') in do {
        id \<leftarrow> wi_deviceid info;
        (if pa_guid st \<noteq> id then Some (bad, st)
         else if pa_pin st < 0 then Some (bad, st)
         else do {
           try \<leftarrow> wi_pin info;
           (if \<not> int_range (atoi try) then None
            else if pa_pin st \<noteq> atoi try then Some (bad, st)
            else Some (Respond (line_of ''HTTP/1.1 200 OK''), st\<lparr>pa_registered := True\<rparr>)) }) })"

definition handle_request ::
  "callbacks \<Rightarrow> u32 \<Rightarrow> byte list \<Rightarrow> pairing \<Rightarrow> sock \<Rightarrow> (answer \<times> pairing \<times> sock) option" where
  "handle_request C addr dat st s = do {
     text \<leftarrow> string_at dat 0;
     (method, pos) \<leftarrow> scan_request text;
     let st1 = (case pos of None \<Rightarrow> st | Some n \<Rightarrow> st\<lparr>pa_read := Some n\<rparr>);
     (if method = [] then Some (Stop_listening, st1, s)
      else if method = bytes_of ''CONNECT'' then do {
        n \<leftarrow> pa_read st1; hs \<leftarrow> string_at dat n;
        (a, st2) \<leftarrow> answer_connect C hs st1;
        Some (a, st2, s) }
      else if method = bytes_of ''SHOWPIN'' then do {
        n \<leftarrow> pa_read st1; hs \<leftarrow> string_at dat n;
        answer_showpin C hs st1 s }
      else if method = bytes_of ''REGISTER'' then do {
        n \<leftarrow> pa_read st1; hs \<leftarrow> string_at dat n;
        (a, st2) \<leftarrow> answer_register hs st1;
        Some (a, st2, s) }
      else if method = bytes_of ''STANDBY'' then Some (Go_on, st1\<lparr>pa_listen := False, pa_addr := addr\<rparr>, s)
      else Some (Go_on, st1, s)) }"

section \<open>Connections\<close>

lemma recv_blocking_bytes:
  "recv_blocking n as = (Some c, as') \<Longrightarrow> length (bytes_left as') + length c = length (bytes_left as)"
  using recv_blocking_length by fastforce

lemma read_more_bytes:
  "read_more got as = (Some d, as') \<Longrightarrow> length (bytes_left as') + length d = length (bytes_left as) + length got"
proof (induction got as rule: read_more.induct)
  case (1 got as)
  obtain r as1 where r: "recv_now REQUEST_BUFFER_SIZE as = (r, as1)" by fastforce
  show ?case
  proof (cases r)
    case (Got c)
    with r 1(2) have "c \<noteq> [] \<Longrightarrow> read_more (got @ c) as1 = (Some d, as')"
      and e: "c = [] \<Longrightarrow> d = got \<and> as' = as1"
      by (auto simp: read_more.simps [of got])
    with 1(1) [OF r [symmetric] Got] recv_now_length [of REQUEST_BUFFER_SIZE as c as1] r Got show ?thesis
      by (cases "c = []") auto
  next
    case Would_block
    then have "bytes_left as1 = bytes_left as"
      using r by (induction "REQUEST_BUFFER_SIZE" as rule: recv_now.induct) (auto split: if_splits)
    with r 1(2) Would_block show ?thesis by (auto simp: read_more.simps [of got])
  qed (use r 1(2) in \<open>auto simp: read_more.simps [of got]\<close>)
qed

lemma read_all_bytes:
  "VitaMTP_Sock_Read_All as = (Some d, as') \<Longrightarrow> length (bytes_left as') + length d = length (bytes_left as)"
  by (auto simp: VitaMTP_Sock_Read_All_def split: prod.splits option.splits if_splits
      dest!: recv_blocking_bytes read_more_bytes)

lemma write_all_rx: "VitaMTP_Sock_Write_All bs s = (ok, s') \<Longrightarrow> rx s' = rx s"
proof (induction bs s rule: VitaMTP_Sock_Write_All.induct)
  case (1 bs s)
  obtain k s1 where s1: "sock_send bs s = (k, s1)" by fastforce
  then have "rx s1 = rx s" by (auto simp: sock_send_def split: list.splits if_splits)
  with 1 s1 show ?case by (subst (asm) (2) VitaMTP_Sock_Write_All.simps) (auto split: if_splits)
qed

lemma answer_showpin_rx: "answer_showpin C text st s = Some (a, st', s') \<Longrightarrow> rx s' = rx s"
proof -
  assume r: "answer_showpin C text st s = Some (a, st', s')"
  obtain sent s1 where w: "VitaMTP_Sock_Write_All (line_of ''HTTP/1.1 200 OK'' @ [0]) s = (sent, s1)" by fastforce
  with r have "s' = s1" by (auto simp: answer_showpin_def Let_def bind_eq_Some_conv split: if_splits)
  with write_all_rx [OF w] show ?thesis by simp
qed

lemma handle_request_rx: "handle_request C addr dat st s = Some (a, st', s') \<Longrightarrow> rx s' = rx s"
  by (auto simp: handle_request_def Let_def bind_eq_Some_conv split: if_splits dest: answer_showpin_rx)

lemma request_shrinks:
  assumes "(Some d, as) = VitaMTP_Sock_Read_All (rx s)" and "d \<noteq> []"
    and "handle_request C addr d st (s\<lparr>rx := as\<rparr>) = Some (a, st', s')"
  shows "length (bytes_left (rx s')) < length (bytes_left (rx s))"
  using read_all_bytes [OF assms(1) [symmetric]] handle_request_rx [OF assms(3)] assms(2)
  by (cases d) auto

text \<open>The variable \<open>data\<close>: NULL, a block, or a pointer to a block that was freed.\<close>

datatype buffer = Null | Live | Freed

text \<open>
  The loop over the requests of one connection. When reading fails, \<open>data\<close> keeps what it was;
  at the end of the connection it is NULL.
\<close>

function serve_client ::
  "callbacks \<Rightarrow> u32 \<Rightarrow> buffer \<Rightarrow> pairing \<Rightarrow> sock \<Rightarrow> (buffer \<times> pairing \<times> sock) option" where
  "serve_client C addr buf st s =
     (case VitaMTP_Sock_Read_All (rx s) of
        (None, as) \<Rightarrow> Some (buf, st\<lparr>pa_listen := False\<rparr>, s\<lparr>rx := as\<rparr>)
      | (Some d, as) \<Rightarrow>
          if d = [] then Some (Null, st\<lparr>pa_pin := -1\<rparr>, s\<lparr>rx := as\<rparr>)
          else (case handle_request C addr d st (s\<lparr>rx := as\<rparr>) of
            None \<Rightarrow> None
          | Some (Stop_listening, st', s2) \<Rightarrow> Some (Live, st'\<lparr>pa_listen := False\<rparr>, s2)
          | Some (Go_on, st', s2) \<Rightarrow> serve_client C addr Freed st' s2
          | Some (Respond r, st', s2) \<Rightarrow>
              (case VitaMTP_Sock_Write_All (r @ [0]) s2 of
                 (sent, s3) \<Rightarrow> if sent then serve_client C addr Freed st' s3
                               else Some (Live, st'\<lparr>pa_listen := False\<rparr>, s3))))"
  by pat_completeness auto
termination
  by (relation "measure (\<lambda>(C, addr, buf, st, s). length (bytes_left (rx s)))")
    (auto dest: request_shrinks dest!: write_all_rx [OF sym])

declare serve_client.simps [simp del]

text \<open>
  The loop over the connections, which are accepted in order; the list ends when waiting for
  another one fails or times out.
\<close>

fun serve_clients :: "callbacks \<Rightarrow> buffer \<Rightarrow> pairing \<Rightarrow> (u32 \<times> sock) list \<Rightarrow> (buffer \<times> pairing) option" where
  "serve_clients C buf st [] = Some (buf, st)"
| "serve_clients C buf st ((addr, s) # conns) =
     (if \<not> pa_listen st then Some (buf, st)
      else do {
        (buf', st', _) \<leftarrow> serve_client C addr buf st s;
        serve_clients C buf' st' conns })"

text \<open>The device found, and the session with it: \<open>None\<close> there is -1.\<close>

definition VitaMTP_Get_Wireless_Device ::
  "callbacks \<Rightarrow> (u32 \<times> sock) list \<Rightarrow> conversion option \<Rightarrow> conversion option \<Rightarrow> bool \<Rightarrow> net \<Rightarrow>
     (net ptp_session option \<times> pairing) option" where
  "VitaMTP_Get_Wireless_Device C conns to_ucs2 from_ucs2 opened dev = do {
     (buf, st) \<leftarrow> serve_clients C Null pairing_zero conns;
     (if buf = Freed then None
      else if pa_addr st > 0 then do {
        sess \<leftarrow> VitaMTP_Data_Connect to_ucs2 from_ucs2 opened dev;
        Some (sess, st) }
      else Some (None, st)) }"

section \<open>The callbacks of OpenCMA\<close>

definition device_registered :: "byte list \<Rightarrow> bool" where
  "device_registered deviceid = True"

definition generate_pin :: "(nat \<Rightarrow> nat) \<Rightarrow> nat \<Rightarrow> wireless_vita_info \<Rightarrow> (int \<times> int) option" where
  "generate_pin rand k info = do {
     _ \<leftarrow> wi_name info;
     Some (int (rand k mod 100000000), 0) }"

section \<open>The broadcast\<close>

record wireless_host_info =
  hi_guid :: string
  hi_type :: string
  hi_name :: string
  hi_port :: int

definition VITAMTP_WIRELESS_MAX_VERSION :: int where "VITAMTP_WIRELESS_MAX_VERSION = 1000000"
definition VITAMTP_PROTOCOL_MAX_VERSION :: int where "VITAMTP_PROTOCOL_MAX_VERSION = 1500010"

definition host_response :: "wireless_host_info \<Rightarrow> byte list" where
  "host_response hi =
     line_of ''HTTP/1.1 200 OK'' @ line_of (''host-id:'' @ hi_guid hi) @ line_of (''host-type:'' @ hi_type hi) @
     line_of (''host-name:'' @ hi_name hi) @
     line_of (''host-mtp-protocol-version:'' @ show_padded 8 VITAMTP_PROTOCOL_MAX_VERSION) @
     line_of (''host-request-port:'' @ show_int (hi_port hi)) @
     line_of (''host-wireless-protocol-version:'' @ show_padded 8 VITAMTP_WIRELESS_MAX_VERSION)"

text \<open>
  One turn of the loop of \<open>VitaMTP_Broadcast_Host\<close>: what \<open>select\<close> found on the command socket
  (a command, or \<open>None\<close> inside for one that could not be read) and on the broadcast socket
  (the outcome of reading everything, or \<open>None\<close> inside for an error), and whether the
  response could be sent. An uninitialised \<open>data\<close> is a pointer that must not be freed, as
  \<open>Freed\<close> is. \<open>strcmp_at\<close> is the comparison of the received bytes with a literal, which may
  run out of them.
\<close>

record turn =
  tn_command :: "int option option"
  tn_request :: "byte list option option"
  tn_sent :: bool

definition BroadcastStop :: int where "BroadcastStop = 1"

datatype broadcast_end = Running | Stopped | Failed

fun strcmp_at :: "byte list \<Rightarrow> byte list \<Rightarrow> bool option" where
  "strcmp_at [] lit = None"
| "strcmp_at (b # bs) [] = Some (b = 0)"
| "strcmp_at (b # bs) (c # cs) = (if b = c then strcmp_at bs cs else Some False)"

definition broadcast_turn :: "wireless_host_info \<Rightarrow> buffer \<Rightarrow> turn \<Rightarrow> (broadcast_end \<times> byte list list \<times> buffer) option" where
  "broadcast_turn hi buf t =
     (if tn_command t \<noteq> None \<and> (case the (tn_command t) of None \<Rightarrow> True | Some c \<Rightarrow> c = BroadcastStop)
      then (if buf = Freed then None else Some (Stopped, [], Freed))
      else (case tn_request t of
        None \<Rightarrow> Some (Running, [], buf)
      | Some None \<Rightarrow> Some (Failed, [], buf)
      | Some (Some dat) \<Rightarrow>
          if dat = [] then Some (Running, [], Null)
          else do {
            same \<leftarrow> strcmp_at dat (line_of ''SRCH * HTTP/1.1'');
            Some (if \<not> same then (Running, [], Freed)
                  else if \<not> tn_sent t then (Failed, [], Freed)
                  else (Running, [host_response hi @ [0]], Live)) }))"

fun broadcast_loop ::
  "wireless_host_info \<Rightarrow> buffer \<Rightarrow> turn list \<Rightarrow> (broadcast_end \<times> byte list list) option" where
  "broadcast_loop hi buf [] = Some (Running, [])"
| "broadcast_loop hi buf (t # ts) = do {
     (fin, sent, buf') \<leftarrow> broadcast_turn hi buf t;
     (if fin = Running then do {
        (fin', more) \<leftarrow> broadcast_loop hi buf' ts;
        Some (fin', sent @ more) }
      else Some (fin, sent)) }"

definition VitaMTP_Broadcast_Host :: "wireless_host_info \<Rightarrow> turn list \<Rightarrow> (broadcast_end \<times> byte list list) option" where
  "VitaMTP_Broadcast_Host hi ts = broadcast_loop hi Freed ts"

end
