(* ===== verification/Usb.thy ===== *)
theory Usb
  imports Ptp_Ops
begin

text \<open>
  PTP over USB (\<open>src/src/usb.c\<close>): the bulk transfers in blocks, requests, data phases,
  responses and events as containers, and the search for a Vita and its endpoints. What
  libusb does is the parameter \<open>usb_lib\<close>: a transfer gives the result code of the
  library, what was transferred, and the new state of the device handle.
\<close>

section \<open>The library and the device\<close>

text \<open>An interface stands for its first alternate setting.\<close>

record endpoint_descriptor =
  bmAttributes :: byte
  bEndpointAddress :: byte
  wMaxPacketSize :: u16

record interface_descriptor =
  bInterfaceNumber :: byte
  endpoints :: "endpoint_descriptor list"

text \<open>\<open>dev_configs\<close>: for each configuration its interfaces, or \<open>None\<close> when it cannot be read.\<close>

record libusb_device =
  dev_ids :: "(u16 \<times> u16) option"
  dev_configs :: "interface_descriptor list option list"
  dev_serial :: "byte list option"

text \<open>
  \<open>bulk_read\<close> and \<open>bulk_write\<close> are \<open>libusb_bulk_transfer\<close> in the two directions, with the
  endpoint, the length or the bytes, and the timeout.
\<close>

record 'd usb_lib =
  bulk_read :: "byte \<Rightarrow> nat \<Rightarrow> nat \<Rightarrow> 'd \<Rightarrow> int \<times> byte list \<times> 'd"
  bulk_write :: "byte \<Rightarrow> byte list \<Rightarrow> nat \<Rightarrow> 'd \<Rightarrow> int \<times> nat \<times> 'd"
  control_transfer :: "byte list \<Rightarrow> nat \<Rightarrow> 'd \<Rightarrow> int \<times> 'd"
  libusb_open :: "libusb_device \<Rightarrow> 'd option"
  claim_interface :: "byte \<Rightarrow> 'd \<Rightarrow> 'd"
  release_interface :: "byte \<Rightarrow> 'd \<Rightarrow> 'd"

record 'd vita_usb =
  usb_handle :: 'd
  usb_interface :: byte
  inep :: byte
  inep_maxpacket :: nat
  outep :: byte
  outep_maxpacket :: nat
  intep :: byte
  callback_active :: bool
  usb_timeout :: nat
  current_transfer_total :: nat
  current_transfer_complete :: nat
  current_transfer_callback :: "(nat \<Rightarrow> nat \<Rightarrow> int) option"

definition PTP_ERROR_IO :: u16 where "PTP_ERROR_IO = 0x02FF"
definition PTP_ERROR_DATA_EXPECTED :: u16 where "PTP_ERROR_DATA_EXPECTED = 0x02FE"
definition CONTEXT_BLOCK_SIZE_1 :: nat where "CONTEXT_BLOCK_SIZE_1 = 0x3e00"
definition CONTEXT_BLOCK_SIZE_2 :: nat where "CONTEXT_BLOCK_SIZE_2 = 0x200"
definition CONTEXT_BLOCK_SIZE :: nat where "CONTEXT_BLOCK_SIZE = CONTEXT_BLOCK_SIZE_1 + CONTEXT_BLOCK_SIZE_2"

lemmas block_sizes = CONTEXT_BLOCK_SIZE_1_def CONTEXT_BLOCK_SIZE_2_def CONTEXT_BLOCK_SIZE_def

lemma usb_errors_distinct [simp]:
  "PTP_ERROR_IO \<noteq> PTP_RC_OK" "PTP_ERROR_IO \<noteq> PTP_ERROR_CANCEL" "PTP_ERROR_DATA_EXPECTED \<noteq> PTP_RC_OK"
  "PTP_RC_OK \<noteq> PTP_ERROR_IO" "PTP_ERROR_CANCEL \<noteq> PTP_ERROR_IO"
  by (simp_all add: PTP_ERROR_IO_def PTP_ERROR_DATA_EXPECTED_def rc_defs)

section \<open>Bulk transfers\<close>

text \<open>The progress callback after each block; \<open>False\<close> is its request to cancel.\<close>

definition report_progress :: "'d vita_usb \<Rightarrow> bool \<times> 'd vita_usb" where
  "report_progress u =
     (if \<not> callback_active u then (True, u)
      else let u1 = (if current_transfer_total u \<le> current_transfer_complete u
                     then u\<lparr>current_transfer_complete := current_transfer_total u, callback_active := False\<rparr>
                     else u)
           in (case current_transfer_callback u1 of
                 None \<Rightarrow> (True, u1)
               | Some f \<Rightarrow> (f (current_transfer_complete u1) (current_transfer_total u1) = 0, u1)))"

definition next_toread :: "nat \<Rightarrow> nat \<Rightarrow> nat \<Rightarrow> nat" where
  "next_toread n curread toread =
     (if n - curread < CONTEXT_BLOCK_SIZE then n - curread
      else if curread = 0 then CONTEXT_BLOCK_SIZE_1
      else if toread = CONTEXT_BLOCK_SIZE_1 then CONTEXT_BLOCK_SIZE_2
      else if toread = CONTEXT_BLOCK_SIZE_2 then CONTEXT_BLOCK_SIZE_1
      else toread)"

text \<open>
  The loop of \<open>ptp_read_func\<close>; its flag for a terminator byte is never set. \<open>None\<close> is a
  loop that never ends.
\<close>

partial_function (option) read_loop ::
  "'d usb_lib \<Rightarrow> nat \<Rightarrow> nat \<Rightarrow> nat \<Rightarrow> mem_handler \<Rightarrow> 'd vita_usb \<Rightarrow>
     (u16 \<times> nat \<times> mem_handler \<times> 'd vita_usb) option" where
  "read_loop U n curread toread0 h u =
     (if n \<le> curread then Some (PTP_RC_OK, curread, h, u)
      else do {
        let toread = next_toread n curread toread0;
        (ret, bs, d) \<leftarrow> Some (bulk_read U (inep u) toread (usb_timeout u) (usb_handle u));
        (if ret \<noteq> 0 then Some (PTP_ERROR_IO, curread, h, u\<lparr>usb_handle := d\<rparr>)
         else do {
           (rc, h') \<leftarrow> Some (memory_putfunc h bs);
           (if rc \<noteq> PTP_RC_OK then Some (rc, curread, h', u\<lparr>usb_handle := d\<rparr>)
            else do {
              (go_on, u') \<leftarrow> Some (report_progress (u\<lparr>usb_handle := d,
                 current_transfer_complete := current_transfer_complete u + length bs\<rparr>));
              (if \<not> go_on then Some (PTP_ERROR_CANCEL, curread + length bs, h', u')
               else if length bs < toread then Some (PTP_RC_OK, curread + length bs, h', u')
               else read_loop U n (curread + length bs) toread h' u') }) }) })"

text \<open>
  The number of bytes is stored only with \<open>PTP_RC_OK\<close>. The result of reading a zero packet is
  logged and ignored; a packet size of 0 divides by 0.
\<close>

definition ptp_read_func ::
  "'d usb_lib \<Rightarrow> nat \<Rightarrow> mem_handler \<Rightarrow> bool \<Rightarrow> 'd vita_usb \<Rightarrow>
     (u16 \<times> nat \<times> mem_handler \<times> 'd vita_usb) option" where
  "ptp_read_func U n h readzero u = do {
     (rc, curread, h', u') \<leftarrow> read_loop U n 0 0 h u;
     (if rc \<noteq> PTP_RC_OK \<or> \<not> readzero then Some (rc, curread, h', u')
      else if outep_maxpacket u' = 0 then None
      else if curread mod outep_maxpacket u' = 0 then
        Some (rc, curread, h',
          u'\<lparr>usb_handle := snd (snd (bulk_read U (inep u') 0 (usb_timeout u') (usb_handle u')))\<rparr>)
      else Some (rc, curread, h', u')) }"

definition write_size :: "nat \<Rightarrow> nat \<Rightarrow> nat option" where
  "write_size maxpacket rest =
     (if CONTEXT_BLOCK_SIZE < rest then Some CONTEXT_BLOCK_SIZE
      else if maxpacket < rest \<and> maxpacket = 0 then None
      else if maxpacket < rest \<and> rest mod maxpacket \<noteq> 0 then Some (rest - rest mod maxpacket)
      else Some rest)"

text \<open>
  One block: \<open>xwritten\<close> is what the last transfer took, \<open>None\<close> before the first; \<open>curwrite\<close> and
  the total of the transfer grow with every transfer, also before a failure.
\<close>

partial_function (option) write_block ::
  "'d usb_lib \<Rightarrow> byte list \<Rightarrow> nat \<Rightarrow> nat option \<Rightarrow> 'd vita_usb \<Rightarrow> (u16 \<times> nat \<times> nat option \<times> 'd vita_usb) option" where
  "write_block U bs curwrite xwritten u =
     (if bs = [] then Some (PTP_RC_OK, curwrite, xwritten, u)
      else do {
        (ret, k, d) \<leftarrow> Some (bulk_write U (outep u) bs (usb_timeout u) (usb_handle u));
        (if ret \<noteq> 0 then Some (PTP_ERROR_IO, curwrite, Some k, u\<lparr>usb_handle := d\<rparr>)
         else write_block U (drop k bs) (curwrite + k) (Some k)
                (u\<lparr>usb_handle := d, current_transfer_complete := current_transfer_complete u + k\<rparr>)) })"

text \<open>A block the handler has no bytes for compares an uninitialised count: \<open>None\<close>.\<close>

partial_function (option) write_loop ::
  "'d usb_lib \<Rightarrow> nat \<Rightarrow> nat \<Rightarrow> nat \<Rightarrow> mem_handler \<Rightarrow> 'd vita_usb \<Rightarrow>
     (u16 \<times> nat \<times> nat \<times> mem_handler \<times> 'd vita_usb) option" where
  "write_loop U n curwrite towrite0 h u =
     (if n \<le> curwrite then Some (PTP_RC_OK, curwrite, towrite0, h, u)
      else do {
        want \<leftarrow> write_size (outep_maxpacket u) (n - curwrite);
        (rc, bs, h') \<leftarrow> Some (memory_getfunc h want);
        (if rc \<noteq> PTP_RC_OK then Some (rc, curwrite, length bs, h', u)
         else do {
           (ret, written, xwritten, u1) \<leftarrow> write_block U bs curwrite None u;
           (if ret \<noteq> PTP_RC_OK then Some (ret, written, length bs, h', u1)
            else do {
              (go_on, u2) \<leftarrow> Some (report_progress u1);
              (if \<not> go_on then Some (PTP_ERROR_CANCEL, written, length bs, h', u2)
               else do {
                 k \<leftarrow> xwritten;
                 (if k < length bs then Some (PTP_RC_OK, written, length bs, h', u2)
                  else write_loop U n written (length bs) h' u2) }) }) }) })"

definition ptp_write_func ::
  "'d usb_lib \<Rightarrow> nat \<Rightarrow> mem_handler \<Rightarrow> 'd vita_usb \<Rightarrow> (u16 \<times> nat \<times> mem_handler \<times> 'd vita_usb) option" where
  "ptp_write_func U n h u = do {
     (rc, curwrite, towrite, h', u') \<leftarrow> write_loop U n 0 0 h u;
     (if rc \<noteq> PTP_RC_OK \<or> current_transfer_complete u' < current_transfer_total u' then Some (rc, curwrite, h', u')
      else if outep_maxpacket u' = 0 then None
      else if towrite mod outep_maxpacket u' = 0 then
        (let (ret, k, d) = bulk_write U (outep u') [] (usb_timeout u') (usb_handle u')
         in Some (if ret \<noteq> 0 then PTP_ERROR_IO else PTP_RC_OK, curwrite, h', u'\<lparr>usb_handle := d\<rparr>))
      else Some (rc, curwrite, h', u')) }"

section \<open>Requests and data to the device\<close>

definition PTP_USB_CONTAINER_COMMAND :: u16 where "PTP_USB_CONTAINER_COMMAND = 1"
definition PTP_USB_CONTAINER_DATA :: u16 where "PTP_USB_CONTAINER_DATA = 2"
definition PTP_USB_CONTAINER_RESPONSE :: u16 where "PTP_USB_CONTAINER_RESPONSE = 3"
definition PTP_USB_BULK_HDR_LEN :: nat where "PTP_USB_BULK_HDR_LEN = 12"
definition PTP_USB_BULK_HS_MAX_PACKET_LEN_READ :: nat where "PTP_USB_BULK_HS_MAX_PACKET_LEN_READ = 512"
definition PTP_USB_BULK_PAYLOAD_LEN_WRITE :: nat where "PTP_USB_BULK_PAYLOAD_LEN_WRITE = 500"

lemmas usb_lens = PTP_USB_BULK_HDR_LEN_def PTP_USB_BULK_HS_MAX_PACKET_LEN_READ_def
  PTP_USB_BULK_PAYLOAD_LEN_WRITE_def

definition usb_header :: "ptp_params \<Rightarrow> nat \<Rightarrow> u16 \<Rightarrow> u16 \<Rightarrow> u32 \<Rightarrow> byte list" where
  "usb_header P n type code tid =
     htod32ap P (of_nat n) @ htod16ap P type @ htod16ap P code @ htod32ap P tid"

definition usb_request :: "ptp_params \<Rightarrow> ptp_container \<Rightarrow> byte list" where
  "usb_request P req =
     usb_header P (12 + 4 * Nparam req) PTP_USB_CONTAINER_COMMAND (Code req) (Transaction_ID req) @
     concat (map (htod32ap P) (take (Nparam req) [Param1 req, Param2 req, Param3 req, Param4 req, Param5 req]))"

text \<open>
  The count of written bytes stays 0 when the write fails. With more than five parameters
  uninitialised bytes would be sent.
\<close>

definition ptp_usb_sendreq ::
  "'d usb_lib \<Rightarrow> ptp_params \<Rightarrow> 'd vita_usb ptp_io \<Rightarrow> ptp_container \<Rightarrow> (u16 \<times> 'd vita_usb ptp_io) option" where
  "ptp_usb_sendreq U P i req =
     (if 5 < Nparam req then None
      else do {
        let towrite = 12 + 4 * Nparam req;
        (rc, written, _, u) \<leftarrow>
          ptp_write_func U towrite (ptp_init_send_memory_handler (usb_request P req)) (io_dev i);
        let rc' = (if rc \<noteq> PTP_RC_OK \<and> rc \<noteq> PTP_ERROR_CANCEL then PTP_ERROR_IO else rc);
        Some (if rc' = PTP_RC_OK \<and> written \<noteq> towrite then PTP_ERROR_IO else rc', i\<lparr>io_dev := u\<rparr>) })"

text \<open>\<open>left\<close> is what is left to transfer, an unsigned 32 bit number in the code.\<close>

partial_function (option) send_rest ::
  "'d usb_lib \<Rightarrow> nat \<Rightarrow> mem_handler \<Rightarrow> 'd vita_usb \<Rightarrow> (u16 \<times> mem_handler \<times> 'd vita_usb) option" where
  "send_rest U left h u =
     (if left = 0 then Some (PTP_RC_OK, h, u)
      else do {
        (rc, written, h', u') \<leftarrow> ptp_write_func U left h u;
        (if rc \<noteq> PTP_RC_OK then Some (rc, h', u')
         else if written = 0 then Some (PTP_ERROR_IO, h', u')
         else send_rest U (left - written) h' u') })"

definition ptp_usb_senddata ::
  "'d usb_lib \<Rightarrow> ptp_params \<Rightarrow> 'd vita_usb ptp_io \<Rightarrow> ptp_container \<Rightarrow> nat \<Rightarrow> mem_handler \<Rightarrow>
     (u16 \<times> mem_handler \<times> 'd vita_usb ptp_io) option" where
  "ptp_usb_senddata U P i ptp n h =
     (let u = (io_dev i)\<lparr>current_transfer_complete := 0, current_transfer_total := n + PTP_USB_BULK_HDR_LEN\<rparr>;
          datawlen = (if split_header_data i then 0 else min n PTP_USB_BULK_PAYLOAD_LEN_WRITE);
          (rc, bs, h1) = (if split_header_data i then (PTP_RC_OK, [], h) else memory_getfunc h datawlen)
      in if rc \<noteq> PTP_RC_OK then Some (rc, h1, i\<lparr>io_dev := u\<rparr>)
         else if length bs \<noteq> datawlen then Some (PTP_RC_GeneralError, h1, i\<lparr>io_dev := u\<rparr>)
         else do {
           (ret, _, _, u1) \<leftarrow> ptp_write_func U (PTP_USB_BULK_HDR_LEN + datawlen)
              (ptp_init_send_memory_handler
                 (usb_header P (PTP_USB_BULK_HDR_LEN + n) PTP_USB_CONTAINER_DATA (Code ptp) (Transaction_ID ptp) @ bs)) u;
           (if ret \<noteq> PTP_RC_OK \<or> n \<le> datawlen then Some (ret, h1, i\<lparr>io_dev := u1\<rparr>)
            else do {
              (ret', h2, u2) \<leftarrow> send_rest U (unat (of_nat n - of_nat datawlen :: u32)) h1 u1;
              Some (if ret' \<noteq> PTP_RC_OK \<and> ret' \<noteq> PTP_ERROR_CANCEL then PTP_ERROR_IO else ret',
                    h2, i\<lparr>io_dev := u2\<rparr>) }) })"

section \<open>Data and responses from the device\<close>

text \<open>
  A packet of at most 512 bytes, from the buffer when one is there. After a failed read the
  bytes are not used.
\<close>

definition ptp_usb_getpacket ::
  "'d usb_lib \<Rightarrow> 'd vita_usb ptp_io \<Rightarrow> (u16 \<times> byte list \<times> 'd vita_usb ptp_io) option" where
  "ptp_usb_getpacket U i =
     (if response_packet i \<noteq> [] then Some (PTP_RC_OK, response_packet i, i\<lparr>response_packet := []\<rparr>)
      else do {
        (rc, _, h, u) \<leftarrow>
          ptp_read_func U PTP_USB_BULK_HS_MAX_PACKET_LEN_READ ptp_init_recv_memory_handler False (io_dev i);
        Some (rc, ptp_exit_recv_memory_handler h, i\<lparr>io_dev := u\<rparr>) })"

text \<open>The container is cleared before the packet is copied into it.\<close>

definition pad :: "nat \<Rightarrow> byte list \<Rightarrow> byte list" where
  "pad n bs = bs @ replicate (n - length bs) 0"

definition c_length :: "ptp_params \<Rightarrow> byte list \<Rightarrow> u32" where
  "c_length P bs = dtoh32ap P (take 4 (pad 512 bs))"
definition c_type :: "ptp_params \<Rightarrow> byte list \<Rightarrow> u16" where
  "c_type P bs = dtoh16ap P (take 2 (drop 4 (pad 512 bs)))"
definition c_code :: "ptp_params \<Rightarrow> byte list \<Rightarrow> u16" where
  "c_code P bs = dtoh16ap P (take 2 (drop 6 (pad 512 bs)))"
definition c_trans_id :: "ptp_params \<Rightarrow> byte list \<Rightarrow> u32" where
  "c_trans_id P bs = dtoh32ap P (take 4 (drop 8 (pad 512 bs)))"
definition c_param :: "ptp_params \<Rightarrow> nat \<Rightarrow> byte list \<Rightarrow> u32" where
  "c_param P k bs = dtoh32ap P (take 4 (drop (12 + 4 * k) (pad 512 bs)))"

lemmas c_fields = c_length_def c_type_def c_code_def c_trans_id_def c_param_def

text \<open>Data of unknown length: packets until one is short.\<close>

partial_function (option) stream_loop ::
  "'d usb_lib \<Rightarrow> mem_handler \<Rightarrow> 'd vita_usb \<Rightarrow> (u16 \<times> mem_handler \<times> 'd vita_usb) option" where
  "stream_loop U h u = do {
     (rc, n, h', u') \<leftarrow> ptp_read_func U PTP_USB_BULK_HS_MAX_PACKET_LEN_READ h False u;
     (if rc \<noteq> PTP_RC_OK then Some (rc, h', u')
      else if n < PTP_USB_BULK_HS_MAX_PACKET_LEN_READ then Some (PTP_RC_OK, h', u')
      else stream_loop U h' u') }"

text \<open>
  A container whose packet or whose length is shorter than the header makes the number of
  payload bytes wrap around and copies past the container: \<open>None\<close>.
\<close>

definition take_data ::
  "'d usb_lib \<Rightarrow> nat \<Rightarrow> byte list \<Rightarrow> mem_handler \<Rightarrow> 'd vita_usb ptp_io \<Rightarrow>
     (u16 \<times> mem_handler \<times> 'd vita_usb ptp_io) option" where
  "take_data U n bs h i0 =
     (let i1 = (if n < length bs \<and> PTP_USB_BULK_HDR_LEN \<le> length bs - n
                then i0\<lparr>response_packet := drop n bs\<rparr> else i0);
          rlen = min (length bs) n;
          i2 = (if 12 < n \<and> rlen = 12 then i1\<lparr>split_header_data := True\<rparr> else i1)
      in if rlen < PTP_USB_BULK_HDR_LEN then None
         else (let (rc, h1) = memory_putfunc h (take (rlen - PTP_USB_BULK_HDR_LEN) (drop PTP_USB_BULK_HDR_LEN bs)) in
           if rc \<noteq> PTP_RC_OK then Some (rc, h1, i2)
           else (let u = io_dev i2;
                     u1 = (if n = PTP_USB_BULK_HS_MAX_PACKET_LEN_READ \<and> \<not> split_header_data i2
                           then u\<lparr>usb_handle := snd (snd (bulk_read U (inep u) 0 (usb_timeout u) (usb_handle u)))\<rparr>
                           else u)
                 in if n \<le> rlen then Some (PTP_RC_OK, h1, i2\<lparr>io_dev := u1\<rparr>)
                    else do {
                      (ret, _, h2, u2) \<leftarrow> ptp_read_func U (n - rlen) h1 True u1;
                      Some (ret, h2, i2\<lparr>io_dev := u2\<rparr>) })))"

definition ptp_usb_getdata ::
  "'d usb_lib \<Rightarrow> ptp_params \<Rightarrow> 'd vita_usb ptp_io \<Rightarrow> ptp_container \<Rightarrow> mem_handler \<Rightarrow>
     (u16 \<times> mem_handler \<times> 'd vita_usb ptp_io) option" where
  "ptp_usb_getdata U P i ptp h = do {
     (rc, bs, i1) \<leftarrow> ptp_usb_getpacket U i;
     (if rc \<noteq> PTP_RC_OK then Some (PTP_ERROR_IO, h, i1)
      else if c_type P bs \<noteq> PTP_USB_CONTAINER_DATA then Some (PTP_ERROR_DATA_EXPECTED, h, i1)
      else if c_code P bs \<noteq> Code ptp then
        Some (if c_code P bs < 0x2000 \<or> 0x2020 < c_code P bs then PTP_ERROR_IO else c_code P bs, h, i1)
      else if c_length P bs = 0xffffffff then
        (if length bs < PTP_USB_BULK_HDR_LEN then None
         else do {
           (ret, h1) \<leftarrow> Some (memory_putfunc h (drop PTP_USB_BULK_HDR_LEN bs));
           (if ret \<noteq> PTP_RC_OK then Some (ret, h1, i1)
            else do {
              (ret', h2, u) \<leftarrow> stream_loop U h1 (io_dev i1);
              Some (ret', h2, i1\<lparr>io_dev := u\<rparr>) }) })
      else take_data U (unat (c_length P bs)) bs h i1) }"

text \<open>
  \<open>resp\<close> comes in as the request, whose code is an operation; a response code other than
  \<open>PTP_RC_OK\<close> is returned at once, without the other fields.
\<close>

definition ptp_usb_getresp ::
  "'d usb_lib \<Rightarrow> ptp_params \<Rightarrow> u32 \<Rightarrow> 'd vita_usb ptp_io \<Rightarrow> ptp_container \<Rightarrow>
     (u16 \<times> ptp_container \<times> 'd vita_usb ptp_io) option" where
  "ptp_usb_getresp U P sid i resp = do {
     (rc, bs, i1) \<leftarrow> ptp_usb_getpacket U i;
     let ret = (if rc \<noteq> PTP_RC_OK then PTP_ERROR_IO
                else if c_type P bs \<noteq> PTP_USB_CONTAINER_RESPONSE then PTP_ERROR_RESP_EXPECTED
                else if c_code P bs \<noteq> Code resp then c_code P bs else PTP_RC_OK);
     Some (if ret \<noteq> PTP_RC_OK then (ret, resp, i1)
           else (ret, resp\<lparr>Code := c_code P bs, SessionID := sid, Transaction_ID := c_trans_id P bs,
             Param1 := c_param P 0 bs, Param2 := c_param P 1 bs, Param3 := c_param P 2 bs,
             Param4 := c_param P 3 bs, Param5 := c_param P 4 bs\<rparr>, i1)) }"

section \<open>Events and cancelling\<close>

text \<open>An empty transfer is tried once more; waiting is reading without a timeout.\<close>

definition ptp_usb_event ::
  "'d usb_lib \<Rightarrow> ptp_params \<Rightarrow> bool \<Rightarrow> u32 \<Rightarrow> 'd vita_usb ptp_io \<Rightarrow> ptp_container \<Rightarrow>
     (u16 \<times> ptp_container \<times> 'd vita_usb ptp_io) option" where
  "ptp_usb_event U P fast sid i event =
     (let u = io_dev i;
          t = (if fast then usb_timeout u else 0);
          (result, bs, d) = bulk_read U (intep u) 24 t (usb_handle u);
          (result', bs', d') = (if bs = [] then bulk_read U (intep u) 24 t d else (result, bs, d));
          i' = i\<lparr>io_dev := u\<lparr>usb_handle := d'\<rparr>\<rparr>
      in Some (if result' < 0 \<or> length bs' < 8 then (PTP_ERROR_IO, event, i')
               else (PTP_RC_OK, event\<lparr>Code := c_code P bs', SessionID := sid, Transaction_ID := c_trans_id P bs',
                 Param1 := c_param P 0 bs', Param2 := c_param P 1 bs', Param3 := c_param P 2 bs'\<rparr>, i')))"

definition ptp_usb_event_check where "ptp_usb_event_check U P = ptp_usb_event U P True"
definition ptp_usb_event_wait where "ptp_usb_event_wait U P = ptp_usb_event U P False"

definition PTP_EC_CancelTransaction :: u16 where "PTP_EC_CancelTransaction = 0x4001"

text \<open>
  The result of the control transfer is compared with a \<open>size_t\<close>, so a negative one is
  converted to a huge number first.
\<close>

definition ptp_usb_control_cancel_request ::
  "'d usb_lib \<Rightarrow> ptp_params \<Rightarrow> 'd vita_usb ptp_io \<Rightarrow> u32 \<Rightarrow> (u16 \<times> 'd vita_usb ptp_io) option" where
  "ptp_usb_control_cancel_request U P i tid =
     (let u = io_dev i;
          (ret, d) = control_transfer U (htod16ap P PTP_EC_CancelTransaction @ htod32ap P tid) (usb_timeout u) (usb_handle u)
      in Some (if (of_int ret :: u64) < 6 then PTP_ERROR_IO else PTP_RC_OK, i\<lparr>io_dev := u\<lparr>usb_handle := d\<rparr>\<rparr>))"

definition usb_funs :: "'d usb_lib \<Rightarrow> ptp_params \<Rightarrow> 'd vita_usb io_funs" where
  "usb_funs U P = \<lparr>sendreq_func = ptp_usb_sendreq U P, senddata_func = ptp_usb_senddata U P,
     getdata_func = ptp_usb_getdata U P, getresp_func = ptp_usb_getresp U P,
     event_wait = ptp_usb_event_wait U P, cancelreq_func = ptp_usb_control_cancel_request U P\<rparr>"

section \<open>Finding the interface\<close>

record found_endpoints =
  found_inep :: bool
  found_outep :: bool
  found_intep :: bool

definition LIBUSB_TRANSFER_TYPE_BULK :: byte where "LIBUSB_TRANSFER_TYPE_BULK = 2"
definition LIBUSB_TRANSFER_TYPE_INTERRUPT :: byte where "LIBUSB_TRANSFER_TYPE_INTERRUPT = 3"
definition dir_in :: "endpoint_descriptor \<Rightarrow> bool" where
  "dir_in ep = (and (bEndpointAddress ep) 0x80 = 0x80)"

definition scan_endpoint ::
  "endpoint_descriptor \<Rightarrow> found_endpoints \<times> 'd vita_usb \<Rightarrow> found_endpoints \<times> 'd vita_usb" where
  "scan_endpoint ep fu =
     (let (f, u) = fu; a = bEndpointAddress ep; m = unat (wMaxPacketSize ep) in
      if bmAttributes ep = LIBUSB_TRANSFER_TYPE_BULK then
        (if dir_in ep then (f\<lparr>found_inep := True\<rparr>, u\<lparr>inep := a, inep_maxpacket := m\<rparr>)
         else (f\<lparr>found_outep := True\<rparr>, u\<lparr>outep := a, outep_maxpacket := m\<rparr>))
      else if bmAttributes ep = LIBUSB_TRANSFER_TYPE_INTERRUPT \<and> dir_in ep then
        (f\<lparr>found_intep := True\<rparr>, u\<lparr>intep := a\<rparr>)
      else (f, u))"

text \<open>What an interface without all three endpoints set stays set.\<close>

fun scan_interfaces :: "interface_descriptor list \<Rightarrow> 'd vita_usb \<Rightarrow> bool \<times> 'd vita_usb" where
  "scan_interfaces [] u = (False, u)"
| "scan_interfaces (f # fs) u =
     (if length (endpoints f) \<noteq> 3 then scan_interfaces fs u
      else case fold scan_endpoint (endpoints f)
             (\<lparr>found_inep = False, found_outep = False, found_intep = False\<rparr>,
              u\<lparr>usb_interface := bInterfaceNumber f\<rparr>) of
        (found, u') \<Rightarrow>
          if found_inep found \<and> found_outep found \<and> found_intep found then (True, u') else scan_interfaces fs u')"

fun scan_configs :: "interface_descriptor list option list \<Rightarrow> 'd vita_usb \<Rightarrow> bool \<times> 'd vita_usb" where
  "scan_configs [] u = (False, u)"
| "scan_configs (None # cs) u = scan_configs cs u"
| "scan_configs (Some fs # cs) u =
     (case scan_interfaces fs u of (ok, u') \<Rightarrow> if ok then (True, u') else scan_configs cs u')"

definition find_interface_and_endpoints :: "libusb_device \<Rightarrow> 'd vita_usb \<Rightarrow> bool \<times> 'd vita_usb" where
  "find_interface_and_endpoints dev u = (if dev_ids dev = None then (False, u) else scan_configs (dev_configs dev) u)"

section \<open>Opening a device\<close>

definition USB_TIMEOUT_DEFAULT :: nat where "USB_TIMEOUT_DEFAULT = 20000"
definition PTP_RC_InvalidTransactionID :: u16 where "PTP_RC_InvalidTransactionID = 0x2004"
definition PTP_RC_SessionAlreadyOpened :: u16 where "PTP_RC_SessionAlreadyOpened = 0x201E"

definition vita_usb_zero :: "'d \<Rightarrow> 'd vita_usb" where
  "vita_usb_zero d = \<lparr>usb_handle = d, usb_interface = 0, inep = 0, inep_maxpacket = 0, outep = 0,
     outep_maxpacket = 0, intep = 0, callback_active = False, usb_timeout = 0, current_transfer_total = 0,
     current_transfer_complete = 0, current_transfer_callback = None\<rparr>"

text \<open>The session is asked for again, with another transaction id, when the first one was invalid.\<close>

definition open_session :: "'d io_funs \<Rightarrow> 'd ptp_session \<Rightarrow> (u16 \<times> 'd ptp_session) option" where
  "open_session F s = do {
     (ret, s1) \<leftarrow> ptp_opensession F s 1;
     (if ret = PTP_RC_InvalidTransactionID
      then ptp_opensession F (s1\<lparr>transaction_id := transaction_id s1 + 10\<rparr>) 1
      else Some (ret, s1)) }"

text \<open>
  \<open>d0\<close> stands for the handle before the device is opened. The inner \<open>None\<close> is the result -1.
  \<open>claim_interface\<close> is claiming the interface and choosing its setting, whose results are
  not looked at. A failed retry with \<open>PTP_ERROR_IO\<close> ends with releasing the interface, a
  failed first attempt does not.
\<close>

definition configure_usb_device ::
  "'d usb_lib \<Rightarrow> ptp_params \<Rightarrow> libusb_device \<Rightarrow> 'd \<Rightarrow> 'd vita_usb ptp_session option option" where
  "configure_usb_device U P dev d0 =
     (case find_interface_and_endpoints dev (vita_usb_zero d0) of
        (False, _) \<Rightarrow> Some None
      | (True, u) \<Rightarrow>
          (case libusb_open U dev of
             None \<Rightarrow> Some None
           | Some d \<Rightarrow> do {
               let u1 = u\<lparr>usb_timeout := USB_TIMEOUT_DEFAULT, usb_handle := claim_interface U (usb_interface u) d\<rparr>;
               (ret, s) \<leftarrow> open_session (usb_funs U P) \<lparr>params = P, transaction_id = 0, session_id = 0,
                 io = \<lparr>response_packet = [], split_header_data = False, io_dev = u1\<rparr>\<rparr>;
               Some (if ret = PTP_RC_OK \<or> ret = PTP_RC_SessionAlreadyOpened then Some s else None) }))"

definition VitaMTP_Open_USB_Vita ::
  "'d usb_lib \<Rightarrow> (byte list \<Rightarrow> byte list option) option \<Rightarrow> (byte list \<Rightarrow> byte list option) option \<Rightarrow>
     libusb_device \<Rightarrow> 'd \<Rightarrow> 'd vita_usb ptp_session option option" where
  "VitaMTP_Open_USB_Vita U to_ucs2 from_ucs2 dev d0 =
     (if to_ucs2 = None \<or> from_ucs2 = None then Some None
      else configure_usb_device U
        \<lparr>byteorder = PTP_DL_LE, cd_locale_to_ucs2 = to_ucs2, cd_ucs2_to_locale = from_ucs2\<rparr> dev d0)"

definition PTP_OC_CloseSession :: u16 where "PTP_OC_CloseSession = 0x1003"

text \<open>The device is freed whether or not the session could be closed.\<close>

definition VitaMTP_Release_USB_Device :: "'d io_funs \<Rightarrow> 'd ptp_session \<Rightarrow> 'd ptp_session option" where
  "VitaMTP_Release_USB_Device F s = map_option snd (ptp_generic_no_data F s PTP_OC_CloseSession [])"

section \<open>Finding a Vita\<close>

definition VITA_VID :: u16 where "VITA_VID = 0x054C"
definition VITA_PID :: u16 where "VITA_PID = 0x04E4"

record raw_device =
  raw_serial :: "byte list"
  raw_data :: libusb_device

text \<open>The serial is an array of 18 bytes whose last one is set to NUL.\<close>

fun collect_vitas :: "'d usb_lib \<Rightarrow> libusb_device list \<Rightarrow> raw_device list \<Rightarrow> raw_device list option" where
  "collect_vitas U [] vitas = Some vitas"
| "collect_vitas U (dev # devs) vitas =
     (case dev_ids dev of
        None \<Rightarrow> None
      | Some (vid, pid) \<Rightarrow>
          if \<not> (vid = VITA_VID \<and> pid = VITA_PID) then collect_vitas U devs vitas
          else (case (libusb_open U dev, dev_serial dev) of
                  (Some _, Some s) \<Rightarrow>
                    collect_vitas U devs (vitas @ [\<lparr>raw_serial = cstr (take 17 s), raw_data = dev\<rparr>])
                | _ \<Rightarrow> None))"

text \<open>\<open>devs\<close> is \<open>None\<close> when libusb cannot be initialised or cannot list the devices; so is -1.\<close>

definition VitaMTP_Get_USB_Vitas :: "'d usb_lib \<Rightarrow> libusb_device list option \<Rightarrow> raw_device list option" where
  "VitaMTP_Get_USB_Vitas U devs = (case devs of None \<Rightarrow> None | Some ds \<Rightarrow> collect_vitas U ds [])"

definition VitaMTP_Get_First_USB_Vita ::
  "'d usb_lib \<Rightarrow> (byte list \<Rightarrow> byte list option) option \<Rightarrow> (byte list \<Rightarrow> byte list option) option \<Rightarrow>
     libusb_device list option \<Rightarrow> 'd \<Rightarrow> 'd vita_usb ptp_session option option" where
  "VitaMTP_Get_First_USB_Vita U to_ucs2 from_ucs2 devs d0 =
     (case VitaMTP_Get_USB_Vitas U devs of
        None \<Rightarrow> Some None
      | Some [] \<Rightarrow> Some None
      | Some (raw # _) \<Rightarrow> VitaMTP_Open_USB_Vita U to_ucs2 from_ucs2 (raw_data raw) d0)"

end
