(* ===== verification/Opencma_Main.thy ===== *)
theory Opencma_Main
  imports Opencma_System Wireless Usb
begin

text \<open>
  The start of the program: the command line, the attempts to connect and the composition of
  \<open>main\<close> (\<open>src/src/opencma.c\<close>), with the ends of a wireless connection and of the broadcast
  (\<open>src/src/wireless.c\<close>) and the capabilities of the host (\<open>src/src/utilities.c\<close>). The system
  of threads that \<open>main\<close> starts is in \<open>Opencma_System\<close>.
\<close>

section \<open>The command line\<close>

text \<open>
  C library: \<open>getopt\<close> with the options \<open>"u:p:v:m:a:k:l:hd"\<close>, as a list of options and
  arguments. The first argument is what is left of a group of letters. Words that are no
  options are passed over, \<open>--\<close> ends the options, and \<open>?\<close> is an unknown option or a missing
  argument.
\<close>

definition takes_argument :: "char \<Rightarrow> bool" where
  "takes_argument c \<longleftrightarrow> c \<in> set ''upvmakl''"

definition is_option_word :: "string \<Rightarrow> bool" where
  "is_option_word a \<longleftrightarrow> 1 < length a \<and> hd a = CHR ''-''"

function getopt :: "string \<Rightarrow> string list \<Rightarrow> (char \<times> string) list" where
  "getopt [] [] = []"
| "getopt [] (a # rest) =
     (if a = ''--'' then []
      else if is_option_word a then getopt (drop 1 a) rest
      else getopt [] rest)"
| "getopt (c # cs) rest =
     (if takes_argument c then
        (if cs \<noteq> [] then (c, cs) # getopt [] rest
         else (case rest of [] \<Rightarrow> [(CHR ''?'', [])] | v # rest' \<Rightarrow> (c, v) # getopt [] rest'))
      else (if c \<in> set ''hd'' then c else CHR ''?'', []) # getopt cs rest)"
  by pat_completeness auto
termination
  by (relation "measure (\<lambda>(group, rest). length group + sum_list (map (\<lambda>a. Suc (length a)) rest))")
    (auto simp: is_option_word_def)

record startup =
  st_wireless :: bool
  st_url :: string
  st_photos :: "string option"
  st_videos :: "string option"
  st_music :: "string option"
  st_apps :: "string option"
  st_packages :: string
  st_log :: u32

definition LINFO :: u32 where "LINFO = 3"

definition startup_default :: startup where
  "startup_default = \<lparr>st_wireless = False, st_url = ''.'', st_photos = None, st_videos = None,
     st_music = None, st_apps = None, st_packages = ''package'', st_log = LINFO\<rparr>"

text \<open>The level is unsigned, so a negative one is the highest.\<close>

definition log_mask :: "string \<Rightarrow> u32" where
  "log_mask arg = (let l = (of_int (atoi (bytes_of arg)) :: u32);
                       l' = (if l > 4 then 4 else l)
                   in push_bit (unat l') 1 - 1)"

text \<open>\<open>None\<close>: the help is printed and \<open>main\<close> returns 1.\<close>

definition take_option :: "startup \<Rightarrow> char \<times> string \<Rightarrow> startup option" where
  "take_option st opt = (case opt of (c, arg) \<Rightarrow>
     (if c = CHR ''u'' then Some (st\<lparr>st_url := arg\<rparr>)
      else if c = CHR ''p'' then Some (st\<lparr>st_photos := Some arg\<rparr>)
      else if c = CHR ''v'' then Some (st\<lparr>st_videos := Some arg\<rparr>)
      else if c = CHR ''m'' then Some (st\<lparr>st_music := Some arg\<rparr>)
      else if c = CHR ''a'' then Some (st\<lparr>st_apps := Some arg\<rparr>)
      else if c = CHR ''k'' then Some (st\<lparr>st_packages := arg\<rparr>)
      else if c = CHR ''l'' then Some (st\<lparr>st_log := log_mask arg\<rparr>)
      else None))"

fun take_options :: "startup \<Rightarrow> (char \<times> string) list \<Rightarrow> startup option" where
  "take_options st [] = Some st"
| "take_options st (p # opts) = do { st' \<leftarrow> take_option st p; take_options st' opts }"

text \<open>The mode is the first word, if there are others and it is no option.\<close>

definition parse_mode :: "string list \<Rightarrow> (bool \<times> string list) option" where
  "parse_mode argv =
     (if 2 < length argv \<and> take 1 (argv ! 1) \<noteq> ''-'' then
        (if argv ! 1 = ''wireless'' then Some (True, drop 1 argv)
         else if argv ! 1 = ''usb'' then Some (False, drop 1 argv)
         else None)
      else Some (False, argv))"

definition parse_command_line :: "string list \<Rightarrow> (bool \<times> cma_paths \<times> u32) option" where
  "parse_command_line argv = do {
     (wl, args) \<leftarrow> parse_mode argv;
     st \<leftarrow> take_options (startup_default\<lparr>st_wireless := wl\<rparr>) (getopt [] (drop 1 args));
     photos \<leftarrow> st_photos st;
     videos \<leftarrow> st_videos st;
     music \<leftarrow> st_music st;
     apps \<leftarrow> st_apps st;
     Some (st_wireless st, \<lparr>urlPath = st_url st, photosPath = photos, videosPath = videos,
       musicPath = music, appsPath = apps, packagesPath = st_packages st\<rparr>, st_log st) }"

section \<open>Connecting\<close>

definition OPENCMA_CONNECTION_TRIES :: nat where "OPENCMA_CONNECTION_TRIES = 10"
definition OPENCMA_REQUEST_PORT :: int where "OPENCMA_REQUEST_PORT = 9309"

text \<open>
  The loop of both functions: the first attempt that finds a device ends it. \<open>world\<close> is what
  the attempts find one after the other.
\<close>

fun connect_tries :: "nat \<Rightarrow> ('w \<Rightarrow> 'd option option) \<Rightarrow> 'w list \<Rightarrow> 'd option option" where
  "connect_tries 0 attempt world = Some None"
| "connect_tries (Suc n) attempt [] = Some None"
| "connect_tries (Suc n) attempt (w # world) = do {
     d \<leftarrow> attempt w;
     (if d \<noteq> None then Some d else connect_tries n attempt world) }"

text \<open>The devices on the bus at each attempt.\<close>

definition connect_usb ::
  "'d usb_lib \<Rightarrow> conversion option \<Rightarrow> conversion option \<Rightarrow> (libusb_device list option \<times> 'd) list \<Rightarrow>
     'd vita_usb ptp_session option option" where
  "connect_usb U to_ucs2 from_ucs2 buses =
     connect_tries OPENCMA_CONNECTION_TRIES
       (\<lambda>(devs, d). VitaMTP_Get_First_USB_Vita U to_ucs2 from_ucs2 devs d) buses"

definition VitaMTP_Get_First_Wireless_Vita ::
  "callbacks \<Rightarrow> (u32 \<times> sock) list \<Rightarrow> conversion option \<Rightarrow> conversion option \<Rightarrow> bool \<Rightarrow> net \<Rightarrow>
     net ptp_session option option" where
  "VitaMTP_Get_First_Wireless_Vita C conns to_ucs2 from_ucs2 opened dev =
     map_option fst (VitaMTP_Get_Wireless_Device C conns to_ucs2 from_ucs2 opened dev)"

text \<open>
  The end of the broadcast that this thread can write to, open or not: the command that is
  sent, and the end closed. That the command could not be sent goes unnoticed, because -1 is
  compared with an unsigned size.
\<close>

definition VitaMTP_Stop_Broadcast :: "bool \<Rightarrow> int option \<times> bool" where
  "VitaMTP_Stop_Broadcast is_open = (if is_open then (Some BroadcastStop, False) else (None, False))"

definition opencma_host_info :: wireless_host_info where
  "opencma_host_info = \<lparr>hi_guid = ''00000000-0000-0000-0000-000000000000'', hi_type = ''win'',
     hi_name = OPENCMA_VERSION_STRING, hi_port = OPENCMA_REQUEST_PORT\<rparr>"

definition opencma_callbacks :: "(nat \<Rightarrow> nat) \<Rightarrow> callbacks" where
  "opencma_callbacks rand = \<lparr>is_registered = device_registered, create_register_pin = generate_pin rand\<rparr>"

text \<open>
  The connections, the sockets opened and the network at each attempt; the device found, and
  what is sent to the broadcast thread, which is then waited for.
\<close>

definition connect_wireless ::
  "(nat \<Rightarrow> nat) \<Rightarrow> conversion option \<Rightarrow> conversion option \<Rightarrow> bool \<Rightarrow>
     ((u32 \<times> sock) list \<times> bool \<times> net) list \<Rightarrow> (net ptp_session option \<times> int option) option" where
  "connect_wireless rand to_ucs2 from_ucs2 is_open nets = do {
     d \<leftarrow> connect_tries OPENCMA_CONNECTION_TRIES
       (\<lambda>(conns, opened, dev).
          VitaMTP_Get_First_Wireless_Vita (opencma_callbacks rand) conns to_ucs2 from_ucs2 opened dev) nets;
     Some (d, fst (VitaMTP_Stop_Broadcast is_open)) }"

text \<open>The sockets and the device are released whether or not the session could be closed.\<close>

definition VitaMTP_Release_Wireless_Device :: "'s io_funs \<Rightarrow> 's ptp_session \<Rightarrow> 's ptp_session option" where
  "VitaMTP_Release_Wireless_Device F s = map_option snd (ptp_generic_no_data F s PTP_OC_CloseSession [])"

section \<open>The capabilities of the host\<close>

text \<open>
  The chains of functions and formats. The first element of a chain is a copy in the
  structure above it, whose successor is the second element of the array.
\<close>

record capability_function =
  cf_type :: string
  cf_formats :: "string list"

record capability_info =
  ci_version :: string
  ci_functions :: "capability_function list"

definition generate_pc_capability_info :: capability_info where
  "generate_pc_capability_info = \<lparr>ci_version = ''1.0'', ci_functions =
     [\<lparr>cf_type = ''game'', cf_formats = [''vitaApp'', ''PSPGame'', ''PSPSaveData'', ''PSGame'', ''PSMApp'']\<rparr>,
      \<lparr>cf_type = ''backup'', cf_formats = []\<rparr>,
      \<lparr>cf_type = ''systemUpdate'', cf_formats = []\<rparr>]\<rparr>"

section \<open>From the connection to the threads\<close>

definition first_world :: "fs \<Rightarrow> 's ptp_session \<Rightarrow> 's world" where
  "first_world fs s = \<lparr>w_sess = s, w_db = None, w_fs = fs, w_uuid = ''ffffffffffffffff'',
     w_refresh = 0, w_connected = False, w_lock = 0\<rparr>"

definition start_threads :: "'s world \<Rightarrow> 's system" where
  "start_threads w = \<lparr>sy_world = w, sy_listener = True, sy_commands = True, sy_main = At_test\<rparr>"

text \<open>
  What \<open>main\<close> does with the device it got: \<open>Some None\<close> is the return value 1, before any
  thread is started.
\<close>

definition main_connected ::
  "'s env \<Rightarrow> vita_info \<Rightarrow> fs \<Rightarrow> 's ptp_session option \<Rightarrow> 's system option option" where
  "main_connected E info fs device =
     (case device of
        None \<Rightarrow> Some None
      | Some s \<Rightarrow> do {
          (good, w) \<leftarrow> handshake E info (first_world fs s);
          Some (if good then Some (start_threads w) else None) })"

text \<open>
  What the program is started in: the libraries, what the bus or the network shows at each
  attempt, the file system and the uninitialised structure for the answer of the device.
\<close>

record 'd surroundings =
  su_usb_env :: "cma_paths \<Rightarrow> u32 \<Rightarrow> 'd vita_usb env"
  su_net_env :: "cma_paths \<Rightarrow> u32 \<Rightarrow> net env"
  su_usb :: "'d usb_lib"
  su_to_ucs2 :: "conversion option"
  su_from_ucs2 :: "conversion option"
  su_buses :: "(libusb_device list option \<times> 'd) list"
  su_nets :: "((u32 \<times> sock) list \<times> bool \<times> net) list"
  su_rand :: "nat \<Rightarrow> nat"
  su_broadcast :: bool
  su_info :: vita_info
  su_fs :: fs

definition opencma_main :: "'d surroundings \<Rightarrow> string list \<Rightarrow> ('d vita_usb system option + net system option) option" where
  "opencma_main Z argv =
     (case parse_command_line argv of
        None \<Rightarrow> Some (Inl None)
      | Some (wl, paths, level) \<Rightarrow>
          if wl then do {
            (device, _) \<leftarrow> connect_wireless (su_rand Z) (su_to_ucs2 Z) (su_from_ucs2 Z) (su_broadcast Z) (su_nets Z);
            S \<leftarrow> main_connected (su_net_env Z paths level) (su_info Z) (su_fs Z) device;
            Some (Inr S) }
          else do {
            device \<leftarrow> connect_usb (su_usb Z) (su_to_ucs2 Z) (su_from_ucs2 Z) (su_buses Z);
            S \<leftarrow> main_connected (su_usb_env Z paths level) (su_info Z) (su_fs Z) device;
            Some (Inl S) })"

section \<open>Properties of the command line\<close>

lemma take_option_letter: "take_option st (c, arg) \<noteq> None \<longleftrightarrow> takes_argument c"
  by (auto simp: take_option_def takes_argument_def)

lemma take_options_letters: "take_options st opts \<noteq> None \<longleftrightarrow> (\<forall>(c, _) \<in> set opts. takes_argument c)"
proof (induction opts arbitrary: st)
  case (Cons p opts)
  obtain c arg where p: "p = (c, arg)" by (cases p)
  show ?case
  proof (cases "take_option st p")
    case None
    then show ?thesis using take_option_letter [of st c arg] by (simp add: p)
  next
    case (Some st')
    then show ?thesis using Cons.IH [of st'] take_option_letter [of st c arg] by (simp add: p)
  qed
qed simp

text \<open>Which paths are known after the options.\<close>

definition given :: "char \<Rightarrow> startup \<Rightarrow> bool" where
  "given c st \<longleftrightarrow> (if c = CHR ''p'' then st_photos st \<noteq> None else if c = CHR ''v'' then st_videos st \<noteq> None
     else if c = CHR ''m'' then st_music st \<noteq> None else if c = CHR ''a'' then st_apps st \<noteq> None else True)"

lemma take_option_given:
  "take_option st (l, arg) = Some st' \<Longrightarrow> given c st' \<longleftrightarrow> given c st \<or> c = l"
  by (auto simp: take_option_def given_def split: if_splits)

lemma take_options_given:
  "take_options st opts = Some st' \<Longrightarrow> given c st' \<longleftrightarrow> given c st \<or> c \<in> fst ` set opts"
proof (induction opts arbitrary: st)
  case (Cons p opts)
  obtain l arg where p: "p = (l, arg)" by (cases p)
  then obtain st1 where "take_option st (l, arg) = Some st1" "take_options st1 opts = Some st'"
    using Cons.prems by (auto split: bind_splits)
  then show ?case using Cons.IH [of st1] take_option_given [of st l arg st1 c] by (auto simp: p)
qed simp

definition letters :: "string list \<Rightarrow> char set" where
  "letters args = fst ` set (getopt [] (drop 1 args))"

text \<open>
  A command line is accepted exactly when its mode is known, all its options are known and
  have their arguments, and the four paths are given.
\<close>

lemma command_line_accepted_iff:
  "parse_command_line argv \<noteq> None \<longleftrightarrow>
     (\<exists>wl args. parse_mode argv = Some (wl, args) \<and> letters args \<subseteq> set ''upvmakl'' \<and>
        set ''pvma'' \<subseteq> letters args)"
proof (cases "parse_mode argv")
  case None
  then show ?thesis by (simp add: parse_command_line_def)
next
  case (Some m)
  obtain wl args where m: "m = (wl, args)" by (cases m)
  let ?st0 = "startup_default\<lparr>st_wireless := wl\<rparr>" and ?opts = "getopt [] (drop 1 args)"
  have none: "\<not> given c ?st0" if "c \<in> set ''pvma''" for c
    using that by (auto simp: given_def startup_default_def)
  have known: "take_options ?st0 ?opts \<noteq> None \<longleftrightarrow> letters args \<subseteq> set ''upvmakl''"
    unfolding take_options_letters letters_def by (auto simp: takes_argument_def)
  show ?thesis
  proof (cases "take_options ?st0 ?opts")
    case None
    then show ?thesis using known by (simp add: parse_command_line_def Some m)
  next
    case (Some st)
    have "given c st \<longleftrightarrow> c \<in> letters args" if "c \<in> set ''pvma''" for c
      using take_options_given [OF Some, of c] none [OF that] by (simp add: letters_def)
    then have "set ''pvma'' \<subseteq> letters args \<longleftrightarrow> (\<forall>c \<in> set ''pvma''. given c st)" by auto
    also have "\<dots> \<longleftrightarrow> st_photos st \<noteq> None \<and> st_videos st \<noteq> None \<and> st_music st \<noteq> None \<and> st_apps st \<noteq> None"
      by (simp add: given_def)
    also have "\<dots> \<longleftrightarrow> parse_command_line argv \<noteq> None"
      using \<open>parse_mode argv = Some m\<close> Some by (cases "st_photos st"; cases "st_videos st"; cases "st_music st"; cases "st_apps st")
        (simp_all add: parse_command_line_def m)
    finally show ?thesis using known Some \<open>parse_mode argv = Some m\<close> by (auto simp: m)
  qed
qed

text \<open>
  The command line of the help text, with any paths: the level is 2, not 1 as the text says,
  and the packages are in \<open>package\<close>, not in \<open>packages\<close>.
\<close>

lemma usual_command_line:
  assumes "mode = ''usb'' \<or> mode = ''wireless''"
  shows "parse_command_line [prog, mode, ''-p'', p, ''-v'', v, ''-m'', m, ''-a'', a] =
    Some (mode = ''wireless'', \<lparr>urlPath = ''.'', photosPath = p, videosPath = v, musicPath = m,
      appsPath = a, packagesPath = ''package''\<rparr>, log_mask ''2'')"
proof -
  have "log_mask ''2'' = LINFO" by code_simp
  then show ?thesis
    using assms by (auto simp: parse_command_line_def parse_mode_def is_option_word_def takes_argument_def
        take_option_def startup_default_def)
qed

text \<open>The letter \<open>d\<close> is an option that is not handled; a level is capped, a negative one too.\<close>

lemma debug_letter_refused: "parse_command_line ([prog, ''-d''] @ args) = None"
  by (auto simp: parse_command_line_def parse_mode_def is_option_word_def takes_argument_def take_option_def)

lemma log_levels: "map log_mask [''0'', ''1'', ''2'', ''3'', ''4'', ''9'', ''-1''] = [0, 1, 3, 7, 15, 15, 15]"
  by code_simp

section \<open>Properties of the start\<close>

text \<open>The device is that of the first attempt that finds one, and there are at most ten.\<close>

lemma connect_tries_first:
  "connect_tries n attempt world = Some (Some d) \<Longrightarrow>
     \<exists>k < min n (length world). attempt (world ! k) = Some (Some d) \<and>
       (\<forall>j < k. attempt (world ! j) = Some None)"
proof (induction n attempt world rule: connect_tries.induct)
  case (3 n attempt w world)
  show ?case
  proof (cases "attempt w = Some (Some d)")
    case True
    then show ?thesis by (intro exI [of _ 0]) simp
  next
    case False
    then have w: "attempt w = Some None" and r: "connect_tries n attempt world = Some (Some d)"
      using "3.prems" by (auto split: bind_splits if_splits)
    from "3.IH" [OF w _ r] obtain k where "k < min n (length world)" "attempt (world ! k) = Some (Some d)"
      "\<forall>j < k. attempt (world ! j) = Some None" by auto
    then show ?thesis using w by (intro exI [of _ "Suc k"]) (auto simp: less_Suc_eq_0_disj)
  qed
qed simp_all

lemma handshake_keeps: "world_ok n w \<Longrightarrow> handshake E info w = Some (good, w') \<Longrightarrow> world_ok n w'"
  by (auto simp: handshake_def split: bind_splits if_splits)

text \<open>
  The program from its start: whatever the command line, the device and the order of what
  happens afterwards, the database is well formed and the lock is free between two steps.
\<close>

lemma main_connected_keeps:
  assumes "main_connected E info fs device = Some (Some S)" and "sys_steps E S S'"
  shows "world_ok 0 (sy_world S')"
proof -
  have "world_ok 0 (first_world fs s)" for s by (simp add: world_ok_def first_world_def)
  then have "world_ok 0 (sy_world S)"
    using assms(1) handshake_keeps [of 0 _ E info]
    by (fastforce simp: main_connected_def start_threads_def split: option.splits bind_splits if_splits)
  then show ?thesis using sys_steps_keep [OF assms(2)] by simp
qed

lemma program_keeps_invariant:
  assumes "opencma_main Z argv = Some (Inl (Some S))" and "parse_command_line argv = Some (wl, paths, level)"
    and "sys_steps (su_usb_env Z paths level) S S'"
  shows "world_ok 0 (sy_world S')"
  using assms by (auto simp: opencma_main_def intro: main_connected_keeps split: if_splits bind_splits)

lemma wireless_program_keeps_invariant:
  assumes "opencma_main Z argv = Some (Inr (Some S))" and "parse_command_line argv = Some (wl, paths, level)"
    and "sys_steps (su_net_env Z paths level) S S'"
  shows "world_ok 0 (sy_world S')"
  using assms by (auto simp: opencma_main_def intro: main_connected_keeps split: if_splits bind_splits)

end
