(* ===== verification/Opencma_Locks.thy ===== *)
theory Opencma_Locks
  imports Main
begin

text \<open>
  The database lock of OpenCMA, action by action. \<open>Opencma_System\<close> runs a handler and a refresh
  as one step each; here the two threads that touch the database, the event listener and
  the main thread that refreshes it, take turns between any two of their actions on the lock,
  the pointer \<open>g_database\<close> and the objects behind it (\<open>src/src/opencma.c\<close>,
  \<open>src/src/database.c\<close>). What a handler does with an object is left out; that it looks at one,
  and when, is not.
\<close>

section \<open>The shared state\<close>

datatype thread = Listener | Refresher

text \<open>
  \<open>Live g\<close> is the database of the refresh with the number \<open>g\<close>, \<open>Dangling\<close> a pointer to objects
  that were freed. The mutex is recursive; a mutex that is held has its owner and depth. Using
  it before \<open>pthread_mutex_init\<close> or after \<open>pthread_mutex_destroy\<close> is undefined.
\<close>

datatype database = Missing | Live nat | Dangling

datatype mutex = Unusable | Free | Held thread nat

datatype fault = Null_dereference | Use_after_free | Undefined_lock

record shared =
  sh_db :: database
  sh_mutex :: mutex
  sh_refreshes :: nat

text \<open>An action goes on, has to wait, or is undefined.\<close>

datatype 'a outcome = Goes_on 'a | Waits | Fails fault

definition lock :: "thread \<Rightarrow> mutex \<Rightarrow> mutex outcome" where
  "lock t m = (case m of
       Unusable \<Rightarrow> Fails Undefined_lock
     | Free \<Rightarrow> Goes_on (Held t 1)
     | Held t' n \<Rightarrow> if t' = t then Goes_on (Held t (n + 1)) else Waits)"

text \<open>Every unlock of the source is of a lock that its thread holds.\<close>

definition unlock :: "thread \<Rightarrow> mutex \<Rightarrow> mutex outcome" where
  "unlock t m = (case m of
       Held t' n \<Rightarrow> if t' \<noteq> t then Fails Undefined_lock
                    else Goes_on (if n \<le> 1 then Free else Held t (n - 1))
     | _ \<Rightarrow> Fails Undefined_lock)"

section \<open>Handlers\<close>

text \<open>
  \<open>A_test\<close> leaves the handler when there is no database, \<open>A_read\<close> walks over the database and
  takes a pointer to an object of it, \<open>A_use\<close> looks at the object that was taken.
\<close>

datatype action = A_test | A_lock | A_unlock | A_read | A_use

definition lookup :: "action list" where
  "lookup = [A_lock, A_read, A_unlock]"

text \<open>
  A handler that looks its object up and uses it \<open>n\<close> times with the lock held; for a missing
  object \<open>n\<close> is 0. The lookups (\<open>ohfiToObject\<close>, \<open>pathToObject\<close>, \<open>filterObjects\<close>) take the lock
  again.
\<close>

definition critical :: "nat \<Rightarrow> action list" where
  "critical n = [A_lock] @ lookup @ replicate n A_use @ [A_unlock]"

definition acts_SendNumOfObject :: "action list" where
  "acts_SendNumOfObject = A_test # critical 0"
definition acts_SendObjectMetadata :: "nat \<Rightarrow> action list" where
  "acts_SendObjectMetadata n = critical n"
definition acts_SendObject :: "nat \<Rightarrow> action list" where
  "acts_SendObject n = critical n"
definition acts_SendObjectStatus :: "nat \<Rightarrow> action list" where
  "acts_SendObjectStatus n = critical n"
definition acts_SendObjectThumb :: "nat \<Rightarrow> action list" where
  "acts_SendObjectThumb n = critical n"
definition acts_SendPartOfObject :: "nat \<Rightarrow> action list" where
  "acts_SendPartOfObject n = critical n"
definition acts_SendStorageSize :: "nat \<Rightarrow> action list" where
  "acts_SendStorageSize n = critical n"
definition acts_CheckExistance :: "nat \<Rightarrow> action list" where
  "acts_CheckExistance n = critical n"
definition acts_SendObjectMetadataItems :: "nat \<Rightarrow> action list" where
  "acts_SendObjectMetadataItems n = critical n"

text \<open>
  A function that changes the database at an object that was taken before
  (\<open>addToDatabase\<close>, \<open>removeFromDatabase\<close>, \<open>renameRootEntry\<close>).
\<close>

definition change :: "action list" where
  "change = [A_lock, A_use, A_unlock]"

text \<open>
  A new object is added, its path used, and it is removed again when the file or folder cannot
  be made. A renamed object gets its name back when the file cannot be moved.
\<close>

datatype operation = No_root | Create bool | Rename_to bool | Not_implemented

definition acts_OperateObject :: "operation \<Rightarrow> action list" where
  "acts_OperateObject oper = (case oper of
       No_root \<Rightarrow> critical 0
     | Create made \<Rightarrow> [A_lock] @ lookup @ change @ [A_use] @ (if made then [A_use, A_use, A_use] else change) @ [A_unlock]
     | Rename_to moved \<Rightarrow> [A_lock] @ lookup @ [A_use, A_use] @ change @ [A_use] @
         (if moved then [A_use, A_use, A_use] else change) @ [A_unlock]
     | Not_implemented \<Rightarrow> critical 0)"

text \<open>The parent is looked up as well, if the object was found.\<close>

definition acts_DeleteObject :: "bool \<Rightarrow> action list" where
  "acts_DeleteObject found =
     (if found then [A_lock] @ lookup @ [A_use] @ lookup @ [A_use, A_use] @ change @ [A_unlock] else critical 0)"

text \<open>After the file was written the size is added to the object and to the \<open>n\<close> folders it is in.\<close>

definition acts_GetPartOfObject :: "bool \<Rightarrow> bool \<Rightarrow> nat \<Rightarrow> action list" where
  "acts_GetPartOfObject found written n =
     (if \<not> found then critical 0
      else [A_lock] @ lookup @ [A_use, A_use] @
        (if written then [A_use] @ concat (replicate n (lookup @ [A_use])) else []) @ [A_use, A_unlock])"

text \<open>Each of the objects is looked up and its size added, up to one that is missing.\<close>

definition acts_SendCopyConfirmationInfo :: "nat \<Rightarrow> bool \<Rightarrow> action list" where
  "acts_SendCopyConfirmationInfo n missing =
     [A_lock] @ concat (replicate n (lookup @ [A_use])) @ (if missing then lookup else []) @ [A_unlock]"

text \<open>
  The path of \<open>vitaEventSendObject\<close> on which the file cannot be read: the message that says so
  has the path of the object, after the lock was given back.
\<close>

definition acts_SendObject_unreadable :: "nat \<Rightarrow> action list" where
  "acts_SendObject_unreadable n = critical n @ [A_use]"

text \<open>
  The parent is looked up before the object is received from the device, and used after that
  with the lock taken anew.
\<close>

definition acts_GetTreatObject :: "nat \<Rightarrow> action list" where
  "acts_GetTreatObject n = lookup @ [A_lock, A_use] @ replicate n A_use @ [A_unlock]"

text \<open>
  What makes a sequence of actions well locked: the database is read and objects are used only
  with the lock held, an object only if it was taken since the lock was taken, and the lock is
  given back. \<open>d\<close> is the depth of the lock, \<open>h\<close> says that an object was taken.
\<close>

fun well_locked :: "nat \<Rightarrow> bool \<Rightarrow> action list \<Rightarrow> bool" where
  "well_locked d h [] \<longleftrightarrow> d = 0"
| "well_locked d h (A_test # as) \<longleftrightarrow> d = 0 \<and> well_locked d h as"
| "well_locked d h (A_lock # as) \<longleftrightarrow> well_locked (d + 1) h as"
| "well_locked d h (A_unlock # as) \<longleftrightarrow> 0 < d \<and> well_locked (d - 1) (h \<and> 1 < d) as"
| "well_locked d h (A_read # as) \<longleftrightarrow> 0 < d \<and> well_locked d True as"
| "well_locked d h (A_use # as) \<longleftrightarrow> 0 < d \<and> h \<and> well_locked d h as"

lemma well_locked_uses:
  "0 < d \<Longrightarrow> well_locked d True (replicate n A_use @ as) \<longleftrightarrow> well_locked d True as"
  by (induction n) auto

lemma well_locked_critical [simp]: "well_locked 0 False (critical n @ as) \<longleftrightarrow> well_locked 0 False as"
  by (simp add: critical_def lookup_def well_locked_uses)

lemma well_locked_lookups:
  "well_locked 1 True (concat (replicate n (lookup @ [A_use])) @ as) \<longleftrightarrow> well_locked 1 True as"
  by (induction n) (simp_all add: lookup_def)

lemma well_locked_sizes:
  "well_locked 1 False (concat (replicate n (lookup @ [A_use])) @ (if missing then lookup else []) @ [A_unlock])"
  using well_locked_lookups [of "n - 1"] by (cases n) (simp_all add: lookup_def)

lemmas handler_defs = acts_SendNumOfObject_def acts_SendObjectMetadata_def acts_SendObject_def
  acts_SendObjectStatus_def acts_SendObjectThumb_def acts_SendPartOfObject_def
  acts_SendStorageSize_def acts_CheckExistance_def acts_SendObjectMetadataItems_def

definition locked_handlers :: "nat \<Rightarrow> bool \<Rightarrow> bool \<Rightarrow> operation \<Rightarrow> action list list" where
  "locked_handlers n b c oper = [acts_SendNumOfObject, acts_SendObjectMetadata n, acts_SendObject n,
     acts_SendObjectStatus n, acts_SendObjectThumb n, acts_SendPartOfObject n,
     acts_GetPartOfObject b c n, acts_SendStorageSize n, acts_CheckExistance n,
     acts_SendObjectMetadataItems n, acts_OperateObject oper, acts_DeleteObject b,
     acts_SendCopyConfirmationInfo n b]"

lemma handlers_well_locked:
  assumes "as \<in> set (locked_handlers n b c oper)"
  shows "well_locked 0 False as"
proof -
  have "well_locked 0 False (acts_OperateObject oper)" "well_locked 0 False (acts_DeleteObject b)"
    using well_locked_critical [of 0 "[]"]
    by (auto simp: acts_OperateObject_def acts_DeleteObject_def lookup_def change_def split: operation.splits)
  moreover have "well_locked 0 False (acts_GetPartOfObject b c n)"
    using well_locked_critical [of 0 "[]"] well_locked_lookups [of n "[A_use, A_unlock]"]
    by (simp add: acts_GetPartOfObject_def lookup_def)
  moreover have "well_locked 0 False (acts_SendCopyConfirmationInfo n b)"
    using well_locked_sizes by (simp add: acts_SendCopyConfirmationInfo_def)
  ultimately show ?thesis
    using assms well_locked_critical [of _ "[]"] by (auto simp: locked_handlers_def handler_defs)
qed

text \<open>Whatever these handlers find and do.\<close>

definition opencma_handlers :: "action list set" where
  "opencma_handlers = {as. \<exists>n b c oper. as \<in> set (locked_handlers n b c oper)}"

lemma opencma_handlers_well_locked: "\<forall>as \<in> opencma_handlers. well_locked 0 False as"
  using handlers_well_locked by (auto simp: opencma_handlers_def)

lemma not_well_locked:
  "\<not> well_locked 0 False (acts_SendObject_unreadable n)" "\<not> well_locked 0 False (acts_GetTreatObject n)"
  by (simp_all add: acts_SendObject_unreadable_def acts_GetTreatObject_def lookup_def)

text \<open>
  All the handlers, the two that are not well locked with the others. What they do to the lock
  alone is well locked, whatever objects they use.
\<close>

definition all_handlers :: "action list set" where
  "all_handlers = opencma_handlers \<union> {as. \<exists>n. as = acts_GetTreatObject n \<or> as = acts_SendObject_unreadable n}"

definition locks_of :: "action list \<Rightarrow> action list" where
  "locks_of as = filter (\<lambda>a. a \<noteq> A_use) as"

lemma locks_of_simps [simp]:
  "locks_of [] = []" "locks_of (a # as) = (if a = A_use then locks_of as else a # locks_of as)"
  "locks_of (as @ bs) = locks_of as @ locks_of bs" "locks_of (replicate n A_use) = []"
  by (simp_all add: locks_of_def)

lemma well_locked_locks: "well_locked d h as \<Longrightarrow> well_locked d h (locks_of as)"
  by (induction d h as rule: well_locked.induct) auto

lemma all_handlers_well_locked: "\<forall>as \<in> all_handlers. well_locked 0 False (locks_of as)"
  using opencma_handlers_well_locked well_locked_locks
  by (auto simp: all_handlers_def acts_GetTreatObject_def acts_SendObject_unreadable_def critical_def lookup_def)

section \<open>The refresh\<close>

text \<open>
  Where the main thread is in \<open>destroyDatabase\<close> and \<open>createDatabase\<close>: the action it does
  next.
\<close>

datatype pc = Idle | D_test | D_lock | D_objects | D_unlock | D_mutex | D_struct
  | C_init | C_lock | C_alloc | C_fill | C_unlock

text \<open>The places are ordered as the code is.\<close>

fun place :: "pc \<Rightarrow> nat" where
  "place Idle = 0" | "place D_test = 1" | "place D_lock = 2" | "place D_objects = 3"
| "place D_unlock = 4" | "place D_mutex = 5" | "place D_struct = 6" | "place C_init = 7"
| "place C_lock = 8" | "place C_alloc = 9" | "place C_fill = 10" | "place C_unlock = 11"

lemma place_inject: "place p = place q \<Longrightarrow> p = q"
  by (cases p; cases q) simp_all

instantiation pc :: linorder
begin

definition less_eq_pc :: "pc \<Rightarrow> pc \<Rightarrow> bool" where
  "less_eq_pc p q \<longleftrightarrow> place p \<le> place q"

definition less_pc :: "pc \<Rightarrow> pc \<Rightarrow> bool" where
  "less_pc p q \<longleftrightarrow> place p < place q"

instance
  by standard (auto simp: less_eq_pc_def less_pc_def intro: place_inject)

end

text \<open>
  \<open>D_mutex\<close> destroys the mutex, which must be free, \<open>D_struct\<close> frees the structure and clears
  the pointer, \<open>C_init\<close> makes the mutex, which must not be one, \<open>C_fill\<close> enters the directories.
\<close>

definition on_lock :: "shared \<Rightarrow> pc \<Rightarrow> mutex outcome \<Rightarrow> (pc \<times> shared) outcome" where
  "on_lock s p m = (case m of Goes_on m' \<Rightarrow> Goes_on (p, s\<lparr>sh_mutex := m'\<rparr>) | Waits \<Rightarrow> Waits | Fails f \<Rightarrow> Fails f)"

definition destroyDatabase_action :: "pc \<Rightarrow> shared \<Rightarrow> (pc \<times> shared) outcome" where
  "destroyDatabase_action p s =
     (case p of
       D_test \<Rightarrow> Goes_on (if sh_db s = Missing then C_init else D_lock, s)
     | D_lock \<Rightarrow> on_lock s D_objects (lock Refresher (sh_mutex s))
     | D_objects \<Rightarrow> Goes_on (D_unlock, s\<lparr>sh_db := Dangling\<rparr>)
     | D_unlock \<Rightarrow> on_lock s D_mutex (unlock Refresher (sh_mutex s))
     | D_mutex \<Rightarrow> if sh_mutex s = Free then Goes_on (D_struct, s\<lparr>sh_mutex := Unusable\<rparr>)
                  else Fails Undefined_lock
     | _ \<Rightarrow> Goes_on (C_init, s\<lparr>sh_db := Missing\<rparr>))"

definition createDatabase_action :: "pc \<Rightarrow> shared \<Rightarrow> (pc \<times> shared) outcome" where
  "createDatabase_action p s =
     (case p of
       C_init \<Rightarrow> if sh_mutex s = Unusable then Goes_on (C_lock, s\<lparr>sh_mutex := Free\<rparr>)
                 else Fails Undefined_lock
     | C_lock \<Rightarrow> on_lock s C_alloc (lock Refresher (sh_mutex s))
     | C_alloc \<Rightarrow> Goes_on (C_fill, s\<lparr>sh_db := Live (sh_refreshes s + 1), sh_refreshes := sh_refreshes s + 1\<rparr>)
     | C_fill \<Rightarrow> Goes_on (C_unlock, s)
     | _ \<Rightarrow> on_lock s Idle (unlock Refresher (sh_mutex s)))"

text \<open>The main thread, when it was asked for a refresh, calls the two one after the other.\<close>

definition refresh_action :: "pc \<Rightarrow> shared \<Rightarrow> (pc \<times> shared) outcome" where
  "refresh_action p s =
     (if p = Idle then Goes_on (D_test, s)
      else if p \<in> {D_test, D_lock, D_objects, D_unlock, D_mutex, D_struct} then destroyDatabase_action p s
      else createDatabase_action p s)"

lemmas refresh_defs = refresh_action_def destroyDatabase_action_def createDatabase_action_def on_lock_def

section \<open>Turns\<close>

record conf =
  cf_shared :: shared
  cf_pc :: pc
  cf_todo :: "action list"
  cf_taken :: "nat option"

text \<open>At the start there is neither a database nor a mutex.\<close>

definition started :: conf where
  "started = \<lparr>cf_shared = \<lparr>sh_db = Missing, sh_mutex = Unusable, sh_refreshes = 0\<rparr>, cf_pc = Idle,
     cf_todo = [], cf_taken = None\<rparr>"

definition read_db :: "shared \<Rightarrow> nat outcome" where
  "read_db s = (case sh_db s of Missing \<Rightarrow> Fails Null_dereference | Live g \<Rightarrow> Goes_on g
                | Dangling \<Rightarrow> Fails Use_after_free)"

definition listener_action :: "action \<Rightarrow> action list \<Rightarrow> conf \<Rightarrow> conf outcome" where
  "listener_action a as S =
     (let s = cf_shared S;
          with_lock = (\<lambda>m. case m of Goes_on m' \<Rightarrow> Goes_on (S\<lparr>cf_shared := s\<lparr>sh_mutex := m'\<rparr>, cf_todo := as\<rparr>)
                         | Waits \<Rightarrow> Waits | Fails f \<Rightarrow> Fails f)
      in case a of
       A_test \<Rightarrow> Goes_on (S\<lparr>cf_todo := (if sh_db s = Missing then [] else as)\<rparr>)
     | A_lock \<Rightarrow> with_lock (lock Listener (sh_mutex s))
     | A_unlock \<Rightarrow> with_lock (unlock Listener (sh_mutex s))
     | A_read \<Rightarrow> (case read_db s of Goes_on g \<Rightarrow> Goes_on (S\<lparr>cf_todo := as, cf_taken := Some g\<rparr>)
                  | Waits \<Rightarrow> Waits | Fails f \<Rightarrow> Fails f)
     | A_use \<Rightarrow> if cf_taken S \<noteq> None \<and> sh_db s = Live (the (cf_taken S)) then Goes_on (S\<lparr>cf_todo := as\<rparr>)
                else Fails Use_after_free)"

text \<open>An event starts a handler, or a thread does its next action.\<close>

datatype thread_move = Event "action list" | Listen | Refresh

fun do_turn :: "thread_move \<Rightarrow> conf \<Rightarrow> conf outcome" where
  "do_turn (Event as) S = (if cf_todo S = [] then Goes_on (S\<lparr>cf_todo := as, cf_taken := None\<rparr>) else Waits)"
| "do_turn Listen S = (case cf_todo S of [] \<Rightarrow> Waits | a # as \<Rightarrow> listener_action a as S)"
| "do_turn Refresh S = (case refresh_action (cf_pc S) (cf_shared S) of
       Goes_on (p, s) \<Rightarrow> Goes_on (S\<lparr>cf_pc := p, cf_shared := s\<rparr>) | Waits \<Rightarrow> Waits | Fails f \<Rightarrow> Fails f)"

fun turns :: "thread_move list \<Rightarrow> conf \<Rightarrow> conf outcome" where
  "turns [] S = Goes_on S"
| "turns (m # ms) S = (case do_turn m S of Goes_on S' \<Rightarrow> turns ms S' | Waits \<Rightarrow> Waits | Fails f \<Rightarrow> Fails f)"

text \<open>
  The database is exposed before the first refresh, and in a refresh from the unlock in
  \<open>destroyDatabase\<close> to the lock in \<open>createDatabase\<close>. A calm run is one in which no handler
  takes or holds the lock then; it may look whether there is a database.
\<close>

definition exposed :: "conf \<Rightarrow> bool" where
  "exposed S \<longleftrightarrow> D_mutex \<le> cf_pc S \<and> cf_pc S \<le> C_lock \<or> cf_pc S \<le> D_test \<and> sh_db (cf_shared S) = Missing"

definition calm :: "conf \<Rightarrow> thread_move \<Rightarrow> bool" where
  "calm S m \<longleftrightarrow> (m = Listen \<and> exposed S \<longrightarrow> cf_todo S = [] \<or> hd (cf_todo S) = A_test)"

inductive reaches :: "action list set \<Rightarrow> (conf \<Rightarrow> thread_move \<Rightarrow> bool) \<Rightarrow> conf \<Rightarrow> bool" for H G where
  at_start: "reaches H G started"
| by_turn: "reaches H G S \<Longrightarrow> G S m \<Longrightarrow> (\<And>as. m = Event as \<Longrightarrow> as \<in> H) \<Longrightarrow> do_turn m S = Goes_on S' \<Longrightarrow> reaches H G S'"

inductive_cases reaches_turnE: "reaches H G S"

section \<open>The invariant\<close>

text \<open>The depth to which the listener holds the lock, and what it may rely on then.\<close>

definition depth :: "mutex \<Rightarrow> nat" where
  "depth m = (case m of Held Listener n \<Rightarrow> n | _ \<Rightarrow> 0)"

definition listener_ok :: "conf \<Rightarrow> bool" where
  "listener_ok S \<longleftrightarrow> (\<exists>h. well_locked (depth (sh_mutex (cf_shared S))) h (cf_todo S) \<and>
     (h \<longrightarrow> 0 < depth (sh_mutex (cf_shared S)) \<and>
        (\<exists>g. cf_taken S = Some g \<and> sh_db (cf_shared S) = Live g)))"

definition mutex_ok :: "mutex \<Rightarrow> bool" where
  "mutex_ok m \<longleftrightarrow> (\<forall>t n. m = Held t n \<longrightarrow> 0 < n)"

definition refresher_ok :: "pc \<Rightarrow> shared \<Rightarrow> bool" where
  "refresher_ok p s \<longleftrightarrow>
     (let live = (\<exists>g. sh_db s = Live g); m = sh_mutex s; usable = (m = Free \<or> (\<exists>n. m = Held Listener n))
      in case p of
       Idle \<Rightarrow> live \<and> usable \<or> sh_db s = Missing \<and> m = Unusable
     | D_test \<Rightarrow> live \<and> usable \<or> sh_db s = Missing \<and> m = Unusable
     | D_lock \<Rightarrow> live \<and> usable
     | D_objects \<Rightarrow> live \<and> m = Held Refresher 1
     | D_unlock \<Rightarrow> sh_db s = Dangling \<and> m = Held Refresher 1
     | D_mutex \<Rightarrow> sh_db s = Dangling \<and> m = Free
     | D_struct \<Rightarrow> sh_db s = Dangling \<and> m = Unusable
     | C_init \<Rightarrow> sh_db s = Missing \<and> m = Unusable
     | C_lock \<Rightarrow> sh_db s = Missing \<and> m = Free
     | C_alloc \<Rightarrow> sh_db s = Missing \<and> m = Held Refresher 1
     | C_fill \<Rightarrow> live \<and> m = Held Refresher 1
     | C_unlock \<Rightarrow> live \<and> m = Held Refresher 1)"

definition conf_ok :: "conf \<Rightarrow> bool" where
  "conf_ok S \<longleftrightarrow> refresher_ok (cf_pc S) (cf_shared S) \<and> mutex_ok (sh_mutex (cf_shared S)) \<and> listener_ok S"

lemmas conf_ok_defs = conf_ok_def refresher_ok_def mutex_ok_def listener_ok_def depth_def

lemma conf_ok_started: "conf_ok started"
  unfolding conf_ok_defs started_def by (simp add: exI [of _ False])

lemma place_simps: "(p \<le> q) = (place p \<le> place q)"
  by (rule less_eq_pc_def)

text \<open>A turn of the main thread neither fails nor breaks the invariant.\<close>

lemma refresh_turn_ok:
  assumes "conf_ok S"
  shows "do_turn Refresh S \<noteq> Fails f" and "do_turn Refresh S = Goes_on S' \<Longrightarrow> conf_ok S'"
  using assms
  by (cases "cf_pc S"; auto simp: conf_ok_defs refresh_defs lock_def unlock_def Let_def
      split: mutex.splits if_splits outcome.splits thread.splits)+

text \<open>
  While the listener holds the lock, or the database is not exposed and the lock is free, the
  main thread is outside of its critical sections and the database is there.
\<close>

lemma held_live:
  assumes "refresher_ok p s" and "sh_mutex s = Held Listener n"
  shows "p \<in> {Idle, D_test, D_lock} \<and> (\<exists>g. sh_db s = Live g)"
  using assms by (cases p) (auto simp: refresher_ok_def Let_def)

lemma lockable:
  assumes "refresher_ok (cf_pc S) (cf_shared S)" and "\<not> exposed S"
  shows "sh_mutex (cf_shared S) \<noteq> Unusable"
    and "sh_mutex (cf_shared S) = Free \<Longrightarrow> cf_pc S \<in> {Idle, D_test, D_lock} \<and> (\<exists>g. sh_db (cf_shared S) = Live g)"
  using assms by (cases "cf_pc S"; auto simp: refresher_ok_def exposed_def place_simps Let_def)+

lemma refresher_ok_listener:
  assumes "p \<in> {Idle, D_test, D_lock}" and "sh_db s = Live g" and "m = Free \<or> m = Held Listener n"
  shows "refresher_ok p (s\<lparr>sh_mutex := m\<rparr>)"
  using assms by (auto simp: refresher_ok_def)

lemma listener_okI:
  assumes "well_locked (depth (sh_mutex (cf_shared S))) h (cf_todo S)"
    and "h \<Longrightarrow> 0 < depth (sh_mutex (cf_shared S)) \<and> (\<exists>g. cf_taken S = Some g \<and> sh_db (cf_shared S) = Live g)"
  shows "listener_ok S"
  using assms unfolding listener_ok_def by blast

lemma listener_okE:
  assumes "listener_ok S"
  obtains h where "well_locked (depth (sh_mutex (cf_shared S))) h (cf_todo S)"
    and "h \<Longrightarrow> 0 < depth (sh_mutex (cf_shared S))"
    and "h \<Longrightarrow> \<exists>g. cf_taken S = Some g \<and> sh_db (cf_shared S) = Live g"
  using assms unfolding listener_ok_def by blast

lemma depth_simps [simp]:
  "depth Free = 0" "depth Unusable = 0" "depth (Held Listener n) = n" "depth (Held Refresher n) = 0"
  by (simp_all add: depth_def)

lemma depth_pos: "0 < depth m \<Longrightarrow> \<exists>n. m = Held Listener n \<and> 0 < n"
  by (auto simp: depth_def split: mutex.splits thread.splits)

text \<open>The five actions of a handler.\<close>

lemma test_ok:
  assumes "conf_ok S" and "cf_todo S = A_test # as"
  shows "do_turn Listen S \<noteq> Fails f" and "do_turn Listen S = Goes_on S' \<Longrightarrow> conf_ok S'"
  using assms by (auto simp: conf_ok_def listener_action_def Let_def elim!: listener_okE
      intro!: listener_okI [where h = False])

lemma lock_ok:
  assumes "conf_ok S" and "cf_todo S = A_lock # as" and "\<not> exposed S"
  shows "do_turn Listen S \<noteq> Fails f" and "do_turn Listen S = Goes_on S' \<Longrightarrow> conf_ok S'"
proof -
  let ?s = "cf_shared S"
  from assms(1) have r: "refresher_ok (cf_pc S) ?s" and l: "listener_ok S" by (auto simp: conf_ok_def)
  from l obtain h where h: "well_locked (depth (sh_mutex ?s)) h (A_lock # as)" "h \<Longrightarrow> 0 < depth (sh_mutex ?s)"
    "h \<Longrightarrow> \<exists>g. cf_taken S = Some g \<and> sh_db ?s = Live g"
    using assms(2) by (elim listener_okE) auto
  note usable = lockable [OF r assms(3)]
  show "do_turn Listen S \<noteq> Fails f"
    using usable(1) assms(2)
    by (auto simp: listener_action_def lock_def Let_def split: mutex.splits outcome.splits if_splits)
  assume go: "do_turn Listen S = Goes_on S'"
  let ?after = "\<lambda>n. S\<lparr>cf_shared := ?s\<lparr>sh_mutex := Held Listener n\<rparr>, cf_todo := as\<rparr>"
  have ok: "conf_ok (?after n)" if "cf_pc S \<in> {Idle, D_test, D_lock}" "sh_db ?s = Live g" "0 < n"
    "well_locked n h as" for n g
    using that h(3) refresher_ok_listener [OF that(1,2), of _ n]
    by (auto simp: conf_ok_def mutex_ok_def intro!: listener_okI [where h = h])
  show "conf_ok S'"
  proof (cases "sh_mutex ?s")
    case Unusable
    with usable(1) show ?thesis by simp
  next
    case Free
    then have "S' = ?after 1" using go assms(2) by (simp add: listener_action_def lock_def)
    then show ?thesis using usable(2) [OF Free] ok [of _ 1] h(1) Free by auto
  next
    case (Held t n)
    then have t: "t = Listener" and S': "S' = ?after (n + 1)"
      using go assms(2) by (auto simp: listener_action_def lock_def split: if_splits)
    then show ?thesis using held_live [OF r] ok [of _ "n + 1"] h(1) Held by auto
  qed
qed

lemma unlock_ok:
  assumes "conf_ok S" and "cf_todo S = A_unlock # as"
  shows "do_turn Listen S \<noteq> Fails f" and "do_turn Listen S = Goes_on S' \<Longrightarrow> conf_ok S'"
proof -
  let ?s = "cf_shared S"
  from assms(1) have r: "refresher_ok (cf_pc S) ?s" and l: "listener_ok S" by (auto simp: conf_ok_def)
  from l obtain h where h: "well_locked (depth (sh_mutex ?s)) h (A_unlock # as)"
    "h \<Longrightarrow> \<exists>g. cf_taken S = Some g \<and> sh_db ?s = Live g"
    using assms(2) by (elim listener_okE) auto
  then have "0 < depth (sh_mutex ?s)" by simp
  then obtain n where m: "sh_mutex ?s = Held Listener n" "0 < n" using depth_pos by blast
  then have w: "well_locked (n - 1) (h \<and> 1 < n) as" using h(1) by simp
  obtain g where p: "cf_pc S \<in> {Idle, D_test, D_lock}" and g: "sh_db ?s = Live g" using held_live [OF r m(1)] by blast
  show "do_turn Listen S \<noteq> Fails f" using m assms(2) by (simp add: listener_action_def unlock_def)
  assume "do_turn Listen S = Goes_on S'"
  then have S': "S' = S\<lparr>cf_shared := ?s\<lparr>sh_mutex := (if n \<le> 1 then Free else Held Listener (n - 1))\<rparr>, cf_todo := as\<rparr>"
    using m assms(2) by (simp add: listener_action_def unlock_def)
  show "conf_ok S'"
    unfolding S' conf_ok_def
    using w h(2) m(2) refresher_ok_listener [OF p g, of _ "n - 1"]
    by (auto simp: mutex_ok_def intro!: listener_okI [where h = "h \<and> 1 < n"])
qed

lemma look_ok:
  assumes "conf_ok S" and "cf_todo S = a # as" and "a = A_read \<or> a = A_use"
  shows "do_turn Listen S \<noteq> Fails f" and "do_turn Listen S = Goes_on S' \<Longrightarrow> conf_ok S'"
proof -
  let ?s = "cf_shared S"
  from assms(1) have r: "refresher_ok (cf_pc S) ?s" and l: "listener_ok S" by (auto simp: conf_ok_def)
  from l obtain h where h: "well_locked (depth (sh_mutex ?s)) h (a # as)"
    "h \<Longrightarrow> \<exists>g. cf_taken S = Some g \<and> sh_db ?s = Live g"
    using assms(2) by (elim listener_okE) auto
  then have d: "0 < depth (sh_mutex ?s)" "well_locked (depth (sh_mutex ?s)) True as" "a = A_use \<Longrightarrow> h"
    using assms(3) by auto
  then obtain n where m: "sh_mutex ?s = Held Listener n" "0 < n" using depth_pos by blast
  obtain g where g: "sh_db ?s = Live g" using held_live [OF r m(1)] by blast
  show "do_turn Listen S \<noteq> Fails f"
    using assms(2,3) g h(2) d(3) by (auto simp: listener_action_def read_db_def)
  assume "do_turn Listen S = Goes_on S'"
  then have "cf_shared S' = ?s \<and> cf_pc S' = cf_pc S \<and> cf_todo S' = as \<and> cf_taken S' = Some g"
    using assms(2,3) g h(2) d(3) by (auto simp: listener_action_def read_db_def)
  then show "conf_ok S'"
    using assms(1) d(1,2) g by (auto simp: conf_ok_def intro!: listener_okI [where h = True])
qed

lemma listen_turn_ok:
  assumes "conf_ok S" and "calm S Listen"
  shows "do_turn Listen S \<noteq> Fails f" and "do_turn Listen S = Goes_on S' \<Longrightarrow> conf_ok S'"
proof -
  have "do_turn Listen S \<noteq> Fails f \<and> (do_turn Listen S = Goes_on S' \<longrightarrow> conf_ok S')"
  proof (cases "cf_todo S")
    case (Cons a as)
    show ?thesis
    proof (cases "exposed S")
      case True
      then have "a = A_test" using assms(2) Cons by (simp add: calm_def)
      then show ?thesis using test_ok [OF assms(1)] Cons by blast
    next
      case False
      then show ?thesis
        using test_ok [OF assms(1)] lock_ok [OF assms(1)] unlock_ok [OF assms(1)] look_ok [OF assms(1)] Cons
        by (cases a) blast+
    qed
  qed simp
  then show "do_turn Listen S \<noteq> Fails f" and "do_turn Listen S = Goes_on S' \<Longrightarrow> conf_ok S'" by simp_all
qed

lemma event_turn_ok:
  assumes "conf_ok S" and "well_locked 0 False as"
  shows "do_turn (Event as) S \<noteq> Fails f" and "do_turn (Event as) S = Goes_on S' \<Longrightarrow> conf_ok S'"
  using assms by (auto simp: conf_ok_def elim!: listener_okE intro!: listener_okI [where h = False] split: if_splits)

lemma reaches_ok:
  assumes "reaches H calm S" and "\<forall>as \<in> H. well_locked 0 False as"
  shows "conf_ok S"
  using assms
proof (induction rule: reaches.induct)
  case at_start
  show ?case by (rule conf_ok_started)
next
  case (by_turn S m S')
  then show ?case using event_turn_ok(2) listen_turn_ok(2) refresh_turn_ok(2) by (cases m) blast+
qed

text \<open>
  A run of any handlers, seen without the uses of objects: those change nothing, and the turns
  that are left are turns of a run that is well locked.
\<close>

definition strip_uses :: "conf \<Rightarrow> conf" where
  "strip_uses S = S\<lparr>cf_todo := locks_of (cf_todo S)\<rparr>"

lemma strip_uses_sel [simp]:
  "cf_shared (strip_uses S) = cf_shared S" "cf_pc (strip_uses S) = cf_pc S"
  "cf_todo (strip_uses S) = locks_of (cf_todo S)" "cf_taken (strip_uses S) = cf_taken S"
  by (simp_all add: strip_uses_def)

lemma strip_refresh: "do_turn Refresh (strip_uses S) = map_outcome strip_uses (do_turn Refresh S)"
  by (auto simp: strip_uses_def split: outcome.splits)

lemma strip_listen:
  assumes "cf_todo S = a # as" and "a \<noteq> A_use"
  shows "do_turn Listen (strip_uses S) = map_outcome strip_uses (do_turn Listen S)"
  using assms by (cases a) (auto simp: strip_uses_def listener_action_def Let_def split: outcome.splits)

lemma strip_use:
  assumes "cf_todo S = A_use # as"
  shows "do_turn Listen S = Goes_on S' \<Longrightarrow> strip_uses S' = strip_uses S"
    and "do_turn Listen S = Fails f \<Longrightarrow> f = Use_after_free"
  using assms by (auto simp: strip_uses_def listener_action_def split: if_splits)

lemma strip_calm: "calm S m \<Longrightarrow> calm (strip_uses S) m"
  by (cases "cf_todo S") (auto simp: calm_def exposed_def)

lemma strip_turn:
  assumes "conf_ok (strip_uses S)" and "calm S m" and "\<And>as. m = Event as \<Longrightarrow> well_locked 0 False (locks_of as)"
  shows "do_turn m S = Goes_on S' \<Longrightarrow> conf_ok (strip_uses S')"
    and "do_turn m S = Fails f \<Longrightarrow> f = Use_after_free \<and> m = Listen \<and> hd (cf_todo S) = A_use"
proof -
  have "(do_turn m S = Goes_on S' \<longrightarrow> conf_ok (strip_uses S')) \<and>
    (do_turn m S = Fails f \<longrightarrow> f = Use_after_free \<and> m = Listen \<and> hd (cf_todo S) = A_use)"
  proof (cases m)
    case (Event as)
    have "do_turn m S = Goes_on S' \<Longrightarrow> do_turn (Event (locks_of as)) (strip_uses S) = Goes_on (strip_uses S')"
      by (auto simp: Event strip_uses_def split: if_splits)
    then show ?thesis using event_turn_ok(2) [OF assms(1) assms(3) [OF Event]] by (auto simp: Event split: if_splits)
  next
    case Refresh
    then show ?thesis using refresh_turn_ok [OF assms(1)] strip_refresh [of S] by fastforce
  next
    case Listen
    show ?thesis
    proof (cases "\<exists>as. cf_todo S = A_use # as")
      case True
      then show ?thesis using strip_use assms(1) Listen by fastforce
    next
      case False
      then have "cf_todo S = [] \<or> do_turn Listen (strip_uses S) = map_outcome strip_uses (do_turn Listen S)"
        using strip_listen by (cases "cf_todo S") blast+
      then show ?thesis
        using listen_turn_ok [OF assms(1)] strip_calm [OF assms(2)] Listen by fastforce
    qed
  qed
  then show "do_turn m S = Goes_on S' \<Longrightarrow> conf_ok (strip_uses S')"
    and "do_turn m S = Fails f \<Longrightarrow> f = Use_after_free \<and> m = Listen \<and> hd (cf_todo S) = A_use" by simp_all
qed

lemma reaches_strip_ok:
  assumes "reaches H calm S" and "\<forall>as \<in> H. well_locked 0 False (locks_of as)"
  shows "conf_ok (strip_uses S)"
  using assms
proof (induction rule: reaches.induct)
  case at_start
  have "strip_uses started = started" by (simp add: strip_uses_def started_def)
  then show ?case using conf_ok_started by simp
next
  case (by_turn S m S')
  then show ?case using strip_turn(1) [of S m S'] by blast
qed

text \<open>A calm run given by its moves.\<close>

fun calm_turns :: "thread_move list \<Rightarrow> conf \<Rightarrow> conf option" where
  "calm_turns [] S = Some S"
| "calm_turns (m # ms) S =
     (if calm S m then (case do_turn m S of Goes_on S' \<Rightarrow> calm_turns ms S' | _ \<Rightarrow> None) else None)"

lemma calm_turns_reach:
  "reaches H calm S \<Longrightarrow> calm_turns ms S = Some S' \<Longrightarrow> \<forall>m \<in> set ms. \<forall>as. m = Event as \<longrightarrow> as \<in> H \<Longrightarrow>
     reaches H calm S'"
proof (induction ms arbitrary: S)
  case (Cons m ms)
  from Cons.prems(2) obtain S1 where m: "calm S m" "do_turn m S = Goes_on S1" and r: "calm_turns ms S1 = Some S'"
    by (cases "do_turn m S") (simp_all split: if_splits)
  have "as \<in> H" if "m = Event as" for as using Cons.prems(3) that by simp
  then have "reaches H calm S1" using by_turn [where G = calm, OF Cons.prems(1) m(1)] m(2) by blast
  then show ?case using Cons.IH [OF _ r] Cons.prems(3) by simp
qed simp

definition first_refresh :: "thread_move list" where "first_refresh = replicate 7 Refresh"
definition later_refresh :: "thread_move list" where "later_refresh = replicate 12 Refresh"

section \<open>What the lock protects\<close>

text \<open>
  Claim C4: a calm run of any of the handlers, all of those of the program with the two that use an
  object outside of the lock, however their actions are mixed with those of the refreshes. Nobody uses a
  mutex that is none, nobody looks at a database that is missing or freed, and the main thread does
  nothing undefined. The one thing that can go wrong is that a handler uses an object that was freed, and
  for that a path of \<open>vitaEventGetTreatObject\<close>, or the one of \<open>vitaEventSendObject\<close> for a file that
  cannot be read, must be among the handlers: with the others alone no action is undefined.
\<close>

theorem calm_runs_are_safe:
  assumes "reaches H calm S" and "H \<subseteq> all_handlers" and "calm S m" and "\<forall>as. m = Event as \<longrightarrow> as \<in> H"
  shows "do_turn m S = Fails f \<longrightarrow>
    f = Use_after_free \<and> m = Listen \<and> hd (cf_todo S) = A_use \<and> \<not> H \<subseteq> opencma_handlers"
proof -
  have w: "\<forall>as \<in> H. well_locked 0 False (locks_of as)" using assms(2) all_handlers_well_locked by blast
  have "do_turn m S \<noteq> Fails f" if "H \<subseteq> opencma_handlers"
  proof -
    from that opencma_handlers_well_locked have "\<forall>as \<in> H. well_locked 0 False as" by blast
    with reaches_ok [OF assms(1)] show ?thesis
      using assms(3,4) event_turn_ok(1) listen_turn_ok(1) refresh_turn_ok(1) by (cases m) blast+
  qed
  moreover have "f = Use_after_free \<and> m = Listen \<and> hd (cf_todo S) = A_use" if "do_turn m S = Fails f"
    using w assms(4) by (intro strip_turn(2) [OF reaches_strip_ok [OF assms(1) w] assms(3) _ that]) simp
  ultimately show ?thesis by metis
qed

definition handler_inside :: conf where
  "handler_inside = the (calm_turns (first_refresh @ [Event (acts_SendObject 1), Listen, Listen, Refresh, Refresh]) started)"

theorem calm_runs_are_safe_witness:
  "do_turn Refresh handler_inside \<noteq> Fails Undefined_lock \<and> do_turn Refresh handler_inside = Waits"
proof -
  have "calm_turns (first_refresh @ [Event (acts_SendObject 1), Listen, Listen, Refresh, Refresh]) started =
      Some handler_inside" unfolding handler_inside_def by code_simp
  moreover have "acts_SendObject 1 \<in> opencma_handlers"
    by (auto simp: opencma_handlers_def locked_handlers_def intro: exI [of _ 1])
  ultimately have "reaches opencma_handlers calm handler_inside"
    by (intro calm_turns_reach [OF at_start]) (auto simp: first_refresh_def)
  moreover have "do_turn Refresh handler_inside = Waits" by code_simp
  moreover have "calm handler_inside Refresh" by (simp add: calm_def)
  moreover have "opencma_handlers \<subseteq> all_handlers" by (simp add: all_handlers_def)
  ultimately show ?thesis
    using calm_runs_are_safe [of opencma_handlers handler_inside Refresh Undefined_lock] by blast
qed

text \<open>
  Claim C8: nothing keeps a run calm. Whenever the database is exposed and a handler is about
  to take the lock and to look something up, the threads can take turns so that an action is
  undefined: the mutex is destroyed or missing, destroyed while it is held, or the database is
  not there.
\<close>

theorem exposed_handler_can_fail:
  assumes "reaches opencma_handlers calm S" and "exposed S" and "cf_todo S = critical n @ as"
  shows "\<exists>ms f. turns ms S = Fails f"
proof -
  let ?s = "cf_shared S"
  have ok: "refresher_ok (cf_pc S) ?s"
    using reaches_ok [OF assms(1) opencma_handlers_well_locked] by (simp add: conf_ok_def)
  have todo: "cf_todo S = A_lock # A_lock # A_read # A_unlock # replicate n A_use @ A_unlock # as"
    using assms(3) by (simp add: critical_def lookup_def)
  consider "sh_mutex ?s = Unusable" | "cf_pc S = D_mutex \<and> sh_mutex ?s = Free"
    | "cf_pc S = C_lock \<and> sh_mutex ?s = Free \<and> sh_db ?s = Missing"
    using ok assms(2) by (cases "cf_pc S") (auto simp: refresher_ok_def exposed_def place_simps Let_def)
  then show ?thesis
  proof cases
    case 1
    then have "turns [Listen] S = Fails Undefined_lock" using todo by (simp add: listener_action_def lock_def)
    then show ?thesis by blast
  next
    case 2
    then have "turns [Listen, Refresh] S = Fails Undefined_lock"
      using todo by (simp add: listener_action_def lock_def refresh_defs)
    then show ?thesis by blast
  next
    case 3
    then have "turns [Listen, Listen, Listen] S = Fails Null_dereference"
      using todo by (simp add: listener_action_def lock_def read_db_def)
    then show ?thesis by blast
  qed
qed

definition handler_outside :: conf where
  "handler_outside = the (calm_turns (first_refresh @ [Event (critical 1)] @ replicate 5 Refresh) started)"

theorem exposed_handler_can_fail_witness:
  "\<exists>ms f. turns ms handler_outside = Fails f"
proof -
  have "calm_turns (first_refresh @ [Event (critical 1)] @ replicate 5 Refresh) started = Some handler_outside"
    unfolding handler_outside_def by code_simp
  moreover have "critical 1 \<in> opencma_handlers"
    by (auto simp: opencma_handlers_def locked_handlers_def handler_defs intro: exI [of _ 1])
  ultimately have "reaches opencma_handlers calm handler_outside"
    by (intro calm_turns_reach [OF at_start]) (auto simp: first_refresh_def)
  moreover have "exposed handler_outside" by code_simp
  moreover have "cf_todo handler_outside = critical 1 @ []" by code_simp
  ultimately show ?thesis using exposed_handler_can_fail by blast
qed

text \<open>The running program after its first refresh, and a handler that took an object of it.\<close>

definition refreshed :: "nat \<Rightarrow> action list \<Rightarrow> nat option \<Rightarrow> conf" where
  "refreshed g as taken = \<lparr>cf_shared = \<lparr>sh_db = Live g, sh_mutex = Free, sh_refreshes = g\<rparr>, cf_pc = Idle,
     cf_todo = as, cf_taken = taken\<rparr>"

lemma first_refresh_turns: "calm_turns (first_refresh @ [Event as]) started = Some (refreshed 1 as None)"
  by (simp add: first_refresh_def started_def refreshed_def calm_def refresh_defs lock_def unlock_def
      numeral_eq_Suc)

lemma later_refresh_turns: "calm_turns later_refresh (refreshed g as taken) = Some (refreshed (g + 1) as taken)"
  by (simp add: later_refresh_def refreshed_def calm_def refresh_defs lock_def unlock_def numeral_eq_Suc)

lemma calm_turns_trans:
  "calm_turns ms S = Some S1 \<Longrightarrow> calm_turns ns S1 = Some S2 \<Longrightarrow> calm_turns (ms @ ns) S = Some S2"
  by (induction ms arbitrary: S) (auto split: outcome.splits if_splits)

text \<open>A handler inside its critical section, and its uses of the object.\<close>

definition holding :: "nat \<Rightarrow> action list \<Rightarrow> conf" where
  "holding g as = (refreshed g as (Some g))\<lparr>cf_shared := \<lparr>sh_db = Live g, sh_mutex = Held Listener 1, sh_refreshes = g\<rparr>\<rparr>"

lemma calm_refreshed [simp]: "calm (refreshed g as taken) m" "calm (holding g as) m"
  by (simp_all add: calm_def exposed_def refreshed_def holding_def place_simps)

lemma use_turns: "calm_turns (replicate n Listen) (holding g (replicate n A_use @ as)) = Some (holding g as)"
proof (induction n)
  case (Suc n)
  have "do_turn Listen (holding g (A_use # rest)) = Goes_on (holding g rest)" for rest
    by (simp add: holding_def refreshed_def listener_action_def)
  then show ?case using Suc by simp
qed simp

lemma lookup_turns:
  "calm_turns [Listen, Listen, Listen] (refreshed g (lookup @ as) None) = Some (refreshed g as (Some g))"
  "calm_turns [Listen, Listen, Listen, Listen] (refreshed g (A_lock # lookup @ as) None) = Some (holding g as)"
  "calm_turns [Listen] (holding g (A_unlock # as)) = Some (refreshed g as (Some g))"
  by (simp_all add: refreshed_def holding_def lookup_def calm_def exposed_def place_simps listener_action_def
      lock_def unlock_def read_db_def)

text \<open>After another refresh an object that was taken before it is gone.\<close>

lemma stale_use:
  assumes "calm_turns ms (refreshed 1 handler None) = Some (refreshed 1 (pre @ A_use # as) (Some 1))"
    and "pre = [] \<or> pre = [A_lock]" and "\<forall>m \<in> set ms. \<forall>as. m = Event as \<longrightarrow> as = handler"
  shows "\<exists>S. reaches {handler} calm S \<and> calm S Listen \<and> do_turn Listen S = Fails Use_after_free"
proof -
  let ?S = "refreshed 2 (pre @ A_use # as) (Some 1)"
  let ?ms = "(first_refresh @ [Event handler]) @ ms @ later_refresh"
  have "calm_turns later_refresh (refreshed 1 (pre @ A_use # as) (Some 1)) = Some ?S"
    using later_refresh_turns [of 1] by (simp add: numeral_2_eq_2)
  then have "calm_turns ?ms started = Some ?S"
    by (intro calm_turns_trans [OF first_refresh_turns] calm_turns_trans [OF assms(1)])
  then have r: "reaches {handler} calm ?S"
    by (rule calm_turns_reach [OF at_start]) (use assms(3) in \<open>auto simp: first_refresh_def later_refresh_def\<close>)
  show ?thesis
  proof (cases "pre = []")
    case True
    then have "do_turn Listen ?S = Fails Use_after_free" by (simp add: refreshed_def listener_action_def)
    then show ?thesis using r calm_refreshed(1) by blast
  next
    case False
    let ?T = "?S\<lparr>cf_shared := (cf_shared ?S)\<lparr>sh_mutex := Held Listener 1\<rparr>, cf_todo := A_use # as\<rparr>"
    have "do_turn Listen ?S = Goes_on ?T"
      using False assms(2) by (simp add: refreshed_def listener_action_def lock_def)
    then have "reaches {handler} calm ?T" using by_turn [where G = calm, OF r calm_refreshed(1), of Listen] by blast
    moreover have "do_turn Listen ?T = Fails Use_after_free" "calm ?T Listen"
      by (simp_all add: refreshed_def listener_action_def calm_def exposed_def place_simps)
    ultimately show ?thesis by blast
  qed
qed

text \<open>
  Claim C15: two paths use an object that the lock no longer keeps, so that a calm run is not
  safe with them: an object that is received from the device is entered under the parent that
  was looked up before a refresh, and the message about a file that cannot be read has the path
  of an object that was freed meanwhile.
\<close>

theorem objects_outlive_refresh:
  assumes "handler = acts_GetTreatObject n \<or> handler = acts_SendObject_unreadable n"
  shows "\<exists>S. reaches {handler} calm S \<and> calm S Listen \<and> do_turn Listen S = Fails Use_after_free"
  using assms
proof
  assume h: "handler = acts_GetTreatObject n"
  have "calm_turns [Listen, Listen, Listen] (refreshed 1 handler None) =
      Some (refreshed 1 ([A_lock] @ A_use # replicate n A_use @ [A_unlock]) (Some 1))"
    using lookup_turns(1) [of 1 "[A_lock, A_use] @ replicate n A_use @ [A_unlock]"]
    by (simp add: h acts_GetTreatObject_def)
  then show ?thesis by (rule stale_use) auto
next
  assume h: "handler = acts_SendObject_unreadable n"
  have "calm_turns [Listen, Listen, Listen, Listen] (refreshed 1 handler None) =
      Some (holding 1 (replicate n A_use @ A_unlock # [A_use]))"
    using lookup_turns(2) [of 1 "replicate n A_use @ A_unlock # [A_use]"]
    by (simp add: h acts_SendObject_unreadable_def critical_def)
  then have "calm_turns ([Listen, Listen, Listen, Listen] @ replicate n Listen @ [Listen]) (refreshed 1 handler None) =
      Some (refreshed 1 ([] @ A_use # []) (Some 1))"
    unfolding append.simps(1) [of "A_use # []"]
    by (intro calm_turns_trans [OF _ calm_turns_trans [OF use_turns lookup_turns(3)]])
  then show ?thesis by (rule stale_use) auto
qed

theorem objects_outlive_refresh_witness:
  "\<exists>S. reaches {acts_GetTreatObject 0} calm S \<and> do_turn Listen S = Fails Use_after_free"
  using objects_outlive_refresh [of "acts_GetTreatObject 0" 0] by blast

end
