(* ===== verification/Ptp_Fd.thy ===== *)
theory Ptp_Fd
  imports Ptp_Ops
begin

text \<open>
  Objects moved between the device and a handler of the caller or a file descriptor
  (\<open>src/src/ptp.c\<close>). An open regular file is its bytes and its offset. What one call of the
  system moves is its own choice: an error, or some of the bytes asked for. A file whose calls
  move all they can is a data handler, the same as the memory handler; the transfers to and
  from a descriptor are modelled for such files.
\<close>

section \<open>The handler of a file descriptor\<close>

record open_file =
  of_bytes :: "byte list"
  of_offset :: nat

text \<open>\<open>answer\<close>: \<open>None\<close> is -1, \<open>Some k\<close> moves at most \<open>k\<close> bytes.\<close>

definition fd_getfunc :: "nat option \<Rightarrow> open_file \<Rightarrow> nat \<Rightarrow> u16 \<times> byte list \<times> open_file" where
  "fd_getfunc answer f wantlen =
     (case answer of
        None \<Rightarrow> (PTP_RC_GeneralError, [], f)
      | Some k \<Rightarrow>
          (let got = take (min k wantlen) (drop (of_offset f) (of_bytes f))
           in (PTP_RC_OK, got, f\<lparr>of_offset := of_offset f + length got\<rparr>)))"

text \<open>The result is the number of bytes written, which the caller compares or does not.\<close>

definition fd_putfunc :: "nat option \<Rightarrow> open_file \<Rightarrow> byte list \<Rightarrow> u16 \<times> nat \<times> open_file" where
  "fd_putfunc answer f bs =
     (case answer of
        None \<Rightarrow> (PTP_RC_GeneralError, 0, f)
      | Some k \<Rightarrow>
          (let w = take k bs; off = of_offset f
           in (PTP_RC_OK, length w,
               f\<lparr>of_bytes := take off (of_bytes f) @ w @ drop (off + length w) (of_bytes f),
                 of_offset := off + length w\<rparr>)))"

text \<open>A file as a memory handler, and the handler as a file again.\<close>

definition ptp_init_fd_handler :: "open_file \<Rightarrow> mem_handler" where
  "ptp_init_fd_handler f = \<lparr>h_data = of_bytes f, h_curoff = of_offset f\<rparr>"

definition ptp_exit_fd_handler :: "mem_handler \<Rightarrow> open_file" where
  "ptp_exit_fd_handler h = \<lparr>of_bytes = h_data h, of_offset = h_curoff h\<rparr>"

lemma exit_init_fd [simp]: "ptp_exit_fd_handler (ptp_init_fd_handler f) = f"
  by (simp add: ptp_init_fd_handler_def ptp_exit_fd_handler_def)

text \<open>Calls that move all they can are those of the memory handler, byte for byte.\<close>

lemma fd_getfunc_memory:
  assumes "of_offset f \<le> length (of_bytes f)" and "wantlen \<le> k"
  shows "fd_getfunc (Some k) f wantlen =
    (case memory_getfunc (ptp_init_fd_handler f) wantlen of
       (ret, bs, h) \<Rightarrow> (ret, bs, ptp_exit_fd_handler h))"
  using assms by (auto simp: fd_getfunc_def memory_getfunc_def ptp_init_fd_handler_def
      ptp_exit_fd_handler_def Let_def min_def)

lemma fd_putfunc_memory:
  assumes "length bs \<le> k"
  shows "fd_putfunc (Some k) f bs =
    (case memory_putfunc (ptp_init_fd_handler f) bs of
       (ret, h) \<Rightarrow> (ret, length bs, ptp_exit_fd_handler h))"
  using assms by (simp add: fd_putfunc_def memory_putfunc_def ptp_init_fd_handler_def
      ptp_exit_fd_handler_def Let_def)

interpretation fd: data_handler "\<lambda>f n. fd_getfunc (Some n) f n"
    "\<lambda>f bs. case fd_putfunc (Some (length bs)) f bs of (ret, _, f') \<Rightarrow> (ret, f')"
    "\<lambda>f. drop (of_offset f) (of_bytes f)" of_bytes "\<lambda>f. of_offset f = length (of_bytes f)"
  by unfold_locales (auto simp: fd_getfunc_def fd_putfunc_def Let_def add.commute min_def)

text \<open>A call that moves less says so, and what it moved stays in order.\<close>

lemma fd_putfunc_short:
  assumes "fd_putfunc (Some k) f bs = (ret, n, f')" and "of_offset f = length (of_bytes f)"
  shows "ret = PTP_RC_OK \<and> n = min k (length bs) \<and> of_bytes f' = of_bytes f @ take k bs"
  using assms by (auto simp: fd_putfunc_def Let_def min_def)

section \<open>The operations\<close>

definition ptp_getobject_to_handler ::
  "'s io_funs \<Rightarrow> 's ptp_session \<Rightarrow> u32 \<Rightarrow> mem_handler \<Rightarrow> (u16 \<times> mem_handler \<times> 's ptp_session) option" where
  "ptp_getobject_to_handler F s handle h = do {
     (ret, _, h', s') \<leftarrow> ptp_transaction_new F s (ptp_request PTP_OC_GetObject [handle]) PTP_DP_GETDATA 0 h;
     Some (ret, h', s') }"

definition ptp_getobject_tofd ::
  "'s io_funs \<Rightarrow> 's ptp_session \<Rightarrow> u32 \<Rightarrow> open_file \<Rightarrow> (u16 \<times> open_file \<times> 's ptp_session) option" where
  "ptp_getobject_tofd F s handle f = do {
     (ret, h, s') \<leftarrow> ptp_getobject_to_handler F s handle (ptp_init_fd_handler f);
     Some (ret, ptp_exit_fd_handler h, s') }"

definition ptp_sendobject_from_handler ::
  "'s io_funs \<Rightarrow> 's ptp_session \<Rightarrow> mem_handler \<Rightarrow> u32 \<Rightarrow> (u16 \<times> mem_handler \<times> 's ptp_session) option" where
  "ptp_sendobject_from_handler F s h sz = do {
     (ret, _, h', s') \<leftarrow> ptp_transaction_new F s (ptp_request PTP_OC_SendObject []) PTP_DP_SENDDATA (unat sz) h;
     Some (ret, h', s') }"

definition ptp_sendobject_fromfd ::
  "'s io_funs \<Rightarrow> 's ptp_session \<Rightarrow> open_file \<Rightarrow> u32 \<Rightarrow> (u16 \<times> open_file \<times> 's ptp_session) option" where
  "ptp_sendobject_fromfd F s f sz = do {
     (ret, h, s') \<leftarrow> ptp_sendobject_from_handler F s (ptp_init_fd_handler f) sz;
     Some (ret, ptp_exit_fd_handler h, s') }"

text \<open>What arrives in an empty file is what arrives in memory.\<close>

lemma ptp_getobject_tofd_empty:
  "map_option (\<lambda>(ret, f, s'). (ret, of_bytes f, s'))
     (ptp_getobject_tofd F s handle \<lparr>of_bytes = [], of_offset = 0\<rparr>) = ptp_getobject F s handle"
proof -
  have h: "ptp_init_fd_handler \<lparr>of_bytes = [], of_offset = 0\<rparr> = ptp_init_recv_memory_handler"
    by (simp add: ptp_init_fd_handler_def ptp_init_recv_memory_handler_def)
  have flags: "PTP_DP_GETDATA mod 256 = PTP_DP_GETDATA" "PTP_DP_GETDATA \<noteq> PTP_DP_SENDDATA"
    by (simp_all add: PTP_DP_GETDATA_def PTP_DP_SENDDATA_def)
  show ?thesis
    unfolding ptp_getobject_tofd_def ptp_getobject_to_handler_def h ptp_getobject_def ptp_transaction_def
    by (simp add: flags map_option_case ptp_exit_fd_handler_def ptp_exit_recv_memory_handler_def
        split: option.split bind_split)
qed

end
