(* ===== verification/Ptpip_Props.thy ===== *)
theory Ptpip_Props
  imports Ptpip Vitamtp
begin

text \<open>
  The packets of PTP/IP whatever the segmentation of the stream: reading a packet, the data
  phase from the sender to the receiver, responses, and whole transactions over the
  connection.
\<close>

section \<open>A stream without failures\<close>

definition reliable :: "arrival list \<Rightarrow> bool" where
  "reliable as \<longleftrightarrow> Failure \<notin> set as"

lemma recv_blocking_reliable:
  assumes "reliable as" and "0 < n"
  shows "\<exists>bs as'. recv_blocking n as = (Some bs, as') \<and> reliable as' \<and>
    (bs = [] \<longleftrightarrow> bytes_left as = []) \<and> length bs \<le> n \<and> bytes_left as = bs @ bytes_left as'"
  using assms
  by (induction n as rule: recv_blocking.induct) (auto simp: reliable_def)

lemma recv_all_reliable:
  assumes "reliable as"
  shows "\<exists>as'. reliable as' \<and>
    (if n - length got \<le> length (bytes_left as)
     then recv_all n got as = (Some (got @ take (n - length got) (bytes_left as)), as') \<and>
       bytes_left as' = drop (n - length got) (bytes_left as)
     else recv_all n got as = (None, as') \<and> bytes_left as' = [])"
  using assms
proof (induction n got as rule: recv_all.induct)
  case (1 n got as)
  show ?case
  proof (cases "n \<le> length got")
    case True
    with 1 show ?thesis by (auto simp: recv_all.simps)
  next
    case False
    obtain c as1 where r: "recv_blocking (n - length got) as = (Some c, as1)" "reliable as1"
      "c = [] \<longleftrightarrow> bytes_left as = []" "length c \<le> n - length got" "bytes_left as = c @ bytes_left as1"
      using recv_blocking_reliable [OF 1(2), of "n - length got"] False by auto
    show ?thesis
    proof (cases "c = []")
      case True
      with r False show ?thesis by (subst (1 2) recv_all.simps) auto
    next
      case c: False
      from False r(1) c have step: "recv_all n got as = recv_all n (got @ c) as1"
        by (subst recv_all.simps) simp
      from 1(1) [OF False r(1) [symmetric] refl c r(2)] show ?thesis
        unfolding step using r(4,5) by (auto simp: diff_diff_left split: if_splits)
    qed
  qed
qed

lemma recv_all_front:
  assumes "reliable as" and "bytes_left as = bs @ rest" and "n = length bs"
  shows "\<exists>as'. recv_all n [] as = (Some bs, as') \<and> reliable as' \<and> bytes_left as' = rest"
  using recv_all_reliable [OF assms(1), of n "[]"] assms(2,3) by auto

section \<open>Packets\<close>

definition frame :: "ptp_params \<Rightarrow> u32 \<Rightarrow> byte list \<Rightarrow> byte list" where
  "frame P type body = htod32ap P (of_nat (length body + 8)) @ htod32ap P type @ body"

lemma length_as_word:
  assumes "n < 2 ^ 31"
  shows "sint (of_nat n :: u32) = int n"
  using assms by (simp add: signed_of_nat signed_take_bit_int_eq_self_iff)

lemma generic_read_frame:
  assumes "reliable as" and "bytes_left as = frame P type body @ rest" and "length body < 2 ^ 31 - 8"
  shows "\<exists>as'. ptp_ptpip_generic_read P as =
      (Some \<lparr>pk_length = of_nat (length body + 8), pk_type = type, pk_data = body\<rparr>, as') \<and>
    reliable as' \<and> bytes_left as' = rest"
proof -
  let ?hdr = "htod32ap P (of_nat (length body + 8)) @ htod32ap P type"
  have "bytes_left as = ?hdr @ (body @ rest)" using assms(2) by (simp add: frame_def)
  from recv_all_front [OF assms(1) this, of 8] obtain as1
    where h: "recv_all 8 [] as = (Some ?hdr, as1)" "reliable as1" "bytes_left as1 = body @ rest" by auto
  from recv_all_front [OF h(2,3) refl] obtain as2
    where b: "recv_all (length body) [] as1 = (Some body, as2)" "reliable as2" "bytes_left as2 = rest" by auto
  have "sint (of_nat (length body + 8) - 8 :: u32) = int (length body)"
    using length_as_word [of "length body"] assms(3) by simp
  with h b show ?thesis by (simp add: ptp_ptpip_generic_read_def Let_def)
qed

lemma cmd_read_frame:
  assumes "reliable (rx (cmd (io_dev i)))" and "bytes_left (rx (cmd (io_dev i))) = frame P type body @ rest"
    and "length body < 2 ^ 31 - 8"
  shows "\<exists>as'. ptp_ptpip_cmd_read P i =
      (Some \<lparr>pk_length = of_nat (length body + 8), pk_type = type, pk_data = body\<rparr>,
       i\<lparr>io_dev := (io_dev i)\<lparr>cmd := (cmd (io_dev i))\<lparr>rx := as'\<rparr>\<rparr>\<rparr>) \<and>
    reliable as' \<and> bytes_left as' = rest"
  using generic_read_frame [OF assms] by (auto simp: ptp_ptpip_cmd_read_def)

section \<open>Sending\<close>

lemma send_all_ok:
  "send_all bs i = (True, i') \<Longrightarrow>
     tx (cmd (io_dev i')) = tx (cmd (io_dev i)) @ bs \<and> rx (cmd (io_dev i')) = rx (cmd (io_dev i))"
proof (induction bs i rule: send_all.induct)
  case (1 bs i)
  show ?case
  proof (cases "bs = []")
    case False
    obtain r i1 where s: "send_cmd bs i = (r, i1)" by fastforce
    then have "send_all bs i = (if r = -1 then (False, i1) else send_all (drop (nat r) bs) i1)"
      using False by (subst send_all.simps) simp
    with 1(2) have r: "r \<noteq> -1" and rec: "send_all (drop (nat r) bs) i1 = (True, i')"
      by (simp_all split: if_splits)
    have "tx (cmd (io_dev i1)) = tx (cmd (io_dev i)) @ take (nat r) bs" "rx (cmd (io_dev i1)) = rx (cmd (io_dev i))"
      using s r by (auto simp: send_cmd_def sock_send_def Let_def min_def split: list.splits if_splits)
    with 1(1) [OF False s [symmetric] r rec] show ?thesis by simp
  qed (use 1(2) in \<open>simp add: send_all.simps\<close>)
qed

text \<open>The data packets of a transfer.\<close>

function data_packets :: "ptp_params \<Rightarrow> u32 \<Rightarrow> byte list \<Rightarrow> byte list" where
  "data_packets P tid dat =
     (if dat = [] then []
      else if length dat > WRITE_BLOCKSIZE
      then data_packet P PTPIP_DATA_PACKET tid (take WRITE_BLOCKSIZE dat) @
        data_packets P tid (drop WRITE_BLOCKSIZE dat)
      else data_packet P PTPIP_END_DATA_PACKET tid dat)"
  by pat_completeness auto
termination
  by (relation "measure (\<lambda>(P, tid, dat). length dat)") (auto simp: WRITE_BLOCKSIZE_def)

declare data_packets.simps [simp del]

lemma send_blocks_ok:
  assumes "send_blocks P tid cur n h i = (PTP_RC_OK, h', i')" and "h_curoff h = cur"
    and "n = length (h_data h)"
  shows "tx (cmd (io_dev i')) = tx (cmd (io_dev i)) @ data_packets P tid (drop cur (h_data h))"
  using assms
proof (induction P tid cur n h i rule: send_blocks.induct)
  case (1 P tid cur n h i)
  show ?case
  proof (cases "cur < n")
    case False
    with 1(2-) show ?thesis by (simp add: send_blocks.simps data_packets.simps)
  next
    case True
    let ?w = "if n - cur > WRITE_BLOCKSIZE then WRITE_BLOCKSIZE else n - cur"
    let ?t = "if n - cur > WRITE_BLOCKSIZE then PTPIP_DATA_PACKET else PTPIP_END_DATA_PACKET"
    let ?bs = "take ?w (drop cur (h_data h))" and ?h = "h\<lparr>h_curoff := cur + ?w\<rparr>"
    have w: "?w \<le> n - cur" by simp
    have g: "memory_getfunc h ?w = (PTP_RC_OK, ?bs, ?h)"
      using 1(3,4) True w by (auto simp: memory_getfunc_def Let_def)
    obtain ok i1 where s: "send_all (data_packet P ?t tid ?bs) i = (ok, i1)" by fastforce
    have step: "send_blocks P tid cur n h i =
        (if ok then send_blocks P tid (cur + ?w) n ?h i1 else (PTP_RC_GeneralError, ?h, i1))"
      using True g s by (subst send_blocks.simps) (simp add: Let_def)
    with 1(2) have ok: ok and rec: "send_blocks P tid (cur + ?w) n ?h i1 = (PTP_RC_OK, h', i')"
      by (simp_all split: if_splits)
    have IH: "tx (cmd (io_dev i')) = tx (cmd (io_dev i1)) @ data_packets P tid (drop (cur + ?w) (h_data h))"
      using 1(1) [OF True refl refl refl g [symmetric] refl s [symmetric] ok] rec 1(4) by simp
    have "tx (cmd (io_dev i1)) = tx (cmd (io_dev i)) @ data_packet P ?t tid ?bs"
      using send_all_ok [of "data_packet P ?t tid ?bs" i i1] ok s by simp
    moreover have "data_packets P tid (drop cur (h_data h)) =
        data_packet P ?t tid ?bs @ data_packets P tid (drop (cur + ?w) (h_data h))"
      using True 1(4) by (subst data_packets.simps) (auto simp: data_packets.simps [of P tid "[]"] add.commute)
    ultimately show ?thesis using IH by simp
  qed
qed

section \<open>The data phase\<close>

lemma data_packet_frame: "data_packet P type tid bs = frame P type (htod32ap P tid @ bs)"
  by (simp add: data_packet_def frame_def f32.length_put add.commute)

lemma get_blocks_step:
  assumes "cur < toread" and "reliable (rx (cmd (io_dev i)))"
    and "bytes_left (rx (cmd (io_dev i))) = data_packet P type tid bs @ rest"
    and "type = PTPIP_END_DATA_PACKET \<or> type = PTPIP_DATA_PACKET"
    and "length bs \<le> toread - cur" and "length bs < 2 ^ 31 - 12"
  shows "\<exists>as'. reliable as' \<and> bytes_left as' = rest \<and>
    get_blocks P toread cur h i = get_blocks P toread (cur + length bs) (snd (memory_putfunc h bs))
      (i\<lparr>io_dev := (io_dev i)\<lparr>cmd := (cmd (io_dev i))\<lparr>rx := as'\<rparr>\<rparr>\<rparr>)"
proof -
  from cmd_read_frame [OF assms(2), of P type "htod32ap P tid @ bs" rest] assms(3,6)
  obtain as' where r: "ptp_ptpip_cmd_read P i =
      (Some \<lparr>pk_length = of_nat (length bs + 12), pk_type = type, pk_data = htod32ap P tid @ bs\<rparr>,
       i\<lparr>io_dev := (io_dev i)\<lparr>cmd := (cmd (io_dev i))\<lparr>rx := as'\<rparr>\<rparr>\<rparr>)" "reliable as'" "bytes_left as' = rest"
    by (auto simp: data_packet_frame f32.length_put)
  have "of_nat (length bs + 12) - 12 = (of_nat (length bs) :: u32)" by simp
  moreover have "unat (of_nat (length bs) :: u32) = length bs"
    using assms(6) by (simp add: unat_of_nat take_bit_nat_eq_self_iff)
  ultimately have n: "unat (of_nat (length bs + 12) - 12 :: u32) = length bs" by simp
  have b: "rd (htod32ap P tid @ bs) 4 (length bs) = Some bs"
    by (simp add: rd_append2 rd_def f32.length_put)
  have "get_blocks P toread cur h i = get_blocks P toread (cur + length bs) (snd (memory_putfunc h bs))
      (i\<lparr>io_dev := (io_dev i)\<lparr>cmd := (cmd (io_dev i))\<lparr>rx := as'\<rparr>\<rparr>\<rparr>)"
    using assms(1,4,5) by (subst get_blocks.simps) (simp add: r(1) n b Let_def del: of_nat_add)
  with r(2,3) show ?thesis by blast
qed

lemma get_blocks_data:
  assumes "reliable (rx (cmd (io_dev i)))" and "bytes_left (rx (cmd (io_dev i))) = data_packets P tid dat @ rest"
    and "h_curoff h = length (h_data h)" and "toread = cur + length dat"
  shows "\<exists>as'. reliable as' \<and> bytes_left as' = rest \<and>
    get_blocks P toread cur h i = Some (PTP_RC_OK,
      \<lparr>h_data = h_data h @ dat, h_curoff = length (h_data h @ dat)\<rparr>,
      i\<lparr>io_dev := (io_dev i)\<lparr>cmd := (cmd (io_dev i))\<lparr>rx := as'\<rparr>\<rparr>\<rparr>)"
  using assms
proof (induction P tid dat arbitrary: i h cur rule: data_packets.induct)
  case (1 P tid dat)
  show ?case
  proof (cases "dat = []")
    case True
    with 1(2-) show ?thesis
      by (intro exI [of _ "rx (cmd (io_dev i))"]) (simp add: get_blocks.simps data_packets.simps)
  next
    case dat: False
    let ?n = "if length dat > WRITE_BLOCKSIZE then WRITE_BLOCKSIZE else length dat"
    let ?t = "if length dat > WRITE_BLOCKSIZE then PTPIP_DATA_PACKET else PTPIP_END_DATA_PACKET"
    let ?bs = "take ?n dat"
    have split: "data_packets P tid dat = data_packet P ?t tid ?bs @ data_packets P tid (drop ?n dat)"
      using dat by (subst data_packets.simps) (auto simp: data_packets.simps [of P tid "[]"])
    have len: "length ?bs = ?n" "?n < 2 ^ 31 - 12" by (auto simp: WRITE_BLOCKSIZE_def)
    let ?h = "snd (memory_putfunc h ?bs)"
    have "cur < toread" "?t = PTPIP_END_DATA_PACKET \<or> ?t = PTPIP_DATA_PACKET" "length ?bs \<le> toread - cur"
      "length ?bs < 2 ^ 31 - 12"
      using dat 1(5) len by auto
    from get_blocks_step [OF this(1) 1(2) _ this(2-4), of P tid "data_packets P tid (drop ?n dat) @ rest" h]
    obtain as1 where a: "reliable as1" "bytes_left as1 = data_packets P tid (drop ?n dat) @ rest"
      and step: "get_blocks P toread cur h i = get_blocks P toread (cur + ?n) ?h
        (i\<lparr>io_dev := (io_dev i)\<lparr>cmd := (cmd (io_dev i))\<lparr>rx := as1\<rparr>\<rparr>\<rparr>)"
      unfolding 1(3) split append_assoc len(1) by blast
    let ?i = "i\<lparr>io_dev := (io_dev i)\<lparr>cmd := (cmd (io_dev i))\<lparr>rx := as1\<rparr>\<rparr>\<rparr>"
    have h: "?h = \<lparr>h_data = h_data h @ ?bs, h_curoff = length (h_data h @ ?bs)\<rparr>"
      using 1(4) by (simp add: memory_putfunc_def)
    show ?thesis
    proof (cases "length dat > WRITE_BLOCKSIZE")
      case True
      from 1(1) [OF dat True, of ?i ?h "cur + ?n"] a 1(5) True h
      show ?thesis unfolding step by (simp add: add.assoc)
    next
      case False
      then have "bytes_left as1 = rest" using a(2) by (simp add: data_packets.simps)
      moreover have "get_blocks P toread (cur + ?n) ?h ?i = Some (PTP_RC_OK, ?h, ?i)"
        using False 1(5) by (simp add: get_blocks.simps)
      ultimately show ?thesis unfolding step using a(1) False h by (intro exI [of _ as1]) simp
    qed
  qed
qed

lemma start_packet_frame:
  "start_packet P tid n = frame P PTPIP_START_DATA_PACKET (htod32ap P tid @ htod32ap P (of_nat n) @ htod32ap P 0)"
  by (simp add: start_packet_def frame_def f32.length_put)

lemma getdata_reads:
  assumes "reliable (rx (cmd (io_dev i)))"
    and "bytes_left (rx (cmd (io_dev i))) = start_packet P tid (length dat) @ data_packets P tid' dat @ rest"
    and "length dat < 2 ^ 32"
  shows "\<exists>as'. reliable as' \<and> bytes_left as' = rest \<and>
    ptp_ptpip_getdata P i ptp ptp_init_recv_memory_handler = Some (PTP_RC_OK,
      \<lparr>h_data = dat, h_curoff = length dat\<rparr>, i\<lparr>io_dev := (io_dev i)\<lparr>cmd := (cmd (io_dev i))\<lparr>rx := as'\<rparr>\<rparr>\<rparr>)"
proof -
  let ?body = "htod32ap P tid @ htod32ap P (of_nat (length dat)) @ htod32ap P 0"
  from cmd_read_frame [OF assms(1) assms(2) [unfolded start_packet_frame append_assoc]]
  obtain as1 where r: "ptp_ptpip_cmd_read P i =
      (Some \<lparr>pk_length = of_nat (length ?body + 8), pk_type = PTPIP_START_DATA_PACKET, pk_data = ?body\<rparr>,
       i\<lparr>io_dev := (io_dev i)\<lparr>cmd := (cmd (io_dev i))\<lparr>rx := as1\<rparr>\<rparr>\<rparr>)" "reliable as1"
    "bytes_left as1 = data_packets P tid' dat @ rest"
    by (auto simp: f32.length_put)
  have n: "dtoh32a P ?body 4 = Some (of_nat (length dat))"
    by (simp add: dtoh32a_def rd_append2 rd_append1 rd_def f32.length_put f32.get_put)
  have u: "unat (of_nat (length dat) :: u32) = length dat"
    using assms(3) by (simp add: unat_of_nat take_bit_nat_eq_self_iff)
  let ?i = "i\<lparr>io_dev := (io_dev i)\<lparr>cmd := (cmd (io_dev i))\<lparr>rx := as1\<rparr>\<rparr>\<rparr>"
  from get_blocks_data [of ?i P tid' dat rest ptp_init_recv_memory_handler "length dat" 0] r(2,3)
  obtain as' where "reliable as'" "bytes_left as' = rest"
    "get_blocks P (length dat) 0 ptp_init_recv_memory_handler ?i =
      Some (PTP_RC_OK, \<lparr>h_data = dat, h_curoff = length dat\<rparr>, ?i\<lparr>io_dev := (io_dev i)\<lparr>cmd := (cmd (io_dev i))\<lparr>rx := as'\<rparr>\<rparr>\<rparr>)"
    by (auto simp: ptp_init_recv_memory_handler_def)
  then show ?thesis using r(1) n u
    by (intro exI [of _ as']) (simp add: ptp_ptpip_getdata_def packet_types)
qed

text \<open>
  Claim C17: data across the network. What \<open>ptp_ptpip_senddata\<close> sends when it reports success,
  however the socket accepted it, \<open>ptp_ptpip_getdata\<close> puts together again, however the
  network cut it, and it takes no byte more.
\<close>

theorem ptpip_data_roundtrip:
  assumes "ptp_ptpip_senddata P i ptp (length dat) (ptp_init_send_memory_handler dat) = Some (PTP_RC_OK, h', i')"
    and "length dat < 2 ^ 32" and "reliable (rx (cmd (io_dev j)))"
    and "tx (cmd (io_dev i)) @ bytes_left (rx (cmd (io_dev j))) = tx (cmd (io_dev i')) @ rest"
  shows "\<exists>as'. bytes_left as' = rest \<and>
    ptp_ptpip_getdata P j ptp' ptp_init_recv_memory_handler = Some (PTP_RC_OK,
      \<lparr>h_data = dat, h_curoff = length dat\<rparr>, j\<lparr>io_dev := (io_dev j)\<lparr>cmd := (cmd (io_dev j))\<lparr>rx := as'\<rparr>\<rparr>\<rparr>)"
proof -
  let ?tid = "Transaction_ID ptp"
  obtain r i1 where s: "send_cmd (start_packet P ?tid (length dat)) i = (r, i1)" by fastforce
  with assms(1) have r: "r = 20"
    and b: "send_blocks P ?tid 0 (length dat) (ptp_init_send_memory_handler dat) i1 = (PTP_RC_OK, h', i')"
    by (auto simp: ptp_ptpip_senddata_def split: if_splits)
  have l: "length (start_packet P ?tid (length dat)) = 20" by (simp add: start_packet_def f32.length_put)
  have "tx (cmd (io_dev i1)) = tx (cmd (io_dev i)) @ start_packet P ?tid (length dat)"
    using s r l by (auto simp: send_cmd_def sock_send_def Let_def split: list.splits if_splits)
  moreover have "tx (cmd (io_dev i')) = tx (cmd (io_dev i1)) @ data_packets P ?tid dat"
    using send_blocks_ok [OF b] by (simp add: ptp_init_send_memory_handler_def)
  ultimately have "bytes_left (rx (cmd (io_dev j))) =
      start_packet P ?tid (length dat) @ data_packets P ?tid dat @ rest"
    using assms(4) by simp
  from getdata_reads [OF assms(3) this assms(2)] show ?thesis by blast
qed

definition sample_net :: "int list \<Rightarrow> arrival list \<Rightarrow> net ptp_io" where
  "sample_net ks as = \<lparr>response_packet = [], split_header_data = False,
     io_dev = \<lparr>cmd = \<lparr>rx = as, tx = [], plan = ks\<rparr>, evt = \<lparr>rx = as, tx = [], plan = ks\<rparr>, readable = [],
       log_errors = True, eventpipeid = 0\<rparr>\<rparr>"

lemma sample_net_simps [simp]:
  "rx (cmd (io_dev (sample_net ks as))) = as" "tx (cmd (io_dev (sample_net ks as))) = []"
  "rx (evt (io_dev (sample_net ks as))) = as" "plan (cmd (io_dev (sample_net ks as))) = ks"
  by (simp_all add: sample_net_def)

definition sample_wire :: "byte list" where
  "sample_wire = [20, 0, 0, 0, 9, 0, 0, 0, 5, 0, 0, 0, 3, 0, 0, 0, 0, 0, 0, 0,
     15, 0, 0, 0, 12, 0, 0, 0, 5, 0, 0, 0, 7, 8, 9]"

lemma map_option_triple:
  "map_option (\<lambda>(r, h, i). (r, f h, g i)) x = Some (a, b, c) \<Longrightarrow> \<exists>h i. x = Some (a, h, i) \<and> f h = b \<and> g i = c"
  by auto

theorem ptpip_data_roundtrip_witness:
  "map_option (\<lambda>(r, h, i). (r, h_data h, bytes_left (rx (cmd (io_dev i)))))
     (ptp_ptpip_getdata (plain_params PTP_DL_LE)
       (sample_net [] [Seg (take 3 sample_wire), Pause, Seg (drop 3 sample_wire), Seg [42]])
       ptp_container_zero ptp_init_recv_memory_handler) = Some (PTP_RC_OK, [7, 8, 9], [42])"
proof -
  let ?P = "plain_params PTP_DL_LE" and ?i = "sample_net [20, 5, 0, 4] []"
  let ?j = "sample_net [] [Seg (take 3 sample_wire), Pause, Seg (drop 3 sample_wire), Seg [42]]"
  let ?c = "ptp_container_zero\<lparr>Transaction_ID := 5\<rparr>"
  have l: "length [7, 8, 9 :: byte] = 3" by simp
  have "map_option (\<lambda>(r, h, i). (r, True, tx (cmd (io_dev i))))
      (ptp_ptpip_senddata ?P ?i ?c 3 (ptp_init_send_memory_handler [7, 8, 9])) = Some (PTP_RC_OK, True, sample_wire)"
    by (simp add: ptp_ptpip_senddata_def send_cmd_def sock_send_def sample_net_def start_packet_def htod32ap_def
        le_bytes_def upt_rec packet_types send_blocks.simps send_all.simps data_packet_def memory_getfunc_def
        ptp_init_send_memory_handler_def WRITE_BLOCKSIZE_def sample_wire_def)
  from map_option_triple [OF this] obtain h' i'
    where s: "ptp_ptpip_senddata ?P ?i ?c 3 (ptp_init_send_memory_handler [7, 8, 9]) = Some (PTP_RC_OK, h', i')"
      "tx (cmd (io_dev i')) = sample_wire" by blast
  have j: "length [7, 8, 9 :: byte] < 2 ^ 32" "reliable (rx (cmd (io_dev ?j)))"
    by (simp_all add: reliable_def)
  have "tx (cmd (io_dev ?i)) @ bytes_left (rx (cmd (io_dev ?j))) = tx (cmd (io_dev i')) @ [42]"
    unfolding s(2) by code_simp
  from ptpip_data_roundtrip [OF s(1) [folded l] j this, of ptp_container_zero] obtain as'
    where "bytes_left as' = [42]" "ptp_ptpip_getdata ?P ?j ptp_container_zero ptp_init_recv_memory_handler =
      Some (PTP_RC_OK, \<lparr>h_data = [7, 8, 9], h_curoff = 3\<rparr>, ?j\<lparr>io_dev := (io_dev ?j)\<lparr>cmd := (cmd (io_dev ?j))\<lparr>rx := as'\<rparr>\<rparr>\<rparr>)"
    unfolding l by blast
  then show ?thesis by simp
qed

section \<open>Requests and responses\<close>

text \<open>
  A request that is not sent. When the socket takes nothing of the request, because
  \<open>send\<close> failed or accepted no byte, \<open>ptp_ptpip_sendreq\<close> still reports success, and the
  transaction goes on as if the device had been asked.
\<close>

lemma ptpip_sendreq_hides_errors:
  assumes "Nparam req \<le> 5" and "plan (cmd (io_dev i)) = k # ks" and "k \<le> 0"
  shows "\<exists>i'. ptp_ptpip_sendreq P i req = Some (PTP_RC_OK, i') \<and> tx (cmd (io_dev i')) = tx (cmd (io_dev i))"
  using assms by (auto simp: ptp_ptpip_sendreq_def send_cmd_def sock_send_def Let_def)

lemma ptpip_sendreq_hides_errors_witness:
  "\<exists>i'. ptp_ptpip_sendreq (plain_params PTP_DL_LE) (sample_net [-1] []) (ptp_request PTP_OC_OpenSession [1]) =
     Some (PTP_RC_OK, i') \<and> tx (cmd (io_dev i')) = []"
  using ptpip_sendreq_hides_errors [of "ptp_request PTP_OC_OpenSession [1]" "sample_net [-1] []" "-1" "[]"]
  by (simp add: ptp_request_def set_param_def)

lemma packet_nparam_eq:
  assumes "int (length (pk_data pk)) = sint (pk_length pk - 8)"
  shows "6 \<le> length (pk_data pk) \<Longrightarrow> packet_nparam pk = int ((length (pk_data pk) - 6) div 4)"
    and "length (pk_data pk) < 6 \<Longrightarrow> packet_nparam pk < 0"
proof -
  let ?n = "length (pk_data pk)"
  have "int ?n < 2 ^ 31" using assms sint_less [of "pk_length pk - 8"] by simp
  then have n: "?n < 2 ^ 31" by simp
  have "pk_length pk - 8 = of_int (sint (pk_length pk - 8))" by simp
  then have "pk_length pk - 8 = of_nat ?n" by (simp flip: assms)
  then have l: "pk_length pk = of_nat (?n + 8)" by (simp add: algebra_simps)
  have u: "unat (pk_length pk) = ?n + 8"
    unfolding l using n by (simp add: unat_of_nat take_bit_nat_eq_self_iff del: of_nat_add)
  have w: "(ucast (pk_length pk) :: u64) = of_nat (?n + 8)" by (simp flip: u)
  show "packet_nparam pk = int ((?n - 6) div 4)" if "6 \<le> ?n"
  proof -
    have "(ucast (pk_length pk) - 8 - 6 :: u64) = of_nat (?n - 6)"
      using that unfolding w by (simp add: of_nat_diff)
    moreover have "unat (of_nat (?n - 6) :: u64) = ?n - 6"
      using n by (simp add: unat_of_nat take_bit_nat_eq_self_iff)
    ultimately have "unat ((ucast (pk_length pk) - 8 - 6 :: u64) div 4) = (?n - 6) div 4"
      by (simp add: unat_div)
    then have "(ucast ((ucast (pk_length pk) - 8 - 6 :: u64) div 4) :: u32) = of_nat ((?n - 6) div 4)"
      by (metis of_nat_unat)
    moreover have "(?n - 6) div 4 < 2 ^ 31" using n by linarith
    ultimately show ?thesis using length_as_word by (simp add: packet_nparam_def)
  qed
  show "packet_nparam pk < 0" if "?n < 6"
  proof -
    from that have "?n = 0 \<or> ?n = 1 \<or> ?n = 2 \<or> ?n = 3 \<or> ?n = 4 \<or> ?n = 5" by linarith
    then show ?thesis unfolding packet_nparam_def w by auto
  qed
qed

lemma read_params_safe:
  "6 + 4 * n \<le> length dat \<Longrightarrow> read_params P dat n c \<noteq> None"
  by (induction n arbitrary: c) (auto simp: dtoh32a_eq_None_iff bind_eq_None_conv)

lemma packet_fields_safe:
  assumes "int (length (pk_data pk)) = sint (pk_length pk - 8)"
  shows "packet_fields P most pk c = None \<longleftrightarrow> length (pk_data pk) < 6"
proof (cases "length (pk_data pk) < 6")
  case True
  then have "dtoh16a P (pk_data pk) 0 = None \<or> dtoh32a P (pk_data pk) 2 = None"
    by (simp add: buf_simps)
  with True show ?thesis by (auto simp: packet_fields_def bind_eq_None_conv)
next
  case False
  then have "dtoh16a P (pk_data pk) 0 \<noteq> None" "dtoh32a P (pk_data pk) 2 \<noteq> None"
    by (simp_all only: buf_simps)
  then obtain code tid where f: "dtoh16a P (pk_data pk) 0 = Some code" "dtoh32a P (pk_data pk) 2 = Some tid"
    by blast
  have "6 + 4 * ((length (pk_data pk) - 6) div 4) \<le> length (pk_data pk)" using False by simp
  from read_params_safe [OF this] False f show ?thesis
    by (simp add: packet_fields_def packet_nparam_eq(1) [OF assms] Let_def)
qed

text \<open>
  Short responses. \<open>ptp_ptpip_getresp\<close> reads outside the packet exactly when the
  packet has fewer than the six bytes of code and transaction id; the parameters it takes
  are always inside, whatever length the packet claims.
\<close>

theorem ptpip_getresp_safe_iff:
  "ptp_ptpip_getresp P i resp = None \<longleftrightarrow>
     (\<exists>pk i'. ptp_ptpip_cmd_read P i = (Some pk, i') \<and> length (pk_data pk) < 6)"
proof -
  have "packet_fields P 5 pk resp = None \<longleftrightarrow> length (pk_data pk) < 6"
    if "ptp_ptpip_cmd_read P i = (Some pk, i')" for pk i'
  proof (rule packet_fields_safe)
    from that obtain as' where "ptp_ptpip_generic_read P (rx (cmd (io_dev i))) = (Some pk, as')"
      by (auto simp: ptp_ptpip_cmd_read_def split: prod.splits)
    then show "int (length (pk_data pk)) = sint (pk_length pk - 8)" using generic_read_takes by blast
  qed
  then show ?thesis
    by (auto simp: ptp_ptpip_getresp_def bind_eq_None_conv split: prod.splits option.splits)
qed

section \<open>The segmentation of the stream\<close>

lemma recv_all_segmentation:
  assumes "reliable as" and "reliable bs" and "bytes_left as = bytes_left bs"
  shows "\<exists>as' bs'. recv_all n [] as = (fst (recv_all n [] as), as') \<and> recv_all n [] bs = (fst (recv_all n [] as), bs') \<and>
    reliable as' \<and> reliable bs' \<and> bytes_left as' = bytes_left bs'"
  using recv_all_reliable [OF assms(1), of n "[]"] recv_all_reliable [OF assms(2), of n "[]"] assms(3)
  by (cases "n \<le> length (bytes_left bs)") auto

text \<open>
  Packets and segments. How the network cuts the stream, and when it pauses, makes no
  difference: the same packet is read, or the read fails, in the same place of the stream.
\<close>

theorem ptpip_read_segmentation:
  assumes "reliable as" and "reliable bs" and "bytes_left as = bytes_left bs"
  shows "fst (ptp_ptpip_generic_read P as) = fst (ptp_ptpip_generic_read P bs) \<and>
    bytes_left (snd (ptp_ptpip_generic_read P as)) = bytes_left (snd (ptp_ptpip_generic_read P bs))"
proof -
  obtain h as1 bs1 where h: "recv_all 8 [] as = (h, as1)" "recv_all 8 [] bs = (h, bs1)"
    and r: "reliable as1" "reliable bs1" "bytes_left as1 = bytes_left bs1"
    using recv_all_segmentation [OF assms] by blast
  show ?thesis
  proof (cases h)
    case (Some hdr)
    let ?n = "nat (sint (dtoh32ap P (take 4 hdr) - 8))"
    obtain d as2 bs2 where "recv_all ?n [] as1 = (d, as2)" "recv_all ?n [] bs1 = (d, bs2)"
      "bytes_left as2 = bytes_left bs2"
      using recv_all_segmentation [OF r] by blast
    with h r Some show ?thesis by (simp add: ptp_ptpip_generic_read_def Let_def split: option.split)
  qed (use h r in \<open>simp add: ptp_ptpip_generic_read_def\<close>)
qed

theorem ptpip_read_segmentation_witness:
  "fst (ptp_ptpip_generic_read (plain_params PTP_DL_LE) [Seg [12, 0], Pause, Seg [0, 0, 8, 0, 0], Seg [0, 1, 2], Seg [3, 4]]) =
   fst (ptp_ptpip_generic_read (plain_params PTP_DL_LE) [Seg [12, 0, 0, 0, 8, 0, 0, 0, 1, 2, 3, 4]])"
  using ptpip_read_segmentation [of "[Seg [12, 0], Pause, Seg [0, 0, 8, 0, 0], Seg [0, 1, 2], Seg [3, 4]]"
      "[Seg [12, 0, 0, 0, 8, 0, 0, 0, 1, 2, 3, 4]]" "plain_params PTP_DL_LE"]
  by (simp add: reliable_def)

section \<open>Transactions over the connection\<close>

text \<open>
  What a transaction that receives data needs of its transport: \<open>serves i req dat\<close> says that
  the device is about to answer \<open>req\<close> with \<open>dat\<close>, \<open>post i req i'\<close> what the exchange leaves.
\<close>

locale data_transport =
  fixes F :: "'s io_funs"
    and serves :: "'s ptp_io \<Rightarrow> ptp_container \<Rightarrow> byte list \<Rightarrow> bool"
    and post :: "'s ptp_io \<Rightarrow> ptp_container \<Rightarrow> 's ptp_io \<Rightarrow> bool"
  assumes exchange: "serves i req dat \<Longrightarrow> \<exists>i1 h i2 resp i3.
    sendreq_func F i req = Some (PTP_RC_OK, i1) \<and>
    getdata_func F i1 req ptp_init_recv_memory_handler = Some (PTP_RC_OK, h, i2) \<and> h_data h = dat \<and>
    getresp_func F sid i2 req = Some (PTP_RC_OK, resp, i3) \<and>
    Code resp = PTP_RC_OK \<and> Transaction_ID resp = Transaction_ID req \<and> post i req i3"
begin

lemma get_transaction:
  assumes "serves (io s) (request_of s ptp) dat"
  shows "\<exists>resp i'. ptp_transaction F s ptp PTP_DP_GETDATA n x =
      Some (PTP_RC_OK, resp, dat, s\<lparr>transaction_id := transaction_id s + 1, io := i'\<rparr>) \<and>
    post (io s) (request_of s ptp) i'"
proof -
  from exchange [OF assms, of "session_id s"] obtain i1 h i2 resp i3 where
    e: "sendreq_func F (io s) (request_of s ptp) = Some (PTP_RC_OK, i1)"
      "getdata_func F i1 (request_of s ptp) ptp_init_recv_memory_handler = Some (PTP_RC_OK, h, i2)" "h_data h = dat"
      "getresp_func F (session_id s) i2 (request_of s ptp) = Some (PTP_RC_OK, resp, i3)"
      "Code resp = PTP_RC_OK" "Transaction_ID resp = transaction_id s" "post (io s) (request_of s ptp) i3"
    by (auto simp: request_of_def)
  let ?s = "s\<lparr>transaction_id := transaction_id s + 1, io := i2\<rparr>"
  have r: "resp_loop F (Code (request_of s ptp)) 3 (request_of s ptp) ?s =
      Some (PTP_RC_OK, resp, ?s\<lparr>io := i3\<rparr>)"
    using resp_loop_answer [of F ?s "request_of s ptp" resp i3 3] e by simp
  with e show ?thesis
    by (intro exI [of _ resp] exI [of _ i3]) (simp add: transaction_defs dp_defs Let_def flip: request_of_def)
qed

end

interpretation scripted: data_transport script_funs
  "\<lambda>i req dat. sc_replies (io_dev i) = [] \<and> (\<exists>ds. sc_data (io_dev i) = dat # ds)"
  "\<lambda>i req i'. sc_requests (io_dev i') = sc_requests (io_dev i) @ [req]"
  by unfold_locales (auto simp: script_getresp memory_putfunc_def ptp_init_recv_memory_handler_def)

definition response_frame :: "ptp_params \<Rightarrow> u16 \<Rightarrow> u32 \<Rightarrow> byte list" where
  "response_frame P code tid = frame P PTPIP_CMD_RESPONSE (htod16ap P code @ htod32ap P tid)"

definition ptpip_serves :: "ptp_params \<Rightarrow> net ptp_io \<Rightarrow> ptp_container \<Rightarrow> byte list \<Rightarrow> bool" where
  "ptpip_serves P i req dat \<longleftrightarrow> Nparam req \<le> 5 \<and> plan (cmd (io_dev i)) = [] \<and> length dat < 2 ^ 32 \<and>
     reliable (rx (cmd (io_dev i))) \<and>
     (\<exists>tid tid'. bytes_left (rx (cmd (io_dev i))) =
        start_packet P tid (length dat) @ data_packets P tid' dat @ response_frame P PTP_RC_OK (Transaction_ID req))"

definition ptpip_post :: "ptp_params \<Rightarrow> net ptp_io \<Rightarrow> ptp_container \<Rightarrow> net ptp_io \<Rightarrow> bool" where
  "ptpip_post P i req i' \<longleftrightarrow> tx (cmd (io_dev i')) = tx (cmd (io_dev i)) @ request_packet P req \<and>
     bytes_left (rx (cmd (io_dev i'))) = []"

lemma getresp_reads:
  assumes "reliable (rx (cmd (io_dev i)))" and "bytes_left (rx (cmd (io_dev i))) = response_frame P code tid @ rest"
  shows "\<exists>as'. bytes_left as' = rest \<and> ptp_ptpip_getresp P i resp = Some (PTP_RC_OK,
    resp\<lparr>Code := code, Transaction_ID := tid\<rparr>, i\<lparr>io_dev := (io_dev i)\<lparr>cmd := (cmd (io_dev i))\<lparr>rx := as'\<rparr>\<rparr>\<rparr>)"
proof -
  let ?b = "htod16ap P code @ htod32ap P tid"
  let ?pk = "\<lparr>pk_length = of_nat (length ?b + 8), pk_type = PTPIP_CMD_RESPONSE, pk_data = ?b\<rparr>"
  from cmd_read_frame [OF assms(1) assms(2) [unfolded response_frame_def]]
  obtain as' where r: "ptp_ptpip_cmd_read P i =
      (Some ?pk, i\<lparr>io_dev := (io_dev i)\<lparr>cmd := (cmd (io_dev i))\<lparr>rx := as'\<rparr>\<rparr>\<rparr>)" "bytes_left as' = rest"
    by (auto simp: f16.length_put f32.length_put)
  have "packet_nparam ?pk = 0"
    using packet_nparam_eq(1) [of ?pk] by (simp add: f16.length_put f32.length_put)
  moreover have "dtoh16a P ?b 0 = Some code" "dtoh32a P ?b 2 = Some tid"
    by (simp_all add: dtoh16a_def dtoh32a_def rd_append2 rd_append1 rd_def f16.length_put f32.length_put
        f16.get_put f32.get_put)
  ultimately have "packet_fields P 5 ?pk resp = Some (resp\<lparr>Code := code, Transaction_ID := tid\<rparr>)"
    by (simp add: packet_fields_def Let_def)
  with r show ?thesis by (intro exI [of _ as']) (simp add: ptp_ptpip_getresp_def)
qed

interpretation ptpip: data_transport "ptpip_funs P" "ptpip_serves P" "ptpip_post P" for P
proof
  fix i req dat sid
  assume s: "ptpip_serves P i req dat"
  define i1 where "i1 = snd (send_cmd (request_packet P req) i)"
  have i1: "tx (cmd (io_dev i1)) = tx (cmd (io_dev i)) @ request_packet P req" "rx (cmd (io_dev i1)) = rx (cmd (io_dev i))"
    using s by (simp_all add: i1_def send_cmd_def sock_send_def ptpip_serves_def)
  from s obtain as2 where d: "reliable as2" "bytes_left as2 = response_frame P PTP_RC_OK (Transaction_ID req)"
    "ptp_ptpip_getdata P i1 req ptp_init_recv_memory_handler = Some (PTP_RC_OK, \<lparr>h_data = dat, h_curoff = length dat\<rparr>,
       i1\<lparr>io_dev := (io_dev i1)\<lparr>cmd := (cmd (io_dev i1))\<lparr>rx := as2\<rparr>\<rparr>\<rparr>)"
    using getdata_reads [of i1 P _ dat _ "response_frame P PTP_RC_OK (Transaction_ID req)" req] i1(2)
    by (auto simp: ptpip_serves_def)
  let ?i2 = "i1\<lparr>io_dev := (io_dev i1)\<lparr>cmd := (cmd (io_dev i1))\<lparr>rx := as2\<rparr>\<rparr>\<rparr>"
  from getresp_reads [of ?i2 P PTP_RC_OK "Transaction_ID req" "[]" req] d(1,2) obtain as3
    where g: "bytes_left as3 = []" "ptp_ptpip_getresp P ?i2 req = Some (PTP_RC_OK, req\<lparr>Code := PTP_RC_OK\<rparr>,
      ?i2\<lparr>io_dev := (io_dev ?i2)\<lparr>cmd := (cmd (io_dev ?i2))\<lparr>rx := as3\<rparr>\<rparr>\<rparr>)"
    by auto
  show "\<exists>i1 h i2 resp i3. sendreq_func (ptpip_funs P) i req = Some (PTP_RC_OK, i1) \<and>
      getdata_func (ptpip_funs P) i1 req ptp_init_recv_memory_handler = Some (PTP_RC_OK, h, i2) \<and> h_data h = dat \<and>
      getresp_func (ptpip_funs P) sid i2 req = Some (PTP_RC_OK, resp, i3) \<and>
      Code resp = PTP_RC_OK \<and> Transaction_ID resp = Transaction_ID req \<and> ptpip_post P i req i3"
    using d(3) g i1 s by (simp add: ptpip_funs_def ptp_ptpip_sendreq_def ptpip_serves_def ptpip_post_def flip: i1_def)
qed

text \<open>
  Claim C18: a command over the wireless connection. When the device answers a request with data
  of less than four gigabytes and a response, in any segmentation, \<open>VitaMTP_GetData\<close> returns
  exactly these data, has sent exactly the packet of the request with the next transaction
  id, and has taken the whole answer from the stream.
\<close>

theorem ptpip_GetData:
  assumes "reliable (rx (cmd (io_dev (io s))))" and "plan (cmd (io_dev (io s))) = []" and "length dat < 2 ^ 32"
    and "bytes_left (rx (cmd (io_dev (io s)))) = start_packet P tid (length dat) @ data_packets P tid' dat @
      response_frame P PTP_RC_OK (transaction_id s)"
  shows "\<exists>i'. VitaMTP_GetData (ptpip_funs P) s event_id code =
      Some (PTP_RC_OK, dat, s\<lparr>transaction_id := transaction_id s + 1, io := i'\<rparr>) \<and>
    tx (cmd (io_dev i')) = tx (cmd (io_dev (io s))) @ request_packet P (request_of s (ptp_request code [event_id])) \<and>
    bytes_left (rx (cmd (io_dev i'))) = []"
proof -
  have "ptpip_serves P (io s) (request_of s (ptp_request code [event_id])) dat"
    using assms by (auto simp: ptpip_serves_def request_of_def ptp_request_def set_param_def)
  from ptpip.get_transaction [OF this, of 0 "[]"] show ?thesis
    by (auto simp: VitaMTP_GetData_def ptpip_post_def)
qed

theorem ptpip_GetData_witness:
  "\<exists>s' :: net ptp_session. VitaMTP_GetData (ptpip_funs (plain_params PTP_DL_LE))
     \<lparr>params = plain_params PTP_DL_LE, transaction_id = 5, session_id = 1,
       io = sample_net [] [Seg (take 3 sample_wire), Pause, Seg (drop 3 sample_wire), Seg [14, 0, 0, 0],
         Seg [7, 0, 0, 0, 1, 0x20, 5, 0, 0, 0]]\<rparr> 99 PTP_OC_VITA_GetUrl = Some (PTP_RC_OK, [7, 8, 9], s')"
proof -
  let ?P = "plain_params PTP_DL_LE"
  let ?s = "\<lparr>params = ?P, transaction_id = 5, session_id = 1,
    io = sample_net [] [Seg (take 3 sample_wire), Pause, Seg (drop 3 sample_wire), Seg [14, 0, 0, 0],
      Seg [7, 0, 0, 0, 1, 0x20, 5, 0, 0, 0]]\<rparr>"
  have "data_packets ?P 5 [7, 8, 9] = data_packet ?P PTPIP_END_DATA_PACKET 5 [7, 8, 9]"
    by (simp add: data_packets.simps WRITE_BLOCKSIZE_def)
  then have w: "sample_wire = start_packet ?P 5 (length [7, 8, 9 :: byte]) @ data_packets ?P 5 [7, 8, 9]"
    by (simp add: sample_wire_def start_packet_def data_packet_def htod32ap_def le_bytes_def upt_rec packet_types)
  have r: "response_frame ?P PTP_RC_OK 5 = [14, 0, 0, 0, 7, 0, 0, 0, 1, 0x20, 5, 0, 0, 0]"
    by (simp add: response_frame_def frame_def htod32ap_def htod16ap_def le_bytes_def upt_rec packet_types rc_defs)
  have "bytes_left (rx (cmd (io_dev (io ?s)))) = sample_wire @ response_frame ?P PTP_RC_OK 5"
    unfolding r by (simp add: sample_wire_def)
  then show ?thesis
    using ptpip_GetData [of ?s "[7, 8, 9]" ?P 5 5 99 PTP_OC_VITA_GetUrl] unfolding w
    by (auto simp: reliable_def)
qed

end
