(* ===== verification/Wireless_Props.thy ===== *)
theory Wireless_Props
  imports Wireless
begin

text \<open>
  The registration of a device: the messages it sends are read as it means them, the exchange
  with a PIN, what a registration needs and what it does not, and the end of the broadcast.
\<close>

section \<open>Reading text\<close>

lemma bytes_of_simps [simp]:
  "bytes_of [] = []" "bytes_of (c # cs) = of_nat (of_char c) # bytes_of cs" "bytes_of (xs @ ys) = bytes_of xs @ bytes_of ys"
  by (simp_all add: bytes_of_def)

lemma strip_append [simp]: "strip xs (xs @ ys) = Some ys"
  by (induction xs) auto

lemma strip_eq_Some: "strip xs s = Some r \<Longrightarrow> s = xs @ r"
  by (induction xs s rule: strip.induct) (auto split: if_splits)

lemma takeWhile_all: "(\<And>x. x \<in> set xs \<Longrightarrow> P x) \<Longrightarrow> takeWhile P (xs @ ys) = xs @ takeWhile P ys"
  by (induction xs) auto

lemma dropWhile_all: "(\<And>x. x \<in> set xs \<Longrightarrow> P x) \<Longrightarrow> dropWhile P (xs @ ys) = dropWhile P ys"
  by (induction xs) auto

text \<open>A word: no white space and no NUL.\<close>

definition word_text :: "byte list \<Rightarrow> bool" where
  "word_text w \<longleftrightarrow> w \<noteq> [] \<and> (\<forall>b \<in> set w. \<not> c_isspace b \<and> b \<noteq> 0)"

lemma scan_word_word:
  assumes "word_text w" and "length w \<le> n" and "c_isspace (hd (rest @ [32]))"
  shows "scan_word n (w @ rest) = (w, rest)"
proof -
  obtain b bs where w: "w = b # bs" using assms(1) by (cases w) (auto simp: word_text_def)
  have s: "skip_space (w @ rest) = w @ rest" using assms(1) by (simp add: skip_space_def w word_text_def)
  have "takeWhile (Not \<circ> c_isspace) (w @ rest) = w @ takeWhile (Not \<circ> c_isspace) rest"
    using assms(1) by (intro takeWhile_all) (simp add: word_text_def)
  moreover have "takeWhile (Not \<circ> c_isspace) rest = []" using assms(3) by (cases rest) simp_all
  ultimately show ?thesis using assms(2) by (simp add: scan_word_def s Let_def)
qed

lemma lines_of_line:
  assumes "l \<noteq> []" and "\<forall>b \<in> set l. \<not> is_eol b"
  shows "lines_of (l @ [13, 10] @ rest) = l # lines_of rest"
proof -
  obtain b bs where l: "l = b # bs" using assms(1) by (cases l) auto
  have d: "dropWhile is_eol (l @ [13, 10] @ rest) = l @ [13, 10] @ rest" using assms(2) by (simp add: l)
  have t: "takeWhile (Not \<circ> is_eol) (l @ [13, 10] @ rest) = l"
    using takeWhile_all [of l "Not \<circ> is_eol" "[13, 10] @ rest"] assms(2) by (simp add: is_eol_def)
  have r: "dropWhile (Not \<circ> is_eol) (l @ [13, 10] @ rest) = [13, 10] @ rest"
    using dropWhile_all [of l "Not \<circ> is_eol" "[13, 10] @ rest"] assms(2) by (simp add: is_eol_def)
  have "lines_of (l @ [13, 10] @ rest) = l # lines_of ([13, 10] @ rest)"
    by (subst lines_of.simps) (simp add: d t r Let_def assms(1) del: append_Cons)
  also have "lines_of ([13, 10] @ rest) = lines_of rest"
    by (subst (1 2) lines_of.simps) (simp add: is_eol_def)
  finally show ?thesis .
qed

lemma lines_of_Nil [simp]: "lines_of [] = []"
  by (simp add: lines_of.simps)

lemma string_at_NUL: "0 \<notin> set s \<Longrightarrow> string_at (s @ 0 # rest) 0 = Some s"
  by (simp add: string_at_def cstr_append_NUL)

lemma string_at_middle: "0 \<notin> set s \<Longrightarrow> n = length pre \<Longrightarrow> string_at (pre @ s @ 0 # rest) n = Some s"
  by (simp add: string_at_def cstr_append_NUL)

lemma read_all_burst: "bs \<noteq> [] \<Longrightarrow> VitaMTP_Sock_Read_All (Seg bs # Pause # rest) = (Some bs, rest)"
proof -
  have more: "read_more got (if ds = [] then Pause # rest else Seg ds # Pause # rest) = (Some (got @ ds), rest)" for got ds
  proof (induction "length ds" arbitrary: got ds rule: less_induct)
    case less
    show ?case
    proof (cases "ds = []")
      case False
      have "read_more got (Seg ds # Pause # rest) =
          read_more (got @ take 100 ds) (if drop 100 ds = [] then Pause # rest else Seg (drop 100 ds) # Pause # rest)"
        using False by (subst read_more.simps) (simp add: REQUEST_BUFFER_SIZE_def)
      also have "\<dots> = (Some ((got @ take 100 ds) @ drop 100 ds), rest)"
        using False by (intro less) simp
      finally show ?thesis using False by simp
    qed (simp add: read_more.simps)
  qed
  assume "bs \<noteq> []"
  then show ?thesis
    using more [of "take 100 bs" "drop 100 bs"]
    by (simp add: VitaMTP_Sock_Read_All_def REQUEST_BUFFER_SIZE_def split: if_splits)
qed

lemma read_all_closed: "VitaMTP_Sock_Read_All [] = (Some [], [])"
  by (simp add: VitaMTP_Sock_Read_All_def)

lemma write_all_free: "plan s = [] \<Longrightarrow> VitaMTP_Sock_Write_All bs s = (True, s\<lparr>tx := tx s @ bs\<rparr>)"
  by (simp add: VitaMTP_Sock_Write_All.simps sock_send_def)

section \<open>Numbers\<close>

lemma foldl_digits: "foldl (\<lambda>n c. 10 * n + (uint c - 0x30)) k (ds @ [d]) = 10 * foldl (\<lambda>n c. 10 * n + (uint c - 0x30)) k ds + (uint (d :: byte) - 0x30)"
  by simp

lemma digit_byte: "n < 10 \<Longrightarrow> c_isdigit (of_nat (48 + n)) \<and> uint (of_nat (48 + n) :: byte) = 48 + int n"
proof -
  assume n: "n < 10"
  then have u: "unat (of_nat (48 + n) :: byte) = 48 + n"
    by (simp add: unat_of_nat take_bit_nat_eq_self_iff del: of_nat_add)
  then have "uint (of_nat (48 + n) :: byte) = int (48 + n)" by (simp only: uint_nat)
  with u n show ?thesis by (simp add: c_isdigit_def word_le_nat_alt del: of_nat_add)
qed

lemma show_nat_digits:
  "(\<forall>b \<in> set (bytes_of (show_nat n)). c_isdigit b) \<and>
     foldl (\<lambda>n c. 10 * n + (uint c - 0x30)) 0 (bytes_of (show_nat n)) = int n \<and> show_nat n \<noteq> []"
proof (induction n rule: show_nat.induct)
  case (1 n)
  show ?case
  proof (cases "n < 10")
    case True
    then show ?thesis using digit_byte [OF True] by (subst (1 2 3) show_nat.simps) (simp add: add.commute)
  next
    case False
    have d: "n mod 10 < 10" by simp
    have "int (n mod 10) + 10 * int (n div 10) = int n" by (simp add: zmod_int zdiv_int)
    with 1 [OF False] False digit_byte [OF d] show ?thesis
      by (subst (1 2 3) show_nat.simps) (simp add: add.commute)
  qed
qed

lemma atoi_show_nat:
  assumes "rest = [] \<or> \<not> c_isdigit (hd rest)"
  shows "atoi (bytes_of (show_nat n) @ rest) = int n" and "starts_number (bytes_of (show_nat n) @ rest)"
proof -
  obtain b bs where b: "bytes_of (show_nat n) = b # bs" "c_isdigit b"
    using show_nat_digits [of n] by (cases "bytes_of (show_nat n)") (auto simp: bytes_of_def)
  then have n: "\<not> c_isspace b" "b \<noteq> 0x2D" "b \<noteq> 0x2B"
    by (auto simp: c_isdigit_def c_isspace_def word_le_nat_alt)
  have "takeWhile c_isdigit (bytes_of (show_nat n) @ rest) = bytes_of (show_nat n)"
    using show_nat_digits [of n] assms by (subst takeWhile_all) (auto, cases rest, auto)
  then show "atoi (bytes_of (show_nat n) @ rest) = int n"
    using show_nat_digits [of n] b n by (simp add: atoi_def digits_value_def)
  show "starts_number (bytes_of (show_nat n) @ rest)"
    using b n by (simp add: starts_number_def skip_space_def)
qed

section \<open>The requests of a device\<close>

definition header :: "string \<Rightarrow> byte list \<Rightarrow> byte list" where
  "header k v = bytes_of k @ v @ [13, 10]"

definition request :: "string \<Rightarrow> byte list \<Rightarrow> byte list" where
  "request m hs = bytes_of m @ bytes_of '' * HTTP/1.1'' @ [13, 10] @ hs @ [0]"

lemma scan_request_line:
  assumes "word_text m" and "length m < 20" and "hs = [] \<or> \<not> c_isspace (hd hs)"
  shows "scan_request (m @ bytes_of '' * HTTP/1.1'' @ [13, 10] @ hs) = Some (m, Some (length m + 13))"
proof -
  have eol: "c_isspace 13" "c_isspace 10" by (simp_all add: c_isspace_def)
  have w: "scan_word 20 (m @ bytes_of '' * HTTP/1.1'' @ [13, 10] @ hs) =
      (m, bytes_of '' * HTTP/1.1'' @ [13, 10] @ hs)"
    using assms(1,2) by (intro scan_word_word) (simp_all add: c_isspace_def)
  have "skip_space ([13, 10] @ hs) = hs"
    using assms(3) by (cases hs) (auto simp: skip_space_def eol)
  moreover have "skip_space (bytes_of '' * HTTP/1.1'' @ [13, 10] @ hs) = bytes_of ''* HTTP/1.1'' @ [13, 10] @ hs"
    "skip_space (bytes_of '' HTTP/1.1'' @ [13, 10] @ hs) = bytes_of ''HTTP/1.1'' @ [13, 10] @ hs"
    by (simp_all add: skip_space_def c_isspace_def)
  ultimately show ?thesis using assms(2)
    unfolding scan_request_def Let_def w prod.case by simp
qed

lemma request_parts:
  assumes "word_text (bytes_of m)" and "length m < 20" and "hs = [] \<or> \<not> c_isspace (hd hs)" and "0 \<notin> set hs"
  shows "string_at (request m hs) 0 = Some (bytes_of m @ bytes_of '' * HTTP/1.1'' @ [13, 10] @ hs)"
    and "scan_request (bytes_of m @ bytes_of '' * HTTP/1.1'' @ [13, 10] @ hs) = Some (bytes_of m, Some (length m + 13))"
    and "string_at (request m hs) (length m + 13) = Some hs"
proof -
  have n: "0 \<notin> set (bytes_of m @ bytes_of '' * HTTP/1.1'' @ [13, 10] @ hs)"
    using assms(1,4) by (auto simp: word_text_def)
  show "string_at (request m hs) 0 = Some (bytes_of m @ bytes_of '' * HTTP/1.1'' @ [13, 10] @ hs)"
    using string_at_NUL [OF n, of "[]"] by (simp add: request_def)
  show "scan_request (bytes_of m @ bytes_of '' * HTTP/1.1'' @ [13, 10] @ hs) = Some (bytes_of m, Some (length m + 13))"
    using scan_request_line [OF assms(1) _ assms(3)] assms(2) by (simp add: bytes_of_def)
  show "string_at (request m hs) (length m + 13) = Some hs"
    using string_at_middle [OF assms(4), of "length m + 13" "bytes_of m @ bytes_of '' * HTTP/1.1'' @ [13, 10]" "[]"]
    by (simp add: request_def bytes_of_def)
qed

lemma handle_request_method:
  assumes "string_at dat 0 = Some text" and "scan_request text = Some (m, Some n)" and "string_at dat n = Some hs"
  shows "m = bytes_of ''CONNECT'' \<Longrightarrow> handle_request C addr dat st s =
      map_option (\<lambda>(a, st'). (a, st', s)) (answer_connect C hs (st\<lparr>pa_read := Some n\<rparr>))"
    and "m = bytes_of ''SHOWPIN'' \<Longrightarrow> handle_request C addr dat st s = answer_showpin C hs (st\<lparr>pa_read := Some n\<rparr>) s"
    and "m = bytes_of ''REGISTER'' \<Longrightarrow> handle_request C addr dat st s =
      map_option (\<lambda>(a, st'). (a, st', s)) (answer_register hs (st\<lparr>pa_read := Some n\<rparr>))"
    and "m = bytes_of ''STANDBY'' \<Longrightarrow> handle_request C addr dat st s =
      Some (Go_on, st\<lparr>pa_read := Some n, pa_listen := False, pa_addr := addr\<rparr>, s)"
  using assms by (simp_all add: handle_request_def map_option_case split: option.split)

text \<open>
  Claim C23: the request to connect. A device that names itself with up to 32 characters and its
  port is read as it means it, and is told 210 when a registration was completed or the host
  knows it, 605 otherwise. A completed registration counts for every device.
\<close>

theorem connect_request_roundtrip:
  assumes "word_text g" and "length g \<le> 32" and "port < 2 ^ 31"
  shows "handle_request C addr (request ''CONNECT'' (header ''device-id:'' g @ header ''device-port:'' (bytes_of (show_nat port)))) st s =
    Some (Respond (line_of (if pa_registered st \<or> is_registered C g then ''HTTP/1.1 210 OK'' else ''HTTP/1.1 605 NG'')),
      st\<lparr>pa_read := Some 20, pa_guid := g, pa_port := int port\<rparr>, s)"
proof -
  let ?hs = "header ''device-id:'' g @ header ''device-port:'' (bytes_of (show_nat port))"
  have d: "\<forall>b \<in> set (bytes_of (show_nat port)). b \<noteq> 0"
    using show_nat_digits [of port] by (auto simp: c_isdigit_def)
  have "0 \<notin> set ?hs" using assms(1) d by (auto simp: header_def word_text_def)
  moreover have "?hs = [] \<or> \<not> c_isspace (hd ?hs)" by (simp add: header_def c_isspace_def)
  moreover have "word_text (bytes_of ''CONNECT'')" by (simp add: word_text_def c_isspace_def)
  ultimately have parts: "string_at (request ''CONNECT'' ?hs) 0 = Some (bytes_of ''CONNECT'' @ bytes_of '' * HTTP/1.1'' @ [13, 10] @ ?hs)"
    "scan_request (bytes_of ''CONNECT'' @ bytes_of '' * HTTP/1.1'' @ [13, 10] @ ?hs) = Some (bytes_of ''CONNECT'', Some 20)"
    "string_at (request ''CONNECT'' ?hs) 20 = Some ?hs"
    using request_parts [of "''CONNECT''" ?hs] by simp_all
  have w: "scan_word 32 (g @ [13, 10] @ header ''device-port:'' (bytes_of (show_nat port))) =
      (g, [13, 10] @ header ''device-port:'' (bytes_of (show_nat port)))"
    using assms(1,2) by (intro scan_word_word) (simp_all add: c_isspace_def)
  have sp: "skip_space ([13, 10] @ header ''device-port:'' (bytes_of (show_nat port))) =
      bytes_of ''device-port:'' @ bytes_of (show_nat port) @ [13, 10]"
    by (simp add: skip_space_def header_def c_isspace_def)
  have r: "int_range (int port)" using assms(3) by (simp add: int_range_def)
  have "scan_connect ?hs = Some (Some g, Some (int port))"
    using assms(1) atoi_show_nat [of "[13, 10]" port] r
    unfolding header_def [of "''device-id:''"] append_assoc scan_connect_def strip_append option.case Let_def w prod.case sp
    by (simp add: word_text_def c_isdigit_def del: bytes_of_simps append_Cons append_Nil)
  then show ?thesis
    unfolding handle_request_method(1) [OF parts refl] by (simp add: answer_connect_def)
qed

theorem connect_request_roundtrip_witness:
  "handle_request \<lparr>is_registered = device_registered, create_register_pin = generate_pin (\<lambda>_. 7)\<rparr> 1
     (request ''CONNECT'' (header ''device-id:'' [0x41, 0x42] @ header ''device-port:'' (bytes_of (show_nat 9309)))) pairing_zero
     \<lparr>rx = [], tx = [], plan = []\<rparr> =
   Some (Respond (line_of ''HTTP/1.1 210 OK''), pairing_zero\<lparr>pa_read := Some 20, pa_guid := [0x41, 0x42], pa_port := 9309\<rparr>,
     \<lparr>rx = [], tx = [], plan = []\<rparr>)"
  using connect_request_roundtrip [of "[0x41, 0x42]" 9309]
  by (simp add: word_text_def c_isspace_def device_registered_def del: bytes_of_simps)

section \<open>Registration\<close>

text \<open>A value of a header: not empty, on one line.\<close>

definition line_text :: "byte list \<Rightarrow> bool" where
  "line_text v \<longleftrightarrow> v \<noteq> [] \<and> (\<forall>b \<in> set v. \<not> is_eol b \<and> b \<noteq> 0)"

lemma lines_of_header:
  assumes "line_text v" and "k \<noteq> []" and "\<forall>b \<in> set (bytes_of k). \<not> is_eol b"
  shows "lines_of (header k v @ rest) = (bytes_of k @ v) # lines_of rest"
  using lines_of_line [of "bytes_of k @ v" rest] assms by (auto simp: header_def line_text_def bytes_of_def)

lemma no_NUL_headers [simp]: "line_text v \<Longrightarrow> 0 \<notin> set (header k v) \<longleftrightarrow> 0 \<notin> set (bytes_of k)"
  by (auto simp: header_def line_text_def)

definition showpin_headers :: "byte list \<Rightarrow> byte list \<Rightarrow> byte list" where
  "showpin_headers g nm = header ''device-id:'' g @ header ''device-name:'' nm"

definition register_headers :: "byte list \<Rightarrow> byte list \<Rightarrow> byte list" where
  "register_headers g t = header ''device-id:'' g @ header ''pin-code:'' t"

lemma parse_showpin:
  assumes "line_text g" and "line_text nm"
  shows "VitaMTP_Parse_Device_Headers (showpin_headers g nm) no_info =
    no_info\<lparr>wi_deviceid := Some g, wi_name := Some nm\<rparr>"
  using lines_of_header [OF assms(1), of "''device-id:''" "header ''device-name:'' nm"]
    lines_of_header [OF assms(2), of "''device-name:''" "[]"]
  by (simp add: VitaMTP_Parse_Device_Headers_def showpin_headers_def is_eol_def parse_header_def)

lemma parse_register:
  assumes "line_text g" and "line_text t"
  shows "VitaMTP_Parse_Device_Headers (register_headers g t) no_info =
    no_info\<lparr>wi_deviceid := Some g, wi_pin := Some t\<rparr>"
  using lines_of_header [OF assms(1), of "''device-id:''" "header ''pin-code:'' t"]
    lines_of_header [OF assms(2), of "''pin-code:''" "[]"]
  by (simp add: VitaMTP_Parse_Device_Headers_def register_headers_def is_eol_def parse_header_def)

lemma header_starts:
  "showpin_headers g nm = [] \<or> \<not> c_isspace (hd (showpin_headers g nm))"
  "register_headers g t = [] \<or> \<not> c_isspace (hd (register_headers g t))"
  by (simp_all add: showpin_headers_def register_headers_def header_def c_isspace_def)

lemma method_words:
  "word_text (bytes_of ''SHOWPIN'')" "word_text (bytes_of ''REGISTER'')" "word_text (bytes_of ''STANDBY'')"
  by (simp_all add: word_text_def c_isspace_def)

lemma handle_showpin:
  assumes "line_text g" and "line_text nm" and "plan s = []"
    and "create_register_pin C (pa_asked st) (no_info\<lparr>wi_deviceid := Some g, wi_name := Some nm\<rparr>) = Some (int pin, err)"
  shows "handle_request C addr (request ''SHOWPIN'' (showpin_headers g nm)) st s =
    Some (Go_on, st\<lparr>pa_read := Some 20, pa_guid := take 32 g, pa_pin := int pin, pa_asked := pa_asked st + 1\<rparr>,
      s\<lparr>tx := tx s @ line_of ''HTTP/1.1 200 OK'' @ [0]\<rparr>)"
proof -
  have "0 \<notin> set (showpin_headers g nm)" using assms(1,2) by (simp add: showpin_headers_def)
  note parts = request_parts [OF method_words(1) _ header_starts(1) this]
  show ?thesis
    using handle_request_method(2) [OF parts(1,2,3)] parse_showpin [OF assms(1,2)] assms(3,4)
    by (simp add: answer_showpin_def write_all_free del: bytes_of_simps)
qed

lemma handle_register:
  assumes "line_text g" and "line_text t" and "pa_guid st = g" and "pa_pin st = atoi t" and "0 \<le> atoi t"
    and "int_range (atoi t)"
  shows "handle_request C addr (request ''REGISTER'' (register_headers g t)) st s =
    Some (Respond (line_of ''HTTP/1.1 200 OK''), st\<lparr>pa_read := Some 21, pa_registered := True\<rparr>, s)"
proof -
  have "0 \<notin> set (register_headers g t)" using assms(1,2) by (simp add: register_headers_def)
  note parts = request_parts [OF method_words(2) _ header_starts(2) this]
  show ?thesis
    using handle_request_method(3) [OF parts(1,2,3)] parse_register [OF assms(1,2)] assms(3-)
    by (simp add: answer_register_def del: bytes_of_simps)
qed

lemma handle_standby:
  "handle_request C addr (request ''STANDBY'' []) st s =
    Some (Go_on, st\<lparr>pa_read := Some 20, pa_listen := False, pa_addr := addr\<rparr>, s)"
  using handle_request_method(4) [OF request_parts [OF method_words(3), of "[]"]] by simp

lemma serve_go_on:
  assumes "handle_request C addr bs st (s\<lparr>rx := rest\<rparr>) = Some (Go_on, st', s')" and "rx s = Seg bs # Pause # rest" and "bs \<noteq> []"
  shows "serve_client C addr buf st s = serve_client C addr Freed st' s'"
  using assms by (subst serve_client.simps) (simp add: read_all_burst)

lemma serve_respond:
  assumes "handle_request C addr bs st (s\<lparr>rx := rest\<rparr>) = Some (Respond r, st', s')" and "rx s = Seg bs # Pause # rest" and "bs \<noteq> []"
    and "plan s' = []"
  shows "serve_client C addr buf st s = serve_client C addr Freed st' (s'\<lparr>tx := tx s' @ r @ [0]\<rparr>)"
  using assms by (subst serve_client.simps) (simp add: read_all_burst write_all_free)

lemma serve_closed: "rx s = [] \<Longrightarrow> serve_client C addr buf st s = Some (Null, st\<lparr>pa_pin := -1\<rparr>, s\<lparr>rx := []\<rparr>)"
  by (simp add: serve_client.simps read_all_closed)

lemma request_nonempty [simp]: "request m hs \<noteq> []"
  by (simp add: request_def)

text \<open>
  Claim C21: registering with a PIN. A device that asks for a PIN, sends it back with its id and
  then stands by is answered 200 twice, is registered, and is the device to connect to.
\<close>

theorem registration_with_pin:
  assumes "line_text g" and "length g \<le> 32" and "line_text nm" and "line_text t" and "atoi t = int pin" and "pin < 2 ^ 31"
    and "create_register_pin C 0 (no_info\<lparr>wi_deviceid := Some g, wi_name := Some nm\<rparr>) = Some (int pin, err)"
  shows "\<exists>st s. serve_client C addr Null pairing_zero \<lparr>rx = [Seg (request ''SHOWPIN'' (showpin_headers g nm)), Pause,
       Seg (request ''REGISTER'' (register_headers g t)), Pause, Seg (request ''STANDBY'' []), Pause], tx = [], plan = []\<rparr> =
      Some (Null, st, s) \<and>
    pa_registered st \<and> pa_guid st = g \<and> pa_addr st = addr \<and> \<not> pa_listen st \<and>
    tx s = line_of ''HTTP/1.1 200 OK'' @ [0] @ line_of ''HTTP/1.1 200 OK'' @ [0]"
proof -
  let ?ok = "line_of ''HTTP/1.1 200 OK'' @ [0]"
  let ?r3 = "[Seg (request ''STANDBY'' []), Pause]"
  let ?r2 = "Seg (request ''REGISTER'' (register_headers g t)) # Pause # ?r3"
  let ?s = "\<lambda>r u. \<lparr>rx = r, tx = u, plan = []\<rparr>"
  let ?st1 = "pairing_zero\<lparr>pa_read := Some 20, pa_guid := g, pa_pin := int pin, pa_asked := 1\<rparr>"
  let ?st2 = "?st1\<lparr>pa_read := Some 21, pa_registered := True\<rparr>"
  let ?st3 = "?st2\<lparr>pa_read := Some 20, pa_listen := False, pa_addr := addr\<rparr>"
  have 1: "handle_request C addr (request ''SHOWPIN'' (showpin_headers g nm)) pairing_zero (?s ?r2 []) =
      Some (Go_on, ?st1, ?s ?r2 ?ok)"
    using handle_showpin [OF assms(1,3), of "?s ?r2 []" C pairing_zero pin err addr] assms(2,7)
    by (simp add: pairing_zero_def)
  have 2: "handle_request C addr (request ''REGISTER'' (register_headers g t)) ?st1 (?s ?r3 ?ok) =
      Some (Respond (line_of ''HTTP/1.1 200 OK''), ?st2, ?s ?r3 ?ok)"
    using handle_register [OF assms(1,4), of ?st1] assms(5,6) by (simp add: int_range_def)
  have 3: "handle_request C addr (request ''STANDBY'' []) ?st2 (?s [] (?ok @ ?ok)) = Some (Go_on, ?st3, ?s [] (?ok @ ?ok))"
    using handle_standby [of C addr ?st2] by simp
  have "serve_client C addr Null pairing_zero (?s (Seg (request ''SHOWPIN'' (showpin_headers g nm)) # Pause # ?r2) []) =
      serve_client C addr Freed ?st1 (?s ?r2 ?ok)"
    by (rule serve_go_on [OF _ _ request_nonempty]) (use 1 in simp_all)
  also have "\<dots> = serve_client C addr Freed ?st2 ((?s ?r3 ?ok)\<lparr>tx := tx (?s ?r3 ?ok) @ line_of ''HTTP/1.1 200 OK'' @ [0]\<rparr>)"
    by (rule serve_respond [OF _ _ request_nonempty]) (use 2 in simp_all)
  also have "\<dots> = serve_client C addr Freed ?st3 (?s [] (?ok @ ?ok))"
    by (rule serve_go_on [OF _ _ request_nonempty]) (use 3 in simp_all)
  also have "\<dots> = Some (Null, ?st3\<lparr>pa_pin := -1\<rparr>, ?s [] (?ok @ ?ok))"
    by (simp add: serve_closed)
  finally show ?thesis by simp
qed

theorem registration_with_pin_witness:
  "\<exists>st s. serve_client \<lparr>is_registered = device_registered, create_register_pin = generate_pin (\<lambda>_. 7)\<rparr> 9 Null pairing_zero
     \<lparr>rx = [Seg (request ''SHOWPIN'' (showpin_headers [0x41] [0x42])), Pause,
       Seg (request ''REGISTER'' (register_headers [0x41] [0x30, 0x37])), Pause, Seg (request ''STANDBY'' []), Pause],
       tx = [], plan = []\<rparr> = Some (Null, st, s) \<and> pa_registered st \<and> pa_addr st = 9"
proof -
  have t: "atoi [0x30, 0x37] = int 7" by (simp add: atoi_def digits_value_def c_isspace_def c_isdigit_def)
  show ?thesis
    using registration_with_pin [of "[0x41]" "[0x42]" "[0x30, 0x37]" 7
        "\<lparr>is_registered = device_registered, create_register_pin = generate_pin (\<lambda>_. 7)\<rparr>" 0 9, OF _ _ _ _ t]
    by (auto simp: line_text_def is_eol_def generate_pin_def no_info_def)
qed

text \<open>What the host remembers of PINs and registrations.\<close>

definition pin_made :: "callbacks \<Rightarrow> int \<Rightarrow> bool" where
  "pin_made C pin \<longleftrightarrow> (\<exists>k info err. create_register_pin C k info = Some (pin, err))"

definition honest :: "callbacks \<Rightarrow> pairing \<Rightarrow> bool" where
  "honest C st \<longleftrightarrow> (0 \<le> pa_pin st \<longrightarrow> pin_made C (pa_pin st)) \<and>
     (pa_registered st \<longrightarrow> (\<exists>pin \<ge> 0. pin_made C pin))"

lemma honest_updates [simp]:
  "honest C (st\<lparr>pa_guid := g\<rparr>) = honest C st" "honest C (st\<lparr>pa_port := k\<rparr>) = honest C st"
  "honest C (st\<lparr>pa_addr := a\<rparr>) = honest C st" "honest C (st\<lparr>pa_read := r\<rparr>) = honest C st"
  "honest C (st\<lparr>pa_listen := l\<rparr>) = honest C st" "honest C (st\<lparr>pa_asked := n\<rparr>) = honest C st"
  by (simp_all add: honest_def)

lemma honest_no_pin [simp]: "honest C st \<Longrightarrow> honest C (st\<lparr>pa_pin := -1\<rparr>)"
  by (simp add: honest_def)

lemma answer_connect_honest: "honest C st \<Longrightarrow> answer_connect C text st = Some (a, st') \<Longrightarrow> honest C st'"
  by (auto simp: answer_connect_def Let_def bind_eq_Some_conv split: option.splits)

lemma answer_showpin_honest:
  assumes "honest C st" and "answer_showpin C text st s = Some (a, st', s')"
  shows "honest C st'"
proof -
  obtain sent s1 where w: "VitaMTP_Sock_Write_All (line_of ''HTTP/1.1 200 OK'' @ [0]) s = (sent, s1)" by fastforce
  have "honest C (st\<lparr>pa_guid := g, pa_pin := pin, pa_asked := n\<rparr>)"
    if "create_register_pin C k info = Some (pin, err)" for g pin n k info err
    using assms(1) that by (auto simp: honest_def pin_made_def)
  with assms w show ?thesis
    by (auto simp: answer_showpin_def Let_def bind_eq_Some_conv split: if_splits)
qed

lemma answer_register_honest: "honest C st \<Longrightarrow> answer_register text st = Some (a, st') \<Longrightarrow> honest C st'"
  by (auto simp: answer_register_def Let_def bind_eq_Some_conv honest_def not_less split: if_splits)

lemma handle_request_honest:
  "honest C st \<Longrightarrow> handle_request C addr dat st s = Some (a, st', s') \<Longrightarrow> honest C st'"
  by (auto simp: handle_request_def Let_def bind_eq_Some_conv split: if_splits option.splits
      dest: answer_connect_honest [rotated] answer_showpin_honest [rotated] answer_register_honest [rotated])

lemma serve_client_honest:
  "honest C st \<Longrightarrow> serve_client C addr buf st s = Some (buf', st', s') \<Longrightarrow> honest C st'"
proof (induction C addr buf st s rule: serve_client.induct)
  case (1 C addr buf st s)
  obtain d as where r: "VitaMTP_Sock_Read_All (rx s) = (d, as)" by fastforce
  show ?case
  proof (cases "d = None \<or> d = Some []")
    case True
    then show ?thesis using 1(3,4) r by (subst (asm) serve_client.simps) auto
  next
    case False
    then obtain dat where d: "d = Some dat" "dat \<noteq> []" by auto
    obtain a st1 s1 where h: "handle_request C addr dat st (s\<lparr>rx := as\<rparr>) = Some (a, st1, s1)"
      using 1(4) r d by (subst (asm) serve_client.simps) (auto split: option.splits)
    have k: "honest C st1" using handle_request_honest [OF 1(3) h] .
    show ?thesis
    proof (cases a)
      case (Respond x)
      obtain ok s2 where w: "VitaMTP_Sock_Write_All (x @ [0]) s1 = (ok, s2)" by fastforce
      with 1(4) r d h Respond have "if ok then serve_client C addr Freed st1 s2 = Some (buf', st', s')
          else st' = st1\<lparr>pa_listen := False\<rparr>"
        by (subst (asm) serve_client.simps) (auto split: if_splits)
      with 1(1) [OF r [symmetric] d h refl Respond refl w [symmetric]] k show ?thesis
        by (cases ok) auto
    next
      case Go_on
      with 1(4) r d h have "serve_client C addr Freed st1 s1 = Some (buf', st', s')"
        by (subst (asm) serve_client.simps) simp
      with 1(2) [OF r [symmetric] d h refl Go_on refl] k show ?thesis by blast
    next
      case Stop_listening
      with 1(4) r d h k show ?thesis by (subst (asm) serve_client.simps) auto
    qed
  qed
qed

lemma serve_clients_honest:
  "honest C st \<Longrightarrow> serve_clients C buf st conns = Some (buf', st') \<Longrightarrow> honest C st'"
proof (induction C buf st conns rule: serve_clients.induct)
  case (2 C buf st addr s conns)
  show ?case
  proof (cases "pa_listen st")
    case True
    with 2(3) obtain b1 st1 s1 where "serve_client C addr buf st s = Some (b1, st1, s1)"
      "serve_clients C b1 st1 conns = Some (buf', st')"
      by (auto simp: bind_eq_Some_conv)
    with 2(1) True serve_client_honest [OF 2(2)] show ?thesis by simp
  qed (use 2(2,3) in simp)
qed simp

lemma pairing_zero_unregistered [simp]: "\<not> pa_registered pairing_zero"
  by (simp add: pairing_zero_def)

definition strict_host :: callbacks where
  "strict_host = \<lparr>is_registered = (\<lambda>_. False), create_register_pin = (\<lambda>_ _. Some (-1, 0))\<rparr>"

definition standby_client :: sock where
  "standby_client = \<lparr>rx = [Seg (request ''STANDBY'' []), Pause], tx = [], plan = []\<rparr>"

lemma standby_served:
  "serve_clients C Null pairing_zero [(addr, standby_client)] =
     Some (Null, pairing_zero\<lparr>pa_read := Some 20, pa_listen := False, pa_addr := addr, pa_pin := -1\<rparr>)"
proof -
  let ?st = "pairing_zero\<lparr>pa_read := Some 20, pa_listen := False, pa_addr := addr\<rparr>"
  have "serve_client C addr Null pairing_zero standby_client = serve_client C addr Freed ?st (standby_client\<lparr>rx := []\<rparr>)"
    by (rule serve_go_on [OF handle_standby]) (simp_all add: standby_client_def)
  then show ?thesis by (simp add: serve_closed pairing_zero_def)
qed

text \<open>
  Claim C22: no registration without a PIN. Whatever the devices send, on however many
  connections, a device is registered at the end only if the host made a PIN: a host that
  refuses every request for one registers nobody.
\<close>

theorem registration_needs_pin:
  assumes "serve_clients C Null pairing_zero conns = Some (buf, st)"
    and "\<And>k info pin err. create_register_pin C k info = Some (pin, err) \<Longrightarrow> pin < 0"
  shows "\<not> pa_registered st"
proof -
  have "honest C pairing_zero" by (simp add: honest_def pairing_zero_def)
  from serve_clients_honest [OF this assms(1)] assms(2) show ?thesis
    by (fastforce simp: honest_def pin_made_def)
qed

theorem registration_needs_pin_witness:
  "\<exists>st. serve_clients strict_host Null pairing_zero [(9, standby_client)] = Some (Null, st) \<and> \<not> pa_registered st"
proof -
  have "\<not> pa_registered (pairing_zero\<lparr>pa_read := Some 20, pa_listen := False, pa_addr := 9, pa_pin := -1\<rparr>)"
    by (rule registration_needs_pin [OF standby_served [of strict_host]]) (simp add: strict_host_def)
  then show ?thesis by (simp add: standby_served del: serve_clients.simps)
qed

text \<open>Connections one after the other.\<close>

lemma serve_clients_append:
  "serve_clients C buf st (xs @ ys) =
     (case serve_clients C buf st xs of None \<Rightarrow> None | Some (buf', st') \<Rightarrow>
        if pa_listen st' then serve_clients C buf' st' ys else Some (buf', st'))"
proof (induction C buf st xs rule: serve_clients.induct)
  case (1 C buf st)
  then show ?case by (cases ys) auto
next
  case (2 C buf st addr s conns)
  show ?case
  proof (cases "pa_listen st")
    case True
    with 2 show ?thesis by (cases "serve_client C addr buf st s") auto
  qed simp
qed

lemma standby_serves:
  assumes "rx client = [Seg (request ''STANDBY'' []), Pause]"
  shows "\<exists>s. serve_client C addr buf st client =
    Some (Null, st\<lparr>pa_read := Some 20, pa_listen := False, pa_addr := addr, pa_pin := -1\<rparr>, s)"
proof -
  let ?st = "st\<lparr>pa_read := Some 20, pa_listen := False, pa_addr := addr\<rparr>"
  have "serve_client C addr buf st client = serve_client C addr Freed ?st (client\<lparr>rx := []\<rparr>)"
    by (rule serve_go_on [OF handle_standby]) (simp_all add: assms)
  then show ?thesis by (simp add: serve_closed)
qed

text \<open>
  Claim C35: standing by without a registration. Whatever the callbacks of the host are, and whatever
  came on earlier connections as long as the host still listens, a device that sends nothing but
  \<open>STANDBY\<close> is the one that is connected to: when the data connection to its address can be opened, its
  session is the result. The registration is as it was before, and so are the id that was last given and
  the number of PINs that the host was asked for; with no earlier connection nobody is registered, no id
  was given and the host was asked nothing.
\<close>

theorem standby_needs_no_registration:
  assumes "serve_clients C Null pairing_zero earlier = Some (buf, st0)" and "pa_listen st0"
    and "rx client = [Seg (request ''STANDBY'' []), Pause]" and "0 < addr"
    and "VitaMTP_Data_Connect to_ucs2 from_ucs2 opened dev = Some (Some sess)"
  shows "\<exists>st. VitaMTP_Get_Wireless_Device C (earlier @ (addr, client) # later) to_ucs2 from_ucs2 opened dev = Some (Some sess, st) \<and>
    pa_addr st = addr \<and> pa_registered st = pa_registered st0 \<and> pa_guid st = pa_guid st0 \<and> pa_asked st = pa_asked st0"
proof -
  let ?st = "st0\<lparr>pa_read := Some 20, pa_listen := False, pa_addr := addr, pa_pin := -1\<rparr>"
  obtain s where "serve_client C addr buf st0 client = Some (Null, ?st, s)" using standby_serves [OF assms(3)] by blast
  then have "serve_clients C buf st0 ((addr, client) # later) = Some (Null, ?st)"
    using assms(2) by (cases later) auto
  with assms(1,2) have "serve_clients C Null pairing_zero (earlier @ (addr, client) # later) = Some (Null, ?st)"
    by (simp add: serve_clients_append del: serve_clients.simps)
  with assms(4,5) show ?thesis by (simp add: VitaMTP_Get_Wireless_Device_def del: serve_clients.simps)
qed

text \<open>A device that accepts the data connection, the event connection and the session.\<close>

definition accepting_device :: net where
  "accepting_device =
    (let P = plain_params PTP_DL_LE in
     \<lparr>cmd = \<lparr>rx = [Seg (htod32ap P 12 @ htod32ap P PTPIP_INIT_COMMAND_ACK @ htod32ap P 5),
          Seg (htod32ap P 14 @ htod32ap P PTPIP_CMD_RESPONSE @ htod16ap P PTP_RC_OK @ htod32ap P 0)], tx = [], plan = []\<rparr>,
      evt = \<lparr>rx = [Seg (htod32ap P 8 @ htod32ap P PTPIP_INIT_EVENT_ACK)], tx = [], plan = []\<rparr>,
      readable = [], log_errors = True, eventpipeid = 0\<rparr>)"

text \<open>The request that opens the session.\<close>

definition open_request :: ptp_container where
  "open_request = ptp_container_zero\<lparr>Code := PTP_OC_OpenSession, Param1 := 1, Nparam := 1\<rparr>"

lemma data_connect_answered:
  assumes P: "P = \<lparr>byteorder = PTP_DL_LE, cd_locale_to_ucs2 = Some f, cd_ucs2_to_locale = Some g\<rparr>"
    and c: "VitaMTP_PTPIP_Connect True P \<lparr>response_packet = [], split_header_data = False, io_dev = dev\<rparr> = Some (True, i1)"
    and q: "ptp_ptpip_sendreq P (i1\<lparr>response_packet := [], split_header_data := False\<rparr>) open_request = Some (PTP_RC_OK, i2)"
    and r: "ptp_ptpip_getresp P i2 open_request = Some (PTP_RC_OK, p, i3)"
    and p: "Transaction_ID p = 0" "Code p = PTP_RC_OK"
  shows "\<exists>sess. VitaMTP_Data_Connect (Some f) (Some g) True dev = Some (Some sess)"
proof -
  have req: "ptp_container_zero\<lparr>Code := PTP_OC_OpenSession, Param1 := 1, Nparam := Suc 0, Transaction_ID := 0, SessionID := 0\<rparr> = open_request"
    by (simp add: open_request_def ptp_container_zero_def)
  have d: "PTP_DP_NODATA mod 256 = PTP_DP_NODATA" "PTP_DP_NODATA \<noteq> PTP_DP_SENDDATA" "PTP_DP_NODATA \<noteq> PTP_DP_GETDATA"
    by (simp_all add: PTP_DP_NODATA_def PTP_DP_SENDDATA_def PTP_DP_GETDATA_def)
  show ?thesis
    unfolding VitaMTP_Data_Connect_def
    by (simp add: c [unfolded P] ptp_opensession_def ptp_transaction_new_def req data_phase_def d Let_def
        ptpip_funs_def q [unfolded P] r [unfolded P] p resp_loop.simps)
qed

theorem standby_needs_no_registration_witness:
  "\<exists>sess st. VitaMTP_Get_Wireless_Device strict_host [(9, standby_client)] (Some utf8_to_ucs2le) (Some ucs2le_to_utf8) True
     accepting_device = Some (Some sess, st) \<and> pa_addr st = 9 \<and> \<not> pa_registered st \<and> pa_asked st = 0"
proof -
  let ?P = "\<lparr>byteorder = PTP_DL_LE, cd_locale_to_ucs2 = Some utf8_to_ucs2le, cd_ucs2_to_locale = Some ucs2le_to_utf8\<rparr>"
  let ?c = "VitaMTP_PTPIP_Connect True ?P \<lparr>response_packet = [], split_header_data = False, io_dev = accepting_device\<rparr>"
  let ?q = "ptp_ptpip_sendreq ?P ((snd (the ?c))\<lparr>response_packet := [], split_header_data := False\<rparr>) open_request"
  let ?r = "ptp_ptpip_getresp ?P (snd (the ?q)) open_request"
  have "\<not> Option.is_none ?c \<and> fst (the ?c)" by code_simp
  then have c: "?c = Some (True, snd (the ?c))" by (cases ?c) auto
  have "\<not> Option.is_none ?q \<and> fst (the ?q) = PTP_RC_OK" by code_simp
  then have q: "?q = Some (PTP_RC_OK, snd (the ?q))" by (cases ?q) auto
  have rr: "\<not> Option.is_none ?r \<and> fst (the ?r) = PTP_RC_OK \<and> Transaction_ID (fst (snd (the ?r))) = 0 \<and>
    Code (fst (snd (the ?r))) = PTP_RC_OK" by code_simp
  then have r: "?r = Some (PTP_RC_OK, fst (snd (the ?r)), snd (snd (the ?r)))" by (cases ?r) auto
  obtain sess where s: "VitaMTP_Data_Connect (Some utf8_to_ucs2le) (Some ucs2le_to_utf8) True accepting_device = Some (Some sess)"
    using data_connect_answered [OF refl c q r] rr by blast
  have "serve_clients strict_host Null pairing_zero [] = Some (Null, pairing_zero)" "pa_listen pairing_zero"
    "rx standby_client = [Seg (request ''STANDBY'' []), Pause]" by (simp_all add: pairing_zero_def standby_client_def)
  from standby_needs_no_registration [OF this _ s, of 9 "[]"] show ?thesis
    by (auto simp: pairing_zero_def)
qed

section \<open>The end of the broadcast\<close>

definition search :: "byte list" where "search = line_of ''SRCH * HTTP/1.1''"

definition quiet_turn :: "turn \<Rightarrow> bool" where
  "quiet_turn t \<longleftrightarrow> tn_command t = None \<and> tn_sent t \<and>
     (\<forall>r. tn_request t = Some r \<longrightarrow> (\<exists>dat. r = Some dat \<and> (dat = [] \<or> strcmp_at dat search \<noteq> None)))"

text \<open>What \<open>data\<close> is after the requests so far.\<close>

fun data_after :: "buffer \<Rightarrow> turn list \<Rightarrow> buffer" where
  "data_after buf [] = buf"
| "data_after buf (t # ts) = data_after
     (case tn_request t of
        Some (Some dat) \<Rightarrow> if dat = [] then Null else if strcmp_at dat search = Some True then Live else Freed
      | _ \<Rightarrow> buf) ts"

lemma broadcast_quiet:
  assumes "\<forall>t \<in> set ts. quiet_turn t" and "tn_command stop = Some (Some BroadcastStop)"
  shows "broadcast_loop hi buf (ts @ [stop]) \<noteq> None \<longleftrightarrow> data_after buf ts \<noteq> Freed"
  using assms(1)
proof (induction ts arbitrary: buf)
  case Nil
  then show ?case using assms(2) by (simp add: broadcast_turn_def)
next
  case (Cons t ts)
  from Cons.prems have q: "quiet_turn t" by simp
  have "\<exists>sent. broadcast_turn hi buf t = Some (Running, sent, data_after buf [t])"
  proof (cases "tn_request t")
    case (Some r)
    with q obtain dat where "r = Some dat" "dat = [] \<or> strcmp_at dat search \<noteq> None" by (auto simp: quiet_turn_def)
    with Some q show ?thesis by (auto simp: quiet_turn_def broadcast_turn_def search_def)
  qed (use q in \<open>simp add: quiet_turn_def broadcast_turn_def\<close>)
  then obtain sent b where b: "broadcast_turn hi buf t = Some (Running, sent, b)" "b = data_after buf [t]" by blast
  have "broadcast_loop hi buf ((t # ts) @ [stop]) \<noteq> None \<longleftrightarrow> broadcast_loop hi b (ts @ [stop]) \<noteq> None"
    by (cases "broadcast_loop hi b (ts @ [stop])") (auto simp: b(1))
  also have "\<dots> \<longleftrightarrow> data_after b ts \<noteq> Freed" using Cons.IH Cons.prems by simp
  finally show ?case by (simp add: b(2))
qed

text \<open>
  Stopping the broadcast. The thread that broadcasts ends without undefined behaviour
  exactly when the last thing it received was a search that it answered, or nothing; when
  it is stopped before any device searched, or after a message of another kind, it frees a
  pointer that is not set, or was freed.
\<close>

theorem broadcast_stop_safe_iff:
  assumes "\<forall>t \<in> set ts. quiet_turn t" and "tn_command stop = Some (Some BroadcastStop)"
  shows "VitaMTP_Broadcast_Host hi (ts @ [stop]) \<noteq> None \<longleftrightarrow> data_after Freed ts \<noteq> Freed"
  unfolding VitaMTP_Broadcast_Host_def by (rule broadcast_quiet [OF assms])

theorem broadcast_stop_safe_iff_witness:
  "VitaMTP_Broadcast_Host
     \<lparr>hi_guid = ''g'', hi_type = ''win'', hi_name = ''n'', hi_port = 9309\<rparr> ([] @ [\<lparr>tn_command = Some (Some BroadcastStop), tn_request = None, tn_sent = True\<rparr>]) = None"
proof -
  let ?hi = "\<lparr>hi_guid = ''g'', hi_type = ''win'', hi_name = ''n'', hi_port = 9309\<rparr>"
  let ?stop = "\<lparr>tn_command = Some (Some BroadcastStop), tn_request = None, tn_sent = True\<rparr>"
  have "VitaMTP_Broadcast_Host ?hi ([] @ [?stop]) \<noteq> None \<longleftrightarrow> data_after Freed [] \<noteq> Freed"
    by (rule broadcast_stop_safe_iff) simp_all
  then show ?thesis unfolding data_after.simps by blast
qed

end
