(* ===== verification/Usb_Props.thy ===== *)
theory Usb_Props
  imports Usb Ptpip_Props
begin

text \<open>
  USB: what is written is what was to be sent, however the device splits its transfers; data
  phases and responses are read from the transfers a device makes, with their zero
  length packets and with a response that arrives together with the data; whole
  transactions; and what goes wrong with short containers, short transfers and failed
  cancellations.
\<close>

section \<open>What is expected of the bulk pipes\<close>

text \<open>
  A write transfers at least one byte and at most what it is given; a read takes from the
  oldest transfer of the device, and a transfer ends with a short packet, which may be
  empty. \<open>sent\<close> is what the device got, \<open>queue\<close> the transfers it has made, a zero
  length packet among them as an empty one. A real pipe refuses to
  cut a transfer inside a packet; the reads of the program never do, they are for whole packets
  or for at least what the transfer has.
\<close>

definition accepts :: "'d usb_lib \<Rightarrow> byte \<Rightarrow> ('d \<Rightarrow> byte list list) \<Rightarrow> ('d \<Rightarrow> byte list) \<Rightarrow> bool" where
  "accepts U ep queue sent \<longleftrightarrow> (\<forall>bs t d. \<exists>k d'. bulk_write U ep bs t d = (0, k, d') \<and> k \<le> length bs \<and>
     (bs \<noteq> [] \<longrightarrow> 0 < k) \<and> sent d' = sent d @ take k bs \<and> queue d' = queue d)"

definition delivers :: "'d usb_lib \<Rightarrow> byte \<Rightarrow> ('d \<Rightarrow> byte list list) \<Rightarrow> ('d \<Rightarrow> byte list) \<Rightarrow> bool" where
  "delivers U ep queue sent \<longleftrightarrow> (\<forall>n t d x rest. queue d = x # rest \<longrightarrow> (\<exists>d'.
     bulk_read U ep n t d = (0, take n x, d') \<and> sent d' = sent d \<and>
     queue d' = (if n < length x then drop n x # rest else rest)))"

definition usb_pipe :: "'d usb_lib \<Rightarrow> ('d \<Rightarrow> byte list list) \<Rightarrow> ('d \<Rightarrow> byte list) \<Rightarrow> 'd vita_usb \<Rightarrow> bool" where
  "usb_pipe U queue sent u \<longleftrightarrow> accepts U (outep u) queue sent \<and> delivers U (inep u) queue sent \<and>
     \<not> callback_active u \<and> outep_maxpacket u = 512"

lemma usb_pipe_updates [simp]:
  "usb_pipe U queue sent (u\<lparr>usb_handle := d\<rparr>) = usb_pipe U queue sent u"
  "usb_pipe U queue sent (u\<lparr>current_transfer_complete := n\<rparr>) = usb_pipe U queue sent u"
  "usb_pipe U queue sent (u\<lparr>current_transfer_total := n\<rparr>) = usb_pipe U queue sent u"
  by (simp_all add: usb_pipe_def)

lemma usb_pipe_write:
  assumes "usb_pipe U queue sent u"
  obtains k d' where "bulk_write U (outep u) bs t d = (0, k, d')" "k \<le> length bs" "bs \<noteq> [] \<Longrightarrow> 0 < k"
    "sent d' = sent d @ take k bs" "queue d' = queue d"
  using assms unfolding usb_pipe_def accepts_def by metis

lemma usb_pipe_read:
  assumes "usb_pipe U queue sent u" and "queue d = x # rest"
  obtains d' where "bulk_read U (inep u) n t d = (0, take n x, d')" "sent d' = sent d"
    "queue d' = (if n < length x then drop n x # rest else rest)"
  using assms unfolding usb_pipe_def delivers_def by metis

lemma usb_pipe_progress: "usb_pipe U queue sent u \<Longrightarrow> report_progress u = (True, u)"
  by (simp add: usb_pipe_def report_progress_def)

lemma usb_pipe_maxpacket: "usb_pipe U queue sent u \<Longrightarrow> outep_maxpacket u = 512"
  by (simp add: usb_pipe_def)

text \<open>A device that has made some transfers and accepts at most 200 bytes at a time.\<close>

record bench =
  b_queue :: "byte list list"
  b_sent :: "byte list"

definition bench_lib :: "bench usb_lib" where
  "bench_lib = \<lparr>
     bulk_read = (\<lambda>ep n t d. case b_queue d of [] \<Rightarrow> (-7, [], d) | x # rest \<Rightarrow>
       (0, take n x, d\<lparr>b_queue := (if n < length x then drop n x # rest else rest)\<rparr>)),
     bulk_write = (\<lambda>ep bs t d. (0, min 200 (length bs), d\<lparr>b_sent := b_sent d @ take 200 bs\<rparr>)),
     control_transfer = (\<lambda>bs t d. (-4, d)),
     libusb_open = (\<lambda>dev. Some \<lparr>b_queue = [], b_sent = []\<rparr>),
     claim_interface = (\<lambda>n d. d), release_interface = (\<lambda>n d. d)\<rparr>"

definition bench_io :: "byte list list \<Rightarrow> bench vita_usb ptp_io" where
  "bench_io q = \<lparr>response_packet = [], split_header_data = False,
     io_dev = (vita_usb_zero \<lparr>b_queue = q, b_sent = []\<rparr>)\<lparr>inep := 0x81, outep := 2, outep_maxpacket := 512\<rparr>\<rparr>"

lemma bench_simps [simp]:
  "usb_pipe bench_lib b_queue b_sent (io_dev (bench_io q))" "response_packet (bench_io q) = []"
  "\<not> split_header_data (bench_io q)" "b_queue (usb_handle (io_dev (bench_io q))) = q"
  "b_sent (usb_handle (io_dev (bench_io q))) = []"
  by (auto simp: usb_pipe_def accepts_def delivers_def bench_lib_def bench_io_def vita_usb_zero_def min_def)

section \<open>Writing\<close>

definition moved :: "'d \<Rightarrow> nat \<Rightarrow> 'd vita_usb \<Rightarrow> 'd vita_usb" where
  "moved d k u = u\<lparr>usb_handle := d, current_transfer_complete := current_transfer_complete u + k\<rparr>"

lemma moved_simps [simp]:
  "usb_pipe U queue sent (moved d k u) = usb_pipe U queue sent u"
  "usb_handle (moved d k u) = d" "inep (moved d k u) = inep u" "outep (moved d k u) = outep u"
  "usb_timeout (moved d k u) = usb_timeout u" "moved d' k' (moved d k u) = moved d' (k + k') u"
  "outep_maxpacket (moved d k u) = outep_maxpacket u"
  "(moved d k u)\<lparr>usb_handle := d'\<rparr> = moved d' k u"
  by (simp_all add: moved_def usb_pipe_def)

lemma write_block_all:
  assumes "usb_pipe U queue sent u"
  shows "\<exists>x d'. write_block U bs c x0 u = Some (PTP_RC_OK, c + length bs, x, moved d' (length bs) u) \<and>
    sent d' = sent (usb_handle u) @ bs \<and> queue d' = queue (usb_handle u) \<and>
    (if bs = [] then x = x0 else \<exists>k. x = Some k \<and> 0 < k \<and> k \<le> length bs)"
  using assms
proof (induction "length bs" arbitrary: bs c x0 u rule: less_induct)
  case less
  show ?case
  proof (cases "bs = []")
    case True
    then show ?thesis
      by (intro exI [of _ x0] exI [of _ "usb_handle u"]) (simp add: write_block.simps moved_def)
  next
    case False
    obtain k d1 where w: "bulk_write U (outep u) bs (usb_timeout u) (usb_handle u) = (0, k, d1)" "k \<le> length bs"
      "0 < k" "sent d1 = sent (usb_handle u) @ take k bs" "queue d1 = queue (usb_handle u)"
      using usb_pipe_write [OF less.prems] False by metis
    have "length (drop k bs) < length bs" using w(2,3) False by simp
    from less.hyps [OF this, of "moved d1 k u" "c + k" "Some k"] less.prems obtain x d'
      where r: "write_block U (drop k bs) (c + k) (Some k) (moved d1 k u) =
          Some (PTP_RC_OK, c + k + length (drop k bs), x, moved d' (length (drop k bs)) (moved d1 k u))"
        "sent d' = sent d1 @ drop k bs" "queue d' = queue d1"
        "if drop k bs = [] then x = Some k else \<exists>k'. x = Some k' \<and> 0 < k' \<and> k' \<le> length (drop k bs)"
      by auto
    have "write_block U bs c x0 u = write_block U (drop k bs) (c + k) (Some k) (moved d1 k u)"
      by (subst write_block.simps) (simp add: False w(1) moved_def)
    with r w False show ?thesis
      by (intro exI [of _ x] exI [of _ d']) (auto split: if_splits)
  qed
qed

lemma write_size_some:
  assumes "0 < rest"
  shows "\<exists>w. write_size 512 rest = Some w \<and> 0 < w \<and> w \<le> rest \<and> (rest \<le> 512 \<longrightarrow> w = rest)"
  using assms by (auto simp: write_size_def block_sizes)

definition mem_left :: "mem_handler \<Rightarrow> byte list" where
  "mem_left h = drop (h_curoff h) (h_data h)"

lemma memory_getfunc_left:
  "n \<le> length (mem_left h) \<Longrightarrow> memory_getfunc h n = (PTP_RC_OK, take n (mem_left h), h\<lparr>h_curoff := h_curoff h + n\<rparr>)"
  by (auto simp: memory_getfunc_def mem_left_def Let_def)

lemma mem_left_simps [simp]:
  "mem_left (h\<lparr>h_curoff := h_curoff h + n\<rparr>) = drop n (mem_left h)"
  "mem_left (ptp_init_send_memory_handler bs) = bs"
  by (simp_all add: mem_left_def add.commute ptp_init_send_memory_handler_def)

lemma write_loop_sends:
  assumes "usb_pipe U queue sent u" and "n - c \<le> length (mem_left h)" and "c \<le> n"
  shows "\<exists>m tw d'. write_loop U n c tw0 h u =
      Some (PTP_RC_OK, c + m, tw, h\<lparr>h_curoff := h_curoff h + m\<rparr>, moved d' m u) \<and>
    m \<le> n - c \<and> (c < n \<longrightarrow> 0 < m) \<and> (n - c \<le> 512 \<longrightarrow> m = n - c) \<and>
    sent d' = sent (usb_handle u) @ take m (mem_left h) \<and> queue d' = queue (usb_handle u)"
  using assms
proof (induction "n - c" arbitrary: c tw0 h u rule: less_induct)
  case less
  show ?case
  proof (cases "c < n")
    case False
    with less.prems show ?thesis
      by (intro exI [of _ 0] exI [of _ tw0] exI [of _ "usb_handle u"]) (simp add: write_loop.simps moved_def)
  next
    case True
    let ?l = "mem_left h"
    from write_size_some [of "n - c"] True obtain w where w: "write_size 512 (n - c) = Some w" "0 < w" "w \<le> n - c"
      "n - c \<le> 512 \<longrightarrow> w = n - c" by auto
    with less.prems(2) have g: "memory_getfunc h w = (PTP_RC_OK, take w ?l, h\<lparr>h_curoff := h_curoff h + w\<rparr>)"
      and lw: "length (take w ?l) = w" by (auto intro!: memory_getfunc_left)
    with w(2) have ne: "take w ?l \<noteq> []" by auto
    from write_block_all [OF less.prems(1), of "take w ?l" c None] ne lw obtain k d1 where
      b: "write_block U (take w ?l) c None u = Some (PTP_RC_OK, c + w, Some k, moved d1 w u)"
        "sent d1 = sent (usb_handle u) @ take w ?l" "queue d1 = queue (usb_handle u)" "k \<le> w"
      by auto
    have p: "report_progress (moved d1 w u) = (True, moved d1 w u)"
      using usb_pipe_progress [of U queue sent "moved d1 w u"] less.prems(1) by simp
    have step: "write_loop U n c tw0 h u =
        (if k < w then Some (PTP_RC_OK, c + w, w, h\<lparr>h_curoff := h_curoff h + w\<rparr>, moved d1 w u)
         else write_loop U n (c + w) w (h\<lparr>h_curoff := h_curoff h + w\<rparr>) (moved d1 w u))"
      using True usb_pipe_maxpacket [OF less.prems(1)] lw
      by (subst write_loop.simps) (simp add: w(1) g b(1) p)
    show ?thesis
    proof (cases "k < w")
      case True
      with step w b show ?thesis
        by (intro exI [of _ w] exI [of _ w] exI [of _ d1]) auto
    next
      case no: False
      have lt: "n - (c + w) < n - c" using True w(2) by simp
      have le: "n - (c + w) \<le> length (mem_left (h\<lparr>h_curoff := h_curoff h + w\<rparr>))" "c + w \<le> n"
        using less.prems(2,3) w(3) by auto
      from less.hyps [OF lt _ le, of "moved d1 w u" w] less.prems(1)
      obtain m tw d' where r: "write_loop U n (c + w) w (h\<lparr>h_curoff := h_curoff h + w\<rparr>) (moved d1 w u) =
          Some (PTP_RC_OK, c + w + m, tw, h\<lparr>h_curoff := h_curoff h + w + m\<rparr>, moved d' m (moved d1 w u))"
        "m \<le> n - (c + w)" "sent d' = sent d1 @ take m (drop w ?l)" "queue d' = queue d1"
        by auto
      with step no w b(2,3) True show ?thesis
        by (intro exI [of _ "w + m"] exI [of _ tw] exI [of _ d'])
          (auto simp: take_add add.assoc)
    qed
  qed
qed

lemma ptp_write_func_sends:
  assumes "usb_pipe U queue sent u" and "n \<le> length (mem_left h)"
  shows "\<exists>m d'. ptp_write_func U n h u = Some (PTP_RC_OK, m, h\<lparr>h_curoff := h_curoff h + m\<rparr>, moved d' m u) \<and>
    m \<le> n \<and> (0 < n \<longrightarrow> 0 < m) \<and> (n \<le> 512 \<longrightarrow> m = n) \<and>
    sent d' = sent (usb_handle u) @ take m (mem_left h) \<and> queue d' = queue (usb_handle u)"
proof -
  from write_loop_sends [OF assms(1), of n 0 h 0] assms(2) obtain m tw d1 where
    r: "write_loop U n 0 0 h u = Some (PTP_RC_OK, m, tw, h\<lparr>h_curoff := h_curoff h + m\<rparr>, moved d1 m u)"
      "m \<le> n" "0 < n \<longrightarrow> 0 < m" "n \<le> 512 \<longrightarrow> m = n"
      "sent d1 = sent (usb_handle u) @ take m (mem_left h)" "queue d1 = queue (usb_handle u)"
    by auto
  obtain k d2 where z: "bulk_write U (outep u) [] (usb_timeout u) d1 = (0, k, d2)"
    "sent d2 = sent d1" "queue d2 = queue d1"
    using usb_pipe_write [OF assms(1), of "[]" "usb_timeout u" d1] by (metis append_Nil2 take_Nil)
  show ?thesis
  proof (cases "current_transfer_complete (moved d1 m u) < current_transfer_total (moved d1 m u) \<or> tw mod 512 \<noteq> 0")
    case True
    with r show ?thesis
      by (intro exI [of _ m] exI [of _ d1])
        (auto simp: ptp_write_func_def usb_pipe_maxpacket [OF assms(1)])
  next
    case False
    with r z show ?thesis
      by (intro exI [of _ m] exI [of _ d2])
        (auto simp: ptp_write_func_def usb_pipe_maxpacket [OF assms(1)])
  qed
qed

lemma send_rest_sends:
  assumes "usb_pipe U queue sent u" and "n \<le> length (mem_left h)"
  shows "\<exists>d'. send_rest U n h u = Some (PTP_RC_OK, h\<lparr>h_curoff := h_curoff h + n\<rparr>, moved d' n u) \<and>
    sent d' = sent (usb_handle u) @ take n (mem_left h) \<and> queue d' = queue (usb_handle u)"
  using assms
proof (induction n arbitrary: h u rule: less_induct)
  case (less n)
  show ?case
  proof (cases "n = 0")
    case True
    then show ?thesis by (intro exI [of _ "usb_handle u"]) (simp add: send_rest.simps moved_def)
  next
    case False
    from ptp_write_func_sends [OF less.prems] False obtain m d1 where
      w: "ptp_write_func U n h u = Some (PTP_RC_OK, m, h\<lparr>h_curoff := h_curoff h + m\<rparr>, moved d1 m u)"
        "m \<le> n" "0 < m" "sent d1 = sent (usb_handle u) @ take m (mem_left h)" "queue d1 = queue (usb_handle u)"
      by auto
    have "n - m \<le> length (mem_left (h\<lparr>h_curoff := h_curoff h + m\<rparr>))" "n - m < n"
      using less.prems(2) w(3) False by auto
    from less.IH [OF this(2) _ this(1), of "moved d1 m u"] less.prems(1) w obtain d'
      where r: "send_rest U (n - m) (h\<lparr>h_curoff := h_curoff h + m\<rparr>) (moved d1 m u) =
          Some (PTP_RC_OK, h\<lparr>h_curoff := h_curoff h + m + (n - m)\<rparr>, moved d' (n - m) (moved d1 m u))"
        "sent d' = sent d1 @ take (n - m) (drop m (mem_left h))" "queue d' = queue d1"
      by auto
    have "take n (mem_left h) = take m (mem_left h) @ take (n - m) (drop m (mem_left h))"
      using w(2) by (metis le_add_diff_inverse take_add)
    with r w False show ?thesis
      by (intro exI [of _ d']) (subst send_rest.simps, simp)
  qed
qed

lemma length_usb_header [simp]: "length (usb_header P n type code tid) = 12"
  by (simp add: usb_header_def f16.length_put f32.length_put)

lemma length_usb_request: "Nparam req \<le> 5 \<Longrightarrow> length (usb_request P req) = 12 + 4 * Nparam req"
  by (simp add: usb_request_def length_concat_const [where k = 4] f32.length_put)

text \<open>
  Claim C20: the data phase towards the device. Whatever parts of a transfer the pipe accepts at a
  time, the device gets the header, with the length of the container, and exactly the data,
  and the function comes back with \<open>PTP_RC_OK\<close>.
\<close>

theorem usb_senddata_sends:
  assumes "usb_pipe U queue sent (io_dev i)" and "n \<le> length (mem_left h)" and "n < 2 ^ 32"
  shows "\<exists>i'. ptp_usb_senddata U P i ptp n h = Some (PTP_RC_OK, h\<lparr>h_curoff := h_curoff h + n\<rparr>, i') \<and>
    sent (usb_handle (io_dev i')) = sent (usb_handle (io_dev i)) @
      usb_header P (12 + n) PTP_USB_CONTAINER_DATA (Code ptp) (Transaction_ID ptp) @ take n (mem_left h) \<and>
    queue (usb_handle (io_dev i')) = queue (usb_handle (io_dev i))"
proof -
  define u where "u = (io_dev i)\<lparr>current_transfer_complete := 0, current_transfer_total := n + PTP_USB_BULK_HDR_LEN\<rparr>"
  define k where "k = (if split_header_data i then 0 else min n 500)"
  define h1 where "h1 = h\<lparr>h_curoff := h_curoff h + k\<rparr>"
  define bs where "bs = take k (mem_left h)"
  define x where "x = usb_header P (12 + n) PTP_USB_CONTAINER_DATA (Code ptp) (Transaction_ID ptp) @ bs"
  have k: "k \<le> n" "k \<le> 500" by (auto simp: k_def)
  have lb: "length bs = k" using k assms(2) by (simp add: bs_def)
  have p: "usb_pipe U queue sent u" using assms(1) by (simp add: u_def)
  have g: "(if split_header_data i then (PTP_RC_OK, [], h) else memory_getfunc h k) = (PTP_RC_OK, bs, h1)"
    using k assms(2) by (auto simp: bs_def h1_def memory_getfunc_left) (simp_all add: k_def)
  have lx: "length x = 12 + k" by (simp add: x_def lb)
  from ptp_write_func_sends [OF p, of "12 + k" "ptp_init_send_memory_handler x"] lx k obtain h2 d1 where
    w: "ptp_write_func U (12 + k) (ptp_init_send_memory_handler x) u = Some (PTP_RC_OK, 12 + k, h2, moved d1 (12 + k) u)"
      "sent d1 = sent (usb_handle u) @ x" "queue d1 = queue (usb_handle u)"
    by auto
  have le: "n - k \<le> length (mem_left h1)" using assms(2) by (simp add: h1_def)
  from send_rest_sends [of U queue sent "moved d1 (12 + k) u", OF _ le] p obtain d2 where
    r: "send_rest U (n - k) h1 (moved d1 (12 + k) u) =
        Some (PTP_RC_OK, h1\<lparr>h_curoff := h_curoff h1 + (n - k)\<rparr>, moved d2 (12 + k + (n - k)) u)"
      "sent d2 = sent d1 @ take (n - k) (mem_left h1)" "queue d2 = queue d1"
    by auto
  have nk: "unat (of_nat n - of_nat k :: u32) = n - k"
    using k assms(3) by (simp add: unat_of_nat take_bit_eq_mod flip: of_nat_diff)
  have hk: "h1\<lparr>h_curoff := h_curoff h1 + (n - k)\<rparr> = h\<lparr>h_curoff := h_curoff h + n\<rparr>"
    using k by (simp add: h1_def)
  have tk: "bs @ take (n - k) (mem_left h1) = take n (mem_left h)"
    using k(1) by (simp add: bs_def h1_def flip: take_add)
  have "ptp_usb_senddata U P i ptp n h =
      (if n \<le> k then Some (PTP_RC_OK, h1, i\<lparr>io_dev := moved d1 (12 + k) u\<rparr>)
       else Some (PTP_RC_OK, h\<lparr>h_curoff := h_curoff h + n\<rparr>, i\<lparr>io_dev := moved d2 (12 + k + (n - k)) u\<rparr>))"
    unfolding ptp_usb_senddata_def Let_def usb_lens
    unfolding u_def [symmetric, unfolded usb_lens] k_def [symmetric] g prod.case
    using w(1) r(1) lb by (simp add: x_def [symmetric] nk hk)
  then show ?thesis using w r k tk by (cases "n \<le> k") (auto simp: u_def x_def bs_def h1_def)
qed

theorem usb_senddata_sends_witness:
  "\<exists>h i'. ptp_usb_senddata bench_lib (plain_params PTP_DL_LE) (bench_io []) ptp_container_zero 1000
     (ptp_init_send_memory_handler (replicate 1000 7)) = Some (PTP_RC_OK, h, i') \<and>
     drop 12 (b_sent (usb_handle (io_dev i'))) = replicate 1000 7"
  using usb_senddata_sends [of bench_lib b_queue b_sent "bench_io []" 1000 "ptp_init_send_memory_handler (replicate 1000 7)"
      "plain_params PTP_DL_LE" ptp_container_zero]
  by auto

text \<open>A request is sent as one container.\<close>

lemma usb_sendreq_sends:
  assumes "usb_pipe U queue sent (io_dev i)" and "Nparam req \<le> 5"
  shows "\<exists>u'. ptp_usb_sendreq U P i req = Some (PTP_RC_OK, i\<lparr>io_dev := u'\<rparr>) \<and> usb_pipe U queue sent u' \<and>
    sent (usb_handle u') = sent (usb_handle (io_dev i)) @ usb_request P req \<and>
    queue (usb_handle u') = queue (usb_handle (io_dev i))"
proof -
  let ?n = "12 + 4 * Nparam req"
  from ptp_write_func_sends [OF assms(1), of ?n "ptp_init_send_memory_handler (usb_request P req)"] assms(2)
  obtain h d where "ptp_write_func U ?n (ptp_init_send_memory_handler (usb_request P req)) (io_dev i) =
      Some (PTP_RC_OK, ?n, h, moved d ?n (io_dev i))"
    "sent d = sent (usb_handle (io_dev i)) @ usb_request P req" "queue d = queue (usb_handle (io_dev i))"
    by (auto simp: length_usb_request)
  with assms show ?thesis
    by (intro exI [of _ "moved d ?n (io_dev i)"]) (simp add: ptp_usb_sendreq_def Let_def)
qed

section \<open>Reading\<close>

lemma memory_putfunc_append:
  "h_curoff h = length (h_data h) \<Longrightarrow>
     memory_putfunc h bs = (PTP_RC_OK, \<lparr>h_data = h_data h @ bs, h_curoff = length (h_data h @ bs)\<rparr>)"
  by (simp add: memory_putfunc_def)

text \<open>A transfer as long as what is to be read is read whole, in blocks.\<close>

lemma read_loop_whole:
  assumes "usb_pipe U queue sent u" and "queue (usb_handle u) = x # rest" and "length x = n - c" and "c < n"
    and "c = 0 \<or> t = CONTEXT_BLOCK_SIZE_1 \<or> t = CONTEXT_BLOCK_SIZE_2" and "h_curoff h = length (h_data h)"
  shows "\<exists>d'. read_loop U n c t h u =
      Some (PTP_RC_OK, n, \<lparr>h_data = h_data h @ x, h_curoff = length (h_data h @ x)\<rparr>, moved d' (n - c) u) \<and>
    queue d' = rest \<and> sent d' = sent (usb_handle u)"
  using assms
proof (induction "n - c" arbitrary: c t h u x rule: less_induct)
  case less
  define w where "w = next_toread n c t"
  have w: "0 < w" "w \<le> n - c" "w = n - c \<or> w = CONTEXT_BLOCK_SIZE_1 \<or> w = CONTEXT_BLOCK_SIZE_2"
    using less.prems(4,5) by (auto simp: w_def next_toread_def block_sizes)
  obtain d1 where b: "bulk_read U (inep u) w (usb_timeout u) (usb_handle u) = (0, take w x, d1)"
    "sent d1 = sent (usb_handle u)" "queue d1 = (if w < length x then drop w x # rest else rest)"
    using usb_pipe_read [OF less.prems(1,2)] by metis
  let ?h = "\<lparr>h_data = h_data h @ take w x, h_curoff = length (h_data h @ take w x)\<rparr>"
  have lw: "length (take w x) = w" using w(2) less.prems(3) by simp
  have p: "report_progress (moved d1 w u) = (True, moved d1 w u)"
    using usb_pipe_progress [of U queue sent "moved d1 w u"] less.prems(1) by simp
  have step: "read_loop U n c t h u = read_loop U n (c + w) w ?h (moved d1 w u)"
    using less.prems(4,6) lw p
    by (subst read_loop.simps) (simp add: w_def [symmetric] b(1) memory_putfunc_append moved_def)
  show ?case
  proof (cases "c + w = n")
    case True
    then have "w = n - c" by simp
    with step True b less.prems(3) show ?thesis
      by (intro exI [of _ d1]) (simp add: read_loop.simps)
  next
    case no: False
    then have lt: "n - (c + w) < n - c" "c + w < n" using w less.prems(4) by auto
    have q: "queue (usb_handle (moved d1 w u)) = drop w x # rest"
      using b(3) lt(2) less.prems(3) by simp
    have t: "c + w = 0 \<or> w = CONTEXT_BLOCK_SIZE_1 \<or> w = CONTEXT_BLOCK_SIZE_2" using w no by auto
    from less.hyps [OF lt(1) _ q _ lt(2) t, of ?h] less.prems(1,3) obtain d'
      where "read_loop U n (c + w) w ?h (moved d1 w u) = Some (PTP_RC_OK, n,
          \<lparr>h_data = h_data ?h @ drop w x, h_curoff = length (h_data ?h @ drop w x)\<rparr>, moved d' (n - (c + w)) (moved d1 w u))"
        "queue d' = rest" "sent d' = sent d1"
      by auto
    with step b lt(2) show ?thesis by (intro exI [of _ d']) (simp add: add.assoc)
  qed
qed

text \<open>What fits into one block is read with one transfer.\<close>

lemma read_loop_once:
  assumes "usb_pipe U queue sent u" and "queue (usb_handle u) = x # rest" and "0 < n" and "n < CONTEXT_BLOCK_SIZE"
    and "h_curoff h = length (h_data h)"
  shows "\<exists>d'. read_loop U n 0 0 h u =
      Some (PTP_RC_OK, min n (length x), \<lparr>h_data = h_data h @ take n x, h_curoff = length (h_data h @ take n x)\<rparr>,
        moved d' (min n (length x)) u) \<and>
    queue d' = (if n < length x then drop n x # rest else rest) \<and> sent d' = sent (usb_handle u)"
proof -
  obtain d1 where b: "bulk_read U (inep u) n (usb_timeout u) (usb_handle u) = (0, take n x, d1)"
    "sent d1 = sent (usb_handle u)" "queue d1 = (if n < length x then drop n x # rest else rest)"
    using usb_pipe_read [OF assms(1,2)] by metis
  have p: "report_progress (moved d1 (min n (length x)) u) = (True, moved d1 (min n (length x)) u)"
    using usb_pipe_progress [of U queue sent "moved d1 (min n (length x)) u"] assms(1) by simp
  have t: "next_toread n 0 0 = n" using assms(4) by (simp add: next_toread_def)
  show ?thesis
    using assms(3,5) b p t
    by (intro exI [of _ d1], subst read_loop.simps, simp add: memory_putfunc_append moved_def min.commute)
      (auto simp: read_loop.simps min_def)
qed

text \<open>A transfer whose length is a multiple of the packet size is followed by a zero length packet.\<close>

definition zlp :: "nat \<Rightarrow> byte list list" where
  "zlp n = (if n mod 512 = 0 then [[]] else [])"

lemma zero_read:
  assumes "usb_pipe U queue sent u" and "queue d = [[]] @ rest"
  shows "queue (snd (snd (bulk_read U (inep u) 0 t d))) = rest \<and> sent (snd (snd (bulk_read U (inep u) 0 t d))) = sent d"
proof -
  from assms(2) have "queue d = [] # rest" by simp
  then obtain d' where "bulk_read U (inep u) 0 t d = (0, take 0 [], d')" "sent d' = sent d"
    "queue d' = (if 0 < length ([] :: byte list) then drop 0 [] # rest else rest)"
    by (rule usb_pipe_read [OF assms(1)])
  then show ?thesis by simp
qed

lemma ptp_read_func_whole:
  assumes "usb_pipe U queue sent u" and "queue (usb_handle u) = x # zlp (length x) @ rest" and "x \<noteq> []"
    and "h_curoff h = length (h_data h)"
  shows "\<exists>d'. ptp_read_func U (length x) h True u =
      Some (PTP_RC_OK, length x, \<lparr>h_data = h_data h @ x, h_curoff = length (h_data h @ x)\<rparr>, moved d' (length x) u) \<and>
    queue d' = rest \<and> sent d' = sent (usb_handle u)"
proof -
  from read_loop_whole [OF assms(1,2), of "length x" 0 0 h] assms(3,4) obtain d1 where
    r: "read_loop U (length x) 0 0 h u = Some (PTP_RC_OK, length x,
        \<lparr>h_data = h_data h @ x, h_curoff = length (h_data h @ x)\<rparr>, moved d1 (length x) u)"
      "queue d1 = zlp (length x) @ rest" "sent d1 = sent (usb_handle u)"
    by auto
  show ?thesis
  proof (cases "length x mod 512 = 0")
    case True
    with zero_read [OF assms(1), of d1 rest "usb_timeout u"] r show ?thesis
      by (intro exI [of _ "snd (snd (bulk_read U (inep u) 0 (usb_timeout u) d1))"])
        (simp add: ptp_read_func_def usb_pipe_maxpacket [OF assms(1)] zlp_def mod_eq_0_iff_dvd [symmetric])
  next
    case False
    with r show ?thesis
      by (intro exI [of _ d1]) (simp add: ptp_read_func_def usb_pipe_maxpacket [OF assms(1)] zlp_def)
  qed
qed

lemma getpacket_reads:
  assumes "usb_pipe U queue sent (io_dev i)" and "queue (usb_handle (io_dev i)) = x # rest" and "response_packet i = []"
  shows "\<exists>d' k. ptp_usb_getpacket U i = Some (PTP_RC_OK, take 512 x, i\<lparr>io_dev := moved d' k (io_dev i)\<rparr>) \<and>
    queue d' = (if 512 < length x then drop 512 x # rest else rest) \<and> sent d' = sent (usb_handle (io_dev i))"
proof -
  let ?h = ptp_init_recv_memory_handler
  from read_loop_once [OF assms(1,2), of 512 ?h] obtain d1 where
    "read_loop U 512 0 0 ?h (io_dev i) = Some (PTP_RC_OK, min 512 (length x),
        \<lparr>h_data = take 512 x, h_curoff = length (take 512 x)\<rparr>, moved d1 (min 512 (length x)) (io_dev i))"
    "queue d1 = (if 512 < length x then drop 512 x # rest else rest)" "sent d1 = sent (usb_handle (io_dev i))"
    by (auto simp: block_sizes ptp_init_recv_memory_handler_def)
  with assms(3) show ?thesis
    by (intro exI [of _ d1] exI [of _ "min 512 (length x)"])
      (simp add: ptp_usb_getpacket_def usb_lens ptp_read_func_def ptp_exit_recv_memory_handler_def)
qed

section \<open>Containers\<close>

lemma take_field:
  "length b = k \<Longrightarrow> take k (b @ y) = b" "length a = j \<Longrightarrow> length b = k \<Longrightarrow> take k (drop j (a @ b @ y)) = b"
  by simp_all

lemma header_fields:
  "c_length P (usb_header P n type code tid @ y) = of_nat n"
  "c_type P (usb_header P n type code tid @ y) = type"
  "c_code P (usb_header P n type code tid @ y) = code"
  "c_trans_id P (usb_header P n type code tid @ y) = tid"
proof -
  define r where "r = y @ replicate (512 - length (usb_header P n type code tid @ y)) 0"
  have e: "pad 512 (usb_header P n type code tid @ y) =
      htod32ap P (of_nat n) @ htod16ap P type @ htod16ap P code @ htod32ap P tid @ r"
    by (simp add: pad_def r_def usb_header_def)
  note len = f16.length_put f32.length_put
  show "c_length P (usb_header P n type code tid @ y) = of_nat n"
    unfolding c_fields e by (simp add: take_field(1) len f32.get_put)
  show "c_type P (usb_header P n type code tid @ y) = type"
    unfolding c_fields e by (simp add: len f16.get_put)
  show "c_code P (usb_header P n type code tid @ y) = code"
    unfolding c_fields e by (simp add: len f16.get_put)
  show "c_trans_id P (usb_header P n type code tid @ y) = tid"
    unfolding c_fields e by (simp add: len f32.get_put)
qed

definition usb_data :: "ptp_params \<Rightarrow> u16 \<Rightarrow> u32 \<Rightarrow> byte list \<Rightarrow> byte list" where
  "usb_data P code tid dat = usb_header P (12 + length dat) PTP_USB_CONTAINER_DATA code tid @ dat"

text \<open>The transfers of a data phase: the container in one, or its header in one of its own.\<close>

definition data_transfers :: "bool \<Rightarrow> ptp_params \<Rightarrow> u16 \<Rightarrow> u32 \<Rightarrow> byte list \<Rightarrow> byte list list" where
  "data_transfers split P code tid dat =
     (if split \<and> dat \<noteq> []
      then usb_header P (12 + length dat) PTP_USB_CONTAINER_DATA code tid # dat # zlp (length dat)
      else usb_data P code tid dat # zlp (12 + length dat))"

lemma getdata_packet:
  assumes "ptp_usb_getpacket U i = Some (PTP_RC_OK, usb_header P n PTP_USB_CONTAINER_DATA (Code ptp) tid @ y, i1)"
    and "n < 2 ^ 32 - 1"
  shows "ptp_usb_getdata U P i ptp h =
    take_data U n (usb_header P n PTP_USB_CONTAINER_DATA (Code ptp) tid @ y) h i1"
proof -
  have "of_nat n \<noteq> (0xffffffff :: u32)" "unat (of_nat n :: u32) = n"
    using assms(2) by (auto simp: unat_of_nat take_bit_eq_mod dest!: arg_cong [where f = unat])
  with assms(1) show ?thesis by (simp add: ptp_usb_getdata_def header_fields)
qed

text \<open>
  The data phase from the device. Whether the device sends the header with the data or by
  itself, and whatever the length, the handler gets exactly the data; every transfer of the
  data phase has been taken, a zero length packet included, so that what comes next is the
  response.
\<close>

lemma usb_getdata_ok:
  assumes "usb_pipe U queue sent (io_dev i)" and "response_packet i = []" and "split \<or> \<not> split_header_data i"
    and "12 + length dat < 2 ^ 32 - 1" and "h_curoff h = length (h_data h)"
    and "queue (usb_handle (io_dev i)) = data_transfers split P (Code ptp) tid dat @ rest"
  shows "\<exists>i'. ptp_usb_getdata U P i ptp h =
      Some (PTP_RC_OK, \<lparr>h_data = h_data h @ dat, h_curoff = length (h_data h @ dat)\<rparr>, i') \<and>
    response_packet i' = [] \<and> usb_pipe U queue sent (io_dev i') \<and>
    queue (usb_handle (io_dev i')) = rest \<and> sent (usb_handle (io_dev i')) = sent (usb_handle (io_dev i))"
proof (cases "split \<and> dat \<noteq> []")
  case True
  let ?hdr = "usb_header P (12 + length dat) PTP_USB_CONTAINER_DATA (Code ptp) tid"
  from assms(6) True have q: "queue (usb_handle (io_dev i)) = ?hdr # dat # zlp (length dat) @ rest"
    by (simp add: data_transfers_def)
  from getpacket_reads [OF assms(1) q assms(2)] obtain d1 k where
    g: "ptp_usb_getpacket U i = Some (PTP_RC_OK, ?hdr @ [], i\<lparr>io_dev := moved d1 k (io_dev i)\<rparr>)"
      "queue d1 = dat # zlp (length dat) @ rest" "sent d1 = sent (usb_handle (io_dev i))"
    by auto
  let ?u = "moved d1 k (io_dev i)"
  from ptp_read_func_whole [of U queue sent ?u dat rest h] assms(1,5) g True obtain d2 where
    r: "ptp_read_func U (length dat) h True ?u = Some (PTP_RC_OK, length dat,
        \<lparr>h_data = h_data h @ dat, h_curoff = length (h_data h @ dat)\<rparr>, moved d2 (length dat) ?u)"
      "queue d2 = rest" "sent d2 = sent d1"
    by auto
  have h: "h\<lparr>h_data := h_data h, h_curoff := length (h_data h)\<rparr> = h" using assms(5) by (cases h) simp
  have "memory_putfunc h [] = (PTP_RC_OK, h)" using assms(5) by (simp add: memory_putfunc_def)
  then have "take_data U (12 + length dat) (?hdr @ []) h (i\<lparr>io_dev := ?u\<rparr>) =
      Some (PTP_RC_OK, \<lparr>h_data = h_data h @ dat, h_curoff = length (h_data h @ dat)\<rparr>,
        (i\<lparr>io_dev := ?u\<rparr>)\<lparr>split_header_data := True, io_dev := moved d2 (length dat) ?u\<rparr>)"
    using r(1) True by (simp add: take_data_def usb_lens Let_def)
  with getdata_packet [OF g(1), of h] assms g r show ?thesis by (simp del: append_Nil2)
next
  case False
  let ?hdr = "usb_header P (12 + length dat) PTP_USB_CONTAINER_DATA (Code ptp) tid"
  let ?n = "12 + length dat"
  let ?h = "\<lparr>h_data = h_data h @ take 500 dat, h_curoff = length (h_data h @ take 500 dat)\<rparr>"
  from assms(6) False have q: "queue (usb_handle (io_dev i)) = (?hdr @ dat) # zlp ?n @ rest"
    by (simp add: data_transfers_def usb_data_def)
  from getpacket_reads [OF assms(1) q assms(2)] obtain d1 k where
    g: "ptp_usb_getpacket U i = Some (PTP_RC_OK, ?hdr @ take 500 dat, i\<lparr>io_dev := moved d1 k (io_dev i)\<rparr>)"
      "queue d1 = (if 500 < length dat then drop 500 dat # zlp ?n @ rest else zlp ?n @ rest)"
      "sent d1 = sent (usb_handle (io_dev i))"
    by auto
  let ?i = "i\<lparr>io_dev := moved d1 k (io_dev i)\<rparr>"
  have split: "?n \<noteq> 12 \<longrightarrow> min (12 + min (length dat) 500) ?n \<noteq> 12" by auto
  have put: "memory_putfunc h (take 500 dat) = (PTP_RC_OK, ?h)" using assms(5) by (simp add: memory_putfunc_append)
  have ns: "?n = 512 \<Longrightarrow> \<not> split_header_data i" using False assms(3) by auto
  let ?z = "snd (snd (bulk_read U (inep (io_dev i)) 0 (usb_timeout (io_dev i)) d1))"
  consider "length dat < 500" | "length dat = 500" | "500 < length dat" by linarith
  then have "\<exists>d' k'. take_data U ?n (?hdr @ take 500 dat) h ?i =
      Some (PTP_RC_OK, \<lparr>h_data = h_data h @ dat, h_curoff = length (h_data h @ dat)\<rparr>,
        ?i\<lparr>io_dev := moved d' k' (io_dev i)\<rparr>) \<and> queue d' = rest \<and> sent d' = sent d1"
  proof cases
    case 1
    with g put show ?thesis
      by (intro exI [of _ d1] exI [of _ k]) (auto simp: take_data_def usb_lens Let_def zlp_def)
  next
    case 2
    with zero_read [OF assms(1), of d1 rest "usb_timeout (io_dev i)"] g put ns show ?thesis
      by (intro exI [of _ ?z] exI [of _ k]) (simp add: take_data_def usb_lens Let_def zlp_def)
  next
    case 3
    have m: "?n mod 512 = (length dat - 500) mod 512"
      using 3 mod_add_self2 [of "length dat - 500" 512] by (simp add: add.commute)
    from ptp_read_func_whole [of U queue sent "io_dev ?i" "drop 500 dat" rest ?h] assms(1) g 3 m obtain d2 where
      r: "ptp_read_func U (length dat - 500) ?h True (moved d1 k (io_dev i)) = Some (PTP_RC_OK, length dat - 500,
          \<lparr>h_data = h_data h @ dat, h_curoff = length (h_data h @ dat)\<rparr>,
          moved d2 (length dat - 500) (moved d1 k (io_dev i)))"
        "queue d2 = rest" "sent d2 = sent d1"
      by (auto simp: zlp_def)
    with 3 put show ?thesis
      by (intro exI [of _ d2] exI [of _ "k + (length dat - 500)"]) (simp add: take_data_def usb_lens Let_def)
  qed
  with getdata_packet [OF g(1), of h] assms g show ?thesis by auto
qed

lemma getresp_packet:
  assumes "ptp_usb_getpacket U i = Some (PTP_RC_OK, usb_header P n PTP_USB_CONTAINER_RESPONSE PTP_RC_OK tid @ y, i1)"
  shows "\<exists>resp'. ptp_usb_getresp U P sid i resp = Some (PTP_RC_OK, resp', i1) \<and> Code resp' = PTP_RC_OK \<and>
    Transaction_ID resp' = tid \<and> SessionID resp' = sid"
  using assms by (simp add: ptp_usb_getresp_def header_fields Let_def)

text \<open>
  A response in the same transfer as the data. What a device sends behind the data of
  a short data phase is kept, and read as the response without another transfer.
\<close>

theorem usb_surplus_response:
  assumes "usb_pipe U queue sent (io_dev i)" and "response_packet i = []" and "h_curoff h = length (h_data h)"
    and "queue (usb_handle (io_dev i)) = (usb_data P (Code ptp) tid dat @ resp) # rest"
    and "resp = usb_header P n PTP_USB_CONTAINER_RESPONSE PTP_RC_OK tid @ ps"
    and "length (usb_data P (Code ptp) tid dat @ resp) \<le> 512"
  shows "\<exists>i1 i2 r. ptp_usb_getdata U P i ptp h =
      Some (PTP_RC_OK, \<lparr>h_data = h_data h @ dat, h_curoff = length (h_data h @ dat)\<rparr>, i1) \<and>
    ptp_usb_getresp U P sid i1 ptp = Some (PTP_RC_OK, r, i2) \<and> Code r = PTP_RC_OK \<and> Transaction_ID r = tid \<and>
    queue (usb_handle (io_dev i2)) = rest \<and> response_packet i2 = []"
proof -
  let ?n = "12 + length dat"
  let ?hdr = "usb_header P ?n PTP_USB_CONTAINER_DATA (Code ptp) tid"
  have len: "length dat + length resp \<le> 500" "12 \<le> length resp" using assms(5,6) by (simp_all add: usb_data_def)
  from len have ne: "resp \<noteq> []" by auto
  from getpacket_reads [OF assms(1,4,2)] len obtain d1 k where
    g: "ptp_usb_getpacket U i = Some (PTP_RC_OK, ?hdr @ (dat @ resp), i\<lparr>io_dev := moved d1 k (io_dev i)\<rparr>)"
      "queue d1 = rest"
    by (auto simp: usb_data_def)
  let ?i1 = "i\<lparr>io_dev := moved d1 k (io_dev i), response_packet := resp\<rparr>"
  have "memory_putfunc h dat = (PTP_RC_OK, \<lparr>h_data = h_data h @ dat, h_curoff = length (h_data h @ dat)\<rparr>)"
    using assms(3) by (simp add: memory_putfunc_append)
  then have "take_data U ?n (?hdr @ (dat @ resp)) h (i\<lparr>io_dev := moved d1 k (io_dev i)\<rparr>) =
      Some (PTP_RC_OK, \<lparr>h_data = h_data h @ dat, h_curoff = length (h_data h @ dat)\<rparr>, ?i1)"
    using len ne by (simp add: take_data_def usb_lens Let_def)
  with getdata_packet [OF g(1), of h] len have d: "ptp_usb_getdata U P i ptp h =
      Some (PTP_RC_OK, \<lparr>h_data = h_data h @ dat, h_curoff = length (h_data h @ dat)\<rparr>, ?i1)" by simp
  from ne have "ptp_usb_getpacket U ?i1 = Some (PTP_RC_OK, usb_header P n PTP_USB_CONTAINER_RESPONSE PTP_RC_OK tid @ ps,
      ?i1\<lparr>response_packet := []\<rparr>)"
    by (simp add: ptp_usb_getpacket_def assms(5))
  from getresp_packet [OF this, of sid ptp] d g(2) show ?thesis by auto
qed

theorem usb_surplus_response_witness:
  "\<exists>h i1 i2 r. ptp_usb_getdata bench_lib (plain_params PTP_DL_LE)
       (bench_io [usb_data (plain_params PTP_DL_LE) 0x9511 5 [7, 8] @
         usb_header (plain_params PTP_DL_LE) 12 PTP_USB_CONTAINER_RESPONSE PTP_RC_OK 5])
       (ptp_container_zero\<lparr>Code := 0x9511\<rparr>) ptp_init_recv_memory_handler = Some (PTP_RC_OK, h, i1) \<and> h_data h = [7, 8] \<and>
     ptp_usb_getresp bench_lib (plain_params PTP_DL_LE) 1 i1 (ptp_container_zero\<lparr>Code := 0x9511\<rparr>) =
       Some (PTP_RC_OK, r, i2) \<and> Transaction_ID r = 5"
  using usb_surplus_response [where U = bench_lib and queue = b_queue and sent = b_sent and rest = "[]" and ps = "[]"
      and h = ptp_init_recv_memory_handler and P = "plain_params PTP_DL_LE" and n = 12 and tid = 5 and sid = 1
      and ptp = "ptp_container_zero\<lparr>Code := 0x9511\<rparr>" and dat = "[7, 8]"
      and i = "bench_io [usb_data (plain_params PTP_DL_LE) 0x9511 5 [7, 8] @
         usb_header (plain_params PTP_DL_LE) 12 PTP_USB_CONTAINER_RESPONSE PTP_RC_OK 5]"]
  by (auto simp: ptp_init_recv_memory_handler_def usb_data_def)

section \<open>Whole transactions\<close>

definition usb_serves ::
  "'d usb_lib \<Rightarrow> ptp_params \<Rightarrow> ('d \<Rightarrow> byte list list) \<Rightarrow> ('d \<Rightarrow> byte list) \<Rightarrow>
     'd vita_usb ptp_io \<Rightarrow> ptp_container \<Rightarrow> byte list \<Rightarrow> bool" where
  "usb_serves U P queue sent i req dat \<longleftrightarrow> usb_pipe U queue sent (io_dev i) \<and> Nparam req \<le> 5 \<and>
     response_packet i = [] \<and> 12 + length dat < 2 ^ 32 - 1 \<and>
     (\<exists>split tid n ps. (split \<or> \<not> split_header_data i) \<and> length ps \<le> 500 \<and>
        queue (usb_handle (io_dev i)) = data_transfers split P (Code req) tid dat @
          [usb_header P n PTP_USB_CONTAINER_RESPONSE PTP_RC_OK (Transaction_ID req) @ ps])"

definition usb_post ::
  "ptp_params \<Rightarrow> ('d \<Rightarrow> byte list list) \<Rightarrow> ('d \<Rightarrow> byte list) \<Rightarrow>
     'd vita_usb ptp_io \<Rightarrow> ptp_container \<Rightarrow> 'd vita_usb ptp_io \<Rightarrow> bool" where
  "usb_post P queue sent i req i' \<longleftrightarrow>
     sent (usb_handle (io_dev i')) = sent (usb_handle (io_dev i)) @ usb_request P req \<and>
     queue (usb_handle (io_dev i')) = []"

interpretation usb: data_transport "usb_funs U P" "usb_serves U P queue sent" "usb_post P queue sent"
  for U P queue sent
proof
  fix i req dat sid
  assume s: "usb_serves U P queue sent i req dat"
  then obtain split tid n ps where q: "split \<or> \<not> split_header_data i" "length ps \<le> 500"
    "queue (usb_handle (io_dev i)) = data_transfers split P (Code req) tid dat @
      [usb_header P n PTP_USB_CONTAINER_RESPONSE PTP_RC_OK (Transaction_ID req) @ ps]"
    and p: "usb_pipe U queue sent (io_dev i)" "Nparam req \<le> 5" "response_packet i = []" "12 + length dat < 2 ^ 32 - 1"
    by (auto simp: usb_serves_def)
  let ?r = "usb_header P n PTP_USB_CONTAINER_RESPONSE PTP_RC_OK (Transaction_ID req) @ ps"
  from usb_sendreq_sends [OF p(1,2), of P] obtain u1 where
    w: "ptp_usb_sendreq U P i req = Some (PTP_RC_OK, i\<lparr>io_dev := u1\<rparr>)" "usb_pipe U queue sent u1"
      "sent (usb_handle u1) = sent (usb_handle (io_dev i)) @ usb_request P req"
      "queue (usb_handle u1) = queue (usb_handle (io_dev i))"
    by blast
  from usb_getdata_ok [of U queue sent "i\<lparr>io_dev := u1\<rparr>" split dat ptp_init_recv_memory_handler P req tid "[?r]"]
    w p(3,4) q obtain i2 where
    d: "ptp_usb_getdata U P (i\<lparr>io_dev := u1\<rparr>) req ptp_init_recv_memory_handler =
        Some (PTP_RC_OK, \<lparr>h_data = dat, h_curoff = length dat\<rparr>, i2)"
      "response_packet i2 = []" "usb_pipe U queue sent (io_dev i2)" "queue (usb_handle (io_dev i2)) = [?r]"
      "sent (usb_handle (io_dev i2)) = sent (usb_handle u1)"
    by (auto simp: ptp_init_recv_memory_handler_def)
  from getpacket_reads [OF d(3,4,2)] q(2) obtain d3 k where
    g: "ptp_usb_getpacket U i2 = Some (PTP_RC_OK, ?r, i2\<lparr>io_dev := moved d3 k (io_dev i2)\<rparr>)"
      "queue d3 = []" "sent d3 = sent (usb_handle (io_dev i2))"
    by auto
  from getresp_packet [OF g(1), of sid req] obtain resp where
    "ptp_usb_getresp U P sid i2 req = Some (PTP_RC_OK, resp, i2\<lparr>io_dev := moved d3 k (io_dev i2)\<rparr>)"
    "Code resp = PTP_RC_OK" "Transaction_ID resp = Transaction_ID req"
    by blast
  with w d g show "\<exists>i1 h i2 resp i3. sendreq_func (usb_funs U P) i req = Some (PTP_RC_OK, i1) \<and>
      getdata_func (usb_funs U P) i1 req ptp_init_recv_memory_handler = Some (PTP_RC_OK, h, i2) \<and> h_data h = dat \<and>
      getresp_func (usb_funs U P) sid i2 req = Some (PTP_RC_OK, resp, i3) \<and>
      Code resp = PTP_RC_OK \<and> Transaction_ID resp = Transaction_ID req \<and> usb_post P queue sent i req i3"
    by (auto simp: usb_funs_def usb_post_def)
qed

text \<open>
  Claim C19: a command over USB. When the device makes the transfers of a data phase and of a
  response to the next transaction id, \<open>VitaMTP_GetData\<close> returns exactly the data, has sent exactly
  the container of the request, and has taken every transfer.
\<close>

theorem usb_GetData:
  assumes "usb_pipe U queue sent (io_dev (io s))" and "response_packet (io s) = []"
    and "split \<or> \<not> split_header_data (io s)" and "12 + length dat < 2 ^ 32 - 1" and "length ps \<le> 500"
    and "queue (usb_handle (io_dev (io s))) = data_transfers split P code tid dat @
      [usb_header P n PTP_USB_CONTAINER_RESPONSE PTP_RC_OK (transaction_id s) @ ps]"
  shows "\<exists>i'. VitaMTP_GetData (usb_funs U P) s event_id code =
      Some (PTP_RC_OK, dat, s\<lparr>transaction_id := transaction_id s + 1, io := i'\<rparr>) \<and>
    sent (usb_handle (io_dev i')) =
      sent (usb_handle (io_dev (io s))) @ usb_request P (request_of s (ptp_request code [event_id])) \<and>
    queue (usb_handle (io_dev i')) = []"
proof -
  have "usb_serves U P queue sent (io s) (request_of s (ptp_request code [event_id])) dat"
    using assms by (auto simp: usb_serves_def request_of_def ptp_request_def set_param_def)
  from usb.get_transaction [OF this, of 0 "[]"] show ?thesis
    by (auto simp: VitaMTP_GetData_def usb_post_def)
qed

theorem usb_GetData_witness:
  "\<exists>s'. VitaMTP_GetData (usb_funs bench_lib (plain_params PTP_DL_LE))
     \<lparr>params = plain_params PTP_DL_LE, transaction_id = 5, session_id = 1,
       io = bench_io (data_transfers False (plain_params PTP_DL_LE) PTP_OC_VITA_GetUrl 0 (replicate 500 1) @
         [usb_header (plain_params PTP_DL_LE) 12 PTP_USB_CONTAINER_RESPONSE PTP_RC_OK 5])\<rparr> 99 PTP_OC_VITA_GetUrl =
     Some (PTP_RC_OK, replicate 500 1, s')"
  using usb_GetData [of bench_lib b_queue b_sent "\<lparr>params = plain_params PTP_DL_LE, transaction_id = 5, session_id = 1,
       io = bench_io (data_transfers False (plain_params PTP_DL_LE) PTP_OC_VITA_GetUrl 0 (replicate 500 1) @
         [usb_header (plain_params PTP_DL_LE) 12 PTP_USB_CONTAINER_RESPONSE PTP_RC_OK 5])\<rparr>"
      False "replicate 500 1" "[]" "plain_params PTP_DL_LE" PTP_OC_VITA_GetUrl 0 12 99]
  by auto

section \<open>Containers and transfers that are too short\<close>










text \<open>
  Late responses that are not skipped: one that comes while data is expected ends the data phase, and
  one whose code is not \<open>PTP_RC_OK\<close> ends the response phase, whatever transaction it belongs to.
\<close>

lemma usb_stale_response_ends_data:
  assumes "usb_pipe U queue sent (io_dev i)" and "queue (usb_handle (io_dev i)) = x # rest" and "response_packet i = []"
    and "c_type P (take 512 x) = PTP_USB_CONTAINER_RESPONSE"
  shows "\<exists>i1. ptp_usb_getdata U P i ptp h = Some (PTP_ERROR_DATA_EXPECTED, h, i1)"
  using getpacket_reads [OF assms(1-3)] assms(4)
  by (auto simp: ptp_usb_getdata_def PTP_USB_CONTAINER_RESPONSE_def PTP_USB_CONTAINER_DATA_def)

lemma usb_stale_error_is_returned:
  assumes "usb_pipe U queue sent (io_dev i)" and "queue (usb_handle (io_dev i)) = x # rest" and "response_packet i = []"
    and "c_type P (take 512 x) = PTP_USB_CONTAINER_RESPONSE" and "c_code P (take 512 x) \<notin> {PTP_RC_OK, Code ptp}"
  shows "\<exists>i1. ptp_usb_getresp U P sid i ptp = Some (c_code P (take 512 x), ptp, i1)"
  using getpacket_reads [OF assms(1-3)] assms(4,5)
  by (auto simp: ptp_usb_getresp_def Let_def)

text \<open>
  A transfer that ends before the announced length is taken for the whole: the result is
  \<open>PTP_RC_OK\<close>, with the bytes that came.
\<close>

lemma usb_truncated_data_accepted:
  assumes "usb_pipe U queue sent (io_dev i)" and "response_packet i = []" and "h_curoff h = length (h_data h)"
    and "queue (usb_handle (io_dev i)) = usb_header P (12 + n) PTP_USB_CONTAINER_DATA (Code ptp) tid # x # rest"
    and "length x < n" and "n < CONTEXT_BLOCK_SIZE" and "length x mod 512 \<noteq> 0"
  shows "\<exists>i'. ptp_usb_getdata U P i ptp h =
    Some (PTP_RC_OK, \<lparr>h_data = h_data h @ x, h_curoff = length (h_data h @ x)\<rparr>, i')"
proof -
  let ?hdr = "usb_header P (12 + n) PTP_USB_CONTAINER_DATA (Code ptp) tid"
  from getpacket_reads [OF assms(1,4,2)] obtain d1 k where
    g: "ptp_usb_getpacket U i = Some (PTP_RC_OK, ?hdr @ [], i\<lparr>io_dev := moved d1 k (io_dev i)\<rparr>)"
      "queue d1 = x # rest"
    by auto
  let ?u = "moved d1 k (io_dev i)"
  from read_loop_once [of U queue sent ?u x rest n h] assms g obtain d2 where
    r: "read_loop U n 0 0 h ?u = Some (PTP_RC_OK, length x,
        \<lparr>h_data = h_data h @ x, h_curoff = length (h_data h @ x)\<rparr>, moved d2 (length x) ?u)"
    by auto
  have "memory_putfunc h [] = (PTP_RC_OK, h)" using assms(3) by (cases h) (simp add: memory_putfunc_def)
  then have "\<exists>i'. take_data U (12 + n) (?hdr @ []) h (i\<lparr>io_dev := ?u\<rparr>) =
      Some (PTP_RC_OK, \<lparr>h_data = h_data h @ x, h_curoff = length (h_data h @ x)\<rparr>, i')"
    using assms(5-7) r
    by (simp add: take_data_def usb_lens Let_def ptp_read_func_def usb_pipe_maxpacket [OF assms(1)])
  moreover have "12 + n < 2 ^ 32 - 1" using assms(6) by (simp add: block_sizes)
  ultimately show ?thesis using getdata_packet [OF g(1), of h] by simp
qed

section \<open>Cancelling and opening\<close>

text \<open>
  An error of the control transfer, a negative number, is reported as success; only a transfer
  of some but not all of the six bytes is an error.
\<close>

lemma cancel_hides_errors:
  assumes "control_transfer U (htod16ap P PTP_EC_CancelTransaction @ htod32ap P tid) (usb_timeout (io_dev i))
      (usb_handle (io_dev i)) = (ret, d)"
    and "- (2 ^ 31) \<le> ret" and "ret < 0"
  shows "\<exists>i'. ptp_usb_control_cancel_request U P i tid = Some (PTP_RC_OK, i')"
proof -
  have "ret mod 2 ^ 64 = (ret + 2 ^ 64) mod 2 ^ 64" by simp
  also have "\<dots> = ret + 2 ^ 64" using assms(2,3) by (intro mod_pos_pos_trivial) auto
  finally have "uint (of_int ret :: u64) = ret + 2 ^ 64" by (simp add: uint_word_of_int)
  then have "\<not> (of_int ret :: u64) < 6" using assms(2,3) by (simp add: word_less_def)
  with assms(1) show ?thesis by (simp add: ptp_usb_control_cancel_request_def)
qed

text \<open>
  The second attempt to open a session is made with the same transaction id as the first:
  \<open>ptp_opensession\<close> sets it to 0.
\<close>

lemma open_session_retries_unchanged:
  "ptp_opensession F (s\<lparr>transaction_id := tid\<rparr>) sid = ptp_opensession F s sid"
  by (simp add: ptp_opensession_def)

section \<open>Finding the interface\<close>

text \<open>An interface that can be used: three endpoints, two of them bulk pipes, in both directions, and one for interrupts.\<close>

definition is_bulk :: "bool \<Rightarrow> endpoint_descriptor \<Rightarrow> bool" where
  "is_bulk d ep \<longleftrightarrow> bmAttributes ep = LIBUSB_TRANSFER_TYPE_BULK \<and> dir_in ep = d"
definition is_interrupt_in :: "endpoint_descriptor \<Rightarrow> bool" where
  "is_interrupt_in ep \<longleftrightarrow> bmAttributes ep = LIBUSB_TRANSFER_TYPE_INTERRUPT \<and> dir_in ep"

definition usable :: "interface_descriptor \<Rightarrow> bool" where
  "usable f \<longleftrightarrow> length (endpoints f) = 3 \<and> list_ex (is_bulk True) (endpoints f) \<and>
     list_ex (is_bulk False) (endpoints f) \<and> list_ex is_interrupt_in (endpoints f)"

text \<open>The state has the endpoints of the interface.\<close>

definition uses :: "interface_descriptor \<Rightarrow> 'd vita_usb \<Rightarrow> bool" where
  "uses f u \<longleftrightarrow> usb_interface u = bInterfaceNumber f \<and>
     (\<exists>ep \<in> set (endpoints f). is_bulk True ep \<and> inep u = bEndpointAddress ep \<and> inep_maxpacket u = unat (wMaxPacketSize ep)) \<and>
     (\<exists>ep \<in> set (endpoints f). is_bulk False ep \<and> outep u = bEndpointAddress ep \<and> outep_maxpacket u = unat (wMaxPacketSize ep)) \<and>
     (\<exists>ep \<in> set (endpoints f). is_interrupt_in ep \<and> intep u = bEndpointAddress ep)"

lemma transfer_types [simp]: "LIBUSB_TRANSFER_TYPE_BULK \<noteq> LIBUSB_TRANSFER_TYPE_INTERRUPT"
  "LIBUSB_TRANSFER_TYPE_INTERRUPT \<noteq> LIBUSB_TRANSFER_TYPE_BULK"
  by (simp_all add: LIBUSB_TRANSFER_TYPE_BULK_def LIBUSB_TRANSFER_TYPE_INTERRUPT_def)

lemma fold_endpoints:
  assumes "fold scan_endpoint eps (f0, u0) = (f, u)"
  shows "usb_interface u = usb_interface u0 \<and> found_inep f = (found_inep f0 \<or> list_ex (is_bulk True) eps) \<and>
    found_outep f = (found_outep f0 \<or> list_ex (is_bulk False) eps) \<and>
    found_intep f = (found_intep f0 \<or> list_ex is_interrupt_in eps) \<and>
    (if list_ex (is_bulk True) eps
     then \<exists>ep \<in> set eps. is_bulk True ep \<and> inep u = bEndpointAddress ep \<and> inep_maxpacket u = unat (wMaxPacketSize ep)
     else inep u = inep u0 \<and> inep_maxpacket u = inep_maxpacket u0) \<and>
    (if list_ex (is_bulk False) eps
     then \<exists>ep \<in> set eps. is_bulk False ep \<and> outep u = bEndpointAddress ep \<and> outep_maxpacket u = unat (wMaxPacketSize ep)
     else outep u = outep u0 \<and> outep_maxpacket u = outep_maxpacket u0) \<and>
    (if list_ex is_interrupt_in eps
     then \<exists>ep \<in> set eps. is_interrupt_in ep \<and> intep u = bEndpointAddress ep else intep u = intep u0)"
  using assms
proof (induction eps arbitrary: f0 u0)
  case (Cons ep eps)
  obtain f1 u1 where s: "scan_endpoint ep (f0, u0) = (f1, u1)" by fastforce
  with Cons.prems have "fold scan_endpoint eps (f1, u1) = (f, u)" by simp
  note IH = Cons.IH [OF this]
  consider (bin) "is_bulk True ep" | (bout) "is_bulk False ep" | (int) "is_interrupt_in ep"
    | (other) "\<not> is_bulk True ep" "\<not> is_bulk False ep" "\<not> is_interrupt_in ep" by blast
  then show ?case
  proof cases
    case bin
    with s IH show ?thesis by (auto simp: scan_endpoint_def is_bulk_def is_interrupt_in_def Let_def split: if_splits)
  next
    case bout
    with s IH show ?thesis by (auto simp: scan_endpoint_def is_bulk_def is_interrupt_in_def Let_def split: if_splits)
  next
    case int
    with s IH show ?thesis by (auto simp: scan_endpoint_def is_bulk_def is_interrupt_in_def Let_def split: if_splits)
  next
    case other
    with s IH show ?thesis by (auto simp: scan_endpoint_def is_bulk_def is_interrupt_in_def Let_def split: if_splits)
  qed
qed simp

lemma scan_interfaces_finds:
  "if list_ex usable fs then fst (scan_interfaces fs u) \<and> (\<exists>f \<in> set fs. usable f \<and> uses f (snd (scan_interfaces fs u)))
   else \<not> fst (scan_interfaces fs u)"
proof (induction fs arbitrary: u)
  case (Cons f fs)
  let ?e = "\<lparr>found_inep = False, found_outep = False, found_intep = False\<rparr>"
  obtain e u1 where s: "fold scan_endpoint (endpoints f) (?e, u\<lparr>usb_interface := bInterfaceNumber f\<rparr>) = (e, u1)"
    by fastforce
  note E = fold_endpoints [OF s]
  show ?case
  proof (cases "usable f")
    case True
    with E have "uses f u1" "found_inep e \<and> found_outep e \<and> found_intep e"
      by (simp_all add: usable_def uses_def)
    with s True show ?thesis by (simp add: usable_def)
  next
    case False
    with E have "length (endpoints f) = 3 \<Longrightarrow> \<not> (found_inep e \<and> found_outep e \<and> found_intep e)"
      by (simp add: usable_def)
    with s False Cons.IH show ?thesis by auto
  qed
qed simp

lemma scan_configs_finds:
  "if \<exists>fs. Some fs \<in> set cs \<and> list_ex usable fs
   then fst (scan_configs cs u) \<and> (\<exists>fs f. Some fs \<in> set cs \<and> f \<in> set fs \<and> usable f \<and> uses f (snd (scan_configs cs u)))
   else \<not> fst (scan_configs cs u)"
proof (induction cs u rule: scan_configs.induct)
  case (3 fs cs u)
  obtain ok u' where s: "scan_interfaces fs u = (ok, u')" by fastforce
  from scan_interfaces_finds [of fs u] s
  have f: "ok = list_ex usable fs" "ok \<Longrightarrow> \<exists>f \<in> set fs. usable f \<and> uses f u'" by (auto split: if_splits)
  show ?case
  proof (cases ok)
    case True
    with f s show ?thesis by auto
  next
    case False
    with 3 [OF s [symmetric]] f(1) s show ?thesis by (auto split: if_splits)
  qed
qed (auto split: if_splits)

text \<open>
  The search for the interface. It succeeds exactly when the device can be asked for
  its descriptor and some configuration that can be read has a usable interface, and then all
  endpoints that are set are those of one usable interface, even though what earlier
  interfaces set is not taken back.
\<close>

theorem usb_endpoints_of_one_interface:
  "if dev_ids dev \<noteq> None \<and> (\<exists>fs. Some fs \<in> set (dev_configs dev) \<and> list_ex usable fs)
   then fst (find_interface_and_endpoints dev u) \<and>
     (\<exists>fs f. Some fs \<in> set (dev_configs dev) \<and> f \<in> set fs \<and> usable f \<and> uses f (snd (find_interface_and_endpoints dev u)))
   else \<not> fst (find_interface_and_endpoints dev u)"
  using scan_configs_finds [of "dev_configs dev" u] by (auto simp: find_interface_and_endpoints_def split: if_splits)

text \<open>The list of Vitas: exactly the devices with the ids of a Vita, in the order of the bus.\<close>

lemma collect_vitas_lists:
  "collect_vitas U devs vs = Some vs' \<Longrightarrow>
     map raw_data vs' = map raw_data vs @ filter (\<lambda>d. dev_ids d = Some (VITA_VID, VITA_PID)) devs"
  by (induction devs arbitrary: vs) (auto split: option.splits prod.splits if_splits)

lemma VitaMTP_Get_USB_Vitas_lists:
  "VitaMTP_Get_USB_Vitas U (Some devs) = Some vs \<Longrightarrow>
     map raw_data vs = filter (\<lambda>d. dev_ids d = Some (VITA_VID, VITA_PID)) devs"
  by (auto simp: VitaMTP_Get_USB_Vitas_def dest: collect_vitas_lists)

end
