(* ===== verification/Windows_Files.thy ===== *)
theory Windows_Files
  imports Catalog
begin

text \<open>
  The other half of \<open>src/src/utilities.c\<close>: the file functions as they are compiled for Windows, and
  the space on a disk on both platforms. The calls of the system are operations on the map from
  paths to contents, as in \<open>Utilities\<close>; both separators name the same file. \<open>unsigned long\<close> has
  32 bits there.
\<close>

section \<open>Directories and files\<close>

definition MAX_PATH :: nat where "MAX_PATH = 260"

definition is_separator :: "char \<Rightarrow> bool" where
  "is_separator c \<longleftrightarrow> c = CHR 0x5C \<or> c = CHR ''/''"

definition same_slashes :: "string \<Rightarrow> string" where
  "same_slashes p = map (\<lambda>c. if is_separator c then CHR ''/'' else c) p"

text \<open>\<open>CreateDirectory\<close>: made, there already, or refused for another reason.\<close>

datatype made = Made | Already_exists | Refused

definition c_CreateDirectory :: "(string \<Rightarrow> bool) \<Rightarrow> fs \<Rightarrow> string \<Rightarrow> fs \<times> made" where
  "c_CreateDirectory may fs path =
     (let p = same_slashes path in
      if fs p \<noteq> None then (fs, Already_exists)
      else if may p then (fs(p \<mapsto> FS_dir), Made) else (fs, Refused))"

text \<open>Unlike on the other platforms, a prefix that cannot be made ends the loop.\<close>

fun win_mkdir_prefixes :: "(string \<Rightarrow> bool) \<Rightarrow> string \<Rightarrow> string \<Rightarrow> fs \<Rightarrow> fs \<times> bool" where
  "win_mkdir_prefixes may done [] fs = (fs, True)"
| "win_mkdir_prefixes may done (c # cs) fs =
     (if is_separator c then
        (case c_CreateDirectory may fs done of
           (fs', Refused) \<Rightarrow> (fs', False)
         | (fs', _) \<Rightarrow> win_mkdir_prefixes may (done @ ''/'') cs fs')
      else win_mkdir_prefixes may (done @ [c]) cs fs)"

text \<open>
  \<open>strncpy\<close> copies the characters without a terminator; only where a last separator is replaced there
  is one, and else the loop goes on behind the copied characters. \<open>None\<close>: that, an empty path, or one that is
  longer than the buffer.
\<close>

definition win_createNewDirectory :: "(string \<Rightarrow> bool) \<Rightarrow> fs \<Rightarrow> string \<Rightarrow> (fs \<times> int) option" where
  "win_createNewDirectory may fs path =
     (if path = [] \<or> MAX_PATH < length path \<or> \<not> is_separator (last path) then None
      else (case win_mkdir_prefixes may [] (butlast path) fs of
              (fs1, False) \<Rightarrow> Some (fs1, -1)
            | (fs1, True) \<Rightarrow>
                (case c_CreateDirectory may fs1 (butlast path) of
                   (fs2, Refused) \<Rightarrow> Some (fs2, -1)
                 | (fs2, _) \<Rightarrow> Some (fs2, 0))))"

definition win_createNewFile :: "(string \<Rightarrow> bool) \<Rightarrow> fs \<Rightarrow> string \<Rightarrow> fs \<times> int" where
  "win_createNewFile may fs name =
     (let p = same_slashes name in
      if fs p = None \<and> may p then (fs(p \<mapsto> FS_file []), 0) else (fs, -1))"

definition win_fileExists :: "fs \<Rightarrow> string \<Rightarrow> bool" where
  "win_fileExists fs path \<longleftrightarrow> fs (same_slashes path) \<noteq> None"

text \<open>
  The lower half of the size of the file; \<open>INVALID_FILE_SIZE\<close>, which a file can have, is
  taken for an error. A directory is not opened.
\<close>

definition win_readFileToBuffer :: "fs \<Rightarrow> string \<Rightarrow> nat \<Rightarrow> u32 \<Rightarrow> (byte list \<times> u32) option" where
  "win_readFileToBuffer fs name seek len =
     (case fs (same_slashes name) of
        Some (FS_file contents) \<Rightarrow>
          if len = 0 \<and> (of_nat (length contents) :: u32) = 0xFFFFFFFF then None
          else (let buflen = (if len = 0 then of_nat (length contents) else len);
                    got = take (unat buflen) (drop seek contents)
                in if length got < unat buflen then None else Some (got, buflen))
      | _ \<Rightarrow> None)"

text \<open>
  An existing file is opened, and written to at the offset; what is between its end and the offset is
  filled with zeros. \<open>WriteFile\<close> takes the length as 32 bits.
\<close>

definition write_at :: "byte list \<Rightarrow> nat \<Rightarrow> byte list \<Rightarrow> byte list" where
  "write_at contents seek data =
     (if data = [] then contents
      else take seek contents @ replicate (seek - length contents) 0 @ data @ drop (seek + length data) contents)"

definition win_writeFileFromBuffer :: "(string \<Rightarrow> bool) \<Rightarrow> fs \<Rightarrow> string \<Rightarrow> nat \<Rightarrow> byte list \<Rightarrow> fs \<times> int" where
  "win_writeFileFromBuffer may fs name seek data =
     (let p = same_slashes name in
      case fs p of
        Some (FS_file contents) \<Rightarrow>
          if \<not> may p then (fs, -1)
          else let n = unat (of_nat (length data) :: u32);
                   fs' = fs(p \<mapsto> FS_file (write_at contents seek (take n data)))
               in (fs', if n < length data then -1 else 0)
      | _ \<Rightarrow> (fs, -1))"

text \<open>The path is copied with two terminators behind it.\<close>

definition win_deleteAll :: "fs \<Rightarrow> string \<Rightarrow> fs option" where
  "win_deleteAll fs path =
     (if MAX_PATH < length path + 2 then None else Some (deleteAll fs (same_slashes path)))"

text \<open>\<open>MoveFile\<close> does not replace a file.\<close>

definition win_move :: "(string \<Rightarrow> bool) \<Rightarrow> fs \<Rightarrow> string \<Rightarrow> string \<Rightarrow> fs \<times> int" where
  "win_move may fs src dest =
     (if fs (same_slashes dest) \<noteq> None then (fs, -1) else move may fs (same_slashes src) (same_slashes dest))"

lemma same_slashes_id: "CHR 0x5C \<notin> set p \<Longrightarrow> same_slashes p = p"
  by (induction p) (auto simp: same_slashes_def is_separator_def)

text \<open>Making a directory is defined for just the paths that end with a separator.\<close>

lemma win_createNewDirectory_safe_iff:
  "win_createNewDirectory may fs path \<noteq> None \<longleftrightarrow> path \<noteq> [] \<and> length path \<le> MAX_PATH \<and> is_separator (last path)"
  by (auto simp: win_createNewDirectory_def split: prod.splits made.splits bool.splits)

text \<open>The paths of the objects of the database do not, whatever the name of an object is.\<close>

lemma object_directory_undefined:
  assumes "name \<noteq> []" and "\<not> is_separator (last name)"
  shows "win_createNewDirectory may fs (path_join root name) = None"
  using assms by (simp add: win_createNewDirectory_def path_join_def)

text \<open>What was written at an offset is read from there; the rest of the file is as before.\<close>

lemma write_at_nth:
  assumes "data \<noteq> []"
  shows "take (length data) (drop seek (write_at contents seek data)) = data"
    and "seek \<le> length contents \<Longrightarrow> take seek (write_at contents seek data) = take seek contents"
    and "drop (seek + length data) (write_at contents seek data) = drop (seek + length data) contents"
  using assms by (simp_all add: write_at_def)

lemma win_write_then_read:
  assumes "fs name = Some (FS_file contents)" and "may name" and "CHR 0x5C \<notin> set name"
    and "data \<noteq> []" and "length data < 2 ^ 32"
  shows "\<exists>fs'. win_writeFileFromBuffer may fs name seek data = (fs', 0) \<and>
    win_readFileToBuffer fs' name seek (of_nat (length data)) = Some (data, of_nat (length data))"
proof -
  have n: "unat (of_nat (length data) :: u32) = length data" using assms(5) by (simp add: unat_of_nat take_bit_nat_eq_self)
  then have "(of_nat (length data) :: u32) \<noteq> 0" using assms(4) by (metis length_0_conv unsigned_0)
  moreover have t: "take (length data) (drop seek (write_at contents seek data)) = data"
    by (rule write_at_nth(1) [OF assms(4)])
  moreover have "min (length (write_at contents seek data) - seek) (length data) = length data"
    using arg_cong [OF t, of length] by simp
  ultimately show ?thesis
    using assms by (simp add: win_writeFileFromBuffer_def win_readFileToBuffer_def same_slashes_id Let_def n)
qed

section \<open>The space on a disk\<close>

text \<open>\<open>statvfs\<close>: the size of a block, and how many there are and are free.\<close>

definition getDiskSpace :: "(string \<Rightarrow> (u64 \<times> u64 \<times> u64) option) \<Rightarrow> string \<Rightarrow> (u64 \<times> u64) option" where
  "getDiskSpace statvfs path =
     map_option (\<lambda>(frsize, blocks, bfree). (frsize * bfree, frsize * blocks)) (statvfs path)"

text \<open>
  \<open>GetDiskFreeSpace\<close>: sectors of a cluster, bytes of a sector, free clusters and clusters. The
  result is the free space and the total, each computed with 32 bits.
\<close>

definition win_getDiskSpace :: "(string \<Rightarrow> (u32 \<times> u32 \<times> u32 \<times> u32) option) \<Rightarrow> string \<Rightarrow> (u64 \<times> u64) option" where
  "win_getDiskSpace space path =
     map_option (\<lambda>(sectors, bytes, free, clusters).
       (ucast (sectors * bytes * clusters), ucast (sectors * bytes * free))) (space path)"

text \<open>A disk of 4 GiB that is empty has nothing free, and one with space left has more free than it has.\<close>

lemma win_disk_space_wrong:
  "win_getDiskSpace (\<lambda>_. Some (8, 512, 1048576, 1048576)) path = Some (0, 0)"
  "win_getDiskSpace (\<lambda>_. Some (8, 512, 10, 100)) path = Some (409600, 40960)"
  by (simp_all add: win_getDiskSpace_def)

section \<open>The walk over a directory\<close>

text \<open>\<open>unsigned long\<close>: what of a size is kept.\<close>

definition low32 :: "u64 \<Rightarrow> u64" where
  "low32 n = take_bit 32 n"

text \<open>
  \<open>listing path\<close> is what \<open>FindFirstFile\<close> and \<open>FindNextFile\<close> find for the pattern: the names, whether
  each is a directory, and its size. \<open>None\<close> as a result: a pattern that does not fit \<open>fullpath\<close>, or
  directories nested deeper than the fuel.
\<close>

type_synonym win_listing = "string \<Rightarrow> (string \<times> bool \<times> u64) list option"

function (sequential) win_addEntriesForDirectory :: "nat \<Rightarrow> win_listing \<Rightarrow> cma_db \<Rightarrow> objref \<Rightarrow> cma_db option"
and win_entries_loop ::
  "nat \<Rightarrow> win_listing \<Rightarrow> objref \<Rightarrow> (string \<times> bool \<times> u64) list \<Rightarrow> cma_db \<Rightarrow> u64 \<Rightarrow> (cma_db \<times> u64) option" where
  "win_addEntriesForDirectory 0 listing db lst = None"
| "win_addEntriesForDirectory (Suc fuel) listing db lst =
     (let path = o_path (deref db lst) in
      if MAX_PATH < length path + 3 then None
      else case listing (path @ [CHR 0x5C, CHR ''*'']) of
             None \<Rightarrow> Some db
           | Some es \<Rightarrow> do {
               (db', totalSize) \<leftarrow> win_entries_loop fuel listing lst es db 0;
               Some (update_obj lst (\<lambda>x. x\<lparr>meta := (meta x)\<lparr>md_size := low32 (md_size (meta x) + totalSize)\<rparr>\<rparr>) db') })"
| "win_entries_loop fuel listing lst [] db total_size = Some (db, total_size)"
| "win_entries_loop fuel listing lst ((e, isdir, sz) # es) db total_size =
     (if take 1 e = ''.'' then win_entries_loop fuel listing lst es db total_size
      else
        (let (db1, current) = addToDatabase db lst e (low32 sz) (if isdir then Folder else File)
         in do {
           db2 \<leftarrow> (if dataType (meta (deref db1 current)) AND Folder \<noteq> 0
                  then win_addEntriesForDirectory fuel listing db1 current else Some db1);
           win_entries_loop fuel listing lst es db2 (low32 (total_size + md_size (meta (deref db2 current)))) }))"
  by pat_completeness auto

termination
  by (relation "measures [\<lambda>x. case x of Inl (n, _) \<Rightarrow> n | Inr (n, _) \<Rightarrow> n,
       \<lambda>x. case x of Inl _ \<Rightarrow> 0 | Inr (_, _, _, es, _) \<Rightarrow> length es]") auto

fun win_all_masters :: "nat \<Rightarrow> win_listing \<Rightarrow> nat list \<Rightarrow> cma_db \<Rightarrow> cma_db option" where
  "win_all_masters fuel listing [] db = Some db"
| "win_all_masters fuel listing (i # is) db = do {
     db' \<leftarrow> win_addEntriesForDirectory fuel listing db (i, 0);
     win_all_masters fuel listing is db' }"

definition win_createDatabase :: "nat \<Rightarrow> win_listing \<Rightarrow> cma_paths \<Rightarrow> string \<Rightarrow> cma_db option" where
  "win_createDatabase fuel listing paths uuid = win_all_masters fuel listing [0..<10] (initDatabase paths uuid)"

section \<open>The database of both platforms\<close>

text \<open>An object, and a database, whose sizes are cut to 32 bits.\<close>

definition cut_object :: "cma_object \<Rightarrow> cma_object" where
  "cut_object x = x\<lparr>meta := (meta x)\<lparr>md_size := low32 (md_size (meta x))\<rparr>\<rparr>"

definition cut_db :: "cma_db \<Rightarrow> cma_db" where
  "cut_db db = db\<lparr>db_chains := map (map cut_object) (db_chains db)\<rparr>"

text \<open>
  An object that stands for a directory, a folder or a master, and what is left of a database when the
  sizes of these are forgotten and the others are cut.
\<close>

definition is_directory :: "cma_object \<Rightarrow> bool" where
  "is_directory x \<longleftrightarrow> dataType (meta x) AND Folder \<noteq> 0 \<or> md_type (meta x) AND VITA_DIR_TYPE_MASK_ROOT \<noteq> 0"

definition view_object :: "cma_object \<Rightarrow> cma_object" where
  "view_object x = (if is_directory x then x\<lparr>meta := (meta x)\<lparr>md_size := 0\<rparr>\<rparr> else cut_object x)"

definition file_view :: "cma_db \<Rightarrow> cma_db" where
  "file_view db = db\<lparr>db_chains := map (map view_object) (db_chains db)\<rparr>"

text \<open>
  What the two systems say of the same directories: the names in the same order, which of them are
  directories, and the sizes of the files. The size of a directory is whatever the system reports
  (\<open>same_sizes\<close>: when \<open>stat\<close> reports what \<open>FindFirstFile\<close> does).
\<close>

definition same_directories ::
  "win_listing \<Rightarrow> (string \<Rightarrow> string list option) \<Rightarrow> (string \<Rightarrow> (bool \<times> u64) option) \<Rightarrow> bool" where
  "same_directories listing dir st \<longleftrightarrow>
     (\<forall>p. dir (p @ ''/'') = map_option (map fst) (listing (p @ [CHR 0x5C, CHR ''*''])) \<and>
        (\<forall>es. listing (p @ [CHR 0x5C, CHR ''*'']) = Some es \<longrightarrow>
           (\<forall>(e, isdir, sz) \<in> set es. length e < MAX_PATH \<and>
              (\<exists>n. st (p @ ''/'' @ e) = Some (isdir, n) \<and> (isdir \<or> n = sz)))))"

definition same_sizes :: "win_listing \<Rightarrow> (string \<Rightarrow> (bool \<times> u64) option) \<Rightarrow> bool" where
  "same_sizes listing st \<longleftrightarrow>
     (\<forall>p es. listing (p @ [CHR 0x5C, CHR ''*'']) = Some es \<longrightarrow>
        (\<forall>(e, isdir, sz) \<in> set es. st (p @ ''/'' @ e) = Some (isdir, sz)))"

text \<open>
  The directories form a finite tree, and the patterns for those below a directory fit into the buffer
  of \<open>MAX_PATH\<close> characters.
\<close>

definition win_finite_tree :: "win_listing \<Rightarrow> (string \<Rightarrow> nat) \<Rightarrow> bool" where
  "win_finite_tree listing rank \<longleftrightarrow>
     (\<forall>p es. listing (p @ [CHR 0x5C, CHR ''*'']) = Some es \<longrightarrow>
        (\<forall>(e, isdir, sz) \<in> set es. isdir \<and> take 1 e \<noteq> ''.'' \<longrightarrow>
           length (path_join p e) + 3 \<le> MAX_PATH \<and> rank (path_join p e) < rank p))"

lemma low32_add [simp]: "low32 (low32 a + low32 b) = low32 (a + b)"
  unfolding low32_def by transfer (simp add: take_bit_take_bit min_def take_bit_add)

lemma low32_idem [simp]: "low32 (low32 a) = low32 a"
  by (simp add: low32_def)

lemma low32_add_left [simp]: "low32 (low32 a + b) = low32 (a + b)" "low32 (a + low32 b) = low32 (a + b)"
  using low32_add [of "low32 a" b] low32_add [of a "low32 b"] low32_add [of a b] by simp_all

lemma cut_object_simps [simp]:
  "ohfi (meta (cut_object x)) = o_ohfi x" "dataType (meta (cut_object x)) = dataType (meta x)"
  "md_name (meta (cut_object x)) = md_name (meta x)" "md_path (meta (cut_object x)) = md_path (meta x)"
  "o_path (cut_object x) = o_path x" "md_size (meta (cut_object x)) = low32 (md_size (meta x))"
  by (simp_all add: cut_object_def)

lemma cut_new_object: "cut_object (new_object n x name sz ty) = new_object n (cut_object x) name (low32 sz) ty"
  by (simp add: new_object_def cut_object_def Let_def)

lemma cut_initDatabase: "cut_db (initDatabase paths uuid) = initDatabase paths uuid"
  by (simp add: cut_db_def initDatabase_def createFilter_def Let_def master_def metadata_zero_def cut_object_def low32_def)

lemma folder_bit [simp]: "Folder \<noteq> 0" "(File OR (dt AND NOT Folder)) AND Folder = 0"
proof -
  show "Folder \<noteq> 0" by (simp add: Folder_def)
  show "(File OR (dt AND NOT Folder)) AND Folder = 0"
    by (intro bit_word_eqI) (auto simp: bit_simps File_def Folder_def)
qed

lemma is_directory_new:
  "is_directory (new_object n x name sz ty) = ((ty OR (dataType (meta x) AND NOT Folder)) AND Folder \<noteq> 0)"
  by (simp add: is_directory_def new_object_def Let_def dir_type_defs)

lemma is_directory_add_size [simp]: "is_directory (add_size n x) = is_directory x"
  by (simp add: is_directory_def add_size_def)

text \<open>
  Databases that are alike: the same but for the sizes of directories and the upper halves of sizes; and,
  where \<open>q\<close> holds, one cut to 32 bits.
\<close>

definition alike_obj :: "bool \<Rightarrow> cma_object \<Rightarrow> cma_object \<Rightarrow> bool" where
  "alike_obj q y x \<longleftrightarrow> view_object y = view_object x \<and> (q \<longrightarrow> y = cut_object x)"

definition alike :: "bool \<Rightarrow> cma_db \<Rightarrow> cma_db \<Rightarrow> bool" where
  "alike q dbw db \<longleftrightarrow> ohfi_count dbw = ohfi_count db \<and>
     list_all2 (list_all2 (alike_obj q)) (db_chains dbw) (db_chains db)"

lemma view_object_simps [simp]:
  "ohfi (meta (view_object x)) = o_ohfi x" "dataType (meta (view_object x)) = dataType (meta x)"
  "md_name (meta (view_object x)) = md_name (meta x)" "md_path (meta (view_object x)) = md_path (meta x)"
  "md_type (meta (view_object x)) = md_type (meta x)" "o_path (view_object x) = o_path x"
  by (simp_all add: view_object_def cut_object_def)

lemma view_object_cut [simp]: "view_object (cut_object x) = view_object x"
  by (simp add: view_object_def cut_object_def is_directory_def)

lemma view_object_eqD:
  assumes "view_object y = view_object x"
  shows "o_ohfi y = o_ohfi x" "dataType (meta y) = dataType (meta x)" "md_name (meta y) = md_name (meta x)"
    "md_path (meta y) = md_path (meta x)" "o_path y = o_path x" "is_directory y = is_directory x"
  using arg_cong [OF assms, of "\<lambda>x. o_ohfi x"] arg_cong [OF assms, of "\<lambda>x. dataType (meta x)"]
    arg_cong [OF assms, of "\<lambda>x. md_name (meta x)"] arg_cong [OF assms, of "\<lambda>x. md_path (meta x)"]
    arg_cong [OF assms, of o_path] arg_cong [OF assms, of "\<lambda>x. md_type (meta x)"]
  by (simp_all add: is_directory_def)

lemma alike_objD:
  assumes "alike_obj q y x"
  shows "dataType (meta y) = dataType (meta x)" "o_path y = o_path x"
proof -
  have v: "view_object y = view_object x" using assms by (simp add: alike_obj_def)
  show "dataType (meta y) = dataType (meta x)" "o_path y = o_path x"
    by (rule view_object_eqD [OF v])+
qed

lemma alike_cut: "alike q db db'" if "db = cut_db db'"
  using that by (auto simp: alike_def alike_obj_def cut_db_def list.rel_map list_all2_same)

lemma alike_view: "alike q dbw db \<Longrightarrow> file_view dbw = file_view db \<and> (q \<longrightarrow> dbw = cut_db db)"
  unfolding alike_def
proof (elim conjE, intro conjI impI)
  assume c: "ohfi_count dbw = ohfi_count db" and r: "list_all2 (list_all2 (alike_obj q)) (db_chains dbw) (db_chains db)"
  have "list_all2 (\<lambda>ys xs. map view_object ys = map view_object xs \<and> (q \<longrightarrow> ys = map cut_object xs)) (db_chains dbw) (db_chains db)"
  proof (rule list.rel_mono_strong [OF r])
    fix ys xs
    assume l: "list_all2 (alike_obj q) ys xs"
    from l have "map view_object ys = map view_object xs"
      by (induction rule: list_all2_induct) (auto simp: alike_obj_def)
    moreover from l have "q \<longrightarrow> ys = map cut_object xs"
      by (induction rule: list_all2_induct) (auto simp: alike_obj_def)
    ultimately show "map view_object ys = map view_object xs \<and> (q \<longrightarrow> ys = map cut_object xs)" ..
  qed
  then have "map (map view_object) (db_chains dbw) = map (map view_object) (db_chains db) \<and>
      (q \<longrightarrow> db_chains dbw = map (map cut_object) (db_chains db))"
    by (induction rule: list_all2_induct) auto
  with c show "file_view dbw = file_view db" "q \<Longrightarrow> dbw = cut_db db"
    by (simp_all add: file_view_def cut_db_def)
qed

lemma alike_deref:
  assumes "alike q dbw db" and "valid_ref db r"
  shows "alike_obj q (deref dbw r) (deref db r)"
proof -
  have "list_all2 (alike_obj q) (db_chains dbw ! fst r) (db_chains db ! fst r)"
    by (rule list_all2_nthD2 [of _ "db_chains dbw"]) (use assms in \<open>simp_all add: alike_def valid_ref_def\<close>)
  then show ?thesis
    unfolding deref_def by (rule list_all2_nthD2) (use assms(2) in \<open>simp add: valid_ref_def\<close>)
qed

lemma alike_update_chain:
  assumes "alike q dbw db" and "valid_ref db r"
    and "\<And>ys xs. list_all2 (alike_obj q) ys xs \<Longrightarrow> length xs = length (db_chains db ! fst r) \<Longrightarrow>
      xs = db_chains db ! fst r \<Longrightarrow> list_all2 (alike_obj q) (g ys) (f xs)"
  shows "alike q (update_chain (fst r) g dbw) (update_chain (fst r) f db)"
proof -
  have l: "list_all2 (list_all2 (alike_obj q)) (db_chains dbw) (db_chains db)" using assms(1) by (simp add: alike_def)
  have i: "fst r < length (db_chains dbw)" "fst r < length (db_chains db)"
    using assms(2) list_all2_lengthD [OF l] by (simp_all add: valid_ref_def)
  have "list_all2 (alike_obj q) (g (db_chains dbw ! fst r)) (f (db_chains db ! fst r))"
    using assms(3) list_all2_nthD [OF l i(1)] by simp
  then show ?thesis
    using assms(1) l by (simp add: alike_def update_chain_def list_all2_update_cong)
qed

text \<open>The two steps of the walk keep databases alike: a new object, and the size of a directory.\<close>

lemma alike_new:
  assumes "alike_obj q y x" and "isdir \<or> n = sz" and "q \<longrightarrow> n = sz"
  shows "alike_obj q (new_object k y name (low32 sz) (if isdir then Folder else File))
     (new_object k x name n (if isdir then Folder else File))"
proof -
  have v: "view_object y = view_object x" and c: "q \<longrightarrow> y = cut_object x" using assms(1) by (simp_all add: alike_obj_def)
  note eqs = view_object_eqD [OF v]
  have "view_object (new_object k y name (low32 sz) (if isdir then Folder else File)) =
      view_object (new_object k x name n (if isdir then Folder else File))"
    using assms(2)
    by (cases isdir) (auto simp: view_object_def is_directory_new, auto simp: new_object_def cut_object_def eqs Let_def)
  then show ?thesis using c assms(3) by (simp add: alike_obj_def cut_new_object)
qed

lemma alike_add:
  assumes "alike q dbw db" and "valid_ref db r" and "isdir \<or> n = sz" and "q \<longrightarrow> n = sz"
    and "addToDatabase db r name n (if isdir then Folder else File) = (db1, cur)"
  obtains dbw1 where "addToDatabase dbw r name (low32 sz) (if isdir then Folder else File) = (dbw1, cur)"
    and "alike q dbw1 db1"
proof -
  let ?ty = "if isdir then Folder else File"
  let ?x = "new_object (ohfi_count db) (deref db r) name n ?ty"
    and ?y = "new_object (ohfi_count db) (deref dbw r) name (low32 sz) ?ty"
  have c: "ohfi_count dbw = ohfi_count db" and l: "list_all2 (list_all2 (alike_obj q)) (db_chains dbw) (db_chains db)"
    using assms(1) by (simp_all add: alike_def)
  have "fst r < length (db_chains dbw)" using assms(2) list_all2_lengthD [OF l] by (simp add: valid_ref_def)
  then have len: "length (db_chains dbw ! fst r) = length (db_chains db ! fst r)"
    using list_all2_nthD [OF l] list_all2_lengthD by blast
  have "alike_obj q ?y ?x" by (rule alike_new [OF alike_deref [OF assms(1,2)] assms(3,4)])
  then have "alike q (update_chain (fst r) (\<lambda>os. os @ [?y]) dbw) (update_chain (fst r) (\<lambda>os. os @ [?x]) db)"
    by (intro alike_update_chain [OF assms(1,2)]) (simp add: list_all2_appendI)
  then show thesis
    using that assms(5) c len by (auto simp: addToDatabase_def Let_def alike_def)
qed

lemma alike_size:
  assumes "alike q dbw db" and "valid_ref db r" and "is_directory (deref db r)" and "q \<longrightarrow> m = low32 n"
  shows "alike q (update_obj r (\<lambda>x. x\<lparr>meta := (meta x)\<lparr>md_size := low32 (md_size (meta x) + m)\<rparr>\<rparr>) dbw)
    (update_obj r (add_size n) db)"
  unfolding update_obj_def
proof (rule alike_update_chain [OF assms(1,2)])
  fix ys xs
  assume l: "list_all2 (alike_obj q) ys xs" and x: "xs = db_chains db ! fst r"
  let ?g = "\<lambda>x. x\<lparr>meta := (meta x)\<lparr>md_size := low32 (md_size (meta x) + m)\<rparr>\<rparr>"
  have i: "snd r < length xs" "is_directory (xs ! snd r)" using assms(2,3) x by (simp_all add: valid_ref_def deref_def)
  then have a: "alike_obj q (ys ! snd r) (xs ! snd r)" using l by (intro list_all2_nthD2 [OF l])
  then have v: "view_object (ys ! snd r) = view_object (xs ! snd r)" by (simp add: alike_obj_def)
  have "is_directory (ys ! snd r)" using view_object_eqD(6) [OF v] i(2) by simp
  moreover from this have "(ys ! snd r)\<lparr>meta := (meta (ys ! snd r))\<lparr>md_size := 0\<rparr>\<rparr> =
      (xs ! snd r)\<lparr>meta := (meta (xs ! snd r))\<lparr>md_size := 0\<rparr>\<rparr>" using v i(2) by (simp add: view_object_def)
  ultimately have "view_object (?g (ys ! snd r)) = view_object (add_size n (xs ! snd r))"
    using i(2) by (simp add: view_object_def is_directory_def add_size_def)
  moreover have "q \<longrightarrow> ?g (ys ! snd r) = cut_object (add_size n (xs ! snd r))"
    using a assms(4) by (auto simp: alike_obj_def cut_object_def add_size_def)
  ultimately have "alike_obj q (?g (ys ! snd r)) (add_size n (xs ! snd r))" by (simp add: alike_obj_def)
  then show "list_all2 (alike_obj q) (ys[snd r := ?g (ys ! snd r)]) (xs[snd r := add_size n (xs ! snd r)])"
    using l by (rule list_all2_update_cong [rotated])
qed

text \<open>The loop, for a fuel with which the walk below a folder ends on both systems.\<close>

lemma both_loops:
  assumes walk: "\<And>db lst dbw. db_ok db \<Longrightarrow> valid_ref db lst \<Longrightarrow> is_directory (deref db lst) \<Longrightarrow> alike q dbw db \<Longrightarrow>
       length (o_path (deref db lst)) + 3 \<le> MAX_PATH \<Longrightarrow> rank (o_path (deref db lst)) < fuel \<Longrightarrow>
       \<exists>dbw' db'. win_addEntriesForDirectory fuel listing dbw lst = Some dbw' \<and>
         addEntriesForDirectory fuel dir st db lst = Some db' \<and> alike q dbw' db'"
    and p: "length p + 3 \<le> MAX_PATH"
  shows "\<forall>(e, isdir, sz) \<in> set es. length e < MAX_PATH \<and>
       (\<exists>n. st (p @ ''/'' @ e) = Some (isdir, n) \<and> (isdir \<or> n = sz) \<and> (q \<longrightarrow> n = sz)) \<and>
       (isdir \<and> take 1 e \<noteq> ''.'' \<longrightarrow> length (path_join p e) + 3 \<le> MAX_PATH \<and> rank (path_join p e) < fuel) \<Longrightarrow>
     db_ok db \<Longrightarrow> valid_ref db lst \<Longrightarrow> o_path (deref db lst) = p \<Longrightarrow> alike q dbw db \<Longrightarrow> q \<longrightarrow> nw = low32 n \<Longrightarrow>
     \<exists>dbw' totalw db' total'. win_entries_loop fuel listing lst es dbw nw = Some (dbw', totalw) \<and>
       add_entries_loop fuel dir st lst (length p + 1) (map fst es) (p @ ''/'') db n = Some (db', total') \<and>
       alike q dbw' db' \<and> (q \<longrightarrow> totalw = low32 total')"
proof (induction es arbitrary: db dbw n nw)
  case (Cons a es)
  obtain e isdir sz where a: "a = (e, isdir, sz)" by (cases a)
  show ?case
  proof (cases "take 1 e = ''.''")
    case True
    with Cons.IH [OF _ Cons.prems(2-6)] Cons.prems(1) a show ?thesis by simp
  next
    case vis: False
    let ?ty = "if isdir then Folder else File"
    obtain m where e: "length e < MAX_PATH" "st (p @ ''/'' @ e) = Some (isdir, m)" "isdir \<or> m = sz" "q \<longrightarrow> m = sz"
      and r: "isdir \<Longrightarrow> length (path_join p e) + 3 \<le> MAX_PATH \<and> rank (path_join p e) < fuel"
      using Cons.prems(1) vis by (auto simp: a)
    have pm: "\<not> PATH_MAX \<le> length ((p @ ''/'') @ e)" using p e(1) by (simp add: MAX_PATH_def PATH_MAX_def)
    obtain db1 cur where add: "addToDatabase db lst e m ?ty = (db1, cur)" by (cases "addToDatabase db lst e m ?ty")
    obtain dbw1 where addw: "addToDatabase dbw lst e (low32 sz) ?ty = (dbw1, cur)" and al1: "alike q dbw1 db1"
      using alike_add [OF Cons.prems(5,3) e(3,4) add] .
    note ok1 = addToDatabase_ok [OF Cons.prems(2,3) add]
    have dt: "dataType (meta (deref db1 cur)) = ?ty OR (dataType (meta (deref db lst)) AND NOT Folder)"
      by (simp add: ok1(3) new_object_def Let_def)
    have cur: "o_path (deref db1 cur) = path_join p e" "(dataType (meta (deref db1 cur)) AND Folder \<noteq> 0) = isdir"
      "is_directory (deref db1 cur) = isdir"
      subgoal by (simp add: ok1(3) new_object_def Let_def Cons.prems(4))
      subgoal unfolding dt by (cases isdir) simp_all
      subgoal unfolding ok1(3) is_directory_new by (cases isdir) simp_all
      done
    have "dataType (meta (deref dbw1 cur)) = dataType (meta (deref db1 cur))"
      by (rule alike_objD(1) [OF alike_deref [OF al1 ok1(2)]])
    then have curw: "(dataType (meta (deref dbw1 cur)) AND Folder \<noteq> 0) = isdir" using cur(2) by simp
    obtain dbw2 db2 where d2: "(if isdir then win_addEntriesForDirectory fuel listing dbw1 cur else Some dbw1) = Some dbw2"
      "(if isdir then addEntriesForDirectory fuel dir st db1 cur else Some db1) = Some db2" "alike q dbw2 db2"
      using walk [OF ok1(1,2) _ al1] cur r al1 by (cases isdir) auto
    have "db_ok db2 \<and> (\<forall>r. valid_ref db1 r \<longrightarrow> valid_ref db2 r)"
      using walk_ok(1) [OF ok1(1,2)] ok1(1) d2(2) by (cases isdir) auto
    then have ok2: "db_ok db2" "valid_ref db2 lst" "valid_ref db2 cur" using ok1(2,4) Cons.prems(3) by blast+
    have p2: "o_path (deref db2 lst) = p"
      using walk_paths(1) [OF ok1(1,2), of fuel dir st db2] ok1(4) [OF Cons.prems(3)] d2(2) Cons.prems(4)
      by (cases lst, cases isdir) simp_all
    have sz2: "q \<longrightarrow> low32 (nw + md_size (meta (deref dbw2 cur))) = low32 (n + md_size (meta (deref db2 cur)))"
      using alike_deref [OF d2(3) ok2(3)] Cons.prems(6) by (auto simp: alike_obj_def)
    from Cons.IH [OF _ ok2(1,2) p2 d2(3) sz2] Cons.prems(1) obtain dbw' totalw db' total' where
      "win_entries_loop fuel listing lst es dbw2 (low32 (nw + md_size (meta (deref dbw2 cur)))) = Some (dbw', totalw)"
      "add_entries_loop fuel dir st lst (length p + 1) (map fst es) (p @ ''/'') db2 (n + md_size (meta (deref db2 cur))) = Some (db', total')"
      "alike q dbw' db'" "q \<longrightarrow> totalw = low32 total'" by auto
    then show ?thesis
      using vis pm e(2) d2(1,2) unfolding a list.map fst_conv win_entries_loop.simps add_entries_loop.simps
      by (simp only: if_False if_True add addw Let_def prod.case cur(2) curw append_assoc option.case bind.bind_lunit)
        (simp add: bind_eq_Some_conv)
  qed
qed simp

lemma both_walks:
  assumes same: "same_directories listing dir st" and tree: "win_finite_tree listing rank" and q: "q \<longrightarrow> same_sizes listing st"
  shows "db_ok db \<Longrightarrow> valid_ref db lst \<Longrightarrow> is_directory (deref db lst) \<Longrightarrow> alike q dbw db \<Longrightarrow>
     length (o_path (deref db lst)) + 3 \<le> MAX_PATH \<Longrightarrow> rank (o_path (deref db lst)) < fuel \<Longrightarrow>
     \<exists>dbw' db'. win_addEntriesForDirectory fuel listing dbw lst = Some dbw' \<and>
       addEntriesForDirectory fuel dir st db lst = Some db' \<and> alike q dbw' db'"
proof (induction fuel arbitrary: db lst dbw)
  case (Suc fuel)
  let ?p = "o_path (deref db lst)"
  have pw: "o_path (deref dbw lst) = ?p"
    by (rule alike_objD(2) [OF alike_deref [OF Suc.prems(4,2)]])
  have len: "\<not> MAX_PATH < length ?p + 3" and pm: "\<not> PATH_MAX \<le> length (?p @ ''/'')"
    using Suc.prems(5) by (simp_all add: MAX_PATH_def PATH_MAX_def)
  show ?case
  proof (cases "listing (?p @ [CHR 0x5C, CHR ''*''])")
    case None
    moreover from None same have "dir (?p @ ''/'') = None" by (simp add: same_directories_def)
    ultimately show ?thesis using Suc.prems(4) pm len pw by (simp add: Let_def)
  next
    case (Some es)
    have dir: "dir (?p @ ''/'') = Some (map fst es)" using same Some by (simp add: same_directories_def)
    have es: "\<forall>(e, isdir, sz) \<in> set es. length e < MAX_PATH \<and>
       (\<exists>n. st (?p @ ''/'' @ e) = Some (isdir, n) \<and> (isdir \<or> n = sz) \<and> (q \<longrightarrow> n = sz)) \<and>
       (isdir \<and> take 1 e \<noteq> ''.'' \<longrightarrow> length (path_join ?p e) + 3 \<le> MAX_PATH \<and> rank (path_join ?p e) < fuel)"
    proof (clarify, intro conjI)
      fix e isdir sz
      assume m: "(e, isdir, sz) \<in> set es"
      then obtain n where n: "length e < MAX_PATH" "st (?p @ ''/'' @ e) = Some (isdir, n)" "isdir \<or> n = sz"
        using same Some unfolding same_directories_def by blast
      then show "length e < MAX_PATH" by simp
      have "q \<longrightarrow> st (?p @ ''/'' @ e) = Some (isdir, sz)" using q Some m unfolding same_sizes_def by blast
      with n show "\<exists>n. st (?p @ ''/'' @ e) = Some (isdir, n) \<and> (isdir \<or> n = sz) \<and> (q \<longrightarrow> n = sz)" by auto
      have "isdir \<and> take 1 e \<noteq> ''.'' \<longrightarrow> length (path_join ?p e) + 3 \<le> MAX_PATH \<and> rank (path_join ?p e) < rank ?p"
        using tree Some m unfolding win_finite_tree_def by blast
      then show "isdir \<and> take 1 e \<noteq> ''.'' \<longrightarrow> length (path_join ?p e) + 3 \<le> MAX_PATH \<and> rank (path_join ?p e) < fuel"
        using Suc.prems(6) by auto
    qed
    have z: "q \<longrightarrow> (0 :: u64) = low32 0" by (simp add: low32_def)
    from both_loops [OF Suc.IH Suc.prems(5) es Suc.prems(1,2) refl Suc.prems(4) z] obtain dbw1 totalw db1 total' where
      l: "win_entries_loop fuel listing lst es dbw 0 = Some (dbw1, totalw)"
      "add_entries_loop fuel dir st lst (length ?p + 1) (map fst es) (?p @ ''/'') db 0 = Some (db1, total')"
      "alike q dbw1 db1" "q \<longrightarrow> totalw = low32 total'" by blast
    have v: "valid_ref db1 lst" using walk_ok(2) [OF Suc.prems(1,2) l(2)] Suc.prems(2) by blast
    have "is_directory (deref db1 lst)"
      using walk_keeps(2) [of is_directory, OF _ Suc.prems(1,2) l(2)] Suc.prems(2,3) by (cases lst) simp
    from alike_size [OF l(3) v this l(4)] show ?thesis
      using l(1,2) dir Some pm len pw by (simp add: Let_def)
  qed
qed simp

lemma master_is_directory: "i < 10 \<Longrightarrow> is_directory (deref (initDatabase paths uuid) (i, 0))"
proof -
  assume "i < 10"
  moreover have "\<forall>i \<in> set [0..<10]. is_directory (db_chains (initDatabase paths uuid) ! i ! 0)"
    by (simp add: initDatabase_def createFilter_def Let_def master_def is_directory_def dir_type_defs upt_rec)
  ultimately show ?thesis by (simp add: deref_def)
qed

text \<open>
  Claim C30: for the same directories, which form a finite tree with paths that fit into \<open>MAX_PATH\<close>
  characters, the database is built on Windows and on the other platforms, and it is the same: the
  objects with their ids, names, paths and kinds, and the sizes of the files, modulo 4 GiB. The size
  of a folder, and of a master, is the sum of what is in it and of what the system reports for
  directories; where \<open>stat\<close> reports what \<open>FindFirstFile\<close> does, every size is the same modulo 4 GiB.
\<close>

theorem win_createDatabase_matches:
  assumes "same_directories listing dir st" and "win_finite_tree listing rank"
    and "\<forall>p \<in> set (master_paths paths uuid). length p + 3 \<le> MAX_PATH \<and> rank p < fuel"
  shows "\<exists>dbw db. win_createDatabase fuel listing paths uuid = Some dbw \<and>
    createDatabase fuel dir st paths uuid = Some db \<and> file_view dbw = file_view db \<and>
    (same_sizes listing st \<longrightarrow> dbw = cut_db db)"
proof -
  let ?q = "same_sizes listing st"
  have "db_ok db \<Longrightarrow> alike ?q dbw db \<Longrightarrow> \<forall>i \<in> set is. i < 10 \<Longrightarrow>
      \<forall>i < 10. is_directory (deref db (i, 0)) \<and> length (o_path (deref db (i, 0))) + 3 \<le> MAX_PATH \<and>
        rank (o_path (deref db (i, 0))) < fuel \<Longrightarrow>
      \<exists>dbw' db'. win_all_masters fuel listing is dbw = Some dbw' \<and>
        add_all_masters fuel dir st is db = Some db' \<and> alike ?q dbw' db'" for "is" db dbw
  proof (induction "is" arbitrary: db dbw)
    case (Cons i "is")
    then have i: "i < 10" and v: "valid_ref db (i, 0)" by (simp_all add: master_valid)
    from both_walks [OF assms(1,2), of ?q db "(i, 0)" dbw fuel] Cons.prems i v obtain dbw1 db1 where
      d: "win_addEntriesForDirectory fuel listing dbw (i, 0) = Some dbw1"
      "addEntriesForDirectory fuel dir st db (i, 0) = Some db1" "alike ?q dbw1 db1" by blast
    have "\<forall>j < 10. o_path (deref db1 (j, 0)) = o_path (deref db (j, 0)) \<and>
        is_directory (deref db1 (j, 0)) = is_directory (deref db (j, 0))"
      using walk_paths(1) [OF Cons.prems(1) v d(2)] walk_keeps(1) [of is_directory, OF _ Cons.prems(1) v d(2)]
        master_valid [OF Cons.prems(1)] by simp
    then have "\<exists>dbw' db'. win_all_masters fuel listing is dbw1 = Some dbw' \<and>
        add_all_masters fuel dir st is db1 = Some db' \<and> alike ?q dbw' db'"
      using Cons.prems d(3) walk_ok(1) [OF Cons.prems(1) v d(2)] by (intro Cons.IH) auto
    then show ?case by (simp add: d)
  qed simp
  moreover have "\<forall>i < 10. is_directory (deref (initDatabase paths uuid) (i, 0)) \<and>
      length (o_path (deref (initDatabase paths uuid) (i, 0))) + 3 \<le> MAX_PATH \<and>
      rank (o_path (deref (initDatabase paths uuid) (i, 0))) < fuel"
  proof (intro allI impI)
    fix i :: nat
    assume i: "i < 10"
    moreover have "length (master_paths paths uuid) = 10" by (simp add: master_paths_def)
    ultimately have "master_paths paths uuid ! i \<in> set (master_paths paths uuid)" by simp
    with i assms(3) show "is_directory (deref (initDatabase paths uuid) (i, 0)) \<and>
      length (o_path (deref (initDatabase paths uuid) (i, 0))) + 3 \<le> MAX_PATH \<and>
      rank (o_path (deref (initDatabase paths uuid) (i, 0))) < fuel"
      by (simp add: master_is_directory initDatabase_paths)
  qed
  moreover have "\<forall>i \<in> set [0..<10]. i < (10 :: nat)" by simp
  ultimately have "\<exists>dbw db. win_createDatabase fuel listing paths uuid = Some dbw \<and>
      createDatabase fuel dir st paths uuid = Some db \<and> alike ?q dbw db"
    unfolding win_createDatabase_def createDatabase_def
    using initDatabase_ok alike_cut [OF cut_initDatabase [symmetric]] by blast
  then show ?thesis using alike_view by blast
qed

definition sample_base :: "string \<Rightarrow> (string \<times> bool \<times> u64) list option" where
  "sample_base p = (if p = ''/p'' then Some [(''d'', True, 0), (''big'', False, 0x140000000)]
     else if p = ''/p/d'' then Some [] else None)"

definition sample_big :: "u64 \<Rightarrow> string \<Rightarrow> (bool \<times> u64) option" where
  "sample_big n p = (if p = ''/p/d'' then Some (True, n) else if p = ''/p/big'' then Some (False, 0x140000000) else None)"

definition sample_height :: "string \<Rightarrow> nat" where
  "sample_height p = (if p = ''/p'' then 1 else 0)"

text \<open>Directories of 4096 bytes on the other platforms, and of 0 as on Windows.\<close>

theorem win_createDatabase_matches_witness:
  "\<exists>dbw db db0. win_createDatabase 2 (\<lambda>q. sample_base (butlast (butlast q))) sample_paths ''id'' = Some dbw \<and>
     createDatabase 2 (\<lambda>d. map_option (map fst) (sample_base (butlast d))) (sample_big 4096) sample_paths ''id'' = Some db \<and>
     file_view dbw = file_view db \<and>
     createDatabase 2 (\<lambda>d. map_option (map fst) (sample_base (butlast d))) (sample_big 0) sample_paths ''id'' = Some db0 \<and>
     dbw = cut_db db0 \<and> md_size (meta (deref dbw (0, 2))) = 0x40000000"
proof -
  let ?listing = "\<lambda>q. sample_base (butlast (butlast q))" and ?dir = "\<lambda>d. map_option (map fst) (sample_base (butlast d))"
  have same: "same_directories ?listing ?dir (sample_big n)" for n
    by (auto simp: same_directories_def butlast_append sample_base_def sample_big_def MAX_PATH_def split: if_splits)
  have sizes: "same_sizes ?listing (sample_big 0)"
    by (auto simp: same_sizes_def butlast_append sample_base_def sample_big_def split: if_splits)
  have tree: "win_finite_tree ?listing sample_height"
    by (auto simp: win_finite_tree_def butlast_append sample_base_def sample_height_def path_join_def MAX_PATH_def split: if_splits)
  have paths: "\<forall>p \<in> set (master_paths sample_paths ''id''). length p + 3 \<le> MAX_PATH \<and> sample_height p < 2"
    by (simp add: master_paths_def sample_paths_def path_join_def MAX_PATH_def sample_height_def)
  let ?dbw = "the (win_createDatabase 2 ?listing sample_paths ''id'')"
  have "md_size (meta (deref ?dbw (0, 2))) = 0x40000000" by code_simp
  then show ?thesis
    using win_createDatabase_matches [OF same [of 4096] tree paths] win_createDatabase_matches [OF same [of 0] tree paths] sizes
    by auto
qed

end
