(* ===== verification/Hex_Dump.thy ===== *)
theory Hex_Dump
  imports Prelude
begin

unbundle bit_operations_syntax

text \<open>
  Logging (\<open>src/src/vitamtp.h\<close>, \<open>src/src/vitamtp.c\<close>) and the hexadecimal dump of what goes over a
  transport (\<open>src/src/device.c\<close>). What is printed is a string.
\<close>

section \<open>Log levels\<close>

definition VitaMTP_DEBUG :: u32 where "VitaMTP_DEBUG = 15"
definition VitaMTP_VERBOSE :: u32 where "VitaMTP_VERBOSE = 7"
definition VitaMTP_INFO :: u32 where "VitaMTP_INFO = 3"
definition VitaMTP_ERROR :: u32 where "VitaMTP_ERROR = 1"

lemmas log_masks = VitaMTP_DEBUG_def VitaMTP_VERBOSE_def VitaMTP_INFO_def VitaMTP_ERROR_def

text \<open>
  A message is printed when all bits of its level are in the mask; those of the level
  \<open>VitaMTP_DEBUG\<close> say where they are from. Levels are nested, so a mask of a level shows that level and
  those below it.
\<close>

definition VitaMTP_Log :: "u32 \<Rightarrow> u32 \<Rightarrow> string \<Rightarrow> string \<Rightarrow> string" where
  "VitaMTP_Log logmask level place message =
     (if logmask AND level = level then
        (if level = VitaMTP_DEBUG then ''VitaMTP '' @ place @ '': '' @ message else ''VitaMTP: '' @ message)
      else [])"

lemma log_levels_nested:
  assumes "m \<in> set [VitaMTP_ERROR, VitaMTP_INFO, VitaMTP_VERBOSE, VitaMTP_DEBUG]"
    and "l \<in> set [VitaMTP_ERROR, VitaMTP_INFO, VitaMTP_VERBOSE, VitaMTP_DEBUG]"
  shows "VitaMTP_Log l m place message \<noteq> [] \<longleftrightarrow> m \<le> l"
  using assms by (auto simp: VitaMTP_Log_def log_masks word_le_nat_alt)

section \<open>Printing numbers\<close>

definition hex_char :: "nat \<Rightarrow> char" where
  "hex_char n = ''0123456789ABCDEF'' ! n"

fun hex_digits :: "nat \<Rightarrow> string" where
  "hex_digits n = (if n < 16 then [hex_char n] else hex_digits (n div 16) @ [hex_char (n mod 16)])"

declare hex_digits.simps [simp del]

text \<open>\<open>printf\<close> with \<open>%0*X\<close>: at least \<open>width\<close> digits.\<close>

definition hex_padded :: "nat \<Rightarrow> nat \<Rightarrow> string" where
  "hex_padded width n = (let ds = hex_digits n in replicate (width - length ds) (CHR ''0'') @ ds)"

definition hex_byte :: "byte \<Rightarrow> string" where
  "hex_byte b = [hex_char (unat b div 16), hex_char (unat b mod 16)]"

section \<open>The dump\<close>

text \<open>
  The number of place values of the line numbers, counted in base \<open>num\<close>. For \<open>num\<close> 1 the quotient
  stays and the loop does not end.
\<close>

partial_function (option) place_values :: "u32 \<Rightarrow> u32 \<Rightarrow> u32 \<Rightarrow> u32 option" where
  "place_values num l k = (if l = 0 then Some k else place_values num (l div num) (k + 1))"

definition visible :: "byte \<Rightarrow> char" where
  "visible b = (if b < 32 \<or> 126 < b then CHR ''.'' else char_of (unat b))"

text \<open>
  A line: the position, the bytes as numbers and as characters; what is behind the data is blank. The
  first loop counts \<open>j\<close> up, the second counts down from \<open>num\<close> and reads \<open>data[j - i]\<close> with the \<open>j\<close> of
  the end of the line. Sizes and positions are unsigned numbers of 32 bits, and wrap around.
\<close>

definition dump_line :: "byte list \<Rightarrow> u32 \<Rightarrow> u32 \<Rightarrow> u32 \<Rightarrow> u32 \<Rightarrow> string" where
  "dump_line data size0 num k j =
     hex_padded (unat k) (unat j) @ '': '' @
     concat (map (\<lambda>i. (if j + of_nat i < size0 then hex_byte (data ! unat (j + of_nat i)) else ''  '') @ '' '') [0..<unat num]) @
     ''| '' @
     map (\<lambda>i. if (j + num) - of_nat i < size0 then visible (data ! unat ((j + num) - of_nat i)) else CHR '' '') (rev [1..<unat num + 1]) @
     [CHR 0x0A]"

partial_function (option) dump_lines :: "byte list \<Rightarrow> u32 \<Rightarrow> u32 \<Rightarrow> u32 \<Rightarrow> u32 \<Rightarrow> string option" where
  "dump_lines data size0 num k j =
     (if j < size0 then do { s \<leftarrow> dump_lines data size0 num k (j + num); Some (dump_line data size0 num k j @ s) }
      else Some [])"

text \<open>\<open>None\<close>: a division by zero, reading behind the data, or not coming back.\<close>

definition VitaMTP_hex_dump :: "byte list \<Rightarrow> u32 \<Rightarrow> u32 \<Rightarrow> string option" where
  "VitaMTP_hex_dump data size0 num =
     (if num = 0 \<or> length data < unat size0 then None
      else do {
        k \<leftarrow> place_values num (size0 div num) 1;
        dump_lines data size0 num k 0 })"

section \<open>The line numbers\<close>

lemma place_values_Some: "1 < num \<Longrightarrow> \<exists>k'. place_values num l k = Some k'"
proof (induction "unat l" arbitrary: l k rule: less_induct)
  case less
  show ?case
  proof (cases "l = 0")
    case False
    then have "unat (l div num) < unat l"
      using less.prems by (simp add: unat_div word_less_nat_alt unat_gt_0)
    from less.hyps [OF this less.prems] show ?thesis using False by (subst place_values.simps) simp
  qed (simp add: place_values.simps)
qed

lemma place_values_one: "place_values num l k = Some r \<Longrightarrow> num = 1 \<longrightarrow> l = 0"
proof (rule place_values.raw_induct [where P = "\<lambda>num l k r. num = 1 \<longrightarrow> l = 0"])
  fix f :: "u32 \<Rightarrow> u32 \<Rightarrow> u32 \<Rightarrow> u32 option" and num l k r
  assume "\<And>num l k r. f num l k = Some r \<Longrightarrow> num = 1 \<longrightarrow> l = 0"
    and "(if l = 0 then Some k else f num (l div num) (k + 1)) = Some r"
  then show "num = 1 \<longrightarrow> l = 0" by (fastforce split: if_splits)
qed

text \<open>With one byte on a line the dump of anything does not end.\<close>

lemma hex_dump_one_hangs: "0 < size0 \<Longrightarrow> VitaMTP_hex_dump data size0 1 = None"
  using place_values_one [of 1 size0 1] by (cases "place_values 1 size0 1") (auto simp: VitaMTP_hex_dump_def)

text \<open>
  The position wraps around: with a number of bytes on a line that divides \<open>2 ^ 32\<close>, as the 16 of the
  callers does, positions stay multiples of it, and a size behind the last of them is never reached.
\<close>

lemma multiple_step:
  assumes "m dvd 2 ^ 32" and "m dvd unat (j :: u32)" and "unat num = m"
  shows "m dvd unat (j + num)"
proof -
  have "m dvd (unat j + m) mod 2 ^ 32" using assms(1,2) by (simp add: dvd_mod_iff)
  then show ?thesis using assms(3) by (simp add: unat_word_ariths)
qed

lemma multiple_below:
  assumes "m dvd 2 ^ 32" and "m dvd unat (j :: u32)" and "2 ^ 32 < unat (size0 :: u32) + m" and "0 < m"
  shows "j < size0"
proof (rule ccontr)
  assume "\<not> j < size0"
  then have "unat size0 \<le> unat j" by (simp add: word_less_nat_alt)
  with assms(3,4) have less: "2 ^ 32 - unat j < m" by linarith
  have "m dvd 2 ^ 32 - unat j" using assms(1,2) by simp
  moreover have "unat j < 2 ^ LENGTH(32)" by (rule unsigned_less)
  then have "0 < 2 ^ 32 - unat j" by simp
  ultimately show False using less dvd_imp_le by fastforce
qed

lemma dump_lines_wraps:
  "dump_lines data size0 num k j = Some s \<Longrightarrow>
     num \<noteq> 0 \<and> unat num dvd 2 ^ 32 \<and> 2 ^ 32 < unat size0 + unat num \<longrightarrow> \<not> unat num dvd unat j"
proof (rule dump_lines.raw_induct [where P = "\<lambda>data size0 num k j s.
    num \<noteq> 0 \<and> unat num dvd 2 ^ 32 \<and> 2 ^ 32 < unat size0 + unat num \<longrightarrow> \<not> unat num dvd unat j"])
  fix f :: "byte list \<Rightarrow> u32 \<Rightarrow> u32 \<Rightarrow> u32 \<Rightarrow> u32 \<Rightarrow> string option" and data size0 num k j s
  assume IH: "\<And>data size0 num k j s. f data size0 num k j = Some s \<Longrightarrow>
      num \<noteq> 0 \<and> unat num dvd 2 ^ 32 \<and> 2 ^ 32 < unat size0 + unat num \<longrightarrow> \<not> unat num dvd unat j"
    and eq: "(if j < size0 then do { s \<leftarrow> f data size0 num k (j + num); Some (dump_line data size0 num k j @ s) }
        else Some []) = Some s"
  show "num \<noteq> 0 \<and> unat num dvd 2 ^ 32 \<and> 2 ^ 32 < unat size0 + unat num \<longrightarrow> \<not> unat num dvd unat j"
  proof (rule impI, rule notI, elim conjE)
    assume n: "num \<noteq> 0" "unat num dvd 2 ^ 32" "2 ^ 32 < unat size0 + unat num" and d: "unat num dvd unat j"
    have "0 < unat num" using n(1) by (simp add: unat_gt_0)
    from multiple_below [OF n(2) d n(3) this] eq obtain s' where "f data size0 num k (j + num) = Some s'"
      by (auto split: Option.bind_splits)
    from IH [OF this] n multiple_step [OF n(2) d refl] show False by simp
  qed
qed

lemma hex_dump_wrap_hangs:
  assumes "unat num dvd 2 ^ 32" and "2 ^ 32 < unat size0 + unat num"
  shows "VitaMTP_hex_dump data size0 num = None"
proof (cases "num = 0")
  case False
  then have "dump_lines data size0 num k 0 = None" for k
    using dump_lines_wraps [of data size0 num k 0] assms by (cases "dump_lines data size0 num k 0") auto
  then show ?thesis by (cases "place_values num (size0 div num) 1") (auto simp: VitaMTP_hex_dump_def)
qed (simp add: VitaMTP_hex_dump_def)

section \<open>Reading a dump\<close>

definition hex_value :: "char \<Rightarrow> nat" where
  "hex_value c = (if of_char c \<le> (57 :: nat) then of_char c - 48 else of_char c - 55)"

fun read_bytes :: "string \<Rightarrow> byte list" where
  "read_bytes (a # b # c # s) =
     (if a = CHR '' '' then [] else of_nat (16 * hex_value a + hex_value b) # read_bytes s)"
| "read_bytes s = []"

definition read_line :: "nat \<Rightarrow> string \<Rightarrow> byte list" where
  "read_line num l = read_bytes (take (3 * num) (drop 2 (dropWhile (\<lambda>c. c \<noteq> CHR '':'') l)))"

function read_dump :: "nat \<Rightarrow> string \<Rightarrow> byte list" where
  "read_dump num s =
     (if s = [] then []
      else read_line num (takeWhile (\<lambda>c. c \<noteq> CHR 0x0A) s) @
           read_dump num (tl (dropWhile (\<lambda>c. c \<noteq> CHR 0x0A) s)))"
  by pat_completeness auto

termination
proof (relation "measure (\<lambda>(num, s). length s)")
  fix num and s :: string
  assume "s \<noteq> []"
  then have "length (tl (dropWhile (\<lambda>c. c \<noteq> CHR 0x0A) s)) < length s"
    using length_dropWhile_le [of "\<lambda>c. c \<noteq> CHR 0x0A" s] by (cases s) (auto simp: le_imp_less_Suc)
  then show "((num, tl (dropWhile (\<lambda>c. c \<noteq> CHR 0x0A) s)), num, s) \<in> measure (\<lambda>(num, s). length s)" by simp
qed simp

declare read_dump.simps [simp del]

lemma hex_chars: "n < 16 \<Longrightarrow> hex_value (hex_char n) = n \<and> hex_char n \<notin> {CHR '' '', CHR '':'', CHR 0x0A}"
proof -
  have "\<forall>n \<in> set [0..<16]. hex_value (hex_char n) = n \<and> hex_char n \<notin> {CHR '' '', CHR '':'', CHR 0x0A}" by code_simp
  then show "n < 16 \<Longrightarrow> ?thesis" by simp
qed

lemma hex_digits_chars: "c \<in> set (hex_digits n) \<Longrightarrow> \<exists>k < 16. c = hex_char k"
proof (induction n rule: hex_digits.induct)
  case (1 n)
  have "n mod 16 < 16" by simp
  then have "\<exists>k < 16. hex_char (n mod 16) = hex_char k" by blast
  with 1 show ?case by (subst (asm) (2) hex_digits.simps) (auto split: if_splits)
qed

lemma hex_padded_chars: "c \<in> set (hex_padded k n) \<Longrightarrow> c \<notin> {CHR '' '', CHR '':'', CHR 0x0A}"
proof -
  assume "c \<in> set (hex_padded k n)"
  then consider "c = CHR ''0''" | "c \<in> set (hex_digits n)" by (auto simp: hex_padded_def Let_def)
  then show ?thesis
  proof cases
    case 2
    then obtain k where "k < 16" "c = hex_char k" using hex_digits_chars by blast
    then show ?thesis using hex_chars [of k] by simp
  qed simp
qed

lemma byte_digits: "unat (b :: byte) div 16 < 16" "unat (b :: byte) mod 16 < 16"
proof -
  have "unat b < 2 ^ LENGTH(8)" by (rule unsigned_less)
  then have "unat b < 16 * 16" by simp
  then show "unat b div 16 < 16" by (rule less_mult_imp_div_less)
  show "unat b mod 16 < 16" by simp
qed

lemma hex_byte_plain [simp]: "CHR 0x0A \<notin> set (hex_byte b)"
  using hex_chars [OF byte_digits(1), of b] hex_chars [OF byte_digits(2), of b] by (auto simp: hex_byte_def)

lemma read_hex_byte [simp]: "read_bytes (hex_byte b @ CHR '' '' # s) = b # read_bytes s"
proof -
  have "of_nat (16 * (unat b div 16) + unat b mod 16) = b" by (simp only: mult_div_mod_eq) simp
  then show ?thesis using hex_chars [OF byte_digits(1), of b] hex_chars [OF byte_digits(2), of b]
    by (simp add: hex_byte_def)
qed

text \<open>The columns of a line, for the bytes that the line is about.\<close>

lemma blanks_end [simp]: "read_bytes (concat (replicate n ''   '')) = []"
  by (cases n) simp_all

definition columns :: "nat \<Rightarrow> byte list \<Rightarrow> string" where
  "columns num bs = concat (map (\<lambda>b. hex_byte b @ '' '') bs) @ concat (replicate (num - length bs) ''   '')"

lemma read_columns: "read_bytes (columns num bs) = bs"
proof -
  have "read_bytes (concat (map (\<lambda>b. hex_byte b @ '' '') bs) @ concat (replicate n ''   '')) = bs" for n
    by (induction bs) simp_all
  then show ?thesis by (simp add: columns_def)
qed

lemma length_columns: "length bs \<le> num \<Longrightarrow> length (columns num bs) = 3 * num"
  by (simp add: columns_def length_concat hex_byte_def comp_def sum_list_triv sum_list_replicate)

lemma position_in_line:
  assumes "unat (j :: u32) + i < 2 ^ 32"
  shows "unat (j + of_nat i) = unat j + i"
proof -
  have "unat (of_nat i :: u32) = i" using assms by (simp add: unat_of_nat take_bit_nat_eq_self)
  with assms show ?thesis by (simp add: unat_word_ariths)
qed

lemma dump_columns:
  assumes "length data = unat (size0 :: u32)" and "j \<le> size0" and "unat j + n \<le> 2 ^ 32"
  shows "concat (map (\<lambda>i. (if j + of_nat i < size0 then hex_byte (data ! unat (j + of_nat i)) else ''  '') @ '' '') [0..<n]) =
    columns n (take n (drop (unat j) data))"
  using assms(3)
proof (induction n)
  case 0
  then show ?case by (simp add: columns_def)
next
  case (Suc n)
  then have u: "unat (j + of_nat n) = unat j + n" by (intro position_in_line) simp
  have le: "unat j \<le> length data" using assms(1,2) by (simp add: word_le_nat_alt)
  show ?case
  proof (cases "unat j + n < length data")
    case True
    then have "j + of_nat n < size0" using u assms(1) by (simp add: word_less_nat_alt)
    moreover have "take (Suc n) (drop (unat j) data) = take n (drop (unat j) data) @ [data ! (unat j + n)]"
      using True by (simp add: take_Suc_conv_app_nth)
    ultimately show ?thesis using Suc True u by (simp add: columns_def)
  next
    case False
    then have "\<not> j + of_nat n < size0" using u assms(1) by (simp add: word_less_nat_alt)
    moreover have "take (Suc n) (drop (unat j) data) = drop (unat j) data" "take n (drop (unat j) data) = drop (unat j) data"
      "Suc n - length (drop (unat j) data) = Suc (n - length (drop (unat j) data))" using False le by simp_all
    moreover have "concat (replicate (Suc n) ''   '') = concat (replicate n ''   '') @ ''   ''" for n
      by (induction n) simp_all
    ultimately show ?thesis using Suc by (simp add: columns_def del: replicate.simps(2))
  qed
qed

lemma visible_no_newline: "visible b \<noteq> CHR 0x0A"
proof
  assume v: "visible b = CHR 0x0A"
  then have c: "(char_of (unat b) :: char) = CHR 0x0A" and b: "32 \<le> unat b"
    by (auto simp: visible_def word_less_nat_alt split: if_splits)
  have "unat b < 2 ^ LENGTH(8)" by (rule unsigned_less)
  then have "of_char (char_of (unat b) :: char) = unat b" by (simp add: of_char_of)
  with c b show False by simp
qed

text \<open>A line without its line feed, and what is read from it.\<close>

lemma dump_line_read:
  assumes "length data = unat size0" and "j \<le> size0" and "unat j + unat num \<le> 2 ^ 32"
  obtains l where "dump_line data size0 num k j = l @ [CHR 0x0A]" and "CHR 0x0A \<notin> set l"
    and "read_line (unat num) l = take (unat num) (drop (unat j) data)"
proof
  let ?bs = "take (unat num) (drop (unat j) data)" and ?p = "hex_padded (unat k) (unat j)"
  let ?ascii = "map (\<lambda>i. if (j + num) - of_nat i < size0 then visible (data ! unat ((j + num) - of_nat i)) else CHR '' '') (rev [1..<unat num + 1])"
  let ?l = "?p @ '': '' @ columns (unat num) ?bs @ ''| '' @ ?ascii"
  show "dump_line data size0 num k j = ?l @ [CHR 0x0A]"
    by (simp add: dump_line_def dump_columns [OF assms])
  have "CHR 0x0A \<notin> set (columns (unat num) ?bs)" by (simp add: columns_def)
  then show "CHR 0x0A \<notin> set ?l"
    using hex_padded_chars [of "CHR 0x0A" "unat k" "unat j"] visible_no_newline by (auto dest: sym)
  have "dropWhile (\<lambda>c. c \<noteq> CHR '':'') (?p @ '':'' @ s) = '':'' @ s" for s
    using hex_padded_chars [of _ "unat k" "unat j"] by (subst dropWhile_append2) auto
  then have "drop 2 (dropWhile (\<lambda>c. c \<noteq> CHR '':'') ?l) = columns (unat num) ?bs @ ''| '' @ ?ascii" by simp
  then show "read_line (unat num) ?l = ?bs"
    by (simp add: read_line_def length_columns read_columns)
qed

lemma dropWhile_newline: "CHR 0x0A \<notin> set l \<Longrightarrow> dropWhile (\<lambda>c. c \<noteq> CHR 0x0A) (l @ CHR 0x0A # s) = CHR 0x0A # s"
  by (subst dropWhile_append2) auto

lemma takeWhile_newline: "CHR 0x0A \<notin> set l \<Longrightarrow> takeWhile (\<lambda>c. c \<noteq> CHR 0x0A) (l @ CHR 0x0A # s) = l"
  by (subst takeWhile_append2) auto

lemma read_dump_line: "CHR 0x0A \<notin> set l \<Longrightarrow> read_dump num (l @ CHR 0x0A # s) = read_line num l @ read_dump num s"
  by (subst read_dump.simps) (simp add: takeWhile_newline dropWhile_newline)

lemma dump_lines_read:
  assumes "length data = unat size0" and "0 < num" and "unat size0 + unat num \<le> 2 ^ 32"
    and "unat j < unat size0 + unat num"
  shows "\<exists>s. dump_lines data size0 num k j = Some s \<and> read_dump (unat num) s = drop (unat j) data"
  using assms(4)
proof (induction "unat size0 - unat j" arbitrary: j rule: less_induct)
  case less
  show ?case
  proof (cases "j < size0")
    case True
    then have n: "unat j < unat size0" by (simp add: word_less_nat_alt)
    have j: "unat (j + num) = unat j + unat num" using n assms(3) by (simp add: unat_word_ariths)
    obtain l where l: "dump_line data size0 num k j = l @ [CHR 0x0A]" "CHR 0x0A \<notin> set l"
      "read_line (unat num) l = take (unat num) (drop (unat j) data)"
      using dump_line_read [OF assms(1), of j num k] True n assms(3) by (auto simp: word_le_nat_alt)
    have "unat size0 - unat (j + num) < unat size0 - unat j" "unat (j + num) < unat size0 + unat num"
      using assms(2) n j by (auto simp: word_less_nat_alt)
    from less.hyps [OF this] j obtain s where "dump_lines data size0 num k (j + num) = Some s"
      "read_dump (unat num) s = drop (unat j + unat num) data" by auto
    moreover have "take m (drop i data) @ drop (i + m) data = drop i data" for m i
      by (metis append_take_drop_id drop_drop add.commute)
    ultimately show ?thesis
      using True by (subst dump_lines.simps) (simp add: l(1,3) read_dump_line [OF l(2)])
  next
    case False
    then have "unat size0 \<le> unat j" by (simp add: word_less_nat_alt)
    then show ?thesis using False assms(1) by (subst dump_lines.simps) (simp add: read_dump.simps)
  qed
qed

text \<open>
  Claim C40: a dump shows its data. With two or more bytes on a line, and a size that stays that number
  of bytes below \<open>2 ^ 32\<close>, where the position would wrap around, the dump comes to its end, and the
  bytes are read back from its columns, whatever the visible characters beside them are.
\<close>

theorem hex_dump_reads_back:
  assumes "length data = unat size0" and "1 < num" and "unat size0 + unat num \<le> 2 ^ 32"
  shows "\<exists>s. VitaMTP_hex_dump data size0 num = Some s \<and> read_dump (unat num) s = data"
proof -
  obtain k where "place_values num (size0 div num) 1 = Some k" using place_values_Some [OF assms(2)] by blast
  moreover have "0 < num" "num \<noteq> 0" using assms(2) by (auto intro: order_trans simp: word_less_nat_alt)
  moreover from this dump_lines_read [OF assms(1) this(1) assms(3), of 0 k]
  have "\<exists>s. dump_lines data size0 num k 0 = Some s \<and> read_dump (unat num) s = data"
    by (simp add: word_less_nat_alt)
  ultimately show ?thesis using assms(1) by (simp add: VitaMTP_hex_dump_def)
qed

theorem hex_dump_reads_back_witness:
  "\<exists>s. VitaMTP_hex_dump [0x41, 0x0A, 0x7C] 3 2 = Some s \<and> read_dump 2 s = [0x41, 0x0A, 0x7C]"
  using hex_dump_reads_back [of "[0x41, 0x0A, 0x7C]" 3 2] by simp

end
