(* ===== verification/Spec2Isabelle.thy ===== *)
theory Spec2Isabelle
  imports Prelude Ptp_Endian Ptp_String Ptp_Datasets Ptp_Prop Ptp_Transaction Ptp_Cache Ptp_Ops Ptp_Events Ptp_Canon Ptp_Vendor Ptp_Eos Ptp_Eos_Props Ptp_Free Ptp_Names Utilities Database
    Database_Remove Database_Inv Catalog Catalog_Props Catalog_Lists Datautils Vitamtp Vitamtp_Props
    Opencma Opencma_Inv Opencma_System Opencma_Sizes Opencma_Props Opencma_Main Opencma_Locks Ptp_Fd Ptpip Ptpip_Props Wireless Wireless_Props
    Usb Usb_Props Database_Spec Database_Free Windows_Files Hex_Dump
begin

text \<open>
  VitaMTP: the MTP library for the Vita and the content manager OpenCMA that is built on it.

  The program and its parts. A device asks, by events, for requests; the host answers each
  event with commands. \<open>src/src/ptp.c\<close> and \<open>src/src/ptp-pack.c\<close> are the PTP layer: datasets are
  packed into bytes and unpacked from them, and a command is a transaction of request,
  data phase and response. It runs over one of two transports, \<open>src/src/usb.c\<close> (libusb) and the
  first half of \<open>src/src/wireless.c\<close> (PTP/IP); the second half of \<open>src/src/wireless.c\<close> registers devices
  and answers searches. \<open>src/src/vitamtp.c\<close> has one function per Vita command, with the binary
  layout or the XML document (\<open>src/src/datautils.c\<close>) of its data. \<open>src/src/opencma.c\<close> is the
  content manager: it keeps a database of the files it offers (\<open>src/src/database.c\<close>,
  \<open>src/src/utilities.c\<close>) and has one handler per event.

  Theories, in the order of their imports.

  \<^item> Prelude: bytes, reading and writing of slices of a buffer (an access outside is \<open>None\<close>), C
    strings, \<open>mapM\<close>.
  \<^item> \<open>Ptp_Endian\<close>, \<open>Ptp_String\<close>, \<open>Ptp_Datasets\<close>, \<open>Ptp_Prop\<close> (\<open>ptp-pack.c\<close>): the accessors for
    both byte orders, with the locale \<open>codec\<close> for a pair of inverse accessors; strings and arrays;
    the datasets; property values, descriptions and object property lists. Lemmas: what is packed is
    unpacked again, for a session with or without iconv when its conversions are inverse on the string
    (\<open>string_survives\<close>), where a buffer is left, what is lost.
  \<^item> \<open>Ptp_Transaction\<close>, \<open>Ptp_Cache\<close>, \<open>Ptp_Ops\<close> (\<open>ptp.c\<close>): the transaction over the record
    \<open>io_funs\<close> of transport functions, the memory data handler (locale \<open>data_handler\<close>), the
    sorted cache of objects, the standard and MTP operations. Lemmas: the response belongs to the
    request, old responses are skipped once the data phase is over, a silent device is waited for for
    ever, the cache stays sorted.
  \<^item> \<open>Ptp_Fd\<close> (\<open>ptp.c\<close>): file descriptors as data handlers.
  \<^item> \<open>Ptp_Events\<close> (\<open>ptp.c\<close>): the queue of events and the polling of a device, with the locale of a
    first in, first out queue.
  \<^item> \<open>Ptp_Canon\<close>, \<open>Ptp_Vendor\<close>, \<open>Ptp_Eos\<close>, \<open>Ptp_Eos_Props\<close> (\<open>ptp.c\<close>, \<open>ptp-pack.c\<close>): the operations for
    devices of Kodak, Canon and Nikon and for CHDK, which the PTP layer has inherited: each is
    a transaction and its dataset. Lemmas: the directory of a Canon camera gets its
    storages, image formats come back, records of changes are counted; where buffers are left.
  \<^item> \<open>Ptp_Free\<close> (\<open>ptp.c\<close>): what the releasing functions release. Lemmas: what was unpacked is released
    once, and which lists are not.
  \<^item> \<open>Ptp_Names\<close> (\<open>ptp.c\<close>): the tables of texts, with the locale \<open>name_table\<close> of a table that lists
    no code twice, and the rendering of values. Lemmas: every name is found, and which are not.
  \<^item> Utilities, Database, Catalog (\<open>utilities.c\<close>, \<open>database.c\<close>): paths and files over an explicit
    file system; the database as ten lists of objects, a reference being a pair of positions; the
    walk over the content directories. \<open>Database_Remove\<close>, \<open>Database_Inv\<close>, \<open>Catalog_Props\<close>: the
    invariant \<open>db_ok\<close>, that each operation keeps it, that the walk over a finite tree ends with a
    database (\<open>walk_inv\<close> states what such a walk keeps), removal of subtrees, lookups; the
    locale \<open>object_table\<close>. \<open>Catalog_Lists\<close>: what \<open>filterObjects\<close> lists for ids, folders and filters. \<open>Database_Spec\<close>: the database refines a map from ids to objects
    (locale \<open>refines\<close>). \<open>Database_Free\<close>: the blocks that objects own and \<open>freeCMAObject\<close> releases;
    in any database that is built and changed each is released once, and which are lost.
  \<^item> \<open>Windows_Files\<close> (\<open>utilities.c\<close>): the file functions for Windows and the space on a disk. Lemmas: the
    database is that of the other platforms up to the width of file sizes and the sizes that the systems
    report for directories; which paths are undefined.
  \<^item> Datautils (\<open>datautils.c\<close>): the XML documents as trees.
  \<^item> Vitamtp, \<open>Vitamtp_Props\<close> (\<open>vitamtp.c\<close>, \<open>device.c\<close>): the commands and their data.
  \<^item> Opencma (\<open>opencma.c\<close>): the event handlers over the record \<open>world\<close> of database, lock, files,
    settings, task state and session. \<open>Opencma_Inv\<close>: every handler keeps the invariant and gives
    the lock back, by the rules for \<open>holds\<close>, a partial correctness assertion on the option
    monad. \<open>Opencma_Sizes\<close>: the sizes of folders. \<open>Opencma_System\<close>: the threads as a step
    relation whose steps are whole rounds. \<open>Opencma_Props\<close>: the properties of handlers and system. \<open>Opencma_Main\<close>: the
    command line, the attempts to connect and \<open>main\<close> up to the start of the threads; which
    command lines are accepted, and that the invariant holds from the start of the program on.
    \<open>Opencma_Locks\<close>: the threads action by action, as far as they take the lock of the database, follow
    its pointer and use its objects; the runs of any handlers in which the lock
    and the database are safe, those that go wrong, and the two handlers that use an object the lock does
    not keep.
  \<^item> Ptpip, \<open>Ptpip_Props\<close>, Wireless, \<open>Wireless_Props\<close> (\<open>wireless.c\<close>): PTP/IP over sockets whose
    input is any sequence of segments, pauses and failures; registration, standing by and broadcast. The locale
    \<open>data_transport\<close> is what a transaction needs of its transport; it is interpreted for a
    scripted device, for PTP/IP and for USB.
  \<^item> Usb, \<open>Usb_Props\<close> (\<open>usb.c\<close>): containers over bulk transfers, and the search for the device.
  \<^item> \<open>Hex_Dump\<close> (\<open>device.c\<close>, \<open>vitamtp.h\<close>): the levels of log messages, and the dump of data as text,
    which is read back when it is smaller than \<open>2 ^ 32\<close> by a line; its 32 bit position wraps around
    behind that.

  Conventions. \<open>None\<close> is undefined behaviour of the C code (an access outside a buffer, a missing or
  freed pointer, an uninitialised value), or not coming back; each definition says which. Error
  codes are results. 32 bit fields are words; sizes are natural numbers where the code cannot
  reach their bound, with the wrap-around written out where it can. What libusb, iconv, qsort,
  libxml2 and the file system answer is a parameter, and so is the space on a disk for the handlers; what is assumed
  of them is a hypothesis (\<open>usb_pipe\<close>, \<open>reliable\<close>, \<open>qsort_ok\<close>).

  Bounds and fuel. \<open>rm_loop\<close> has the fuel \<open>rm_fuel\<close>, the square of the length of the list, which
  \<open>rm_correct\<close> proves enough for a well formed list; \<open>rename_loop\<close> has the length of the list plus
  one, \<open>climb_sizes\<close> the number of objects, proved enough in \<open>Opencma_Sizes\<close>. The walks over
  directories have the depth to which directories may be nested; any fuel that covers a finite tree gives
  the same database (\<open>createDatabase_ok\<close>). Their \<open>None\<close> is a path longer than the buffer, or a tree
  deeper than the fuel. The loops that may not
  end are \<open>partial_function\<close>s, and the properties prove that they return.

  Not modelled. The digits of rendered floating point numbers; the texts of log messages; the
  socket pair and the \<open>asprintf\<close> that are built for Windows; the functions of CHDK that are disabled in the
  source; the memory handler of \<open>usb.c\<close>, which repeats that of \<open>ptp.c\<close>; the flags of other
  devices. In \<open>Opencma_System\<close> handlers are single steps; how they mix with a refresh is the
  subject of \<open>Opencma_Locks\<close>, which leaves out what they do with an object. That \<open>fcntl\<close> and the \<open>remove\<close> of
  \<open>deleteAll\<close> succeed, memory does not run out and the counter of ids does not overflow is assumed.
\<close>

end
